(* ===== verification/Prelude.thy ===== *)
theory Prelude
  imports Main
begin

section \<open>Prelude: errors, results and the lemmas the components share\<close>

text \<open>
  What every component of the harness model uses.
  \<^item> \<open>py_error\<close>: the exceptions the Python code raises, with the source's messages; a
    fallible operation returns \<open>py_error + 'a\<close>.
  \<^item> \<open>raise_unless\<close> and \<open>and_then\<close>: a guard that raises, and sequencing that stops at the
    first raise, with the rules the automation uses for them.
  \<^item> \<open>first_failure\<close>: a guard chain in which the first failing check names the error.
  \<^item> list lemmas on prefixes, \<open>take\<close> and \<open>concat\<close>.
\<close>

subsection \<open>Hint collections\<close>

named_theorems result_simps \<open>equations for results and guards\<close>
named_theorems preserves \<open>an operation keeps a component's invariant\<close>

subsection \<open>Exceptions and results\<close>

datatype py_error =
    TypeError string
  | ValueError string
  | RuntimeError string
  | OverflowError string
  | AssertionError string
  | OSError
  | CancelledError

definition and_then :: "'e + 'a \<Rightarrow> ('a \<Rightarrow> 'e + 'b) \<Rightarrow> 'e + 'b" where
  "and_then r k = (case r of Inl e \<Rightarrow> Inl e | Inr x \<Rightarrow> k x)"

definition raise_unless :: "bool \<Rightarrow> 'e \<Rightarrow> 'e + unit" where
  "raise_unless b e = (if b then Inr () else Inl e)"

definition ok_result :: "'e + 'a \<Rightarrow> bool" where
  "ok_result r = (case r of Inl _ \<Rightarrow> False | Inr _ \<Rightarrow> True)"

lemma and_then_simps [simp, result_simps]:
  "and_then (Inl e) k = Inl e"
  "and_then (Inr x) k = k x"
  by (simp_all add: and_then_def)

lemma and_then_Inr_iff [simp, result_simps]:
  "and_then r k = Inr y \<longleftrightarrow> (\<exists>x. r = Inr x \<and> k x = Inr y)"
  by (cases r) simp_all

lemma and_then_Inl_iff:
  "and_then r k = Inl e \<longleftrightarrow> r = Inl e \<or> (\<exists>x. r = Inr x \<and> k x = Inl e)"
  by (cases r) simp_all

lemma raise_unless_Inr_iff [simp, result_simps]: "raise_unless b e = Inr u \<longleftrightarrow> b"
  by (simp add: raise_unless_def)

lemma raise_unless_Inl_iff [simp, result_simps]: "raise_unless b e = Inl e' \<longleftrightarrow> \<not> b \<and> e' = e"
  by (auto simp: raise_unless_def)

lemma ok_result_simps [simp, result_simps]:
  "ok_result (Inl e) = False"
  "ok_result (Inr x) = True"
  by (simp_all add: ok_result_def)

lemma ok_result_iff: "ok_result r \<longleftrightarrow> (\<exists>x. r = Inr x)"
  by (cases r) simp_all

text \<open>
  A chain of checks, each with the error it raises, evaluated in order: the shape of every
  \<open>__post_init__\<close> and of the codec's validators.
\<close>

fun first_failure :: "(bool \<times> 'e) list \<Rightarrow> 'e option" where
  "first_failure [] = None"
| "first_failure ((ok, e) # cs) = (if ok then first_failure cs else Some e)"

lemma first_failure_None_iff: "first_failure cs = None \<longleftrightarrow> (\<forall>(ok, e) \<in> set cs. ok)"
  by (induction cs rule: first_failure.induct) auto

subsection \<open>Lists\<close>

lemma list_all_take: "list_all P xs \<Longrightarrow> list_all P (take n xs)"
  by (auto simp: list_all_iff dest: in_set_takeD)

lemma list_all_drop: "list_all P xs \<Longrightarrow> list_all P (drop n xs)"
  by (auto simp: list_all_iff dest: in_set_dropD)

lemma length_concat_snoc: "length (concat (xss @ [xs])) = length (concat xss) + length xs"
  by simp

lemma map_filter_append:
  "List.map_filter f (xs @ ys) = List.map_filter f xs @ List.map_filter f ys"
  by (simp add: List.map_filter_def)

lemma map_filter_Nil_iff: "List.map_filter f xs = [] \<longleftrightarrow> list_all (\<lambda>x. f x = None) xs"
  by (induction xs) (auto split: option.split)

lemma concat_eq_Nil_iff: "concat xss = [] \<longleftrightarrow> (\<forall>xs \<in> set xss. xs = [])"
  by (induction xss) auto

lemma fold_last_Some:
  "fold (\<lambda>x acc. case f x of None \<Rightarrow> acc | Some y \<Rightarrow> Some y) xs a =
     (case filter (\<lambda>x. f x \<noteq> None) (rev xs) of [] \<Rightarrow> a | x # _ \<Rightarrow> f x)"
proof (induction xs arbitrary: a rule: rev_induct)
  case Nil
  then show ?case by simp
next
  case (snoc x xs)
  then show ?case by (cases "f x") simp_all
qed

end
