(* ===== verification/Py_Text.thy ===== *)
theory Py_Text
  imports Prelude "HOL-Library.Sublist"
begin

section \<open>Python text: code points, UTF-8, decimal numerals\<close>

text \<open>
  A Python \<open>str\<close> is a list of code points (\<open>ustr\<close>), lone surrogates included, because the
  code's checks are about exactly those; a Python \<open>bytes\<close> value is a list of integers below
  256 (\<open>byte list\<close>). \<open>utf8_encode\<close> is \<open>str.encode("utf-8")\<close>, with \<open>None\<close> for the
  \<open>UnicodeEncodeError\<close> of a lone surrogate; \<open>utf8_decode\<close> is the strict decoder
  (overlong forms, surrogates, values past U+10FFFF and truncated sequences are errors), and
  \<open>utf8_ignore\<close> is \<open>errors="ignore"\<close>. The main lemmas are the two round trips and the
  fact that an encoding cut anywhere decodes, under \<open>ignore\<close>, to a prefix of the text.
\<close>

type_synonym ustr = "nat list"
type_synonym byte = nat

definition lit :: "string \<Rightarrow> ustr" where
  "lit s = map of_char s"

lemma lit_simps [simp]:
  "lit [] = []"
  "lit (c # s) = of_char c # lit s"
  by (simp_all add: lit_def)

lemma length_lit [simp]: "length (lit s) = length s"
  by (simp add: lit_def)

lemma lit_eq_iff [simp]: "lit s = lit t \<longleftrightarrow> s = t"
  by (simp add: lit_def inj_map_eq_map inj_def)

text \<open>
  A Python value of unknown type, as far as the code's own type checks look at it: a boolean is
  an \<open>int\<close> for \<open>isinstance\<close> but not for \<open>type(value) is int\<close>, which is what the code uses.
\<close>

datatype py_object = PyNone | PyBool bool | PyInt int | PyFloat | PyStr ustr | PyOther

subsection \<open>Decimal numerals\<close>

fun dec_nat :: "nat \<Rightarrow> ustr" where
  "dec_nat n = (if n < 10 then [48 + n] else dec_nat (n div 10) @ [48 + n mod 10])"

declare dec_nat.simps [simp del]

definition dec_int :: "int \<Rightarrow> ustr" where
  "dec_int i = (if i < 0 then 45 # dec_nat (nat (- i)) else dec_nat (nat i))"

text \<open>The numeral an f-string puts into an error message.\<close>

definition decimal :: "int \<Rightarrow> string" where
  "decimal i = map char_of (dec_int i)"

fun dec_value :: "nat \<Rightarrow> ustr \<Rightarrow> nat" where
  "dec_value acc [] = acc"
| "dec_value acc (d # ds) = dec_value (acc * 10 + (d - 48)) ds"

lemma dec_value_append: "dec_value acc (xs @ ys) = dec_value (dec_value acc xs) ys"
  by (induction xs arbitrary: acc) simp_all

lemma dec_value_dec_nat: "dec_value 0 (dec_nat n) = n"
proof (induction n rule: dec_nat.induct)
  case (1 n)
  then show ?case by (subst dec_nat.simps) (auto simp: dec_value_append)
qed

lemma dec_nat_digits: "d \<in> set (dec_nat n) \<Longrightarrow> 48 \<le> d \<and> d \<le> 57"
proof (induction n rule: dec_nat.induct)
  case (1 n)
  show ?case
  proof (cases "n < 10")
    case True
    with "1.prems" show ?thesis by (simp add: dec_nat.simps [of n])
  next
    case False
    then have "d \<in> set (dec_nat (n div 10)) \<or> d = 48 + n mod 10"
      using "1.prems" by (auto simp: dec_nat.simps [of n])
    then show ?thesis using "1.IH" [OF False] by auto
  qed
qed

lemma dec_nat_inj: "dec_nat m = dec_nat n \<longleftrightarrow> m = n"
  by (metis dec_value_dec_nat)

lemma dec_nat_not_Nil [simp]: "dec_nat n \<noteq> []"
  by (subst dec_nat.simps) simp

subsection \<open>UTF-8\<close>

definition is_surrogate :: "nat \<Rightarrow> bool" where
  "is_surrogate c \<longleftrightarrow> 0xD800 \<le> c \<and> c < 0xE000"

definition is_scalar :: "nat \<Rightarrow> bool" where
  "is_scalar c \<longleftrightarrow> c < 0x110000 \<and> \<not> is_surrogate c"

definition utf8_char :: "nat \<Rightarrow> byte list" where
  "utf8_char c =
     (if c < 0x80 then [c]
      else if c < 0x800 then [0xC0 + c div 64, 0x80 + c mod 64]
      else if c < 0x10000 then [0xE0 + c div 4096, 0x80 + c div 64 mod 64, 0x80 + c mod 64]
      else [0xF0 + c div 262144, 0x80 + c div 4096 mod 64, 0x80 + c div 64 mod 64, 0x80 + c mod 64])"

definition utf8_bytes :: "ustr \<Rightarrow> byte list" where
  "utf8_bytes s = concat (map utf8_char s)"

definition utf8_encode :: "ustr \<Rightarrow> byte list option" where
  "utf8_encode s = (if list_all is_scalar s then Some (utf8_bytes s) else None)"

definition is_cont :: "byte \<Rightarrow> bool" where
  "is_cont b \<longleftrightarrow> 0x80 \<le> b \<and> b < 0xC0"

definition utf8_next :: "byte list \<Rightarrow> (nat \<times> byte list) option" where
  "utf8_next bs =
     (case bs of
        [] \<Rightarrow> None
      | b # r \<Rightarrow>
          if b < 0x80 then Some (b, r)
          else if b < 0xC2 then None
          else if b < 0xE0 then
            (case r of
               c1 # r1 \<Rightarrow> if is_cont c1 then Some ((b - 0xC0) * 64 + (c1 - 0x80), r1) else None
             | _ \<Rightarrow> None)
          else if b < 0xF0 then
            (case r of
               c1 # c2 # r2 \<Rightarrow>
                 (let v = (b - 0xE0) * 4096 + (c1 - 0x80) * 64 + (c2 - 0x80) in
                  if is_cont c1 \<and> is_cont c2 \<and> 0x800 \<le> v \<and> \<not> is_surrogate v then Some (v, r2)
                  else None)
             | _ \<Rightarrow> None)
          else if b < 0xF5 then
            (case r of
               c1 # c2 # c3 # r3 \<Rightarrow>
                 (let v = (b - 0xF0) * 262144 + (c1 - 0x80) * 4096 + (c2 - 0x80) * 64 + (c3 - 0x80) in
                  if is_cont c1 \<and> is_cont c2 \<and> is_cont c3 \<and> 0x10000 \<le> v \<and> v < 0x110000
                  then Some (v, r3) else None)
             | _ \<Rightarrow> None)
          else None)"

lemma utf8_next_shorter: "utf8_next bs = Some (c, r) \<Longrightarrow> length r < length bs"
  by (auto simp: utf8_next_def Let_def split: list.splits if_splits)

function utf8_decode :: "byte list \<Rightarrow> ustr option" where
  "utf8_decode bs =
     (if bs = [] then Some []
      else case utf8_next bs of
             None \<Rightarrow> None
           | Some (c, r) \<Rightarrow> map_option (\<lambda>s. c # s) (utf8_decode r))"
  by pat_completeness auto
termination
  by (relation "measure length") (auto dest: utf8_next_shorter)

function utf8_ignore :: "byte list \<Rightarrow> ustr" where
  "utf8_ignore bs =
     (case bs of
        [] \<Rightarrow> []
      | _ # bs' \<Rightarrow> (case utf8_next bs of None \<Rightarrow> utf8_ignore bs' | Some (c, r) \<Rightarrow> c # utf8_ignore r))"
  by pat_completeness auto
termination
  by (relation "measure length") (auto dest: utf8_next_shorter)

declare utf8_decode.simps [simp del] utf8_ignore.simps [simp del]

lemma utf8_bytes_simps [simp]:
  "utf8_bytes [] = []"
  "utf8_bytes (c # s) = utf8_char c @ utf8_bytes s"
  "utf8_bytes (s @ t) = utf8_bytes s @ utf8_bytes t"
  by (simp_all add: utf8_bytes_def)

lemma utf8_char_not_Nil [simp]: "utf8_char c \<noteq> []"
  by (simp add: utf8_char_def)

lemma length_utf8_char_pos: "0 < length (utf8_char c)"
  by simp

lemma length_le_utf8_bytes: "length s \<le> length (utf8_bytes s)"
proof (induction s)
  case Nil
  then show ?case by simp
next
  case (Cons c s)
  moreover have "0 < length (utf8_char c)" by simp
  ultimately show ?case by (simp del: length_greater_0_conv)
qed

lemma utf8_bytes_eq_Nil [simp]: "utf8_bytes s = [] \<longleftrightarrow> s = []"
  by (cases s) simp_all

lemma utf8_encode_Nil [simp]: "utf8_encode [] = Some []"
  by (simp add: utf8_encode_def)

lemma utf8_encode_append:
  "utf8_encode (s @ t) = (case (utf8_encode s, utf8_encode t) of
     (Some a, Some b) \<Rightarrow> Some (a @ b) | _ \<Rightarrow> None)"
  by (simp add: utf8_encode_def)

subsection \<open>The decoder inverts the encoder\<close>

lemma div_mod_join: "(c::nat) div 64 * 64 + c mod 64 = c"
  by (rule div_mult_mod_eq)

lemma digit_64: "y < (64::nat) \<Longrightarrow> (q * 64 + y) div 64 = q \<and> (q * 64 + y) mod 64 = y"
  by simp

lemma div_4096: "(c::nat) div 4096 = c div 64 div 64"
  by (simp add: div_mult2_eq [symmetric])

lemma div_262144: "(c::nat) div 262144 = c div 64 div 64 div 64"
  by (simp add: div_mult2_eq [symmetric])

lemma join3: "(c::nat) div 4096 * 4096 + c div 64 mod 64 * 64 + c mod 64 = c"
  using div_mod_join [of c] div_mod_join [of "c div 64"] unfolding div_4096 by linarith

lemma join4:
  "(c::nat) div 262144 * 262144 + c div 4096 mod 64 * 4096 + c div 64 mod 64 * 64 + c mod 64 = c"
  using div_mod_join [of c] div_mod_join [of "c div 64"] div_mod_join [of "c div 64 div 64"]
  unfolding div_4096 div_262144 by linarith

lemma split3:
  assumes "c = x * 4096 + y * 64 + z" "y < (64::nat)" "z < 64"
  shows "c div 4096 = x" "c div 64 mod 64 = y" "c mod 64 = z"
proof -
  have "c = (x * 64 + y) * 64 + z" using assms by simp
  then have 1: "c div 64 = x * 64 + y" "c mod 64 = z"
    using digit_64 [OF assms(3), of "x * 64 + y"] by simp_all
  then show "c div 4096 = x" "c div 64 mod 64 = y" "c mod 64 = z"
    using digit_64 [OF assms(2), of x] by (simp_all add: div_4096)
qed

lemma split4:
  assumes "c = x * 262144 + y * 4096 + z * 64 + w" "y < (64::nat)" "z < 64" "w < 64"
  shows "c div 262144 = x" "c div 4096 mod 64 = y" "c div 64 mod 64 = z" "c mod 64 = w"
proof -
  have "c = (x * 64 + y) * 4096 + z * 64 + w" using assms by simp
  from split3 [OF this assms(3,4)]
  have 1: "c div 4096 = x * 64 + y" "c div 64 mod 64 = z" "c mod 64 = w" .
  then show "c div 262144 = x" "c div 4096 mod 64 = y" "c div 64 mod 64 = z" "c mod 64 = w"
    using digit_64 [OF assms(2), of x] by (simp_all add: div_262144 div_4096 [symmetric])
qed

lemma is_cont_add [simp]: "is_cont (0x80 + n) \<longleftrightarrow> n < 64"
  by (auto simp: is_cont_def)

lemma utf8_next_1: "c < 0x80 \<Longrightarrow> utf8_next (utf8_char c @ r) = Some (c, r)"
  by (simp add: utf8_char_def utf8_next_def)

lemma utf8_next_2: "0x80 \<le> c \<Longrightarrow> c < 0x800 \<Longrightarrow> utf8_next (utf8_char c @ r) = Some (c, r)"
proof -
  assume "0x80 \<le> c" "c < 0x800"
  moreover then have "2 \<le> c div 64" "c div 64 < 32" by simp_all
  ultimately show ?thesis
    by (simp add: utf8_char_def utf8_next_def)
qed

lemma utf8_next_3:
  "0x800 \<le> c \<Longrightarrow> c < 0x10000 \<Longrightarrow> \<not> is_surrogate c \<Longrightarrow> utf8_next (utf8_char c @ r) = Some (c, r)"
proof -
  assume c: "0x800 \<le> c" "c < 0x10000" "\<not> is_surrogate c"
  then have "c div 4096 < 16" by simp
  with c show ?thesis
    using join3 [of c] by (simp add: utf8_char_def utf8_next_def Let_def)
qed

lemma utf8_next_4:
  "0x10000 \<le> c \<Longrightarrow> c < 0x110000 \<Longrightarrow> utf8_next (utf8_char c @ r) = Some (c, r)"
proof -
  assume c: "0x10000 \<le> c" "c < 0x110000"
  then have "c div 262144 < 5" by simp
  with c show ?thesis
    using join4 [of c] by (simp add: utf8_char_def utf8_next_def Let_def)
qed

lemma utf8_next_char [simp]: "is_scalar c \<Longrightarrow> utf8_next (utf8_char c @ r) = Some (c, r)"
  using utf8_next_1 [of c r] utf8_next_2 [of c r] utf8_next_3 [of c r] utf8_next_4 [of c r]
  by (cases "c < 0x80"; cases "c < 0x800"; cases "c < 0x10000") (auto simp: is_scalar_def)

lemma utf8_decode_Nil [simp]: "utf8_decode [] = Some []"
  by (simp add: utf8_decode.simps)

lemma utf8_ignore_Nil [simp]: "utf8_ignore [] = []"
  by (simp add: utf8_ignore.simps)

lemma utf8_decode_step:
  "utf8_next bs = Some (c, r) \<Longrightarrow> utf8_decode bs = map_option (\<lambda>s. c # s) (utf8_decode r)"
  by (subst utf8_decode.simps) (auto simp: utf8_next_def)

lemma utf8_ignore_step: "utf8_next bs = Some (c, r) \<Longrightarrow> utf8_ignore bs = c # utf8_ignore r"
  by (subst utf8_ignore.simps) (auto simp: utf8_next_def split: list.splits)

lemma utf8_decode_bytes [simp]: "list_all is_scalar s \<Longrightarrow> utf8_decode (utf8_bytes s) = Some s"
  by (induction s) (simp_all add: utf8_decode_step)

lemma utf8_ignore_bytes: "list_all is_scalar s \<Longrightarrow> utf8_ignore (utf8_bytes s @ r) = s @ utf8_ignore r"
  by (induction s) (simp_all add: utf8_ignore_step)

lemma utf8_roundtrip: "utf8_encode s = Some bs \<Longrightarrow> utf8_decode bs = Some s"
  by (auto simp: utf8_encode_def split: if_splits)

lemma utf8_encode_inj: "utf8_encode s = Some bs \<Longrightarrow> utf8_encode t = Some bs \<Longrightarrow> s = t"
  by (metis utf8_roundtrip option.inject)

subsection \<open>The encoder inverts the decoder\<close>

lemma utf8_next_inv:
  assumes "utf8_next bs = Some (c, r)"
  shows "is_scalar c \<and> bs = utf8_char c @ r"
proof -
  obtain b t where bs: "bs = b # t" using assms by (cases bs) (auto simp: utf8_next_def)
  consider "b < 0x80" | "0xC2 \<le> b" "b < 0xE0" | "0xE0 \<le> b" "b < 0xF0" | "0xF0 \<le> b" "b < 0xF5"
    using assms by (auto simp: bs utf8_next_def split: if_splits)
  then show ?thesis
  proof cases
    case 1
    with assms show ?thesis
      by (auto simp: bs utf8_next_def utf8_char_def is_scalar_def is_surrogate_def)
  next
    case 2
    with assms obtain c1 where t: "t = c1 # r" "is_cont c1" "c = (b - 0xC0) * 64 + (c1 - 0x80)"
      by (auto simp: bs utf8_next_def split: list.splits if_splits)
    define x y where "x = b - 0xC0" and "y = c1 - 0x80"
    have xy: "b = 0xC0 + x" "c1 = 0x80 + y" "2 \<le> x" "x < 32" "y < 64"
      using 2 t by (auto simp: x_def y_def is_cont_def)
    show ?thesis
      using xy by (simp add: bs t utf8_char_def is_scalar_def is_surrogate_def)
  next
    case 3
    with assms obtain c1 c2 where t: "t = c1 # c2 # r" "is_cont c1" "is_cont c2"
      "c = (b - 0xE0) * 4096 + (c1 - 0x80) * 64 + (c2 - 0x80)" "0x800 \<le> c" "\<not> is_surrogate c"
      by (auto simp: bs utf8_next_def Let_def split: list.splits if_splits)
    define x y z where "x = b - 0xE0" and "y = c1 - 0x80" and "z = c2 - 0x80"
    have xyz: "b = 0xE0 + x" "c1 = 0x80 + y" "c2 = 0x80 + z" "x < 16" "y < 64" "z < 64"
      using 3 t by (auto simp: x_def y_def z_def is_cont_def)
    have c: "c = x * 4096 + y * 64 + z" using t xyz by simp
    have "c < 0x10000" using xyz by (simp add: c)
    then show ?thesis
      using split3 [OF c xyz(5,6)] xyz t(5,6) by (simp add: bs t(1) utf8_char_def is_scalar_def)
  next
    case 4
    with assms obtain c1 c2 c3 where t: "t = c1 # c2 # c3 # r" "is_cont c1" "is_cont c2" "is_cont c3"
      "c = (b - 0xF0) * 262144 + (c1 - 0x80) * 4096 + (c2 - 0x80) * 64 + (c3 - 0x80)"
      "0x10000 \<le> c" "c < 0x110000"
      by (auto simp: bs utf8_next_def Let_def split: list.splits if_splits)
    define x y z w where "x = b - 0xF0" and "y = c1 - 0x80" and "z = c2 - 0x80" and "w = c3 - 0x80"
    have xyz: "b = 0xF0 + x" "c1 = 0x80 + y" "c2 = 0x80 + z" "c3 = 0x80 + w"
      "y < 64" "z < 64" "w < 64"
      using 4 t(2-4) by (auto simp: x_def y_def z_def w_def is_cont_def)
    have c: "c = x * 262144 + y * 4096 + z * 64 + w" using t xyz by simp
    show ?thesis
      using split4 [OF c xyz(5-7)] xyz t(6,7) by (simp add: bs t(1) utf8_char_def is_scalar_def is_surrogate_def)
  qed
qed

lemma utf8_decode_encode: "utf8_decode bs = Some s \<Longrightarrow> utf8_encode s = Some bs"
proof (induction bs arbitrary: s rule: utf8_decode.induct)
  case (1 bs)
  show ?case
  proof (cases "bs = []")
    case True
    with "1.prems" show ?thesis by simp
  next
    case False
    with "1.prems" obtain c r s' where n: "utf8_next bs = Some (c, r)"
      and d: "utf8_decode r = Some s'" and s: "s = c # s'"
      by (subst (asm) utf8_decode.simps) (auto split: option.splits)
    from "1.IH" [OF False n refl d] have "utf8_encode s' = Some r" .
    with utf8_next_inv [OF n] show ?thesis
      by (auto simp: s utf8_encode_def split: if_splits)
  qed
qed

subsection \<open>A truncated encoding\<close>

lemma utf8_ignore_no_next:
  "(\<And>i. i < length bs \<Longrightarrow> utf8_next (drop i bs) = None) \<Longrightarrow> utf8_ignore bs = []"
proof (induction bs)
  case Nil
  then show ?case by simp
next
  case (Cons b bs)
  have "utf8_next (b # bs) = None" using Cons.prems [of 0] by simp
  moreover have "utf8_ignore bs = []"
    using Cons.prems [of "Suc _"] by (intro Cons.IH) simp
  ultimately show ?case by (simp add: utf8_ignore.simps)
qed

lemma utf8_next_cut_char:
  assumes "is_scalar c" "k < length (utf8_char c)" "i < k"
  shows "utf8_next (drop i (take k (utf8_char c))) = None"
proof -
  consider "c < 0x80" | "0x80 \<le> c" "c < 0x800" | "0x800 \<le> c" "c < 0x10000" | "0x10000 \<le> c"
    by linarith
  then show ?thesis
  proof cases
    case 1
    with assms show ?thesis by (simp add: utf8_char_def)
  next
    case 2
    then have "k = 1" "i = 0" using assms by (auto simp: utf8_char_def)
    with 2 show ?thesis by (simp add: utf8_char_def utf8_next_def)
  next
    case 3
    then have "k = 1 \<and> i = 0 \<or> k = 2 \<and> (i = 0 \<or> i = 1)"
      using assms by (auto simp: utf8_char_def)
    moreover have "c div 4096 < 16" using 3 by simp
    ultimately show ?thesis
      using 3 by (auto simp: utf8_char_def utf8_next_def numeral_2_eq_2)
  next
    case 4
    then have k: "k = 1 \<and> i = 0 \<or> k = 2 \<and> (i = 0 \<or> i = 1) \<or> k = 3 \<and> (i = 0 \<or> i = 1 \<or> i = 2)"
      using assms by (auto simp: utf8_char_def)
    then show ?thesis
      using 4 by (auto simp: utf8_char_def utf8_next_def numeral_2_eq_2 numeral_3_eq_3)
  qed
qed

lemma utf8_ignore_cut_char:
  "is_scalar c \<Longrightarrow> k < length (utf8_char c) \<Longrightarrow> utf8_ignore (take k (utf8_char c)) = []"
  by (rule utf8_ignore_no_next) (simp add: utf8_next_cut_char)

text \<open>
  The lemma every text bound of the code rests on: cut the encoding of a valid text after
  \<open>n\<close> bytes, drop the bytes of the character that was cut, and what is left is a prefix of the
  text that fits into \<open>n\<close> bytes.
\<close>

lemma utf8_ignore_take:
  assumes "list_all is_scalar s"
  shows "prefix (utf8_ignore (take n (utf8_bytes s))) s
       \<and> length (utf8_bytes (utf8_ignore (take n (utf8_bytes s)))) \<le> n"
  using assms
proof (induction s arbitrary: n)
  case Nil
  then show ?case by simp
next
  case (Cons c s)
  show ?case
  proof (cases "n < length (utf8_char c)")
    case True
    with Cons.prems have "utf8_ignore (take n (utf8_bytes (c # s))) = []"
      by (simp add: utf8_ignore_cut_char)
    then show ?thesis by simp
  next
    case False
    let ?m = "n - length (utf8_char c)"
    have "utf8_ignore (take n (utf8_bytes (c # s))) = c # utf8_ignore (take ?m (utf8_bytes s))"
      using False Cons.prems by (simp add: utf8_ignore_step)
    moreover have "length (utf8_bytes (utf8_ignore (take ?m (utf8_bytes s)))) \<le> ?m"
      and "prefix (utf8_ignore (take ?m (utf8_bytes s))) s"
      using Cons by simp_all
    ultimately show ?thesis using False by simp
  qed
qed

subsection \<open>Controls and white space\<close>

text \<open>
  C0 and C1 control characters with DEL: the class every terminal-safety check of the code
  tests, with or without TAB and LF; and the white space of \<open>str.isspace\<close>/\<open>str.strip\<close>.
\<close>

definition is_control :: "nat \<Rightarrow> bool" where
  "is_control c \<longleftrightarrow> c < 32 \<or> 127 \<le> c \<and> c \<le> 159"

definition is_unsafe_layout :: "nat \<Rightarrow> bool" where
  "is_unsafe_layout c \<longleftrightarrow> c < 32 \<and> c \<noteq> 9 \<and> c \<noteq> 10 \<or> 127 \<le> c \<and> c \<le> 159"

definition is_py_space :: "nat \<Rightarrow> bool" where
  "is_py_space c \<longleftrightarrow>
     9 \<le> c \<and> c \<le> 13 \<or> 28 \<le> c \<and> c \<le> 32 \<or> c = 0x85 \<or> c = 0xA0 \<or> c = 0x1680 \<or>
     0x2000 \<le> c \<and> c \<le> 0x200A \<or> c = 0x2028 \<or> c = 0x2029 \<or> c = 0x202F \<or> c = 0x205F \<or> c = 0x3000"

definition py_strip :: "ustr \<Rightarrow> ustr" where
  "py_strip s = rev (dropWhile is_py_space (rev (dropWhile is_py_space s)))"

lemma py_strip_eq_Nil_iff: "py_strip s = [] \<longleftrightarrow> list_all is_py_space s"
  by (simp add: py_strip_def list_all_iff)
    (metis dropWhile_eq_Nil_conv dropWhile_eq_self_iff hd_dropWhile list.set_sel(1))

lemma is_unsafe_layout_imp_control: "is_unsafe_layout c \<Longrightarrow> is_control c"
  by (auto simp: is_unsafe_layout_def is_control_def)

subsection \<open>Splitting and joining\<close>

fun py_split :: "'a \<Rightarrow> 'a list \<Rightarrow> 'a list list" where
  "py_split d [] = [[]]"
| "py_split d (c # s) =
     (if c = d then [] # py_split d s
      else case py_split d s of [] \<Rightarrow> [[c]] | w # ws \<Rightarrow> (c # w) # ws)"

fun py_join :: "'a list \<Rightarrow> 'a list list \<Rightarrow> 'a list" where
  "py_join sep [] = []"
| "py_join sep [w] = w"
| "py_join sep (w # v # ws) = w @ sep @ py_join sep (v # ws)"

lemma py_split_not_Nil [simp]: "py_split d s \<noteq> []"
  by (induction s) (auto split: list.splits)

lemma py_join_split: "py_join [d] (py_split d s) = s"
proof (induction s)
  case Nil
  then show ?case by simp
next
  case (Cons c s)
  then show ?case
    by (cases "py_split d s"; cases "tl (py_split d s)") auto
qed

lemma py_split_no_delim: "d \<notin> set w \<Longrightarrow> py_split d w = [w]"
  by (induction w) auto

lemma py_split_append_delim: "d \<notin> set w \<Longrightarrow> py_split d (w @ d # s) = w # py_split d s"
  by (induction w) auto

lemma py_split_join:
  "ws \<noteq> [] \<Longrightarrow> (\<And>w. w \<in> set ws \<Longrightarrow> d \<notin> set w) \<Longrightarrow> py_split d (py_join [d] ws) = ws"
  by (induction "[d]" ws rule: py_join.induct) (auto simp: py_split_no_delim py_split_append_delim)

lemma py_split_pieces: "w \<in> set (py_split d s) \<Longrightarrow> d \<notin> set w \<and> set w \<subseteq> set s"
  by (induction s arbitrary: w) (force split: list.splits if_splits)+

definition starts_with :: "'a list \<Rightarrow> 'a list \<Rightarrow> bool" where
  "starts_with s p \<longleftrightarrow> take (length p) s = p"

definition ends_with :: "'a list \<Rightarrow> 'a list \<Rightarrow> bool" where
  "ends_with s p \<longleftrightarrow> length p \<le> length s \<and> drop (length s - length p) s = p"

lemma starts_with_iff: "starts_with s p \<longleftrightarrow> prefix p s"
  by (metis append_eq_conv_conj append_take_drop_id prefix_def starts_with_def)

lemma ends_with_iff: "ends_with s p \<longleftrightarrow> suffix p s"
proof
  assume "ends_with s p"
  then show "suffix p s"
    by (metis append_take_drop_id ends_with_def suffix_def)
next
  assume "suffix p s"
  then show "ends_with s p" by (auto simp: suffix_def ends_with_def)
qed

end
