(* ===== verification/Protocol_Models.thy ===== *)
theory Protocol_Models
  imports Py_Text
begin

section \<open>Protocol version 1 wire models (protocol/models.py)\<close>

text \<open>
  The constrained field types of the wire (\<open>ErrorCode\<close>, \<open>SafeMessage\<close>, \<open>CommandId\<close>,
  \<open>SessionId\<close>, \<open>Timestamp\<close>, \<open>Sequence\<close>, the assistant text and the task), as executable
  predicates on code-point lists, and the command and event classes as datatypes over the
  records of their common fields. \<open>protocol_version\<close> is the constant 1 in every model, so it
  is not a field here. The lemmas say what an admitted value can contain: admitted text encodes
  as UTF-8, an admitted message has no terminal control, an identifier is plain ASCII.
\<close>

definition PROTOCOL_VERSION :: int where "PROTOCOL_VERSION = 1"

definition MAX_SAFE_SEQUENCE :: int where "MAX_SAFE_SEQUENCE = 9007199254740991"

definition MAX_PROTOCOL_LINE_BYTES :: nat where "MAX_PROTOCOL_LINE_BYTES = 64 * 1024"

subsection \<open>Constrained strings\<close>

definition is_lower :: "nat \<Rightarrow> bool" where "is_lower c \<longleftrightarrow> 97 \<le> c \<and> c \<le> 122"

definition is_upper :: "nat \<Rightarrow> bool" where "is_upper c \<longleftrightarrow> 65 \<le> c \<and> c \<le> 90"

definition is_digit :: "nat \<Rightarrow> bool" where "is_digit c \<longleftrightarrow> 48 \<le> c \<and> c \<le> 57"

definition is_id_char :: "nat \<Rightarrow> bool" where
  "is_id_char c \<longleftrightarrow> is_lower c \<or> is_upper c \<or> is_digit c \<or> c = 95 \<or> c = 45"

definition is_code_char :: "nat \<Rightarrow> bool" where
  "is_code_char c \<longleftrightarrow> is_lower c \<or> is_digit c \<or> c = 95 \<or> c = 46 \<or> c = 45"

text \<open>\<open>^prefix_[A-Za-z0-9_-]{1,64}$\<close>, the shape of both identifiers.\<close>

definition tagged_id :: "string \<Rightarrow> ustr \<Rightarrow> bool" where
  "tagged_id tag s \<longleftrightarrow>
     (let rest = drop (length tag) s in
      starts_with s (lit tag) \<and> 1 \<le> length rest \<and> length rest \<le> 64 \<and> list_all is_id_char rest)"

definition CommandId :: "ustr \<Rightarrow> bool" where "CommandId s \<longleftrightarrow> tagged_id ''cmd_'' s"

definition SessionId :: "ustr \<Rightarrow> bool" where "SessionId s \<longleftrightarrow> tagged_id ''ses_'' s"

text \<open>\<open>^[a-z][a-z0-9_.-]{0,63}$\<close>\<close>

definition ErrorCode :: "ustr \<Rightarrow> bool" where
  "ErrorCode s \<longleftrightarrow>
     (case s of [] \<Rightarrow> False
      | c # rest \<Rightarrow> is_lower c \<and> length rest \<le> 63 \<and> list_all is_code_char rest)"

definition validate_unicode_scalar_text :: "ustr \<Rightarrow> py_error + ustr" where
  "validate_unicode_scalar_text v =
     (case utf8_encode v of
        None \<Rightarrow> Inl (ValueError ''text must contain only Unicode scalar values'')
      | Some _ \<Rightarrow> Inr v)"

definition validate_safe_message :: "ustr \<Rightarrow> py_error + ustr" where
  "validate_safe_message v =
     (if list_ex is_control v
      then Inl (ValueError ''failure messages must not contain terminal controls'') else Inr v)"

definition validate_assistant_text :: "ustr \<Rightarrow> py_error + ustr" where
  "validate_assistant_text v =
     and_then (validate_unicode_scalar_text v) (\<lambda>_.
       if list_ex is_unsafe_layout v
       then Inl (ValueError ''assistant text contains an unsupported terminal control'') else Inr v)"

definition NonEmptyString :: "ustr \<Rightarrow> bool" where "NonEmptyString s \<longleftrightarrow> 1 \<le> length s"

definition SessionTask :: "ustr \<Rightarrow> bool" where
  "SessionTask s \<longleftrightarrow> 1 \<le> length s \<and> ok_result (validate_unicode_scalar_text s)"

definition SafeMessage :: "ustr \<Rightarrow> bool" where
  "SafeMessage s \<longleftrightarrow> 1 \<le> length s \<and> length s \<le> 1024 \<and> ok_result (validate_safe_message s)"

definition AssistantText :: "ustr \<Rightarrow> bool" where
  "AssistantText s \<longleftrightarrow> 1 \<le> length s \<and> ok_result (validate_assistant_text s)"

definition Sequence :: "int \<Rightarrow> bool" where
  "Sequence n \<longleftrightarrow> 0 < n \<and> n \<le> MAX_SAFE_SEQUENCE"

subsection \<open>Timestamps\<close>

text \<open>
  The pattern \<open>dddd-dd-ddTdd:dd:dd.dddZ\<close> and then \<open>datetime.strptime\<close>, which accepts
  exactly the real instants: years from 1, months and days of the proleptic Gregorian calendar,
  hours to 23, minutes and seconds to 59.
\<close>

definition leap_year :: "nat \<Rightarrow> bool" where
  "leap_year y \<longleftrightarrow> y mod 4 = 0 \<and> (y mod 100 \<noteq> 0 \<or> y mod 400 = 0)"

definition days_in_month :: "nat \<Rightarrow> nat \<Rightarrow> nat" where
  "days_in_month y m =
     (if m = 2 then (if leap_year y then 29 else 28)
      else if m \<in> {4, 6, 9, 11} then 30 else 31)"

fun fits_template :: "string \<Rightarrow> ustr \<Rightarrow> bool" where
  "fits_template [] [] = True"
| "fits_template (p # ps) (c # cs) =
     ((if p = CHR ''9'' then is_digit c else c = of_char p) \<and> fits_template ps cs)"
| "fits_template _ _ = False"

definition field_at :: "nat \<Rightarrow> nat \<Rightarrow> ustr \<Rightarrow> nat" where
  "field_at i n s = dec_value 0 (take n (drop i s))"

definition validate_timestamp :: "ustr \<Rightarrow> bool" where
  "validate_timestamp s \<longleftrightarrow>
     (let y = field_at 0 4 s; m = field_at 5 2 s; d = field_at 8 2 s in
      1 \<le> y \<and> 1 \<le> m \<and> m \<le> 12 \<and> 1 \<le> d \<and> d \<le> days_in_month y m \<and>
      field_at 11 2 s \<le> 23 \<and> field_at 14 2 s \<le> 59 \<and> field_at 17 2 s \<le> 59)"

definition Timestamp :: "ustr \<Rightarrow> bool" where
  "Timestamp s \<longleftrightarrow> fits_template ''9999-99-99T99:99:99.999Z'' s \<and> validate_timestamp s"

subsection \<open>Commands\<close>

record command_base =
  command_id :: ustr
  cmd_timestamp :: ustr

datatype command =
    RuntimeInitializeCommand command_base (init_workspace: ustr)
  | SessionStartCommand command_base (start_task: ustr)
  | SessionCancelCommand command_base (cancel_session: ustr)
  | RuntimeShutdownCommand command_base

fun command_type :: "command \<Rightarrow> string" where
  "command_type (RuntimeInitializeCommand _ _) = ''runtime.initialize''"
| "command_type (SessionStartCommand _ _) = ''session.start''"
| "command_type (SessionCancelCommand _ _) = ''session.cancel''"
| "command_type (RuntimeShutdownCommand _) = ''runtime.shutdown''"

fun base_of_command :: "command \<Rightarrow> command_base" where
  "base_of_command (RuntimeInitializeCommand b _) = b"
| "base_of_command (SessionStartCommand b _) = b"
| "base_of_command (SessionCancelCommand b _) = b"
| "base_of_command (RuntimeShutdownCommand b) = b"

definition command_base_ok :: "command_base \<Rightarrow> bool" where
  "command_base_ok b \<longleftrightarrow> CommandId (command_id b) \<and> Timestamp (cmd_timestamp b)"

fun command_payload_ok :: "command \<Rightarrow> bool" where
  "command_payload_ok (RuntimeInitializeCommand _ w) = NonEmptyString w"
| "command_payload_ok (SessionStartCommand _ t) = SessionTask t"
| "command_payload_ok (SessionCancelCommand _ s) = SessionId s"
| "command_payload_ok (RuntimeShutdownCommand _) = True"

definition command_ok :: "command \<Rightarrow> bool" where
  "command_ok c \<longleftrightarrow> command_base_ok (base_of_command c) \<and> command_payload_ok c"

subsection \<open>Events\<close>

record runtime_event_base =
  re_timestamp :: ustr
  re_correlation :: "ustr option"

record session_event_base =
  se_session_id :: ustr
  se_sequence :: int
  se_timestamp :: ustr
  se_correlation :: "ustr option"

datatype runtime_event =
    RuntimeReadyEvent runtime_event_base ustr
  | RuntimeErrorEvent runtime_event_base ustr ustr bool

datatype session_event =
    SessionStartedEvent session_event_base
  | AssistantDeltaEvent session_event_base ustr
  | AssistantCompletedEvent session_event_base ustr
  | SessionCompletedEvent session_event_base
  | SessionCancelledEvent session_event_base
  | SessionFailedEvent session_event_base ustr ustr

datatype event = RuntimeEv runtime_event | SessionEv session_event

fun session_event_base_of :: "session_event \<Rightarrow> session_event_base" where
  "session_event_base_of (SessionStartedEvent b) = b"
| "session_event_base_of (AssistantDeltaEvent b _) = b"
| "session_event_base_of (AssistantCompletedEvent b _) = b"
| "session_event_base_of (SessionCompletedEvent b) = b"
| "session_event_base_of (SessionCancelledEvent b) = b"
| "session_event_base_of (SessionFailedEvent b _ _) = b"

abbreviation event_session :: "session_event \<Rightarrow> ustr" where
  "event_session e \<equiv> se_session_id (session_event_base_of e)"

abbreviation event_sequence :: "session_event \<Rightarrow> int" where
  "event_sequence e \<equiv> se_sequence (session_event_base_of e)"

abbreviation event_correlation :: "session_event \<Rightarrow> ustr option" where
  "event_correlation e \<equiv> se_correlation (session_event_base_of e)"

datatype session_event_type =
    SessionStartedT | AssistantDeltaT | AssistantCompletedT
  | SessionCompletedT | SessionCancelledT | SessionFailedT

fun session_event_type_of :: "session_event \<Rightarrow> session_event_type" where
  "session_event_type_of (SessionStartedEvent _) = SessionStartedT"
| "session_event_type_of (AssistantDeltaEvent _ _) = AssistantDeltaT"
| "session_event_type_of (AssistantCompletedEvent _ _) = AssistantCompletedT"
| "session_event_type_of (SessionCompletedEvent _) = SessionCompletedT"
| "session_event_type_of (SessionCancelledEvent _) = SessionCancelledT"
| "session_event_type_of (SessionFailedEvent _ _ _) = SessionFailedT"

fun session_type_name :: "session_event_type \<Rightarrow> string" where
  "session_type_name SessionStartedT = ''session.started''"
| "session_type_name AssistantDeltaT = ''assistant.delta''"
| "session_type_name AssistantCompletedT = ''assistant.completed''"
| "session_type_name SessionCompletedT = ''session.completed''"
| "session_type_name SessionCancelledT = ''session.cancelled''"
| "session_type_name SessionFailedT = ''session.failed''"

fun runtime_type_name :: "runtime_event \<Rightarrow> string" where
  "runtime_type_name (RuntimeReadyEvent _ _) = ''runtime.ready''"
| "runtime_type_name (RuntimeErrorEvent _ _ _ _) = ''runtime.error''"

definition correlation_ok :: "ustr option \<Rightarrow> bool" where
  "correlation_ok c \<longleftrightarrow> (case c of None \<Rightarrow> True | Some i \<Rightarrow> CommandId i)"

definition session_event_base_ok :: "session_event_base \<Rightarrow> bool" where
  "session_event_base_ok b \<longleftrightarrow>
     SessionId (se_session_id b) \<and> Sequence (se_sequence b) \<and> Timestamp (se_timestamp b) \<and>
     correlation_ok (se_correlation b)"

fun session_payload_ok :: "session_event \<Rightarrow> bool" where
  "session_payload_ok (AssistantDeltaEvent _ t) = AssistantText t"
| "session_payload_ok (AssistantCompletedEvent _ t) = AssistantText t"
| "session_payload_ok (SessionFailedEvent _ c m) = (ErrorCode c \<and> SafeMessage m)"
| "session_payload_ok _ = True"

fun runtime_event_ok :: "runtime_event \<Rightarrow> bool" where
  "runtime_event_ok (RuntimeReadyEvent b w) =
     (Timestamp (re_timestamp b) \<and> correlation_ok (re_correlation b) \<and> NonEmptyString w)"
| "runtime_event_ok (RuntimeErrorEvent b c m _) =
     (Timestamp (re_timestamp b) \<and> correlation_ok (re_correlation b) \<and> ErrorCode c \<and> SafeMessage m)"

definition session_event_ok :: "session_event \<Rightarrow> bool" where
  "session_event_ok e \<longleftrightarrow> session_event_base_ok (session_event_base_of e) \<and> session_payload_ok e"

fun event_ok :: "event \<Rightarrow> bool" where
  "event_ok (RuntimeEv e) = runtime_event_ok e"
| "event_ok (SessionEv e) = session_event_ok e"

subsection \<open>What admitted values contain\<close>

lemma validate_unicode_scalar_text_iff [simp]:
  "ok_result (validate_unicode_scalar_text s) \<longleftrightarrow> list_all is_scalar s"
  by (simp add: validate_unicode_scalar_text_def utf8_encode_def)

lemma validate_safe_message_iff [simp]:
  "ok_result (validate_safe_message s) \<longleftrightarrow> list_all (\<lambda>c. \<not> is_control c) s"
  by (simp add: validate_safe_message_def list_all_iff list_ex_iff)

lemma validate_assistant_text_iff [simp]:
  "ok_result (validate_assistant_text s) \<longleftrightarrow>
     list_all is_scalar s \<and> list_all (\<lambda>c. \<not> is_unsafe_layout c) s"
  by (simp add: validate_assistant_text_def validate_unicode_scalar_text_def utf8_encode_def
      list_all_iff list_ex_iff)

lemma SafeMessage_iff:
  "SafeMessage s \<longleftrightarrow> s \<noteq> [] \<and> length s \<le> 1024 \<and> list_all (\<lambda>c. \<not> is_control c) s"
  by (auto simp: SafeMessage_def Suc_le_eq)

lemma AssistantText_iff:
  "AssistantText s \<longleftrightarrow> s \<noteq> [] \<and> list_all is_scalar s \<and> list_all (\<lambda>c. \<not> is_unsafe_layout c) s"
  by (auto simp: AssistantText_def Suc_le_eq)

lemma SessionTask_iff: "SessionTask s \<longleftrightarrow> s \<noteq> [] \<and> list_all is_scalar s"
  by (auto simp: SessionTask_def Suc_le_eq)

lemma AssistantText_append:
  "AssistantText s \<Longrightarrow> AssistantText t \<Longrightarrow> AssistantText (s @ t)"
  by (auto simp: AssistantText_iff list_all_iff)

lemma AssistantText_concat:
  "(\<And>t. t \<in> set ts \<Longrightarrow> AssistantText t) \<Longrightarrow> ts \<noteq> [] \<Longrightarrow> AssistantText (concat ts)"
proof (induction ts)
  case Nil
  then show ?case by simp
next
  case (Cons t ts)
  then show ?case by (cases ts) (auto intro: AssistantText_append)
qed

lemma id_char_ascii: "is_id_char c \<Longrightarrow> 32 < c \<and> c < 127"
  by (auto simp: is_id_char_def is_lower_def is_upper_def is_digit_def)

lemma code_char_ascii: "is_code_char c \<Longrightarrow> 32 < c \<and> c < 127"
  by (auto simp: is_code_char_def is_lower_def is_digit_def)

lemma ascii_scalar: "c < 128 \<Longrightarrow> is_scalar c"
  by (simp add: is_scalar_def is_surrogate_def)

lemma tagged_id_append:
  "tagged_id tag (lit tag @ s) \<longleftrightarrow> s \<noteq> [] \<and> length s \<le> 64 \<and> list_all is_id_char s"
  by (auto simp: tagged_id_def starts_with_def Let_def Suc_le_eq)

lemma tagged_id_split: "tagged_id tag s \<Longrightarrow> \<exists>r. s = lit tag @ r \<and> list_all is_id_char r"
  by (auto simp: tagged_id_def starts_with_iff Let_def prefix_def)

lemma ErrorCode_ascii: "ErrorCode s \<Longrightarrow> c \<in> set s \<Longrightarrow> 32 < c \<and> c < 127"
  by (auto simp: ErrorCode_def list_all_iff is_lower_def split: list.splits dest: code_char_ascii)

lemma dec_nat_id_chars: "list_all is_id_char (dec_nat n)"
  by (auto simp: list_all_iff is_id_char_def is_digit_def dest: dec_nat_digits)

lemmas id_eval =
  SessionId_def CommandId_def ErrorCode_def tagged_id_def is_id_char_def is_code_char_def
  is_lower_def is_upper_def is_digit_def starts_with_def

lemma example_ids: "SessionId (lit ''ses_1'')" "CommandId (lit ''cmd_1'')" "CommandId (lit ''cmd_2'')"
  by (simp_all add: id_eval)

end
