(* ===== verification/Session_State.thy ===== *)
theory Session_State
  imports Protocol_Models
begin

section \<open>The session lifecycle reducer (session_state.py)\<close>

text \<open>
  \<open>reduce_session_state\<close> folds one trusted fact or validated wire event into the immutable
  \<open>SessionState\<close>, or rejects it with a payload-free diagnostic and the exact prior state.
  \<open>replay_session_updates\<close> is the fold that stops at the first rejection.

  The lemmas give: the frame of a rejection, the absorbing terminals, the state invariant
  \<open>session_inv\<close> (kept by every accepted update), what an accepted tape says about its wire
  events (contiguous sequence numbers, one session, the text is the concatenation of the
  deltas), and the interface \<open>lifecycle\<close>, a locale with the laws of any such reducer, under
  which prefix-closure and composition of replay are proved once.
\<close>

subsection \<open>State, updates, diagnostics\<close>

datatype session_status =
    Idle | Starting | Running | AwaitingApproval | Cancelling | Completed | Cancelled | Failed

datatype invariant_failure_code =
    IllegalTransition
  | TerminalStateAbsorbing
  | CorrelationMismatch
  | SessionMismatch
  | SequenceGap
  | SequenceRegression
  | AssistantAfterCompletion
  | AssistantAlreadyCompleted
  | AssistantCompletionMismatch
  | SessionCompletionBeforeAssistant

definition TERMINAL_SESSION_STATUSES :: "session_status set" where
  "TERMINAL_SESSION_STATUSES = {Completed, Cancelled, Failed}"

record session_failure =
  failure_code :: ustr
  failure_message :: ustr

record session_state =
  status :: session_status
  start_command_id :: "ustr option"
  session_task :: "ustr option"
  session_id :: "ustr option"
  cancel_command_id :: "ustr option"
  last_sequence :: int
  assistant_text :: ustr
  assistant_completed :: bool
  session_failure_of :: "session_failure option"

definition INITIAL_SESSION_STATE :: session_state where
  "INITIAL_SESSION_STATE =
     \<lparr>status = Idle, start_command_id = None, session_task = None, session_id = None,
      cancel_command_id = None, last_sequence = 0, assistant_text = [],
      assistant_completed = False, session_failure_of = None\<rparr>"

datatype session_update =
    TaskSubmitted ustr ustr
  | CancelRequested ustr ustr
  | ApprovalRequested ustr
  | ApprovalResolved ustr
  | Wire session_event

datatype update_type =
    TaskSubmittedU | CancelRequestedU | ApprovalRequestedU | ApprovalResolvedU
  | WireU session_event_type

record session_invariant_failure =
  failed_code :: invariant_failure_code
  prior_status :: session_status
  failed_event_type :: update_type

record session_reduction =
  reduced_state :: session_state
  reduction_failure :: "session_invariant_failure option"

definition reduction_ok :: "session_reduction \<Rightarrow> bool" where
  "reduction_ok r \<longleftrightarrow> reduction_failure r = None"

subsection \<open>The reducer\<close>

definition accept :: "session_state \<Rightarrow> session_reduction" where
  "accept s = \<lparr>reduced_state = s, reduction_failure = None\<rparr>"

definition reject :: "session_state \<Rightarrow> invariant_failure_code \<Rightarrow> update_type \<Rightarrow> session_reduction" where
  "reject s c t =
     \<lparr>reduced_state = s,
      reduction_failure =
        Some \<lparr>failed_code = c, prior_status = status s, failed_event_type = t\<rparr>\<rparr>"

fun event_type_of :: "session_update \<Rightarrow> update_type" where
  "event_type_of (TaskSubmitted _ _) = TaskSubmittedU"
| "event_type_of (CancelRequested _ _) = CancelRequestedU"
| "event_type_of (ApprovalRequested _) = ApprovalRequestedU"
| "event_type_of (ApprovalResolved _) = ApprovalResolvedU"
| "event_type_of (Wire e) = WireU (session_event_type_of e)"

definition sequence_failure :: "session_state \<Rightarrow> int \<Rightarrow> update_type \<Rightarrow> session_reduction option" where
  "sequence_failure s seq t =
     (let expected_sequence = last_sequence s + 1 in
      if seq < expected_sequence then Some (reject s SequenceRegression t)
      else if expected_sequence < seq then Some (reject s SequenceGap t)
      else None)"

fun legal_statuses :: "session_event_type \<Rightarrow> session_status set" where
  "legal_statuses SessionStartedT = {Starting}"
| "legal_statuses AssistantDeltaT = {Running, Cancelling}"
| "legal_statuses AssistantCompletedT = {Running, Cancelling}"
| "legal_statuses SessionCompletedT = {Running, Cancelling}"
| "legal_statuses SessionCancelledT = {Cancelling}"
| "legal_statuses SessionFailedT = {Running, AwaitingApproval, Cancelling}"

definition expected_correlation :: "session_state \<Rightarrow> session_event \<Rightarrow> ustr option" where
  "expected_correlation s e =
     (case e of SessionCancelledEvent _ \<Rightarrow> cancel_command_id s | _ \<Rightarrow> start_command_id s)"

text \<open>The event's own effect, once status, correlation, session and sequence were checked.\<close>

fun apply_event :: "session_state \<Rightarrow> session_event \<Rightarrow> session_reduction" where
  "apply_event s (SessionStartedEvent b) =
     accept (s\<lparr>status := Running, session_id := Some (se_session_id b),
               last_sequence := se_sequence b\<rparr>)"
| "apply_event s (AssistantDeltaEvent b text) =
     (if assistant_completed s then reject s AssistantAfterCompletion (WireU AssistantDeltaT)
      else accept (s\<lparr>last_sequence := se_sequence b, assistant_text := assistant_text s @ text\<rparr>))"
| "apply_event s (AssistantCompletedEvent b text) =
     (if assistant_completed s
      then reject s AssistantAlreadyCompleted (WireU AssistantCompletedT)
      else if text \<noteq> assistant_text s
      then reject s AssistantCompletionMismatch (WireU AssistantCompletedT)
      else accept (s\<lparr>last_sequence := se_sequence b, assistant_completed := True\<rparr>))"
| "apply_event s (SessionCompletedEvent b) =
     (if \<not> assistant_completed s
      then reject s SessionCompletionBeforeAssistant (WireU SessionCompletedT)
      else accept (s\<lparr>status := Completed, last_sequence := se_sequence b\<rparr>))"
| "apply_event s (SessionCancelledEvent b) =
     accept (s\<lparr>status := Cancelled, last_sequence := se_sequence b\<rparr>)"
| "apply_event s (SessionFailedEvent b c m) =
     accept (s\<lparr>status := Failed, last_sequence := se_sequence b,
               session_failure_of := Some \<lparr>failure_code = c, failure_message = m\<rparr>\<rparr>)"

definition reduce_session_event :: "session_state \<Rightarrow> session_event \<Rightarrow> session_reduction" where
  "reduce_session_event s e =
     (let t = WireU (session_event_type_of e) in
      if status s \<notin> legal_statuses (session_event_type_of e) then reject s IllegalTransition t
      else if event_correlation e \<noteq> expected_correlation s e then reject s CorrelationMismatch t
      else if session_event_type_of e \<noteq> SessionStartedT \<and> Some (event_session e) \<noteq> session_id s
      then reject s SessionMismatch t
      else case sequence_failure s (event_sequence e) t of
             Some r \<Rightarrow> r
           | None \<Rightarrow> apply_event s e)"

definition reduce_session_state :: "session_state \<Rightarrow> session_update \<Rightarrow> session_reduction" where
  "reduce_session_state s u =
     (if status s \<in> TERMINAL_SESSION_STATUSES
      then reject s TerminalStateAbsorbing (event_type_of u)
      else case u of
        TaskSubmitted cmd t \<Rightarrow>
          if status s \<noteq> Idle then reject s IllegalTransition TaskSubmittedU
          else accept (INITIAL_SESSION_STATE\<lparr>status := Starting, start_command_id := Some cmd,
                                            session_task := Some t\<rparr>)
      | CancelRequested cmd sid \<Rightarrow>
          if status s \<notin> {Running, AwaitingApproval} then reject s IllegalTransition CancelRequestedU
          else if Some sid \<noteq> session_id s then reject s SessionMismatch CancelRequestedU
          else accept (s\<lparr>status := Cancelling, cancel_command_id := Some cmd\<rparr>)
      | ApprovalRequested sid \<Rightarrow>
          if status s \<noteq> Running then reject s IllegalTransition ApprovalRequestedU
          else if Some sid \<noteq> session_id s then reject s SessionMismatch ApprovalRequestedU
          else accept (s\<lparr>status := AwaitingApproval\<rparr>)
      | ApprovalResolved sid \<Rightarrow>
          if status s \<noteq> AwaitingApproval then reject s IllegalTransition ApprovalResolvedU
          else if Some sid \<noteq> session_id s then reject s SessionMismatch ApprovalResolvedU
          else accept (s\<lparr>status := Running\<rparr>)
      | Wire e \<Rightarrow> reduce_session_event s e)"

fun replay_session_updates :: "session_state \<Rightarrow> session_update list \<Rightarrow> session_reduction" where
  "replay_session_updates s [] = accept s"
| "replay_session_updates s (u # us) =
     (let result = reduce_session_state s u in
      if \<not> reduction_ok result then result else replay_session_updates (reduced_state result) us)"

subsection \<open>Acceptance and rejection\<close>

lemma accept_simps [simp]: "reduced_state (accept s) = s" "reduction_ok (accept s)"
  by (simp_all add: accept_def reduction_ok_def)

lemma reject_simps [simp]: "reduced_state (reject s c t) = s" "\<not> reduction_ok (reject s c t)"
  by (simp_all add: reject_def reduction_ok_def)

lemma accept_neq_reject [simp]: "accept s \<noteq> reject s' c t" "reject s' c t \<noteq> accept s"
  by (simp_all add: accept_def reject_def)

lemma accept_inject [simp]: "accept s = accept s' \<longleftrightarrow> s = s'"
  by (simp add: accept_def)

lemma reject_inject [simp]: "reject s c t = reject s c' t' \<longleftrightarrow> c = c' \<and> t = t'"
  by (auto simp: reject_def)

lemma sequence_failure_None_iff [simp]:
  "sequence_failure s n t = None \<longleftrightarrow> n = last_sequence s + 1"
  by (auto simp: sequence_failure_def Let_def)

lemma sequence_failure_Some:
  "sequence_failure s n t = Some r \<Longrightarrow> n \<noteq> last_sequence s + 1 \<and> (\<exists>c. r = reject s c t)"
  by (auto simp: sequence_failure_def Let_def split: if_splits)

text \<open>Every result of the event reducer is a rejection of the given state or an acceptance.\<close>

lemma apply_event_cases:
  "(\<exists>c. apply_event s e = reject s c (WireU (session_event_type_of e))) \<or>
   (\<exists>s'. apply_event s e = accept s')"
  by (cases e) auto

lemma apply_event_rejected:
  "\<not> reduction_ok (apply_event s e) \<Longrightarrow>
     \<exists>c. apply_event s e = reject s c (WireU (session_event_type_of e))"
  using apply_event_cases [of s e] by auto

lemma reduce_session_event_cases:
  obtains (rejected) c where
    "reduce_session_event s e = reject s c (WireU (session_event_type_of e))"
  | (applied) "status s \<in> legal_statuses (session_event_type_of e)"
    "event_correlation e = expected_correlation s e"
    "session_event_type_of e \<noteq> SessionStartedT \<Longrightarrow> session_id s = Some (event_session e)"
    "event_sequence e = last_sequence s + 1"
    "reduce_session_event s e = apply_event s e"
proof -
  let ?t = "session_event_type_of e"
  consider "status s \<notin> legal_statuses ?t"
    | "status s \<in> legal_statuses ?t" "event_correlation e \<noteq> expected_correlation s e"
    | "status s \<in> legal_statuses ?t" "event_correlation e = expected_correlation s e"
      "?t \<noteq> SessionStartedT" "Some (event_session e) \<noteq> session_id s"
    | "status s \<in> legal_statuses ?t" "event_correlation e = expected_correlation s e"
      "?t = SessionStartedT \<or> Some (event_session e) = session_id s"
      "event_sequence e \<noteq> last_sequence s + 1"
    | "status s \<in> legal_statuses ?t" "event_correlation e = expected_correlation s e"
      "?t = SessionStartedT \<or> Some (event_session e) = session_id s"
      "event_sequence e = last_sequence s + 1"
    by blast
  then show thesis
  proof cases
    case 4
    then have "sequence_failure s (event_sequence e) (WireU ?t) \<noteq> None" by simp
    then obtain r where r: "sequence_failure s (event_sequence e) (WireU ?t) = Some r" by blast
    with sequence_failure_Some [OF r] obtain c where "r = reject s c (WireU ?t)" by blast
    with 4 r have "reduce_session_event s e = reject s c (WireU ?t)"
      by (auto simp: reduce_session_event_def)
    then show thesis by (rule rejected)
  next
    case 5
    then have "reduce_session_event s e = apply_event s e"
      by (auto simp: reduce_session_event_def sequence_failure_def Let_def)
    with 5 show thesis by (intro applied) auto
  qed (auto simp: reduce_session_event_def intro: rejected)
qed

lemma reduce_session_event_rejected:
  assumes "\<not> reduction_ok (reduce_session_event s e)"
  shows "\<exists>c. reduce_session_event s e = reject s c (WireU (session_event_type_of e))"
  using assms apply_event_rejected [of s e]
  by (cases s e rule: reduce_session_event_cases) auto

text \<open>A rejected update returns the prior state unchanged, its status and its type.\<close>

lemma reduce_rejected:
  assumes "\<not> reduction_ok (reduce_session_state s u)"
  shows "\<exists>c. reduce_session_state s u = reject s c (event_type_of u)"
proof (cases u)
  case (Wire e)
  with assms reduce_session_event_rejected [of s e] show ?thesis
    by (auto simp: reduce_session_state_def split: if_splits)
qed (use assms in \<open>auto simp: reduce_session_state_def split: if_splits\<close>)

lemma reduce_rejected_state:
  "\<not> reduction_ok (reduce_session_state s u) \<Longrightarrow> reduced_state (reduce_session_state s u) = s"
  using reduce_rejected by fastforce

lemma reduce_terminal:
  "status s \<in> TERMINAL_SESSION_STATUSES \<Longrightarrow>
     reduce_session_state s u = reject s TerminalStateAbsorbing (event_type_of u)"
  by (simp add: reduce_session_state_def)

lemma reduce_not_absorbing:
  assumes "reduce_session_state s u = reject s TerminalStateAbsorbing t"
  shows "status s \<in> TERMINAL_SESSION_STATUSES"
proof (rule ccontr)
  assume n: "status s \<notin> TERMINAL_SESSION_STATUSES"
  have a: "apply_event s e \<noteq> reject s TerminalStateAbsorbing t'" for e t'
    by (cases e) auto
  have q: "sequence_failure s k t' \<noteq> Some (reject s TerminalStateAbsorbing t'')" for k t' t''
    by (auto simp: sequence_failure_def Let_def)
  have "reduce_session_event s e \<noteq> reject s TerminalStateAbsorbing t'" for e t'
    using a q by (auto simp: reduce_session_event_def Let_def split: option.splits)
  with n assms show False
    by (cases u) (auto simp: reduce_session_state_def split: if_splits)
qed

lemma reduce_wire_accepted:
  assumes "reduction_ok (reduce_session_state s (Wire e))"
  shows "reduce_session_state s (Wire e) = apply_event s e"
    and "status s \<in> legal_statuses (session_event_type_of e)"
    and "event_correlation e = expected_correlation s e"
    and "session_event_type_of e \<noteq> SessionStartedT \<Longrightarrow> session_id s = Some (event_session e)"
    and "event_sequence e = last_sequence s + 1"
proof -
  have r: "reduce_session_state s (Wire e) = reduce_session_event s e"
    using assms by (auto simp: reduce_session_state_def split: if_splits)
  show "reduce_session_state s (Wire e) = apply_event s e"
    and "status s \<in> legal_statuses (session_event_type_of e)"
    and "event_correlation e = expected_correlation s e"
    and "session_event_type_of e \<noteq> SessionStartedT \<Longrightarrow> session_id s = Some (event_session e)"
    and "event_sequence e = last_sequence s + 1"
    using assms unfolding r by (cases s e rule: reduce_session_event_cases; simp)+
qed

lemma reduce_task_accepted:
  "reduction_ok (reduce_session_state s (TaskSubmitted cmd t)) \<Longrightarrow>
     status s = Idle \<and> reduce_session_state s (TaskSubmitted cmd t) =
       accept (INITIAL_SESSION_STATE\<lparr>status := Starting, start_command_id := Some cmd,
                                      session_task := Some t\<rparr>)"
  by (simp add: reduce_session_state_def split: if_splits)

lemma reduce_cancel_accepted:
  "reduction_ok (reduce_session_state s (CancelRequested cmd sid)) \<Longrightarrow>
     status s \<in> {Running, AwaitingApproval} \<and> session_id s = Some sid \<and>
     reduce_session_state s (CancelRequested cmd sid) =
       accept (s\<lparr>status := Cancelling, cancel_command_id := Some cmd\<rparr>)"
  by (auto simp: reduce_session_state_def split: if_splits)

lemma reduce_approval_requested_accepted:
  "reduction_ok (reduce_session_state s (ApprovalRequested sid)) \<Longrightarrow>
     status s = Running \<and> session_id s = Some sid \<and>
     reduce_session_state s (ApprovalRequested sid) = accept (s\<lparr>status := AwaitingApproval\<rparr>)"
  by (auto simp: reduce_session_state_def split: if_splits)

lemma reduce_approval_resolved_accepted:
  "reduction_ok (reduce_session_state s (ApprovalResolved sid)) \<Longrightarrow>
     status s = AwaitingApproval \<and> session_id s = Some sid \<and>
     reduce_session_state s (ApprovalResolved sid) = accept (s\<lparr>status := Running\<rparr>)"
  by (auto simp: reduce_session_state_def split: if_splits)

lemmas reduce_fact_accepted =
  reduce_task_accepted reduce_cancel_accepted
  reduce_approval_requested_accepted reduce_approval_resolved_accepted

subsection \<open>The interface of a lifecycle fold\<close>

text \<open>
  What the sessions, the transcript writer and replay rely on: a step that keeps the state when
  it rejects, terminal states that reject everything, an invariant every accepted step keeps,
  and a fold that stops at the first rejection.
\<close>

locale lifecycle =
  fixes step :: "'s \<Rightarrow> 'u \<Rightarrow> 'r"
    and ok :: "'r \<Rightarrow> bool"
    and post :: "'r \<Rightarrow> 's"
    and return :: "'s \<Rightarrow> 'r"
    and replay :: "'s \<Rightarrow> 'u list \<Rightarrow> 'r"
    and final :: "'s \<Rightarrow> bool"
    and inv :: "'s \<Rightarrow> bool"
  assumes return_ok: "ok (return s)"
    and return_post: "post (return s) = s"
    and reject_keeps: "\<not> ok (step s u) \<Longrightarrow> post (step s u) = s"
    and final_absorbs: "final s \<Longrightarrow> \<not> ok (step s u)"
    and step_inv: "inv s \<Longrightarrow> inv (post (step s u))"
    and replay_Nil: "replay s [] = return s"
    and replay_Cons: "replay s (u # us) = (if ok (step s u) then replay (post (step s u)) us else step s u)"
begin

lemma replay_append:
  "replay s (us @ vs) = (if ok (replay s us) then replay (post (replay s us)) vs else replay s us)"
  by (induction us arbitrary: s) (auto simp: replay_Nil replay_Cons return_ok return_post)

lemma replay_snoc_ok:
  "ok (replay s (us @ [u])) \<longleftrightarrow> ok (replay s us) \<and> ok (step (post (replay s us)) u)"
  by (auto simp: replay_append replay_Cons replay_Nil return_ok)

lemma replay_snoc_post:
  "ok (replay s (us @ [u])) \<Longrightarrow> post (replay s (us @ [u])) = post (step (post (replay s us)) u)"
  by (auto simp: replay_append replay_Cons replay_Nil return_post split: if_splits)

lemma replay_prefix_ok: "ok (replay s (us @ vs)) \<Longrightarrow> ok (replay s us)"
  by (auto simp: replay_append split: if_splits)

lemma replay_inv: "inv s \<Longrightarrow> inv (post (replay s us))"
  by (induction us arbitrary: s) (auto simp: replay_Nil replay_Cons return_post step_inv)

lemma replay_rejects_at:
  "\<not> ok (replay s us) \<Longrightarrow>
     \<exists>xs u ys. us = xs @ u # ys \<and> ok (replay s xs) \<and> \<not> ok (step (post (replay s xs)) u) \<and>
       replay s us = step (post (replay s xs)) u \<and> post (replay s us) = post (replay s xs)"
proof (induction us arbitrary: s)
  case Nil
  then show ?case by (simp add: replay_Nil return_ok)
next
  case (Cons u us)
  show ?case
  proof (cases "ok (step s u)")
    case True
    with Cons.prems have "\<not> ok (replay (post (step s u)) us)" by (simp add: replay_Cons)
    from Cons.IH [OF this] obtain xs v ys where
      "us = xs @ v # ys" "ok (replay (post (step s u)) xs)"
      "\<not> ok (step (post (replay (post (step s u)) xs)) v)"
      "replay (post (step s u)) us = step (post (replay (post (step s u)) xs)) v"
      "post (replay (post (step s u)) us) = post (replay (post (step s u)) xs)"
      by blast
    with True show ?thesis
      by (intro exI [of _ "u # xs"] exI [of _ v] exI [of _ ys]) (simp add: replay_Cons)
  next
    case False
    then show ?thesis
      by (intro exI [of _ "[]"] exI [of _ u] exI [of _ us])
        (simp add: replay_Cons replay_Nil return_ok return_post reject_keeps)
  qed
qed

text \<open>Nothing follows a final state in an accepted tape.\<close>

lemma replay_final_last: "ok (replay s (us @ v # vs)) \<Longrightarrow> \<not> final (post (replay s us))"
  by (auto simp: replay_append replay_Cons final_absorbs split: if_splits)

end

subsection \<open>The state invariant\<close>

definition session_inv :: "session_state \<Rightarrow> bool" where
  "session_inv s \<longleftrightarrow>
     (status s = Idle \<longrightarrow> s = INITIAL_SESSION_STATE) \<and>
     (status s \<noteq> Idle \<longrightarrow> start_command_id s \<noteq> None \<and> session_task s \<noteq> None) \<and>
     (status s \<in> {Idle, Starting} \<longrightarrow>
        session_id s = None \<and> last_sequence s = 0 \<and> assistant_text s = [] \<and>
        \<not> assistant_completed s) \<and>
     (status s \<notin> {Idle, Starting} \<longrightarrow> session_id s \<noteq> None \<and> 1 \<le> last_sequence s) \<and>
     (status s \<in> {Cancelling, Cancelled} \<longrightarrow> cancel_command_id s \<noteq> None) \<and>
     (cancel_command_id s \<noteq> None \<longrightarrow> status s \<in> {Cancelling, Completed, Cancelled, Failed}) \<and>
     (status s = Completed \<longrightarrow> assistant_completed s) \<and>
     (session_failure_of s \<noteq> None \<longleftrightarrow> status s = Failed)"

lemma session_inv_initial [preserves]: "session_inv INITIAL_SESSION_STATE"
  by (simp add: session_inv_def INITIAL_SESSION_STATE_def)

lemma session_inv_apply_event:
  assumes "session_inv s" "status s \<in> legal_statuses (session_event_type_of e)"
    and "event_sequence e = last_sequence s + 1"
  shows "session_inv (reduced_state (apply_event s e))"
  using assms by (induct e; cases "status s"; simp add: session_inv_def)

lemma reduce_session_inv [preserves]:
  assumes "session_inv s"
  shows "session_inv (reduced_state (reduce_session_state s u))"
proof (cases "reduction_ok (reduce_session_state s u)")
  case False
  with assms show ?thesis by (simp add: reduce_rejected_state)
next
  case True
  show ?thesis
  proof (cases u)
    case (Wire e)
    with True assms reduce_wire_accepted [of s e] show ?thesis
      by (auto intro: session_inv_apply_event)
  next
    case (TaskSubmitted cmd t)
    with True show ?thesis
      by (simp add: reduce_task_accepted session_inv_def INITIAL_SESSION_STATE_def)
  next
    case (CancelRequested cmd sid)
    with True reduce_cancel_accepted [of s cmd sid] have
      "status s = Running \<or> status s = AwaitingApproval" "session_id s = Some sid"
      "reduce_session_state s u = accept (s\<lparr>status := Cancelling, cancel_command_id := Some cmd\<rparr>)"
      by simp_all
    with assms show ?thesis by (elim disjE) (simp_all add: session_inv_def)
  next
    case (ApprovalRequested sid)
    with True reduce_approval_requested_accepted [of s sid] assms show ?thesis
      by (simp add: session_inv_def)
  next
    case (ApprovalResolved sid)
    with True reduce_approval_resolved_accepted [of s sid] assms show ?thesis
      by (simp add: session_inv_def)
  qed
qed

interpretation session: lifecycle reduce_session_state reduction_ok reduced_state accept
    replay_session_updates "\<lambda>s. status s \<in> TERMINAL_SESSION_STATUSES" session_inv
  by unfold_locales
    (auto simp: reduce_rejected_state reduce_terminal Let_def intro: reduce_session_inv)

subsection \<open>What an accepted tape says\<close>

text \<open>
  The wire events of a tape, the deltas among them, and the invariant that ties the state to
  the tape it was folded from.
\<close>

definition wire_events :: "session_update list \<Rightarrow> session_event list" where
  "wire_events us = concat (map (\<lambda>u. case u of Wire e \<Rightarrow> [e] | _ \<Rightarrow> []) us)"

definition delta_texts :: "session_event list \<Rightarrow> ustr list" where
  "delta_texts es = concat (map (\<lambda>e. case e of AssistantDeltaEvent _ t \<Rightarrow> [t] | _ \<Rightarrow> []) es)"

definition is_terminal_event :: "session_event \<Rightarrow> bool" where
  "is_terminal_event e \<longleftrightarrow>
     session_event_type_of e \<in> {SessionCompletedT, SessionCancelledT, SessionFailedT}"

lemma wire_events_simps [simp]:
  "wire_events [] = []"
  "wire_events (us @ vs) = wire_events us @ wire_events vs"
  "wire_events [Wire e] = [e]"
  "wire_events [TaskSubmitted c t] = []"
  "wire_events [CancelRequested c i] = []"
  "wire_events [ApprovalRequested i] = []"
  "wire_events [ApprovalResolved i] = []"
  by (simp_all add: wire_events_def)

lemma delta_texts_simps [simp]:
  "delta_texts [] = []"
  "delta_texts (es @ fs) = delta_texts es @ delta_texts fs"
  "delta_texts [AssistantDeltaEvent b t] = [t]"
  "delta_texts [SessionStartedEvent b] = []"
  "delta_texts [AssistantCompletedEvent b t] = []"
  "delta_texts [SessionCompletedEvent b] = []"
  "delta_texts [SessionCancelledEvent b] = []"
  "delta_texts [SessionFailedEvent b c m] = []"
  by (simp_all add: delta_texts_def)

definition tape_inv :: "session_update list \<Rightarrow> session_state \<Rightarrow> bool" where
  "tape_inv us s \<longleftrightarrow>
     last_sequence s = int (length (wire_events us)) \<and>
     map event_sequence (wire_events us) = map int [1..<Suc (length (wire_events us))] \<and>
     (\<forall>e \<in> set (wire_events us). session_id s = Some (event_session e)) \<and>
     concat (delta_texts (wire_events us)) = assistant_text s \<and>
     (\<forall>b t. AssistantCompletedEvent b t \<in> set (wire_events us) \<longrightarrow>
        assistant_completed s \<and> t = assistant_text s) \<and>
     (status s \<in> TERMINAL_SESSION_STATUSES \<longleftrightarrow> list_ex is_terminal_event (wire_events us))"

lemma tape_inv_initial: "tape_inv [] INITIAL_SESSION_STATE"
  by (simp add: tape_inv_def INITIAL_SESSION_STATE_def TERMINAL_SESSION_STATUSES_def)

lemma tape_inv_wire:
  assumes "tape_inv us s" "reduction_ok (reduce_session_state s (Wire e))"
    and "session_inv s" "status s \<notin> TERMINAL_SESSION_STATUSES"
  shows "tape_inv (us @ [Wire e]) (reduced_state (reduce_session_state s (Wire e)))"
proof -
  note acc = reduce_wire_accepted [OF assms(2)]
  have ok: "reduction_ok (apply_event s e)" using assms(2) acc(1) by simp
  have start: "session_event_type_of e = SessionStartedT \<Longrightarrow> wire_events us = []"
    using acc(2) assms(1,3) by (simp add: session_inv_def tape_inv_def)
  show ?thesis
    using assms(1,4) acc(2-5) ok start unfolding acc(1)
    by (induct e)
      (auto simp: tape_inv_def TERMINAL_SESSION_STATUSES_def is_terminal_event_def list_ex_iff
        split: if_splits)
qed

lemma tape_inv_fact:
  assumes "tape_inv us s" "reduction_ok (reduce_session_state s u)" "session_inv s"
    and "\<And>e. u \<noteq> Wire e"
  shows "tape_inv (us @ [u]) (reduced_state (reduce_session_state s u))"
proof (cases u)
  case (TaskSubmitted c t)
  with assms reduce_task_accepted [of s c t] show ?thesis
    by (auto simp: tape_inv_def session_inv_def INITIAL_SESSION_STATE_def
        TERMINAL_SESSION_STATUSES_def)
next
  case (CancelRequested c i)
  with assms reduce_cancel_accepted [of s c i] show ?thesis
    by (auto simp: tape_inv_def TERMINAL_SESSION_STATUSES_def)
next
  case (ApprovalRequested i)
  with assms reduce_approval_requested_accepted [of s i] show ?thesis
    by (auto simp: tape_inv_def TERMINAL_SESSION_STATUSES_def)
next
  case (ApprovalResolved i)
  with assms reduce_approval_resolved_accepted [of s i] show ?thesis
    by (auto simp: tape_inv_def TERMINAL_SESSION_STATUSES_def)
qed (use assms in auto)

lemma replay_tape_inv:
  assumes "reduction_ok (replay_session_updates INITIAL_SESSION_STATE us)"
  shows "tape_inv us (reduced_state (replay_session_updates INITIAL_SESSION_STATE us))"
  using assms
proof (induction us rule: rev_induct)
  case Nil
  then show ?case by (simp add: tape_inv_initial)
next
  case (snoc u us)
  let ?s = "reduced_state (replay_session_updates INITIAL_SESSION_STATE us)"
  from snoc.prems have ok: "reduction_ok (replay_session_updates INITIAL_SESSION_STATE us)"
    and step: "reduction_ok (reduce_session_state ?s u)"
    by (simp_all add: session.replay_snoc_ok)
  have inv: "session_inv ?s" by (rule session.replay_inv) (rule session_inv_initial)
  have nonterm: "status ?s \<notin> TERMINAL_SESSION_STATUSES"
    using step session.final_absorbs by blast
  have "tape_inv (us @ [u]) (reduced_state (reduce_session_state ?s u))"
    using tape_inv_wire [OF snoc.IH [OF ok] _ inv nonterm] step
      tape_inv_fact [OF snoc.IH [OF ok] step inv] by (cases u) auto
  then show ?case using session.replay_snoc_post [OF snoc.prems] by simp
qed

text \<open>A terminal event is the last wire event of an accepted tape, and the last update.\<close>

lemma replay_terminal_last:
  assumes "reduction_ok (replay_session_updates INITIAL_SESSION_STATE (us @ v # vs))"
  shows "\<not> list_ex is_terminal_event (wire_events us)"
proof -
  have "reduction_ok (replay_session_updates INITIAL_SESSION_STATE us)"
    using assms by (rule session.replay_prefix_ok)
  from replay_tape_inv [OF this] session.replay_final_last [OF assms] show ?thesis
    by (simp add: tape_inv_def)
qed

subsection \<open>Properties\<close>

text \<open>A concrete accepted tape: one session with two deltas, completed normally.\<close>

definition example_base :: "int \<Rightarrow> session_event_base" where
  "example_base n =
     \<lparr>se_session_id = lit ''ses_1'', se_sequence = n, se_timestamp = lit ''2026-01-01T00:00:00.000Z'',
      se_correlation = Some (lit ''cmd_1'')\<rparr>"

definition example_tape :: "session_update list" where
  "example_tape =
     [TaskSubmitted (lit ''cmd_1'') (lit ''inspect''),
      Wire (SessionStartedEvent (example_base 1)),
      Wire (AssistantDeltaEvent (example_base 2) (lit ''he'')),
      Wire (AssistantDeltaEvent (example_base 3) (lit ''y'')),
      Wire (AssistantCompletedEvent (example_base 4) (lit ''hey'')),
      Wire (SessionCompletedEvent (example_base 5))]"

lemmas example_simps =
  example_tape_def example_base_def INITIAL_SESSION_STATE_def TERMINAL_SESSION_STATUSES_def
  reduce_session_state_def reduce_session_event_def expected_correlation_def
  sequence_failure_def accept_def reduction_ok_def

lemma example_tape_ok: "reduction_ok (replay_session_updates INITIAL_SESSION_STATE example_tape)"
  by (simp add: example_simps Let_def)

text \<open>C6: An accepted tape carries the wire sequence 1, 2, ..., n without gap or repetition, all
  of its events name the one session the state holds, the state's text is the concatenation of
  the deltas, and a completion event repeats exactly that text.\<close>

theorem accepted_tape_shape:
  assumes "reduction_ok (replay_session_updates INITIAL_SESSION_STATE us)"
  shows "map event_sequence (wire_events us) = map int [1..<Suc (length (wire_events us))]
    \<and> last_sequence (reduced_state (replay_session_updates INITIAL_SESSION_STATE us))
        = int (length (wire_events us))
    \<and> list_all (\<lambda>e. session_id (reduced_state (replay_session_updates INITIAL_SESSION_STATE us))
        = Some (event_session e)) (wire_events us)
    \<and> assistant_text (reduced_state (replay_session_updates INITIAL_SESSION_STATE us))
        = concat (delta_texts (wire_events us))
    \<and> list_all (\<lambda>e. case e of AssistantCompletedEvent b t \<Rightarrow> t = concat (delta_texts (wire_events us))
        | _ \<Rightarrow> True) (wire_events us)"
  using replay_tape_inv [OF assms]
  by (auto simp: tape_inv_def list_all_iff split: session_event.splits)

theorem accepted_tape_shape_witness:
  "map event_sequence (wire_events example_tape) = [1, 2, 3, 4, 5]"
  using accepted_tape_shape [OF example_tape_ok]
  by (simp add: example_tape_def wire_events_def upt_rec)

text \<open>A terminal event (completed, cancelled or failed) is the last update of an accepted
  tape: nothing is accepted after it.\<close>

theorem terminal_event_ends_tape:
  assumes "reduction_ok (replay_session_updates INITIAL_SESSION_STATE (us @ Wire e # vs))"
    and "is_terminal_event e"
  shows "vs = []"
proof (cases vs)
  case (Cons v vs')
  from assms(1) Cons have "\<not> list_ex is_terminal_event (wire_events (us @ [Wire e]))"
    by (intro replay_terminal_last [of "us @ [Wire e]" v vs']) simp
  with assms(2) show ?thesis by simp
qed

theorem terminal_event_ends_tape_witness:
  "drop 6 example_tape = []"
  by (rule terminal_event_ends_tape [of "take 5 example_tape" "SessionCompletedEvent (example_base 5)"])
    (simp_all add: example_simps is_terminal_event_def)

text \<open>A rejected update returns the prior state unchanged with a payload-free diagnostic that
  holds only the failure code, the prior status and the update's type; the code is
  \<open>terminal_state_absorbing\<close> exactly when the prior status is terminal.\<close>

theorem rejected_update_keeps_state:
  assumes "\<not> reduction_ok (reduce_session_state s u)"
  shows "\<exists>c. reduce_session_state s u =
      \<lparr>reduced_state = s, reduction_failure =
         Some \<lparr>failed_code = c, prior_status = status s, failed_event_type = event_type_of u\<rparr>\<rparr>
    \<and> (c = TerminalStateAbsorbing \<longleftrightarrow> status s \<in> TERMINAL_SESSION_STATUSES)"
proof -
  obtain c where c: "reduce_session_state s u = reject s c (event_type_of u)"
    using reduce_rejected [OF assms] by blast
  have "c = TerminalStateAbsorbing \<longleftrightarrow> status s \<in> TERMINAL_SESSION_STATUSES"
  proof
    show "c = TerminalStateAbsorbing" if "status s \<in> TERMINAL_SESSION_STATUSES"
      using that c by (simp add: reduce_terminal reject_def)
    show "status s \<in> TERMINAL_SESSION_STATUSES" if "c = TerminalStateAbsorbing"
      using that c reduce_not_absorbing [of s u] by fastforce
  qed
  with c show ?thesis by (auto simp: reject_def)
qed

theorem rejected_update_keeps_state_witness:
  "reduced_state (reduce_session_state INITIAL_SESSION_STATE (ApprovalRequested (lit ''ses_1'')))
     = INITIAL_SESSION_STATE"
proof -
  have "\<not> reduction_ok (reduce_session_state INITIAL_SESSION_STATE (ApprovalRequested (lit ''ses_1'')))"
    by (simp add: example_simps reject_def)
  from rejected_update_keeps_state [OF this] show ?thesis by auto
qed

text \<open>Folding a tape stops at its first rejected update: the result is that update's own
  diagnostic, in the state the accepted prefix produced, whatever follows.\<close>

theorem replay_stops_at_first_rejection:
  assumes "\<not> reduction_ok (replay_session_updates s us)"
  shows "\<exists>xs v ys. us = xs @ v # ys \<and> reduction_ok (replay_session_updates s xs)
    \<and> \<not> reduction_ok (reduce_session_state (reduced_state (replay_session_updates s xs)) v)
    \<and> replay_session_updates s us =
        reduce_session_state (reduced_state (replay_session_updates s xs)) v
    \<and> reduced_state (replay_session_updates s us) = reduced_state (replay_session_updates s xs)"
  using session.replay_rejects_at [OF assms] by blast

theorem replay_stops_at_first_rejection_witness:
  "\<exists>xs v ys. example_tape @ example_tape = xs @ v # ys
    \<and> reduction_ok (replay_session_updates INITIAL_SESSION_STATE xs)"
proof -
  have "\<not> reduction_ok (replay_session_updates INITIAL_SESSION_STATE (example_tape @ example_tape))"
    by (simp add: example_simps Let_def reject_def)
  from replay_stops_at_first_rejection [OF this] show ?thesis by blast
qed

text \<open>Whatever updates arrive, accepted or not, the state stays well formed: an idle state is
  the initial one, a session identity and a positive sequence exist exactly once the session
  started, cancellation states hold a cancel command, a completed state has a completed
  assistant, and a failure is recorded exactly in the failed state.\<close>

theorem replayed_state_well_formed:
  "session_inv (reduced_state (replay_session_updates INITIAL_SESSION_STATE us))"
  by (rule session.replay_inv) (rule session_inv_initial)

end
