(* ===== verification/Loop_Limits.thy ===== *)
theory Loop_Limits
  imports Protocol_Models
begin

section \<open>Safety budgets and evidence (loop_limits.py, model_evidence.py)\<close>

text \<open>
  \<open>LoopLimits\<close> is the immutable configuration, \<open>LoopLimitTracker\<close> the mutable first-winner
  accountant, \<open>LoopLimitsObserved\<close> the evidence a transcript stores and \<open>ModelUsageObserved\<close>
  the usage evidence. Constructors take Python objects, because the code checks their types, and
  return the exception or the value. The lemmas: a constructed value satisfies its bounds
  (\<open>loop_limits_ok\<close>, \<open>tracker_ok\<close>, \<open>observation_ok\<close>); every tracker operation keeps
  \<open>tracker_ok\<close> once a turn was admitted; the first exhaustion is never replaced and a refused
  charge changes no counter, stated through the interface \<open>accountant\<close>.
\<close>

subsection \<open>Constants and classifications\<close>

definition DEFAULT_MAX_MODEL_TURNS :: int where "DEFAULT_MAX_MODEL_TURNS = 1"
definition MAX_MODEL_TURNS :: int where "MAX_MODEL_TURNS = 16"
definition DEFAULT_PROVIDER_WORK_TIMEOUT_SECONDS :: int where
  "DEFAULT_PROVIDER_WORK_TIMEOUT_SECONDS = 120"
definition MAX_PROVIDER_WORK_TIMEOUT_SECONDS :: int where
  "MAX_PROVIDER_WORK_TIMEOUT_SECONDS = 3600"
definition DEFAULT_MAX_ASSISTANT_OUTPUT_BYTES :: int where
  "DEFAULT_MAX_ASSISTANT_OUTPUT_BYTES = 4096"
definition MAX_ASSISTANT_OUTPUT_BYTES :: int where "MAX_ASSISTANT_OUTPUT_BYTES = 8192"
definition DEFAULT_MAX_OBSERVED_TOOL_CALLS :: int where "DEFAULT_MAX_OBSERVED_TOOL_CALLS = 1"
definition MAX_OBSERVED_TOOL_CALLS :: int where "MAX_OBSERVED_TOOL_CALLS = 64"

lemmas limit_constants =
  DEFAULT_MAX_MODEL_TURNS_def MAX_MODEL_TURNS_def
  DEFAULT_PROVIDER_WORK_TIMEOUT_SECONDS_def MAX_PROVIDER_WORK_TIMEOUT_SECONDS_def
  DEFAULT_MAX_ASSISTANT_OUTPUT_BYTES_def MAX_ASSISTANT_OUTPUT_BYTES_def
  DEFAULT_MAX_OBSERVED_TOOL_CALLS_def MAX_OBSERVED_TOOL_CALLS_def

datatype loop_limit_exhaustion = ModelTurnsX | ProviderWorkX | AssistantOutputX | ToolCallsX

fun exhaustion_name :: "loop_limit_exhaustion \<Rightarrow> string" where
  "exhaustion_name ModelTurnsX = ''model_turns''"
| "exhaustion_name ProviderWorkX = ''provider_work''"
| "exhaustion_name AssistantOutputX = ''assistant_output''"
| "exhaustion_name ToolCallsX = ''tool_calls''"

definition MODEL_TURN_LIMIT_EXCEEDED_CODE :: ustr where
  "MODEL_TURN_LIMIT_EXCEEDED_CODE = lit ''model_turn_limit_exceeded''"
definition PROVIDER_WORK_DEADLINE_EXCEEDED_CODE :: ustr where
  "PROVIDER_WORK_DEADLINE_EXCEEDED_CODE = lit ''provider_work_deadline_exceeded''"
definition ASSISTANT_OUTPUT_LIMIT_EXCEEDED_CODE :: ustr where
  "ASSISTANT_OUTPUT_LIMIT_EXCEEDED_CODE = lit ''assistant_output_limit_exceeded''"
definition TOOL_CALL_LIMIT_EXCEEDED_CODE :: ustr where
  "TOOL_CALL_LIMIT_EXCEEDED_CODE = lit ''tool_call_limit_exceeded''"

lemmas limit_codes =
  MODEL_TURN_LIMIT_EXCEEDED_CODE_def PROVIDER_WORK_DEADLINE_EXCEEDED_CODE_def
  ASSISTANT_OUTPUT_LIMIT_EXCEEDED_CODE_def TOOL_CALL_LIMIT_EXCEEDED_CODE_def

fun loop_limit_failure_code :: "loop_limit_exhaustion \<Rightarrow> ustr" where
  "loop_limit_failure_code ModelTurnsX = MODEL_TURN_LIMIT_EXCEEDED_CODE"
| "loop_limit_failure_code ProviderWorkX = PROVIDER_WORK_DEADLINE_EXCEEDED_CODE"
| "loop_limit_failure_code AssistantOutputX = ASSISTANT_OUTPUT_LIMIT_EXCEEDED_CODE"
| "loop_limit_failure_code ToolCallsX = TOOL_CALL_LIMIT_EXCEEDED_CODE"

definition LOOP_LIMIT_FAILURE_CODES :: "ustr set" where
  "LOOP_LIMIT_FAILURE_CODES =
     {MODEL_TURN_LIMIT_EXCEEDED_CODE, PROVIDER_WORK_DEADLINE_EXCEEDED_CODE,
      ASSISTANT_OUTPUT_LIMIT_EXCEEDED_CODE, TOOL_CALL_LIMIT_EXCEEDED_CODE}"

lemma loop_limit_failure_code_inj: "loop_limit_failure_code a = loop_limit_failure_code b \<longleftrightarrow> a = b"
  by (cases a; cases b) (simp_all add: limit_codes)

lemma loop_limit_failure_code_mem [simp]: "loop_limit_failure_code x \<in> LOOP_LIMIT_FAILURE_CODES"
  by (cases x) (simp_all add: LOOP_LIMIT_FAILURE_CODES_def)

subsection \<open>Validators\<close>

definition require_strict_integer :: "py_object \<Rightarrow> string \<Rightarrow> py_error + int" where
  "require_strict_integer v field =
     (case v of PyInt n \<Rightarrow> Inr n | _ \<Rightarrow> Inl (TypeError (field @ '' must be an integer'')))"

definition require_configured_limit :: "py_object \<Rightarrow> string \<Rightarrow> int \<Rightarrow> py_error + int" where
  "require_configured_limit v field maximum =
     and_then (require_strict_integer v field) (\<lambda>n.
       if n < 1 \<or> maximum < n
       then Inl (ValueError (field @ '' must be between 1 and '' @ decimal maximum))
       else Inr n)"

definition require_counter :: "py_object \<Rightarrow> string \<Rightarrow> int \<Rightarrow> py_error + int" where
  "require_counter v field maximum =
     and_then (require_strict_integer v field) (\<lambda>n.
       if n < 0 \<or> maximum < n
       then Inl (ValueError (field @ '' must be between 0 and '' @ decimal maximum))
       else Inr n)"

definition exhaustion_of_name :: "ustr \<Rightarrow> loop_limit_exhaustion option" where
  "exhaustion_of_name s =
     (if s = lit ''model_turns'' then Some ModelTurnsX
      else if s = lit ''provider_work'' then Some ProviderWorkX
      else if s = lit ''assistant_output'' then Some AssistantOutputX
      else if s = lit ''tool_calls'' then Some ToolCallsX
      else None)"

definition require_exhaustion :: "py_object \<Rightarrow> py_error + loop_limit_exhaustion option" where
  "require_exhaustion v =
     (case v of
        PyNone \<Rightarrow> Inr None
      | PyStr s \<Rightarrow>
          (case exhaustion_of_name s of
             None \<Rightarrow> Inl (ValueError ''loop-limit exhaustion is unsupported'')
           | Some x \<Rightarrow> Inr (Some x))
      | _ \<Rightarrow> Inl (TypeError ''loop-limit exhaustion must be a string or None''))"

lemma require_strict_integer_Inr_iff [simp]:
  "require_strict_integer v f = Inr n \<longleftrightarrow> v = PyInt n"
  by (auto simp: require_strict_integer_def split: py_object.splits)

lemma require_configured_limit_Inr_iff [simp]:
  "require_configured_limit v f m = Inr n \<longleftrightarrow> v = PyInt n \<and> 1 \<le> n \<and> n \<le> m"
  by (cases v) (auto simp: require_configured_limit_def split: if_splits)

lemma require_counter_Inr_iff [simp]:
  "require_counter v f m = Inr n \<longleftrightarrow> v = PyInt n \<and> 0 \<le> n \<and> n \<le> m"
  by (cases v) (auto simp: require_counter_def split: if_splits)

lemma exhaustion_of_name_name [simp]: "exhaustion_of_name (lit (exhaustion_name x)) = Some x"
  by (cases x) (simp_all add: exhaustion_of_name_def)

definition py_exhaustion :: "loop_limit_exhaustion option \<Rightarrow> py_object" where
  "py_exhaustion x = (case x of None \<Rightarrow> PyNone | Some e \<Rightarrow> PyStr (lit (exhaustion_name e)))"

lemma require_exhaustion_py [simp]: "require_exhaustion (py_exhaustion x) = Inr x"
  by (cases x) (simp_all add: require_exhaustion_def py_exhaustion_def)

subsection \<open>Configured limits\<close>

record loop_limits =
  max_model_turns :: int
  provider_work_timeout_seconds :: int
  max_assistant_output_bytes :: int
  max_observed_tool_calls :: int

definition LoopLimits :: "py_object \<Rightarrow> py_object \<Rightarrow> py_object \<Rightarrow> py_object \<Rightarrow> py_error + loop_limits" where
  "LoopLimits turns timeout out_bytes tools =
     and_then (require_configured_limit turns ''maximum model turns'' MAX_MODEL_TURNS) (\<lambda>t.
     and_then (require_configured_limit timeout ''provider work timeout seconds''
                 MAX_PROVIDER_WORK_TIMEOUT_SECONDS) (\<lambda>w.
     and_then (require_configured_limit out_bytes ''maximum assistant output bytes''
                 MAX_ASSISTANT_OUTPUT_BYTES) (\<lambda>b.
     and_then (require_configured_limit tools ''maximum observed tool calls''
                 MAX_OBSERVED_TOOL_CALLS) (\<lambda>c.
       Inr \<lparr>max_model_turns = t, provider_work_timeout_seconds = w,
            max_assistant_output_bytes = b, max_observed_tool_calls = c\<rparr>))))"

definition default_loop_limits :: loop_limits where
  "default_loop_limits =
     \<lparr>max_model_turns = DEFAULT_MAX_MODEL_TURNS,
      provider_work_timeout_seconds = DEFAULT_PROVIDER_WORK_TIMEOUT_SECONDS,
      max_assistant_output_bytes = DEFAULT_MAX_ASSISTANT_OUTPUT_BYTES,
      max_observed_tool_calls = DEFAULT_MAX_OBSERVED_TOOL_CALLS\<rparr>"

definition loop_limits_ok :: "loop_limits \<Rightarrow> bool" where
  "loop_limits_ok l \<longleftrightarrow>
     1 \<le> max_model_turns l \<and> max_model_turns l \<le> MAX_MODEL_TURNS \<and>
     1 \<le> provider_work_timeout_seconds l \<and>
     provider_work_timeout_seconds l \<le> MAX_PROVIDER_WORK_TIMEOUT_SECONDS \<and>
     1 \<le> max_assistant_output_bytes l \<and> max_assistant_output_bytes l \<le> MAX_ASSISTANT_OUTPUT_BYTES \<and>
     1 \<le> max_observed_tool_calls l \<and> max_observed_tool_calls l \<le> MAX_OBSERVED_TOOL_CALLS"

lemma LoopLimits_Inr_iff:
  "LoopLimits a b c d = Inr l \<longleftrightarrow>
     loop_limits_ok l \<and> a = PyInt (max_model_turns l) \<and>
     b = PyInt (provider_work_timeout_seconds l) \<and> c = PyInt (max_assistant_output_bytes l) \<and>
     d = PyInt (max_observed_tool_calls l)"
  by (auto simp: LoopLimits_def loop_limits_ok_def)

lemma default_loop_limits_ok [simp]: "loop_limits_ok default_loop_limits"
  by (simp add: loop_limits_ok_def default_loop_limits_def limit_constants)

subsection \<open>Evidence\<close>

definition MAX_MODEL_USAGE_TOKENS :: int where "MAX_MODEL_USAGE_TOKENS = 9007199254740991"

record model_usage_observed =
  mu_session_id :: ustr
  mu_input_tokens :: int
  mu_output_tokens :: int

definition usage_counter :: "py_object \<Rightarrow> string \<Rightarrow> py_error + int" where
  "usage_counter v field =
     (case v of
        PyInt n \<Rightarrow>
          if n < 0 \<or> MAX_MODEL_USAGE_TOKENS < n
          then Inl (ValueError (field @ '' must be between 0 and 9007199254740991'')) else Inr n
      | _ \<Rightarrow> Inl (TypeError (field @ '' must be an integer'')))"

definition ModelUsageObserved ::
  "py_object \<Rightarrow> py_object \<Rightarrow> py_object \<Rightarrow> py_error + model_usage_observed" where
  "ModelUsageObserved sid input_tokens output_tokens =
     (case sid of
        PyStr s \<Rightarrow>
          if SessionId s then
            and_then (usage_counter input_tokens ''model usage input token count'') (\<lambda>i.
            and_then (usage_counter output_tokens ''model usage output token count'') (\<lambda>j.
              Inr \<lparr>mu_session_id = s, mu_input_tokens = i, mu_output_tokens = j\<rparr>))
          else Inl (ValueError ''model usage session ID is invalid'')
      | _ \<Rightarrow> Inl (ValueError ''model usage session ID is invalid''))"

lemma usage_counter_Inr_iff [simp]:
  "usage_counter v f = Inr n \<longleftrightarrow> v = PyInt n \<and> 0 \<le> n \<and> n \<le> MAX_MODEL_USAGE_TOKENS"
  by (auto simp: usage_counter_def split: py_object.splits)

definition usage_ok :: "model_usage_observed \<Rightarrow> bool" where
  "usage_ok u \<longleftrightarrow>
     SessionId (mu_session_id u) \<and>
     0 \<le> mu_input_tokens u \<and> mu_input_tokens u \<le> MAX_MODEL_USAGE_TOKENS \<and>
     0 \<le> mu_output_tokens u \<and> mu_output_tokens u \<le> MAX_MODEL_USAGE_TOKENS"

lemma ModelUsageObserved_Inr_iff:
  "ModelUsageObserved sid a b = Inr u \<longleftrightarrow>
     usage_ok u \<and> sid = PyStr (mu_session_id u) \<and> a = PyInt (mu_input_tokens u) \<and>
     b = PyInt (mu_output_tokens u)"
  by (cases sid) (auto simp: ModelUsageObserved_def usage_ok_def)

record loop_limits_observed =
  lo_session_id :: ustr
  lo_limits :: loop_limits
  lo_model_turns_started :: int
  lo_assistant_output_bytes :: int
  lo_tool_calls_observed :: int
  lo_exhausted :: "loop_limit_exhaustion option"

text \<open>
  The counter checks that \<open>LoopLimitsObserved.__post_init__\<close> and \<open>LoopLimitTracker.__init__\<close>
  run in the same order: range of each counter, the one rejecting tool observation, the full
  turn count of a turn exhaustion, and no provider observation without an admitted turn.
\<close>

definition require_counters ::
  "loop_limits \<Rightarrow> py_object \<Rightarrow> py_object \<Rightarrow> py_object \<Rightarrow> loop_limit_exhaustion option
     \<Rightarrow> py_error + (int \<times> int \<times> int)" where
  "require_counters l turns out_bytes tools exhaustion =
     and_then (require_counter turns ''model turns started'' (max_model_turns l)) (\<lambda>t.
     and_then (require_counter out_bytes ''assistant output bytes'' (max_assistant_output_bytes l)) (\<lambda>b.
     let maximum_tool_count =
           max_observed_tool_calls l + (if exhaustion = Some ToolCallsX then 1 else 0) in
     and_then (require_counter tools ''tool calls observed'' maximum_tool_count) (\<lambda>c.
     if exhaustion = Some ToolCallsX \<and> c \<noteq> maximum_tool_count then
       Inl (ValueError ''tool-call exhaustion requires exactly one rejecting observation beyond the maximum'')
     else if exhaustion = Some ModelTurnsX \<and> t \<noteq> max_model_turns l then
       Inl (ValueError ''model-turn exhaustion requires the admitted count to equal the maximum'')
     else if t = 0 \<and> (0 < b \<or> 0 < c \<or> exhaustion \<in> {Some AssistantOutputX, Some ToolCallsX}) then
       Inl (ValueError ''provider observations require an admitted model turn'')
     else Inr (t, b, c))))"

definition counters_ok ::
  "loop_limits \<Rightarrow> int \<Rightarrow> int \<Rightarrow> int \<Rightarrow> loop_limit_exhaustion option \<Rightarrow> bool" where
  "counters_ok l t b c x \<longleftrightarrow>
     0 \<le> t \<and> t \<le> max_model_turns l \<and> 0 \<le> b \<and> b \<le> max_assistant_output_bytes l \<and> 0 \<le> c \<and>
     (if x = Some ToolCallsX then c = max_observed_tool_calls l + 1
      else c \<le> max_observed_tool_calls l) \<and>
     (x = Some ModelTurnsX \<longrightarrow> t = max_model_turns l) \<and>
     (t = 0 \<longrightarrow> b = 0 \<and> c = 0 \<and> x \<notin> {Some AssistantOutputX, Some ToolCallsX})"

lemma require_counters_Inr_iff:
  "require_counters l pt pb pc x = Inr (t, b, c) \<longleftrightarrow>
     pt = PyInt t \<and> pb = PyInt b \<and> pc = PyInt c \<and> counters_ok l t b c x"
  by (cases x) (auto simp: require_counters_def counters_ok_def Let_def)

definition LoopLimitsObserved ::
  "py_object \<Rightarrow> py_object \<Rightarrow> py_object \<Rightarrow> py_object \<Rightarrow> py_object \<Rightarrow> py_object \<Rightarrow> py_object
     \<Rightarrow> py_object \<Rightarrow> py_object \<Rightarrow> py_error + loop_limits_observed" where
  "LoopLimitsObserved sid turns timeout out_max tool_max started out_bytes tools exhausted =
     (case sid of
        PyStr s \<Rightarrow>
          if SessionId s then
            and_then (LoopLimits turns timeout out_max tool_max) (\<lambda>l.
            and_then (require_exhaustion exhausted) (\<lambda>x.
            and_then (require_counters l started out_bytes tools x) (\<lambda>(t, b, c).
              Inr \<lparr>lo_session_id = s, lo_limits = l, lo_model_turns_started = t,
                   lo_assistant_output_bytes = b, lo_tool_calls_observed = c, lo_exhausted = x\<rparr>)))
          else Inl (ValueError ''loop-limits observation session ID is invalid'')
      | _ \<Rightarrow> Inl (ValueError ''loop-limits observation session ID is invalid''))"

definition observation_ok :: "loop_limits_observed \<Rightarrow> bool" where
  "observation_ok ob \<longleftrightarrow>
     SessionId (lo_session_id ob) \<and> loop_limits_ok (lo_limits ob) \<and>
     counters_ok (lo_limits ob) (lo_model_turns_started ob) (lo_assistant_output_bytes ob)
       (lo_tool_calls_observed ob) (lo_exhausted ob)"

lemma LoopLimitsObserved_InrD:
  "LoopLimitsObserved sid a b c d e f g h = Inr ob \<Longrightarrow> observation_ok ob"
  by (cases sid)
    (auto simp: LoopLimitsObserved_def observation_ok_def LoopLimits_Inr_iff
      require_counters_Inr_iff split: if_splits)

subsection \<open>The tracker\<close>

record loop_limit_tracker =
  lt_limits :: loop_limits
  lt_model_turns_started :: int
  lt_assistant_output_bytes :: int
  lt_tool_calls_observed :: int
  lt_exhausted :: "loop_limit_exhaustion option"

definition LoopLimitTracker ::
  "loop_limits \<Rightarrow> py_object \<Rightarrow> py_object \<Rightarrow> py_object \<Rightarrow> py_object \<Rightarrow> py_error + loop_limit_tracker" where
  "LoopLimitTracker limits turns out_bytes tools exhausted =
     and_then (require_exhaustion exhausted) (\<lambda>x.
     and_then (require_counters limits turns out_bytes tools x) (\<lambda>(t, b, c).
       Inr \<lparr>lt_limits = limits, lt_model_turns_started = t, lt_assistant_output_bytes = b,
            lt_tool_calls_observed = c, lt_exhausted = x\<rparr>))"

definition fresh_tracker :: "loop_limits \<Rightarrow> loop_limit_tracker" where
  "fresh_tracker limits =
     \<lparr>lt_limits = limits, lt_model_turns_started = 0, lt_assistant_output_bytes = 0,
      lt_tool_calls_observed = 0, lt_exhausted = None\<rparr>"

definition admit_model_turn :: "loop_limit_tracker \<Rightarrow> bool \<times> loop_limit_tracker" where
  "admit_model_turn t =
     (if lt_exhausted t \<noteq> None then (False, t)
      else if max_model_turns (lt_limits t) \<le> lt_model_turns_started t
      then (False, t\<lparr>lt_exhausted := Some ModelTurnsX\<rparr>)
      else (True, t\<lparr>lt_model_turns_started := lt_model_turns_started t + 1\<rparr>))"

definition reserve_assistant_output ::
  "py_object \<Rightarrow> loop_limit_tracker \<Rightarrow> py_error + (bool \<times> loop_limit_tracker)" where
  "reserve_assistant_output byte_count t =
     and_then (require_strict_integer byte_count ''assistant output reservation'') (\<lambda>n.
       if n < 0 then Inl (ValueError ''assistant output reservation must be non-negative'')
       else if lt_exhausted t \<noteq> None then Inr (False, t)
       else
         let remaining = max_assistant_output_bytes (lt_limits t) - lt_assistant_output_bytes t in
         if remaining < n then Inr (False, t\<lparr>lt_exhausted := Some AssistantOutputX\<rparr>)
         else Inr (True, t\<lparr>lt_assistant_output_bytes := lt_assistant_output_bytes t + n\<rparr>))"

definition observe_tool_call :: "loop_limit_tracker \<Rightarrow> bool \<times> loop_limit_tracker" where
  "observe_tool_call t =
     (if lt_exhausted t \<noteq> None then (False, t)
      else
        let t' = t\<lparr>lt_tool_calls_observed := lt_tool_calls_observed t + 1\<rparr> in
        if max_observed_tool_calls (lt_limits t') < lt_tool_calls_observed t'
        then (False, t'\<lparr>lt_exhausted := Some ToolCallsX\<rparr>)
        else (True, t'))"

definition mark_provider_work_exhausted :: "loop_limit_tracker \<Rightarrow> loop_limit_tracker" where
  "mark_provider_work_exhausted t =
     (if lt_exhausted t \<noteq> None then t else t\<lparr>lt_exhausted := Some ProviderWorkX\<rparr>)"

definition snapshot :: "ustr \<Rightarrow> loop_limit_tracker \<Rightarrow> py_error + loop_limits_observed" where
  "snapshot session_id t =
     LoopLimitsObserved (PyStr session_id)
       (PyInt (max_model_turns (lt_limits t)))
       (PyInt (provider_work_timeout_seconds (lt_limits t)))
       (PyInt (max_assistant_output_bytes (lt_limits t)))
       (PyInt (max_observed_tool_calls (lt_limits t)))
       (PyInt (lt_model_turns_started t)) (PyInt (lt_assistant_output_bytes t))
       (PyInt (lt_tool_calls_observed t)) (py_exhaustion (lt_exhausted t))"

definition tracker_ok :: "loop_limit_tracker \<Rightarrow> bool" where
  "tracker_ok t \<longleftrightarrow>
     loop_limits_ok (lt_limits t) \<and>
     counters_ok (lt_limits t) (lt_model_turns_started t) (lt_assistant_output_bytes t)
       (lt_tool_calls_observed t) (lt_exhausted t)"

lemmas tracker_ops =
  admit_model_turn_def reserve_assistant_output_def observe_tool_call_def
  mark_provider_work_exhausted_def

lemma LoopLimitTracker_ok:
  "LoopLimitTracker l a b c x = Inr t \<Longrightarrow> loop_limits_ok l \<Longrightarrow> tracker_ok t \<and> lt_limits t = l"
  by (auto simp: LoopLimitTracker_def tracker_ok_def require_counters_Inr_iff)

lemma LoopLimitTracker_default:
  assumes "loop_limits_ok l"
  shows "LoopLimitTracker l (PyInt 0) (PyInt 0) (PyInt 0) PyNone = Inr (fresh_tracker l)"
proof -
  have "require_counters l (PyInt 0) (PyInt 0) (PyInt 0) None = Inr (0, 0, 0)"
    using assms by (simp add: require_counters_Inr_iff counters_ok_def loop_limits_ok_def)
  then show ?thesis by (simp add: LoopLimitTracker_def require_exhaustion_def fresh_tracker_def)
qed

lemma fresh_tracker_ok: "loop_limits_ok l \<Longrightarrow> tracker_ok (fresh_tracker l)"
  by (simp add: tracker_ok_def fresh_tracker_def counters_ok_def loop_limits_ok_def)

subsection \<open>The tracker as a first-winner accountant\<close>

text \<open>
  What a caller relies on: a charge is admitted or refused; a refused charge leaves every
  counter that the evidence calls admitted unchanged; once a budget is exhausted nothing changes
  any more. \<open>charge\<close> is any of the operations, \<open>latch\<close> the first exhaustion.
\<close>

locale accountant =
  fixes charge :: "'op \<Rightarrow> 's \<Rightarrow> bool \<times> 's"
    and latch :: "'s \<Rightarrow> 'x option"
    and good :: "'s \<Rightarrow> bool"
  assumes charge_after_latch: "latch s \<noteq> None \<Longrightarrow> charge c s = (False, s)"
    and charge_refused_latches: "charge c s = (False, s') \<Longrightarrow> latch s' \<noteq> None"
    and charge_admitted_open: "charge c s = (True, s') \<Longrightarrow> latch s' = None"
    and charge_good: "good s \<Longrightarrow> good (snd (charge c s))"
begin

fun charge_all :: "'op list \<Rightarrow> 's \<Rightarrow> bool list \<times> 's" where
  "charge_all [] s = ([], s)"
| "charge_all (c # cs) s =
     (let (ok, s') = charge c s; (oks, s'') = charge_all cs s' in (ok # oks, s''))"

lemma charge_all_append:
  "charge_all (cs @ ds) s =
     (let (oks, s') = charge_all cs s; (oks', s'') = charge_all ds s' in (oks @ oks', s''))"
  by (induction cs arbitrary: s) (auto simp: Let_def split: prod.splits)

lemma charge_all_good: "good s \<Longrightarrow> good (snd (charge_all cs s))"
  by (induction cs arbitrary: s) (simp_all add: split_beta charge_good)

lemma charge_all_latched:
  "latch s \<noteq> None \<Longrightarrow> charge_all cs s = (replicate (length cs) False, s)"
  by (induction cs arbitrary: s) (simp_all add: charge_after_latch)

lemma charge_all_shape:
  "\<exists>k m. fst (charge_all cs s) = replicate k True @ replicate m False \<and> k + m = length cs"
proof (induction cs arbitrary: s)
  case Nil
  then show ?case by simp
next
  case (Cons c cs)
  obtain ok s' where c: "charge c s = (ok, s')" by (cases "charge c s")
  show ?case
  proof (cases ok)
    case True
    obtain k m where "fst (charge_all cs s') = replicate k True @ replicate m False"
      "k + m = length cs" using Cons.IH by blast
    with c True have "fst (charge_all (c # cs) s) = replicate (Suc k) True @ replicate m False \<and>
      Suc k + m = length (c # cs)" by (auto simp: split_beta)
    then show ?thesis by blast
  next
    case False
    have "charge_all cs s' = (replicate (length cs) False, s')"
      using c False by (intro charge_all_latched charge_refused_latches [of c s]) simp
    with c False have "fst (charge_all (c # cs) s) =
      replicate 0 True @ replicate (Suc (length cs)) False" by simp
    then show ?thesis by (metis add_0 length_Cons)
  qed
qed

lemma charge_all_first_winner:
  assumes "latch (snd (charge_all cs s)) = Some x"
  shows "latch (snd (charge_all (cs @ ds) s)) = Some x"
  using assms by (auto simp: charge_all_append split_beta charge_all_latched)

end

text \<open>The four operations of the tracker as charges; a reservation is of a non-negative size.\<close>

datatype budget_op = AdmitModelTurn | ReserveAssistantOutput nat | ObserveToolCall | MarkProviderWork

fun charge_budget :: "budget_op \<Rightarrow> loop_limit_tracker \<Rightarrow> bool \<times> loop_limit_tracker" where
  "charge_budget AdmitModelTurn t = admit_model_turn t"
| "charge_budget (ReserveAssistantOutput n) t =
     (case reserve_assistant_output (PyInt (int n)) t of Inr r \<Rightarrow> r | Inl _ \<Rightarrow> (False, t))"
| "charge_budget ObserveToolCall t = observe_tool_call t"
| "charge_budget MarkProviderWork t = (False, mark_provider_work_exhausted t)"

definition turn_admitted :: "loop_limit_tracker \<Rightarrow> bool" where
  "turn_admitted t \<longleftrightarrow> tracker_ok t \<and> 1 \<le> lt_model_turns_started t"

lemma reserve_assistant_output_total:
  "\<exists>r. reserve_assistant_output (PyInt (int n)) t = Inr r"
  by (auto simp: reserve_assistant_output_def require_strict_integer_def Let_def)

lemma charge_budget_turn_admitted:
  "turn_admitted t \<Longrightarrow> turn_admitted (snd (charge_budget c t))"
  by (cases c)
    (auto simp: turn_admitted_def tracker_ok_def counters_ok_def tracker_ops Let_def
      require_strict_integer_def)

lemma admit_model_turn_first:
  assumes "loop_limits_ok l" and "admit_model_turn (fresh_tracker l) = (ok, t)"
  shows "ok \<and> turn_admitted t \<and> lt_limits t = l \<and> lt_exhausted t = None
    \<and> lt_assistant_output_bytes t = 0"
  using assms
  by (auto simp: admit_model_turn_def fresh_tracker_def turn_admitted_def tracker_ok_def
      counters_ok_def loop_limits_ok_def split: if_splits)

interpretation tracker: accountant charge_budget lt_exhausted turn_admitted
proof unfold_locales
  fix c s
  show "charge_budget c s = (False, s)" if "lt_exhausted s \<noteq> None"
    using that by (cases c) (auto simp: tracker_ops require_strict_integer_def)
next
  fix c s s'
  show "lt_exhausted s' \<noteq> None" if "charge_budget c s = (False, s')"
    using that by (cases c)
      (auto simp: tracker_ops require_strict_integer_def Let_def split: if_splits)
next
  fix c s s'
  show "lt_exhausted s' = None" if "charge_budget c s = (True, s')"
    using that by (cases c)
      (auto simp: tracker_ops require_strict_integer_def Let_def split: if_splits)
next
  fix c s
  show "turn_admitted (snd (charge_budget c s))" if "turn_admitted s"
    using that by (rule charge_budget_turn_admitted)
qed

lemma charge_budget_limits [simp]: "lt_limits (snd (charge_budget c t)) = lt_limits t"
  by (cases c) (auto simp: tracker_ops require_strict_integer_def Let_def)

lemma charge_budget_refused:
  assumes "charge_budget c t = (False, t')"
  shows "lt_model_turns_started t' = lt_model_turns_started t \<and>
    lt_assistant_output_bytes t' = lt_assistant_output_bytes t \<and>
    lt_tool_calls_observed t' =
      lt_tool_calls_observed t + (if lt_exhausted t = None \<and> c = ObserveToolCall then 1 else 0)"
  using assms
  by (cases c) (auto simp: tracker_ops require_strict_integer_def Let_def split: if_splits)

fun admitted_bytes :: "bool list \<Rightarrow> budget_op list \<Rightarrow> int" where
  "admitted_bytes (True # oks) (ReserveAssistantOutput n # cs) = int n + admitted_bytes oks cs"
| "admitted_bytes (_ # oks) (_ # cs) = admitted_bytes oks cs"
| "admitted_bytes _ _ = 0"

lemma charge_budget_bytes:
  "charge_budget c t = (ok, t') \<Longrightarrow>
     lt_assistant_output_bytes t' = lt_assistant_output_bytes t + admitted_bytes [ok] [c]"
  by (cases c; cases ok)
    (auto simp: tracker_ops require_strict_integer_def Let_def split: if_splits)

lemma admitted_bytes_Cons: "admitted_bytes (ok # oks) (c # cs) = admitted_bytes [ok] [c] + admitted_bytes oks cs"
  by (cases ok; cases c) simp_all

lemma charge_all_bytes:
  "tracker.charge_all cs t = (oks, t') \<Longrightarrow>
     lt_assistant_output_bytes t' = lt_assistant_output_bytes t + admitted_bytes oks cs"
proof (induction cs arbitrary: t oks t')
  case Nil
  then show ?case by simp
next
  case (Cons c cs)
  obtain ok t1 where c: "charge_budget c t = (ok, t1)" by (cases "charge_budget c t")
  obtain oks1 t2 where r: "tracker.charge_all cs t1 = (oks1, t2)"
    by (cases "tracker.charge_all cs t1")
  from c r Cons.prems have e: "oks = ok # oks1" "t' = t2" by auto
  have "lt_assistant_output_bytes t2 = lt_assistant_output_bytes t1 + admitted_bytes oks1 cs"
    using r by (rule Cons.IH)
  with charge_budget_bytes [OF c] show ?case
    unfolding e admitted_bytes_Cons [of ok oks1 c cs] by simp
qed

lemma snapshot_ok:
  assumes "tracker_ok t" "SessionId sid"
  shows "snapshot sid t = Inr \<lparr>lo_session_id = sid, lo_limits = lt_limits t,
    lo_model_turns_started = lt_model_turns_started t,
    lo_assistant_output_bytes = lt_assistant_output_bytes t,
    lo_tool_calls_observed = lt_tool_calls_observed t, lo_exhausted = lt_exhausted t\<rparr>"
proof -
  have "LoopLimits (PyInt (max_model_turns (lt_limits t)))
      (PyInt (provider_work_timeout_seconds (lt_limits t)))
      (PyInt (max_assistant_output_bytes (lt_limits t)))
      (PyInt (max_observed_tool_calls (lt_limits t))) = Inr (lt_limits t)"
    using assms by (simp add: LoopLimits_Inr_iff tracker_ok_def)
  moreover have "require_counters (lt_limits t) (PyInt (lt_model_turns_started t))
      (PyInt (lt_assistant_output_bytes t)) (PyInt (lt_tool_calls_observed t)) (lt_exhausted t)
    = Inr (lt_model_turns_started t, lt_assistant_output_bytes t, lt_tool_calls_observed t)"
    using assms by (simp add: require_counters_Inr_iff tracker_ok_def)
  ultimately show ?thesis
    using assms by (simp add: snapshot_def LoopLimitsObserved_def)
qed

subsection \<open>Properties\<close>

text \<open>The charges of a session on a fresh tracker, each with its verdict.\<close>

definition run_charges ::
  "loop_limits \<Rightarrow> budget_op list \<Rightarrow> bool list \<times> loop_limit_tracker" where
  "run_charges l cs = tracker.charge_all cs (snd (admit_model_turn (fresh_tracker l)))"

lemma run_charges_admitted:
  assumes "loop_limits_ok l" "run_charges l cs = (oks, t)"
  shows "turn_admitted t"
proof -
  obtain ok t0 where a: "admit_model_turn (fresh_tracker l) = (ok, t0)"
    by (cases "admit_model_turn (fresh_tracker l)")
  have "turn_admitted t0" using admit_model_turn_first [OF assms(1) a] by simp
  from tracker.charge_all_good [OF this, of cs] a assms(2) show ?thesis
    by (simp add: run_charges_def)
qed

lemma run_charges_bytes:
  assumes "loop_limits_ok l" "run_charges l cs = (oks, t)"
  shows "lt_assistant_output_bytes t = admitted_bytes oks cs" "lt_limits t = l"
proof -
  obtain ok t0 where a: "admit_model_turn (fresh_tracker l) = (ok, t0)"
    by (cases "admit_model_turn (fresh_tracker l)")
  have r: "tracker.charge_all cs t0 = (oks, t)" using assms(2) a by (simp add: run_charges_def)
  show "lt_assistant_output_bytes t = admitted_bytes oks cs"
    using charge_all_bytes [OF r] admit_model_turn_first [OF assms(1) a] by simp
  have "lt_limits (snd (tracker.charge_all cs u)) = lt_limits u" for u
    by (induction cs arbitrary: u) (simp_all add: split_beta)
  from this [of t0] r admit_model_turn_first [OF assms(1) a] show "lt_limits t = l" by simp
qed

lemma charge_all_latch:
  "tracker.charge_all cs t = (oks, t') \<Longrightarrow> lt_exhausted t = None \<Longrightarrow>
     (lt_exhausted t' = None \<longleftrightarrow> list_all id oks)"
proof (induction cs arbitrary: t oks t')
  case Nil
  then show ?case by simp
next
  case (Cons c cs)
  obtain ok t1 where c: "charge_budget c t = (ok, t1)" by (cases "charge_budget c t")
  obtain oks1 t2 where r: "tracker.charge_all cs t1 = (oks1, t2)"
    by (cases "tracker.charge_all cs t1")
  from c r Cons.prems have e: "oks = ok # oks1" "t' = t2" by auto
  show ?case
  proof (cases ok)
    case True
    with c have "lt_exhausted t1 = None" using tracker.charge_admitted_open [of c t t1] by simp
    from Cons.IH [OF r this] True show ?thesis by (simp add: e)
  next
    case False
    with c have l: "lt_exhausted t1 \<noteq> None" using tracker.charge_refused_latches [of c t t1] by simp
    from tracker.charge_all_latched [OF this, of cs] r have "t2 = t1" by simp
    with l False show ?thesis by (simp add: e)
  qed
qed

lemma run_charges_latch:
  assumes "loop_limits_ok l" "run_charges l cs = (oks, t)"
  shows "lt_exhausted t = None \<longleftrightarrow> list_all id oks"
proof -
  obtain ok t0 where a: "admit_model_turn (fresh_tracker l) = (ok, t0)"
    by (cases "admit_model_turn (fresh_tracker l)")
  have "tracker.charge_all cs t0 = (oks, t)" "lt_exhausted t0 = None"
    using assms(2) a admit_model_turn_first [OF assms(1) a] by (simp_all add: run_charges_def)
  then show ?thesis by (rule charge_all_latch)
qed

text \<open>C7: Once the first turn of a session is admitted, its budget charges are admitted up to some
  point and refused from then on; the bytes counted are exactly the bytes of the admitted
  reservations and never exceed the configured maximum; a budget is latched exactly when some
  charge was refused; and the evidence snapshot of the final state is accepted by the evidence
  validator, for every valid session identity.\<close>

theorem session_charges_accounted:
  assumes "loop_limits_ok l" "run_charges l cs = (oks, t)" "SessionId sid"
  shows "(\<exists>k m. oks = replicate k True @ replicate m False \<and> k + m = length cs)
    \<and> lt_assistant_output_bytes t = admitted_bytes oks cs
    \<and> lt_assistant_output_bytes t \<le> max_assistant_output_bytes l
    \<and> (lt_exhausted t = None \<longleftrightarrow> list_all id oks)
    \<and> (\<exists>ob. snapshot sid t = Inr ob \<and> observation_ok ob \<and> lo_exhausted ob = lt_exhausted t)"
proof -
  have ok: "tracker_ok t" using run_charges_admitted [OF assms(1,2)] by (simp add: turn_admitted_def)
  have shape: "\<exists>k m. oks = replicate k True @ replicate m False \<and> k + m = length cs"
    using assms(2) tracker.charge_all_shape [of cs] unfolding run_charges_def by (metis fst_conv)
  have le: "lt_assistant_output_bytes t \<le> max_assistant_output_bytes l"
    using ok run_charges_bytes(2) [OF assms(1,2)] by (simp add: tracker_ok_def counters_ok_def)
  have ev: "\<exists>ob. snapshot sid t = Inr ob \<and> observation_ok ob \<and> lo_exhausted ob = lt_exhausted t"
    using ok assms(3) snapshot_ok [OF ok assms(3)] by (simp add: observation_ok_def tracker_ok_def)
  from shape le ev run_charges_bytes(1) [OF assms(1,2)] run_charges_latch [OF assms(1,2)]
  show ?thesis by blast
qed

definition example_limits :: loop_limits where
  "example_limits = default_loop_limits\<lparr>max_assistant_output_bytes := 10\<rparr>"

lemma example_limits_ok: "loop_limits_ok example_limits"
  by (simp add: example_limits_def default_loop_limits_def loop_limits_ok_def limit_constants)

definition example_charges :: "budget_op list" where
  "example_charges =
     [ReserveAssistantOutput 6, ObserveToolCall, ReserveAssistantOutput 5, ReserveAssistantOutput 1]"

lemmas tracker_eval =
  run_charges_def tracker.charge_all.simps admit_model_turn_def observe_tool_call_def
  reserve_assistant_output_def mark_provider_work_exhausted_def require_strict_integer_def
  fresh_tracker_def example_limits_def default_loop_limits_def limit_constants

lemma example_run:
  "run_charges example_limits example_charges =
     ([True, True, False, False],
      \<lparr>lt_limits = example_limits, lt_model_turns_started = 1, lt_assistant_output_bytes = 6,
       lt_tool_calls_observed = 1, lt_exhausted = Some AssistantOutputX\<rparr>)"
  by (simp add: tracker_eval example_charges_def Let_def)

theorem session_charges_accounted_witness:
  "admitted_bytes [True, True, False, False] example_charges = 6
    \<and> (\<exists>ob. snapshot (lit ''ses_1'') (snd (run_charges example_limits example_charges)) = Inr ob
         \<and> lo_exhausted ob = Some AssistantOutputX)"
  using session_charges_accounted [OF example_limits_ok example_run example_ids(1)] example_run
  by (simp add: example_charges_def) blast

text \<open>The first exhausted budget wins: after any charges that exhausted a budget, no further
  charge of any kind changes the tracker, and every one is refused.\<close>

theorem first_exhaustion_wins:
  assumes "tracker.charge_all cs t = (oks, t')" "lt_exhausted t' = Some x"
  shows "tracker.charge_all (cs @ ds) t = (oks @ replicate (length ds) False, t')"
  using assms tracker.charge_all_latched [of t' ds] by (simp add: tracker.charge_all_append)

theorem first_exhaustion_wins_witness:
  "snd (run_charges example_limits (example_charges @ [MarkProviderWork, ObserveToolCall]))
     = snd (run_charges example_limits example_charges)"
proof -
  let ?t0 = "snd (admit_model_turn (fresh_tracker example_limits))"
  have r: "tracker.charge_all example_charges ?t0 = ([True, True, False, False],
      \<lparr>lt_limits = example_limits, lt_model_turns_started = 1, lt_assistant_output_bytes = 6,
       lt_tool_calls_observed = 1, lt_exhausted = Some AssistantOutputX\<rparr>)"
    using example_run by (simp add: run_charges_def)
  show ?thesis
    using first_exhaustion_wins [OF r, of AssistantOutputX "[MarkProviderWork, ObserveToolCall]"] r
    by (simp add: run_charges_def)
qed

text \<open>The limits constructor accepts exactly four strict integers within their locked ranges
  (1 to 16 turns, 1 to 3600 seconds, 1 to 8192 bytes, 1 to 64 tool calls) and stores them
  unchanged; booleans, floats, text and out-of-range numbers raise.\<close>

theorem loop_limits_constructor:
  "LoopLimits a b c d = Inr l \<longleftrightarrow>
     a = PyInt (max_model_turns l) \<and> b = PyInt (provider_work_timeout_seconds l) \<and>
     c = PyInt (max_assistant_output_bytes l) \<and> d = PyInt (max_observed_tool_calls l) \<and>
     max_model_turns l \<in> {1..16} \<and> provider_work_timeout_seconds l \<in> {1..3600} \<and>
     max_assistant_output_bytes l \<in> {1..8192} \<and> max_observed_tool_calls l \<in> {1..64}"
  by (auto simp: LoopLimits_Inr_iff loop_limits_ok_def limit_constants)

end
