(* ===== verification/Provider_Models.thy ===== *)
theory Provider_Models
  imports Loop_Limits
begin

section \<open>Provider-neutral values (provider/models.py)\<close>

text \<open>
  The messages, requests and stream observations that cross the provider boundary. Every
  constructor checks Python objects and returns the value or the exception; the \<open>*_ok\<close>
  predicates say what a constructed value satisfies, and the constructor lemmas that the checks
  establish exactly that. The last group relates the domain to the wire: an admitted text delta
  is legal assistant text of the protocol, an admitted failure message a legal failure message.
\<close>

definition MAX_PROVIDER_FAILURE_MESSAGE_CHARS :: nat where
  "MAX_PROVIDER_FAILURE_MESSAGE_CHARS = 1024"
definition MAX_PROVIDER_LABEL_CHARS :: nat where "MAX_PROVIDER_LABEL_CHARS = 256"

subsection \<open>Text checks\<close>

definition require_string :: "py_object \<Rightarrow> string \<Rightarrow> py_error + ustr" where
  "require_string v field =
     (case v of
        PyStr s \<Rightarrow>
          (case utf8_encode s of
             None \<Rightarrow> Inl (ValueError (field @ '' must be valid UTF-8''))
           | Some _ \<Rightarrow> Inr s)
      | _ \<Rightarrow> Inl (TypeError (field @ '' must be a string'')))"

definition is_label_control :: "nat \<Rightarrow> bool" where
  "is_label_control c \<longleftrightarrow> c < 32 \<or> 127 \<le> c \<and> c \<le> 159 \<or> c \<in> {0x2028, 0x2029}"

definition require_non_empty_string ::
  "py_object \<Rightarrow> string \<Rightarrow> nat option \<Rightarrow> bool \<Rightarrow> py_error + ustr" where
  "require_non_empty_string v field maximum_chars reject_controls =
     and_then (require_string v field) (\<lambda>s.
       if s = [] then Inl (ValueError (field @ '' must not be empty''))
       else if (case maximum_chars of None \<Rightarrow> False | Some m \<Rightarrow> m < length s)
       then Inl (ValueError (field @ '' must contain at most '' @
                   (case maximum_chars of None \<Rightarrow> '''' | Some m \<Rightarrow> decimal (int m)) @ '' characters''))
       else if reject_controls \<and> list_ex is_label_control s
       then Inl (ValueError (field @ '' must not contain terminal controls or line separators''))
       else Inr s)"

definition require_terminal_safe_text :: "py_object \<Rightarrow> string \<Rightarrow> bool \<Rightarrow> py_error + ustr" where
  "require_terminal_safe_text v field allow_empty =
     and_then (require_string v field) (\<lambda>s.
       if \<not> allow_empty \<and> s = [] then Inl (ValueError (field @ '' must not be empty''))
       else if list_ex is_unsafe_layout s
       then Inl (ValueError (field @ '' must not contain unsupported terminal controls''))
       else Inr s)"

lemma require_string_Inr_iff [simp]:
  "require_string v f = Inr s \<longleftrightarrow> v = PyStr s \<and> list_all is_scalar s"
  by (cases v) (auto simp: require_string_def utf8_encode_def)

definition label_ok :: "nat \<Rightarrow> ustr \<Rightarrow> bool" where
  "label_ok m s \<longleftrightarrow>
     s \<noteq> [] \<and> length s \<le> m \<and> list_all is_scalar s \<and> list_all (\<lambda>c. \<not> is_label_control c) s"

lemma require_label_Inr_iff [simp]:
  "require_non_empty_string v f (Some m) True = Inr s \<longleftrightarrow> v = PyStr s \<and> label_ok m s"
  by (auto simp: require_non_empty_string_def label_ok_def list_all_iff list_ex_iff split: if_splits)

lemma require_content_Inr_iff [simp]:
  "require_non_empty_string v f None False = Inr s \<longleftrightarrow>
     v = PyStr s \<and> s \<noteq> [] \<and> list_all is_scalar s"
  by (auto simp: require_non_empty_string_def)

definition terminal_safe :: "ustr \<Rightarrow> bool" where
  "terminal_safe s \<longleftrightarrow> list_all is_scalar s \<and> list_all (\<lambda>c. \<not> is_unsafe_layout c) s"

lemma require_terminal_safe_Inr_iff [simp]:
  "require_terminal_safe_text v f e = Inr s \<longleftrightarrow> v = PyStr s \<and> (e \<or> s \<noteq> []) \<and> terminal_safe s"
  by (auto simp: require_terminal_safe_text_def terminal_safe_def list_all_iff list_ex_iff
      split: if_splits)

subsection \<open>Requests\<close>

datatype provider_message_role = UserRole | AssistantRole

record provider_message =
  pm_role :: provider_message_role
  pm_content :: ustr

record repository_instruction =
  ri_source :: ustr
  ri_content :: ustr

record provider_request =
  conversation :: "provider_message list"
  repository_instructions :: "repository_instruction list"

definition ProviderMessage :: "py_object \<Rightarrow> py_object \<Rightarrow> py_error + provider_message" where
  "ProviderMessage role content =
     (if role \<notin> {PyStr (lit ''user''), PyStr (lit ''assistant'')}
      then Inl (ValueError ''provider message role is unsupported'')
      else and_then (require_non_empty_string content ''provider message content'' None False) (\<lambda>s.
        Inr \<lparr>pm_role = (if role = PyStr (lit ''user'') then UserRole else AssistantRole),
             pm_content = s\<rparr>))"

definition RepositoryInstruction ::
  "py_object \<Rightarrow> py_object \<Rightarrow> py_error + repository_instruction" where
  "RepositoryInstruction source content =
     and_then (require_non_empty_string source ''repository instruction source''
                 (Some MAX_PROVIDER_LABEL_CHARS) True) (\<lambda>s.
     and_then (require_non_empty_string content ''repository instruction content'' None False) (\<lambda>t.
       Inr \<lparr>ri_source = s, ri_content = t\<rparr>))"

text \<open>
  An argument that should be a tuple of \<open>'a\<close>: \<open>None\<close> when it is no tuple, an element \<open>None\<close>
  when it is of another class.
\<close>

type_synonym 'a py_tuple = "'a option list option"

definition ProviderRequest ::
  "provider_message py_tuple \<Rightarrow> repository_instruction py_tuple \<Rightarrow> py_error + provider_request" where
  "ProviderRequest conv instructions =
     (case conv of
        None \<Rightarrow> Inl (TypeError ''provider request conversation must be a tuple'')
      | Some ms \<Rightarrow>
          if ms = [] then Inl (ValueError ''provider request conversation must not be empty'')
          else if None \<in> set ms
          then Inl (TypeError ''provider request conversation contains an unsupported value'')
          else
            (case instructions of
               None \<Rightarrow> Inl (TypeError ''provider request repository instructions must be a tuple'')
             | Some rs \<Rightarrow>
                 if None \<in> set rs
                 then Inl (TypeError ''provider request repository instructions contain an unsupported value'')
                 else Inr \<lparr>conversation = map the ms, repository_instructions = map the rs\<rparr>))"

lemma map_the_Some: "None \<notin> set xs \<Longrightarrow> map (\<lambda>x. Some (the x)) xs = xs"
  by (induction xs) auto

lemma ProviderRequest_Inr_iff:
  "ProviderRequest c i = Inr r \<longleftrightarrow>
     conversation r \<noteq> [] \<and> c = Some (map Some (conversation r)) \<and>
     i = Some (map Some (repository_instructions r))"
  by (cases r) (auto simp: ProviderRequest_def map_the_Some comp_def split: option.splits if_splits)

subsection \<open>Stream observations\<close>

datatype provider_failure_code =
    AuthenticationFailed | RateLimited | RequestRejected | Unavailable | InvalidResponse | UnknownFailure

fun failure_code_name :: "provider_failure_code \<Rightarrow> string" where
  "failure_code_name AuthenticationFailed = ''authentication_failed''"
| "failure_code_name RateLimited = ''rate_limited''"
| "failure_code_name RequestRejected = ''request_rejected''"
| "failure_code_name Unavailable = ''unavailable''"
| "failure_code_name InvalidResponse = ''invalid_response''"
| "failure_code_name UnknownFailure = ''unknown''"

definition provider_failure_codes :: "provider_failure_code list" where
  "provider_failure_codes =
     [AuthenticationFailed, RateLimited, RequestRejected, Unavailable, InvalidResponse, UnknownFailure]"

definition failure_code_of :: "py_object \<Rightarrow> provider_failure_code option" where
  "failure_code_of v = find (\<lambda>c. v = PyStr (lit (failure_code_name c))) provider_failure_codes"

record provider_failure =
  pf_code :: provider_failure_code
  pf_message :: ustr
  pf_retryable :: bool

datatype provider_stream_event =
    ProviderTextDelta ustr
  | ProviderTextCompleted ustr
  | ProviderToolCallRequested (tc_call_id: ustr) (tc_name: ustr) (tc_arguments: ustr)
  | ProviderUsageReported (pu_input: int) (pu_output: int)
  | ProviderCompleted
  | ProviderFailed provider_failure

definition make_text_delta :: "py_object \<Rightarrow> py_error + provider_stream_event" where
  "make_text_delta v =
     and_then (require_terminal_safe_text v ''provider text delta'' False) (\<lambda>s. Inr (ProviderTextDelta s))"

definition make_text_completed :: "py_object \<Rightarrow> py_error + provider_stream_event" where
  "make_text_completed v =
     and_then (require_terminal_safe_text v ''provider completed text'' True)
       (\<lambda>s. Inr (ProviderTextCompleted s))"

definition make_tool_call ::
  "py_object \<Rightarrow> py_object \<Rightarrow> py_object \<Rightarrow> py_error + provider_stream_event" where
  "make_tool_call call_id name arguments_json =
     and_then (require_non_empty_string call_id ''provider tool call ID''
                 (Some MAX_PROVIDER_LABEL_CHARS) True) (\<lambda>i.
     and_then (require_non_empty_string name ''provider tool name''
                 (Some MAX_PROVIDER_LABEL_CHARS) True) (\<lambda>n.
     and_then (require_string arguments_json ''provider tool arguments'') (\<lambda>a.
       Inr (ProviderToolCallRequested i n a))))"

definition make_usage :: "py_object \<Rightarrow> py_object \<Rightarrow> py_error + provider_stream_event" where
  "make_usage input_tokens output_tokens =
     and_then (usage_counter input_tokens ''provider input token count'') (\<lambda>i.
     and_then (usage_counter output_tokens ''provider output token count'') (\<lambda>j.
       Inr (ProviderUsageReported i j)))"

definition ProviderFailure ::
  "py_object \<Rightarrow> py_object \<Rightarrow> py_object \<Rightarrow> py_error + provider_failure" where
  "ProviderFailure code_arg message retryable =
     (case failure_code_of code_arg of
        None \<Rightarrow> Inl (ValueError ''provider failure code is unsupported'')
      | Some c \<Rightarrow>
          and_then (require_non_empty_string message ''provider failure message''
                      (Some MAX_PROVIDER_FAILURE_MESSAGE_CHARS) True) (\<lambda>m.
            case retryable of
              PyBool b \<Rightarrow> Inr \<lparr>pf_code = c, pf_message = m, pf_retryable = b\<rparr>
            | _ \<Rightarrow> Inl (TypeError ''provider failure retryable flag must be a boolean'')))"

definition failure_ok :: "provider_failure \<Rightarrow> bool" where
  "failure_ok f \<longleftrightarrow> label_ok MAX_PROVIDER_FAILURE_MESSAGE_CHARS (pf_message f)"

fun provider_event_ok :: "provider_stream_event \<Rightarrow> bool" where
  "provider_event_ok (ProviderTextDelta s) = (s \<noteq> [] \<and> terminal_safe s)"
| "provider_event_ok (ProviderTextCompleted s) = terminal_safe s"
| "provider_event_ok (ProviderToolCallRequested i n a) =
     (label_ok MAX_PROVIDER_LABEL_CHARS i \<and> label_ok MAX_PROVIDER_LABEL_CHARS n \<and>
      list_all is_scalar a)"
| "provider_event_ok (ProviderUsageReported i j) =
     (0 \<le> i \<and> i \<le> MAX_MODEL_USAGE_TOKENS \<and> 0 \<le> j \<and> j \<le> MAX_MODEL_USAGE_TOKENS)"
| "provider_event_ok ProviderCompleted = True"
| "provider_event_ok (ProviderFailed f) = failure_ok f"

definition is_stream_terminal :: "provider_stream_event \<Rightarrow> bool" where
  "is_stream_terminal e \<longleftrightarrow> (case e of ProviderCompleted \<Rightarrow> True | ProviderFailed _ \<Rightarrow> True | _ \<Rightarrow> False)"

lemma failure_code_of_name [simp]: "failure_code_of (PyStr (lit (failure_code_name c))) = Some c"
  by (cases c) (simp_all add: failure_code_of_def provider_failure_codes_def)

lemma failure_code_of_SomeD: "failure_code_of v = Some c \<Longrightarrow> v = PyStr (lit (failure_code_name c))"
  by (auto simp: failure_code_of_def find_Some_iff)

lemma ProviderFailure_Inr_iff:
  "ProviderFailure c m r = Inr f \<longleftrightarrow>
     failure_ok f \<and> c = PyStr (lit (failure_code_name (pf_code f))) \<and>
     m = PyStr (pf_message f) \<and> r = PyBool (pf_retryable f)"
  by (cases f; cases r) (auto simp: ProviderFailure_def failure_ok_def dest: failure_code_of_SomeD
      split: option.splits)

lemma make_text_delta_Inr_iff [simp]:
  "make_text_delta v = Inr e \<longleftrightarrow> (\<exists>s. v = PyStr s \<and> e = ProviderTextDelta s \<and> provider_event_ok e)"
  by (auto simp: make_text_delta_def)

lemma make_text_completed_Inr_iff [simp]:
  "make_text_completed v = Inr e \<longleftrightarrow>
     (\<exists>s. v = PyStr s \<and> e = ProviderTextCompleted s \<and> provider_event_ok e)"
  by (auto simp: make_text_completed_def)

lemma make_tool_call_Inr_iff [simp]:
  "make_tool_call u v w = Inr e \<longleftrightarrow>
     (\<exists>i n a. u = PyStr i \<and> v = PyStr n \<and> w = PyStr a \<and> e = ProviderToolCallRequested i n a \<and>
        provider_event_ok e)"
  by (auto simp: make_tool_call_def)

lemma make_usage_Inr_iff [simp]:
  "make_usage u v = Inr e \<longleftrightarrow>
     (\<exists>i j. u = PyInt i \<and> v = PyInt j \<and> e = ProviderUsageReported i j \<and> provider_event_ok e)"
  by (auto simp: make_usage_def)

subsection \<open>From the provider domain to the wire\<close>

lemma delta_is_assistant_text: "provider_event_ok (ProviderTextDelta s) \<Longrightarrow> AssistantText s"
  by (simp add: AssistantText_iff terminal_safe_def)

lemma failure_is_safe_message: "failure_ok f \<Longrightarrow> SafeMessage (pf_message f)"
  by (auto simp: failure_ok_def label_ok_def SafeMessage_iff list_all_iff is_label_control_def
      is_control_def MAX_PROVIDER_FAILURE_MESSAGE_CHARS_def)

lemma terminal_safe_append [simp]: "terminal_safe (s @ t) \<longleftrightarrow> terminal_safe s \<and> terminal_safe t"
  by (auto simp: terminal_safe_def)

text \<open>Whatever a stream observation's constructor accepts is legal on the wire: the text of an
  accepted delta is legal assistant text, an accepted completion is empty or legal assistant
  text, and an accepted failure message is a legal single-line failure message.\<close>

theorem provider_values_fit_wire:
  "(make_text_delta v = Inr (ProviderTextDelta s) \<longrightarrow> AssistantText s)
    \<and> (make_text_completed v = Inr (ProviderTextCompleted s) \<longrightarrow> s = [] \<or> AssistantText s)
    \<and> (ProviderFailure c v r = Inr f \<longrightarrow> SafeMessage (pf_message f))"
  using delta_is_assistant_text [of s] failure_is_safe_message [of f]
  by (auto simp: ProviderFailure_Inr_iff)

theorem provider_values_fit_wire_witness:
  "AssistantText (lit ''hi'') \<and> SafeMessage (lit ''busy'')"
proof -
  have "make_text_delta (PyStr (lit ''hi'')) = Inr (ProviderTextDelta (lit ''hi''))"
    by (simp add: terminal_safe_def is_scalar_def is_surrogate_def is_unsafe_layout_def)
  moreover have "ProviderFailure (PyStr (lit ''unknown'')) (PyStr (lit ''busy'')) (PyBool True) =
      Inr \<lparr>pf_code = UnknownFailure, pf_message = lit ''busy'', pf_retryable = True\<rparr>"
    by (simp add: ProviderFailure_Inr_iff failure_ok_def label_ok_def is_scalar_def
        is_surrogate_def is_label_control_def MAX_PROVIDER_FAILURE_MESSAGE_CHARS_def)
  ultimately show ?thesis
    using provider_values_fit_wire [of "PyStr (lit ''hi'')" "lit ''hi''"]
      provider_values_fit_wire [of "PyStr (lit ''busy'')" _ "PyStr (lit ''unknown'')" "PyBool True"]
    by fastforce
qed

end
