(* ===== verification/Json.thy ===== *)
theory Json
  imports Py_Text "HOL-Library.Log_Nat"
begin

section \<open>JSON as the protocol uses it (json.loads and json.dumps)\<close>

text \<open>
  The values \<open>json.loads\<close> builds, the compact writer \<open>json.dumps(..., ensure_ascii=False,
  separators=(",", ":"))\<close> and the strict reader with the number hook of protocol/codec.py.
  A dictionary is an association list in insertion order; a repeated key keeps its first
  position and its last value. Numbers go through \<open>float\<close>: \<open>round_double\<close> is rounding to
  binary64, half to even, \<open>None\<close> when the result is infinite. \<open>depth\<close> is the interpreter's
  recursion allowance, beyond which \<open>loads\<close> raises \<open>RecursionError\<close>; the codec treats that
  as any other malformed document, so all failures are \<open>None\<close> here. The main result is the
  round trip \<open>loads_dumps\<close>.
\<close>

datatype json =
    JNull
  | JBool bool
  | JInt int
  | JFloat int int
  | JStr ustr
  | JArr "json list"
  | JObj "(ustr \<times> json) list"

fun dict_set :: "'k \<Rightarrow> 'v \<Rightarrow> ('k \<times> 'v) list \<Rightarrow> ('k \<times> 'v) list" where
  "dict_set k v [] = [(k, v)]"
| "dict_set k v ((k', v') # d) = (if k' = k then (k, v) # d else (k', v') # dict_set k v d)"

definition dict_of :: "('k \<times> 'v) list \<Rightarrow> ('k \<times> 'v) list" where
  "dict_of kvs = fold (\<lambda>(k, v) d. dict_set k v d) kvs []"

lemma dict_set_new: "k \<notin> fst ` set d \<Longrightarrow> dict_set k v d = d @ [(k, v)]"
  by (induction d) auto

lemma map_of_dict_set: "map_of (dict_set k v d) = (map_of d)(k \<mapsto> v)"
  by (induction d) auto

lemma dict_of_distinct: "distinct (map fst kvs) \<Longrightarrow> dict_of kvs = kvs"
proof -
  have "distinct (map fst (d @ kvs)) \<Longrightarrow> fold (\<lambda>(k, v) d. dict_set k v d) kvs d = d @ kvs" for d
  proof (induction kvs arbitrary: d)
    case (Cons kv kvs)
    obtain k v where kv: "kv = (k, v)" by (cases kv)
    with Cons.prems have "k \<notin> fst ` set d" by auto
    then have "fold (\<lambda>(k, v) d. dict_set k v d) (kv # kvs) d =
        fold (\<lambda>(k, v) d. dict_set k v d) kvs (d @ [kv])"
      by (simp add: kv dict_set_new)
    also have "\<dots> = d @ kv # kvs" using Cons.IH [of "d @ [kv]"] Cons.prems by simp
    finally show ?case .
  qed simp
  from this [of "[]"] show "distinct (map fst kvs) \<Longrightarrow> dict_of kvs = kvs"
    by (simp add: dict_of_def)
qed

subsection \<open>Writing\<close>

definition hex_digit :: "nat \<Rightarrow> nat" where
  "hex_digit n = (if n < 10 then 48 + n else 87 + n)"

definition escape_char :: "nat \<Rightarrow> ustr" where
  "escape_char c =
     (if c = 34 then [92, 34]
      else if c = 92 then [92, 92]
      else if c = 10 then [92, 110]
      else if c = 13 then [92, 114]
      else if c = 9 then [92, 116]
      else if c = 12 then [92, 102]
      else if c = 8 then [92, 98]
      else if c < 32 then [92, 117, 48, 48, hex_digit (c div 16), hex_digit (c mod 16)]
      else [c])"

definition dumps_string :: "ustr \<Rightarrow> ustr" where
  "dumps_string s = 34 # concat (map escape_char s) @ [34]"

text \<open>No wire model has a float field, so the text of a float is left unspecified.\<close>

fun dumps :: "json \<Rightarrow> ustr" where
  "dumps JNull = lit ''null''"
| "dumps (JBool b) = (if b then lit ''true'' else lit ''false'')"
| "dumps (JInt i) = dec_int i"
| "dumps (JFloat m q) = undefined"
| "dumps (JStr s) = dumps_string s"
| "dumps (JArr xs) = 91 # py_join [44] (map dumps xs) @ [93]"
| "dumps (JObj kvs) = 123 # py_join [44] (map (\<lambda>(k, v). dumps_string k @ 58 # dumps v) kvs) @ [125]"

subsection \<open>Reading strings\<close>

definition hex_value :: "nat \<Rightarrow> nat option" where
  "hex_value c =
     (if 48 \<le> c \<and> c \<le> 57 then Some (c - 48)
      else if 97 \<le> c \<and> c \<le> 102 then Some (c - 87)
      else if 65 \<le> c \<and> c \<le> 70 then Some (c - 55)
      else None)"

fun hex4 :: "ustr \<Rightarrow> (nat \<times> ustr) option" where
  "hex4 (a # b # c # d # r) =
     (case (hex_value a, hex_value b, hex_value c, hex_value d) of
        (Some w, Some x, Some y, Some z) \<Rightarrow> Some (w * 4096 + x * 256 + y * 16 + z, r)
      | _ \<Rightarrow> None)"
| "hex4 _ = None"

definition is_high_surrogate :: "nat \<Rightarrow> bool" where
  "is_high_surrogate u \<longleftrightarrow> 0xD800 \<le> u \<and> u \<le> 0xDBFF"

definition is_low_surrogate :: "nat \<Rightarrow> bool" where
  "is_low_surrogate u \<longleftrightarrow> 0xDC00 \<le> u \<and> u \<le> 0xDFFF"

definition scan_unicode :: "ustr \<Rightarrow> (nat \<times> ustr) option" where
  "scan_unicode s =
     (case hex4 s of
        None \<Rightarrow> None
      | Some (u, r) \<Rightarrow>
          if is_high_surrogate u \<and> starts_with r [92, 117] then
            (case hex4 (drop 2 r) of
               None \<Rightarrow> None
             | Some (u2, r2) \<Rightarrow>
                 if is_low_surrogate u2
                 then Some (0x10000 + (u - 0xD800) * 1024 + (u2 - 0xDC00), r2)
                 else Some (u, r))
          else Some (u, r))"

definition scan_escape :: "ustr \<Rightarrow> (nat \<times> ustr) option" where
  "scan_escape s =
     (case s of
        [] \<Rightarrow> None
      | c # r \<Rightarrow>
          if c \<in> {34, 92, 47} then Some (c, r)
          else if c = 98 then Some (8, r)
          else if c = 102 then Some (12, r)
          else if c = 110 then Some (10, r)
          else if c = 114 then Some (13, r)
          else if c = 116 then Some (9, r)
          else if c = 117 then scan_unicode r
          else None)"

lemma hex4_shorter: "hex4 s = Some (u, r) \<Longrightarrow> length r < length s"
  by (cases s rule: hex4.cases) (auto split: option.splits)

lemma scan_unicode_shorter: "scan_unicode s = Some (u, r) \<Longrightarrow> length r < length s"
  by (auto simp: scan_unicode_def split: option.splits if_splits prod.splits
      dest!: hex4_shorter)

lemma scan_escape_shorter: "scan_escape s = Some (u, r) \<Longrightarrow> length r < length s"
  by (auto simp: scan_escape_def split: list.splits if_splits dest!: scan_unicode_shorter)

function scan_string :: "ustr \<Rightarrow> (ustr \<times> ustr) option" where
  "scan_string s =
     (case s of
        [] \<Rightarrow> None
      | c # r \<Rightarrow>
          if c = 34 then Some ([], r)
          else if c = 92 then
            (case scan_escape r of
               None \<Rightarrow> None
             | Some (u, r') \<Rightarrow>
                 (case scan_string r' of None \<Rightarrow> None | Some (t, r'') \<Rightarrow> Some (u # t, r'')))
          else if c < 32 then None
          else (case scan_string r of None \<Rightarrow> None | Some (t, r'') \<Rightarrow> Some (c # t, r'')))"
  by pat_completeness auto
termination
  by (relation "measure length") (auto dest: scan_escape_shorter)

declare scan_string.simps [simp del]

lemma scan_string_Nil [simp]: "scan_string [] = None"
  by (simp add: scan_string.simps)

lemma scan_string_Cons:
  "scan_string (c # r) =
     (if c = 34 then Some ([], r)
      else if c = 92 then
        (case scan_escape r of
           None \<Rightarrow> None
         | Some (u, r') \<Rightarrow>
             (case scan_string r' of None \<Rightarrow> None | Some (t, r'') \<Rightarrow> Some (u # t, r'')))
      else if c < 32 then None
      else (case scan_string r of None \<Rightarrow> None | Some (t, r'') \<Rightarrow> Some (c # t, r'')))"
  by (simp add: scan_string.simps [of "c # r"])

lemma scan_string_shorter: "scan_string s = Some (t, r) \<Longrightarrow> length r < length s"
proof (induction "length s" arbitrary: s t r rule: less_induct)
  case less
  show ?case
  proof (cases s)
    case Nil
    with less.prems show ?thesis by simp
  next
    case (Cons c r0)
    consider "c = 34" | "c = 92" | "c \<noteq> 34" "c \<noteq> 92" by blast
    then show ?thesis
    proof cases
      case 2
      with less.prems Cons obtain u r' t' where
        e: "scan_escape r0 = Some (u, r')" "scan_string r' = Some (t', r)"
        by (auto simp: scan_string_Cons split: option.splits)
      with less.hyps [OF _ e(2)] scan_escape_shorter [OF e(1)] Cons show ?thesis by simp
    next
      case 3
      with less.prems Cons obtain t' where e: "scan_string r0 = Some (t', r)"
        by (auto simp: scan_string_Cons split: option.splits if_splits)
      with less.hyps [OF _ e] Cons show ?thesis by simp
    qed (use less.prems Cons in \<open>simp add: scan_string_Cons\<close>)
  qed
qed

lemma hex_value_digit: "n < 16 \<Longrightarrow> hex_value (hex_digit n) = Some n"
  by (auto simp: hex_value_def hex_digit_def)

lemma scan_string_escape_char:
  "scan_string (escape_char c @ s) =
     (case scan_string s of None \<Rightarrow> None | Some (t, r) \<Rightarrow> Some (c # t, r))"
proof (cases "c \<in> {34, 92, 10, 13, 9, 12, 8}")
  case True
  then show ?thesis
    by (auto simp: escape_char_def scan_string_Cons scan_escape_def split: option.splits)
next
  case False
  show ?thesis
  proof (cases "c < 32")
    case True
    have d: "c div 16 < 16" "c mod 16 < 16" "(c div 16) * 16 + c mod 16 = c" using True by auto
    have h: "hex4 (48 # 48 # hex_digit (c div 16) # hex_digit (c mod 16) # s) = Some (c, s)"
      using d by (simp add: hex_value_digit) (simp add: hex_value_def)
    have "scan_unicode (48 # 48 # hex_digit (c div 16) # hex_digit (c mod 16) # s) = Some (c, s)"
      using True unfolding scan_unicode_def h by (simp add: is_high_surrogate_def)
    with True False show ?thesis
      by (simp add: escape_char_def scan_string_Cons scan_escape_def)
  next
    case False
    with \<open>c \<notin> {34, 92, 10, 13, 9, 12, 8}\<close> show ?thesis
      by (simp add: escape_char_def scan_string_Cons)
  qed
qed

lemma scan_string_dumps: "scan_string (concat (map escape_char s) @ 34 # r) = Some (s, r)"
  by (induction s) (simp_all add: scan_string_escape_char scan_string_Cons)

subsection \<open>Reading numbers\<close>

text \<open>
  Rounding \<open>num/den\<close> to binary64: \<open>q\<close> is the exponent of the last place (at least -1074),
  the quotient is rounded half to even; a result of \<open>2 ^ 1024\<close> or more is infinite.
\<close>

definition half_even :: "nat \<Rightarrow> nat \<Rightarrow> nat" where
  "half_even num den =
     (let f = num div den; r = num mod den in
      if 2 * r < den then f else if den < 2 * r then f + 1 else if even f then f else f + 1)"

definition scaled :: "nat \<Rightarrow> nat \<Rightarrow> int \<Rightarrow> nat \<times> nat" where
  "scaled num den q = (if 0 \<le> q then (num, den * 2 ^ nat q) else (num * 2 ^ nat (- q), den))"

definition round_double :: "nat \<Rightarrow> nat \<Rightarrow> (nat \<times> int) option" where
  "round_double num den =
     (if num = 0 then Some (0, 0)
      else
        let q0 = max (- 1074) (int (floorlog 2 num) - int (floorlog 2 den) - 53);
            f0 = (case scaled num den q0 of (a, b) \<Rightarrow> a div b);
            q = (if 2 ^ 53 \<le> f0 then q0 + 1 else q0);
            m = (case scaled num den q of (a, b) \<Rightarrow> half_even a b) in
        if 971 < q \<or> (q = 971 \<and> 2 ^ 53 \<le> m) then None else Some (m, q))"

definition parse_finite_json_number :: "bool \<Rightarrow> nat \<Rightarrow> nat \<Rightarrow> json option" where
  "parse_finite_json_number neg num den =
     (case round_double num den of
        None \<Rightarrow> None
      | Some (m, q) \<Rightarrow>
          let sgn = (if neg then - 1 else 1 :: int) in
          if 0 \<le> q then Some (JInt (sgn * int (m * 2 ^ nat q)))
          else if 2 ^ nat (- q) dvd m then Some (JInt (sgn * int (m div 2 ^ nat (- q))))
          else Some (JFloat (sgn * int m) q))"

definition dec_digit :: "nat \<Rightarrow> bool" where "dec_digit c \<longleftrightarrow> 48 \<le> c \<and> c \<le> 57"

definition scan_fraction :: "ustr \<Rightarrow> ustr \<times> ustr" where
  "scan_fraction s =
     (case s of
        c # r \<Rightarrow>
          if c = 46 \<and> takeWhile dec_digit r \<noteq> []
          then (takeWhile dec_digit r, dropWhile dec_digit r)
          else ([], s)
      | [] \<Rightarrow> ([], s))"

definition scan_exponent :: "ustr \<Rightarrow> int \<times> ustr" where
  "scan_exponent s =
     (case s of
        e # r \<Rightarrow>
          if e \<in> {101, 69} then
            let neg = (r \<noteq> [] \<and> hd r = 45);
                r1 = (if r \<noteq> [] \<and> hd r \<in> {43, 45} then tl r else r);
                ds = takeWhile dec_digit r1 in
            if ds = [] then (0, s)
            else ((if neg then - 1 else 1) * int (dec_value 0 ds), dropWhile dec_digit r1)
          else (0, s)
      | [] \<Rightarrow> (0, s))"

text \<open>The integer part: a single zero, or all the digits.\<close>

definition scan_digits :: "ustr \<Rightarrow> ustr" where
  "scan_digits s = (if s \<noteq> [] \<and> hd s = 48 then [48] else takeWhile dec_digit s)"

definition scan_number :: "ustr \<Rightarrow> (json \<times> ustr) option" where
  "scan_number s =
     (let neg = (s \<noteq> [] \<and> hd s = 45);
          s1 = (if neg then tl s else s);
          ds = scan_digits s1 in
      if ds = [] then None
      else
        let (fs, s2) = scan_fraction (drop (length ds) s1);
            (e, s3) = scan_exponent s2;
            m = dec_value 0 (ds @ fs);
            x = e - int (length fs) in
        case parse_finite_json_number neg (if 0 \<le> x then m * 10 ^ nat x else m)
               (if 0 \<le> x then 1 else 10 ^ nat (- x)) of
          None \<Rightarrow> None
        | Some v \<Rightarrow> Some (v, s3))"

subsection \<open>Reading values\<close>

definition is_ws :: "nat \<Rightarrow> bool" where "is_ws c \<longleftrightarrow> c \<in> {32, 9, 10, 13}"

definition skip_ws :: "ustr \<Rightarrow> ustr" where "skip_ws s = dropWhile is_ws s"

definition expect :: "nat \<Rightarrow> ustr \<Rightarrow> ustr option" where
  "expect c s = (case s of [] \<Rightarrow> None | d # r \<Rightarrow> if d = c then Some r else None)"

lemma skip_ws_shorter: "length (skip_ws s) \<le> length s"
  by (simp add: skip_ws_def length_dropWhile_le)

lemma expect_Some: "expect c s = Some r \<longleftrightarrow> s = c # r"
  by (auto simp: expect_def split: list.splits if_splits)

text \<open>
  \<open>scan_items\<close> reads \<open>value, value, ...]\<close> and \<open>scan_members\<close> reads
  \<open>"key": value, ...}\<close>. The length tests before the recursive calls are always true
  (\<open>scan_shorter\<close>); they only make the recursion visibly decreasing.
\<close>

function (sequential) scan_value :: "nat \<Rightarrow> ustr \<Rightarrow> (json \<times> ustr) option"
  and scan_items :: "nat \<Rightarrow> ustr \<Rightarrow> (json list \<times> ustr) option"
  and scan_members :: "nat \<Rightarrow> ustr \<Rightarrow> ((ustr \<times> json) list \<times> ustr) option" where
  "scan_value d [] = None"
| "scan_value d (c # r) =
     (if c = 34 then map_option (\<lambda>(t, r'). (JStr t, r')) (scan_string r)
      else if c = 123 then
        (if d = 0 then None
         else case expect 125 (skip_ws r) of
             Some r' \<Rightarrow> Some (JObj [], r')
           | None \<Rightarrow> map_option (\<lambda>(kvs, r'). (JObj (dict_of kvs), r')) (scan_members (d - 1) (skip_ws r)))
      else if c = 91 then
        (if d = 0 then None
         else case expect 93 (skip_ws r) of
             Some r' \<Rightarrow> Some (JArr [], r')
           | None \<Rightarrow> map_option (\<lambda>(xs, r'). (JArr xs, r')) (scan_items (d - 1) (skip_ws r)))
      else if starts_with (c # r) (lit ''null'') then Some (JNull, drop 4 (c # r))
      else if starts_with (c # r) (lit ''true'') then Some (JBool True, drop 4 (c # r))
      else if starts_with (c # r) (lit ''false'') then Some (JBool False, drop 5 (c # r))
      else scan_number (c # r))"
| "scan_items d s =
     (case scan_value d s of
        None \<Rightarrow> None
      | Some (v, r) \<Rightarrow>
          (case expect 93 (skip_ws r) of
             Some r' \<Rightarrow> Some ([v], r')
           | None \<Rightarrow>
               (case expect 44 (skip_ws r) of
                  None \<Rightarrow> None
                | Some r' \<Rightarrow>
                    if length (skip_ws r') < length s
                    then map_option (\<lambda>(vs, r''). (v # vs, r'')) (scan_items d (skip_ws r'))
                    else None)))"
| "scan_members d s =
     (case expect 34 s of
        None \<Rightarrow> None
      | Some r0 \<Rightarrow>
          (case scan_string r0 of
             None \<Rightarrow> None
           | Some (k, r1) \<Rightarrow>
               (case expect 58 (skip_ws r1) of
                  None \<Rightarrow> None
                | Some r2 \<Rightarrow>
                    if length (skip_ws r2) < length s then
                      (case scan_value d (skip_ws r2) of
                         None \<Rightarrow> None
                       | Some (v, r3) \<Rightarrow>
                           (case expect 125 (skip_ws r3) of
                              Some r4 \<Rightarrow> Some ([(k, v)], r4)
                            | None \<Rightarrow>
                                (case expect 44 (skip_ws r3) of
                                   None \<Rightarrow> None
                                 | Some r4 \<Rightarrow>
                                     if length (skip_ws r4) < length s
                                     then map_option (\<lambda>(kvs, r5). ((k, v) # kvs, r5))
                                            (scan_members d (skip_ws r4))
                                     else None)))
                    else None)))"
  by pat_completeness auto

termination
proof (relation "measure (\<lambda>x. case x of Inl (d, s) \<Rightarrow> 2 * length s
    | Inr (Inl (d, s)) \<Rightarrow> 2 * length s + 1 | Inr (Inr (d, s)) \<Rightarrow> 2 * length s + 1)",
    goal_cases)
  case (2 d c r)
  then show ?case using skip_ws_shorter [of r] by simp
next
  case (3 d c r)
  then show ?case using skip_ws_shorter [of r] by simp
qed auto

declare scan_value.simps [simp del] scan_items.simps [simp del] scan_members.simps [simp del]

definition loads :: "nat \<Rightarrow> ustr \<Rightarrow> json option" where
  "loads depth s =
     (if starts_with s [0xFEFF] then None
      else case scan_value depth (skip_ws s) of
             None \<Rightarrow> None
           | Some (v, r) \<Rightarrow> if skip_ws r = [] then Some v else None)"

subsection \<open>The scanners consume input\<close>

lemma scan_fraction_shorter: "scan_fraction s = (fs, r) \<Longrightarrow> length r \<le> length s"
  by (auto simp: scan_fraction_def length_dropWhile_le le_Suc_eq split: list.splits if_splits)

lemma scan_exponent_shorter: "scan_exponent s = (e, r) \<Longrightarrow> length r \<le> length s"
proof (cases s)
  case (Cons c t)
  have "length (dropWhile dec_digit u) \<le> length u" for u by (rule length_dropWhile_le)
  moreover from this [of "tl t"] have "length (dropWhile dec_digit (tl t)) \<le> Suc (length t)"
    by simp
  ultimately show "scan_exponent s = (e, r) \<Longrightarrow> length r \<le> length s"
    unfolding Cons scan_exponent_def
    by (auto simp: Let_def split: if_splits intro: le_trans le_SucI)
qed (simp add: scan_exponent_def)

lemma scan_number_shorter: "scan_number s = Some (v, r) \<Longrightarrow> length r < length s"
proof -
  assume a: "scan_number s = Some (v, r)"
  define s1 where "s1 = (if s \<noteq> [] \<and> hd s = 45 then tl s else s)"
  define ds where "ds = scan_digits s1"
  obtain fs s2 where f: "scan_fraction (drop (length ds) s1) = (fs, s2)"
    by (cases "scan_fraction (drop (length ds) s1)")
  obtain e s3 where x: "scan_exponent s2 = (e, s3)" by (cases "scan_exponent s2")
  from a have ne: "ds \<noteq> []" and r: "r = s3"
    unfolding scan_number_def s1_def [symmetric] ds_def [symmetric] Let_def f prod.case x
    by (auto split: if_splits option.splits)
  have "s1 \<noteq> []" using ne by (auto simp: ds_def scan_digits_def)
  then have "length (drop (length ds) s1) < length s1" using ne by (cases s1; cases ds) auto
  moreover have "length s1 \<le> length s" by (simp add: s1_def)
  ultimately show ?thesis
    using scan_fraction_shorter [OF f] scan_exponent_shorter [OF x] r by simp
qed

lemma scan_shorter:
  "scan_value d s = Some (v, r) \<Longrightarrow> length r < length s"
  "scan_items d s = Some (vs, r) \<Longrightarrow> length r < length s"
  "scan_members d s = Some (kvs, r) \<Longrightarrow> length r < length s"
proof (induction d s and d s and d s arbitrary: v r and vs r and kvs r
    rule: scan_value_scan_items_scan_members.induct)
  case (1 d)
  then show ?case by (simp add: scan_value.simps)
next
  case (2 d c u)
  consider "c = 34" | "c = 123" | "c = 91" | "c \<notin> {34, 123, 91}" by auto
  then show ?case
  proof cases
    case 1
    with "2.prems" show ?thesis
      by (auto simp: scan_value.simps dest!: scan_string_shorter)
  next
    case b: 2
    then show ?thesis
      using "2.prems" "2.IH"(1) skip_ws_shorter [of u]
      by (fastforce simp: scan_value.simps expect_Some split: option.splits if_splits)
  next
    case b: 3
    then show ?thesis
      using "2.prems" "2.IH"(2) skip_ws_shorter [of u]
      by (fastforce simp: scan_value.simps expect_Some split: option.splits if_splits)
  next
    case 4
    with "2.prems" show ?thesis
      by (auto simp: scan_value.simps split: if_splits dest: scan_number_shorter)
  qed
next
  case (3 d s)
  from "3.prems" obtain w u where w: "scan_value d s = Some (w, u)"
    by (auto simp: scan_items.simps [of d s] split: option.splits)
  have lw: "length u < length s" using "3.IH"(1) [OF w] .
  show ?case
  proof (cases "expect 93 (skip_ws u)")
    case None
    with "3.prems" w lw obtain u' ws where e: "expect 44 (skip_ws u) = Some u'"
      "length (skip_ws u') < length s" "scan_items d (skip_ws u') = Some (ws, r)"
      by (auto simp: scan_items.simps [of d s] split: option.splits if_splits)
    from "3.IH"(2) [OF w refl None e] e(2) show ?thesis by simp
  next
    case (Some u')
    with "3.prems" w have "r = u'" by (simp add: scan_items.simps [of d s])
    with Some lw skip_ws_shorter [of u] show ?thesis by (simp add: expect_Some)
  qed
next
  case (4 d s)
  from "4.prems" obtain r0 k r1 r2 w r3 where e: "expect 34 s = Some r0"
    "scan_string r0 = Some (k, r1)" "expect 58 (skip_ws r1) = Some r2"
    "length (skip_ws r2) < length s" "scan_value d (skip_ws r2) = Some (w, r3)"
    by (auto simp: scan_members.simps [of d s] split: option.splits if_splits)
  have lw: "length r3 < length (skip_ws r2)" using "4.IH"(1) [OF e(1,2) refl e(3,4,5)] .
  show ?case
  proof (cases "expect 125 (skip_ws r3)")
    case None
    with "4.prems" e obtain u' ws where f: "expect 44 (skip_ws r3) = Some u'"
      "length (skip_ws u') < length s" "scan_members d (skip_ws u') = Some (ws, r)"
      by (auto simp: scan_members.simps [of d s] split: option.splits if_splits)
    from "4.IH"(2) [OF e(1,2) refl e(3-5) refl None f] f(2) show ?thesis by simp
  next
    case (Some u')
    with "4.prems" e have "r = u'" by (simp add: scan_members.simps [of d s])
    with Some lw e(4) skip_ws_shorter [of r3] show ?thesis by (simp add: expect_Some)
  qed
qed

subsection \<open>The round trip\<close>

lemma half_even_one [simp]: "half_even n (Suc 0) = n"
  by (simp add: half_even_def)

lemma round_double_exact:
  assumes "n < 2 ^ 53"
  shows "\<exists>m q. round_double n 1 = Some (m, q) \<and>
    (0 \<le> q \<and> m * 2 ^ nat q = n \<or> q < 0 \<and> m = n * 2 ^ nat (- q))"
proof (cases "n = 0")
  case True
  then show ?thesis by (simp add: round_double_def)
next
  case False
  define b where "b = floorlog 2 n"
  have bounds: "2 ^ (b - 1) \<le> n" "n < 2 ^ b"
    using floorlog_bounds [of n 2] False by (simp_all add: b_def)
  have b53: "b \<le> 53" using assms by (simp add: b_def floorlog_leI)
  have b1: "1 \<le> b" using False floorlog_ge_SucI [of 2 0 n] by (simp add: b_def)
  have one: "floorlog 2 (Suc 0) = 1" by (simp add: floorlog_def)
  have q0: "max (- 1074) (int b - int (floorlog 2 1) - 53) = int b - 54"
    using b1 by (simp add: one)
  have "(2::nat) ^ 53 = 2 ^ (b - 1) * 2 ^ (54 - b)"
    using b1 b53 by (simp flip: power_add)
  also have "\<dots> \<le> n * 2 ^ (54 - b)" using bounds(1) by simp
  finally have f0: "(2::nat) ^ 53 \<le> n * 2 ^ (54 - b)" .
  have s0: "scaled n 1 (int b - 54) = (n * 2 ^ (54 - b), 1)"
    using b53 by (simp add: scaled_def nat_diff_distrib)
  have s1: "scaled n 1 (int b - 53) = (n * 2 ^ (53 - b), 1)"
  proof (cases "b = 53")
    case True
    then show ?thesis by (simp add: scaled_def)
  next
    case False
    with b53 show ?thesis by (simp add: scaled_def nat_diff_distrib)
  qed
  have "round_double n 1 = Some (n * 2 ^ (53 - b), int b - 53)"
    using False f0 b53 q0 s0 s1 by (simp add: round_double_def b_def [symmetric] Let_def)
  then show ?thesis
  proof (intro exI conjI)
    show "0 \<le> int b - 53 \<and> n * 2 ^ (53 - b) * 2 ^ nat (int b - 53) = n
        \<or> int b - 53 < 0 \<and> n * 2 ^ (53 - b) = n * 2 ^ nat (- (int b - 53))"
    proof (cases "b = 53")
      case False
      then have "nat (- (int b - 53)) = 53 - b" "int b - 53 < 0" using b53 by simp_all
      then show ?thesis by (simp only: simp_thms)
    qed simp
  qed
qed

lemma parse_finite_exact:
  assumes "n < 2 ^ 53"
  shows "parse_finite_json_number neg n 1 = Some (JInt ((if neg then - 1 else 1) * int n))"
proof -
  obtain m q where r: "round_double n 1 = Some (m, q)"
    and c: "0 \<le> q \<and> m * 2 ^ nat q = n \<or> q < 0 \<and> m = n * 2 ^ nat (- q)"
    using round_double_exact [OF assms] by blast
  show ?thesis
  proof (cases "0 \<le> q")
    case True
    with c have "int m * 2 ^ nat q = int n" by (metis leD of_nat_mult of_nat_numeral of_nat_power)
    with True r show ?thesis by (simp add: parse_finite_json_number_def Let_def)
  next
    case False
    with c have "m = n * 2 ^ nat (- q)" by simp
    with False r show ?thesis by (simp add: parse_finite_json_number_def Let_def)
  qed
qed

definition num_end :: "ustr \<Rightarrow> bool" where
  "num_end r \<longleftrightarrow> (case r of [] \<Rightarrow> True | c # _ \<Rightarrow> \<not> dec_digit c \<and> c \<notin> {46, 101, 69})"

lemma dec_nat_dec_digit: "list_all dec_digit (dec_nat n)"
  by (auto simp: list_all_iff dec_digit_def dest: dec_nat_digits)

lemma dec_nat_leading: "dec_nat n \<noteq> [] \<and> (hd (dec_nat n) = 48 \<longrightarrow> dec_nat n = [48])"
proof (induction n rule: dec_nat.induct)
  case (1 n)
  show ?case
  proof (cases "n < 10")
    case True
    then show ?thesis by (simp add: dec_nat.simps [of n] dec_nat.simps [of 0])
  next
    case False
    have "hd (dec_nat (n div 10)) \<noteq> 48"
    proof
      assume "hd (dec_nat (n div 10)) = 48"
      with "1.IH" [OF False] have "dec_value 0 (dec_nat (n div 10)) = 0" by simp
      with False show False by (simp add: dec_value_dec_nat)
    qed
    with "1.IH" [OF False] False show ?thesis by (simp add: dec_nat.simps [of n])
  qed
qed

lemma takeWhile_digits:
  "list_all dec_digit ds \<Longrightarrow> num_end r \<Longrightarrow> takeWhile dec_digit (ds @ r) = ds"
  by (induction ds) (auto simp: num_end_def split: list.splits)

lemma scan_fraction_end: "num_end r \<Longrightarrow> scan_fraction r = ([], r)"
  by (auto simp: num_end_def scan_fraction_def split: list.splits)

lemma scan_exponent_end: "num_end r \<Longrightarrow> scan_exponent r = (0, r)"
  by (auto simp: num_end_def scan_exponent_def split: list.splits)

lemma scan_number_dec_nat:
  assumes "n < 2 ^ 53" "num_end r"
  shows "scan_number (dec_nat n @ r) = Some (JInt (int n), r)"
    and "scan_number (45 # dec_nat n @ r) = Some (JInt (- int n), r)"
proof -
  have ne: "dec_nat n \<noteq> []" "hd (dec_nat n) = 48 \<Longrightarrow> dec_nat n = [48]"
    using dec_nat_leading [of n] by auto
  have h45: "hd (dec_nat n @ r) \<noteq> 45"
    using dec_nat_digits [of "hd (dec_nat n)" n] ne(1) by (auto simp: neq_Nil_conv)
  have ds: "scan_digits (dec_nat n @ r) = dec_nat n"
    using ne takeWhile_digits [OF dec_nat_dec_digit assms(2), of n] by (auto simp: scan_digits_def)
  have rest: "scan_fraction r = ([], r)" "scan_exponent r = (0, r)"
    using assms(2) by (simp_all add: scan_fraction_end scan_exponent_end)
  note p = parse_finite_exact [OF assms(1)]
  show "scan_number (dec_nat n @ r) = Some (JInt (int n), r)"
    using h45 p [of False] by (simp add: scan_number_def ds rest dec_value_dec_nat)
  show "scan_number (45 # dec_nat n @ r) = Some (JInt (- int n), r)"
    using p [of True] by (simp add: scan_number_def ds rest dec_value_dec_nat)
qed

lemma scan_number_dec_int:
  assumes "\<bar>i\<bar> < 2 ^ 53" "num_end r"
  shows "scan_number (dec_int i @ r) = Some (JInt i, r)"
proof (cases "i < 0")
  case True
  have "nat (- i) < 2 ^ 53" using assms(1) by (simp add: nat_less_iff)
  from scan_number_dec_nat(2) [OF this assms(2)] True show ?thesis by (simp add: dec_int_def)
next
  case False
  have "nat i < 2 ^ 53" using assms(1) by (simp add: nat_less_iff)
  from scan_number_dec_nat(1) [OF this assms(2)] False show ?thesis by (simp add: dec_int_def)
qed

fun json_ok :: "nat \<Rightarrow> json \<Rightarrow> bool" where
  "json_ok d JNull = True"
| "json_ok d (JBool b) = True"
| "json_ok d (JInt i) = (\<bar>i\<bar> < 2 ^ 53)"
| "json_ok d (JFloat m q) = False"
| "json_ok d (JStr s) = True"
| "json_ok d (JArr xs) = (0 < d \<and> list_all (json_ok (d - 1)) xs)"
| "json_ok d (JObj kvs) =
     (0 < d \<and> distinct (map fst kvs) \<and> list_all (\<lambda>(k, v). json_ok (d - 1) v) kvs)"

definition value_start :: "nat \<Rightarrow> bool" where
  "value_start c \<longleftrightarrow> dec_digit c \<or> c \<in> {110, 116, 102, 45, 34, 91, 123}"

lemma dec_int_start: "dec_int i \<noteq> [] \<and> (dec_digit (hd (dec_int i)) \<or> hd (dec_int i) = 45)"
proof (cases "i < 0")
  case False
  have "hd (dec_nat (nat i)) \<in> set (dec_nat (nat i))" by (simp add: dec_nat_leading)
  with False show ?thesis
    using dec_nat_dec_digit [of "nat i"] by (simp add: dec_int_def list_all_iff)
qed (simp add: dec_int_def)

lemma dumps_start: "json_ok d v \<Longrightarrow> \<exists>c s. dumps v = c # s \<and> value_start c"
proof (cases v)
  case (JInt i)
  then show ?thesis using dec_int_start [of i] by (cases "dec_int i") (auto simp: value_start_def)
qed (auto simp: value_start_def dumps_string_def)

lemma value_start_facts:
  "value_start c \<Longrightarrow> \<not> is_ws c \<and> c \<noteq> 93 \<and> c \<noteq> 125"
  by (auto simp: value_start_def is_ws_def dec_digit_def)

lemma skip_ws_Cons [simp]: "\<not> is_ws c \<Longrightarrow> skip_ws (c # s) = c # s"
  by (simp add: skip_ws_def)

lemma not_ws [simp]: "\<not> is_ws 44" "\<not> is_ws 58" "\<not> is_ws 34" "\<not> is_ws 93" "\<not> is_ws 125"
  by (simp_all add: is_ws_def)

lemma expect_simps [simp]: "expect c [] = None" "expect c (d # r) = (if d = c then Some r else None)"
  by (simp_all add: expect_def)

lemma num_end_simps [simp]: "num_end []" "num_end (93 # r)" "num_end (125 # r)" "num_end (44 # r)"
  by (simp_all add: num_end_def dec_digit_def)

lemma scan_items_dumps:
  assumes "\<And>x r. x \<in> set xs \<Longrightarrow> num_end r \<Longrightarrow> scan_value d (dumps x @ r) = Some (x, r)"
    and "\<And>x. x \<in> set xs \<Longrightarrow> json_ok d x" and "xs \<noteq> []"
  shows "scan_items d (py_join [44] (map dumps xs) @ 93 # r) = Some (xs, r)"
  using assms
proof (induction xs)
  case Nil
  then show ?case by simp
next
  case (Cons x xs)
  show ?case
  proof (cases xs)
    case Nil
    have "scan_value d (dumps x @ 93 # r) = Some (x, 93 # r)" using Cons.prems(1) by simp
    with Nil show ?thesis by (subst scan_items.simps) simp
  next
    case (Cons y ys)
    let ?t = "py_join [44] (map dumps xs) @ 93 # r"
    have v: "scan_value d (dumps x @ 44 # ?t) = Some (x, 44 # ?t)" using Cons.prems(1) by simp
    obtain c u where "dumps y = c # u" "value_start c"
      using dumps_start [of d y] Cons.prems(2) Cons by auto
    then have "skip_ws ?t = ?t"
      using value_start_facts [of c] Cons by (cases ys) simp_all
    moreover have "scan_items d ?t = Some (xs, r)"
      using Cons.IH Cons.prems Cons by simp
    moreover have "py_join [44] (map dumps (x # xs)) @ 93 # r = dumps x @ 44 # ?t"
      using Cons by simp
    ultimately show ?thesis
      using v by (subst scan_items.simps) simp
  qed
qed

lemma scan_members_dumps:
  assumes "\<And>k v r. (k, v) \<in> set kvs \<Longrightarrow> num_end r \<Longrightarrow> scan_value d (dumps v @ r) = Some (v, r)"
    and "\<And>k v. (k, v) \<in> set kvs \<Longrightarrow> json_ok d v" and "kvs \<noteq> []"
  shows "scan_members d (py_join [44] (map (\<lambda>(k, v). dumps_string k @ 58 # dumps v) kvs) @ 125 # r)
    = Some (kvs, r)"
  using assms
proof (induction kvs)
  case Nil
  then show ?case by simp
next
  case (Cons kv kvs)
  let ?m = "\<lambda>(k, v). dumps_string k @ 58 # dumps v"
  obtain k v where kv: "kv = (k, v)" by (cases kv)
  obtain c u where c: "dumps v = c # u" "value_start c"
    using dumps_start [of d v] Cons.prems(2) kv by auto
  have key: "expect 34 (dumps_string k @ t) = Some (concat (map escape_char k) @ 34 # t)" for t
    by (simp add: dumps_string_def)
  have sv: "scan_value d (dumps v @ t) = Some (v, t)" if "num_end t" for t
    using Cons.prems(1) [of k v t] that kv by simp
  have sk: "skip_ws (dumps v @ t) = dumps v @ t" for t
    using value_start_facts [OF c(2)] c(1) by simp
  show ?case
  proof (cases kvs)
    case Nil
    then show ?thesis
      using sv [of "125 # r"] by (subst scan_members.simps) (simp add: kv key scan_string_dumps sk
        dumps_string_def)
  next
    case (Cons kv' ys)
    let ?t = "py_join [44] (map ?m kvs) @ 125 # r"
    have "skip_ws ?t = ?t"
      using Cons by (cases ys; cases kv') (simp_all add: dumps_string_def)
    moreover have "scan_members d ?t = Some (kvs, r)"
    proof (rule Cons.IH)
      show "scan_value d (dumps v' @ t) = Some (v', t)" if "(k', v') \<in> set kvs" "num_end t" for k' v' t
        using Cons.prems(1) [of k' v' t] that by simp
      show "json_ok d v'" if "(k', v') \<in> set kvs" for k' v'
        using Cons.prems(2) [of k' v'] that by simp
    qed (use Cons in simp)
    moreover have "py_join [44] (map ?m (kv # kvs)) @ 125 # r
        = dumps_string k @ 58 # dumps v @ 44 # ?t"
      using Cons kv by simp
    ultimately show ?thesis
      using sv [of "44 # ?t"]
      by (subst scan_members.simps) (simp add: kv key scan_string_dumps sk dumps_string_def)
  qed
qed

lemma scan_value_dumps:
  "json_ok d v \<Longrightarrow> num_end r \<Longrightarrow> scan_value d (dumps v @ r) = Some (v, r)"
proof (induction d v arbitrary: r rule: json_ok.induct)
  case (1 d)
  then show ?case by (simp add: scan_value.simps starts_with_def)
next
  case (2 d b)
  then show ?case by (simp add: scan_value.simps starts_with_def)
next
  case (3 d i)
  obtain c u where cu: "dec_int i = c # u" "dec_digit c \<or> c = 45"
    using dec_int_start [of i] by (cases "dec_int i") auto
  with scan_number_dec_int [of i r] 3 show ?case
    by (auto simp: scan_value.simps starts_with_def dec_digit_def)
next
  case (4 d m q)
  then show ?case by simp
next
  case (5 d s)
  then show ?case by (simp add: scan_value.simps dumps_string_def scan_string_dumps)
next
  case (6 d xs)
  show ?case
  proof (cases xs)
    case Nil
    with 6 show ?thesis by (simp add: scan_value.simps)
  next
    case (Cons y ys)
    from 6 have "0 < d" "\<And>x. x \<in> set xs \<Longrightarrow> json_ok (d - 1) x" by (auto simp: list_all_iff)
    have items: "scan_items (d - 1) (py_join [44] (map dumps xs) @ 93 # r) = Some (xs, r)"
      using "6.IH" \<open>\<And>x. x \<in> set xs \<Longrightarrow> json_ok (d - 1) x\<close> Cons by (intro scan_items_dumps) auto
    obtain c u where cu: "dumps y = c # u" "value_start c"
      using dumps_start [of "d - 1" y] \<open>\<And>x. x \<in> set xs \<Longrightarrow> json_ok (d - 1) x\<close> Cons by auto
    have "\<exists>w. py_join [44] (map dumps xs) @ 93 # r = c # w"
      using cu Cons by (cases ys) auto
    then obtain w where w: "py_join [44] (map dumps xs) @ 93 # r = c # w" by blast
    show ?thesis
      using items Cons \<open>0 < d\<close> value_start_facts [OF cu(2)] w
      by (simp add: scan_value.simps)
  qed
next
  case (7 d kvs)
  show ?case
  proof (cases kvs)
    case Nil
    with 7 show ?thesis by (simp add: scan_value.simps dict_of_def)
  next
    case (Cons y ys)
    from 7 have "0 < d" and ok: "\<And>k v. (k, v) \<in> set kvs \<Longrightarrow> json_ok (d - 1) v"
      and dis: "distinct (map fst kvs)" by (auto simp: list_all_iff)
    have items: "scan_members (d - 1)
        (py_join [44] (map (\<lambda>(k, v). dumps_string k @ 58 # dumps v) kvs) @ 125 # r) = Some (kvs, r)"
      using "7.IH" ok Cons by (intro scan_members_dumps) auto
    have "\<exists>w. py_join [44] (map (\<lambda>(k, v). dumps_string k @ 58 # dumps v) kvs) @ 125 # r = 34 # w"
      using Cons by (cases ys; cases y) (auto simp: dumps_string_def)
    then obtain w where
      w: "py_join [44] (map (\<lambda>(k, v). dumps_string k @ 58 # dumps v) kvs) @ 125 # r = 34 # w"
      by blast
    show ?thesis
      using items Cons \<open>0 < d\<close> w dict_of_distinct [OF dis] by (simp add: scan_value.simps)
  qed
qed

theorem loads_dumps:
  assumes "json_ok depth v"
  shows "loads depth (dumps v) = Some v"
proof -
  obtain c s where c: "dumps v = c # s" "value_start c" using dumps_start [OF assms] by blast
  moreover have "c \<noteq> 0xFEFF" using c(2) by (auto simp: value_start_def dec_digit_def)
  moreover have "scan_value depth (dumps v) = Some (v, [])"
    using scan_value_dumps [OF assms, of "[]"] by simp
  ultimately show ?thesis
    using value_start_facts [of c] by (simp add: loads_def starts_with_def skip_ws_def)
qed

end
