(* ===== verification/Codec.thy ===== *)
theory Codec
  imports Protocol_Models Json
begin

section \<open>Parsing, validating and encoding protocol lines (protocol/codec.py)\<close>

text \<open>
  A line of bytes becomes a JSON object, its version is checked, an envelope probe checks the
  specs that must be trustworthy before dispatch, and the model the type selects validates the
  whole document; every failure is one of eight classes with a fixed message. Models are field
  specifications: name, required or not, and the check of the value; validation returns the list
  of errors, as pydantic does, because the classification reads it. \<open>dump_command\<close> and
  \<open>dump_event\<close> are \<open>model_dump(exclude_none=True)\<close> in field order. The main lemmas:
  what a parser returns satisfies the wire constraints, and encoding then parsing is the identity.
\<close>

subsection \<open>Failures\<close>

datatype parse_error_code =
    MalformedJson | MalformedEnvelope | UnsupportedVersion | UnknownType
  | InvalidPayload | InvalidFraming | InvalidUtf8 | LineTooLong

fun parse_error_name :: "parse_error_code \<Rightarrow> string" where
  "parse_error_name MalformedJson = ''malformed_json''"
| "parse_error_name MalformedEnvelope = ''malformed_envelope''"
| "parse_error_name UnsupportedVersion = ''unsupported_version''"
| "parse_error_name UnknownType = ''unknown_type''"
| "parse_error_name InvalidPayload = ''invalid_payload''"
| "parse_error_name InvalidFraming = ''invalid_framing''"
| "parse_error_name InvalidUtf8 = ''invalid_utf8''"
| "parse_error_name LineTooLong = ''line_too_long''"

fun FAILURE_MESSAGES :: "parse_error_code \<Rightarrow> string" where
  "FAILURE_MESSAGES MalformedJson = ''Protocol line is not valid JSON.''"
| "FAILURE_MESSAGES MalformedEnvelope = ''Protocol message envelope is invalid.''"
| "FAILURE_MESSAGES UnsupportedVersion = ''Protocol version is not supported.''"
| "FAILURE_MESSAGES UnknownType = ''Protocol message type is not supported.''"
| "FAILURE_MESSAGES InvalidPayload = ''Protocol message payload is invalid.''"
| "FAILURE_MESSAGES InvalidFraming =
     ''Protocol input must be one complete JSON object terminated by LF.''"
| "FAILURE_MESSAGES InvalidUtf8 = ''Protocol line is not valid UTF-8.''"
| "FAILURE_MESSAGES LineTooLong = ''Protocol line exceeds the byte limit.''"

record parse_failure =
  parse_code :: parse_error_code
  parse_message :: ustr

definition failure :: "parse_error_code \<Rightarrow> parse_failure" where
  "failure c = \<lparr>parse_code = c, parse_message = lit (FAILURE_MESSAGES c)\<rparr>"

subsection \<open>Decoding a line\<close>

type_synonym document = "(ustr \<times> json) list"

definition decode_json_object :: "nat \<Rightarrow> byte list \<Rightarrow> parse_failure + document" where
  "decode_json_object depth line =
     (if line = [] \<or> 13 \<in> set line \<or> 10 \<in> set line then Inl (failure InvalidFraming)
      else case utf8_decode line of
             None \<Rightarrow> Inl (failure InvalidUtf8)
           | Some s \<Rightarrow>
               (case loads depth s of
                  None \<Rightarrow> Inl (failure MalformedJson)
                | Some (JObj doc) \<Rightarrow> Inr doc
                | Some _ \<Rightarrow> Inl (failure MalformedEnvelope)))"

definition validate_supported_version :: "document \<Rightarrow> parse_failure option" where
  "validate_supported_version doc =
     (case map_of doc (lit ''protocol_version'') of
        Some (JInt n) \<Rightarrow> if n \<noteq> PROTOCOL_VERSION then Some (failure UnsupportedVersion) else None
      | _ \<Rightarrow> Some (failure MalformedEnvelope))"

subsection \<open>Field specifications\<close>

type_synonym field_spec = "string \<times> bool \<times> (json \<Rightarrow> bool)"

definition text_of :: "(ustr \<Rightarrow> bool) \<Rightarrow> json \<Rightarrow> bool" where
  "text_of P v = (case v of JStr s \<Rightarrow> P s | _ \<Rightarrow> False)"

definition int_of :: "(int \<Rightarrow> bool) \<Rightarrow> json \<Rightarrow> bool" where
  "int_of P v = (case v of JInt n \<Rightarrow> P n | _ \<Rightarrow> False)"

definition bool_of :: "json \<Rightarrow> bool" where
  "bool_of v = (case v of JBool _ \<Rightarrow> True | _ \<Rightarrow> False)"

text \<open>A validation error: the first component of its location and whether it is a forbidden extra.\<close>

record validation_error =
  err_loc :: ustr
  err_extra :: bool

definition field_errors :: "document \<Rightarrow> field_spec \<Rightarrow> validation_error list" where
  "field_errors doc f =
     (case f of (name, required, check) \<Rightarrow>
        (case map_of doc (lit name) of
           None \<Rightarrow> if required then [\<lparr>err_loc = lit name, err_extra = False\<rparr>] else []
         | Some v \<Rightarrow> if check v then [] else [\<lparr>err_loc = lit name, err_extra = False\<rparr>]))"

definition extra_errors :: "field_spec list \<Rightarrow> document \<Rightarrow> validation_error list" where
  "extra_errors specs doc =
     map (\<lambda>(k, _). \<lparr>err_loc = k, err_extra = True\<rparr>)
       (filter (\<lambda>(k, _). k \<notin> set (map (lit \<circ> fst) specs)) doc)"

definition model_errors :: "field_spec list \<Rightarrow> document \<Rightarrow> validation_error list" where
  "model_errors specs doc = concat (map (field_errors doc) specs) @ extra_errors specs doc"

definition envelope_ok :: "field_spec list \<Rightarrow> document \<Rightarrow> bool" where
  "envelope_ok specs doc \<longleftrightarrow> list_all (\<lambda>f. field_errors doc f = []) specs"

definition payload_of :: "field_spec list \<Rightarrow> json \<Rightarrow> bool" where
  "payload_of specs v = (case v of JObj d \<Rightarrow> model_errors specs d = [] | _ \<Rightarrow> False)"

definition known_message_failure :: "validation_error list \<Rightarrow> parse_failure" where
  "known_message_failure errs =
     (if errs \<noteq> [] \<and> list_all (\<lambda>e. err_loc e = lit ''payload'' \<or> err_extra e) errs
      then failure InvalidPayload else failure MalformedEnvelope)"

subsection \<open>The envelopes and the models\<close>

definition command_envelope :: "field_spec list" where
  "command_envelope =
     [(''protocol_version'', True, int_of (\<lambda>_. True)),
      (''type'', True, text_of NonEmptyString),
      (''command_id'', True, text_of CommandId),
      (''timestamp'', True, text_of Timestamp),
      (''payload'', True, \<lambda>_. True)]"

definition event_envelope :: "field_spec list" where
  "event_envelope =
     [(''protocol_version'', True, int_of (\<lambda>_. True)),
      (''type'', True, text_of NonEmptyString),
      (''timestamp'', True, text_of Timestamp),
      (''correlation_id'', False, text_of CommandId),
      (''session_id'', False, text_of SessionId),
      (''sequence'', False, int_of Sequence),
      (''payload'', True, \<lambda>_. True)]"

definition command_payloads :: "(string \<times> field_spec list) list" where
  "command_payloads =
     [(''runtime.initialize'', [(''workspace'', True, text_of NonEmptyString)]),
      (''session.start'', [(''task'', True, text_of SessionTask)]),
      (''session.cancel'', [(''session_id'', True, text_of SessionId)]),
      (''runtime.shutdown'', [])]"

definition runtime_payloads :: "(string \<times> field_spec list) list" where
  "runtime_payloads =
     [(''runtime.ready'', [(''workspace'', True, text_of NonEmptyString)]),
      (''runtime.error'', [(''code'', True, text_of ErrorCode), (''message'', True, text_of SafeMessage),
                           (''recoverable'', True, bool_of)])]"

definition session_payloads :: "(string \<times> field_spec list) list" where
  "session_payloads =
     [(''session.started'', []),
      (''assistant.delta'', [(''text'', True, text_of AssistantText)]),
      (''assistant.completed'', [(''text'', True, text_of AssistantText)]),
      (''session.completed'', []),
      (''session.cancelled'', []),
      (''session.failed'', [(''code'', True, text_of ErrorCode), (''message'', True, text_of SafeMessage)])]"

definition version_field :: field_spec where
  "version_field = (''protocol_version'', True, int_of (\<lambda>n. n = PROTOCOL_VERSION))"

definition command_model :: "string \<Rightarrow> field_spec list \<Rightarrow> field_spec list" where
  "command_model t payload =
     [version_field, (''type'', True, text_of (\<lambda>s. s = lit t)),
      (''command_id'', True, text_of CommandId), (''timestamp'', True, text_of Timestamp),
      (''payload'', True, payload_of payload)]"

definition runtime_event_model :: "string \<Rightarrow> field_spec list \<Rightarrow> field_spec list" where
  "runtime_event_model t payload =
     [version_field, (''type'', True, text_of (\<lambda>s. s = lit t)),
      (''timestamp'', True, text_of Timestamp), (''correlation_id'', False, text_of CommandId),
      (''payload'', True, payload_of payload)]"

definition session_event_model :: "string \<Rightarrow> field_spec list \<Rightarrow> field_spec list" where
  "session_event_model t payload =
     [version_field, (''type'', True, text_of (\<lambda>s. s = lit t)),
      (''session_id'', True, text_of SessionId), (''sequence'', True, int_of Sequence),
      (''timestamp'', True, text_of Timestamp), (''correlation_id'', False, text_of CommandId),
      (''payload'', True, payload_of payload)]"

subsection \<open>Building the validated values\<close>

definition get_text :: "document \<Rightarrow> string \<Rightarrow> ustr" where
  "get_text doc k = (case map_of doc (lit k) of Some (JStr s) \<Rightarrow> s | _ \<Rightarrow> [])"

definition get_int :: "document \<Rightarrow> string \<Rightarrow> int" where
  "get_int doc k = (case map_of doc (lit k) of Some (JInt n) \<Rightarrow> n | _ \<Rightarrow> 0)"

definition get_bool :: "document \<Rightarrow> string \<Rightarrow> bool" where
  "get_bool doc k = (case map_of doc (lit k) of Some (JBool b) \<Rightarrow> b | _ \<Rightarrow> False)"

definition get_object :: "document \<Rightarrow> string \<Rightarrow> document" where
  "get_object doc k = (case map_of doc (lit k) of Some (JObj d) \<Rightarrow> d | _ \<Rightarrow> [])"

definition get_correlation :: "document \<Rightarrow> ustr option" where
  "get_correlation doc =
     (case map_of doc (lit ''correlation_id'') of Some (JStr s) \<Rightarrow> Some s | _ \<Rightarrow> None)"

definition build_command :: "string \<Rightarrow> document \<Rightarrow> command" where
  "build_command t doc =
     (let b = \<lparr>command_id = get_text doc ''command_id'', cmd_timestamp = get_text doc ''timestamp''\<rparr>;
          p = get_object doc ''payload'' in
      if t = ''runtime.initialize'' then RuntimeInitializeCommand b (get_text p ''workspace'')
      else if t = ''session.start'' then SessionStartCommand b (get_text p ''task'')
      else if t = ''session.cancel'' then SessionCancelCommand b (get_text p ''session_id'')
      else RuntimeShutdownCommand b)"

definition build_runtime_event :: "string \<Rightarrow> document \<Rightarrow> runtime_event" where
  "build_runtime_event t doc =
     (let b = \<lparr>re_timestamp = get_text doc ''timestamp'', re_correlation = get_correlation doc\<rparr>;
          p = get_object doc ''payload'' in
      if t = ''runtime.ready'' then RuntimeReadyEvent b (get_text p ''workspace'')
      else RuntimeErrorEvent b (get_text p ''code'') (get_text p ''message'') (get_bool p ''recoverable''))"

definition build_session_event :: "string \<Rightarrow> document \<Rightarrow> session_event" where
  "build_session_event t doc =
     (let b = \<lparr>se_session_id = get_text doc ''session_id'', se_sequence = get_int doc ''sequence'',
               se_timestamp = get_text doc ''timestamp'', se_correlation = get_correlation doc\<rparr>;
          p = get_object doc ''payload'' in
      if t = ''session.started'' then SessionStartedEvent b
      else if t = ''assistant.delta'' then AssistantDeltaEvent b (get_text p ''text'')
      else if t = ''assistant.completed'' then AssistantCompletedEvent b (get_text p ''text'')
      else if t = ''session.completed'' then SessionCompletedEvent b
      else if t = ''session.cancelled'' then SessionCancelledEvent b
      else SessionFailedEvent b (get_text p ''code'') (get_text p ''message''))"

text \<open>\<open>_COMMAND_MODELS\<close> and \<open>_EVENT_MODELS\<close>: the entry whose name is the document's type.\<close>

definition find_model :: "(string \<times> field_spec list) list \<Rightarrow> ustr \<Rightarrow> (string \<times> field_spec list) option" where
  "find_model table t = find (\<lambda>(name, _). lit name = t) table"

definition command_model_validate :: "ustr \<Rightarrow> document \<Rightarrow> (validation_error list + command) option" where
  "command_model_validate t doc =
     (case find_model command_payloads t of
        None \<Rightarrow> None
      | Some (name, payload) \<Rightarrow>
          Some (let errs = model_errors (command_model name payload) doc in
                if errs = [] then Inr (build_command name doc) else Inl errs))"

definition event_model_validate :: "ustr \<Rightarrow> document \<Rightarrow> (validation_error list + event) option" where
  "event_model_validate t doc =
     (case find_model runtime_payloads t of
        Some (name, payload) \<Rightarrow>
          Some (let errs = model_errors (runtime_event_model name payload) doc in
                if errs = [] then Inr (RuntimeEv (build_runtime_event name doc)) else Inl errs)
      | None \<Rightarrow>
          (case find_model session_payloads t of
             None \<Rightarrow> None
           | Some (name, payload) \<Rightarrow>
               Some (let errs = model_errors (session_event_model name payload) doc in
                     if errs = [] then Inr (SessionEv (build_session_event name doc)) else Inl errs)))"

subsection \<open>The line parsers\<close>

definition parse_line ::
  "field_spec list \<Rightarrow> (ustr \<Rightarrow> document \<Rightarrow> (validation_error list + 'm) option) \<Rightarrow>
   nat \<Rightarrow> byte list \<Rightarrow> parse_failure + 'm" where
  "parse_line envelope validate depth line =
     and_then (decode_json_object depth line) (\<lambda>doc.
       case validate_supported_version doc of
         Some f \<Rightarrow> Inl f
       | None \<Rightarrow>
           if \<not> envelope_ok envelope doc then Inl (failure MalformedEnvelope)
           else case validate (get_text doc ''type'') doc of
                  None \<Rightarrow> Inl (failure UnknownType)
                | Some (Inl errs) \<Rightarrow> Inl (known_message_failure errs)
                | Some (Inr m) \<Rightarrow> Inr m)"

definition parse_command_line :: "nat \<Rightarrow> byte list \<Rightarrow> parse_failure + command" where
  "parse_command_line = parse_line command_envelope command_model_validate"

definition parse_event_line :: "nat \<Rightarrow> byte list \<Rightarrow> parse_failure + event" where
  "parse_event_line = parse_line event_envelope event_model_validate"

text \<open>Validation of a local mapping by the discriminated union of the models.\<close>

definition validate_union ::
  "(ustr \<Rightarrow> document \<Rightarrow> (validation_error list + 'm) option) \<Rightarrow> document \<Rightarrow> py_error + 'm" where
  "validate_union validate doc =
     (case map_of doc (lit ''type'') of
        Some (JStr t) \<Rightarrow>
          (case validate t doc of Some (Inr m) \<Rightarrow> Inr m | _ \<Rightarrow> Inl (ValueError ''validation error''))
      | _ \<Rightarrow> Inl (ValueError ''validation error''))"

definition validate_command :: "document \<Rightarrow> py_error + command" where
  "validate_command = validate_union command_model_validate"

definition validate_event :: "document \<Rightarrow> py_error + event" where
  "validate_event = validate_union event_model_validate"

subsection \<open>Encoding\<close>

definition command_payload_document :: "command \<Rightarrow> document" where
  "command_payload_document c =
     (case c of
        RuntimeInitializeCommand _ w \<Rightarrow> [(lit ''workspace'', JStr w)]
      | SessionStartCommand _ t \<Rightarrow> [(lit ''task'', JStr t)]
      | SessionCancelCommand _ i \<Rightarrow> [(lit ''session_id'', JStr i)]
      | RuntimeShutdownCommand _ \<Rightarrow> [])"

definition dump_command :: "command \<Rightarrow> document" where
  "dump_command c =
     [(lit ''protocol_version'', JInt PROTOCOL_VERSION), (lit ''type'', JStr (lit (command_type c))),
      (lit ''command_id'', JStr (command_id (base_of_command c))),
      (lit ''timestamp'', JStr (cmd_timestamp (base_of_command c))),
      (lit ''payload'', JObj (command_payload_document c))]"

definition correlation_entry :: "ustr option \<Rightarrow> document" where
  "correlation_entry c = (case c of None \<Rightarrow> [] | Some i \<Rightarrow> [(lit ''correlation_id'', JStr i)])"

fun runtime_event_base_of :: "runtime_event \<Rightarrow> runtime_event_base" where
  "runtime_event_base_of (RuntimeReadyEvent b _) = b"
| "runtime_event_base_of (RuntimeErrorEvent b _ _ _) = b"

definition runtime_payload_document :: "runtime_event \<Rightarrow> document" where
  "runtime_payload_document e =
     (case e of
        RuntimeReadyEvent _ w \<Rightarrow> [(lit ''workspace'', JStr w)]
      | RuntimeErrorEvent _ c m r \<Rightarrow>
          [(lit ''code'', JStr c), (lit ''message'', JStr m), (lit ''recoverable'', JBool r)])"

definition session_payload_document :: "session_event \<Rightarrow> document" where
  "session_payload_document e =
     (case e of
        AssistantDeltaEvent _ t \<Rightarrow> [(lit ''text'', JStr t)]
      | AssistantCompletedEvent _ t \<Rightarrow> [(lit ''text'', JStr t)]
      | SessionFailedEvent _ c m \<Rightarrow> [(lit ''code'', JStr c), (lit ''message'', JStr m)]
      | _ \<Rightarrow> [])"

fun dump_event :: "event \<Rightarrow> document" where
  "dump_event (RuntimeEv e) =
     [(lit ''protocol_version'', JInt PROTOCOL_VERSION), (lit ''type'', JStr (lit (runtime_type_name e))),
      (lit ''timestamp'', JStr (re_timestamp (runtime_event_base_of e)))] @
     correlation_entry (re_correlation (runtime_event_base_of e)) @
     [(lit ''payload'', JObj (runtime_payload_document e))]"
| "dump_event (SessionEv e) =
     [(lit ''protocol_version'', JInt PROTOCOL_VERSION),
      (lit ''type'', JStr (lit (session_type_name (session_event_type_of e)))),
      (lit ''session_id'', JStr (event_session e)), (lit ''sequence'', JInt (event_sequence e)),
      (lit ''timestamp'', JStr (se_timestamp (session_event_base_of e)))] @
     correlation_entry (event_correlation e) @
     [(lit ''payload'', JObj (session_payload_document e))]"

definition encode_message :: "document \<Rightarrow> py_error + byte list" where
  "encode_message doc =
     (case utf8_encode (dumps (JObj doc)) of
        None \<Rightarrow> Inl (ValueError ''surrogates not allowed'')
      | Some encoded \<Rightarrow>
          if MAX_PROTOCOL_LINE_BYTES < length encoded
          then Inl (ValueError (FAILURE_MESSAGES LineTooLong))
          else Inr (encoded @ [10]))"

definition encode_command :: "command \<Rightarrow> py_error + byte list" where
  "encode_command c = encode_message (dump_command c)"

definition encode_event :: "event \<Rightarrow> py_error + byte list" where
  "encode_event e = encode_message (dump_event e)"

subsection \<open>What the parsers return satisfies the wire constraints\<close>

lemma model_errors_Nil_iff:
  "model_errors specs doc = [] \<longleftrightarrow>
     list_all (\<lambda>f. field_errors doc f = []) specs \<and> extra_errors specs doc = []"
  by (auto simp: model_errors_def list_all_iff)

lemma field_errors_Nil_iff:
  "field_errors doc (name, required, check) = [] \<longleftrightarrow>
     (case map_of doc (lit name) of None \<Rightarrow> \<not> required | Some v \<Rightarrow> check v)"
  by (auto simp: field_errors_def split: option.splits)

lemma text_field_ok:
  "field_errors doc (name, True, text_of P) = [] \<longleftrightarrow>
     (\<exists>s. map_of doc (lit name) = Some (JStr s) \<and> get_text doc name = s \<and> P s)"
  by (auto simp: field_errors_Nil_iff text_of_def get_text_def split: option.splits json.splits)

lemma int_field_ok:
  "field_errors doc (name, True, int_of P) = [] \<longleftrightarrow>
     (\<exists>n. map_of doc (lit name) = Some (JInt n) \<and> get_int doc name = n \<and> P n)"
  by (auto simp: field_errors_Nil_iff int_of_def get_int_def split: option.splits json.splits)

lemma correlation_field_ok:
  "field_errors doc (''correlation_id'', False, text_of CommandId) = [] \<Longrightarrow>
     correlation_ok (get_correlation doc)"
  by (auto simp: field_errors_Nil_iff text_of_def get_correlation_def correlation_ok_def
      split: option.splits json.splits)

lemma payload_field_ok:
  "field_errors doc (''payload'', True, payload_of p) = [] \<longleftrightarrow>
     (\<exists>d. map_of doc (lit ''payload'') = Some (JObj d) \<and> get_object doc ''payload'' = d \<and>
        model_errors p d = [])"
  by (auto simp: field_errors_Nil_iff payload_of_def get_object_def split: option.splits json.splits)

lemmas field_ok = text_field_ok int_field_ok payload_field_ok

lemma find_model_SomeD: "find_model table t = Some (n, p) \<Longrightarrow> (n, p) \<in> set table \<and> t = lit n"
  by (force simp: find_model_def find_Some_iff in_set_conv_nth)

lemma find_model_lit:
  "find_model table (lit n) = find (\<lambda>(name, _). name = n) table"
  by (simp add: find_model_def)

lemma set_ConsE: "x \<in> set (y # ys) \<Longrightarrow> (x = y \<Longrightarrow> P) \<Longrightarrow> (x \<in> set ys \<Longrightarrow> P) \<Longrightarrow> P"
  by auto

lemma command_model_sound:
  assumes "command_model_validate t doc = Some (Inr c)"
  shows "command_ok c \<and> t = lit (command_type c)"
proof -
  obtain n p where np: "find_model command_payloads t = Some (n, p)"
    "model_errors (command_model n p) doc = []" "c = build_command n doc"
    using assms by (auto simp: command_model_validate_def Let_def split: option.splits if_splits)
  have f: "(n, p) \<in> set command_payloads" "t = lit n" using find_model_SomeD [OF np(1)] by auto
  have "CommandId (get_text doc ''command_id'') \<and> Timestamp (get_text doc ''timestamp'')"
    "model_errors p (get_object doc ''payload'') = []"
    using np(2) by (auto simp: model_errors_Nil_iff command_model_def field_ok)
  with f(1) show ?thesis
    unfolding np(3) f(2) command_payloads_def
    by (elim set_ConsE emptyE)
      (simp_all add: build_command_def Let_def command_ok_def command_base_ok_def model_errors_Nil_iff
        field_ok del: lit_simps)
qed

lemma runtime_model_sound:
  assumes "find_model runtime_payloads t = Some (n, p)"
    and "model_errors (runtime_event_model n p) doc = []"
  shows "runtime_event_ok (build_runtime_event n doc)
    \<and> t = lit (runtime_type_name (build_runtime_event n doc))"
proof -
  have f: "(n, p) \<in> set runtime_payloads" "t = lit n" using find_model_SomeD [OF assms(1)] by auto
  have "Timestamp (get_text doc ''timestamp'')" "correlation_ok (get_correlation doc)"
    "model_errors p (get_object doc ''payload'') = []"
    using assms(2)
    by (auto simp: model_errors_Nil_iff runtime_event_model_def field_ok dest: correlation_field_ok)
  with f(1) show ?thesis
    unfolding f(2) runtime_payloads_def
    by (elim set_ConsE emptyE)
      (simp_all add: build_runtime_event_def Let_def model_errors_Nil_iff field_ok del: lit_simps)
qed

lemma session_model_sound:
  assumes "find_model session_payloads t = Some (n, p)"
    and "model_errors (session_event_model n p) doc = []"
  shows "session_event_ok (build_session_event n doc)
    \<and> t = lit (session_type_name (session_event_type_of (build_session_event n doc)))"
proof -
  have f: "(n, p) \<in> set session_payloads" "t = lit n" using find_model_SomeD [OF assms(1)] by auto
  have "Timestamp (get_text doc ''timestamp'')" "correlation_ok (get_correlation doc)"
    "SessionId (get_text doc ''session_id'')" "Sequence (get_int doc ''sequence'')"
    "model_errors p (get_object doc ''payload'') = []"
    using assms(2)
    by (auto simp: model_errors_Nil_iff session_event_model_def field_ok dest: correlation_field_ok)
  with f(1) show ?thesis
    unfolding f(2) session_payloads_def
    by (elim set_ConsE emptyE)
      (simp_all add: build_session_event_def Let_def session_event_ok_def session_event_base_ok_def
        model_errors_Nil_iff field_ok del: lit_simps)
qed

fun event_type_name :: "event \<Rightarrow> string" where
  "event_type_name (RuntimeEv e) = runtime_type_name e"
| "event_type_name (SessionEv e) = session_type_name (session_event_type_of e)"

lemma event_model_sound:
  assumes "event_model_validate t doc = Some (Inr e)"
  shows "event_ok e \<and> t = lit (event_type_name e)"
  using assms runtime_model_sound [of t] session_model_sound [of t]
  by (fastforce simp: event_model_validate_def Let_def split: option.splits if_splits)

lemma parse_line_Inr:
  "parse_line envelope validate depth line = Inr m \<longleftrightarrow>
     (\<exists>doc. decode_json_object depth line = Inr doc \<and> validate_supported_version doc = None \<and>
        envelope_ok envelope doc \<and> validate (get_text doc ''type'') doc = Some (Inr m))"
proof (cases "decode_json_object depth line")
  case (Inr doc)
  show ?thesis
  proof (cases "validate_supported_version doc")
    case None
    with Inr show ?thesis
      by (cases "validate (get_text doc ''type'') doc" rule: option.exhaust;
          cases "the (validate (get_text doc ''type'') doc)")
        (auto simp: parse_line_def)
  qed (use Inr in \<open>simp add: parse_line_def\<close>)
qed (simp add: parse_line_def)

subsection \<open>The models accept what they dump\<close>

lemmas dump_eval =
  model_errors_def field_errors_def extra_errors_def text_of_def int_of_def bool_of_def
  payload_of_def version_field_def get_text_def get_int_def get_bool_def get_object_def
  get_correlation_def

lemma PROTOCOL_VERSION_refl: "int_of (\<lambda>n. n = PROTOCOL_VERSION) (JInt PROTOCOL_VERSION)"
  by (simp add: int_of_def)

lemma dump_command_valid:
  assumes "command_ok c"
  shows "command_model_validate (lit (command_type c)) (dump_command c) = Some (Inr c)"
proof (cases c)
  case (RuntimeInitializeCommand b w)
  with assms show ?thesis
    by (cases b) (simp add: command_model_validate_def find_model_lit command_payloads_def command_model_def
      dump_command_def command_payload_document_def build_command_def dump_eval command_ok_def
      command_base_ok_def del: lit_simps)
next
  case (SessionStartCommand b w)
  with assms show ?thesis
    by (cases b) (simp add: command_model_validate_def find_model_lit command_payloads_def command_model_def
      dump_command_def command_payload_document_def build_command_def dump_eval command_ok_def
      command_base_ok_def del: lit_simps)
next
  case (SessionCancelCommand b w)
  with assms show ?thesis
    by (cases b) (simp add: command_model_validate_def find_model_lit command_payloads_def command_model_def
      dump_command_def command_payload_document_def build_command_def dump_eval command_ok_def
      command_base_ok_def del: lit_simps)
next
  case (RuntimeShutdownCommand b)
  with assms show ?thesis
    by (cases b) (simp add: command_model_validate_def find_model_lit command_payloads_def command_model_def
      dump_command_def command_payload_document_def build_command_def dump_eval command_ok_def
      command_base_ok_def del: lit_simps)
qed

lemmas dump_event_eval =
  event_model_validate_def find_model_lit runtime_payloads_def session_payloads_def
  runtime_event_model_def session_event_model_def runtime_payload_document_def
  session_payload_document_def build_runtime_event_def build_session_event_def
  correlation_entry_def correlation_ok_def session_event_ok_def session_event_base_ok_def

lemma dump_runtime_event_valid:
  assumes "runtime_event_ok e"
  shows "event_model_validate (lit (runtime_type_name e)) (dump_event (RuntimeEv e)) =
    Some (Inr (RuntimeEv e))"
proof (cases e)
  case (RuntimeReadyEvent b w)
  with assms show ?thesis
    by (cases b; cases "re_correlation b")
      (simp_all add: dump_event_eval dump_eval del: lit_simps)
next
  case (RuntimeErrorEvent b c m r)
  with assms show ?thesis
    by (cases b; cases "re_correlation b")
      (simp_all add: dump_event_eval dump_eval del: lit_simps)
qed

lemma dump_session_event_valid:
  assumes "session_event_ok e"
  shows "event_model_validate (lit (session_type_name (session_event_type_of e)))
    (dump_event (SessionEv e)) = Some (Inr (SessionEv e))"
proof (cases e)
  case (SessionStartedEvent b)
  with assms show ?thesis
    by (cases b; cases "se_correlation b") (simp_all add: dump_event_eval dump_eval del: lit_simps)
next
  case (AssistantDeltaEvent b t)
  with assms show ?thesis
    by (cases b; cases "se_correlation b") (simp_all add: dump_event_eval dump_eval del: lit_simps)
next
  case (AssistantCompletedEvent b t)
  with assms show ?thesis
    by (cases b; cases "se_correlation b") (simp_all add: dump_event_eval dump_eval del: lit_simps)
next
  case (SessionCompletedEvent b)
  with assms show ?thesis
    by (cases b; cases "se_correlation b") (simp_all add: dump_event_eval dump_eval del: lit_simps)
next
  case (SessionCancelledEvent b)
  with assms show ?thesis
    by (cases b; cases "se_correlation b") (simp_all add: dump_event_eval dump_eval del: lit_simps)
next
  case (SessionFailedEvent b c m)
  with assms show ?thesis
    by (cases b; cases "se_correlation b") (simp_all add: dump_event_eval dump_eval del: lit_simps)
qed

lemma dump_event_valid:
  "event_ok e \<Longrightarrow> event_model_validate (lit (event_type_name e)) (dump_event e) = Some (Inr e)"
  by (cases e) (simp_all add: dump_runtime_event_valid dump_session_event_valid del: dump_event.simps)

lemma NonEmptyString_command_type: "NonEmptyString (lit (command_type c))"
  by (cases c) (simp_all add: NonEmptyString_def)

lemma NonEmptyString_event_type: "NonEmptyString (lit (event_type_name e))"
proof (cases e)
  case (RuntimeEv r)
  then show ?thesis by (cases r) (simp_all add: NonEmptyString_def)
next
  case (SessionEv x)
  then show ?thesis by (cases x) (simp_all add: NonEmptyString_def)
qed

lemma dump_command_envelope:
  assumes "command_ok c"
  shows "envelope_ok command_envelope (dump_command c)"
    "validate_supported_version (dump_command c) = None"
    "get_text (dump_command c) ''type'' = lit (command_type c)"
  using assms NonEmptyString_command_type [of c]
  by (simp_all add: envelope_ok_def command_envelope_def dump_command_def field_errors_def
      int_of_def text_of_def command_ok_def command_base_ok_def validate_supported_version_def
      get_text_def del: lit_simps)

lemma dump_event_envelope:
  assumes "event_ok e"
  shows "envelope_ok event_envelope (dump_event e)"
    "validate_supported_version (dump_event e) = None"
    "get_text (dump_event e) ''type'' = lit (event_type_name e)"
proof -
  have "envelope_ok event_envelope (dump_event e) \<and> validate_supported_version (dump_event e) = None
    \<and> get_text (dump_event e) ''type'' = lit (event_type_name e)"
  proof (cases e)
    case (RuntimeEv r)
    have "Timestamp (re_timestamp (runtime_event_base_of r)) \<and>
        correlation_ok (re_correlation (runtime_event_base_of r))"
      using assms RuntimeEv by (cases r) simp_all
    then show ?thesis
      using NonEmptyString_event_type [of e] RuntimeEv
      by (cases "re_correlation (runtime_event_base_of r)")
        (simp_all add: envelope_ok_def event_envelope_def field_errors_def int_of_def text_of_def
          validate_supported_version_def get_text_def correlation_entry_def correlation_ok_def
          del: lit_simps)
  next
    case (SessionEv x)
    have "session_event_base_ok (session_event_base_of x)"
      using assms SessionEv by (simp add: session_event_ok_def)
    then show ?thesis
      using NonEmptyString_event_type [of e] SessionEv
      by (cases "event_correlation x")
        (simp_all add: envelope_ok_def event_envelope_def field_errors_def int_of_def text_of_def
          validate_supported_version_def get_text_def correlation_entry_def correlation_ok_def
          session_event_base_ok_def del: lit_simps)
  qed
  then show "envelope_ok event_envelope (dump_event e)"
    "validate_supported_version (dump_event e) = None"
    "get_text (dump_event e) ''type'' = lit (event_type_name e)" by simp_all
qed

subsection \<open>From bytes to bytes\<close>

lemma escape_char_printable: "x \<in> set (escape_char c) \<Longrightarrow> 32 \<le> x"
  by (auto simp: escape_char_def hex_digit_def split: if_splits)

lemma dumps_string_printable: "x \<in> set (dumps_string s) \<Longrightarrow> 32 \<le> x"
  by (auto simp: dumps_string_def dest: escape_char_printable)

lemma py_join_set: "x \<in> set (py_join sep ws) \<Longrightarrow> x \<in> set sep \<or> (\<exists>w \<in> set ws. x \<in> set w)"
  by (induction sep ws rule: py_join.induct) auto

lemma dec_int_printable: "x \<in> set (dec_int i) \<Longrightarrow> 32 \<le> x"
  using dec_nat_digits [of x] by (fastforce simp: dec_int_def split: if_splits)

lemma dumps_printable: "json_ok d v \<Longrightarrow> x \<in> set (dumps v) \<Longrightarrow> 32 \<le> x"
proof (induction d v rule: json_ok.induct)
  case (6 d xs)
  then show ?case by (fastforce simp: list_all_iff dest!: py_join_set)
next
  case (7 d kvs)
  then show ?case by (fastforce simp: list_all_iff dest!: py_join_set dest: dumps_string_printable)
qed (auto dest: dec_int_printable dumps_string_printable split: if_splits)

lemma utf8_char_low: "b \<in> set (utf8_char c) \<Longrightarrow> b < 128 \<Longrightarrow> b = c"
  by (auto simp: utf8_char_def split: if_splits)

lemma utf8_bytes_low: "b \<in> set (utf8_bytes s) \<Longrightarrow> b < 128 \<Longrightarrow> b \<in> set s"
  by (auto simp: utf8_bytes_def dest: utf8_char_low)

text \<open>An encoded message is one bounded line without CR or LF that decodes to its document.\<close>

lemma encode_message_Inr:
  assumes "encode_message doc = Inr line" "json_ok 2 (JObj doc)" "2 \<le> depth"
  shows "\<exists>body. line = body @ [10] \<and> length body \<le> MAX_PROTOCOL_LINE_BYTES \<and> 10 \<notin> set body
    \<and> decode_json_object depth body = Inr doc"
proof -
  obtain body where b: "utf8_encode (dumps (JObj doc)) = Some body" "line = body @ [10]"
    "length body \<le> MAX_PROTOCOL_LINE_BYTES"
    using assms(1) by (auto simp: encode_message_def split: option.splits if_splits)
  have body: "body = utf8_bytes (dumps (JObj doc))"
    using b(1) by (simp add: utf8_encode_def split: if_splits)
  have ctl: "x \<notin> set body" if "x < 32" for x
    using that dumps_printable [OF assms(2), of x] utf8_bytes_low [of x "dumps (JObj doc)"]
    unfolding body by auto
  have mono: "json_ok d v \<Longrightarrow> d \<le> e \<Longrightarrow> json_ok e v" for d e v
    by (induction d v arbitrary: e rule: json_ok.induct) (auto simp: list_all_iff)
  have "loads depth (dumps (JObj doc)) = Some (JObj doc)"
    using mono [OF assms(2,3)] by (rule loads_dumps)
  moreover have "body \<noteq> []" unfolding body by simp
  ultimately have "decode_json_object depth body = Inr doc"
    using ctl [of 10] ctl [of 13] utf8_roundtrip [OF b(1)] by (simp add: decode_json_object_def)
  with b(2,3) ctl [of 10] show ?thesis by auto
qed

lemma dump_command_json_ok: "json_ok 2 (JObj (dump_command c))"
  by (cases c) (simp_all add: dump_command_def command_payload_document_def PROTOCOL_VERSION_def
      del: lit_simps)

lemma dump_event_json_ok: "event_ok e \<Longrightarrow> json_ok 2 (JObj (dump_event e))"
proof (cases e)
  case (RuntimeEv r)
  then show ?thesis
    by (cases r; cases "re_correlation (runtime_event_base_of r)")
      (simp_all add: correlation_entry_def runtime_payload_document_def PROTOCOL_VERSION_def
        del: lit_simps)
next
  case (SessionEv x)
  assume "event_ok e"
  then have "Sequence (event_sequence x)"
    using SessionEv by (simp add: session_event_ok_def session_event_base_ok_def)
  with SessionEv show ?thesis
    by (cases x; cases "event_correlation x")
      (simp_all add: correlation_entry_def session_payload_document_def PROTOCOL_VERSION_def
        Sequence_def MAX_SAFE_SEQUENCE_def del: lit_simps)
qed

subsection \<open>Properties\<close>

text \<open>C8: Every valid command that encodes (its UTF-8 line fits the byte limit) becomes one line of at
  most 65,536 bytes with no LF inside, which the command parser reads back as the same command.\<close>

theorem command_wire_roundtrip:
  assumes "command_ok c" "encode_command c = Inr line" "2 \<le> depth"
  shows "\<exists>body. line = body @ [10] \<and> length body \<le> MAX_PROTOCOL_LINE_BYTES \<and> 10 \<notin> set body
    \<and> parse_command_line depth body = Inr c"
proof -
  from encode_message_Inr [OF assms(2) [unfolded encode_command_def] dump_command_json_ok assms(3)]
  obtain body where b: "line = body @ [10]" "length body \<le> MAX_PROTOCOL_LINE_BYTES"
    "10 \<notin> set body" "decode_json_object depth body = Inr (dump_command c)" by blast
  then have "parse_command_line depth body = Inr c"
    using dump_command_envelope [OF assms(1)] dump_command_valid [OF assms(1)]
    by (simp add: parse_command_line_def parse_line_Inr)
  with b show ?thesis by blast
qed

definition example_command :: command where
  "example_command =
     SessionCancelCommand \<lparr>command_id = lit ''cmd_1'', cmd_timestamp = lit ''2026-01-01T00:00:00.000Z''\<rparr>
       (lit ''ses_1'')"

lemma example_timestamp: "Timestamp (lit ''2026-01-01T00:00:00.000Z'')"
  by (simp add: Timestamp_def validate_timestamp_def is_digit_def field_at_def days_in_month_def Let_def)

lemma example_command_ok: "command_ok example_command"
  using example_ids example_timestamp
  by (simp add: example_command_def command_ok_def command_base_ok_def del: lit_simps)

lemma example_command_encodes: "ok_result (encode_command example_command)"
proof -
  have "utf8_encode (dumps (JObj (dump_command example_command))) =
      Some (dumps (JObj (dump_command example_command)))"
    by (simp add: example_command_def dump_command_def command_payload_document_def dumps_string_def
        escape_char_def dec_int_def dec_nat.simps PROTOCOL_VERSION_def utf8_encode_def is_scalar_def
        is_surrogate_def utf8_char_def)
  moreover have "length (dumps (JObj (dump_command example_command))) \<le> MAX_PROTOCOL_LINE_BYTES"
    by (simp add: example_command_def dump_command_def command_payload_document_def dumps_string_def
        escape_char_def dec_int_def dec_nat.simps PROTOCOL_VERSION_def MAX_PROTOCOL_LINE_BYTES_def)
  ultimately show ?thesis by (simp add: encode_command_def encode_message_def)
qed

theorem command_wire_roundtrip_witness:
  "\<exists>line body. encode_command example_command = Inr line \<and> line = body @ [10]
     \<and> parse_command_line 2 body = Inr example_command"
proof -
  obtain line where l: "encode_command example_command = Inr line"
    using example_command_encodes by (auto simp: ok_result_iff)
  from command_wire_roundtrip [OF example_command_ok l, of 2] l show ?thesis by auto
qed

text \<open>C9: Every valid event that encodes becomes one bounded line with no LF inside, which the event
  parser reads back as the same event.\<close>

theorem event_wire_roundtrip:
  assumes "event_ok e" "encode_event e = Inr line" "2 \<le> depth"
  shows "\<exists>body. line = body @ [10] \<and> length body \<le> MAX_PROTOCOL_LINE_BYTES \<and> 10 \<notin> set body
    \<and> parse_event_line depth body = Inr e"
proof -
  from encode_message_Inr [OF assms(2) [unfolded encode_event_def] dump_event_json_ok assms(3)] assms(1)
  obtain body where b: "line = body @ [10]" "length body \<le> MAX_PROTOCOL_LINE_BYTES"
    "10 \<notin> set body" "decode_json_object depth body = Inr (dump_event e)" by blast
  then have "parse_event_line depth body = Inr e"
    using dump_event_envelope [OF assms(1)] dump_event_valid [OF assms(1)]
    by (simp add: parse_event_line_def parse_line_Inr)
  with b show ?thesis by blast
qed

definition example_event :: event where
  "example_event =
     SessionEv (AssistantDeltaEvent
       \<lparr>se_session_id = lit ''ses_1'', se_sequence = 2, se_timestamp = lit ''2026-01-01T00:00:00.000Z'',
        se_correlation = Some (lit ''cmd_1'')\<rparr> [104, 233, 10, 34])"

lemma example_event_ok: "event_ok example_event"
  using example_ids example_timestamp
  by (simp add: example_event_def session_event_ok_def session_event_base_ok_def correlation_ok_def
      Sequence_def MAX_SAFE_SEQUENCE_def AssistantText_iff is_scalar_def is_surrogate_def
      is_unsafe_layout_def del: lit_simps)

lemma example_event_encodes: "ok_result (encode_event example_event)"
proof -
  let ?t = "dumps (JObj (dump_event example_event))"
  have "list_all is_scalar ?t \<and> length (utf8_bytes ?t) \<le> MAX_PROTOCOL_LINE_BYTES"
    by (simp add: example_event_def correlation_entry_def session_payload_document_def dumps_string_def
        escape_char_def dec_int_def dec_nat.simps PROTOCOL_VERSION_def is_scalar_def is_surrogate_def
        MAX_PROTOCOL_LINE_BYTES_def utf8_bytes_def utf8_char_def)
  then show ?thesis by (simp add: encode_event_def encode_message_def utf8_encode_def)
qed

theorem event_wire_roundtrip_witness:
  "\<exists>line body. encode_event example_event = Inr line \<and> line = body @ [10]
     \<and> parse_event_line 2 body = Inr example_event"
proof -
  obtain line where l: "encode_event example_event = Inr line"
    using example_event_encodes by (auto simp: ok_result_iff)
  from event_wire_roundtrip [OF example_event_ok l, of 2] l show ?thesis by auto
qed



end
