(* ===== verification/Line_Reader.thy ===== *)
theory Line_Reader
  imports Codec
begin

section \<open>Bounded line framing (protocol/streams.py, readers)\<close>

text \<open>
  \<open>_BoundedLineReader\<close> turns an arbitrarily chunked byte stream into the results of its
  LF-delimited lines. The parser is an argument, as in the code; the two readers instantiate it.
  \<open>feed_loop\<close> is the \<open>while\<close> loop of \<open>feed\<close>, recursing on the bytes after \<open>offset\<close>.
  The interface \<open>incremental\<close> says that a consumer's result does not depend on how its input is
  cut; the reader is an instance, and \<open>frame_stream\<close>, which splits the whole stream at once, is
  the specification it is proved equal to.
\<close>

subsection \<open>The reader\<close>

record line_reader =
  max_line_bytes :: nat
  line_buffer :: "byte list"
  discarding_oversized_line :: bool
  reader_finished :: bool

type_synonym 'm line_result = "parse_failure + 'm"

definition new_line_reader :: "int \<Rightarrow> py_error + line_reader" where
  "new_line_reader max_bytes =
     (if max_bytes \<le> 0 then Inl (ValueError ''max_line_bytes must be positive'')
      else Inr \<lparr>max_line_bytes = nat max_bytes, line_buffer = [], discarding_oversized_line = False,
                reader_finished = False\<rparr>)"

lemma rest_shorter: "chunk \<noteq> [] \<Longrightarrow> length (tl (dropWhile P chunk)) < length chunk"
proof -
  assume "chunk \<noteq> []"
  moreover have "length (tl ys) < n \<or> n = 0" if "length ys \<le> n" for ys :: "'a list" and n
    using that by (cases ys) auto
  ultimately show ?thesis using length_dropWhile_le [of P chunk] by fastforce
qed

function feed_loop ::
  "(byte list \<Rightarrow> 'm line_result) \<Rightarrow> line_reader \<Rightarrow> byte list \<Rightarrow> 'm line_result list \<times> line_reader" where
  "feed_loop parser r chunk =
     (if chunk = [] then ([], r)
      else
        let segment = takeWhile (\<lambda>b. b \<noteq> 10) chunk;
            rest = dropWhile (\<lambda>b. b \<noteq> 10) chunk in
        if discarding_oversized_line r then
          (if rest = [] then ([], r)
           else feed_loop parser (r\<lparr>discarding_oversized_line := False\<rparr>) (tl rest))
        else if max_line_bytes r < length (line_buffer r) + length segment then
          (if rest = []
           then ([Inl (failure LineTooLong)],
                 r\<lparr>line_buffer := [], discarding_oversized_line := True\<rparr>)
           else
             let (results, r') = feed_loop parser (r\<lparr>line_buffer := []\<rparr>) (tl rest) in
             (Inl (failure LineTooLong) # results, r'))
        else
          let buffer = line_buffer r @ segment in
          if rest = [] then ([], r\<lparr>line_buffer := buffer\<rparr>)
          else
            let (results, r') = feed_loop parser (r\<lparr>line_buffer := []\<rparr>) (tl rest) in
            (parser buffer # results, r'))"
  by pat_completeness auto

termination
  by (relation "measure (\<lambda>(_, _, chunk). length chunk)") (auto simp: rest_shorter simp del: length_tl)

declare feed_loop.simps [simp del]

definition feed ::
  "(byte list \<Rightarrow> 'm line_result) \<Rightarrow> line_reader \<Rightarrow> byte list
     \<Rightarrow> py_error + 'm line_result list \<times> line_reader" where
  "feed parser r chunk =
     (if reader_finished r
      then Inl (RuntimeError ''cannot feed a finished protocol line reader'')
      else Inr (feed_loop parser r chunk))"

definition finish_reader :: "line_reader \<Rightarrow> 'm line_result list \<times> line_reader" where
  "finish_reader r =
     (if reader_finished r then ([], r)
      else
        let r1 = r\<lparr>reader_finished := True\<rparr> in
        if discarding_oversized_line r1 then ([], r1\<lparr>discarding_oversized_line := False\<rparr>)
        else if line_buffer r1 = [] then ([], r1)
        else ([Inl (failure InvalidFraming)], r1\<lparr>line_buffer := []\<rparr>))"

definition DEFAULT_MAX_LINE_BYTES :: nat where "DEFAULT_MAX_LINE_BYTES = MAX_PROTOCOL_LINE_BYTES"

text \<open>\<open>CommandLineReader\<close> and \<open>EventLineReader\<close>: the reader with the two parsers.\<close>

definition command_reader_feed ::
  "nat \<Rightarrow> line_reader \<Rightarrow> byte list \<Rightarrow> py_error + command line_result list \<times> line_reader" where
  "command_reader_feed depth = feed (parse_command_line depth)"

definition event_reader_feed ::
  "nat \<Rightarrow> line_reader \<Rightarrow> byte list \<Rightarrow> py_error + event line_result list \<times> line_reader" where
  "event_reader_feed depth = feed (parse_event_line depth)"

subsection \<open>Consumers that do not see chunk boundaries\<close>

locale incremental =
  fixes consume :: "'s \<Rightarrow> 'b list \<Rightarrow> 'r list \<times> 's"
  assumes consume_Nil: "consume s [] = ([], s)"
    and consume_append: "consume s (a @ b) =
      (let (rs, s') = consume s a; (rs', s'') = consume s' b in (rs @ rs', s''))"
begin

fun consume_all :: "'s \<Rightarrow> 'b list list \<Rightarrow> 'r list \<times> 's" where
  "consume_all s [] = ([], s)"
| "consume_all s (c # cs) =
     (let (rs, s') = consume s c; (rs', s'') = consume_all s' cs in (rs @ rs', s''))"

lemma consume_all_concat: "consume_all s cs = consume s (concat cs)"
  by (induction cs arbitrary: s) (simp_all add: consume_Nil consume_append split_beta)

lemma consume_all_rechunk: "concat cs = concat ds \<Longrightarrow> consume_all s cs = consume_all s ds"
  by (simp add: consume_all_concat)

end

lemma feed_loop_Nil [simp]: "feed_loop parser r [] = ([], r)"
  by (simp add: feed_loop.simps)

text \<open>One turn of the loop: on the bytes up to an LF, and on a rest without LF.\<close>

lemma segment_lf:
  assumes "10 \<notin> set seg"
  shows "takeWhile (\<lambda>b. b \<noteq> (10::nat)) (seg @ 10 # rest) = seg"
    and "dropWhile (\<lambda>b. b \<noteq> (10::nat)) (seg @ 10 # rest) = 10 # rest"
  using assms by (induction seg) auto

lemma segment_tail:
  assumes "10 \<notin> set seg"
  shows "takeWhile (\<lambda>b. b \<noteq> (10::nat)) seg = seg"
    and "dropWhile (\<lambda>b. b \<noteq> (10::nat)) seg = []"
  using assms by (induction seg) auto

lemma feed_loop_line:
  assumes "10 \<notin> set seg"
  shows "feed_loop parser r (seg @ 10 # rest) =
    (if discarding_oversized_line r
     then feed_loop parser (r\<lparr>discarding_oversized_line := False\<rparr>) rest
     else if max_line_bytes r < length (line_buffer r) + length seg then
       (let (rs, r') = feed_loop parser (r\<lparr>line_buffer := []\<rparr>) rest in
        (Inl (failure LineTooLong) # rs, r'))
     else
       (let (rs, r') = feed_loop parser (r\<lparr>line_buffer := []\<rparr>) rest in
        (parser (line_buffer r @ seg) # rs, r')))"
  by (subst feed_loop.simps) (simp add: segment_lf [OF assms] Let_def)

lemma feed_loop_tail:
  assumes "10 \<notin> set seg" "seg \<noteq> []"
  shows "feed_loop parser r seg =
    (if discarding_oversized_line r then ([], r)
     else if max_line_bytes r < length (line_buffer r) + length seg
     then ([Inl (failure LineTooLong)], r\<lparr>line_buffer := [], discarding_oversized_line := True\<rparr>)
     else ([], r\<lparr>line_buffer := line_buffer r @ seg\<rparr>))"
  using assms(2) by (subst feed_loop.simps) (simp add: segment_tail [OF assms(1)] Let_def)

lemma split_at_lf:
  obtains (tail) "10 \<notin> set (a :: byte list)"
  | (line) seg rest where "a = seg @ 10 # rest" "10 \<notin> set seg"
  using split_list_first [of 10 a] by blast

lemma reset_buffer_discard:
  "\<not> discarding_oversized_line r \<Longrightarrow>
     r\<lparr>line_buffer := [], discarding_oversized_line := False\<rparr> = r\<lparr>line_buffer := []\<rparr>"
  by (cases r) simp

lemma feed_loop_append_tail:
  assumes "10 \<notin> set a"
  shows "feed_loop parser r (a @ b) =
    (let (rs, r') = feed_loop parser r a; (rs', r'') = feed_loop parser r' b in (rs @ rs', r''))"
proof (cases "a = [] \<or> b = []")
  case True
  then show ?thesis by (auto split: prod.splits)
next
  case False
  note a = feed_loop_tail [OF assms, of parser r]
  show ?thesis
  proof (cases b rule: split_at_lf)
    case tail
    with assms have "10 \<notin> set (a @ b)" by simp
    from feed_loop_tail [OF this, of parser r] feed_loop_tail [OF tail, of parser] a False
    show ?thesis by (simp add: add.assoc)
  next
    case (line seg rest)
    with assms have "10 \<notin> set (a @ seg)" by simp
    from feed_loop_line [OF this, of parser r rest] feed_loop_line [OF line(2), of parser _ rest] a False
    show ?thesis by (simp add: line(1) add.assoc split_beta Let_def reset_buffer_discard)
  qed
qed

lemma feed_loop_append:
  "feed_loop parser r (a @ b) =
    (let (rs, r') = feed_loop parser r a; (rs', r'') = feed_loop parser r' b in (rs @ rs', r''))"
proof (induction "length a" arbitrary: a r rule: less_induct)
  case less
  show ?case
  proof (cases a rule: split_at_lf)
    case tail
    then show ?thesis by (rule feed_loop_append_tail)
  next
    case (line seg rest)
    then have ih: "\<And>q. feed_loop parser q (rest @ b) = (let (rs, r') = feed_loop parser q rest;
        (rs', r'') = feed_loop parser r' b in (rs @ rs', r''))"
      by (intro less.hyps) simp
    show ?thesis
      using feed_loop_line [OF line(2), of parser r "rest @ b"] feed_loop_line [OF line(2), of parser r rest]
      by (simp add: line(1) ih split_beta Let_def)
  qed
qed

interpretation reader: incremental "feed_loop parser" for parser
  by unfold_locales (simp_all add: feed_loop_append)

subsection \<open>The specification: split the whole stream\<close>

definition classify_line ::
  "(byte list \<Rightarrow> 'm line_result) \<Rightarrow> nat \<Rightarrow> byte list \<Rightarrow> 'm line_result" where
  "classify_line parser m line =
     (if m < length line then Inl (failure LineTooLong) else parser line)"

definition classify_tail :: "nat \<Rightarrow> byte list \<Rightarrow> 'm line_result list" where
  "classify_tail m rest =
     (if rest = [] then []
      else if m < length rest then [Inl (failure LineTooLong)] else [Inl (failure InvalidFraming)])"

definition frame_stream ::
  "(byte list \<Rightarrow> 'm line_result) \<Rightarrow> nat \<Rightarrow> byte list \<Rightarrow> 'm line_result list" where
  "frame_stream parser m bytes =
     (let pieces = py_split 10 bytes in
      map (classify_line parser m) (butlast pieces) @ classify_tail m (last pieces))"

lemma frame_stream_line:
  "10 \<notin> set seg \<Longrightarrow>
     frame_stream parser m (seg @ 10 # rest) = classify_line parser m seg # frame_stream parser m rest"
  by (simp add: frame_stream_def py_split_append_delim Let_def)

lemma frame_stream_tail: "10 \<notin> set seg \<Longrightarrow> frame_stream parser m seg = classify_tail m seg"
  by (simp add: frame_stream_def py_split_no_delim)

text \<open>A reader between lines: nothing buffered, nothing being discarded.\<close>

definition idle_reader :: "nat \<Rightarrow> line_reader" where
  "idle_reader m =
     \<lparr>max_line_bytes = m, line_buffer = [], discarding_oversized_line = False, reader_finished = False\<rparr>"

lemma new_line_reader_Inr: "new_line_reader n = Inr r \<longleftrightarrow> 0 < n \<and> r = idle_reader (nat n)"
  by (auto simp: new_line_reader_def idle_reader_def)

lemma read_stream_frames:
  "(let (rs, r) = feed_loop parser (idle_reader m) bytes; (rs', r') = finish_reader r in rs @ rs')
     = frame_stream parser m bytes"
proof (induction "length bytes" arbitrary: bytes rule: less_induct)
  case less
  show ?case
  proof (cases bytes rule: split_at_lf)
    case tail
    then show ?thesis
      using feed_loop_tail [OF tail, of parser "idle_reader m"]
      by (cases "bytes = []")
        (simp_all add: frame_stream_tail classify_tail_def idle_reader_def finish_reader_def Let_def)
  next
    case (line seg rest)
    have b: "idle_reader m\<lparr>line_buffer := []\<rparr> = idle_reader m" by (simp add: idle_reader_def)
    have i: "line_buffer (idle_reader m) = []" "\<not> discarding_oversized_line (idle_reader m)"
      "max_line_bytes (idle_reader m) = m" by (simp_all add: idle_reader_def)
    from line less.hyps [of rest] show ?thesis
      by (simp add: feed_loop_line frame_stream_line i b classify_line_def split_beta Let_def)
  qed
qed

subsection \<open>The buffer bound\<close>

definition reader_ok :: "line_reader \<Rightarrow> bool" where
  "reader_ok r \<longleftrightarrow>
     length (line_buffer r) \<le> max_line_bytes r \<and> 10 \<notin> set (line_buffer r) \<and>
     (discarding_oversized_line r \<longrightarrow> line_buffer r = [])"

lemma feed_loop_ok:
  "reader_ok r \<Longrightarrow> reader_ok (snd (feed_loop parser r a)) \<and>
     max_line_bytes (snd (feed_loop parser r a)) = max_line_bytes r"
proof (induction "length a" arbitrary: a r rule: less_induct)
  case less
  show ?case
  proof (cases a rule: split_at_lf)
    case tail
    then show ?thesis
      using less.prems by (cases "a = []") (auto simp: feed_loop_tail reader_ok_def)
  next
    case (line seg rest)
    have "reader_ok (r\<lparr>line_buffer := []\<rparr>)" "reader_ok (r\<lparr>discarding_oversized_line := False\<rparr>)"
      using less.prems by (auto simp: reader_ok_def)
    from less.hyps [of rest, OF _ this(1)] less.hyps [of rest, OF _ this(2)] line show ?thesis
      by (simp add: feed_loop_line split_beta Let_def)
  qed
qed

subsection \<open>Properties\<close>

text \<open>Feeding a reader a list of chunks and then finishing it.\<close>

definition read_chunks ::
  "(byte list \<Rightarrow> 'm line_result) \<Rightarrow> line_reader \<Rightarrow> byte list list \<Rightarrow> 'm line_result list" where
  "read_chunks parser r chunks =
     (let (rs, r') = reader.consume_all parser r chunks; (rs', r'') = finish_reader r' in rs @ rs')"

text \<open>C11: However a byte stream is cut into chunks, a fresh reader returns the results of the
  specification that splits the whole stream at LF: each line within the limit is parsed once and
  in order, each longer line gives exactly one line-too-long failure and does not disturb the
  next line, and an unterminated rest gives one failure.\<close>

theorem reader_frames_stream:
  assumes "new_line_reader n = Inr r"
  shows "read_chunks parser r chunks = frame_stream parser (nat n) (concat chunks)"
  using assms read_stream_frames [of parser "nat n" "concat chunks"]
  by (simp add: read_chunks_def new_line_reader_Inr reader.consume_all_concat)

theorem reader_frames_stream_witness:
  "read_chunks (parse_command_line 2) (idle_reader 4) [[1, 2], [3, 4, 5, 10, 7], [7, 7, 10, 9]] =
     [Inl (failure LineTooLong), parse_command_line 2 [7, 7, 7], Inl (failure InvalidFraming)]"
proof -
  have "new_line_reader 4 = Inr (idle_reader 4)" by (simp add: new_line_reader_Inr)
  from reader_frames_stream [OF this, of "parse_command_line 2" "[[1, 2], [3, 4, 5, 10, 7], [7, 7, 10, 9]]"]
  show ?thesis by (simp add: frame_stream_def classify_line_def classify_tail_def)
qed

text \<open>A reader never buffers more than its limit and never buffers an LF, after any feeds.\<close>

theorem reader_buffer_bounded:
  assumes "new_line_reader n = Inr r"
  shows "length (line_buffer (snd (reader.consume_all parser r chunks))) \<le> nat n
    \<and> 10 \<notin> set (line_buffer (snd (reader.consume_all parser r chunks)))"
proof -
  have "reader_ok r" "max_line_bytes r = nat n"
    using assms by (auto simp: new_line_reader_Inr idle_reader_def reader_ok_def)
  with feed_loop_ok [of r parser "concat chunks"] show ?thesis
    by (auto simp: reader.consume_all_concat reader_ok_def)
qed

theorem reader_buffer_bounded_witness:
  "length (line_buffer (snd (reader.consume_all (parse_command_line 2) (idle_reader 3) [[1, 2], [3], [4]]))) \<le> 3"
proof -
  have "new_line_reader 3 = Inr (idle_reader 3)" by (simp add: new_line_reader_Inr)
  from reader_buffer_bounded [OF this, of "parse_command_line 2" "[[1, 2], [3], [4]]"]
  show ?thesis by simp
qed

end
