(* ===== verification/Event_Writer.thy ===== *)
theory Event_Writer
  imports Codec
begin

section \<open>The ordered event writer (protocol/streams.py, OrderedEventWriter)\<close>

text \<open>
  The writer holds one lock from sequence selection to the settled sink call, so every emission
  is one atomic step on \<open>event_writer\<close>. The step's environment gives what the code does not
  decide: the timestamp the factory returns, the sink's outcome (\<open>None\<close> when it wrote the whole
  line, \<open>Some e\<close> when it raised \<open>e\<close> and, by its contract, wrote nothing) and whether the caller
  was cancelled while the sink ran. \<open>published\<close> records the lines the sink wrote and
  \<open>published_events\<close> the events they encode. The lemmas: an
  emission either publishes exactly one encoded event and advances its session by one, or changes
  nothing; the published tape of any run numbers every session 1, 2, 3, ... .
\<close>

record event_writer =
  session_sequences :: "ustr \<Rightarrow> int option"
  published :: "byte list list"
  published_events :: "event list"

record write_env =
  env_timestamp :: ustr
  env_sink :: "py_error option"
  env_cancelled :: bool

definition new_event_writer :: event_writer where
  "new_event_writer = \<lparr>session_sequences = Map.empty, published = [], published_events = []\<rparr>"

text \<open>
  \<open>_write_line\<close>: the sink settles even when the caller is cancelled, a written line is
  committed, and only then does the cancellation propagate.
\<close>

definition write_line ::
  "write_env \<Rightarrow> byte list \<Rightarrow> (event_writer \<Rightarrow> event_writer) \<Rightarrow> event_writer
     \<Rightarrow> (py_error + unit) \<times> event_writer" where
  "write_line env line commit w =
     (case env_sink env of
        Some e \<Rightarrow> (Inl e, w)
      | None \<Rightarrow>
          let w' = commit (w\<lparr>published := published w @ [line]\<rparr>) in
          (if env_cancelled env then Inl CancelledError else Inr (), w'))"

definition publish_event ::
  "write_env \<Rightarrow> document \<Rightarrow> (event_writer \<Rightarrow> event_writer) \<Rightarrow> event_writer
     \<Rightarrow> (py_error + event) \<times> event_writer" where
  "publish_event env event_data commit w =
     (case validate_event event_data of
        Inl e \<Rightarrow> (Inl e, w)
      | Inr ev \<Rightarrow>
          (case encode_event ev of
             Inl e \<Rightarrow> (Inl e, w)
           | Inr line \<Rightarrow>
               (case write_line env line
                       (\<lambda>w. commit (w\<lparr>published_events := published_events w @ [ev]\<rparr>)) w of
                  (Inl e, w') \<Rightarrow> (Inl e, w')
                | (Inr _, w') \<Rightarrow> (Inr ev, w'))))"

definition emit_runtime ::
  "write_env \<Rightarrow> ustr \<Rightarrow> document \<Rightarrow> ustr option \<Rightarrow> event_writer \<Rightarrow> (py_error + event) \<times> event_writer" where
  "emit_runtime env event_type payload correlation_id w =
     publish_event env
       ([(lit ''protocol_version'', JInt 1), (lit ''type'', JStr event_type),
         (lit ''timestamp'', JStr (env_timestamp env)), (lit ''payload'', JObj payload)] @
        correlation_entry correlation_id)
       (\<lambda>w. w) w"

definition next_sequence :: "event_writer \<Rightarrow> ustr \<Rightarrow> int" where
  "next_sequence w sid = (case session_sequences w sid of None \<Rightarrow> 0 | Some n \<Rightarrow> n) + 1"

definition session_event_data ::
  "write_env \<Rightarrow> ustr \<Rightarrow> ustr \<Rightarrow> int \<Rightarrow> document \<Rightarrow> ustr option \<Rightarrow> document" where
  "session_event_data env event_type sid seq payload correlation_id =
     [(lit ''protocol_version'', JInt 1), (lit ''type'', JStr event_type),
      (lit ''session_id'', JStr sid), (lit ''sequence'', JInt seq),
      (lit ''timestamp'', JStr (env_timestamp env)), (lit ''payload'', JObj payload)] @
     correlation_entry correlation_id"

definition commit_sequence :: "ustr \<Rightarrow> int \<Rightarrow> event_writer \<Rightarrow> event_writer" where
  "commit_sequence sid seq w = w\<lparr>session_sequences := (session_sequences w)(sid \<mapsto> seq)\<rparr>"

definition emit_session ::
  "write_env \<Rightarrow> ustr \<Rightarrow> ustr \<Rightarrow> document \<Rightarrow> ustr option \<Rightarrow> event_writer
     \<Rightarrow> (py_error + event) \<times> event_writer" where
  "emit_session env event_type sid payload correlation_id w =
     (let seq = next_sequence w sid in
      if MAX_SAFE_SEQUENCE < seq
      then (Inl (OverflowError ''session sequence exceeds the protocol maximum''), w)
      else publish_event env (session_event_data env event_type sid seq payload correlation_id)
             (commit_sequence sid seq) w)"

datatype emit_request =
    EmitRuntime ustr document "ustr option"
  | EmitSession ustr ustr document "ustr option"

fun emit :: "write_env \<Rightarrow> emit_request \<Rightarrow> event_writer \<Rightarrow> (py_error + event) \<times> event_writer" where
  "emit env (EmitRuntime t p c) w = emit_runtime env t p c w"
| "emit env (EmitSession t sid p c) w = emit_session env t sid p c w"

subsection \<open>What validation of the event data yields\<close>

lemma validate_event_Inr:
  "validate_event doc = Inr e \<Longrightarrow>
     \<exists>t. map_of doc (lit ''type'') = Some (JStr t) \<and> event_model_validate t doc = Some (Inr e)"
  by (auto simp: validate_event_def validate_union_def split: option.splits json.splits sum.splits)

lemma validate_event_ok: "validate_event doc = Inr e \<Longrightarrow> event_ok e"
  using validate_event_Inr event_model_sound by blast

definition tape_key :: "event \<Rightarrow> (ustr \<times> int) option" where
  "tape_key e = (case e of RuntimeEv _ \<Rightarrow> None | SessionEv x \<Rightarrow> Some (event_session x, event_sequence x))"

lemma base_of_built_session:
  "session_event_base_of (build_session_event n doc) =
     \<lparr>se_session_id = get_text doc ''session_id'', se_sequence = get_int doc ''sequence'',
      se_timestamp = get_text doc ''timestamp'', se_correlation = get_correlation doc\<rparr>"
  by (simp add: build_session_event_def Let_def)

lemma runtime_model_forbids:
  assumes "model_errors (runtime_event_model n p) doc = []"
  shows "lit ''session_id'' \<notin> fst ` set doc"
proof
  assume "lit ''session_id'' \<in> fst ` set doc"
  then obtain v where "(lit ''session_id'', v) \<in> set doc" by auto
  moreover have "lit ''session_id'' \<notin> set (map (lit \<circ> fst) (runtime_event_model n p))"
    by (simp add: runtime_event_model_def version_field_def del: lit_simps)
  ultimately have "extra_errors (runtime_event_model n p) doc \<noteq> []"
    by (auto simp: extra_errors_def filter_empty_conv)
  with assms show False by (simp add: model_errors_Nil_iff)
qed

lemma validate_session_data:
  assumes "validate_event (session_event_data env t sid seq payload c) = Inr e"
  shows "tape_key e = Some (sid, seq)"
proof -
  let ?doc = "session_event_data env t sid seq payload c"
  obtain t' where v: "event_model_validate t' ?doc = Some (Inr e)"
    using validate_event_Inr [OF assms] by blast
  have sid: "lit ''session_id'' \<in> fst ` set ?doc"
    by (simp add: session_event_data_def del: lit_simps)
  have k: "get_text ?doc ''session_id'' = sid" "get_int ?doc ''sequence'' = seq"
    by (simp_all add: session_event_data_def get_text_def get_int_def del: lit_simps)
  show ?thesis
  proof (cases "find_model runtime_payloads t'")
    case (Some np)
    obtain n p where np: "np = (n, p)" by (cases np)
    with v Some have "model_errors (runtime_event_model n p) ?doc = []"
      by (auto simp: event_model_validate_def Let_def split: if_splits)
    from runtime_model_forbids [OF this] sid show ?thesis by blast
  next
    case None
    with v obtain n p where "e = SessionEv (build_session_event n ?doc)"
      by (auto simp: event_model_validate_def Let_def split: option.splits if_splits)
    then show ?thesis by (simp add: tape_key_def base_of_built_session k)
  qed
qed

lemma runtime_data_key:
  assumes "validate_event
    ([(lit ''protocol_version'', JInt 1), (lit ''type'', JStr t), (lit ''timestamp'', JStr ts),
      (lit ''payload'', JObj payload)] @ correlation_entry c) = Inr e"
  shows "tape_key e = None"
proof -
  let ?doc = "[(lit ''protocol_version'', JInt 1), (lit ''type'', JStr t), (lit ''timestamp'', JStr ts),
      (lit ''payload'', JObj payload)] @ correlation_entry c"
  obtain t' where v: "event_model_validate t' ?doc = Some (Inr e)"
    using validate_event_Inr [OF assms] by blast
  have sid: "map_of ?doc (lit ''session_id'') = None"
    by (cases c) (simp_all add: correlation_entry_def del: lit_simps)
  have no: "model_errors (session_event_model n p) ?doc \<noteq> []" for n p
    using sid by (simp add: model_errors_def session_event_model_def field_errors_def del: lit_simps)
  then show ?thesis
    using v by (auto simp: event_model_validate_def Let_def tape_key_def split: option.splits if_splits)
qed

subsection \<open>One emission\<close>

text \<open>
  Every emission fails and changes nothing, or writes one encoded valid event; then its result
  is the event, or the propagated cancellation.
\<close>

definition wrote :: "event_writer \<Rightarrow> event_writer \<Rightarrow> event \<Rightarrow> bool" where
  "wrote w w' e \<longleftrightarrow>
     event_ok e \<and>
     (\<exists>line. encode_event e = Inr line \<and> published w' = published w @ [line]) \<and>
     published_events w' = published_events w @ [e] \<and>
     (case tape_key e of
        None \<Rightarrow> session_sequences w' = session_sequences w
      | Some (sid, n) \<Rightarrow>
          n = next_sequence w sid \<and> session_sequences w' = (session_sequences w)(sid \<mapsto> n))"

lemma publish_event_cases:
  assumes "publish_event env doc commit w = (res, w')"
  obtains (failed) x where "res = Inl x" "w' = w"
  | (written) e line where "validate_event doc = Inr e" "encode_event e = Inr line"
    "w' = commit (w\<lparr>published := published w @ [line], published_events := published_events w @ [e]\<rparr>)"
    "res = (if env_cancelled env then Inl CancelledError else Inr e)" "env_sink env = None"
proof (cases "validate_event doc")
  case (Inl x)
  with assms failed [of x] show thesis by (simp add: publish_event_def)
next
  case (Inr e)
  show thesis
  proof (cases "encode_event e")
    case (Inl x)
    with Inr assms failed [of x] show thesis by (simp add: publish_event_def)
  next
    case enc: (Inr line)
    show thesis
    proof (cases "env_sink env")
      case None
      with Inr enc assms written [OF Inr enc] show thesis
        by (auto simp: publish_event_def write_line_def Let_def split: if_splits)
    next
      case (Some x)
      with Inr enc assms failed [of x] show thesis by (simp add: publish_event_def write_line_def)
    qed
  qed
qed

lemma emit_cases:
  assumes "emit env req w = (res, w')"
  obtains (failed) x where "res = Inl x" "w' = w"
  | (written) e where "wrote w w' e" "env_sink env = None"
    "res = (if env_cancelled env then Inl CancelledError else Inr e)"
proof (cases req)
  case (EmitRuntime t p c)
  with assms have "publish_event env
       ([(lit ''protocol_version'', JInt 1), (lit ''type'', JStr t),
         (lit ''timestamp'', JStr (env_timestamp env)), (lit ''payload'', JObj p)] @
        correlation_entry c) (\<lambda>w. w) w = (res, w')" by (simp add: emit_runtime_def del: lit_simps)
  then show ?thesis
  proof (cases rule: publish_event_cases)
    case (written e line)
    then have "wrote w w' e"
      using runtime_data_key [OF written(1)] validate_event_ok [OF written(1)] by (simp add: wrote_def)
    with written show ?thesis using that(2) by blast
  qed (use that in blast)
next
  case (EmitSession t sid p c)
  show ?thesis
  proof (cases "MAX_SAFE_SEQUENCE < next_sequence w sid")
    case True
    with assms EmitSession show ?thesis
      by (intro that(1) [of "OverflowError ''session sequence exceeds the protocol maximum''"])
        (simp_all add: emit_session_def Let_def)
  next
    case False
    with assms EmitSession have "publish_event env
        (session_event_data env t sid (next_sequence w sid) p c) (commit_sequence sid (next_sequence w sid)) w
      = (res, w')" by (simp add: emit_session_def Let_def)
    then show ?thesis
    proof (cases rule: publish_event_cases)
      case (written e line)
      then have "wrote w w' e"
        using validate_session_data [OF written(1)] validate_event_ok [OF written(1)]
        by (simp add: wrote_def commit_sequence_def)
      with written show ?thesis using that(2) by blast
    qed (use that in blast)
  qed
qed

subsection \<open>The event a successful session emission returns\<close>

definition emitted_base :: "write_env \<Rightarrow> ustr \<Rightarrow> ustr option \<Rightarrow> event_writer \<Rightarrow> session_event_base" where
  "emitted_base env sid c w =
     \<lparr>se_session_id = sid, se_sequence = next_sequence w sid, se_timestamp = env_timestamp env,
      se_correlation = c\<rparr>"

lemma session_data_fields:
  "get_text (session_event_data env t sid q p c) ''session_id'' = sid"
  "get_int (session_event_data env t sid q p c) ''sequence'' = q"
  "get_text (session_event_data env t sid q p c) ''timestamp'' = env_timestamp env"
  "get_correlation (session_event_data env t sid q p c) = c"
  "get_object (session_event_data env t sid q p c) ''payload'' = p"
  "map_of (session_event_data env t sid q p c) (lit ''type'') = Some (JStr t)"
  by (cases c; simp add: session_event_data_def get_text_def get_int_def get_correlation_def
      get_object_def correlation_entry_def del: lit_simps)+

lemma emit_session_Inr:
  assumes "emit_session env (lit n) sid p c w = (Inr ev, w')"
    and "find (\<lambda>(name, _). name = n) runtime_payloads = None"
    and "find (\<lambda>(name, _). name = n) session_payloads = Some (n, ps)"
  shows "ev = SessionEv (build_session_event n
      (session_event_data env (lit n) sid (next_sequence w sid) p c)) \<and> wrote w w' ev"
proof -
  let ?doc = "session_event_data env (lit n) sid (next_sequence w sid) p c"
  have "emit env (EmitSession (lit n) sid p c) w = (Inr ev, w')" using assms(1) by simp
  then have w: "wrote w w' ev" by (cases rule: emit_cases) (auto split: if_splits)
  have "publish_event env ?doc (commit_sequence sid (next_sequence w sid)) w = (Inr ev, w')"
    using assms(1) by (auto simp: emit_session_def Let_def split: if_splits)
  then have "validate_event ?doc = Inr ev"
    by (cases rule: publish_event_cases) (auto split: if_splits)
  then have "event_model_validate (lit n) ?doc = Some (Inr ev)"
    using validate_event_Inr [of ?doc ev] by (auto simp: session_data_fields(6) simp del: lit_simps)
  then have "ev = SessionEv (build_session_event n ?doc)"
    using assms(2,3) by (auto simp: event_model_validate_def find_model_lit Let_def split: if_splits)
  with w show ?thesis by simp
qed

lemma emit_started:
  "emit_session env (lit ''session.started'') sid [] c w = (Inr ev, w') \<Longrightarrow>
     ev = SessionEv (SessionStartedEvent (emitted_base env sid c w)) \<and> wrote w w' ev"
  by (drule emit_session_Inr)
    (auto simp: session_payloads_def runtime_payloads_def build_session_event_def
      session_data_fields emitted_base_def Let_def simp del: lit_simps)

lemma emit_delta:
  "emit_session env (lit ''assistant.delta'') sid [(lit ''text'', JStr t)] c w = (Inr ev, w') \<Longrightarrow>
     ev = SessionEv (AssistantDeltaEvent (emitted_base env sid c w) t) \<and> wrote w w' ev"
  by (drule emit_session_Inr)
    (auto simp: session_payloads_def runtime_payloads_def build_session_event_def get_text_def [of "[_]"]
      session_data_fields emitted_base_def Let_def simp del: lit_simps)

lemma emit_assistant_completed:
  "emit_session env (lit ''assistant.completed'') sid [(lit ''text'', JStr t)] c w = (Inr ev, w') \<Longrightarrow>
     ev = SessionEv (AssistantCompletedEvent (emitted_base env sid c w) t) \<and> wrote w w' ev"
  by (drule emit_session_Inr)
    (auto simp: session_payloads_def runtime_payloads_def build_session_event_def get_text_def [of "[_]"]
      session_data_fields emitted_base_def Let_def simp del: lit_simps)

lemma emit_session_completed:
  "emit_session env (lit ''session.completed'') sid [] c w = (Inr ev, w') \<Longrightarrow>
     ev = SessionEv (SessionCompletedEvent (emitted_base env sid c w)) \<and> wrote w w' ev"
  by (drule emit_session_Inr)
    (auto simp: session_payloads_def runtime_payloads_def build_session_event_def
      session_data_fields emitted_base_def Let_def simp del: lit_simps)

lemma emit_session_cancelled:
  "emit_session env (lit ''session.cancelled'') sid [] c w = (Inr ev, w') \<Longrightarrow>
     ev = SessionEv (SessionCancelledEvent (emitted_base env sid c w)) \<and> wrote w w' ev"
  by (drule emit_session_Inr)
    (auto simp: session_payloads_def runtime_payloads_def build_session_event_def
      session_data_fields emitted_base_def Let_def simp del: lit_simps)

lemma emit_session_failed:
  "emit_session env (lit ''session.failed'') sid [(lit ''code'', JStr k), (lit ''message'', JStr m)] c w
       = (Inr ev, w') \<Longrightarrow>
     ev = SessionEv (SessionFailedEvent (emitted_base env sid c w) k m) \<and> wrote w w' ev"
  by (drule emit_session_Inr)
    (auto simp: session_payloads_def runtime_payloads_def build_session_event_def get_text_def [of "[_, _]"]
      session_data_fields emitted_base_def Let_def simp del: lit_simps)

lemmas emitted_events =
  emit_started emit_delta emit_assistant_completed emit_session_completed emit_session_cancelled
  emit_session_failed

lemma emit_session_Inl:
  assumes "emit_session env t sid p c w = (Inl x, w')" "\<not> env_cancelled env"
  shows "w' = w"
proof -
  have "emit env (EmitSession t sid p c) w = (Inl x, w')" using assms(1) by simp
  then show ?thesis using assms(2) by (cases rule: emit_cases) auto
qed

lemma emit_session_effect:
  assumes "emit_session env t sid p c w = (res, w')"
  shows "w' = w \<or> (\<exists>e. wrote w w' (SessionEv e) \<and> event_session e = sid)"
proof (cases "MAX_SAFE_SEQUENCE < next_sequence w sid")
  case True
  with assms show ?thesis by (simp add: emit_session_def Let_def)
next
  case False
  let ?doc = "session_event_data env t sid (next_sequence w sid) p c"
  have p: "publish_event env ?doc (commit_sequence sid (next_sequence w sid)) w = (res, w')"
    using assms False by (simp add: emit_session_def Let_def)
  have "emit env (EmitSession t sid p c) w = (res, w')" using assms by simp
  then have e: "w' = w \<or> (\<exists>e. wrote w w' e)" by (cases rule: emit_cases) auto
  from p show ?thesis
  proof (cases rule: publish_event_cases)
    case (written e line)
    have k: "tape_key e = Some (sid, next_sequence w sid)" using written(1) by (rule validate_session_data)
    then obtain x where x: "e = SessionEv x" "event_session x = sid"
      by (cases e) (auto simp: tape_key_def)
    have "published_events w' = published_events w @ [e]" using written(3) by (simp add: commit_sequence_def)
    with e have "wrote w w' e" by (auto simp: wrote_def)
    with x show ?thesis by blast
  qed simp
qed

lemma emit_runtime_effect:
  "emit_runtime env t p c w = (res, w') \<Longrightarrow>
     w' = w \<or> (\<exists>e. wrote w w' (RuntimeEv e))"
proof -
  assume a: "emit_runtime env t p c w = (res, w')"
  then have "emit env (EmitRuntime t p c) w = (res, w')" by simp
  then show ?thesis
  proof (cases rule: emit_cases)
    case (written e)
    from a have "publish_event env
       ([(lit ''protocol_version'', JInt 1), (lit ''type'', JStr t),
         (lit ''timestamp'', JStr (env_timestamp env)), (lit ''payload'', JObj p)] @
        correlation_entry c) (\<lambda>w. w) w = (res, w')" by (simp add: emit_runtime_def del: lit_simps)
    then show ?thesis
    proof (cases rule: publish_event_cases)
      case (written e' line)
      from runtime_data_key [OF written(1)] obtain r where "e' = RuntimeEv r"
        by (cases e') (auto simp: tape_key_def)
      with written runtime_data_key [OF written(1)] validate_event_ok [OF written(1)] show ?thesis
        by (auto simp: wrote_def)
    qed simp
  qed simp
qed

subsection \<open>A run of emissions\<close>

text \<open>
  What a producer relies on: an abstract tape of published entries, each with the stream it
  belongs to and its number; a step that publishes nothing leaves the state alone, and a step
  that publishes numbers its entry next in its stream. Then every stream is numbered 1, 2, ... .
\<close>

locale ordered_tape =
  fixes step :: "'req \<Rightarrow> 's \<Rightarrow> 's"
    and tape :: "'s \<Rightarrow> 'e list"
    and key :: "'e \<Rightarrow> ('k \<times> int) option"
    and counter :: "'s \<Rightarrow> 'k \<Rightarrow> int"
  assumes step_cases: "step r s = s \<or> (\<exists>e. tape (step r s) = tape s @ [e] \<and>
      (case key e of None \<Rightarrow> counter (step r s) = counter s
       | Some (k, n) \<Rightarrow> n = counter s k + 1 \<and> counter (step r s) = (counter s)(k := n)))"
begin

definition numbers :: "'k \<Rightarrow> 'e list \<Rightarrow> int list" where
  "numbers k es = concat (map (\<lambda>e. case key e of Some (k', n) \<Rightarrow> if k' = k then [n] else [] | None \<Rightarrow> []) es)"

definition numbered :: "'s \<Rightarrow> bool" where
  "numbered s \<longleftrightarrow> (\<forall>k. counter s k = int (length (numbers k (tape s))) \<and>
     numbers k (tape s) = map int [1..<Suc (length (numbers k (tape s)))])"

lemma numbers_snoc:
  "numbers k (es @ [e]) =
     numbers k es @ (case key e of Some (k', n) \<Rightarrow> if k' = k then [n] else [] | None \<Rightarrow> [])"
  by (simp add: numbers_def)

lemma numbered_snoc:
  assumes "numbered s" "tape s' = tape s @ [e]"
    and "case key e of None \<Rightarrow> counter s' = counter s
      | Some (k, n) \<Rightarrow> n = counter s k + 1 \<and> counter s' = (counter s)(k := n)"
  shows "numbered s'"
  unfolding numbered_def
proof
  fix k
  have k: "counter s k = int (length (numbers k (tape s)))"
    "numbers k (tape s) = map int [1..<Suc (length (numbers k (tape s)))]"
    using assms(1) by (auto simp: numbered_def)
  show "counter s' k = int (length (numbers k (tape s'))) \<and>
     numbers k (tape s') = map int [1..<Suc (length (numbers k (tape s')))]"
  proof (cases "\<exists>n. key e = Some (k, n)")
    case True
    then obtain n where "key e = Some (k, n)" by blast
    with assms(2,3) have t: "numbers k (tape s') = numbers k (tape s) @ [counter s k + 1]"
      and c: "counter s' k = counter s k + 1" by (simp_all add: numbers_snoc)
    define m where "m = length (numbers k (tape s))"
    have "numbers k (tape s') = map int [1..<Suc m] @ [int m + 1]"
      using k t by (simp add: m_def)
    also have "\<dots> = map int [1..<Suc (Suc m)]" by simp
    finally have "numbers k (tape s') = map int [1..<Suc (Suc m)]" .
    moreover have "length (numbers k (tape s')) = Suc m" using t by (simp add: m_def)
    moreover have "counter s' k = int (Suc m)" using c k(1) by (simp add: m_def)
    ultimately show ?thesis by simp
  next
    case False
    with assms(2,3) have "numbers k (tape s') = numbers k (tape s)" "counter s' k = counter s k"
      by (auto simp: numbers_snoc split: option.splits)
    with k show ?thesis by simp
  qed
qed

lemma step_numbered: "numbered s \<Longrightarrow> numbered (step r s)"
proof (cases "step r s = s")
  case False
  assume n: "numbered s"
  from False step_cases [of r s] obtain e where "tape (step r s) = tape s @ [e]"
    "case key e of None \<Rightarrow> counter (step r s) = counter s
     | Some (k, n) \<Rightarrow> n = counter s k + 1 \<and> counter (step r s) = (counter s)(k := n)"
    by blast
  with n show ?thesis by (rule numbered_snoc)
qed simp

lemma steps_numbered: "numbered s \<Longrightarrow> numbered (fold step rs s)"
  by (induction rs arbitrary: s) (simp_all add: step_numbered)

end

definition sequence_counter :: "event_writer \<Rightarrow> ustr \<Rightarrow> int" where
  "sequence_counter w sid = (case session_sequences w sid of None \<Rightarrow> 0 | Some n \<Rightarrow> n)"

lemma sequence_counter_upd:
  "session_sequences w' = (session_sequences w)(sid \<mapsto> n) \<Longrightarrow>
     sequence_counter w' = (sequence_counter w)(sid := n)"
  by (rule ext) (simp add: sequence_counter_def)

lemma emit_effect:
  "snd (emit env req w) = w \<or> (\<exists>e. wrote w (snd (emit env req w)) e)"
  by (cases "emit env req w" rule: prod.exhaust) (auto elim!: emit_cases)

lemma emit_step_cases:
  "snd (emit env req w) = w \<or> (\<exists>e. published_events (snd (emit env req w)) = published_events w @ [e] \<and>
      (case tape_key e of None \<Rightarrow> sequence_counter (snd (emit env req w)) = sequence_counter w
       | Some (k, n) \<Rightarrow> n = sequence_counter w k + 1 \<and>
           sequence_counter (snd (emit env req w)) = (sequence_counter w)(k := n)))"
proof (cases "snd (emit env req w) = w")
  case False
  then obtain e where e: "wrote w (snd (emit env req w)) e" using emit_effect [of env req w] by blast
  show ?thesis
  proof (intro disjI2 exI conjI)
    show "published_events (snd (emit env req w)) = published_events w @ [e]"
      using e by (simp add: wrote_def)
    show "case tape_key e of None \<Rightarrow> sequence_counter (snd (emit env req w)) = sequence_counter w
       | Some (k, n) \<Rightarrow> n = sequence_counter w k + 1 \<and>
           sequence_counter (snd (emit env req w)) = (sequence_counter w)(k := n)"
    proof (cases "tape_key e")
      case None
      with e have "session_sequences (snd (emit env req w)) = session_sequences w"
        by (simp add: wrote_def)
      then have "sequence_counter (snd (emit env req w)) = sequence_counter w"
        by (simp add: sequence_counter_def fun_eq_iff)
      with None show ?thesis by simp
    next
      case (Some kn)
      obtain k n where "kn = (k, n)" by (cases kn)
      with e Some sequence_counter_upd [of "snd (emit env req w)" w k n] show ?thesis
        by (simp add: wrote_def next_sequence_def sequence_counter_def)
    qed
  qed
qed simp

interpretation tape: ordered_tape "\<lambda>(env, req) w. snd (emit env req w)" published_events tape_key
    sequence_counter
  by unfold_locales (use emit_step_cases in auto)

definition run_emits :: "(write_env \<times> emit_request) list \<Rightarrow> event_writer \<Rightarrow> event_writer" where
  "run_emits = fold (\<lambda>(env, req) w. snd (emit env req w))"

lemma run_emits_encodes:
  "list_all2 (\<lambda>e line. event_ok e \<and> encode_event e = Inr line) (published_events w) (published w) \<Longrightarrow>
     list_all2 (\<lambda>e line. event_ok e \<and> encode_event e = Inr line)
       (published_events (run_emits rs w)) (published (run_emits rs w))"
proof (induction rs arbitrary: w)
  case Nil
  then show ?case by (simp add: run_emits_def)
next
  case (Cons r rs)
  obtain env req where r: "r = (env, req)" by (cases r)
  let ?w = "snd (emit env req w)"
  have "list_all2 (\<lambda>e line. event_ok e \<and> encode_event e = Inr line) (published_events ?w) (published ?w)"
    using emit_effect [of env req w] Cons.prems
    by (auto simp: wrote_def list_all2_appendI)
  from Cons.IH [OF this] show ?case by (simp add: run_emits_def r)
qed

subsection \<open>Properties\<close>

definition sequences_of :: "ustr \<Rightarrow> event list \<Rightarrow> int list" where
  "sequences_of sid es =
     concat (map (\<lambda>e. case e of SessionEv x \<Rightarrow> if event_session x = sid then [event_sequence x] else []
                      | RuntimeEv _ \<Rightarrow> []) es)"

lemma numbers_sequences: "tape.numbers sid es = sequences_of sid es"
  unfolding tape.numbers_def sequences_of_def tape_key_def
  by (induction es) (simp_all split: event.splits)

text \<open>C12: Whatever emissions run, in any order, for any sessions, with any validation failures, sink
  failures and cancellations among them, the lines the sink received are the encodings of valid
  events and each session's events are numbered 1, 2, 3, ... without gap or repetition; the
  writer's counter is that number.\<close>

theorem published_sequences_contiguous:
  "list_all2 (\<lambda>e line. event_ok e \<and> encode_event e = Inr line)
     (published_events (run_emits rs new_event_writer)) (published (run_emits rs new_event_writer))
   \<and> sequences_of sid (published_events (run_emits rs new_event_writer)) =
       map int [1..<Suc (length (sequences_of sid (published_events (run_emits rs new_event_writer))))]
   \<and> next_sequence (run_emits rs new_event_writer) sid =
       int (length (sequences_of sid (published_events (run_emits rs new_event_writer)))) + 1"
proof -
  have "tape.numbered new_event_writer"
    by (simp add: tape.numbered_def tape.numbers_def new_event_writer_def sequence_counter_def)
  then have "tape.numbered (run_emits rs new_event_writer)"
    unfolding run_emits_def by (rule tape.steps_numbered)
  then have "sequence_counter (run_emits rs new_event_writer) sid =
        int (length (sequences_of sid (published_events (run_emits rs new_event_writer))))"
    "sequences_of sid (published_events (run_emits rs new_event_writer)) =
       map int [1..<Suc (length (sequences_of sid (published_events (run_emits rs new_event_writer))))]"
    unfolding tape.numbered_def numbers_sequences by blast+
  moreover have "list_all2 (\<lambda>e line. event_ok e \<and> encode_event e = Inr line)
     (published_events (run_emits rs new_event_writer)) (published (run_emits rs new_event_writer))"
    by (rule run_emits_encodes) (simp add: new_event_writer_def)
  ultimately show ?thesis by (simp add: next_sequence_def sequence_counter_def)
qed

text \<open>An emission that raises changed nothing, except that a cancellation arriving while the sink
  was writing propagates only after the line was written and its sequence committed.\<close>

theorem failed_emission_changes_nothing:
  assumes "emit env req w = (Inl x, w')"
  shows "w' = w \<or> (env_cancelled env \<and> env_sink env = None \<and> x = CancelledError \<and>
    (\<exists>e. wrote w w' e))"
  using assms by (auto elim!: emit_cases split: if_splits)

definition example_env :: write_env where
  "example_env = \<lparr>env_timestamp = lit ''2026-01-01T00:00:00.000Z'', env_sink = Some OSError,
                  env_cancelled = False\<rparr>"

theorem failed_emission_changes_nothing_witness:
  "snd (emit example_env (EmitRuntime (lit ''runtime.unknown'') [] None) new_event_writer) = new_event_writer"
proof -
  have "find_model runtime_payloads (lit ''runtime.unknown'') = None"
    "find_model session_payloads (lit ''runtime.unknown'') = None"
    by (simp_all add: find_model_lit runtime_payloads_def session_payloads_def del: lit_simps)
  then have "emit example_env (EmitRuntime (lit ''runtime.unknown'') [] None) new_event_writer =
      (Inl (ValueError ''validation error''), new_event_writer)"
    by (simp add: emit_runtime_def publish_event_def validate_event_def validate_union_def
        event_model_validate_def del: lit_simps)
  from failed_emission_changes_nothing [OF this] this show ?thesis
    by (simp add: example_env_def del: lit_simps)
qed

end
