(* ===== verification/State_Action.thy ===== *)
theory State_Action
  imports Prelude
begin

section \<open>Stateful actions that may raise\<close>

text \<open>
  A method of a stateful Python object: from the state to the exception it raises or the value
  it returns, together with the state it leaves, which after an exception keeps what was changed
  before it. \<open>establishes P m Q E\<close> is the corresponding triple: from a state in \<open>P\<close> the action
  returns into \<open>Q\<close> or raises into \<open>E\<close>; the rules in \<open>action_rules\<close> follow the program
  text, so that a triple over a method is proved statement by statement. The exception type is
  a parameter of \<open>effect\<close>: a component with an error class of its own uses its codes.
\<close>

type_synonym ('e, 's, 'a) effect = "'s \<Rightarrow> ('e + 'a) \<times> 's"

type_synonym ('s, 'a) action = "(py_error, 's, 'a) effect"

definition ret :: "'a \<Rightarrow> ('e, 's, 'a) effect" where "ret x = (\<lambda>s. (Inr x, s))"

definition raise :: "'e \<Rightarrow> ('e, 's, 'a) effect" where "raise e = (\<lambda>s. (Inl e, s))"

definition seq :: "('e, 's, 'a) effect \<Rightarrow> ('a \<Rightarrow> ('e, 's, 'b) effect) \<Rightarrow> ('e, 's, 'b) effect" where
  "seq m k = (\<lambda>s. case m s of (Inl e, s') \<Rightarrow> (Inl e, s') | (Inr x, s') \<Rightarrow> k x s')"

definition next_do :: "('e, 's, unit) effect \<Rightarrow> ('e, 's, 'b) effect \<Rightarrow> ('e, 's, 'b) effect" where
  "next_do m k = seq m (\<lambda>_. k)"

definition update :: "('s \<Rightarrow> 's) \<Rightarrow> ('e, 's, unit) effect" where "update f = (\<lambda>s. (Inr (), f s))"

definition ask :: "('s \<Rightarrow> ('e, 's, 'b) effect) \<Rightarrow> ('e, 's, 'b) effect" where "ask k = (\<lambda>s. k s s)"

definition lift_result :: "'e + 'a \<Rightarrow> ('e, 's, 'a) effect" where
  "lift_result r = (\<lambda>s. (r, s))"

text \<open>
  \<open>attempt m\<close> is a \<open>try\<close> that stores the outcome for later; \<open>rethrow f m\<close> is an
  \<open>except ... raise ... from None\<close> that renames the exception.
\<close>

definition attempt :: "('e, 's, 'a) effect \<Rightarrow> ('e2, 's, 'e + 'a) effect" where
  "attempt m = (\<lambda>s. case m s of (r, s') \<Rightarrow> (Inr r, s'))"

definition rethrow :: "('e \<Rightarrow> 'e2) \<Rightarrow> ('e, 's, 'a) effect \<Rightarrow> ('e2, 's, 'a) effect" where
  "rethrow f m = (\<lambda>s. case m s of (Inl e, s') \<Rightarrow> (Inl (f e), s') | (Inr x, s') \<Rightarrow> (Inr x, s'))"

definition establishes ::
  "('s \<Rightarrow> bool) \<Rightarrow> ('e, 's, 'a) effect \<Rightarrow> ('a \<Rightarrow> 's \<Rightarrow> bool) \<Rightarrow> ('e \<Rightarrow> 's \<Rightarrow> bool) \<Rightarrow> bool" where
  "establishes P m Q E \<longleftrightarrow>
     (\<forall>s. P s \<longrightarrow> (case m s of (Inr x, s') \<Rightarrow> Q x s' | (Inl e, s') \<Rightarrow> E e s'))"

named_theorems action_rules \<open>triples of the action combinators\<close>

lemma establishes_ret [action_rules]: "(\<And>s. P s \<Longrightarrow> Q x s) \<Longrightarrow> establishes P (ret x) Q E"
  by (simp add: establishes_def ret_def)

lemma establishes_raise [action_rules]: "(\<And>s. P s \<Longrightarrow> E e s) \<Longrightarrow> establishes P (raise e) Q E"
  by (simp add: establishes_def raise_def)

lemma establishes_update [action_rules]:
  "(\<And>s. P s \<Longrightarrow> Q () (f s)) \<Longrightarrow> establishes P (update f) Q E"
  by (simp add: establishes_def update_def)

lemma establishes_lift [action_rules]:
  "(\<And>s x. P s \<Longrightarrow> r = Inr x \<Longrightarrow> Q x s) \<Longrightarrow> (\<And>s e. P s \<Longrightarrow> r = Inl e \<Longrightarrow> E e s) \<Longrightarrow>
     establishes P (lift_result r) Q E"
  by (auto simp: establishes_def lift_result_def split: sum.splits)

lemma establishes_seq:
  assumes "establishes P m R E" "\<And>x. establishes (R x) (k x) Q E"
  shows "establishes P (seq m k) Q E"
  unfolding establishes_def
proof (intro allI impI)
  fix s
  assume "P s"
  with assms(1) have m: "case m s of (Inr x, s') \<Rightarrow> R x s' | (Inl e, s') \<Rightarrow> E e s'"
    by (simp add: establishes_def)
  obtain r s' where r: "m s = (r, s')" by (cases "m s")
  show "case seq m k s of (Inr x, s') \<Rightarrow> Q x s' | (Inl e, s') \<Rightarrow> E e s'"
  proof (cases r)
    case (Inl e)
    with m r show ?thesis by (simp add: seq_def)
  next
    case (Inr x)
    with m r assms(2) [of x] show ?thesis by (simp add: seq_def establishes_def)
  qed
qed

lemma establishes_next:
  "establishes P m (\<lambda>_. R) E \<Longrightarrow> establishes R k Q E \<Longrightarrow> establishes P (next_do m k) Q E"
  unfolding next_do_def by (rule establishes_seq)

lemma establishes_ask:
  "(\<And>t. establishes (\<lambda>s. P s \<and> s = t) (k t) Q E) \<Longrightarrow> establishes P (ask k) Q E"
  by (simp add: establishes_def ask_def)

lemma establishes_attempt:
  "establishes P m (\<lambda>x. Q (Inr x)) (\<lambda>e. Q (Inl e)) \<Longrightarrow> establishes P (attempt m) Q E"
  unfolding establishes_def
proof (intro allI impI)
  fix s
  assume m: "\<forall>s. P s \<longrightarrow> (case m s of (Inr x, s') \<Rightarrow> Q (Inr x) s' | (Inl e, s') \<Rightarrow> Q (Inl e) s')"
    and "P s"
  obtain r t where r: "m s = (r, t)" by (cases "m s")
  with m \<open>P s\<close> show "case attempt m s of (Inr x, s') \<Rightarrow> Q x s' | (Inl e, s') \<Rightarrow> E e s'"
    by (cases r) (auto simp: attempt_def)
qed

lemma establishes_rethrow:
  "establishes P m Q (\<lambda>e. E (f e)) \<Longrightarrow> establishes P (rethrow f m) Q E"
  unfolding establishes_def
proof (intro allI impI)
  fix s
  assume m: "\<forall>s. P s \<longrightarrow> (case m s of (Inr x, s') \<Rightarrow> Q x s' | (Inl e, s') \<Rightarrow> E (f e) s')" and "P s"
  obtain r t where r: "m s = (r, t)" by (cases "m s")
  with m \<open>P s\<close> show "case rethrow f m s of (Inr x, s') \<Rightarrow> Q x s' | (Inl e, s') \<Rightarrow> E e s'"
    by (cases r) (auto simp: rethrow_def)
qed

lemma establishes_if:
  "(b \<Longrightarrow> establishes P m Q E) \<Longrightarrow> (\<not> b \<Longrightarrow> establishes P m' Q E) \<Longrightarrow>
     establishes P (if b then m else m') Q E"
  by simp

lemma establishes_weaken:
  "establishes P m Q E \<Longrightarrow> (\<And>s. P' s \<Longrightarrow> P s) \<Longrightarrow> (\<And>x s. Q x s \<Longrightarrow> Q' x s) \<Longrightarrow>
     (\<And>e s. E e s \<Longrightarrow> E' e s) \<Longrightarrow> establishes P' m Q' E'"
  by (fastforce simp: establishes_def split: prod.splits sum.splits)

lemma establishesD:
  "establishes P m Q E \<Longrightarrow> P s \<Longrightarrow> m s = (Inr x, s') \<Longrightarrow> Q x s'"
  "establishes P m Q E \<Longrightarrow> P s \<Longrightarrow> m s = (Inl e, s') \<Longrightarrow> E e s'"
  by (auto simp: establishes_def)

text \<open>Evaluation of an action on a given state.\<close>

lemma action_simps [simp]:
  "ret x s = (Inr x, s)"
  "raise e s = (Inl e, s)"
  "update f s = (Inr (), f s)"
  "lift_result r s = (r, s)"
  "ask k s = k s s"
  by (simp_all add: ret_def raise_def update_def lift_result_def ask_def)

lemma seq_simps:
  "seq m k s = (case m s of (Inl e, s') \<Rightarrow> (Inl e, s') | (Inr x, s') \<Rightarrow> k x s')"
  "next_do n k' s' = (case n s' of (Inl e, t) \<Rightarrow> (Inl e, t) | (Inr _, t) \<Rightarrow> k' t)"
  by (simp_all add: seq_def next_do_def)

lemma seq_Inr_iff:
  "seq m k s = (Inr y, t) \<longleftrightarrow> (\<exists>x u. m s = (Inr x, u) \<and> k x u = (Inr y, t))"
  by (cases "m s"; cases "fst (m s)") (auto simp: seq_def)

lemma next_do_Inr_iff:
  "next_do m k s = (Inr y, t) \<longleftrightarrow> (\<exists>x u. m s = (Inr x, u) \<and> k u = (Inr y, t))"
  by (simp add: next_do_def seq_Inr_iff)

lemma attempt_Inr_iff [simp]: "attempt m s = (Inr r, t) \<longleftrightarrow> m s = (r, t)"
  by (simp add: attempt_def split: prod.splits)

lemma attempt_not_Inl [simp]: "attempt m s \<noteq> (Inl e, t)"
  by (simp add: attempt_def split: prod.splits)

text \<open>
  \<open>moves R m\<close>: whatever the action does, and also when it raises, the state it leaves is related
  by \<open>R\<close> to the state it found. For a preorder \<open>R\<close> this follows from the updates alone.
\<close>

definition moves :: "('s \<Rightarrow> 's \<Rightarrow> bool) \<Rightarrow> ('e, 's, 'a) effect \<Rightarrow> bool" where
  "moves R m \<longleftrightarrow> (\<forall>s. R s (snd (m s)))"

lemma movesD: "moves R m \<Longrightarrow> m s = (r, s') \<Longrightarrow> R s s'"
  unfolding moves_def by (metis snd_conv)

lemma moves_mono: "moves R m \<Longrightarrow> (\<And>s t. R s t \<Longrightarrow> R' s t) \<Longrightarrow> moves R' m"
  by (simp add: moves_def)

text \<open>\<open>gives m Q\<close>: whatever the state, a value the action returns satisfies \<open>Q\<close>.\<close>

definition gives :: "('e, 's, 'a) effect \<Rightarrow> ('a \<Rightarrow> bool) \<Rightarrow> bool" where
  "gives m Q \<longleftrightarrow> (\<forall>s x s'. m s = (Inr x, s') \<longrightarrow> Q x)"

lemma givesD: "gives m Q \<Longrightarrow> m s = (Inr x, s') \<Longrightarrow> Q x"
  by (auto simp: gives_def)

lemma gives_seq: "gives m P \<Longrightarrow> (\<And>x. P x \<Longrightarrow> gives (k x) Q) \<Longrightarrow> gives (seq m k) Q"
  unfolding gives_def seq_Inr_iff by blast

lemma gives_next: "gives k Q \<Longrightarrow> gives (next_do m k) Q"
  unfolding gives_def next_do_Inr_iff by blast

lemma gives_ret: "Q x \<Longrightarrow> gives (ret x) Q"
  by (simp add: gives_def)

lemma gives_raise: "gives (raise e) Q"
  by (simp add: gives_def)

lemma gives_lift: "(\<And>x. r = Inr x \<Longrightarrow> Q x) \<Longrightarrow> gives (lift_result r) Q"
  by (simp add: gives_def)

lemma gives_True: "gives m (\<lambda>_. True)"
  by (simp add: gives_def)

lemma gives_rethrow:
  assumes "gives m Q"
  shows "gives (rethrow f m) Q"
  unfolding gives_def
proof (intro allI impI)
  fix s x s'
  assume r: "rethrow f m s = (Inr x, s')"
  obtain q t where q: "m s = (q, t)" by (cases "m s")
  with r have "m s = (Inr x, s')" by (cases q) (simp_all add: rethrow_def)
  with assms show "Q x" by (rule givesD)
qed

locale action_order =
  fixes R :: "'s \<Rightarrow> 's \<Rightarrow> bool"
  assumes order_refl: "R s s"
    and order_trans: "R s t \<Longrightarrow> R t u \<Longrightarrow> R s u"
begin

lemma moves_pure: "moves R (ret x)" "moves R (raise e)" "moves R (lift_result r)"
  by (simp_all add: moves_def order_refl)

lemma moves_update: "(\<And>s. R s (f s)) \<Longrightarrow> moves R (update f)"
  by (simp add: moves_def)

lemma moves_ask: "(\<And>t. moves R (k t)) \<Longrightarrow> moves R (ask k)"
  by (simp add: moves_def)

lemma moves_seq:
  assumes "moves R m" "\<And>x. moves R (k x)"
  shows "moves R (seq m k)"
  unfolding moves_def
proof
  fix s
  obtain r s' where m: "m s = (r, s')" by (cases "m s")
  have "R s s'" using assms(1) m by (rule movesD)
  then show "R s (snd (seq m k s))"
    using m assms(2) order_trans by (cases r) (auto simp: seq_simps moves_def)
qed

lemma moves_seq_with:
  assumes "moves R m" "gives m Q" "\<And>x. Q x \<Longrightarrow> moves R (k x)"
  shows "moves R (seq m k)"
  unfolding moves_def
proof
  fix s
  obtain r s' where m: "m s = (r, s')" by (cases "m s")
  have first: "R s s'" using assms(1) m by (rule movesD)
  show "R s (snd (seq m k s))"
  proof (cases r)
    case (Inl e)
    with m first show ?thesis by (simp add: seq_simps)
  next
    case (Inr x)
    with m assms(2) have "Q x" by (simp add: givesD)
    then have "moves R (k x)" by (rule assms(3))
    with Inr m first order_trans show ?thesis by (auto simp: seq_simps moves_def)
  qed
qed

lemma moves_next: "moves R m \<Longrightarrow> moves R n \<Longrightarrow> moves R (next_do m n)"
  unfolding next_do_def by (rule moves_seq)

lemma moves_if: "moves R m \<Longrightarrow> moves R n \<Longrightarrow> moves R (if b then m else n)"
  by simp

lemma moves_option: "moves R m \<Longrightarrow> (\<And>x. moves R (f x)) \<Longrightarrow> moves R (case y of None \<Rightarrow> m | Some x \<Rightarrow> f x)"
  by (cases y) simp_all

lemma moves_sum: "(\<And>x. moves R (f x)) \<Longrightarrow> (\<And>x. moves R (g x)) \<Longrightarrow> moves R (case y of Inl x \<Rightarrow> f x | Inr x \<Rightarrow> g x)"
  by (cases y) simp_all

lemma moves_pair: "(\<And>a b. moves R (f a b)) \<Longrightarrow> moves R (case y of (a, b) \<Rightarrow> f a b)"
  by (cases y) simp

lemma moves_attempt: "moves R m \<Longrightarrow> moves R (attempt m)"
  unfolding moves_def attempt_def
  by (metis (no_types, lifting) case_prod_beta snd_conv)

lemma moves_rethrow:
  assumes "moves R m"
  shows "moves R (rethrow f m)"
  unfolding moves_def
proof
  fix s
  obtain r s' where m: "m s = (r, s')" by (cases "m s")
  have "R s s'" using assms m by (rule movesD)
  then show "R s (snd (rethrow f m s))" using m by (cases r) (simp_all add: rethrow_def)
qed

lemmas move_rules = moves_attempt moves_rethrow moves_pure moves_update moves_ask moves_seq moves_next moves_if moves_option
  moves_sum moves_pair

end

end
