(* ===== verification/Provider_Session.thy ===== *)
theory Provider_Session
  imports Session_State Loop_Limits Provider_Models Event_Writer State_Action
begin

section \<open>One provider-backed session (provider_session.py)\<close>

text \<open>
  \<open>provider_session\<close> is the session object's state. Every operation of the code that holds the
  decision lock is one action on it; the step relation \<open>ps_step\<close> interleaves those transactions
  with the deadline watcher, the finalizer, the session's own \<open>run\<close> and other producers of the
  shared writer. What the code does not decide is the environment of a transaction
  (\<open>tx_env\<close>): the outcome of each deadline reading, whether the watcher latched during an
  await, the sink, the observers, the provider's start and cleanup. \<open>ps_updates\<close>,
  \<open>ps_limits_evidence\<close> and \<open>ps_usage_evidence\<close> record what the observers were given.
\<close>

definition MAX_PROVIDER_TURN_OUTPUT_BYTES :: int where "MAX_PROVIDER_TURN_OUTPUT_BYTES = 8192"

subsection \<open>Outcomes\<close>

datatype outcome_kind = CompletedO | FailedO | CancelledO | TeardownO

datatype cleanup_mode = WaitClosedMode | CancelMode

record selected_outcome =
  so_kind :: outcome_kind
  so_cleanup_mode :: cleanup_mode
  so_failure :: "(ustr \<times> ustr) option"
  so_correlation :: "ustr option"

record ps_config =
  pc_session_id :: ustr
  pc_command_id :: ustr
  pc_task :: ustr
  pc_limits :: loop_limits

definition failed_outcome :: "ps_config \<Rightarrow> cleanup_mode \<Rightarrow> ustr \<Rightarrow> ustr \<Rightarrow> selected_outcome" where
  "failed_outcome cfg mode c m =
     \<lparr>so_kind = FailedO, so_cleanup_mode = mode, so_failure = Some (c, m),
      so_correlation = Some (pc_command_id cfg)\<rparr>"

definition PROVIDER_INVALID_RESPONSE_CODE :: ustr where
  "PROVIDER_INVALID_RESPONSE_CODE = lit ''provider_invalid_response''"
definition TOOL_UNAVAILABLE_CODE :: ustr where
  "TOOL_UNAVAILABLE_CODE = lit ''tool_unavailable''"
definition PROVIDER_CLEANUP_FAILED_CODE :: ustr where
  "PROVIDER_CLEANUP_FAILED_CODE = lit ''provider_cleanup_failed''"

definition invalid_response_outcome :: "ps_config \<Rightarrow> selected_outcome" where
  "invalid_response_outcome cfg =
     failed_outcome cfg CancelMode PROVIDER_INVALID_RESPONSE_CODE
       (lit ''The provider returned an invalid response.'')"

definition model_turn_outcome :: "ps_config \<Rightarrow> selected_outcome" where
  "model_turn_outcome cfg =
     failed_outcome cfg CancelMode MODEL_TURN_LIMIT_EXCEEDED_CODE
       (lit ''The model-turn limit was reached.'')"

definition deadline_outcome :: "ps_config \<Rightarrow> selected_outcome" where
  "deadline_outcome cfg =
     failed_outcome cfg CancelMode PROVIDER_WORK_DEADLINE_EXCEEDED_CODE
       (lit ''Provider work exceeded its time limit.'')"

definition output_limit_outcome :: "ps_config \<Rightarrow> selected_outcome" where
  "output_limit_outcome cfg =
     failed_outcome cfg CancelMode ASSISTANT_OUTPUT_LIMIT_EXCEEDED_CODE
       (lit ''Assistant output exceeded its byte limit.'')"

definition tool_limit_outcome :: "ps_config \<Rightarrow> selected_outcome" where
  "tool_limit_outcome cfg =
     failed_outcome cfg CancelMode TOOL_CALL_LIMIT_EXCEEDED_CODE
       (lit ''The provider tool-call limit was reached.'')"

definition tool_unavailable_outcome :: "ps_config \<Rightarrow> selected_outcome" where
  "tool_unavailable_outcome cfg =
     failed_outcome cfg CancelMode TOOL_UNAVAILABLE_CODE
       (lit ''Provider-requested tools are not available.'')"

definition completed_outcome :: "ps_config \<Rightarrow> selected_outcome" where
  "completed_outcome cfg =
     \<lparr>so_kind = CompletedO, so_cleanup_mode = WaitClosedMode, so_failure = None,
      so_correlation = Some (pc_command_id cfg)\<rparr>"

definition provider_failed_outcome :: "ps_config \<Rightarrow> provider_failure \<Rightarrow> selected_outcome" where
  "provider_failed_outcome cfg f =
     failed_outcome cfg WaitClosedMode (lit ''provider_'' @ lit (failure_code_name (pf_code f)))
       (pf_message f)"

definition cancelled_outcome :: "ustr \<Rightarrow> selected_outcome" where
  "cancelled_outcome cmd =
     \<lparr>so_kind = CancelledO, so_cleanup_mode = CancelMode, so_failure = None,
      so_correlation = Some cmd\<rparr>"

definition teardown_outcome :: selected_outcome where
  "teardown_outcome =
     \<lparr>so_kind = TeardownO, so_cleanup_mode = CancelMode, so_failure = None, so_correlation = None\<rparr>"

subsection \<open>The session object\<close>

datatype run_phase = NotRun | Publishing | StartingOperation | Consuming | Joining | Aborting

datatype final_phase = NoFinalizer | FinalPending | FinalCleaned bool | FinalTerminal | FinalDone

record provider_session =
  ps_writer :: event_writer
  ps_lifecycle :: session_state
  ps_updates :: "session_update list"
  ps_deferred :: "session_update option"
  ps_start_settled :: bool
  ps_started_ok :: bool
  ps_run :: run_phase
  ps_lifecycle_attached :: bool
  ps_usage_attached :: bool
  ps_limits_attached :: bool
  ps_operation :: bool
  ps_events :: bool
  ps_cleanup :: "cleanup_mode option"
  ps_selection :: "selected_outcome option"
  ps_final :: final_phase
  ps_latched :: bool
  ps_terminal_emitted :: bool
  ps_cleanup_reported :: bool
  ps_limits_observed :: bool
  ps_limits_evidence :: "loop_limits_observed option"
  ps_pending_failed :: bool
  ps_tracker :: loop_limit_tracker
  ps_accepted_text :: "ustr list"
  ps_accepted_bytes :: int
  ps_completed_text :: "ustr option"
  ps_usage_observed :: bool
  ps_usage_evidence :: "model_usage_observed list"

datatype start_result = StartRaises | EventsRaise | StartReturns

record tx_env =
  te_due :: "nat \<Rightarrow> bool"
  te_latches :: bool
  te_write :: "nat \<Rightarrow> write_env"
  te_observer :: "nat \<Rightarrow> py_error option"
  te_start :: start_result
  te_cleanup_failed :: bool
  te_reap_failed :: bool

text \<open>The constructor, with the tracker the runner passes it.\<close>

definition new_provider_session :: "ps_config \<Rightarrow> event_writer \<Rightarrow> provider_session" where
  "new_provider_session cfg w =
     \<lparr>ps_writer = w,
      ps_lifecycle = reduced_state (reduce_session_state INITIAL_SESSION_STATE
        (TaskSubmitted (pc_command_id cfg) (pc_task cfg))),
      ps_updates = [TaskSubmitted (pc_command_id cfg) (pc_task cfg)],
      ps_deferred = None, ps_start_settled = False, ps_started_ok = False, ps_run = NotRun,
      ps_lifecycle_attached = False, ps_usage_attached = False, ps_limits_attached = False,
      ps_operation = False, ps_events = False, ps_cleanup = None, ps_selection = None,
      ps_final = NoFinalizer, ps_latched = False, ps_terminal_emitted = False,
      ps_cleanup_reported = False, ps_limits_observed = False, ps_limits_evidence = None,
      ps_pending_failed = False, ps_tracker = fresh_tracker (pc_limits cfg),
      ps_accepted_text = [], ps_accepted_bytes = 0, ps_completed_text = None,
      ps_usage_observed = False, ps_usage_evidence = []\<rparr>"

text \<open>The checks of the constructor, and the session it builds around the given tracker.\<close>

definition ProviderSession ::
  "ps_config \<Rightarrow> loop_limit_tracker \<Rightarrow> event_writer \<Rightarrow> py_error + provider_session" where
  "ProviderSession cfg tracker w =
     (if lt_limits tracker \<noteq> pc_limits cfg
      then Inl (ValueError ''provider session tracker limits do not match configuration'')
      else if lt_exhausted tracker \<noteq> None
      then Inl (ValueError ''provider session tracker must not be pre-exhausted'')
      else if \<not> reduction_ok (reduce_session_state INITIAL_SESSION_STATE
             (TaskSubmitted (pc_command_id cfg) (pc_task cfg)))
      then Inl (RuntimeError ''session lifecycle invariant failed'')
      else Inr ((new_provider_session cfg w)\<lparr>ps_tracker := tracker\<rparr>))"

text \<open>\<open>ProviderSessionRunner\<close>: one fresh identity and one fresh tracker per accepted task.\<close>

record session_runner =
  pr_limits :: loop_limits
  pr_session_count :: nat

definition runner_session_id :: "nat \<Rightarrow> ustr" where
  "runner_session_id n = lit ''ses_provider_'' @ dec_nat n"

definition create_session ::
  "session_runner \<Rightarrow> ustr \<Rightarrow> ustr \<Rightarrow> event_writer \<Rightarrow>
     (py_error + ps_config \<times> provider_session) \<times> session_runner" where
  "create_session runner cmd t w =
     (let runner' = runner\<lparr>pr_session_count := pr_session_count runner + 1\<rparr>;
          cfg = \<lparr>pc_session_id = runner_session_id (pr_session_count runner'), pc_command_id = cmd,
                 pc_task = t, pc_limits = pr_limits runner\<rparr> in
      (map_sum id (Pair cfg) (ProviderSession cfg (fresh_tracker (pr_limits runner)) w), runner'))"

type_synonym 'a ps_action = "(provider_session, 'a) action"

subsection \<open>Selection and the deadline\<close>

definition ensure_provider_cleanup :: "cleanup_mode \<Rightarrow> unit ps_action" where
  "ensure_provider_cleanup mode =
     ask (\<lambda>s.
       if \<not> ps_operation s then ret ()
       else case ps_cleanup s of
              Some m \<Rightarrow>
                if m \<noteq> mode then raise (RuntimeError ''provider cleanup mode changed after cleanup started'')
                else ret ()
            | None \<Rightarrow> update (\<lambda>s. s\<lparr>ps_cleanup := Some mode\<rparr>))"

definition latch_provider_deadline :: "unit ps_action" where
  "latch_provider_deadline =
     next_do (update (\<lambda>s. if ps_latched s then s
       else s\<lparr>ps_latched := True, ps_tracker := mark_provider_work_exhausted (ps_tracker s)\<rparr>))
     (ensure_provider_cleanup CancelMode)"

definition select_locked :: "selected_outcome \<Rightarrow> unit ps_action" where
  "select_locked sel =
     update (\<lambda>s. if ps_selection s \<noteq> None then s
       else s\<lparr>ps_selection := Some sel, ps_final := FinalPending\<rparr>)"

definition select_deadline :: "ps_config \<Rightarrow> unit ps_action" where
  "select_deadline cfg = next_do latch_provider_deadline (select_locked (deadline_outcome cfg))"

definition select_candidate :: "ps_config \<Rightarrow> bool \<Rightarrow> selected_outcome \<Rightarrow> selected_outcome ps_action" where
  "select_candidate cfg due candidate =
     ask (\<lambda>s. case ps_selection s of
         Some sel \<Rightarrow> ret sel
       | None \<Rightarrow>
           if ps_latched s \<or> due
           then next_do (select_deadline cfg) (ret (deadline_outcome cfg))
           else next_do (select_locked candidate) (ret candidate))"

definition select_deadline_if_due :: "ps_config \<Rightarrow> bool \<Rightarrow> bool ps_action" where
  "select_deadline_if_due cfg due =
     ask (\<lambda>s.
       if ps_selection s \<noteq> None then ret False
       else if \<not> ps_latched s \<and> \<not> due then ret False
       else next_do (select_deadline cfg) (ret True))"

definition select_invalid_response :: "ps_config \<Rightarrow> bool \<Rightarrow> unit ps_action" where
  "select_invalid_response cfg due =
     seq (select_candidate cfg due (invalid_response_outcome cfg)) (\<lambda>_. ret ())"

definition select_provider_deadline :: "ps_config \<Rightarrow> unit ps_action" where
  "select_provider_deadline cfg =
     ask (\<lambda>s. if ps_selection s \<noteq> None then ret () else select_deadline cfg)"

text \<open>The watcher: it latches unless an outcome was selected.\<close>

definition watch_provider_deadline :: "unit ps_action" where
  "watch_provider_deadline =
     ask (\<lambda>s. if ps_selection s \<noteq> None then ret () else latch_provider_deadline)"

text \<open>What the watcher may do while a transaction awaits.\<close>

definition watcher_during :: "bool \<Rightarrow> unit ps_action" where
  "watcher_during latches = (if latches then watch_provider_deadline else ret ())"

subsection \<open>Publication\<close>

definition accept_lifecycle :: "py_error option \<Rightarrow> session_update \<Rightarrow> unit ps_action" where
  "accept_lifecycle observer u =
     ask (\<lambda>s.
       let r = reduce_session_state (ps_lifecycle s) u in
       if \<not> reduction_ok r then raise (RuntimeError ''session lifecycle invariant failed'')
       else next_do
         (update (\<lambda>s. s\<lparr>ps_lifecycle := reduced_state r, ps_updates := ps_updates s @ [u]\<rparr>))
         (case observer of
            Some e \<Rightarrow> if ps_lifecycle_attached s then raise e else ret ()
          | None \<Rightarrow> ret ()))"

text \<open>
  The session's transactions are shielded from cancellation, so the writer's caller is never
  cancelled. A session type never yields a runtime event (\<open>validate_session_data\<close>).
\<close>

definition emit_session_event ::
  "ps_config \<Rightarrow> write_env \<Rightarrow> string \<Rightarrow> document \<Rightarrow> ustr option \<Rightarrow> session_event ps_action" where
  "emit_session_event cfg we event_type payload correlation_id =
     (\<lambda>s. case emit_session (we\<lparr>env_cancelled := False\<rparr>) (lit event_type) (pc_session_id cfg)
                 payload correlation_id (ps_writer s) of
            (Inl e, w) \<Rightarrow> (Inl e, s\<lparr>ps_writer := w\<rparr>)
          | (Inr (SessionEv ev), w) \<Rightarrow> (Inr ev, s\<lparr>ps_writer := w\<rparr>)
          | (Inr (RuntimeEv _), w) \<Rightarrow> (Inl (TypeError ''session event expected''), s\<lparr>ps_writer := w\<rparr>))"

definition emit_and_accept ::
  "ps_config \<Rightarrow> tx_env \<Rightarrow> nat \<Rightarrow> string \<Rightarrow> document \<Rightarrow> ustr option \<Rightarrow> unit ps_action" where
  "emit_and_accept cfg env i event_type payload correlation_id =
     seq (emit_session_event cfg (te_write env i) event_type payload correlation_id)
       (\<lambda>ev. accept_lifecycle (te_observer env i) (Wire ev))"

definition publish_started :: "ps_config \<Rightarrow> tx_env \<Rightarrow> unit ps_action" where
  "publish_started cfg env =
     next_do (emit_and_accept cfg env 0 ''session.started'' [] (Some (pc_command_id cfg)))
     (next_do
       (ask (\<lambda>s. case ps_deferred s of
            None \<Rightarrow> ret ()
          | Some c \<Rightarrow> next_do (accept_lifecycle (te_observer env 1) c)
                       (update (\<lambda>s. s\<lparr>ps_deferred := None\<rparr>))))
       (next_do (update (\<lambda>s. s\<lparr>ps_started_ok := True, ps_start_settled := True\<rparr>))
         (watcher_during (te_latches env))))"

subsection \<open>Starting the provider operation\<close>

definition start_failed :: "ps_config \<Rightarrow> bool \<Rightarrow> unit ps_action" where
  "start_failed cfg due =
     ask (\<lambda>s. if ps_latched s \<or> due then select_deadline cfg
              else select_locked (invalid_response_outcome cfg))"

definition start_provider_operation :: "ps_config \<Rightarrow> tx_env \<Rightarrow> unit ps_action" where
  "start_provider_operation cfg env =
     ask (\<lambda>s.
       if ps_selection s \<noteq> None then ret ()
       else if ps_latched s \<or> te_due env 0 then select_deadline cfg
       else
         let (admitted, t) = admit_model_turn (ps_tracker s) in
         next_do (update (\<lambda>s. s\<lparr>ps_tracker := t\<rparr>))
         (if \<not> admitted then select_locked (model_turn_outcome cfg)
          else case te_start env of
              StartRaises \<Rightarrow> start_failed cfg (te_due env 1)
            | EventsRaise \<Rightarrow> next_do (update (\<lambda>s. s\<lparr>ps_operation := True\<rparr>)) (start_failed cfg (te_due env 1))
            | StartReturns \<Rightarrow>
                next_do (update (\<lambda>s. s\<lparr>ps_operation := True\<rparr>))
                (ask (\<lambda>s. if ps_latched s \<or> te_due env 1 then select_deadline cfg
                          else update (\<lambda>s. s\<lparr>ps_events := True\<rparr>)))))"

subsection \<open>Accepting observations\<close>

definition accept_text_delta :: "ps_config \<Rightarrow> tx_env \<Rightarrow> ustr \<Rightarrow> unit ps_action" where
  "accept_text_delta cfg env t =
     ask (\<lambda>s.
       if ps_completed_text s \<noteq> None \<or> ps_usage_observed s
       then select_invalid_response cfg (te_due env 1)
       else case utf8_encode t of
           None \<Rightarrow> select_invalid_response cfg (te_due env 1)
         | Some encoded \<Rightarrow>
             if ps_latched s \<or> te_due env 1 then select_deadline cfg
             else
               seq (lift_result (reserve_assistant_output (PyInt (int (length encoded))) (ps_tracker s)))
               (\<lambda>(reserved, tr).
                 next_do (update (\<lambda>s. s\<lparr>ps_tracker := tr\<rparr>))
                 (if \<not> reserved then select_locked (output_limit_outcome cfg)
                  else if MAX_PROVIDER_TURN_OUTPUT_BYTES < ps_accepted_bytes s + int (length encoded)
                  then select_invalid_response cfg (te_due env 2)
                  else
                    next_do (emit_and_accept cfg env 0 ''assistant.delta'' [(lit ''text'', JStr t)]
                               (Some (pc_command_id cfg)))
                    (next_do (update (\<lambda>s. s\<lparr>ps_accepted_text := ps_accepted_text s @ [t],
                                 ps_accepted_bytes := ps_accepted_bytes s + int (length encoded)\<rparr>))
                    (next_do (watcher_during (te_latches env))
                      (seq (select_deadline_if_due cfg (te_due env 3)) (\<lambda>_. ret ())))))))"

definition accept_text_completed :: "ps_config \<Rightarrow> tx_env \<Rightarrow> ustr \<Rightarrow> unit ps_action" where
  "accept_text_completed cfg env t =
     ask (\<lambda>s.
       if ps_completed_text s \<noteq> None \<or> ps_usage_observed s \<or> t \<noteq> concat (ps_accepted_text s)
       then select_invalid_response cfg (te_due env 1)
       else update (\<lambda>s. s\<lparr>ps_completed_text := Some t\<rparr>))"

definition accept_usage :: "ps_config \<Rightarrow> tx_env \<Rightarrow> int \<Rightarrow> int \<Rightarrow> unit ps_action" where
  "accept_usage cfg env input_tokens output_tokens =
     ask (\<lambda>s.
       if ps_completed_text s = None \<or> ps_accepted_text s = [] \<or> ps_usage_observed s
       then select_invalid_response cfg (te_due env 1)
       else case ModelUsageObserved (PyStr (pc_session_id cfg)) (PyInt input_tokens) (PyInt output_tokens) of
           Inl _ \<Rightarrow> select_invalid_response cfg (te_due env 1)
         | Inr usage \<Rightarrow>
             next_do
               (if ps_usage_attached s then
                  next_do (update (\<lambda>s. s\<lparr>ps_usage_evidence := ps_usage_evidence s @ [usage]\<rparr>))
                    (case te_observer env 0 of Some e \<Rightarrow> raise e | None \<Rightarrow> ret ())
                else ret ())
             (next_do (update (\<lambda>s. s\<lparr>ps_usage_observed := True\<rparr>))
             (next_do (watcher_during (te_latches env))
               (seq (select_deadline_if_due cfg (te_due env 2)) (\<lambda>_. ret ())))))"

definition accept_tool_call :: "ps_config \<Rightarrow> tx_env \<Rightarrow> unit ps_action" where
  "accept_tool_call cfg env =
     ask (\<lambda>s.
       if ps_latched s \<or> te_due env 1 then select_deadline cfg
       else
         let (in_budget, t) = observe_tool_call (ps_tracker s) in
         next_do (update (\<lambda>s. s\<lparr>ps_tracker := t\<rparr>))
           (select_locked (if in_budget then tool_unavailable_outcome cfg else tool_limit_outcome cfg)))"

definition select_outcome :: "ps_config \<Rightarrow> bool \<Rightarrow> selected_outcome \<Rightarrow> unit ps_action" where
  "select_outcome cfg due candidate = seq (select_candidate cfg due candidate) (\<lambda>_. ret ())"

definition accept_observation :: "ps_config \<Rightarrow> tx_env \<Rightarrow> provider_stream_event \<Rightarrow> unit ps_action" where
  "accept_observation cfg env observation =
     ask (\<lambda>s.
       if ps_selection s \<noteq> None then ret ()
       else seq (select_deadline_if_due cfg (te_due env 0)) (\<lambda>due.
         if due then ret ()
         else case observation of
             ProviderTextDelta t \<Rightarrow> accept_text_delta cfg env t
           | ProviderTextCompleted t \<Rightarrow> accept_text_completed cfg env t
           | ProviderUsageReported i j \<Rightarrow> accept_usage cfg env i j
           | ProviderCompleted \<Rightarrow>
               ask (\<lambda>s. if ps_completed_text s = None \<or> ps_accepted_text s = []
                        then select_invalid_response cfg (te_due env 1)
                        else select_outcome cfg (te_due env 1) (completed_outcome cfg))
           | ProviderFailed f \<Rightarrow> select_outcome cfg (te_due env 1) (provider_failed_outcome cfg f)
           | ProviderToolCallRequested _ _ _ \<Rightarrow> accept_tool_call cfg env))"

subsection \<open>Cancellation and teardown requests\<close>

datatype request_result = RequestAccepted | RequestAlready | RequestTerminal

definition select_user_cancellation :: "ps_config \<Rightarrow> tx_env \<Rightarrow> ustr \<Rightarrow> request_result ps_action" where
  "select_user_cancellation cfg env cmd =
     ask (\<lambda>s. case ps_selection s of
         Some sel \<Rightarrow> ret (if so_kind sel = CancelledO then RequestAlready else RequestTerminal)
       | None \<Rightarrow>
           next_do
             (let cancellation = CancelRequested cmd (pc_session_id cfg) in
              if status (ps_lifecycle s) = Starting
              then update (\<lambda>s. s\<lparr>ps_deferred := Some cancellation\<rparr>)
              else next_do (accept_lifecycle (te_observer env 0) cancellation)
                     (watcher_during (te_latches env)))
           (seq (select_candidate cfg (te_due env 0) (cancelled_outcome cmd))
             (\<lambda>sel. ret (if so_kind sel = CancelledO then RequestAccepted else RequestTerminal))))"

definition select_teardown :: "ps_config \<Rightarrow> tx_env \<Rightarrow> request_result ps_action" where
  "select_teardown cfg env =
     ask (\<lambda>s. case ps_selection s of
         Some sel \<Rightarrow> ret (if so_kind sel = TeardownO then RequestAlready else RequestTerminal)
       | None \<Rightarrow>
           seq (select_candidate cfg (te_due env 0) teardown_outcome)
             (\<lambda>sel. ret (if so_kind sel = TeardownO then RequestAccepted else RequestTerminal)))"

subsection \<open>Finalization\<close>

text \<open>
  \<open>_supervise_provider_cleanup\<close>: a cleanup that finished within the grace failed when it raised;
  one that did not finish is cancelled, forced, and reported as failed. The second component says
  whether \<open>force_cancel_cleanup\<close> was called.
\<close>

definition supervise_provider_cleanup :: "bool \<Rightarrow> bool \<Rightarrow> bool \<times> bool" where
  "supervise_provider_cleanup finished_in_grace raised =
     (if finished_in_grace then (raised, False) else (True, True))"

definition finish_provider_work :: "tx_env \<Rightarrow> cleanup_mode \<Rightarrow> bool ps_action" where
  "finish_provider_work env mode =
     ask (\<lambda>s.
       let before = ps_pending_failed s in
       next_do (ensure_provider_cleanup mode)
       (next_do (update (\<lambda>s. s\<lparr>ps_pending_failed := ps_pending_failed s \<or> te_reap_failed env\<rparr>))
         (ask (\<lambda>s. ret (before \<or> (ps_cleanup s \<noteq> None \<and> te_cleanup_failed env) \<or> ps_pending_failed s)))))"

definition finalize_cleanup :: "tx_env \<Rightarrow> selected_outcome \<Rightarrow> unit ps_action" where
  "finalize_cleanup env sel =
     ask (\<lambda>s.
       if so_kind sel \<noteq> TeardownO \<and> \<not> ps_started_ok s then update (\<lambda>s. s\<lparr>ps_final := FinalDone\<rparr>)
       else seq (finish_provider_work env (so_cleanup_mode sel))
              (\<lambda>cleanup_failed. update (\<lambda>s. s\<lparr>ps_final := FinalCleaned cleanup_failed\<rparr>)))"

definition report_cleanup_failure_once :: "ps_config \<Rightarrow> tx_env \<Rightarrow> unit ps_action" where
  "report_cleanup_failure_once cfg env =
     ask (\<lambda>s.
       if ps_cleanup_reported s then ret ()
       else next_do (update (\<lambda>s. s\<lparr>ps_cleanup_reported := True\<rparr>))
         (\<lambda>s. case emit_runtime ((te_write env 0)\<lparr>env_cancelled := False\<rparr>) (lit ''runtime.error'')
                     [(lit ''code'', JStr PROVIDER_CLEANUP_FAILED_CODE),
                      (lit ''message'', JStr (lit ''Provider cleanup could not be confirmed.'')),
                      (lit ''recoverable'', JBool True)]
                     (Some (pc_command_id cfg)) (ps_writer s) of
                (Inl e, w) \<Rightarrow> (Inl e, s\<lparr>ps_writer := w\<rparr>)
              | (Inr _, w) \<Rightarrow> (Inr (), s\<lparr>ps_writer := w\<rparr>)))"

definition notify_loop_limits_once :: "ps_config \<Rightarrow> tx_env \<Rightarrow> unit ps_action" where
  "notify_loop_limits_once cfg env =
     ask (\<lambda>s.
       if ps_limits_observed s then ret ()
       else next_do (update (\<lambda>s. s\<lparr>ps_limits_observed := True\<rparr>))
         (if ps_limits_attached s then
            seq (lift_result (snapshot (pc_session_id cfg) (ps_tracker s)))
              (\<lambda>ob. next_do (update (\<lambda>s. s\<lparr>ps_limits_evidence := Some ob\<rparr>))
                 (case te_observer env 9 of Some e \<Rightarrow> raise e | None \<Rightarrow> ret ()))
          else ret ()))"

definition emit_selected_terminal :: "ps_config \<Rightarrow> tx_env \<Rightarrow> selected_outcome \<Rightarrow> unit ps_action" where
  "emit_selected_terminal cfg env sel =
     ask (\<lambda>s.
       if ps_terminal_emitted s \<or> ps_selection s \<noteq> Some sel then ret ()
       else next_do
         (case so_kind sel of
            CompletedO \<Rightarrow>
              (case ps_completed_text s of
                 None \<Rightarrow> raise (RuntimeError ''completed provider session is missing reconciled text'')
               | Some t \<Rightarrow>
                   next_do (emit_and_accept cfg env 0 ''assistant.completed'' [(lit ''text'', JStr t)]
                              (Some (pc_command_id cfg)))
                   (next_do (notify_loop_limits_once cfg env)
                     (emit_and_accept cfg env 1 ''session.completed'' [] (Some (pc_command_id cfg)))))
          | FailedO \<Rightarrow>
              (case so_failure sel of
                 None \<Rightarrow> raise (RuntimeError ''failed provider session is missing its safe failure'')
               | Some (c, m) \<Rightarrow>
                   next_do (notify_loop_limits_once cfg env)
                     (emit_and_accept cfg env 0 ''session.failed''
                        [(lit ''code'', JStr c), (lit ''message'', JStr m)] (Some (pc_command_id cfg))))
          | CancelledO \<Rightarrow>
              (case so_correlation sel of
                 None \<Rightarrow> raise (RuntimeError ''cancelled provider session is missing command correlation'')
               | Some cmd \<Rightarrow>
                   next_do (notify_loop_limits_once cfg env)
                     (emit_and_accept cfg env 0 ''session.cancelled'' [] (Some cmd)))
          | TeardownO \<Rightarrow> raise (RuntimeError ''teardown cannot emit a session terminal event''))
         (update (\<lambda>s. s\<lparr>ps_terminal_emitted := True\<rparr>)))"

subsection \<open>Observers\<close>

text \<open>The argument is what the lifecycle observer raises when it is told of the submitted task.\<close>

definition attach_lifecycle_observer :: "py_error option \<Rightarrow> unit ps_action" where
  "attach_lifecycle_observer observer =
     ask (\<lambda>s.
       if ps_run s \<noteq> NotRun
       then raise (RuntimeError ''a lifecycle observer must be attached before the session starts'')
       else if ps_lifecycle_attached s
       then raise (RuntimeError ''a provider session accepts only one lifecycle observer'')
       else next_do (update (\<lambda>s. s\<lparr>ps_lifecycle_attached := True\<rparr>))
              (case observer of Some e \<Rightarrow> raise e | None \<Rightarrow> ret ()))"

definition attach_model_usage_observer :: "unit ps_action" where
  "attach_model_usage_observer =
     ask (\<lambda>s.
       if ps_run s \<noteq> NotRun
       then raise (RuntimeError ''a usage observer must be attached before the session starts'')
       else if ps_usage_attached s
       then raise (RuntimeError ''a provider session accepts only one usage observer'')
       else update (\<lambda>s. s\<lparr>ps_usage_attached := True\<rparr>))"

definition attach_loop_limits_observer :: "unit ps_action" where
  "attach_loop_limits_observer =
     ask (\<lambda>s.
       if ps_run s \<noteq> NotRun
       then raise (RuntimeError ''a limits observer must be attached before the session starts'')
       else if ps_limits_attached s
       then raise (RuntimeError ''a provider session accepts only one limits observer'')
       else update (\<lambda>s. s\<lparr>ps_limits_attached := True\<rparr>))"

text \<open>The start of \<open>run\<close>: a session runs once.\<close>

definition begin_run :: "unit ps_action" where
  "begin_run =
     ask (\<lambda>s. if ps_run s \<noteq> NotRun then raise (RuntimeError ''a provider session can run only once'')
              else update (\<lambda>s. s\<lparr>ps_run := Publishing\<rparr>))"

subsection \<open>Interleavings\<close>

text \<open>
  One step of the session: attaching an observer, a step of its own tasks (\<open>ps_run_step\<close>: a stage
  of \<open>run\<close> with its exception paths, the watcher, a stage of the finalizer), the cancellation of
  its task, a cancellation or teardown request, or an emission of another producer through the
  shared writer. \<open>ps_run\<close> and \<open>ps_final\<close> are the
  program counters of \<open>run\<close> and of \<open>_finalize\<close>.
\<close>

definition foreign_request :: "ps_config \<Rightarrow> emit_request \<Rightarrow> bool" where
  "foreign_request cfg req \<longleftrightarrow>
     (case req of EmitRuntime _ _ _ \<Rightarrow> True | EmitSession _ sid _ _ \<Rightarrow> sid \<noteq> pc_session_id cfg)"

text \<open>
  The consumer loop. Between its deadline check and the observation's transaction other
  transactions may run, so these are separate steps; a read that ends, raises, is cancelled or is
  still pending when the watcher stopped selects the invalid-response outcome.
\<close>

inductive consume_step :: "ps_config \<Rightarrow> provider_session \<Rightarrow> provider_session \<Rightarrow> bool" for cfg where
  consume_accepts:
    "ps_events s \<Longrightarrow> accept_observation cfg env ob s = (Inr u, s') \<Longrightarrow> consume_step cfg s s'"
| consume_raises:
    "ps_events s \<Longrightarrow> accept_observation cfg env ob s = (Inl e, s') \<Longrightarrow>
       consume_step cfg s (s'\<lparr>ps_run := Aborting\<rparr>)"
| consume_stream_ends:
    "select_invalid_response cfg (te_due (env :: tx_env) 0) s = (r, s') \<Longrightarrow>
       consume_step cfg s (s'\<lparr>ps_run := Joining\<rparr>)"
| consume_deadline:
    "ps_latched s \<or> te_due (env :: tx_env) 0 \<Longrightarrow>
       select_provider_deadline cfg (s\<lparr>ps_pending_failed := ps_pending_failed s \<or> te_reap_failed env\<rparr>)
         = (r, s') \<Longrightarrow>
       consume_step cfg s (s'\<lparr>ps_run := Joining\<rparr>)"
| consume_selected:
    "ps_selection s \<noteq> None \<Longrightarrow> consume_step cfg s (s\<lparr>ps_run := Joining\<rparr>)"

inductive ps_run_step :: "ps_config \<Rightarrow> provider_session \<Rightarrow> provider_session \<Rightarrow> bool" for cfg where
  run_begins:
    "begin_run s = (r, s') \<Longrightarrow> ps_run_step cfg s s'"
| run_publishes:
    "ps_run s = Publishing \<Longrightarrow> publish_started cfg env s = (Inr u, s') \<Longrightarrow>
       ps_run_step cfg s (s'\<lparr>ps_run := StartingOperation\<rparr>)"
| run_publish_raises:
    "ps_run s = Publishing \<Longrightarrow> publish_started cfg env s = (Inl e, s') \<Longrightarrow>
       ps_run_step cfg s (s'\<lparr>ps_start_settled := True, ps_run := Aborting\<rparr>)"
| run_starts_operation:
    "ps_run s = StartingOperation \<Longrightarrow> start_provider_operation cfg env s = (Inr u, s') \<Longrightarrow>
       ps_run_step cfg s (s'\<lparr>ps_run := Consuming\<rparr>)"
| run_start_raises:
    "ps_run s = StartingOperation \<Longrightarrow> start_provider_operation cfg env s = (Inl e, s') \<Longrightarrow>
       ps_run_step cfg s (s'\<lparr>ps_run := Aborting\<rparr>)"
| run_consumes:
    "ps_run s = Consuming \<Longrightarrow> consume_step cfg s s' \<Longrightarrow> ps_run_step cfg s s'"
| abort_selects_teardown:
    "ps_run s = Aborting \<Longrightarrow> select_teardown cfg env s = (r, s') \<Longrightarrow> ps_run_step cfg s s'"
| watcher_fires:
    "ps_run s \<noteq> NotRun \<Longrightarrow> watch_provider_deadline s = (r, s') \<Longrightarrow> ps_run_step cfg s s'"
| finalizer_cleans:
    "ps_final s = FinalPending \<Longrightarrow> ps_selection s = Some sel \<Longrightarrow>
       so_kind sel = TeardownO \<or> ps_start_settled s \<Longrightarrow>
       finalize_cleanup env sel s = (Inr u, s') \<Longrightarrow> ps_run_step cfg s s'"
| finalizer_clean_raises:
    "ps_final s = FinalPending \<Longrightarrow> ps_selection s = Some sel \<Longrightarrow>
       so_kind sel = TeardownO \<or> ps_start_settled s \<Longrightarrow>
       finalize_cleanup env sel s = (Inl e, s') \<Longrightarrow> ps_run_step cfg s (s'\<lparr>ps_final := FinalDone\<rparr>)"
| finalizer_reports:
    "ps_final s = FinalCleaned cleanup_failed \<Longrightarrow> ps_selection s = Some sel \<Longrightarrow>
       (if cleanup_failed then report_cleanup_failure_once cfg env else ret ()) s = (Inr u, s') \<Longrightarrow>
       ps_run_step cfg s (s'\<lparr>ps_final := (if so_kind sel = TeardownO then FinalDone else FinalTerminal)\<rparr>)"
| finalizer_report_raises:
    "ps_final s = FinalCleaned cleanup_failed \<Longrightarrow> ps_selection s = Some sel \<Longrightarrow>
       (if cleanup_failed then report_cleanup_failure_once cfg env else ret ()) s = (Inl e, s') \<Longrightarrow>
       ps_run_step cfg s (s'\<lparr>ps_final := FinalDone\<rparr>)"
| finalizer_emits_terminal:
    "ps_final s = FinalTerminal \<Longrightarrow> ps_selection s = Some sel \<Longrightarrow>
       emit_selected_terminal cfg env sel s = (r, s') \<Longrightarrow>
       ps_run_step cfg s (s'\<lparr>ps_final := FinalDone\<rparr>)"

inductive ps_step :: "ps_config \<Rightarrow> provider_session \<Rightarrow> provider_session \<Rightarrow> bool" for cfg where
  attaches_lifecycle_observer:
    "attach_lifecycle_observer ob s = (r, s') \<Longrightarrow> ps_step cfg s s'"
| attaches_usage_observer:
    "attach_model_usage_observer s = (r, s') \<Longrightarrow> ps_step cfg s s'"
| attaches_limits_observer:
    "attach_loop_limits_observer s = (r, s') \<Longrightarrow> ps_step cfg s s'"
| ps_runs: "ps_run_step cfg s s' \<Longrightarrow> ps_step cfg s s'"
| run_cancelled:
    "ps_run s \<in> {StartingOperation, Consuming, Joining} \<Longrightarrow>
       ps_step cfg s (s\<lparr>ps_start_settled := True, ps_run := Aborting\<rparr>)"
| user_cancels:
    "select_user_cancellation cfg env cmd s = (r, s') \<Longrightarrow> ps_step cfg s s'"
| runtime_tears_down:
    "select_teardown cfg env s = (r, s') \<Longrightarrow> ps_step cfg s s'"
| other_producer_emits:
    "foreign_request cfg req \<Longrightarrow>
       ps_step cfg s (s\<lparr>ps_writer := snd (emit we req (ps_writer s))\<rparr>)"

text \<open>A session created with a valid command, valid limits and an identity the writer has not seen.\<close>

definition session_setup :: "ps_config \<Rightarrow> event_writer \<Rightarrow> bool" where
  "session_setup cfg w \<longleftrightarrow>
     SessionId (pc_session_id cfg) \<and> loop_limits_ok (pc_limits cfg) \<and>
     session_sequences w (pc_session_id cfg) = None \<and>
     (\<forall>e \<in> set (published_events w). case e of SessionEv x \<Rightarrow> event_session x \<noteq> pc_session_id cfg
        | RuntimeEv _ \<Rightarrow> True)"

inductive ps_reachable :: "ps_config \<Rightarrow> event_writer \<Rightarrow> provider_session \<Rightarrow> bool" for cfg w where
  ps_created: "ps_reachable cfg w (new_provider_session cfg w)"
| ps_continues: "ps_reachable cfg w s \<Longrightarrow> ps_step cfg s s' \<Longrightarrow> ps_reachable cfg w s'"

inductive_cases ps_stepE: "ps_step cfg s s'"

end
