(* ===== verification/Provider_Session_Inv.thy ===== *)
theory Provider_Session_Inv
  imports Provider_Session
begin

section \<open>Invariants of the provider-backed session\<close>

text \<open>
  \<open>core_inv\<close> holds in every reachable state; its parts are \<open>life_inv\<close> (the lifecycle state is
  the replay of the accepted updates, and the events published for the session are exactly their
  wire events), \<open>sel_inv\<close> (selection, deadline latch, cleanup mode and budget agree, and the
  evidence is the tracker's snapshot), \<open>text_inv\<close> (accepted text, its size and the reserved
  budget) and \<open>phase_inv\<close> (what the finalizer's stage says of the lifecycle). \<open>run_inv p\<close> is
  what holds besides while \<open>run\<close> stands at \<open>p\<close>. They are proved for the primitive effects
  first (latching, selecting, publishing an event, accepting a cancellation), then for each
  transaction by the rules of \<open>State_Action\<close>, then for each step.
\<close>

subsection \<open>The invariants\<close>

definition session_events :: "ustr \<Rightarrow> event list \<Rightarrow> session_event list" where
  "session_events sid es =
     concat (map (\<lambda>e. case e of SessionEv x \<Rightarrow> if event_session x = sid then [x] else [] | RuntimeEv _ \<Rightarrow> []) es)"

definition life_inv :: "ps_config \<Rightarrow> provider_session \<Rightarrow> bool" where
  "life_inv cfg s \<longleftrightarrow>
     replay_session_updates INITIAL_SESSION_STATE (ps_updates s) = accept (ps_lifecycle s) \<and>
     session_events (pc_session_id cfg) (published_events (ps_writer s)) = wire_events (ps_updates s) \<and>
     sequence_counter (ps_writer s) (pc_session_id cfg) = last_sequence (ps_lifecycle s) \<and>
     start_command_id (ps_lifecycle s) = Some (pc_command_id cfg) \<and>
     status (ps_lifecycle s) \<notin> {Idle, AwaitingApproval} \<and>
     (status (ps_lifecycle s) \<noteq> Starting \<longrightarrow> session_id (ps_lifecycle s) = Some (pc_session_id cfg))"

fun limit_outcome_of :: "ps_config \<Rightarrow> loop_limit_exhaustion \<Rightarrow> selected_outcome" where
  "limit_outcome_of cfg ModelTurnsX = model_turn_outcome cfg"
| "limit_outcome_of cfg ProviderWorkX = deadline_outcome cfg"
| "limit_outcome_of cfg AssistantOutputX = output_limit_outcome cfg"
| "limit_outcome_of cfg ToolCallsX = tool_limit_outcome cfg"

definition is_limit_outcome :: "selected_outcome \<Rightarrow> bool" where
  "is_limit_outcome sel \<longleftrightarrow> (case so_failure sel of Some (c, _) \<Rightarrow> c \<in> LOOP_LIMIT_FAILURE_CODES | None \<Rightarrow> False)"

definition outcome_shape :: "ps_config \<Rightarrow> selected_outcome \<Rightarrow> bool" where
  "outcome_shape cfg sel \<longleftrightarrow>
     (so_kind sel = FailedO \<longrightarrow> so_failure sel \<noteq> None) \<and>
     (so_kind sel = CancelledO \<longrightarrow> so_correlation sel \<noteq> None)"

definition sel_inv :: "ps_config \<Rightarrow> provider_session \<Rightarrow> bool" where
  "sel_inv cfg s \<longleftrightarrow>
     (ps_final s = NoFinalizer \<longleftrightarrow> ps_selection s = None) \<and>
     tracker_ok (ps_tracker s) \<and> lt_limits (ps_tracker s) = pc_limits cfg \<and>
     (\<forall>sel. ps_selection s = Some sel \<longrightarrow> outcome_shape cfg sel) \<and>
     (case lt_exhausted (ps_tracker s) of
        None \<Rightarrow> \<not> ps_latched s \<and> (\<forall>sel. ps_selection s = Some sel \<longrightarrow> \<not> is_limit_outcome sel)
      | Some x \<Rightarrow>
          (ps_latched s \<longleftrightarrow> x = ProviderWorkX) \<and>
          (ps_selection s = Some (limit_outcome_of cfg x) \<or> x = ProviderWorkX \<and> ps_selection s = None)) \<and>
     (\<forall>m. ps_cleanup s = Some m \<longrightarrow>
        (case ps_selection s of None \<Rightarrow> ps_latched s \<and> m = CancelMode | Some sel \<Rightarrow> m = so_cleanup_mode sel)) \<and>
     (\<forall>ob. ps_limits_evidence s = Some ob \<longrightarrow>
        ps_selection s \<noteq> None \<and> snapshot (pc_session_id cfg) (ps_tracker s) = Inr ob)"

definition text_inv :: "ps_config \<Rightarrow> provider_session \<Rightarrow> bool" where
  "text_inv cfg s \<longleftrightarrow>
     ps_accepted_bytes s = int (length (utf8_bytes (concat (ps_accepted_text s)))) \<and>
     ps_accepted_bytes s \<le> lt_assistant_output_bytes (ps_tracker s) \<and>
     int (length (utf8_bytes (assistant_text (ps_lifecycle s)))) \<le> lt_assistant_output_bytes (ps_tracker s) \<and>
     (\<forall>t. ps_completed_text s = Some t \<longrightarrow> t = concat (ps_accepted_text s)) \<and>
     [] \<notin> set (ps_accepted_text s) \<and>
     (assistant_text (ps_lifecycle s) = [] \<or> AssistantText (assistant_text (ps_lifecycle s))) \<and>
     (ps_events s \<longrightarrow> 1 \<le> lt_model_turns_started (ps_tracker s)) \<and>
     (\<forall>sel. ps_selection s = Some sel \<longrightarrow> so_kind sel = CompletedO \<longrightarrow>
        assistant_text (ps_lifecycle s) \<noteq> [] \<and> ps_completed_text s = Some (assistant_text (ps_lifecycle s)))"

text \<open>The terminal status that publishes an outcome.\<close>

definition outcome_published :: "selected_outcome \<Rightarrow> session_state \<Rightarrow> bool" where
  "outcome_published sel l \<longleftrightarrow>
     (case so_kind sel of
        CompletedO \<Rightarrow> status l = Completed
      | FailedO \<Rightarrow> status l = Failed \<and>
          session_failure_of l = map_option (\<lambda>(c, m). \<lparr>failure_code = c, failure_message = m\<rparr>) (so_failure sel)
      | CancelledO \<Rightarrow> status l = Cancelled
      | TeardownO \<Rightarrow> False)"

definition phase_inv :: "ps_config \<Rightarrow> provider_session \<Rightarrow> bool" where
  "phase_inv cfg s \<longleftrightarrow>
     (ps_started_ok s \<longrightarrow> ps_start_settled s \<and> status (ps_lifecycle s) \<noteq> Starting \<and> ps_deferred s = None) \<and>
     (\<forall>c. ps_deferred s = Some c \<longrightarrow> (\<exists>cmd. c = CancelRequested cmd (pc_session_id cfg))) \<and>
     (\<forall>sel. ps_selection s = Some sel \<longrightarrow> so_kind sel = CancelledO \<longrightarrow>
        (if status (ps_lifecycle s) = Starting
         then \<exists>cmd. so_correlation sel = Some cmd \<and>
                ps_deferred s = Some (CancelRequested cmd (pc_session_id cfg))
         else ps_started_ok s \<longrightarrow> ps_final s \<noteq> FinalDone \<longrightarrow>
                status (ps_lifecycle s) = Cancelling \<and> cancel_command_id (ps_lifecycle s) = so_correlation sel)) \<and>
     (status (ps_lifecycle s) \<in> TERMINAL_SESSION_STATUSES \<or> assistant_completed (ps_lifecycle s) \<longrightarrow>
        ps_final s = FinalDone) \<and>
     (ps_terminal_emitted s \<longrightarrow> status (ps_lifecycle s) \<in> TERMINAL_SESSION_STATUSES) \<and>
     (\<forall>sel. ps_selection s = Some sel \<longrightarrow>
        (ps_final s = FinalTerminal \<longrightarrow> so_kind sel \<noteq> TeardownO) \<and>
        (ps_final s = FinalTerminal \<or> (\<exists>f. ps_final s = FinalCleaned f) \<longrightarrow>
           so_kind sel \<noteq> TeardownO \<longrightarrow> ps_started_ok s)) \<and>
     (ps_events s \<longrightarrow> ps_started_ok s) \<and>
     (status (ps_lifecycle s) \<in> TERMINAL_SESSION_STATUSES \<longrightarrow>
        (\<exists>sel. ps_selection s = Some sel \<and> outcome_published sel (ps_lifecycle s)))"

definition core_inv :: "ps_config \<Rightarrow> provider_session \<Rightarrow> bool" where
  "core_inv cfg s \<longleftrightarrow> life_inv cfg s \<and> sel_inv cfg s \<and> text_inv cfg s \<and> phase_inv cfg s"

definition run_inv :: "run_phase \<Rightarrow> provider_session \<Rightarrow> bool" where
  "run_inv p s \<longleftrightarrow>
     (p \<in> {NotRun, Publishing} \<longrightarrow>
        status (ps_lifecycle s) = Starting \<and> \<not> ps_start_settled s \<and> \<not> ps_events s) \<and>
     (p \<in> {StartingOperation, Consuming, Joining} \<longrightarrow> ps_started_ok s) \<and>
     (p \<noteq> Aborting \<longrightarrow> concat (ps_accepted_text s) = assistant_text (ps_lifecycle s))"

lemmas core_inv_defs = core_inv_def life_inv_def sel_inv_def text_inv_def phase_inv_def

lemma run_inv_aborting [simp]: "run_inv Aborting s"
  by (simp add: run_inv_def)

text \<open>Fields an invariant does not read.\<close>

lemma life_inv_frame [simp]:
  "life_inv cfg (ps_deferred_update fdeferred s) = life_inv cfg s"
  "life_inv cfg (ps_start_settled_update fstartsettled s) = life_inv cfg s"
  "life_inv cfg (ps_started_ok_update fstartedok s) = life_inv cfg s"
  "life_inv cfg (ps_run_update frun s) = life_inv cfg s"
  "life_inv cfg (ps_lifecycle_attached_update flifecycleattached s) = life_inv cfg s"
  "life_inv cfg (ps_usage_attached_update fusageattached s) = life_inv cfg s"
  "life_inv cfg (ps_limits_attached_update flimitsattached s) = life_inv cfg s"
  "life_inv cfg (ps_operation_update foperation s) = life_inv cfg s"
  "life_inv cfg (ps_events_update fevents s) = life_inv cfg s"
  "life_inv cfg (ps_cleanup_update fcleanup s) = life_inv cfg s"
  "life_inv cfg (ps_selection_update fselection s) = life_inv cfg s"
  "life_inv cfg (ps_final_update ffinal s) = life_inv cfg s"
  "life_inv cfg (ps_latched_update flatched s) = life_inv cfg s"
  "life_inv cfg (ps_terminal_emitted_update fterminalemitted s) = life_inv cfg s"
  "life_inv cfg (ps_cleanup_reported_update fcleanupreported s) = life_inv cfg s"
  "life_inv cfg (ps_limits_observed_update flimitsobserved s) = life_inv cfg s"
  "life_inv cfg (ps_limits_evidence_update flimitsevidence s) = life_inv cfg s"
  "life_inv cfg (ps_pending_failed_update fpendingfailed s) = life_inv cfg s"
  "life_inv cfg (ps_tracker_update ftracker s) = life_inv cfg s"
  "life_inv cfg (ps_accepted_text_update facceptedtext s) = life_inv cfg s"
  "life_inv cfg (ps_accepted_bytes_update facceptedbytes s) = life_inv cfg s"
  "life_inv cfg (ps_completed_text_update fcompletedtext s) = life_inv cfg s"
  "life_inv cfg (ps_usage_observed_update fusageobserved s) = life_inv cfg s"
  "life_inv cfg (ps_usage_evidence_update fusageevidence s) = life_inv cfg s"
  by (simp_all add: life_inv_def)

lemma sel_inv_frame [simp]:
  "sel_inv cfg (ps_writer_update fwriter s) = sel_inv cfg s"
  "sel_inv cfg (ps_lifecycle_update flifecycle s) = sel_inv cfg s"
  "sel_inv cfg (ps_updates_update fupdates s) = sel_inv cfg s"
  "sel_inv cfg (ps_deferred_update fdeferred s) = sel_inv cfg s"
  "sel_inv cfg (ps_start_settled_update fstartsettled s) = sel_inv cfg s"
  "sel_inv cfg (ps_started_ok_update fstartedok s) = sel_inv cfg s"
  "sel_inv cfg (ps_run_update frun s) = sel_inv cfg s"
  "sel_inv cfg (ps_lifecycle_attached_update flifecycleattached s) = sel_inv cfg s"
  "sel_inv cfg (ps_usage_attached_update fusageattached s) = sel_inv cfg s"
  "sel_inv cfg (ps_limits_attached_update flimitsattached s) = sel_inv cfg s"
  "sel_inv cfg (ps_operation_update foperation s) = sel_inv cfg s"
  "sel_inv cfg (ps_events_update fevents s) = sel_inv cfg s"
  "sel_inv cfg (ps_terminal_emitted_update fterminalemitted s) = sel_inv cfg s"
  "sel_inv cfg (ps_cleanup_reported_update fcleanupreported s) = sel_inv cfg s"
  "sel_inv cfg (ps_limits_observed_update flimitsobserved s) = sel_inv cfg s"
  "sel_inv cfg (ps_pending_failed_update fpendingfailed s) = sel_inv cfg s"
  "sel_inv cfg (ps_accepted_text_update facceptedtext s) = sel_inv cfg s"
  "sel_inv cfg (ps_accepted_bytes_update facceptedbytes s) = sel_inv cfg s"
  "sel_inv cfg (ps_completed_text_update fcompletedtext s) = sel_inv cfg s"
  "sel_inv cfg (ps_usage_observed_update fusageobserved s) = sel_inv cfg s"
  "sel_inv cfg (ps_usage_evidence_update fusageevidence s) = sel_inv cfg s"
  by (simp_all add: sel_inv_def cong: option.case_cong)

lemma text_inv_frame [simp]:
  "text_inv cfg (ps_writer_update fwriter s) = text_inv cfg s"
  "text_inv cfg (ps_updates_update fupdates s) = text_inv cfg s"
  "text_inv cfg (ps_deferred_update fdeferred s) = text_inv cfg s"
  "text_inv cfg (ps_start_settled_update fstartsettled s) = text_inv cfg s"
  "text_inv cfg (ps_started_ok_update fstartedok s) = text_inv cfg s"
  "text_inv cfg (ps_run_update frun s) = text_inv cfg s"
  "text_inv cfg (ps_lifecycle_attached_update flifecycleattached s) = text_inv cfg s"
  "text_inv cfg (ps_usage_attached_update fusageattached s) = text_inv cfg s"
  "text_inv cfg (ps_limits_attached_update flimitsattached s) = text_inv cfg s"
  "text_inv cfg (ps_operation_update foperation s) = text_inv cfg s"
  "text_inv cfg (ps_cleanup_update fcleanup s) = text_inv cfg s"
  "text_inv cfg (ps_final_update ffinal s) = text_inv cfg s"
  "text_inv cfg (ps_latched_update flatched s) = text_inv cfg s"
  "text_inv cfg (ps_terminal_emitted_update fterminalemitted s) = text_inv cfg s"
  "text_inv cfg (ps_cleanup_reported_update fcleanupreported s) = text_inv cfg s"
  "text_inv cfg (ps_limits_observed_update flimitsobserved s) = text_inv cfg s"
  "text_inv cfg (ps_limits_evidence_update flimitsevidence s) = text_inv cfg s"
  "text_inv cfg (ps_pending_failed_update fpendingfailed s) = text_inv cfg s"
  "text_inv cfg (ps_usage_observed_update fusageobserved s) = text_inv cfg s"
  "text_inv cfg (ps_usage_evidence_update fusageevidence s) = text_inv cfg s"
  by (simp_all add: text_inv_def)

lemma phase_inv_frame [simp]:
  "phase_inv cfg (ps_writer_update fwriter s) = phase_inv cfg s"
  "phase_inv cfg (ps_updates_update fupdates s) = phase_inv cfg s"
  "phase_inv cfg (ps_run_update frun s) = phase_inv cfg s"
  "phase_inv cfg (ps_lifecycle_attached_update flifecycleattached s) = phase_inv cfg s"
  "phase_inv cfg (ps_usage_attached_update fusageattached s) = phase_inv cfg s"
  "phase_inv cfg (ps_limits_attached_update flimitsattached s) = phase_inv cfg s"
  "phase_inv cfg (ps_operation_update foperation s) = phase_inv cfg s"
  "phase_inv cfg (ps_cleanup_update fcleanup s) = phase_inv cfg s"
  "phase_inv cfg (ps_latched_update flatched s) = phase_inv cfg s"
  "phase_inv cfg (ps_cleanup_reported_update fcleanupreported s) = phase_inv cfg s"
  "phase_inv cfg (ps_limits_observed_update flimitsobserved s) = phase_inv cfg s"
  "phase_inv cfg (ps_limits_evidence_update flimitsevidence s) = phase_inv cfg s"
  "phase_inv cfg (ps_pending_failed_update fpendingfailed s) = phase_inv cfg s"
  "phase_inv cfg (ps_tracker_update ftracker s) = phase_inv cfg s"
  "phase_inv cfg (ps_accepted_text_update facceptedtext s) = phase_inv cfg s"
  "phase_inv cfg (ps_accepted_bytes_update facceptedbytes s) = phase_inv cfg s"
  "phase_inv cfg (ps_completed_text_update fcompletedtext s) = phase_inv cfg s"
  "phase_inv cfg (ps_usage_observed_update fusageobserved s) = phase_inv cfg s"
  "phase_inv cfg (ps_usage_evidence_update fusageevidence s) = phase_inv cfg s"
  by (simp_all add: phase_inv_def)

lemma run_inv_frame [simp]:
  "run_inv p (ps_writer_update fwriter s) = run_inv p s"
  "run_inv p (ps_updates_update fupdates s) = run_inv p s"
  "run_inv p (ps_deferred_update fdeferred s) = run_inv p s"
  "run_inv p (ps_run_update frun s) = run_inv p s"
  "run_inv p (ps_lifecycle_attached_update flifecycleattached s) = run_inv p s"
  "run_inv p (ps_usage_attached_update fusageattached s) = run_inv p s"
  "run_inv p (ps_limits_attached_update flimitsattached s) = run_inv p s"
  "run_inv p (ps_operation_update foperation s) = run_inv p s"
  "run_inv p (ps_cleanup_update fcleanup s) = run_inv p s"
  "run_inv p (ps_selection_update fselection s) = run_inv p s"
  "run_inv p (ps_final_update ffinal s) = run_inv p s"
  "run_inv p (ps_latched_update flatched s) = run_inv p s"
  "run_inv p (ps_terminal_emitted_update fterminalemitted s) = run_inv p s"
  "run_inv p (ps_cleanup_reported_update fcleanupreported s) = run_inv p s"
  "run_inv p (ps_limits_observed_update flimitsobserved s) = run_inv p s"
  "run_inv p (ps_limits_evidence_update flimitsevidence s) = run_inv p s"
  "run_inv p (ps_pending_failed_update fpendingfailed s) = run_inv p s"
  "run_inv p (ps_tracker_update ftracker s) = run_inv p s"
  "run_inv p (ps_accepted_bytes_update facceptedbytes s) = run_inv p s"
  "run_inv p (ps_completed_text_update fcompletedtext s) = run_inv p s"
  "run_inv p (ps_usage_observed_update fusageobserved s) = run_inv p s"
  "run_inv p (ps_usage_evidence_update fusageevidence s) = run_inv p s"
  by (simp_all add: run_inv_def)

subsection \<open>The created session\<close>

lemma session_events_simps [simp]:
  "session_events sid [] = []"
  "session_events sid (es @ [SessionEv x]) =
     session_events sid es @ (if event_session x = sid then [x] else [])"
  "session_events sid (es @ [RuntimeEv r]) = session_events sid es"
  by (simp_all add: session_events_def)

lemma session_events_none:
  "(\<forall>e \<in> set es. case e of SessionEv x \<Rightarrow> event_session x \<noteq> sid | RuntimeEv _ \<Rightarrow> True) \<Longrightarrow>
     session_events sid es = []"
  by (induction es) (auto simp: session_events_def split: event.splits)

lemma new_session_inv:
  assumes "session_setup cfg w"
  shows "core_inv cfg (new_provider_session cfg w) \<and> run_inv NotRun (new_provider_session cfg w)"
proof -
  have f: "tracker_ok (fresh_tracker (pc_limits cfg))" "lt_exhausted (fresh_tracker (pc_limits cfg)) = None"
    "lt_limits (fresh_tracker (pc_limits cfg)) = pc_limits cfg"
    "lt_assistant_output_bytes (fresh_tracker (pc_limits cfg)) = 0"
    using assms by (simp_all add: session_setup_def fresh_tracker_ok)
      (simp_all add: fresh_tracker_def)
  have e: "session_events (pc_session_id cfg) (published_events w) = []"
    using assms by (intro session_events_none) (simp add: session_setup_def)
  have r: "reduce_session_state INITIAL_SESSION_STATE (TaskSubmitted c t) =
      accept (INITIAL_SESSION_STATE\<lparr>status := Starting, start_command_id := Some c, session_task := Some t\<rparr>)"
    for c t by (simp add: reduce_session_state_def INITIAL_SESSION_STATE_def TERMINAL_SESSION_STATUSES_def)
  have i: "last_sequence INITIAL_SESSION_STATE = 0" "assistant_text INITIAL_SESSION_STATE = []"
    "\<not> assistant_completed INITIAL_SESSION_STATE"
    by (simp_all add: INITIAL_SESSION_STATE_def)
  show ?thesis
    using assms f e
    by (simp add: core_inv_defs run_inv_def new_provider_session_def r i session_setup_def
        sequence_counter_def TERMINAL_SESSION_STATUSES_def)
qed

subsection \<open>Latching and selecting\<close>

text \<open>What latching and selecting may change.\<close>

definition selection_frame :: "provider_session \<Rightarrow> provider_session \<Rightarrow> bool" where
  "selection_frame s s' \<longleftrightarrow>
     (\<exists>l t c x f. s' = s\<lparr>ps_latched := l, ps_tracker := t, ps_cleanup := c, ps_selection := x, ps_final := f\<rparr>)"

lemma selection_frame_refl [simp]: "selection_frame s s"
  unfolding selection_frame_def
  by (intro exI [of _ "ps_latched s"] exI [of _ "ps_tracker s"] exI [of _ "ps_cleanup s"]
      exI [of _ "ps_selection s"] exI [of _ "ps_final s"]) (cases s, simp)

lemma selection_frame_trans: "selection_frame s t \<Longrightarrow> selection_frame t u \<Longrightarrow> selection_frame s u"
  unfolding selection_frame_def by (elim exE) (simp, blast)

lemma run_inv_selection_frame: "selection_frame s s' \<Longrightarrow> run_inv p s' = run_inv p s"
  unfolding selection_frame_def by (elim exE) simp

lemma mark_facts:
  "lt_limits (mark_provider_work_exhausted t) = lt_limits t"
  "lt_assistant_output_bytes (mark_provider_work_exhausted t) = lt_assistant_output_bytes t"
  "lt_model_turns_started (mark_provider_work_exhausted t) = lt_model_turns_started t"
  "tracker_ok t \<Longrightarrow> tracker_ok (mark_provider_work_exhausted t)"
  "lt_exhausted (mark_provider_work_exhausted t) =
     (case lt_exhausted t of None \<Rightarrow> Some ProviderWorkX | Some x \<Rightarrow> Some x)"
  by (auto simp: mark_provider_work_exhausted_def tracker_ok_def counters_ok_def split: option.splits)

lemma latch_effect:
  assumes "sel_inv cfg s" "ps_selection s = None"
  shows "\<exists>c. latch_provider_deadline s =
      (Inr (), s\<lparr>ps_latched := True, ps_tracker := mark_provider_work_exhausted (ps_tracker s), ps_cleanup := c\<rparr>)
    \<and> (c = None \<or> c = Some CancelMode)"
proof -
  let ?s = "s\<lparr>ps_latched := True, ps_tracker := mark_provider_work_exhausted (ps_tracker s)\<rparr>"
  have same: "(if ps_latched s then s else ?s) = ?s"
  proof (cases "ps_latched s")
    case True
    with assms have "lt_exhausted (ps_tracker s) \<noteq> None"
      by (auto simp: sel_inv_def split: option.splits)
    then have "mark_provider_work_exhausted (ps_tracker s) = ps_tracker s"
      by (simp add: mark_provider_work_exhausted_def)
    with True show ?thesis by (cases s) simp
  qed simp
  have c: "ps_cleanup s = None \<or> ps_cleanup s = Some CancelMode"
    using assms by (cases "ps_cleanup s") (auto simp: sel_inv_def)
  have keep: "?s\<lparr>ps_cleanup := ps_cleanup s\<rparr> = ?s" by (cases s) simp
  show ?thesis
  proof (cases "ps_operation s \<and> ps_cleanup s = None")
    case True
    then have "latch_provider_deadline s = (Inr (), ?s\<lparr>ps_cleanup := Some CancelMode\<rparr>)"
      by (simp add: latch_provider_deadline_def seq_simps same ensure_provider_cleanup_def)
    then show ?thesis by auto
  next
    case False
    with c have "latch_provider_deadline s = (Inr (), ?s)"
      by (auto simp: latch_provider_deadline_def seq_simps same ensure_provider_cleanup_def)
    with keep c show ?thesis by metis
  qed
qed

lemma latched_core:
  assumes "core_inv cfg s" "ps_selection s = None" "c = None \<or> c = Some CancelMode"
  shows "core_inv cfg
    (s\<lparr>ps_latched := True, ps_tracker := mark_provider_work_exhausted (ps_tracker s), ps_cleanup := c\<rparr>)"
proof -
  have x: "lt_exhausted (ps_tracker s) = None \<or> lt_exhausted (ps_tracker s) = Some ProviderWorkX"
    using assms(1,2) by (auto simp: core_inv_def sel_inv_def split: option.splits)
  let ?s = "s\<lparr>ps_latched := True, ps_tracker := mark_provider_work_exhausted (ps_tracker s), ps_cleanup := c\<rparr>"
  have "life_inv cfg ?s" using assms(1) by (simp add: core_inv_def life_inv_def)
  moreover have "sel_inv cfg ?s" using assms x by (auto simp: core_inv_def sel_inv_def mark_facts)
  moreover have "text_inv cfg ?s" using assms(1) by (simp add: core_inv_def text_inv_def mark_facts)
  moreover have "phase_inv cfg ?s" using assms(1) by (simp add: core_inv_def phase_inv_def)
  ultimately show ?thesis by (simp add: core_inv_def)
qed

lemma latch_core:
  assumes "core_inv cfg s" "ps_selection s = None"
  shows "\<exists>s'. latch_provider_deadline s = (Inr (), s') \<and> core_inv cfg s' \<and> selection_frame s s' \<and>
    ps_selection s' = None \<and> ps_latched s'"
proof -
  obtain c where c: "latch_provider_deadline s =
      (Inr (), s\<lparr>ps_latched := True, ps_tracker := mark_provider_work_exhausted (ps_tracker s), ps_cleanup := c\<rparr>)"
    "c = None \<or> c = Some CancelMode"
    using latch_effect [of cfg s] assms by (auto simp: core_inv_def)
  let ?s = "s\<lparr>ps_latched := True, ps_tracker := mark_provider_work_exhausted (ps_tracker s), ps_cleanup := c\<rparr>"
  have "?s = s\<lparr>ps_latched := True, ps_tracker := mark_provider_work_exhausted (ps_tracker s), ps_cleanup := c,
      ps_selection := ps_selection s, ps_final := ps_final s\<rparr>" by simp
  then have "selection_frame s ?s" unfolding selection_frame_def by blast
  with c latched_core [OF assms c(2)] assms(2) show ?thesis by simp
qed

text \<open>What a candidate needs before it may be selected.\<close>

definition candidate_ok :: "ps_config \<Rightarrow> provider_session \<Rightarrow> selected_outcome \<Rightarrow> bool" where
  "candidate_ok cfg s sel \<longleftrightarrow>
     outcome_shape cfg sel \<and>
     (so_kind sel = CompletedO \<longrightarrow>
        assistant_text (ps_lifecycle s) \<noteq> [] \<and> ps_completed_text s = Some (assistant_text (ps_lifecycle s))) \<and>
     (so_kind sel = CancelledO \<longrightarrow>
        (if status (ps_lifecycle s) = Starting
         then \<exists>cmd. so_correlation sel = Some cmd \<and>
                ps_deferred s = Some (CancelRequested cmd (pc_session_id cfg))
         else status (ps_lifecycle s) = Cancelling \<and> cancel_command_id (ps_lifecycle s) = so_correlation sel))"

lemma candidate_ok_frame: "selection_frame s s' \<Longrightarrow> candidate_ok cfg s' sel = candidate_ok cfg s sel"
  by (auto simp: selection_frame_def candidate_ok_def)

lemma candidate_ok_failed [simp]:
  "candidate_ok cfg s (failed_outcome cfg' m c t)" "candidate_ok cfg s teardown_outcome"
  by (simp_all add: candidate_ok_def failed_outcome_def teardown_outcome_def outcome_shape_def)

lemmas failed_outcomes =
  invalid_response_outcome_def model_turn_outcome_def deadline_outcome_def output_limit_outcome_def
  tool_limit_outcome_def tool_unavailable_outcome_def provider_failed_outcome_def

lemma limit_outcome_failed: "\<exists>c m. limit_outcome_of cfg x = failed_outcome cfg CancelMode c m"
  by (cases x) (auto simp: failed_outcomes)

text \<open>
  The state after selecting \<open>sel\<close> with tracker \<open>t\<close>: the budget of \<open>t\<close> is exhausted exactly
  when \<open>sel\<close> is the outcome of that exhaustion.
\<close>

lemma selected_core:
  assumes "core_inv cfg s" "ps_selection s = None" "candidate_ok cfg s sel"
    and t: "tracker_ok t" "lt_limits t = pc_limits cfg"
      "lt_assistant_output_bytes t = lt_assistant_output_bytes (ps_tracker s)"
      "lt_model_turns_started (ps_tracker s) \<le> lt_model_turns_started t"
    and x: "case lt_exhausted t of None \<Rightarrow> \<not> ps_latched s \<and> \<not> is_limit_outcome sel
      | Some x \<Rightarrow> sel = limit_outcome_of cfg x \<and> (ps_latched s \<longleftrightarrow> x = ProviderWorkX)"
  shows "core_inv cfg (s\<lparr>ps_tracker := t, ps_selection := Some sel, ps_final := FinalPending\<rparr>)"
proof -
  have cl: "ps_cleanup s = None \<or> ps_latched s \<and> ps_cleanup s = Some CancelMode"
    using assms(1,2) by (cases "ps_cleanup s") (auto simp: core_inv_def sel_inv_def)
  have ev: "ps_limits_evidence s = None"
    using assms(1,2) by (cases "ps_limits_evidence s") (auto simp: core_inv_def sel_inv_def)
  have nf: "ps_final s = NoFinalizer" using assms(1,2) by (simp add: core_inv_def sel_inv_def)
  have "so_cleanup_mode sel = CancelMode" if "ps_latched s"
    using x that limit_outcome_failed [of cfg ProviderWorkX]
    by (auto simp: failed_outcome_def split: option.splits)
  then have "sel_inv cfg (s\<lparr>ps_tracker := t, ps_selection := Some sel, ps_final := FinalPending\<rparr>)"
    using assms(3) t x cl ev by (auto simp: sel_inv_def candidate_ok_def split: option.splits)
  moreover have "life_inv cfg (s\<lparr>ps_tracker := t, ps_selection := Some sel, ps_final := FinalPending\<rparr>)"
    using assms(1) by (simp add: core_inv_def life_inv_def)
  moreover have "text_inv cfg (s\<lparr>ps_tracker := t, ps_selection := Some sel, ps_final := FinalPending\<rparr>)"
    using assms(1,3) t by (auto simp: core_inv_def text_inv_def candidate_ok_def)
  moreover have "phase_inv cfg (s\<lparr>ps_tracker := t, ps_selection := Some sel, ps_final := FinalPending\<rparr>)"
    using assms(1,3) nf by (auto simp: core_inv_def phase_inv_def candidate_ok_def)
  ultimately show ?thesis by (simp add: core_inv_def)
qed

lemma selection_none_exhausted:
  "core_inv cfg s \<Longrightarrow> ps_selection s = None \<Longrightarrow>
     lt_exhausted (ps_tracker s) = (if ps_latched s then Some ProviderWorkX else None)"
  by (auto simp: core_inv_def sel_inv_def split: option.splits)

lemma core_tracker_facts:
  "core_inv cfg s \<Longrightarrow> tracker_ok (ps_tracker s) \<and> lt_limits (ps_tracker s) = pc_limits cfg"
  by (simp add: core_inv_def sel_inv_def)

lemma tracker_refl: "s\<lparr>ps_tracker := ps_tracker s, ps_selection := x, ps_final := f\<rparr> =
    s\<lparr>ps_selection := x, ps_final := f\<rparr>"
  by (cases s) simp

lemma frame_selected:
  "selection_frame s (s\<lparr>ps_tracker := t, ps_selection := x, ps_final := f\<rparr>)"
proof -
  have "s\<lparr>ps_tracker := t, ps_selection := x, ps_final := f\<rparr> =
      s\<lparr>ps_latched := ps_latched s, ps_tracker := t, ps_cleanup := ps_cleanup s, ps_selection := x, ps_final := f\<rparr>"
    by (cases s) simp
  then show ?thesis unfolding selection_frame_def by blast
qed

lemma select_locked_core:
  assumes "core_inv cfg s" "ps_selection s = None" "candidate_ok cfg s sel"
    and "ps_latched s \<Longrightarrow> sel = deadline_outcome cfg" "\<not> ps_latched s \<Longrightarrow> \<not> is_limit_outcome sel"
  shows "\<exists>s'. select_locked sel s = (Inr (), s') \<and> core_inv cfg s' \<and> selection_frame s s' \<and>
    ps_selection s' = Some sel"
proof -
  have "core_inv cfg (s\<lparr>ps_tracker := ps_tracker s, ps_selection := Some sel, ps_final := FinalPending\<rparr>)"
    using selected_core [OF assms(1-3), of "ps_tracker s"] core_tracker_facts [OF assms(1)]
      selection_none_exhausted [OF assms(1,2)] assms(4,5) by simp
  moreover have "selection_frame s (s\<lparr>ps_selection := Some sel, ps_final := FinalPending\<rparr>)"
    using frame_selected [where s = s and t = "ps_tracker s"] by (simp only: tracker_refl)
  ultimately show ?thesis
    using assms(2) by (simp add: select_locked_def tracker_refl)
qed

lemma select_deadline_core:
  assumes "core_inv cfg s" "ps_selection s = None"
  shows "\<exists>s'. select_deadline cfg s = (Inr (), s') \<and> core_inv cfg s' \<and> selection_frame s s' \<and>
    ps_selection s' = Some (deadline_outcome cfg)"
proof -
  obtain s1 where s1: "latch_provider_deadline s = (Inr (), s1)" "core_inv cfg s1" "selection_frame s s1"
    "ps_selection s1 = None" "ps_latched s1" using latch_core [OF assms] by blast
  have "candidate_ok cfg s1 (deadline_outcome cfg)" by (simp add: deadline_outcome_def)
  then obtain s' where "select_locked (deadline_outcome cfg) s1 = (Inr (), s')" "core_inv cfg s'"
    "selection_frame s1 s'" "ps_selection s' = Some (deadline_outcome cfg)"
    using select_locked_core [OF s1(2,4)] s1(5) by blast
  with s1 selection_frame_trans show ?thesis by (auto simp: select_deadline_def seq_simps)
qed

lemma select_candidate_core:
  assumes "core_inv cfg s" "candidate_ok cfg s sel" "\<not> is_limit_outcome sel"
  shows "\<exists>s' x. select_candidate cfg due sel s = (Inr x, s') \<and> core_inv cfg s' \<and> selection_frame s s' \<and>
    ps_selection s' = Some x \<and>
    (ps_selection s = None \<longrightarrow> x = sel \<or> x = deadline_outcome cfg) \<and>
    (ps_selection s \<noteq> None \<longrightarrow> s' = s)"
proof (cases "ps_selection s")
  case (Some x)
  then show ?thesis using assms(1) by (simp add: select_candidate_def)
next
  case None
  show ?thesis
  proof (cases "ps_latched s \<or> due")
    case True
    with None select_deadline_core [OF assms(1) None] show ?thesis
      by (auto simp: select_candidate_def seq_simps)
  next
    case False
    with None select_locked_core [OF assms(1) None assms(2)] assms(3) show ?thesis
      by (auto simp: select_candidate_def seq_simps)
  qed
qed

lemma select_deadline_if_due_core:
  assumes "core_inv cfg s"
  shows "\<exists>s' b. select_deadline_if_due cfg due s = (Inr b, s') \<and> core_inv cfg s' \<and> selection_frame s s' \<and>
    (\<not> b \<longrightarrow> s' = s \<and> (ps_selection s \<noteq> None \<or> \<not> ps_latched s)) \<and> (ps_selection s \<noteq> None \<longrightarrow> s' = s)"
  using assms select_deadline_core [of cfg s]
  by (cases "ps_selection s") (auto simp: select_deadline_if_due_def seq_simps)

end
