(* ===== verification/Emission.thy ===== *)
theory Emission
  imports Event_Writer
begin

section \<open>When an emission succeeds\<close>

text \<open>
  The ordered writer can refuse a session event only because its fields break a wire constraint,
  because its line is too long, because the sequence is exhausted, or because the sink fails. Here
  is the converse: a valid event whose text stays within the assistant output ceiling always fits
  one protocol line, and then \<open>emit_session\<close> publishes exactly that event.
\<close>

subsection \<open>The size of a line\<close>

definition wire_size :: "ustr \<Rightarrow> nat" where "wire_size s = length (utf8_bytes s)"

lemma wire_size_simps [simp]:
  "wire_size [] = 0"
  "wire_size (s @ t) = wire_size s + wire_size t"
  "wire_size (c # s) = length (utf8_char c) + wire_size s"
  by (simp_all add: wire_size_def)

lemma utf8_char_small: "c < 128 \<Longrightarrow> length (utf8_char c) = 1"
  by (simp add: utf8_char_def)

lemma wire_size_ascii: "list_all (\<lambda>c. c < 128) s \<Longrightarrow> wire_size s = length s"
  by (induction s) (simp_all add: utf8_char_small)

lemma wire_size_le: "wire_size s \<le> 4 * length s"
proof (induction s)
  case (Cons c s)
  have "length (utf8_char c) \<le> 4" by (simp add: utf8_char_def)
  with Cons show ?case by simp
qed simp

lemma escape_char_size: "wire_size (escape_char c) \<le> 6 * length (utf8_char c)"
proof -
  have "0 < length (utf8_char c)" by (rule length_utf8_char_pos)
  moreover have "hex_digit n < 128" if "n < 16" for n using that by (simp add: hex_digit_def)
  then have "c < 32 \<Longrightarrow> hex_digit (c div 16) < 128 \<and> hex_digit (c mod 16) < 128" by simp
  ultimately show ?thesis by (auto simp: escape_char_def utf8_char_small)
qed

lemma dumps_string_size: "wire_size (dumps_string s) \<le> 6 * wire_size s + 2"
proof -
  have "wire_size (concat (map escape_char s)) \<le> 6 * wire_size s"
  proof (induction s)
    case (Cons c s)
    with escape_char_size [of c] show ?case by simp
  qed simp
  then show ?thesis by (simp add: dumps_string_def utf8_char_small)
qed

lemma dec_nat_size: "n < 10 ^ k \<Longrightarrow> 0 < k \<Longrightarrow> length (dec_nat n) \<le> k"
proof (induction k arbitrary: n)
  case (Suc k)
  show ?case
  proof (cases "n < 10")
    case True
    then show ?thesis by (simp add: dec_nat.simps [of n])
  next
    case False
    with Suc.prems have "n div 10 < 10 ^ k" "0 < k"
      by (auto simp: less_mult_imp_div_less mult.commute intro!: gr0I)
    with Suc.IH [of "n div 10"] False show ?thesis by (simp add: dec_nat.simps [of n])
  qed
qed simp

lemma sequence_size:
  assumes "Sequence q"
  shows "wire_size (dec_int q) \<le> 16"
proof -
  have "nat q < 10 ^ 16" using assms by (simp add: Sequence_def MAX_SAFE_SEQUENCE_def nat_less_iff)
  then have "length (dec_nat (nat q)) \<le> 16" by (rule dec_nat_size) simp
  moreover have "list_all (\<lambda>c. c < 128) (dec_nat (nat q))"
    by (auto simp: list_all_iff dest!: dec_nat_digits)
  ultimately show ?thesis using assms by (simp add: dec_int_def Sequence_def wire_size_ascii)
qed

text \<open>The texts of a session event that the assistant output ceiling bounds.\<close>

fun payload_fits :: "session_event \<Rightarrow> bool" where
  "payload_fits (AssistantDeltaEvent _ t) = (wire_size t \<le> 8192)"
| "payload_fits (AssistantCompletedEvent _ t) = (wire_size t \<le> 8192)"
| "payload_fits (SessionFailedEvent _ _ m) = list_all is_scalar m"
| "payload_fits _ = True"

lemma tagged_id_size:
  assumes "tagged_id tag s" "length tag = 4"
  shows "wire_size s \<le> 272"
proof -
  have "length s \<le> 68" using assms by (auto simp: tagged_id_def Let_def)
  with wire_size_le [of s] show ?thesis by simp
qed

lemma id_size: "SessionId s \<Longrightarrow> wire_size s \<le> 272" "CommandId s \<Longrightarrow> wire_size s \<le> 272"
  unfolding SessionId_def CommandId_def by (erule tagged_id_size; simp)+

lemma fits_template_length: "fits_template p s \<Longrightarrow> length s = length p"
  by (induction p s rule: fits_template.induct) simp_all

lemma timestamp_size: "Timestamp s \<Longrightarrow> wire_size s \<le> 96"
  using wire_size_le [of s] fits_template_length [of "''9999-99-99T99:99:99.999Z''" s]
  by (simp add: Timestamp_def)

lemma error_code_size: "ErrorCode s \<Longrightarrow> wire_size s \<le> 256"
  using wire_size_le [of s] by (cases s) (auto simp: ErrorCode_def)

lemma message_size: "SafeMessage s \<Longrightarrow> wire_size s \<le> 4096"
  using wire_size_le [of s] by (auto simp: SafeMessage_def)

lemma session_type_size: "wire_size (dumps_string (lit (session_type_name t))) \<le> 30"
  by (cases t) (simp_all add: dumps_string_def escape_char_def utf8_char_def)

lemma field_size:
  "wire_size (dumps_string (lit k) @ 58 # dumps v) = wire_size (dumps_string (lit k)) + 1 + wire_size (dumps v)"
  by (simp add: utf8_char_small)

lemma key_size:
  "wire_size (dumps_string (lit ''protocol_version'')) = 18" "wire_size (dumps_string (lit ''type'')) = 6"
  "wire_size (dumps_string (lit ''session_id'')) = 12" "wire_size (dumps_string (lit ''sequence'')) = 10"
  "wire_size (dumps_string (lit ''timestamp'')) = 11" "wire_size (dumps_string (lit ''correlation_id'')) = 16"
  "wire_size (dumps_string (lit ''payload'')) = 9" "wire_size (dumps_string (lit ''text'')) = 6"
  "wire_size (dumps_string (lit ''code'')) = 6" "wire_size (dumps_string (lit ''message'')) = 9"
  "wire_size (dumps (JInt PROTOCOL_VERSION)) = 1"
  by (simp_all add: dumps_string_def escape_char_def utf8_char_def PROTOCOL_VERSION_def dec_int_def dec_nat.simps)

fun member_size :: "document \<Rightarrow> nat" where
  "member_size [] = 0"
| "member_size ((k, v) # kvs) = wire_size (dumps_string k @ 58 # dumps v) + 1 + member_size kvs"

lemma object_size: "wire_size (dumps (JObj kvs)) \<le> member_size kvs + 2"
proof -
  have "wire_size (py_join [44] (map (\<lambda>(k, v). dumps_string k @ 58 # dumps v) kvs)) \<le> member_size kvs"
  proof (induction kvs rule: member_size.induct)
    case (2 k v kvs)
    then show ?case by (cases kvs) (simp_all add: utf8_char_small split: prod.splits)
  qed simp
  then show ?thesis by (simp add: utf8_char_small)
qed

lemma member_size_append: "member_size (a @ b) = member_size a + member_size b"
  by (induction a rule: member_size.induct) simp_all

lemma text_member_size:
  "wire_size t \<le> n \<Longrightarrow> wire_size (dumps_string (lit k)) = m \<Longrightarrow>
     wire_size (dumps_string (lit k) @ 58 # dumps (JStr t)) + 1 \<le> m + 6 * n + 4"
  using dumps_string_size [of t] unfolding field_size by simp

lemma payload_size:
  assumes "session_payload_ok e" "payload_fits e"
  shows "member_size (session_payload_document e) \<le> 49200"
proof (cases e)
  case (SessionFailedEvent b c m)
  with assms(1) have "wire_size c \<le> 256" "wire_size m \<le> 4096" by (simp_all add: error_code_size message_size)
  with text_member_size [of c 256 "''code''" 6] text_member_size [of m 4096 "''message''" 9] key_size
  show ?thesis unfolding SessionFailedEvent
    by (simp add: session_payload_document_def del: wire_size_simps dumps.simps lit_simps)
next
  case (AssistantDeltaEvent b t)
  with assms(2) text_member_size [of t 8192 "''text''" 6] key_size show ?thesis
    by (simp add: session_payload_document_def del: wire_size_simps dumps.simps lit_simps)
next
  case (AssistantCompletedEvent b t)
  with assms(2) text_member_size [of t 8192 "''text''" 6] key_size show ?thesis
    by (simp add: session_payload_document_def del: wire_size_simps dumps.simps lit_simps)
qed (simp_all add: session_payload_document_def)

lemma correlation_size:
  "correlation_ok c \<Longrightarrow> member_size (correlation_entry c) \<le> 1652"
  using text_member_size [of "the c" 272 "''correlation_id''" 16] key_size id_size(2) [of "the c"]
  by (cases c) (simp_all add: correlation_entry_def correlation_ok_def
      del: wire_size_simps dumps.simps lit_simps)

lemma session_event_size:
  assumes "session_event_ok e" "payload_fits e"
  shows "wire_size (dumps (JObj (dump_event (SessionEv e)))) \<le> MAX_PROTOCOL_LINE_BYTES"
proof -
  let ?b = "session_event_base_of e"
  have ok: "SessionId (event_session e)" "Sequence (event_sequence e)" "Timestamp (se_timestamp ?b)"
    "correlation_ok (event_correlation e)" "session_payload_ok e"
    using assms(1) by (simp_all add: session_event_ok_def session_event_base_ok_def)
  have "wire_size (dumps (JObj (session_payload_document e))) \<le> 49202"
    using payload_size [OF ok(5) assms(2)] object_size [of "session_payload_document e"] by simp
  moreover have "wire_size (dumps (JInt (event_sequence e))) \<le> 16" using sequence_size [OF ok(2)] by simp
  moreover have "wire_size (dumps (JStr (lit (session_type_name (session_event_type_of e))))) \<le> 30"
    using session_type_size by simp
  ultimately have "member_size (dump_event (SessionEv e)) \<le> 65000"
    using text_member_size [OF id_size(1) [OF ok(1)] key_size(3)]
      text_member_size [OF timestamp_size [OF ok(3)] key_size(5)] correlation_size [OF ok(4)] key_size
    unfolding dump_event.simps member_size_append member_size.simps field_size by linarith
  with object_size [of "dump_event (SessionEv e)"] show ?thesis
    by (simp add: MAX_PROTOCOL_LINE_BYTES_def del: wire_size_simps dumps.simps dump_event.simps)
qed

subsection \<open>The characters of a line\<close>

abbreviation scalars :: "ustr \<Rightarrow> bool" where "scalars s \<equiv> list_all is_scalar s"

lemma is_scalar_small: "c < 0xD800 \<Longrightarrow> is_scalar c"
  by (simp add: is_scalar_def is_surrogate_def)

lemma char_code_scalar: "is_scalar (of_char c)"
proof -
  have "(of_char c :: nat) < 256" by (rule nat_of_char_less_256)
  then show ?thesis by (intro is_scalar_small) linarith
qed

lemma scalars_lit [simp]: "scalars (lit s)"
  by (auto simp: lit_def list_all_iff char_code_scalar)

lemma escape_char_scalars: "is_scalar c \<Longrightarrow> scalars (escape_char c)"
proof -
  have "hex_digit n < 0xD800" if "n < 16" for n using that by (simp add: hex_digit_def)
  then have "c < 32 \<Longrightarrow> is_scalar (hex_digit (c div 16)) \<and> is_scalar (hex_digit (c mod 16))"
    by (simp add: is_scalar_small)
  then show "is_scalar c \<Longrightarrow> scalars (escape_char c)"
    by (auto simp: escape_char_def is_scalar_small)
qed

lemma dumps_string_scalars: "scalars s \<Longrightarrow> scalars (dumps_string s)"
  using escape_char_scalars by (fastforce simp: dumps_string_def list_all_iff is_scalar_small)

lemma dec_int_scalars: "scalars (dec_int i)"
  by (auto simp: dec_int_def list_all_iff is_scalar_small dest!: dec_nat_digits)

lemma py_join_scalars: "scalars sep \<Longrightarrow> (\<And>w. w \<in> set ws \<Longrightarrow> scalars w) \<Longrightarrow> scalars (py_join sep ws)"
  by (induction sep ws rule: py_join.induct) auto

fun document_scalars :: "document \<Rightarrow> bool" where
  "document_scalars [] = True"
| "document_scalars ((k, v) # kvs) = (scalars k \<and> scalars (dumps v) \<and> document_scalars kvs)"

lemma document_scalars_append: "document_scalars (a @ b) \<longleftrightarrow> document_scalars a \<and> document_scalars b"
  by (induction a rule: document_scalars.induct) auto

lemma object_scalars: "document_scalars kvs \<Longrightarrow> scalars (dumps (JObj kvs))"
proof -
  assume "document_scalars kvs"
  then have "scalars k \<and> scalars (dumps v)" if "(k, v) \<in> set kvs" for k v
    using that by (induction kvs rule: document_scalars.induct) auto
  then have "scalars w" if "w \<in> set (map (\<lambda>(k, v). dumps_string k @ 58 # dumps v) kvs)" for w
    using that by (auto simp: dumps_string_scalars is_scalar_small)
  then show ?thesis by (auto simp: is_scalar_small intro: py_join_scalars)
qed

lemma id_scalars:
  "SessionId s \<Longrightarrow> scalars s" "CommandId s \<Longrightarrow> scalars s"
proof -
  have "scalars s" if t: "tagged_id tag s" for tag
  proof -
    have p: "take (length tag) s = lit tag" using t by (simp add: tagged_id_def starts_with_def Let_def)
    have "list_all is_id_char (drop (length tag) s)" using t by (simp add: tagged_id_def Let_def)
    then have "scalars (drop (length tag) s)"
      by (auto simp: list_all_iff is_id_char_def is_lower_def is_upper_def is_digit_def is_scalar_small)
    then have "scalars (take (length tag) s @ drop (length tag) s)" using p by simp
    then show ?thesis by (simp only: append_take_drop_id)
  qed
  then show "SessionId s \<Longrightarrow> scalars s" "CommandId s \<Longrightarrow> scalars s" by (auto simp: SessionId_def CommandId_def)
qed

lemma timestamp_scalars: "Timestamp s \<Longrightarrow> scalars s"
proof -
  have "fits_template p s \<Longrightarrow> scalars s" for p
    by (induction p s rule: fits_template.induct)
      (auto simp: is_digit_def is_scalar_small char_code_scalar split: if_splits)
  then show "Timestamp s \<Longrightarrow> scalars s" by (auto simp: Timestamp_def)
qed

lemma error_code_scalars: "ErrorCode s \<Longrightarrow> scalars s"
  by (cases s) (auto simp: ErrorCode_def list_all_iff is_code_char_def is_lower_def is_digit_def is_scalar_small)

lemma session_event_scalars:
  assumes "session_event_ok e" "payload_fits e"
  shows "scalars (dumps (JObj (dump_event (SessionEv e))))"
proof -
  let ?b = "session_event_base_of e"
  have ok: "SessionId (event_session e)" "Timestamp (se_timestamp ?b)"
    "correlation_ok (event_correlation e)" "session_payload_ok e"
    using assms(1) by (simp_all add: session_event_ok_def session_event_base_ok_def)
  have "document_scalars (session_payload_document e)"
    using ok(4) assms(2)
    by (cases e) (auto simp: session_payload_document_def AssistantText_iff error_code_scalars
        intro!: dumps_string_scalars simp del: lit_simps)
  moreover have "document_scalars (correlation_entry (event_correlation e))"
    using ok(3) by (cases "event_correlation e")
      (auto simp: correlation_entry_def correlation_ok_def id_scalars dumps_string_scalars simp del: lit_simps)
  ultimately have "document_scalars (dump_event (SessionEv e))"
    using ok(1,2)
    by (simp add: document_scalars_append object_scalars dec_int_scalars dumps_string_scalars id_scalars
        timestamp_scalars del: lit_simps dumps.simps(7))
  then show ?thesis by (rule object_scalars)
qed

subsection \<open>The emission\<close>

lemma session_event_encodes:
  assumes "session_event_ok e" "payload_fits e"
  shows "\<exists>line. encode_event (SessionEv e) = Inr line"
  using session_event_size [OF assms] session_event_scalars [OF assms]
  by (simp add: encode_event_def encode_message_def utf8_encode_def wire_size_def
      del: dumps.simps dump_event.simps)

text \<open>The document the writer builds is the one whose validation gives back the event.\<close>

lemmas session_data_eval = session_event_data_def PROTOCOL_VERSION_def dump_event_eval dump_eval

lemma session_data_valid:
  assumes ok: "session_event_ok e" and ts: "env_timestamp env = se_timestamp (session_event_base_of e)"
  shows "event_model_validate (lit (session_type_name (session_event_type_of e)))
    (session_event_data env (lit (session_type_name (session_event_type_of e))) (event_session e)
       (event_sequence e) (session_payload_document e) (event_correlation e)) = Some (Inr (SessionEv e))"
proof (cases e)
  case (SessionStartedEvent b)
  with assms show ?thesis
    by (cases b; cases "se_correlation b") (simp_all add: session_data_eval del: lit_simps)
next
  case (AssistantDeltaEvent b t)
  with assms show ?thesis
    by (cases b; cases "se_correlation b") (simp_all add: session_data_eval del: lit_simps)
next
  case (AssistantCompletedEvent b t)
  with assms show ?thesis
    by (cases b; cases "se_correlation b") (simp_all add: session_data_eval del: lit_simps)
next
  case (SessionCompletedEvent b)
  with assms show ?thesis
    by (cases b; cases "se_correlation b") (simp_all add: session_data_eval del: lit_simps)
next
  case (SessionCancelledEvent b)
  with assms show ?thesis
    by (cases b; cases "se_correlation b") (simp_all add: session_data_eval del: lit_simps)
next
  case (SessionFailedEvent b c m)
  with assms show ?thesis
    by (cases b; cases "se_correlation b") (simp_all add: session_data_eval del: lit_simps)
qed

lemma emit_session_publishes:
  assumes ok: "session_event_ok e" "payload_fits e"
    and b: "event_sequence e = next_sequence w (event_session e)"
      "env_timestamp env = se_timestamp (session_event_base_of e)"
    and env: "env_sink env = None" "\<not> env_cancelled env"
  shows "\<exists>w'. emit_session env (lit (session_type_name (session_event_type_of e))) (event_session e)
      (session_payload_document e) (event_correlation e) w = (Inr (SessionEv e), w') \<and> wrote w w' (SessionEv e)"
proof -
  let ?t = "lit (session_type_name (session_event_type_of e))"
  let ?p = "session_payload_document e" and ?c = "event_correlation e" and ?sid = "event_session e"
  let ?doc = "session_event_data env ?t ?sid (event_sequence e) ?p ?c"
  have seq: "\<not> MAX_SAFE_SEQUENCE < next_sequence w ?sid"
    using ok(1) b(1) by (simp add: session_event_ok_def session_event_base_ok_def Sequence_def)
  have v: "validate_event ?doc = Inr (SessionEv e)"
    using session_data_valid [OF ok(1) b(2)]
    by (simp add: validate_event_def validate_union_def session_data_fields(6) del: lit_simps)
  obtain line where l: "encode_event (SessionEv e) = Inr line" using session_event_encodes [OF ok] by blast
  obtain w' where e: "emit_session env ?t ?sid ?p ?c w = (Inr (SessionEv e), w')"
    using seq v l env b(1) by (auto simp: emit_session_def Let_def publish_event_def write_line_def)
  then have "emit env (EmitSession ?t ?sid ?p ?c) w = (Inr (SessionEv e), w')" by simp
  then have "wrote w w' (SessionEv e)" using env(2) by (cases rule: emit_cases) auto
  with e show ?thesis by blast
qed

subsection \<open>Properties\<close>

text \<open>C13: A valid session event whose text stays within the assistant output ceiling always
  encodes: escapes, identifiers and fields together never exceed one protocol line.\<close>

theorem session_event_fits_line:
  assumes "event_ok (SessionEv e)"
    and "case e of AssistantDeltaEvent _ t \<Rightarrow> length (utf8_bytes t) \<le> 8192
      | AssistantCompletedEvent _ t \<Rightarrow> length (utf8_bytes t) \<le> 8192
      | SessionFailedEvent _ _ m \<Rightarrow> list_all is_scalar m | _ \<Rightarrow> True"
  shows "\<exists>line. encode_event (SessionEv e) = Inr line \<and> length line \<le> MAX_PROTOCOL_LINE_BYTES + 1"
proof -
  have ok: "session_event_ok e" "payload_fits e" using assms by (cases e; simp add: wire_size_def)+
  then obtain line where l: "encode_event (SessionEv e) = Inr line" using session_event_encodes by blast
  then have "length line \<le> MAX_PROTOCOL_LINE_BYTES + 1"
    by (auto simp: encode_event_def encode_message_def split: option.splits if_splits simp del: dump_event.simps dumps.simps)
  with l show ?thesis by blast
qed

theorem session_event_fits_line_witness:
  "\<exists>line. encode_event example_event = Inr line \<and> length line \<le> MAX_PROTOCOL_LINE_BYTES + 1"
  using session_event_fits_line [of "AssistantDeltaEvent
       \<lparr>se_session_id = lit ''ses_1'', se_sequence = 2, se_timestamp = lit ''2026-01-01T00:00:00.000Z'',
        se_correlation = Some (lit ''cmd_1'')\<rparr> [104, 233, 10, 34]"] example_event_ok
  unfolding example_event_def by (simp add: utf8_char_def del: event_ok.simps)

end
