(* ===== verification/Runtime_Events.thy ===== *)
theory Runtime_Events
  imports Emission
begin

section \<open>What a runtime event's emission publishes\<close>

text \<open>
  The two runtime events of the protocol, for the loop of \<open>runtime.py\<close>: an emission publishes
  exactly the event of its arguments or nothing, and a \<open>runtime.error\<close> whose code and message are
  valid always fits one line, so a working sink publishes it. \<open>grows\<close> relates the writer before
  and after a producer's work.
\<close>

definition runtime_document :: "write_env \<Rightarrow> ustr \<Rightarrow> document \<Rightarrow> ustr option \<Rightarrow> document" where
  "runtime_document env event_type payload correlation_id =
     [(lit ''protocol_version'', JInt 1), (lit ''type'', JStr event_type),
      (lit ''timestamp'', JStr (env_timestamp env)), (lit ''payload'', JObj payload)] @
     correlation_entry correlation_id"

lemma runtime_document_fields:
  "get_text (runtime_document env t p c) ''timestamp'' = env_timestamp env"
  "get_correlation (runtime_document env t p c) = c"
  "get_object (runtime_document env t p c) ''payload'' = p"
  "map_of (runtime_document env t p c) (lit ''type'') = Some (JStr t)"
  by (cases c; simp add: runtime_document_def get_text_def get_correlation_def
      get_object_def correlation_entry_def del: lit_simps)+

definition error_payload :: "ustr \<Rightarrow> ustr \<Rightarrow> bool \<Rightarrow> document" where
  "error_payload code message recoverable =
     [(lit ''code'', JStr code), (lit ''message'', JStr message), (lit ''recoverable'', JBool recoverable)]"

definition error_event :: "write_env \<Rightarrow> ustr \<Rightarrow> ustr \<Rightarrow> bool \<Rightarrow> ustr option \<Rightarrow> event" where
  "error_event env code message recoverable c =
     RuntimeEv (RuntimeErrorEvent \<lparr>re_timestamp = env_timestamp env, re_correlation = c\<rparr> code message recoverable)"

definition ready_event :: "write_env \<Rightarrow> ustr \<Rightarrow> ustr option \<Rightarrow> event" where
  "ready_event env workspace c =
     RuntimeEv (RuntimeReadyEvent \<lparr>re_timestamp = env_timestamp env, re_correlation = c\<rparr> workspace)"

subsection \<open>The published event\<close>

lemma emit_runtime_event_cases:
  assumes "emit_runtime env (lit n) p c w = (r, w')"
    and "find (\<lambda>(name, _). name = n) runtime_payloads = Some (n, ps)"
  obtains (failed) x where "r = Inl x" "w' = w"
  | (written) "wrote w w' (RuntimeEv (build_runtime_event n (runtime_document env (lit n) p c)))"
      "env_sink env = None"
      "r = (if env_cancelled env then Inl CancelledError
            else Inr (RuntimeEv (build_runtime_event n (runtime_document env (lit n) p c))))"
proof -
  let ?doc = "runtime_document env (lit n) p c"
  have e: "publish_event env ?doc (\<lambda>w. w) w = (r, w')"
    using assms(1) by (simp only: emit_runtime_def runtime_document_def)
  have "emit env (EmitRuntime (lit n) p c) w = (r, w')" using assms(1) by simp
  then show thesis
  proof (cases rule: emit_cases)
    case (failed x)
    then show thesis by (rule that(1))
  next
    case (written ev)
    note sent = written
    from e show thesis
    proof (cases rule: publish_event_cases)
      case (failed x)
      with sent(1) show thesis by (simp add: wrote_def)
    next
      case (written ev' line)
      have "event_model_validate (lit n) ?doc = Some (Inr ev')"
        using validate_event_Inr [OF written(1)] by (auto simp: runtime_document_fields(4) simp del: lit_simps)
      then have "ev' = RuntimeEv (build_runtime_event n ?doc)"
        using assms(2) by (auto simp: event_model_validate_def find_model_lit Let_def split: if_splits)
      moreover have "ev' = ev" using written(3) sent(1) by (simp add: wrote_def)
      ultimately show thesis using sent by (intro that(2)) simp_all
    qed
  qed
qed

lemma runtime_models:
  "find (\<lambda>(name, _). name = ''runtime.error'') runtime_payloads =
     Some (''runtime.error'', [(''code'', True, text_of ErrorCode), (''message'', True, text_of SafeMessage),
       (''recoverable'', True, bool_of)])"
  "find (\<lambda>(name, _). name = ''runtime.ready'') runtime_payloads =
     Some (''runtime.ready'', [(''workspace'', True, text_of NonEmptyString)])"
  by (simp_all add: runtime_payloads_def)

lemma built_runtime_events:
  "RuntimeEv (build_runtime_event ''runtime.error''
      (runtime_document env (lit ''runtime.error'') (error_payload code m b) c)) = error_event env code m b c"
  "RuntimeEv (build_runtime_event ''runtime.ready''
      (runtime_document env (lit ''runtime.ready'') [(lit ''workspace'', JStr ws)] c)) = ready_event env ws c"
  by (simp_all add: build_runtime_event_def Let_def runtime_document_fields error_event_def ready_event_def
      error_payload_def get_text_def [of "_ # _"] get_bool_def [of "_ # _"] del: lit_simps)

lemma emit_error_cases:
  assumes "emit_runtime env (lit ''runtime.error'') (error_payload code m b) c w = (r, w')"
  obtains (failed) x where "r = Inl x" "w' = w"
  | (written) "wrote w w' (error_event env code m b c)" "env_sink env = None"
      "r = (if env_cancelled env then Inl CancelledError else Inr (error_event env code m b c))"
  using assms runtime_models(1)
  by (cases rule: emit_runtime_event_cases) (auto simp only: built_runtime_events intro: that)

lemma emit_ready_cases:
  assumes "emit_runtime env (lit ''runtime.ready'') [(lit ''workspace'', JStr ws)] c w = (r, w')"
  obtains (failed) x where "r = Inl x" "w' = w"
  | (written) "wrote w w' (ready_event env ws c)" "env_sink env = None"
      "r = (if env_cancelled env then Inl CancelledError else Inr (ready_event env ws c))"
  using assms runtime_models(2)
  by (cases rule: emit_runtime_event_cases) (auto simp only: built_runtime_events intro: that)

text \<open>
  \<open>grows P w w'\<close>: only events that satisfy \<open>P\<close> were published from \<open>w\<close> to \<open>w'\<close>, and the numbering
  of the sessions stays contiguous.
\<close>

definition grows :: "(event \<Rightarrow> bool) \<Rightarrow> event_writer \<Rightarrow> event_writer \<Rightarrow> bool" where
  "grows P w w' \<longleftrightarrow>
     (\<exists>es. published_events w' = published_events w @ es \<and> list_all P es) \<and>
     (tape.numbered w \<longrightarrow> tape.numbered w')"

lemma wrote_numbered:
  assumes w: "wrote w w' e" and n: "tape.numbered w"
  shows "tape.numbered w'"
proof (rule tape.numbered_snoc [OF n])
  show "published_events w' = published_events w @ [e]" using w by (simp add: wrote_def)
  show "case tape_key e of None \<Rightarrow> sequence_counter w' = sequence_counter w
      | Some (k, n) \<Rightarrow> n = sequence_counter w k + 1 \<and> sequence_counter w' = (sequence_counter w)(k := n)"
    using w sequence_counter_upd [of w' w]
    by (auto simp: wrote_def next_sequence_def sequence_counter_def fun_eq_iff split: option.splits)
qed

lemma grows_refl [simp]: "grows P w w"
  by (simp add: grows_def)

lemma grows_trans: "grows P w w' \<Longrightarrow> grows P w' w'' \<Longrightarrow> grows P w w''"
  by (fastforce simp: grows_def)

lemma grows_mono: "grows P w w' \<Longrightarrow> (\<And>e. P e \<Longrightarrow> Q e) \<Longrightarrow> grows Q w w'"
  by (fastforce simp: grows_def list_all_iff)

lemma grows_wrote: "wrote w w' e \<Longrightarrow> P e \<Longrightarrow> grows P w w'"
  using wrote_numbered [of w w' e] by (auto simp: grows_def wrote_def)

lemma emit_error_grows:
  "emit_runtime env (lit ''runtime.error'') (error_payload code m b) c w = (r, w') \<Longrightarrow>
     P (error_event env code m b c) \<Longrightarrow> grows P w w'"
  by (erule emit_error_cases) (auto intro: grows_wrote)

lemma emit_session_grows:
  "emit_session env t sid p c w = (r, w') \<Longrightarrow> (\<And>x. event_session x = sid \<Longrightarrow> P (SessionEv x)) \<Longrightarrow> grows P w w'"
  using emit_session_effect [of env t sid p c w r w'] by (auto intro: grows_wrote)

text \<open>What a session publishes: its own events, and errors with one of the given codes.\<close>

definition session_output :: "ustr \<Rightarrow> ustr set \<Rightarrow> event \<Rightarrow> bool" where
  "session_output sid codes e \<longleftrightarrow>
     (case e of
        SessionEv x \<Rightarrow> event_session x = sid
      | RuntimeEv (RuntimeErrorEvent _ code _ _) \<Rightarrow> code \<in> codes
      | RuntimeEv (RuntimeReadyEvent _ _) \<Rightarrow> False)"

subsection \<open>Valid runtime events are published\<close>

lemma runtime_type_size: "wire_size (dumps (JStr (lit (runtime_type_name e)))) = 15"
  by (cases e) (simp_all add: dumps_string_def escape_char_def utf8_char_def)

lemma runtime_event_encodes:
  assumes payload: "member_size (runtime_payload_document e) \<le> 60000" "document_scalars (runtime_payload_document e)"
    and base: "Timestamp (re_timestamp (runtime_event_base_of e))" "correlation_ok (re_correlation (runtime_event_base_of e))"
  shows "\<exists>line. encode_event (RuntimeEv e) = Inr line"
proof -
  let ?c = "re_correlation (runtime_event_base_of e)"
  have "wire_size (dumps (JObj (runtime_payload_document e))) \<le> 60002"
    using object_size [of "runtime_payload_document e"] payload(1) by linarith
  then have "member_size (dump_event (RuntimeEv e)) \<le> 65000"
    using text_member_size [OF timestamp_size [OF base(1)] key_size(5)] correlation_size [OF base(2)] key_size
    by (simp only: dump_event.simps member_size_append member_size.simps field_size runtime_type_size)
  with object_size [of "dump_event (RuntimeEv e)"]
  have size: "wire_size (dumps (JObj (dump_event (RuntimeEv e)))) \<le> MAX_PROTOCOL_LINE_BYTES"
    by (simp add: MAX_PROTOCOL_LINE_BYTES_def del: wire_size_simps dumps.simps dump_event.simps)
  have "document_scalars (correlation_entry ?c)"
    using base(2) by (cases ?c) (auto simp: correlation_entry_def correlation_ok_def id_scalars dumps_string_scalars simp del: lit_simps)
  with payload(2) base(1) have "document_scalars (dump_event (RuntimeEv e))"
    by (simp add: document_scalars_append object_scalars dec_int_scalars dumps_string_scalars timestamp_scalars
        del: lit_simps dumps.simps(7))
  then have "scalars (dumps (JObj (dump_event (RuntimeEv e))))" by (rule object_scalars)
  with size show ?thesis
    by (simp add: encode_event_def encode_message_def utf8_encode_def wire_size_def
        del: dumps.simps dump_event.simps)
qed

lemma error_event_encodes:
  assumes ok: "ErrorCode code" "SafeMessage m" "scalars m" "Timestamp (env_timestamp env)" "correlation_ok c"
  shows "\<exists>line. encode_event (error_event env code m b c) = Inr line"
proof -
  have flag: "wire_size (dumps_string (lit ''recoverable'')) = 13" "wire_size (dumps (JBool b)) \<le> 5"
    by (simp_all add: dumps_string_def escape_char_def utf8_char_def)
  have "member_size (error_payload code m b) \<le> 60000"
    using text_member_size [OF error_code_size [OF ok(1)] key_size(9)]
      text_member_size [OF message_size [OF ok(2)] key_size(10)] flag
    unfolding error_payload_def member_size.simps field_size by linarith
  moreover have "document_scalars (error_payload code m b)"
    using ok by (auto simp: error_payload_def error_code_scalars is_scalar_small intro!: dumps_string_scalars simp del: lit_simps)
  ultimately show ?thesis
    using ok(4,5) unfolding error_event_def error_payload_def
    by (intro runtime_event_encodes) (simp_all add: runtime_payload_document_def del: lit_simps)
qed

lemma ready_event_encodes:
  assumes ok: "wire_size ws \<le> 8192" "scalars ws" "Timestamp (env_timestamp env)" "correlation_ok c"
  shows "\<exists>line. encode_event (ready_event env ws c) = Inr line"
proof -
  have key: "wire_size (dumps_string (lit ''workspace'')) = 11"
    by (simp add: dumps_string_def escape_char_def utf8_char_def)
  have "member_size [(lit ''workspace'', JStr ws)] \<le> 60000"
    using text_member_size [OF ok(1) key] unfolding member_size.simps field_size by linarith
  moreover have "document_scalars [(lit ''workspace'', JStr ws)]"
    using ok(2) by (auto intro!: dumps_string_scalars simp del: lit_simps)
  ultimately show ?thesis
    using ok(3,4) unfolding ready_event_def
    by (intro runtime_event_encodes) (simp_all add: runtime_payload_document_def del: lit_simps)
qed

lemma error_document_valid:
  assumes "ErrorCode code" "SafeMessage m" "Timestamp (env_timestamp env)" "correlation_ok c"
  shows "validate_event (runtime_document env (lit ''runtime.error'') (error_payload code m b) c) =
    Inr (error_event env code m b c)"
proof -
  have "event_model_validate (lit ''runtime.error'')
      (runtime_document env (lit ''runtime.error'') (error_payload code m b) c) = Some (Inr (error_event env code m b c))"
    using assms by (cases c)
      (simp_all add: runtime_document_def error_payload_def error_event_def correlation_ok_def
        PROTOCOL_VERSION_def dump_event_eval dump_eval del: lit_simps)
  then show ?thesis
    by (simp add: validate_event_def validate_union_def runtime_document_fields(4) del: lit_simps)
qed

lemma emit_error_publishes:
  assumes ok: "ErrorCode code" "SafeMessage m" "scalars m" "Timestamp (env_timestamp env)" "correlation_ok c"
    and env: "env_sink env = None" "\<not> env_cancelled env"
  shows "\<exists>w'. emit_runtime env (lit ''runtime.error'') (error_payload code m b) c w =
      (Inr (error_event env code m b c), w') \<and> wrote w w' (error_event env code m b c)"
proof -
  obtain line where "encode_event (error_event env code m b c) = Inr line"
    using error_event_encodes [OF ok] by blast
  moreover have "emit_runtime env (lit ''runtime.error'') p c w =
      publish_event env (runtime_document env (lit ''runtime.error'') p c) (\<lambda>w. w) w" for p
    by (simp only: emit_runtime_def runtime_document_def)
  ultimately have "\<exists>w'. emit_runtime env (lit ''runtime.error'') (error_payload code m b) c w =
      (Inr (error_event env code m b c), w')"
    using error_document_valid [OF ok(1,2,4,5)] env
    by (simp add: publish_event_def write_line_def Let_def del: lit_simps)
  then obtain w' where "emit_runtime env (lit ''runtime.error'') (error_payload code m b) c w =
      (Inr (error_event env code m b c), w')" by blast
  moreover from this env(2) have "wrote w w' (error_event env code m b c)"
    by (cases rule: emit_error_cases) simp_all
  ultimately show ?thesis by blast
qed

lemma emit_ready_publishes:
  assumes ok: "ws \<noteq> []" "wire_size ws \<le> 8192" "scalars ws" "Timestamp (env_timestamp env)" "correlation_ok c"
    and env: "env_sink env = None" "\<not> env_cancelled env"
  shows "\<exists>w'. emit_runtime env (lit ''runtime.ready'') [(lit ''workspace'', JStr ws)] c w =
      (Inr (ready_event env ws c), w') \<and> wrote w w' (ready_event env ws c)"
proof -
  let ?p = "[(lit ''workspace'', JStr ws)]"
  obtain line where l: "encode_event (ready_event env ws c) = Inr line"
    using ready_event_encodes [OF ok(2-5)] by blast
  have "event_model_validate (lit ''runtime.ready'') (runtime_document env (lit ''runtime.ready'') ?p c) =
      Some (Inr (ready_event env ws c))"
    using ok(1,4,5) by (cases c)
      (simp_all add: runtime_document_def ready_event_def correlation_ok_def NonEmptyString_def Suc_le_eq
        PROTOCOL_VERSION_def dump_event_eval dump_eval del: lit_simps)
  then have "validate_event (runtime_document env (lit ''runtime.ready'') ?p c) = Inr (ready_event env ws c)"
    by (simp add: validate_event_def validate_union_def runtime_document_fields(4) del: lit_simps)
  moreover have "emit_runtime env (lit ''runtime.ready'') ?p c w =
      publish_event env (runtime_document env (lit ''runtime.ready'') ?p c) (\<lambda>w. w) w"
    by (simp only: emit_runtime_def runtime_document_def)
  ultimately obtain w' where e: "emit_runtime env (lit ''runtime.ready'') ?p c w = (Inr (ready_event env ws c), w')"
    using l env by (auto simp: publish_event_def write_line_def Let_def simp del: lit_simps)
  then have "wrote w w' (ready_event env ws c)"
    using env(2) by (cases rule: emit_ready_cases) simp_all
  with e show ?thesis by blast
qed

end
