(* ===== verification/Provider_Session_Steps.thy ===== *)
theory Provider_Session_Steps
  imports Provider_Session_Inv Runtime_Events
begin

section \<open>The transactions of the session keep its invariants\<close>

text \<open>
  For every transaction of \<open>Provider_Session\<close>: from a state in \<open>core_inv\<close> whose \<open>run\<close> stands
  where the code calls it, a normal return keeps \<open>core_inv\<close> and establishes \<open>run_inv\<close> of the
  next stage, and an exception keeps \<open>core_inv\<close>. The last part lifts this to the step relation
  and to every reachable state.
\<close>

lemma establishes_returns:
  "(\<And>s. P s \<Longrightarrow> \<exists>x s'. m s = (Inr x, s') \<and> Q x s') \<Longrightarrow> establishes P m Q E"
  by (fastforce simp: establishes_def)

subsection \<open>Publishing one event\<close>

text \<open>
  The state after the event of type \<open>mk\<close> was written and folded: only the writer, the lifecycle
  and the log of updates differ.
\<close>

definition folded ::
  "ps_config \<Rightarrow> (session_event_base \<Rightarrow> session_event) \<Rightarrow> provider_session \<Rightarrow> provider_session \<Rightarrow> bool" where
  "folded cfg mk s s' \<longleftrightarrow>
     (\<exists>b w'. se_session_id b = pc_session_id cfg \<and> se_sequence b = last_sequence (ps_lifecycle s) + 1 \<and>
        event_ok (SessionEv (mk b)) \<and>
        s' = s\<lparr>ps_writer := w',
              ps_lifecycle := reduced_state (apply_event (ps_lifecycle s) (mk b)),
              ps_updates := ps_updates s @ [Wire (mk b)]\<rparr> \<and>
        life_inv cfg s')"

lemma life_inv_session: "life_inv cfg s \<Longrightarrow> session_inv (ps_lifecycle s)"
proof -
  assume "life_inv cfg s"
  then have "reduced_state (replay_session_updates INITIAL_SESSION_STATE (ps_updates s)) = ps_lifecycle s"
    by (simp add: life_inv_def)
  with session.replay_inv [OF session_inv_initial, of "ps_updates s"] show ?thesis by simp
qed

lemma replay_accepts:
  assumes "replay_session_updates INITIAL_SESSION_STATE us = accept l"
    and "reduce_session_state l u = accept l'"
  shows "replay_session_updates INITIAL_SESSION_STATE (us @ [u]) = accept l'"
  using assms by (simp add: session.replay_append)

lemma next_sequence_counter: "next_sequence w sid = sequence_counter w sid + 1"
  by (simp add: next_sequence_def sequence_counter_def)

lemma wrote_session:
  assumes "wrote w w' (SessionEv e)"
  shows "published_events w' = published_events w @ [SessionEv e]"
    "sequence_counter w' = (sequence_counter w)(event_session e := event_sequence e)"
  using assms sequence_counter_upd [of w' w "event_session e" "event_sequence e"]
  by (simp_all add: wrote_def tape_key_def)

lemma wire_accepted:
  assumes "status s \<in> legal_statuses (session_event_type_of e)"
    and "event_correlation e = expected_correlation s e"
    and "session_event_type_of e \<noteq> SessionStartedT \<Longrightarrow> session_id s = Some (event_session e)"
    and "event_sequence e = last_sequence s + 1"
  shows "reduce_session_state s (Wire e) = apply_event s e"
proof -
  have "status s \<notin> TERMINAL_SESSION_STATUSES"
    using assms(1) by (cases e) (auto simp: TERMINAL_SESSION_STATUSES_def)
  then show ?thesis
    using assms by (cases "session_event_type_of e = SessionStartedT")
      (simp_all add: reduce_session_state_def reduce_session_event_def sequence_failure_def)
qed

text \<open>An event whose guards hold in the current lifecycle is written and accepted, or not written.\<close>

lemma emit_and_accept_folds:
  assumes inv: "life_inv cfg s"
    and shape: "\<And>we w ev w'. emit_session we (lit t) (pc_session_id cfg) p c w = (Inr ev, w') \<Longrightarrow>
        ev = SessionEv (mk (emitted_base we (pc_session_id cfg) c w)) \<and> wrote w w' ev"
    and base: "\<And>b. session_event_base_of (mk b) = b"
    and legal: "\<And>b. status (ps_lifecycle s) \<in> legal_statuses (session_event_type_of (mk b))"
      "\<And>b. expected_correlation (ps_lifecycle s) (mk b) = c"
      "\<And>b. session_event_type_of (mk b) \<noteq> SessionStartedT \<Longrightarrow> status (ps_lifecycle s) \<noteq> Starting"
    and app: "\<And>b. \<exists>l'. apply_event (ps_lifecycle s) (mk b) = accept l' \<and> last_sequence l' = se_sequence b \<and>
        status l' \<notin> {Idle, Starting, AwaitingApproval} \<and>
        start_command_id l' = start_command_id (ps_lifecycle s) \<and>
        session_id l' = (if session_event_type_of (mk b) = SessionStartedT then Some (se_session_id b)
                         else session_id (ps_lifecycle s))"
  shows "case emit_and_accept cfg env i t p c s of
      (Inl _, s') \<Rightarrow> s' = s \<or> folded cfg mk s s'
    | (Inr _, s') \<Rightarrow> folded cfg mk s s'"
proof -
  let ?we = "(te_write env i)\<lparr>env_cancelled := False\<rparr>" and ?l = "ps_lifecycle s" and ?w = "ps_writer s"
  let ?b = "emitted_base ?we (pc_session_id cfg) c ?w"
  obtain r w' where e: "emit_session ?we (lit t) (pc_session_id cfg) p c ?w = (r, w')"
    by (cases "emit_session ?we (lit t) (pc_session_id cfg) p c ?w")
  show ?thesis
  proof (cases r)
    case (Inl x)
    with e emit_session_Inl [of ?we "lit t" _ p c ?w x w'] have "w' = ?w" by simp
    with Inl e show ?thesis
      by (simp add: emit_and_accept_def emit_session_event_def seq_simps del: lit_simps)
  next
    case (Inr ev)
    with e shape have ev: "ev = SessionEv (mk ?b)" and wr: "wrote ?w w' (SessionEv (mk ?b))" by auto
    obtain l' where l': "apply_event ?l (mk ?b) = accept l'" "last_sequence l' = se_sequence ?b"
        "status l' \<notin> {Idle, Starting, AwaitingApproval}" "start_command_id l' = start_command_id ?l"
        "session_id l' = (if session_event_type_of (mk ?b) = SessionStartedT then Some (se_session_id ?b)
           else session_id ?l)" using app [of ?b] by blast
    have b: "se_session_id ?b = pc_session_id cfg" "se_sequence ?b = last_sequence ?l + 1" "se_correlation ?b = c"
      using inv by (simp_all add: emitted_base_def next_sequence_counter life_inv_def)
    have st: "session_event_type_of (mk ?b) \<noteq> SessionStartedT \<Longrightarrow> session_id ?l = Some (pc_session_id cfg)"
      using inv legal(3) by (simp add: life_inv_def)
    have red: "reduce_session_state ?l (Wire (mk ?b)) = accept l'"
      using wire_accepted [of ?l "mk ?b"] legal(1,2) [of ?b] st b l'(1) base by simp
    let ?s = "s\<lparr>ps_writer := w', ps_lifecycle := l', ps_updates := ps_updates s @ [Wire (mk ?b)]\<rparr>"
    have "life_inv cfg ?s"
      using inv l' b st wrote_session [OF wr] base [of ?b] replay_accepts [OF _ red]
      by (auto simp: life_inv_def)
    moreover have "event_ok (SessionEv (mk ?b))" using wr by (simp add: wrote_def)
    ultimately have f: "folded cfg mk s ?s"
      unfolding folded_def using b l'(1) by (intro exI [of _ ?b] exI [of _ w']) simp
    then show ?thesis
      using e Inr ev red
      by (auto simp: emit_and_accept_def emit_session_event_def accept_lifecycle_def seq_simps Let_def
          split: option.splits simp del: lit_simps)
  qed
qed

subsection \<open>Accepting a cancellation, and the watcher\<close>

lemma accept_cancellation:
  assumes inv: "life_inv cfg s" and sid: "status (ps_lifecycle s) \<noteq> Starting"
  shows "case accept_lifecycle ob (CancelRequested cmd (pc_session_id cfg)) s of
      (Inl _, s') \<Rightarrow> s' = s \<or> status (ps_lifecycle s) = Running \<and> life_inv cfg s' \<and>
        s' = s\<lparr>ps_lifecycle := (ps_lifecycle s)\<lparr>status := Cancelling, cancel_command_id := Some cmd\<rparr>,
                ps_updates := ps_updates s @ [CancelRequested cmd (pc_session_id cfg)]\<rparr>
    | (Inr _, s') \<Rightarrow> status (ps_lifecycle s) = Running \<and> life_inv cfg s' \<and>
        s' = s\<lparr>ps_lifecycle := (ps_lifecycle s)\<lparr>status := Cancelling, cancel_command_id := Some cmd\<rparr>,
                ps_updates := ps_updates s @ [CancelRequested cmd (pc_session_id cfg)]\<rparr>"
proof (cases "status (ps_lifecycle s) = Running")
  case False
  with inv have "status (ps_lifecycle s) \<notin> {Running, AwaitingApproval}" by (simp add: life_inv_def)
  then have "\<not> reduction_ok (reduce_session_state (ps_lifecycle s) (CancelRequested cmd (pc_session_id cfg)))"
    by (simp add: reduce_session_state_def)
  then show ?thesis by (simp add: accept_lifecycle_def Let_def)
next
  case True
  let ?l = "(ps_lifecycle s)\<lparr>status := Cancelling, cancel_command_id := Some cmd\<rparr>"
  have red: "reduce_session_state (ps_lifecycle s) (CancelRequested cmd (pc_session_id cfg)) = accept ?l"
    using True inv sid by (simp add: reduce_session_state_def life_inv_def TERMINAL_SESSION_STATUSES_def)
  have "life_inv cfg (s\<lparr>ps_lifecycle := ?l, ps_updates := ps_updates s @ [CancelRequested cmd (pc_session_id cfg)]\<rparr>)"
    using inv True replay_accepts [OF _ red] by (simp add: life_inv_def)
  then show ?thesis
    using True red by (auto simp: accept_lifecycle_def seq_simps Let_def split: option.splits)
qed

lemma watcher_during_core:
  assumes "core_inv cfg s"
  shows "\<exists>s'. watcher_during b s = (Inr (), s') \<and> core_inv cfg s' \<and> selection_frame s s' \<and>
    ps_selection s' = ps_selection s \<and> (ps_selection s \<noteq> None \<longrightarrow> s' = s)"
  using assms latch_core [of cfg s]
  by (cases "ps_selection s"; cases b) (auto simp: watcher_during_def watch_provider_deadline_def)

lemma watcher_during_run:
  assumes "core_inv cfg s \<and> run_inv p s"
  shows "\<exists>x s'. watcher_during b s = (Inr x, s') \<and> core_inv cfg s' \<and> run_inv p s'"
proof -
  obtain s' where "watcher_during b s = (Inr (), s')" "core_inv cfg s'" "selection_frame s s'"
    using watcher_during_core [of cfg s b] assms by blast
  with assms run_inv_selection_frame [of s s' p] show ?thesis by blast
qed

lemma watch_core:
  assumes "core_inv cfg s"
  shows "\<exists>s'. watch_provider_deadline s = (Inr (), s') \<and> core_inv cfg s' \<and> selection_frame s s' \<and>
    ps_selection s' = ps_selection s \<and> (ps_selection s \<noteq> None \<longrightarrow> s' = s)"
  using watcher_during_core [OF assms, of True] by (simp add: watcher_during_def)

subsection \<open>The start event\<close>

lemma started_folds:
  assumes "life_inv cfg s" "status (ps_lifecycle s) = Starting"
  shows "case emit_and_accept cfg env i ''session.started'' [] (Some (pc_command_id cfg)) s of
      (Inl _, s') \<Rightarrow> s' = s \<or> folded cfg SessionStartedEvent s s'
    | (Inr _, s') \<Rightarrow> folded cfg SessionStartedEvent s s'"
  using assms(1) by (rule emit_and_accept_folds)
    (use assms in \<open>auto simp: life_inv_def expected_correlation_def dest: emit_started simp del: lit_simps\<close>)

definition started_mid :: "ps_config \<Rightarrow> provider_session \<Rightarrow> bool" where
  "started_mid cfg s \<longleftrightarrow>
     core_inv cfg s \<and> status (ps_lifecycle s) = Running \<and> \<not> ps_events s \<and> \<not> ps_started_ok s \<and>
     concat (ps_accepted_text s) = assistant_text (ps_lifecycle s) \<and>
     (\<forall>sel. ps_selection s = Some sel \<longrightarrow> so_kind sel = CancelledO \<longrightarrow>
        (\<exists>cmd. so_correlation sel = Some cmd \<and> ps_deferred s = Some (CancelRequested cmd (pc_session_id cfg))))"

lemma started_mid_folded:
  assumes core: "core_inv cfg s" and run: "run_inv Publishing s"
    and f: "folded cfg SessionStartedEvent s s'"
  shows "started_mid cfg s'"
proof -
  obtain b w' where s': "s' = s\<lparr>ps_writer := w',
      ps_lifecycle := reduced_state (apply_event (ps_lifecycle s) (SessionStartedEvent b)),
      ps_updates := ps_updates s @ [Wire (SessionStartedEvent b)]\<rparr>" "life_inv cfg s'"
    using f by (auto simp: folded_def)
  have st: "status (ps_lifecycle s) = Starting" "\<not> ps_started_ok s" "\<not> ps_events s" "\<not> ps_terminal_emitted s"
    using core run by (auto simp: core_inv_def phase_inv_def run_inv_def TERMINAL_SESSION_STATUSES_def)
  have ac: "\<not> assistant_completed (ps_lifecycle s)"
    using life_inv_session [of cfg s] core st by (simp add: core_inv_def session_inv_def)
  have "sel_inv cfg s'" using core by (simp add: s'(1) core_inv_def)
  moreover have "text_inv cfg s'" using core by (simp add: s'(1) core_inv_def text_inv_def)
  moreover have "phase_inv cfg s'"
    using core st ac by (auto simp: s'(1) core_inv_def phase_inv_def TERMINAL_SESSION_STATUSES_def)
  moreover have "\<forall>sel. ps_selection s' = Some sel \<longrightarrow> so_kind sel = CancelledO \<longrightarrow>
        (\<exists>cmd. so_correlation sel = Some cmd \<and> ps_deferred s' = Some (CancelRequested cmd (pc_session_id cfg)))"
    using core st by (simp add: s'(1) core_inv_def phase_inv_def)
  ultimately show ?thesis
    using s' st run by (simp add: started_mid_def core_inv_def run_inv_def)
qed

text \<open>Accepting the cancellation that was requested before the start event.\<close>

lemma started_mid_deferred:
  assumes mid: "started_mid cfg s" and c: "ps_deferred s = Some c"
  shows "case accept_lifecycle ob c s of
      (Inl _, s') \<Rightarrow> core_inv cfg s'
    | (Inr _, s') \<Rightarrow> core_inv cfg (s'\<lparr>ps_deferred := None, ps_started_ok := True, ps_start_settled := True\<rparr>) \<and>
        status (ps_lifecycle s') = Cancelling \<and> ps_accepted_text s' = ps_accepted_text s \<and>
        assistant_text (ps_lifecycle s') = assistant_text (ps_lifecycle s)"
proof -
  have core: "core_inv cfg s" and run: "status (ps_lifecycle s) = Running" "\<not> ps_events s" "\<not> ps_started_ok s"
    using mid by (simp_all add: started_mid_def)
  obtain cmd where cmd: "c = CancelRequested cmd (pc_session_id cfg)"
    using core c by (auto simp: core_inv_def phase_inv_def)
  let ?s = "s\<lparr>ps_lifecycle := (ps_lifecycle s)\<lparr>status := Cancelling, cancel_command_id := Some cmd\<rparr>,
      ps_updates := ps_updates s @ [CancelRequested cmd (pc_session_id cfg)]\<rparr>"
  let ?t = "?s\<lparr>ps_deferred := None, ps_started_ok := True, ps_start_settled := True\<rparr>"
  have x: "\<not> ps_terminal_emitted s" "\<not> assistant_completed (ps_lifecycle s) \<or> ps_final s = FinalDone"
    using core run by (auto simp: core_inv_def phase_inv_def TERMINAL_SESSION_STATUSES_def)
  have sel: "so_correlation sel = Some cmd" if "ps_selection s = Some sel" "so_kind sel = CancelledO" for sel
    using mid that c cmd by (auto simp: started_mid_def)
  have tx: "text_inv cfg ?s" using core by (simp add: core_inv_def text_inv_def)
  have p1: "phase_inv cfg ?s"
    using core run x by (auto simp: core_inv_def phase_inv_def TERMINAL_SESSION_STATUSES_def)
  have p2: "phase_inv cfg ?t"
    using core run x sel by (auto simp: core_inv_def phase_inv_def TERMINAL_SESSION_STATUSES_def)
  have "core_inv cfg ?s" if "life_inv cfg ?s" using core that tx p1 by (simp add: core_inv_def)
  moreover have "core_inv cfg ?t" if "life_inv cfg ?s" using core that tx p2 by (simp add: core_inv_def)
  moreover note accept_cancellation [where cfg = cfg and s = s and ob = ob and cmd = cmd] core run
  ultimately show ?thesis
    unfolding cmd core_inv_def [of cfg s]
    by (cases "accept_lifecycle ob (CancelRequested cmd (pc_session_id cfg)) s")
      (auto split: sum.splits simp: core_inv_def)
qed

lemma started_mid_settles:
  assumes mid: "started_mid cfg s" and d: "ps_deferred s = None"
  shows "core_inv cfg (s\<lparr>ps_started_ok := True, ps_start_settled := True\<rparr>)"
proof -
  have "so_kind sel \<noteq> CancelledO" if "ps_selection s = Some sel" for sel
    using mid d that by (auto simp: started_mid_def)
  then have "phase_inv cfg (s\<lparr>ps_started_ok := True, ps_start_settled := True\<rparr>)"
    using mid d by (auto simp: started_mid_def core_inv_def phase_inv_def)
  with mid show ?thesis by (simp add: started_mid_def core_inv_def)
qed

lemma publish_started_core:
  "establishes (\<lambda>s. core_inv cfg s \<and> run_inv Publishing s) (publish_started cfg env)
     (\<lambda>_ s. core_inv cfg s \<and> run_inv StartingOperation s) (\<lambda>_ s. core_inv cfg s)"
proof -
  let ?ok = "\<lambda>s. s\<lparr>ps_started_ok := True, ps_start_settled := True\<rparr>"
  let ?R = "\<lambda>s. core_inv cfg (?ok s) \<and> concat (ps_accepted_text s) = assistant_text (ps_lifecycle s)"
  have a: "establishes (\<lambda>s. core_inv cfg s \<and> run_inv Publishing s)
      (emit_and_accept cfg env 0 ''session.started'' [] (Some (pc_command_id cfg)))
      (\<lambda>_. started_mid cfg) (\<lambda>_. core_inv cfg)"
    unfolding establishes_def
  proof (intro allI impI)
    fix s
    assume p: "core_inv cfg s \<and> run_inv Publishing s"
    then have "life_inv cfg s" "status (ps_lifecycle s) = Starting" by (simp_all add: core_inv_def run_inv_def)
    from started_folds [OF this, of env 0] show
      "case emit_and_accept cfg env 0 ''session.started'' [] (Some (pc_command_id cfg)) s of
        (Inl e, s') \<Rightarrow> core_inv cfg s' | (Inr x, s') \<Rightarrow> started_mid cfg s'"
      using started_mid_folded [of cfg s] p
      by (auto split: prod.splits sum.splits simp: started_mid_def)
  qed
  have b: "establishes (started_mid cfg)
      (ask (\<lambda>s. case ps_deferred s of None \<Rightarrow> ret ()
          | Some c \<Rightarrow> next_do (accept_lifecycle (te_observer env 1) c) (update (\<lambda>s. s\<lparr>ps_deferred := None\<rparr>))))
      (\<lambda>_. ?R) (\<lambda>_. core_inv cfg)"
    unfolding establishes_def
  proof (intro allI impI)
    fix s
    assume m: "started_mid cfg s"
    then have t: "concat (ps_accepted_text s) = assistant_text (ps_lifecycle s)" by (simp add: started_mid_def)
    show "case ask (\<lambda>s. case ps_deferred s of None \<Rightarrow> ret ()
          | Some c \<Rightarrow> next_do (accept_lifecycle (te_observer env 1) c) (update (\<lambda>s. s\<lparr>ps_deferred := None\<rparr>))) s of
        (Inl e, s') \<Rightarrow> core_inv cfg s' | (Inr x, s') \<Rightarrow> ?R s'"
    proof (cases "ps_deferred s")
      case None
      with m t started_mid_settles show ?thesis by simp
    next
      case (Some c)
      with t started_mid_deferred [OF m Some, of "te_observer env 1"] show ?thesis
        by (auto simp: seq_simps split: prod.splits sum.splits)
    qed
  qed
  have c: "establishes ?R (update ?ok) (\<lambda>_ s. core_inv cfg s \<and> run_inv StartingOperation s) (\<lambda>_. core_inv cfg)"
    by (rule establishes_update) (simp add: run_inv_def)
  have d: "establishes (\<lambda>s. core_inv cfg s \<and> run_inv StartingOperation s) (watcher_during (te_latches env))
      (\<lambda>_ s. core_inv cfg s \<and> run_inv StartingOperation s) (\<lambda>_. core_inv cfg)"
    by (rule establishes_returns) (rule watcher_during_run)
  show ?thesis
    unfolding publish_started_def by (intro establishes_next [OF a] establishes_next [OF b] establishes_next [OF c] d)
qed

subsection \<open>Charging the budget\<close>

lemma tracker_core:
  assumes "core_inv cfg s" "ps_selection s = None" "\<not> ps_latched s"
    and "tracker_ok t" "lt_limits t = pc_limits cfg" "lt_exhausted t = None"
      "lt_assistant_output_bytes (ps_tracker s) \<le> lt_assistant_output_bytes t"
      "lt_model_turns_started (ps_tracker s) \<le> lt_model_turns_started t"
  shows "core_inv cfg (s\<lparr>ps_tracker := t\<rparr>)"
proof -
  have "sel_inv cfg (s\<lparr>ps_tracker := t\<rparr>)" using assms by (auto simp: core_inv_def sel_inv_def)
  moreover have "text_inv cfg (s\<lparr>ps_tracker := t\<rparr>)" using assms by (auto simp: core_inv_def text_inv_def)
  ultimately show ?thesis using assms(1) by (simp add: core_inv_def)
qed

lemma charge_selects:
  assumes "core_inv cfg s" "ps_selection s = None" "\<not> ps_latched s" "candidate_ok cfg s sel"
    and t: "tracker_ok t" "lt_limits t = pc_limits cfg"
      "lt_assistant_output_bytes t = lt_assistant_output_bytes (ps_tracker s)"
      "lt_model_turns_started (ps_tracker s) \<le> lt_model_turns_started t"
    and x: "case lt_exhausted t of None \<Rightarrow> \<not> is_limit_outcome sel
      | Some x \<Rightarrow> sel = limit_outcome_of cfg x \<and> x \<noteq> ProviderWorkX"
  shows "\<exists>s'. select_locked sel (s\<lparr>ps_tracker := t\<rparr>) = (Inr (), s') \<and>
    core_inv cfg s' \<and> selection_frame s s' \<and> ps_selection s' = Some sel"
proof -
  have "core_inv cfg (s\<lparr>ps_tracker := t, ps_selection := Some sel, ps_final := FinalPending\<rparr>)"
    by (rule selected_core [OF assms(1,2,4) t]) (use x assms(3) in \<open>auto split: option.splits\<close>)
  then show ?thesis
    using assms(2) frame_selected [where s = s and t = t and x = "Some sel" and f = FinalPending]
    by (simp add: select_locked_def)
qed

lemma admit_facts:
  assumes "admit_model_turn t = (ok, t')" "tracker_ok t" "lt_exhausted t = None"
  shows "tracker_ok t' \<and> lt_limits t' = lt_limits t \<and>
    lt_assistant_output_bytes t' = lt_assistant_output_bytes t \<and>
    lt_model_turns_started t \<le> lt_model_turns_started t' \<and>
    (if ok then lt_exhausted t' = None \<and> 1 \<le> lt_model_turns_started t' else lt_exhausted t' = Some ModelTurnsX)"
  using assms by (auto simp: admit_model_turn_def tracker_ok_def counters_ok_def loop_limits_ok_def split: if_splits)

lemma reserve_facts:
  assumes "tracker_ok t" "lt_exhausted t = None" "1 \<le> lt_model_turns_started t"
  shows "\<exists>ok t'. reserve_assistant_output (PyInt (int n)) t = Inr (ok, t') \<and>
    tracker_ok t' \<and> lt_limits t' = lt_limits t \<and> lt_model_turns_started t' = lt_model_turns_started t \<and>
    (if ok then lt_exhausted t' = None \<and> lt_assistant_output_bytes t' = lt_assistant_output_bytes t + int n
     else lt_exhausted t' = Some AssistantOutputX \<and> lt_assistant_output_bytes t' = lt_assistant_output_bytes t)"
  using assms by (auto simp: reserve_assistant_output_def require_strict_integer_def Let_def
      tracker_ok_def counters_ok_def)

lemma observe_facts:
  assumes "observe_tool_call t = (ok, t')" "tracker_ok t" "lt_exhausted t = None" "1 \<le> lt_model_turns_started t"
  shows "tracker_ok t' \<and> lt_limits t' = lt_limits t \<and>
    lt_assistant_output_bytes t' = lt_assistant_output_bytes t \<and>
    lt_model_turns_started t' = lt_model_turns_started t \<and>
    lt_exhausted t' = (if ok then None else Some ToolCallsX)"
  using assms by (auto simp: observe_tool_call_def tracker_ok_def counters_ok_def Let_def split: if_splits)

lemmas outcome_defs = is_limit_outcome_def failed_outcomes failed_outcome_def completed_outcome_def
  cancelled_outcome_def teardown_outcome_def LOOP_LIMIT_FAILURE_CODES_def limit_codes
  PROVIDER_INVALID_RESPONSE_CODE_def TOOL_UNAVAILABLE_CODE_def

lemma limit_outcomes [simp]:
  "\<not> is_limit_outcome (invalid_response_outcome cfg)" "\<not> is_limit_outcome (tool_unavailable_outcome cfg)"
  "\<not> is_limit_outcome (completed_outcome cfg)" "\<not> is_limit_outcome (cancelled_outcome cmd)"
  "\<not> is_limit_outcome teardown_outcome"
  by (simp_all add: outcome_defs)

lemma provider_failure_not_limit [simp]: "\<not> is_limit_outcome (provider_failed_outcome cfg f)"
  by (cases "pf_code f") (simp_all add: outcome_defs)

lemma is_limit_outcome_of [simp]: "is_limit_outcome (limit_outcome_of cfg x)"
  by (cases x) (simp_all add: outcome_defs)

subsection \<open>Starting the provider operation\<close>

lemma select_deadline_run:
  assumes "core_inv cfg s" "ps_selection s = None" "run_inv p s"
  shows "\<exists>s'. select_deadline cfg s = (Inr (), s') \<and> core_inv cfg s' \<and> run_inv p s'"
  using select_deadline_core [OF assms(1,2)] assms(3) run_inv_selection_frame by blast

lemma operation_core:
  "core_inv cfg s \<Longrightarrow> core_inv cfg (s\<lparr>ps_operation := True\<rparr>)"
  by (simp add: core_inv_def)

lemma start_failed_run:
  assumes "core_inv cfg s" "ps_selection s = None" "run_inv p s"
  shows "\<exists>s'. start_failed cfg due s = (Inr (), s') \<and> core_inv cfg s' \<and> run_inv p s'"
proof (cases "ps_latched s \<or> due")
  case True
  with select_deadline_run [OF assms] show ?thesis by (simp add: start_failed_def)
next
  case False
  have "candidate_ok cfg s (invalid_response_outcome cfg)" by (simp add: invalid_response_outcome_def)
  from select_locked_core [OF assms(1,2) this] False obtain s' where
    "select_locked (invalid_response_outcome cfg) s = (Inr (), s')" "core_inv cfg s'" "selection_frame s s'"
    by auto
  with False assms(3) run_inv_selection_frame [of s s' p] show ?thesis by (simp add: start_failed_def)
qed

lemma run_inv_consuming: "run_inv Consuming = run_inv StartingOperation"
  by (rule ext) (simp add: run_inv_def)

lemma start_provider_operation_core:
  assumes core: "core_inv cfg s" and run: "run_inv StartingOperation s"
  shows "\<exists>s'. start_provider_operation cfg env s = (Inr (), s') \<and> core_inv cfg s' \<and> run_inv Consuming s'"
proof (cases "ps_selection s = None \<and> \<not> (ps_latched s \<or> te_due env 0)")
  case False
  with select_deadline_run [OF core _ run] core run show ?thesis
    by (auto simp: start_provider_operation_def run_inv_consuming)
next
  case True
  then have none: "ps_selection s = None" "\<not> ps_latched s" by simp_all
  obtain ok t where t: "admit_model_turn (ps_tracker s) = (ok, t)" by fastforce
  have tf: "tracker_ok (ps_tracker s)" "lt_limits (ps_tracker s) = pc_limits cfg" "lt_exhausted (ps_tracker s) = None"
    using core_tracker_facts [OF core] selection_none_exhausted [OF core none(1)] none(2) by simp_all
  note f = admit_facts [OF t tf(1,3)]
  have so: "ps_started_ok s" using run by (simp add: run_inv_def)
  show ?thesis
  proof (cases ok)
    case False
    have "\<exists>s'. select_locked (model_turn_outcome cfg) (s\<lparr>ps_tracker := t\<rparr>) = (Inr (), s') \<and>
      core_inv cfg s' \<and> selection_frame s s' \<and> ps_selection s' = Some (model_turn_outcome cfg)"
      by (rule charge_selects [OF core none])
        (use f False tf in \<open>simp_all add: model_turn_outcome_def\<close>)
    then obtain s' where s': "select_locked (model_turn_outcome cfg) (s\<lparr>ps_tracker := t\<rparr>) = (Inr (), s')"
      "core_inv cfg s'" "selection_frame s s'" by blast
    have "start_provider_operation cfg env s = (Inr (), s')"
      using False True t s'(1) by (simp add: start_provider_operation_def seq_simps)
    with s'(2) run_inv_selection_frame [OF s'(3)] run show ?thesis by (simp add: run_inv_consuming)
  next
    case ok: True
    let ?s = "s\<lparr>ps_tracker := t\<rparr>"
    have c: "core_inv cfg ?s" by (rule tracker_core [OF core none]) (use f ok tf in simp_all)
    have r: "run_inv StartingOperation ?s" using run by simp
    let ?o = "?s\<lparr>ps_operation := True\<rparr>"
    have co: "core_inv cfg ?o" "run_inv StartingOperation ?o" "ps_selection ?o = None"
      using c r none by (simp_all add: operation_core)
    have ev: "core_inv cfg (?o\<lparr>ps_events := True\<rparr>)"
      using co(1,3) f ok so by (auto simp: core_inv_def text_inv_def phase_inv_def)
    have base: "start_provider_operation cfg env s = (case te_start env of
          StartRaises \<Rightarrow> start_failed cfg (te_due env 1) ?s
        | EventsRaise \<Rightarrow> start_failed cfg (te_due env 1) ?o
        | StartReturns \<Rightarrow> if ps_latched ?o \<or> te_due env 1 then select_deadline cfg ?o
                          else (Inr (), ?o\<lparr>ps_events := True\<rparr>))"
      using True t ok by (auto simp: start_provider_operation_def seq_simps split: start_result.splits)
    show ?thesis
    proof (cases "te_start env")
      case StartRaises
      with base start_failed_run [OF c _ r] none show ?thesis by (simp add: run_inv_consuming)
    next
      case EventsRaise
      with base start_failed_run [OF co(1,3,2)] show ?thesis by (simp add: run_inv_consuming)
    next
      case StartReturns
      with base ev co select_deadline_run [OF co(1,3,2)] show ?thesis by (auto simp: run_inv_def)
    qed
  qed
qed

subsection \<open>Accepting observations\<close>

lemma open_session:
  assumes "core_inv cfg s" "ps_started_ok s" "ps_final s \<noteq> FinalDone"
  shows "status (ps_lifecycle s) \<in> {Running, Cancelling}" "\<not> assistant_completed (ps_lifecycle s)"
    "\<not> ps_terminal_emitted s"
  using assms
  by (cases "status (ps_lifecycle s)";
      auto simp: core_inv_def phase_inv_def life_inv_def TERMINAL_SESSION_STATUSES_def)+

lemma select_outcome_run:
  assumes "core_inv cfg s" "run_inv p s" "candidate_ok cfg s c" "\<not> is_limit_outcome c"
  shows "\<exists>s'. select_outcome cfg due c s = (Inr (), s') \<and> core_inv cfg s' \<and> run_inv p s'"
proof -
  obtain s' x where "select_candidate cfg due c s = (Inr x, s')" "core_inv cfg s'" "selection_frame s s'"
    using select_candidate_core [OF assms(1,3,4)] by blast
  with assms(2) run_inv_selection_frame [of s s' p] show ?thesis by (simp add: select_outcome_def seq_simps)
qed

lemma select_invalid_run:
  assumes "core_inv cfg s" "run_inv p s"
  shows "\<exists>s'. select_invalid_response cfg due s = (Inr (), s') \<and> core_inv cfg s' \<and> run_inv p s'"
proof -
  have "candidate_ok cfg s (invalid_response_outcome cfg)" by (simp add: invalid_response_outcome_def)
  from select_outcome_run [OF assms this] show ?thesis
    by (simp add: select_invalid_response_def select_outcome_def)
qed

lemma deadline_if_due_run:
  assumes "core_inv cfg s" "run_inv p s"
  shows "\<exists>s'. seq (select_deadline_if_due cfg due) (\<lambda>_. ret ()) s = (Inr (), s') \<and> core_inv cfg s' \<and> run_inv p s'"
proof -
  obtain s' b where "select_deadline_if_due cfg due s = (Inr b, s')" "core_inv cfg s'" "selection_frame s s'"
    using select_deadline_if_due_core [OF assms(1), of due] by blast
  with assms(2) run_inv_selection_frame [of s s' p] show ?thesis by (simp add: seq_simps)
qed

text \<open>What follows an observation that awaited: the watcher, then the deadline check.\<close>

lemma settle_run:
  assumes "core_inv cfg s" "run_inv p s"
  shows "\<exists>s'. next_do (watcher_during b) (seq (select_deadline_if_due cfg due) (\<lambda>_. ret ())) s = (Inr (), s')
    \<and> core_inv cfg s' \<and> run_inv p s'"
proof -
  obtain s1 where "watcher_during b s = (Inr (), s1)" "core_inv cfg s1" "run_inv p s1"
    using watcher_during_run [of cfg s p b] assms by auto
  with deadline_if_due_run [of cfg s1 p due] show ?thesis by (simp add: seq_simps)
qed

lemma delta_folds:
  assumes "life_inv cfg s" "status (ps_lifecycle s) \<in> {Running, Cancelling}"
    "\<not> assistant_completed (ps_lifecycle s)"
  shows "case emit_and_accept cfg env i ''assistant.delta'' [(lit ''text'', JStr t)] (Some (pc_command_id cfg)) s of
      (Inl _, s') \<Rightarrow> s' = s \<or> folded cfg (\<lambda>b. AssistantDeltaEvent b t) s s'
    | (Inr _, s') \<Rightarrow> folded cfg (\<lambda>b. AssistantDeltaEvent b t) s s'"
  using assms(1) by (rule emit_and_accept_folds)
    (use assms in \<open>auto simp: life_inv_def expected_correlation_def dest: emit_delta simp del: lit_simps\<close>)

text \<open>The accepted observation of one stage of the consumer.\<close>

definition consuming :: "ps_config \<Rightarrow> provider_session \<Rightarrow> bool" where
  "consuming cfg s \<longleftrightarrow>
     core_inv cfg s \<and> run_inv Consuming s \<and> ps_events s \<and> ps_selection s = None \<and> \<not> ps_latched s"

lemma delta_text_ok:
  assumes "event_ok (SessionEv (AssistantDeltaEvent b t))"
  shows "AssistantText t" "t \<noteq> []" "a = [] \<or> AssistantText a \<Longrightarrow> AssistantText (a @ t)"
  using assms AssistantText_append [of a t] by (auto simp: session_event_ok_def AssistantText_iff)

lemma delta_folded_core:
  assumes c: "core_inv cfg s" "run_inv Consuming s" "ps_selection s = None" "ps_completed_text s = None"
    and f: "folded cfg (\<lambda>b. AssistantDeltaEvent b t) s s'"
    and room: "ps_accepted_bytes s + int (length (utf8_bytes t)) \<le> lt_assistant_output_bytes (ps_tracker s)"
  shows "core_inv cfg s'" and "core_inv cfg (s'\<lparr>ps_accepted_text := ps_accepted_text s' @ [t],
           ps_accepted_bytes := ps_accepted_bytes s' + int (length (utf8_bytes t))\<rparr>)"
    and "run_inv Consuming (s'\<lparr>ps_accepted_text := ps_accepted_text s' @ [t],
           ps_accepted_bytes := ps_accepted_bytes s' + int (length (utf8_bytes t))\<rparr>)"
proof -
  have so: "ps_started_ok s" "concat (ps_accepted_text s) = assistant_text (ps_lifecycle s)"
    using c(2) by (simp_all add: run_inv_def)
  have nf: "ps_final s = NoFinalizer" using c(1,3) by (simp add: core_inv_def sel_inv_def)
  note os = open_session [OF c(1) so(1)]
  obtain b w' where s': "s' = s\<lparr>ps_writer := w',
      ps_lifecycle := reduced_state (apply_event (ps_lifecycle s) (AssistantDeltaEvent b t)),
      ps_updates := ps_updates s @ [Wire (AssistantDeltaEvent b t)]\<rparr>" "life_inv cfg s'"
      "event_ok (SessionEv (AssistantDeltaEvent b t))"
    using f by (auto simp: folded_def)
  have ne: "t \<noteq> []" "AssistantText (assistant_text (ps_lifecycle s) @ t)"
    using delta_text_ok [OF s'(3)] c(1) by (auto simp: core_inv_def text_inv_def)
  have st: "status (ps_lifecycle s) \<in> {Running, Cancelling}" "\<not> assistant_completed (ps_lifecycle s)"
    "\<not> ps_terminal_emitted s" using os nf by simp_all
  have l: "ps_lifecycle s' = (ps_lifecycle s)\<lparr>last_sequence := se_sequence b, assistant_text := assistant_text (ps_lifecycle s) @ t\<rparr>"
    using s'(1) st by simp
  have sel: "sel_inv cfg s'" using c(1) by (simp add: s'(1) core_inv_def)
  have phase: "phase_inv cfg s'"
    using c(1,3) st nf unfolding s'(1) by (auto simp: core_inv_def phase_inv_def TERMINAL_SESSION_STATUSES_def)
  have bytes: "ps_accepted_bytes s = int (length (utf8_bytes (assistant_text (ps_lifecycle s))))"
    using c(1) so(2) by (simp add: core_inv_def text_inv_def)
  have tx: "text_inv cfg s'"
    using c(1,3) st room bytes ne unfolding s'(1) by (simp add: core_inv_def text_inv_def)
  then show "core_inv cfg s'" using s'(2) sel phase by (simp add: core_inv_def)
  have "text_inv cfg (s'\<lparr>ps_accepted_text := ps_accepted_text s' @ [t],
           ps_accepted_bytes := ps_accepted_bytes s' + int (length (utf8_bytes t))\<rparr>)"
    using c(1,3,4) st room bytes so(2) ne unfolding s'(1) by (simp add: core_inv_def text_inv_def)
  then show "core_inv cfg (s'\<lparr>ps_accepted_text := ps_accepted_text s' @ [t],
           ps_accepted_bytes := ps_accepted_bytes s' + int (length (utf8_bytes t))\<rparr>)"
    using s'(2) sel phase by (simp add: core_inv_def)
  show "run_inv Consuming (s'\<lparr>ps_accepted_text := ps_accepted_text s' @ [t],
           ps_accepted_bytes := ps_accepted_bytes s' + int (length (utf8_bytes t))\<rparr>)"
    using so st unfolding s'(1) by (simp add: run_inv_def)
qed

definition kept :: "ps_config \<Rightarrow> (py_error + unit) \<times> provider_session \<Rightarrow> bool" where
  "kept cfg rs \<longleftrightarrow> core_inv cfg (snd rs) \<and> (case fst rs of Inl _ \<Rightarrow> True | Inr _ \<Rightarrow> run_inv Consuming (snd rs))"

lemma kept_returns: "(\<exists>s'. m = (Inr (), s') \<and> core_inv cfg s' \<and> run_inv Consuming s') \<Longrightarrow> kept cfg m"
  by (auto simp: kept_def)

lemma accept_text_delta_core:
  assumes "consuming cfg s"
  shows "kept cfg (accept_text_delta cfg env t s)"
proof -
  have c: "core_inv cfg s" "run_inv Consuming s" "ps_events s" "ps_selection s = None" "\<not> ps_latched s"
    using assms by (simp_all add: consuming_def)
  have tf: "tracker_ok (ps_tracker s)" "lt_limits (ps_tracker s) = pc_limits cfg"
      "lt_exhausted (ps_tracker s) = None" "1 \<le> lt_model_turns_started (ps_tracker s)"
      "ps_accepted_bytes s \<le> lt_assistant_output_bytes (ps_tracker s)"
    using core_tracker_facts [OF c(1)] selection_none_exhausted [OF c(1,4)] c(1,3,5)
    by (simp_all add: core_inv_def text_inv_def)
  note invalid = select_invalid_run [OF c(1,2), of "te_due env 1"]
  show ?thesis
  proof (cases "ps_completed_text s \<noteq> None \<or> ps_usage_observed s \<or> utf8_encode t = None")
    case True
    with invalid show ?thesis by (intro kept_returns) (auto simp: accept_text_delta_def)
  next
    case False
    then obtain bs where bs: "utf8_encode t = Some bs" "bs = utf8_bytes t"
      by (auto simp: utf8_encode_def split: if_splits)
    show ?thesis
    proof (cases "te_due env 1")
      case True
      with False bs select_deadline_run [OF c(1,4,2)] show ?thesis
        by (intro kept_returns) (auto simp: accept_text_delta_def)
    next
      case nd: False
      obtain ok tr where r: "reserve_assistant_output (PyInt (int (length bs))) (ps_tracker s) = Inr (ok, tr)"
        "tracker_ok tr" "lt_limits tr = lt_limits (ps_tracker s)"
        "lt_model_turns_started tr = lt_model_turns_started (ps_tracker s)"
        "if ok then lt_exhausted tr = None \<and> lt_assistant_output_bytes tr = lt_assistant_output_bytes (ps_tracker s) + int (length bs)
         else lt_exhausted tr = Some AssistantOutputX \<and> lt_assistant_output_bytes tr = lt_assistant_output_bytes (ps_tracker s)"
        using reserve_facts [OF tf(1,3,4), of "length bs"] by blast
      let ?s = "s\<lparr>ps_tracker := tr\<rparr>"
      let ?emit = "emit_and_accept cfg env 0 ''assistant.delta'' [(lit ''text'', JStr t)] (Some (pc_command_id cfg))"
      let ?add = "\<lambda>s. s\<lparr>ps_accepted_text := ps_accepted_text s @ [t],
          ps_accepted_bytes := ps_accepted_bytes s + int (length bs)\<rparr>"
      let ?rest = "next_do (watcher_during (te_latches env)) (seq (select_deadline_if_due cfg (te_due env 3)) (\<lambda>_. ret ()))"
      have base: "accept_text_delta cfg env t s =
          (if \<not> ok then select_locked (output_limit_outcome cfg) ?s
           else if MAX_PROVIDER_TURN_OUTPUT_BYTES < ps_accepted_bytes ?s + int (length bs)
           then select_invalid_response cfg (te_due env 2) ?s
           else next_do ?emit (next_do (update ?add) ?rest) ?s)"
        using False nd bs r(1) c(5) by (simp add: accept_text_delta_def seq_simps)
      show ?thesis
      proof (cases ok)
        case notok: False
        have "\<exists>s'. select_locked (output_limit_outcome cfg) ?s = (Inr (), s') \<and>
          core_inv cfg s' \<and> selection_frame s s' \<and> ps_selection s' = Some (output_limit_outcome cfg)"
          by (rule charge_selects [OF c(1,4,5)])
            (use r notok tf in \<open>simp_all add: output_limit_outcome_def\<close>)
        then obtain s' where "select_locked (output_limit_outcome cfg) ?s = (Inr (), s')" "core_inv cfg s'"
          "selection_frame s s'" by blast
        with base notok c(2) run_inv_selection_frame [of s s' Consuming] show ?thesis by (simp add: kept_def)
      next
        case ok: True
        have cs: "core_inv cfg ?s" by (rule tracker_core [OF c(1,4,5)]) (use r ok tf in simp_all)
        have rs: "run_inv Consuming ?s" using c(2) by simp
        show ?thesis
        proof (cases "MAX_PROVIDER_TURN_OUTPUT_BYTES < ps_accepted_bytes ?s + int (length bs)")
          case True
          with base ok select_invalid_run [OF cs rs] show ?thesis by (intro kept_returns) simp
        next
          case small: False
          have inv: "life_inv cfg ?s" using cs by (simp add: core_inv_def)
          have so: "ps_started_ok ?s" "ps_final ?s \<noteq> FinalDone"
            using c by (auto simp: core_inv_def sel_inv_def run_inv_def)
          note fold = delta_folds [OF inv open_session(1,2) [OF cs so], where env = env and i = 0 and t = t]
          have room: "ps_accepted_bytes ?s + int (length (utf8_bytes t)) \<le> lt_assistant_output_bytes (ps_tracker ?s)"
            using r(5) ok bs tf(5) by simp
          have pre: "ps_selection ?s = None" "ps_completed_text ?s = None" using c(4) False by simp_all
          have fc: "core_inv cfg s' \<and> core_inv cfg (?add s') \<and> run_inv Consuming (?add s')"
            if "folded cfg (\<lambda>b. AssistantDeltaEvent b t) ?s s'" for s'
            using delta_folded_core [OF cs rs pre that room] bs(2) by simp
          obtain res s' where e: "?emit ?s = (res, s')" by fastforce
          have em: "accept_text_delta cfg env t s =
              (case res of Inl x \<Rightarrow> (Inl x, s') | Inr _ \<Rightarrow> ?rest (?add s'))"
            using base ok small e by (simp add: seq_simps split: sum.split)
          show ?thesis
          proof (cases res)
            case (Inl x)
            with fold e fc cs em show ?thesis by (auto simp: kept_def)
          next
            case (Inr u)
            with fold e fc have "core_inv cfg (?add s')" "run_inv Consuming (?add s')" by auto
            from settle_run [OF this, of "te_latches env" "te_due env 3"] em Inr show ?thesis
              by (intro kept_returns) simp
          qed
        qed
      qed
    qed
  qed
qed

lemma accept_text_completed_core:
  assumes "consuming cfg s"
  shows "kept cfg (accept_text_completed cfg env t s)"
proof (cases "ps_completed_text s \<noteq> None \<or> ps_usage_observed s \<or> t \<noteq> concat (ps_accepted_text s)")
  case True
  then have "accept_text_completed cfg env t s = select_invalid_response cfg (te_due env 1) s"
    by (simp add: accept_text_completed_def)
  with assms select_invalid_run [of cfg s Consuming] show ?thesis
    by (intro kept_returns) (simp add: consuming_def)
next
  case False
  then have "accept_text_completed cfg env t s = (Inr (), s\<lparr>ps_completed_text := Some t\<rparr>)"
    by (simp add: accept_text_completed_def)
  moreover have "text_inv cfg (s\<lparr>ps_completed_text := Some t\<rparr>)"
    using assms False by (simp add: consuming_def core_inv_def text_inv_def)
  ultimately show ?thesis using assms by (simp add: kept_def consuming_def core_inv_def)
qed

lemma usage_frames:
  "core_inv cfg (s\<lparr>ps_usage_evidence := u\<rparr>) = core_inv cfg s"
  "core_inv cfg (s\<lparr>ps_usage_observed := b\<rparr>) = core_inv cfg s"
  by (simp_all add: core_inv_def)

lemma accept_usage_core:
  assumes "consuming cfg s"
  shows "kept cfg (accept_usage cfg env i j s)"
proof -
  have c: "core_inv cfg s" "run_inv Consuming s" using assms by (simp_all add: consuming_def)
  let ?m = "ModelUsageObserved (PyStr (pc_session_id cfg)) (PyInt i) (PyInt j)"
  show ?thesis
  proof (cases "ps_completed_text s = None \<or> ps_accepted_text s = [] \<or> ps_usage_observed s \<or> (\<exists>e. ?m = Inl e)")
    case True
    then have "accept_usage cfg env i j s = select_invalid_response cfg (te_due env 1) s"
      by (auto simp: accept_usage_def)
    with c select_invalid_run [of cfg s Consuming] show ?thesis by (intro kept_returns) simp
  next
    case False
    then obtain u where u: "?m = Inr u" by (cases ?m) auto
    let ?rest = "next_do (watcher_during (te_latches env)) (seq (select_deadline_if_due cfg (te_due env 2)) (\<lambda>_. ret ()))"
    let ?e = "s\<lparr>ps_usage_evidence := ps_usage_evidence s @ [u]\<rparr>"
    let ?t = "if ps_usage_attached s then ?e else s"
    have t: "core_inv cfg (?t\<lparr>ps_usage_observed := True\<rparr>)" "run_inv Consuming (?t\<lparr>ps_usage_observed := True\<rparr>)"
      using c by (simp_all add: usage_frames)
    have eq: "accept_usage cfg env i j s =
        (case te_observer env 0 of Some x \<Rightarrow> if ps_usage_attached s then (Inl x, ?e) else ?rest (?t\<lparr>ps_usage_observed := True\<rparr>)
         | None \<Rightarrow> ?rest (?t\<lparr>ps_usage_observed := True\<rparr>))"
      using False u by (auto simp: accept_usage_def seq_simps split: option.split)
    have rest: "kept cfg (?rest (?t\<lparr>ps_usage_observed := True\<rparr>))"
      using settle_run [OF t] by (intro kept_returns) simp
    show ?thesis
    proof (cases "te_observer env 0")
      case None
      with eq rest show ?thesis by simp
    next
      case (Some x)
      have e: "kept cfg (Inl x, ?e)" using c by (simp add: kept_def usage_frames)
      show ?thesis using eq Some e rest by (cases "ps_usage_attached s") simp_all
    qed
  qed
qed

lemma accept_tool_call_core:
  assumes "consuming cfg s"
  shows "kept cfg (accept_tool_call cfg env s)"
proof -
  have c: "core_inv cfg s" "run_inv Consuming s" "ps_events s" "ps_selection s = None" "\<not> ps_latched s"
    using assms by (simp_all add: consuming_def)
  show ?thesis
  proof (cases "te_due env 1")
    case True
    with select_deadline_run [OF c(1,4,2)] show ?thesis by (intro kept_returns) (simp add: accept_tool_call_def)
  next
    case False
    obtain ok t where t: "observe_tool_call (ps_tracker s) = (ok, t)" by fastforce
    have tf: "tracker_ok (ps_tracker s)" "lt_limits (ps_tracker s) = pc_limits cfg"
      "lt_exhausted (ps_tracker s) = None" "1 \<le> lt_model_turns_started (ps_tracker s)"
      using core_tracker_facts [OF c(1)] selection_none_exhausted [OF c(1,4)] c(1,3,5)
      by (simp_all add: core_inv_def text_inv_def)
    note f = observe_facts [OF t tf(1,3,4)]
    let ?sel = "if ok then tool_unavailable_outcome cfg else tool_limit_outcome cfg"
    have "candidate_ok cfg s ?sel" by (simp add: tool_unavailable_outcome_def tool_limit_outcome_def)
    then have "\<exists>s'. select_locked ?sel (s\<lparr>ps_tracker := t\<rparr>) = (Inr (), s') \<and>
          core_inv cfg s' \<and> selection_frame s s' \<and> ps_selection s' = Some ?sel"
      by (rule charge_selects [OF c(1,4,5)]) (use f tf in simp_all)
    then obtain s' where s': "select_locked ?sel (s\<lparr>ps_tracker := t\<rparr>) = (Inr (), s')" "core_inv cfg s'"
      "selection_frame s s'" by blast
    have "accept_tool_call cfg env s = (Inr (), s')"
      using False c(5) t s'(1) by (simp add: accept_tool_call_def seq_simps)
    with s'(2) c(2) run_inv_selection_frame [OF s'(3), of Consuming] show ?thesis by (simp add: kept_def)
  qed
qed

lemma accept_completed_core:
  assumes "consuming cfg s"
  shows "kept cfg ((if ps_completed_text s = None \<or> ps_accepted_text s = []
      then select_invalid_response cfg due else select_outcome cfg due (completed_outcome cfg)) s)"
proof -
  have c: "core_inv cfg s" "run_inv Consuming s" using assms by (simp_all add: consuming_def)
  show ?thesis
  proof (cases "ps_completed_text s = None \<or> ps_accepted_text s = []")
    case True
    with select_invalid_run [OF c, of due] show ?thesis by (intro kept_returns) auto
  next
    case False
    have "concat (ps_accepted_text s) \<noteq> []"
      using False c(1) by (cases "ps_accepted_text s") (auto simp: core_inv_def text_inv_def)
    then have "candidate_ok cfg s (completed_outcome cfg)"
      using False c by (auto simp: candidate_ok_def completed_outcome_def outcome_shape_def
          core_inv_def text_inv_def run_inv_def)
    with False select_outcome_run [OF c this, of due] show ?thesis by (intro kept_returns) auto
  qed
qed

lemma accept_failed_core:
  assumes "consuming cfg s"
  shows "kept cfg (select_outcome cfg due (provider_failed_outcome cfg f) s)"
proof -
  have c: "core_inv cfg s" "run_inv Consuming s" using assms by (simp_all add: consuming_def)
  have "candidate_ok cfg s (provider_failed_outcome cfg f)" by (simp add: provider_failed_outcome_def)
  from select_outcome_run [OF c this, of due] show ?thesis by (intro kept_returns) simp
qed

lemma accept_observation_core:
  assumes c: "core_inv cfg s" "run_inv Consuming s" "ps_events s"
  shows "kept cfg (accept_observation cfg env ob s)"
proof (cases "ps_selection s")
  case (Some x)
  with c show ?thesis by (simp add: accept_observation_def kept_def)
next
  case None
  show ?thesis
  proof (cases "ps_latched s \<or> te_due env 0")
    case True
    from select_deadline_run [OF c(1) None c(2)] obtain s' where
      "select_deadline cfg s = (Inr (), s')" "core_inv cfg s'" "run_inv Consuming s'" by blast
    with True None show ?thesis
      by (auto simp: accept_observation_def select_deadline_if_due_def seq_simps kept_def)
  next
    case False
    with c None have m: "consuming cfg s" by (simp add: consuming_def)
    have eq: "accept_observation cfg env ob s = (case ob of
             ProviderTextDelta t \<Rightarrow> accept_text_delta cfg env t
           | ProviderTextCompleted t \<Rightarrow> accept_text_completed cfg env t
           | ProviderUsageReported i j \<Rightarrow> accept_usage cfg env i j
           | ProviderCompleted \<Rightarrow>
               ask (\<lambda>s. if ps_completed_text s = None \<or> ps_accepted_text s = []
                        then select_invalid_response cfg (te_due env 1)
                        else select_outcome cfg (te_due env 1) (completed_outcome cfg))
           | ProviderFailed f \<Rightarrow> select_outcome cfg (te_due env 1) (provider_failed_outcome cfg f)
           | ProviderToolCallRequested _ _ _ \<Rightarrow> accept_tool_call cfg env) s"
      using False None by (simp add: accept_observation_def select_deadline_if_due_def seq_simps)
    show ?thesis
      unfolding eq
      using accept_text_delta_core [OF m] accept_text_completed_core [OF m] accept_usage_core [OF m]
        accept_completed_core [OF m] accept_failed_core [OF m] accept_tool_call_core [OF m]
      by (cases ob) (simp_all del: if_split)
  qed
qed

subsection \<open>Cancellation and teardown requests\<close>

definition stands :: "ps_config \<Rightarrow> run_phase \<Rightarrow> provider_session \<Rightarrow> bool" where
  "stands cfg p s \<longleftrightarrow> core_inv cfg s \<and> run_inv p s"

lemma stands_select:
  assumes "stands cfg p s" "candidate_ok cfg s c" "\<not> is_limit_outcome c"
  shows "stands cfg p (snd (seq (select_candidate cfg due c) (\<lambda>x. ret (f x)) s))"
proof -
  obtain s' x where "select_candidate cfg due c s = (Inr x, s')" "core_inv cfg s'" "selection_frame s s'"
    using select_candidate_core [of cfg s c due] assms by (auto simp: stands_def)
  with assms(1) run_inv_selection_frame [of s s' p] show ?thesis by (simp add: stands_def seq_simps)
qed

lemma select_teardown_core:
  assumes "stands cfg p s"
  shows "stands cfg p (snd (select_teardown cfg env s))"
proof (cases "ps_selection s")
  case (Some x)
  with assms show ?thesis by (simp add: select_teardown_def)
next
  case None
  have "candidate_ok cfg s teardown_outcome" by simp
  from stands_select [OF assms this] None show ?thesis by (simp add: select_teardown_def)
qed

lemma cancelled_core:
  assumes c: "core_inv cfg s" "ps_selection s = None" "status (ps_lifecycle s) = Running"
    and s': "s' = s\<lparr>ps_lifecycle := (ps_lifecycle s)\<lparr>status := Cancelling, cancel_command_id := Some cmd\<rparr>,
                ps_updates := us\<rparr>" "life_inv cfg s'"
  shows "core_inv cfg s' \<and> candidate_ok cfg s' (cancelled_outcome cmd) \<and> (run_inv p s \<longrightarrow> run_inv p s')"
proof -
  have "text_inv cfg s'" using c by (simp add: s'(1) core_inv_def text_inv_def)
  moreover have "phase_inv cfg s'"
    using c unfolding s'(1) by (auto simp: core_inv_def phase_inv_def TERMINAL_SESSION_STATUSES_def)
  moreover have "sel_inv cfg s'" using c(1) by (simp add: s'(1) core_inv_def)
  moreover have "candidate_ok cfg s' (cancelled_outcome cmd)"
    by (simp add: s'(1) candidate_ok_def cancelled_outcome_def outcome_shape_def)
  moreover have "run_inv p s \<longrightarrow> run_inv p s'" using c(3) by (auto simp: s'(1) run_inv_def)
  ultimately show ?thesis using s'(2) by (simp add: core_inv_def)
qed

lemma select_user_cancellation_core:
  assumes st: "stands cfg p s"
  shows "stands cfg p (snd (select_user_cancellation cfg env cmd s))"
proof (cases "ps_selection s")
  case (Some x)
  with assms show ?thesis by (simp add: select_user_cancellation_def)
next
  case None
  have core: "core_inv cfg s" and run: "run_inv p s" using st by (simp_all add: stands_def)
  let ?c = "CancelRequested cmd (pc_session_id cfg)"
  let ?sel = "seq (select_candidate cfg (te_due env 0) (cancelled_outcome cmd))
             (\<lambda>sel. ret (if so_kind sel = CancelledO then RequestAccepted else RequestTerminal))"
  show ?thesis
  proof (cases "status (ps_lifecycle s) = Starting")
    case True
    let ?d = "s\<lparr>ps_deferred := Some ?c\<rparr>"
    have "phase_inv cfg ?d" using core None True by (auto simp: core_inv_def phase_inv_def)
    with core run have d: "stands cfg p ?d" by (simp add: stands_def core_inv_def)
    have "candidate_ok cfg ?d (cancelled_outcome cmd)"
      using True by (simp add: candidate_ok_def cancelled_outcome_def outcome_shape_def)
    from stands_select [OF d this] None True show ?thesis
      by (simp add: select_user_cancellation_def seq_simps(2))
  next
    case False
    obtain r s1 where a: "accept_lifecycle (te_observer env 0) ?c s = (r, s1)" by fastforce
    have eq: "select_user_cancellation cfg env cmd s =
        (case r of Inl e \<Rightarrow> (Inl e, s1) | Inr _ \<Rightarrow> next_do (watcher_during (te_latches env)) ?sel s1)"
      using None False a by (simp add: select_user_cancellation_def seq_simps(2) split: sum.split)
    have life: "life_inv cfg s" using core by (simp add: core_inv_def)
    have s1: "s1 = s \<and> isl r \<or> core_inv cfg s1 \<and> candidate_ok cfg s1 (cancelled_outcome cmd) \<and> run_inv p s1"
      using accept_cancellation [OF life False, where ob = "te_observer env 0" and cmd = cmd] a run
        cancelled_core [OF core None, where s' = s1 and cmd = cmd and p = p]
      by (cases r) auto
    show ?thesis
    proof (cases r)
      case (Inl e)
      with eq s1 st show ?thesis by (auto simp: stands_def)
    next
      case (Inr u)
      with s1 have k: "core_inv cfg s1" "candidate_ok cfg s1 (cancelled_outcome cmd)" "run_inv p s1" by auto
      obtain s2 where s2: "watcher_during (te_latches env) s1 = (Inr (), s2)" "core_inv cfg s2"
        "selection_frame s1 s2" using watcher_during_core [OF k(1)] by blast
      have "stands cfg p s2" using s2(2) run_inv_selection_frame [OF s2(3)] k(3) by (simp add: stands_def)
      moreover have "candidate_ok cfg s2 (cancelled_outcome cmd)" using candidate_ok_frame [OF s2(3)] k(2) by simp
      ultimately have "stands cfg p (snd (?sel s2))" by (rule stands_select) simp
      with eq Inr s2(1) show ?thesis by (simp add: seq_simps(2))
    qed
  qed
qed

subsection \<open>Finalization\<close>

lemma run_inv_final [simp]: "run_inv p (s\<lparr>ps_final := f\<rparr>) = run_inv p s"
  by simp

lemma sel_inv_final:
  "sel_inv cfg s \<Longrightarrow> ps_selection s \<noteq> None \<Longrightarrow> f \<noteq> NoFinalizer \<Longrightarrow> sel_inv cfg (s\<lparr>ps_final := f\<rparr>)"
  by (auto simp: sel_inv_def cong: option.case_cong)

lemma phase_inv_cleaned:
  "phase_inv cfg s \<Longrightarrow> ps_final s = FinalPending \<Longrightarrow> ps_selection s = Some sel \<Longrightarrow>
     f = FinalDone \<or> (\<exists>b. f = FinalCleaned b) \<and> (so_kind sel \<noteq> TeardownO \<longrightarrow> ps_started_ok s) \<Longrightarrow>
     phase_inv cfg (s\<lparr>ps_final := f\<rparr>)"
  by (auto simp: phase_inv_def)

lemma finalize_cleanup_core:
  assumes st: "stands cfg p s" and sel: "ps_final s = FinalPending" "ps_selection s = Some sel"
  shows "\<exists>s'. finalize_cleanup env sel s = (Inr (), s') \<and> stands cfg p s'"
proof -
  have core: "core_inv cfg s" and run: "run_inv p s" using st by (simp_all add: stands_def)
  have p: "phase_inv cfg s" using core by (simp add: core_inv_def)
  show ?thesis
  proof (cases "so_kind sel \<noteq> TeardownO \<and> \<not> ps_started_ok s")
    case True
    have "sel_inv cfg (s\<lparr>ps_final := FinalDone\<rparr>)" using core sel by (simp add: core_inv_def sel_inv_final)
    moreover have "text_inv cfg (s\<lparr>ps_final := FinalDone\<rparr>)" using core by (simp add: core_inv_def)
    ultimately have "stands cfg p (s\<lparr>ps_final := FinalDone\<rparr>)"
      using core run phase_inv_cleaned [OF p sel, of FinalDone] by (simp add: stands_def core_inv_def)
    with True show ?thesis by (simp add: finalize_cleanup_def)
  next
    case False
    let ?m = "so_cleanup_mode sel"
    have work: "finalize_cleanup env sel s = seq (finish_provider_work env ?m)
        (\<lambda>cleanup_failed. update (\<lambda>s. s\<lparr>ps_final := FinalCleaned cleanup_failed\<rparr>)) s"
      by (simp only: finalize_cleanup_def action_simps(5) False if_False)
    have m: "ps_cleanup s = None \<or> ps_cleanup s = Some ?m"
      using core sel by (cases "ps_cleanup s") (auto simp: core_inv_def sel_inv_def)
    have upd: "stands cfg p (s\<lparr>ps_cleanup := c, ps_pending_failed := q, ps_final := FinalCleaned b\<rparr>)"
      if "c = None \<or> c = Some ?m" for c b q
    proof -
      have "sel_inv cfg (s\<lparr>ps_cleanup := c, ps_pending_failed := q, ps_final := FinalCleaned b\<rparr>)"
        using core sel that by (auto simp: core_inv_def sel_inv_def cong: option.case_cong)
      moreover have "phase_inv cfg (s\<lparr>ps_cleanup := c, ps_pending_failed := q, ps_final := FinalCleaned b\<rparr>)"
        by (rule phase_inv_cleaned) (use p sel False in auto)
      ultimately show ?thesis using core run by (simp add: stands_def core_inv_def)
    qed
    let ?q = "ps_pending_failed s \<or> te_reap_failed env"
    have "\<exists>c b. finalize_cleanup env sel s = (Inr (), s\<lparr>ps_cleanup := c, ps_pending_failed := ?q, ps_final := FinalCleaned b\<rparr>)
        \<and> (c = None \<or> c = Some ?m)"
    proof (cases "ps_operation s \<and> ps_cleanup s = None")
      case True
      then have "ensure_provider_cleanup ?m s = (Inr (), s\<lparr>ps_cleanup := Some ?m\<rparr>)"
        by (simp add: ensure_provider_cleanup_def)
      then have "finalize_cleanup env sel s = (Inr (), s\<lparr>ps_cleanup := Some ?m, ps_pending_failed := ?q,
          ps_final := FinalCleaned (ps_pending_failed s \<or> te_cleanup_failed env \<or> ?q)\<rparr>)"
        unfolding work by (simp add: finish_provider_work_def seq_simps disj_assoc)
      then show ?thesis by blast
    next
      case op: False
      then have e: "ensure_provider_cleanup ?m s = (Inr (), s)"
        using m by (auto simp: ensure_provider_cleanup_def)
      have k: "s\<lparr>ps_cleanup := ps_cleanup s\<rparr> = s" by simp
      have "finalize_cleanup env sel s = (Inr (), s\<lparr>ps_pending_failed := ?q,
          ps_final := FinalCleaned (ps_pending_failed s \<or> ps_cleanup s \<noteq> None \<and> te_cleanup_failed env \<or> ?q)\<rparr>)"
        using e unfolding work by (simp add: finish_provider_work_def seq_simps disj_assoc)
      then have "finalize_cleanup env sel s = (Inr (), s\<lparr>ps_cleanup := ps_cleanup s, ps_pending_failed := ?q,
          ps_final := FinalCleaned (ps_pending_failed s \<or> ps_cleanup s \<noteq> None \<and> te_cleanup_failed env \<or> ?q)\<rparr>)"
        unfolding k .
      with m show ?thesis by blast
    qed
    with upd show ?thesis by blast
  qed
qed

lemma life_inv_writer:
  assumes "life_inv cfg s" "session_events (pc_session_id cfg) (published_events w) =
      session_events (pc_session_id cfg) (published_events (ps_writer s))"
    "sequence_counter w (pc_session_id cfg) = sequence_counter (ps_writer s) (pc_session_id cfg)"
  shows "life_inv cfg (s\<lparr>ps_writer := w\<rparr>)"
  using assms by (simp add: life_inv_def)

lemma stands_writer:
  assumes "stands cfg p s" "w' = ps_writer s \<or> (\<exists>e. wrote (ps_writer s) w' e \<and>
      (case e of RuntimeEv _ \<Rightarrow> True | SessionEv x \<Rightarrow> event_session x \<noteq> pc_session_id cfg))"
  shows "stands cfg p (s\<lparr>ps_writer := w'\<rparr>)"
proof -
  have "life_inv cfg (s\<lparr>ps_writer := w'\<rparr>)"
    using assms(2)
  proof (elim disjE exE conjE)
    assume "w' = ps_writer s"
    with assms(1) show ?thesis by (simp add: stands_def core_inv_def)
  next
    fix e
    assume w: "wrote (ps_writer s) w' e"
      and k: "case e of RuntimeEv _ \<Rightarrow> True | SessionEv x \<Rightarrow> event_session x \<noteq> pc_session_id cfg"
    have "session_events (pc_session_id cfg) (published_events w') =
        session_events (pc_session_id cfg) (published_events (ps_writer s))"
      using w k by (cases e) (simp_all add: wrote_def)
    moreover have "sequence_counter w' (pc_session_id cfg) = sequence_counter (ps_writer s) (pc_session_id cfg)"
      using w k by (cases e) (auto simp: wrote_def tape_key_def sequence_counter_def)
    ultimately show ?thesis
      using assms(1) by (intro life_inv_writer) (simp_all add: stands_def core_inv_def)
  qed
  with assms(1) show ?thesis by (simp add: stands_def core_inv_def)
qed

lemma report_core:
  assumes "stands cfg p s"
  shows "stands cfg p (snd (report_cleanup_failure_once cfg env s))
    \<and> ps_final (snd (report_cleanup_failure_once cfg env s)) = ps_final s
    \<and> ps_selection (snd (report_cleanup_failure_once cfg env s)) = ps_selection s"
proof (cases "ps_cleanup_reported s")
  case True
  with assms show ?thesis by (simp add: report_cleanup_failure_once_def)
next
  case False
  let ?s = "s\<lparr>ps_cleanup_reported := True\<rparr>"
  let ?p = "[(lit ''code'', JStr PROVIDER_CLEANUP_FAILED_CODE),
        (lit ''message'', JStr (lit ''Provider cleanup could not be confirmed.'')),
        (lit ''recoverable'', JBool True)]"
  obtain r w' where e: "emit_runtime ((te_write env 0)\<lparr>env_cancelled := False\<rparr>) (lit ''runtime.error'') ?p
      (Some (pc_command_id cfg)) (ps_writer s) = (r, w')" by fastforce
  have st: "stands cfg p (?s\<lparr>ps_writer := w'\<rparr>)"
    by (rule stands_writer) (use assms emit_runtime_effect [OF e] in \<open>auto simp: stands_def core_inv_def\<close>)
  have "snd (report_cleanup_failure_once cfg env s) = ?s\<lparr>ps_writer := w'\<rparr>"
    using False e by (cases r) (simp_all add: report_cleanup_failure_once_def seq_simps(2) del: lit_simps)
  with st show ?thesis by simp
qed

subsection \<open>The terminal events\<close>

text \<open>The finalizer stands at its last stage, with the outcome still unpublished.\<close>

definition ending :: "ps_config \<Rightarrow> run_phase \<Rightarrow> provider_session \<Rightarrow> bool" where
  "ending cfg p s \<longleftrightarrow> core_inv cfg (s\<lparr>ps_final := FinalDone\<rparr>) \<and> run_inv p s \<and> ps_started_ok s"

definition unpublished :: "ps_config \<Rightarrow> run_phase \<Rightarrow> selected_outcome \<Rightarrow> bool \<Rightarrow> provider_session \<Rightarrow> bool" where
  "unpublished cfg p sel b s \<longleftrightarrow>
     ending cfg p s \<and> ps_selection s = Some sel \<and> status (ps_lifecycle s) \<in> {Running, Cancelling} \<and>
     assistant_completed (ps_lifecycle s) = b \<and> \<not> ps_terminal_emitted s \<and>
     (so_kind sel = CancelledO \<longrightarrow>
        status (ps_lifecycle s) = Cancelling \<and> cancel_command_id (ps_lifecycle s) = so_correlation sel)"

lemma unpublished_start:
  assumes st: "stands cfg p s" and f: "ps_final s = FinalTerminal" "ps_selection s = Some sel"
  shows "unpublished cfg p sel False s \<and> so_kind sel \<noteq> TeardownO"
proof -
  have core: "core_inv cfg s" using st by (simp add: stands_def)
  have so: "ps_started_ok s" "so_kind sel \<noteq> TeardownO" using core f by (auto simp: core_inv_def phase_inv_def)
  have "phase_inv cfg (s\<lparr>ps_final := FinalDone\<rparr>)"
    using core f by (auto simp: core_inv_def phase_inv_def)
  then have "core_inv cfg (s\<lparr>ps_final := FinalDone\<rparr>)"
    using core f sel_inv_final [of cfg s FinalDone] by (simp add: core_inv_def)
  moreover have "so_kind sel = CancelledO \<longrightarrow>
        status (ps_lifecycle s) = Cancelling \<and> cancel_command_id (ps_lifecycle s) = so_correlation sel"
    using core f so by (auto simp: core_inv_def phase_inv_def)
  ultimately show ?thesis
    using open_session [OF core so(1)] f st so by (simp add: unpublished_def ending_def stands_def)
qed

lemma ending_folded:
  assumes e: "ending cfg p s" "\<not> ps_terminal_emitted s" and f: "folded cfg mk s s'"
    and same: "\<And>b. assistant_text (reduced_state (apply_event (ps_lifecycle s) (mk b))) = assistant_text (ps_lifecycle s)"
      "\<And>b. status (reduced_state (apply_event (ps_lifecycle s) (mk b))) \<noteq> Starting"
      "\<And>b. status (reduced_state (apply_event (ps_lifecycle s) (mk b))) \<in> TERMINAL_SESSION_STATUSES \<Longrightarrow>
        \<exists>sel. ps_selection s = Some sel \<and>
          outcome_published sel (reduced_state (apply_event (ps_lifecycle s) (mk b)))"
  shows "ending cfg p s'"
proof -
  let ?d = "\<lambda>s. s\<lparr>ps_final := FinalDone\<rparr>"
  have core: "core_inv cfg (?d s)" and run: "run_inv p s" and so: "ps_started_ok s"
    using e(1) by (simp_all add: ending_def)
  obtain b w' where s': "s' = s\<lparr>ps_writer := w',
      ps_lifecycle := reduced_state (apply_event (ps_lifecycle s) (mk b)),
      ps_updates := ps_updates s @ [Wire (mk b)]\<rparr>" "life_inv cfg s'"
    using f by (auto simp: folded_def)
  have l: "ps_lifecycle s' = reduced_state (apply_event (ps_lifecycle s) (mk b))" by (simp add: s'(1))
  have st: "status (ps_lifecycle s) \<noteq> Starting" using core so by (auto simp: core_inv_def phase_inv_def)
  have "sel_inv cfg (?d s')"
    using core unfolding s'(1) core_inv_def by (auto simp: sel_inv_def cong: option.case_cong)
  moreover have "text_inv cfg (?d s')"
    using core same(1) [of b] unfolding s'(1) core_inv_def text_inv_def by simp
  moreover have "phase_inv cfg (?d s')"
    using core same(2,3) [of b] so e(2) unfolding s'(1) core_inv_def phase_inv_def by simp
  moreover have "run_inv p s'"
    using run st same(1) [of b] unfolding s'(1) run_inv_def by auto
  ultimately show ?thesis using s'(1,2) so by (simp add: ending_def core_inv_def)
qed

lemma unpublished_life:
  assumes "unpublished cfg p sel b s"
  shows "life_inv cfg s" "status (ps_lifecycle s) = Running \<or> status (ps_lifecycle s) = Cancelling"
  using assms by (auto simp: unpublished_def ending_def core_inv_def)

lemma folded_keeps:
  "folded cfg mk s s' \<Longrightarrow> \<exists>b. ps_selection s' = ps_selection s \<and> ps_terminal_emitted s' = ps_terminal_emitted s \<and>
     ps_completed_text s' = ps_completed_text s \<and>
     ps_lifecycle s' = reduced_state (apply_event (ps_lifecycle s) (mk b))"
  unfolding folded_def by (elim exE conjE) (simp, rule exI, rule refl)

text \<open>An emission whose event the lifecycle accepts, as a triple over \<open>unpublished\<close>.\<close>

lemma ending_emits:
  assumes fold: "\<And>s. unpublished cfg p sel b s \<Longrightarrow> P s \<Longrightarrow> case emit_and_accept cfg env i t d c s of
        (Inl _, s') \<Rightarrow> s' = s \<or> folded cfg mk s s' | (Inr _, s') \<Rightarrow> folded cfg mk s s'"
    and same: "\<And>s x. unpublished cfg p sel b s \<Longrightarrow> P s \<Longrightarrow>
        assistant_text (reduced_state (apply_event (ps_lifecycle s) (mk x))) = assistant_text (ps_lifecycle s) \<and>
        status (reduced_state (apply_event (ps_lifecycle s) (mk x))) \<noteq> Starting \<and>
        (status (reduced_state (apply_event (ps_lifecycle s) (mk x))) \<in> TERMINAL_SESSION_STATUSES \<longrightarrow>
           outcome_published sel (reduced_state (apply_event (ps_lifecycle s) (mk x))))"
    and post: "\<And>s s' x. unpublished cfg p sel b s \<Longrightarrow> P s \<Longrightarrow> ending cfg p s' \<Longrightarrow>
        ps_selection s' = Some sel \<Longrightarrow> \<not> ps_terminal_emitted s' \<Longrightarrow>
        ps_lifecycle s' = reduced_state (apply_event (ps_lifecycle s) (mk x)) \<Longrightarrow> Q s'"
  shows "establishes (\<lambda>s. unpublished cfg p sel b s \<and> P s) (emit_and_accept cfg env i t d c)
    (\<lambda>_. Q) (\<lambda>_. ending cfg p)"
  unfolding establishes_def
proof (intro allI impI)
  fix s
  assume a: "unpublished cfg p sel b s \<and> P s"
  then have u: "ending cfg p s" "ps_selection s = Some sel" "\<not> ps_terminal_emitted s"
    by (simp_all add: unpublished_def)
  have e: "ending cfg p s' \<and> Q s'" if f: "folded cfg mk s s'" for s'
  proof -
    obtain x where "ps_selection s' = Some sel" "\<not> ps_terminal_emitted s'"
      "ps_lifecycle s' = reduced_state (apply_event (ps_lifecycle s) (mk x))"
      using folded_keeps [OF f] u by auto
    moreover have "ending cfg p s'" using ending_folded [OF u(1,3) f] same a u(2) by blast
    ultimately show ?thesis using post a by blast
  qed
  obtain r s' where r: "emit_and_accept cfg env i t d c s = (r, s')" by fastforce
  with fold [of s] a have f: "case r of Inl _ \<Rightarrow> s' = s \<or> folded cfg mk s s' | Inr _ \<Rightarrow> folded cfg mk s s'"
    by (cases r) auto
  show "case emit_and_accept cfg env i t d c s of (Inl e, s') \<Rightarrow> ending cfg p s' | (Inr x, s') \<Rightarrow> Q s'"
    using f e u(1) r by (cases r) auto
qed

text \<open>The evidence notification.\<close>

lemma notify_unpublished:
  "establishes (\<lambda>s. unpublished cfg p sel b s) (notify_loop_limits_once cfg env)
     (\<lambda>_ s. unpublished cfg p sel b s) (\<lambda>_. ending cfg p)"
  unfolding establishes_def
proof (intro allI impI)
  fix s
  assume u: "unpublished cfg p sel b s"
  let ?r = "notify_loop_limits_once cfg env s" and ?d = "\<lambda>s. s\<lparr>ps_final := FinalDone\<rparr>"
  have e: "ending cfg p s" using u by (simp add: unpublished_def)
  have ob: "unpublished cfg p sel b (s\<lparr>ps_limits_observed := True, ps_limits_evidence := x\<rparr>)"
    if "x = ps_limits_evidence s \<or> (\<exists>o'. x = Some o' \<and> snapshot (pc_session_id cfg) (ps_tracker s) = Inr o')" for x
  proof -
    have "sel_inv cfg (?d (s\<lparr>ps_limits_observed := True, ps_limits_evidence := x\<rparr>))"
      using u that unfolding unpublished_def ending_def core_inv_def
      by (auto simp: sel_inv_def cong: option.case_cong)
    moreover have "phase_inv cfg (?d (s\<lparr>ps_limits_observed := True, ps_limits_evidence := x\<rparr>)) = phase_inv cfg (?d s)"
      by (simp add: phase_inv_def)
    ultimately show ?thesis using u by (simp add: unpublished_def ending_def core_inv_def)
  qed
  have lim: "unpublished cfg p sel b (s\<lparr>ps_limits_observed := True\<rparr>)" using ob [of "ps_limits_evidence s"] by simp
  have un: "unpublished cfg p sel b (snd ?r)"
  proof (cases "ps_limits_observed s \<or> \<not> ps_limits_attached s")
    case True
    with lim u show ?thesis by (auto simp: notify_loop_limits_once_def seq_simps(2))
  next
    case False
    show ?thesis
    proof (cases "snapshot (pc_session_id cfg) (ps_tracker s)")
      case (Inl x)
      with False lim show ?thesis by (simp add: notify_loop_limits_once_def seq_simps)
    next
      case (Inr x)
      with False ob [of "Some x"] show ?thesis
        by (simp add: notify_loop_limits_once_def seq_simps split: option.split)
    qed
  qed
  then have "ending cfg p (snd ?r)" by (simp add: unpublished_def)
  with un show "case ?r of (Inl e, s') \<Rightarrow> ending cfg p s' | (Inr x, s') \<Rightarrow> unpublished cfg p sel b s'"
    by (cases ?r) (auto split: sum.split)
qed

lemma terminal_post:
  assumes "ending cfg p s'" "\<not> ps_terminal_emitted s'" "status (ps_lifecycle s') \<in> TERMINAL_SESSION_STATUSES"
  shows "ending cfg p (s'\<lparr>ps_terminal_emitted := True\<rparr>)"
proof -
  have "phase_inv cfg (s'\<lparr>ps_terminal_emitted := True, ps_final := FinalDone\<rparr>)"
    using assms unfolding ending_def core_inv_def phase_inv_def by simp
  moreover have "sel_inv cfg (s'\<lparr>ps_terminal_emitted := True, ps_final := FinalDone\<rparr>)"
    using assms(1) unfolding ending_def core_inv_def by (simp add: sel_inv_def cong: option.case_cong)
  ultimately show ?thesis using assms(1) by (simp add: ending_def core_inv_def)
qed

lemma terminal_status: "x \<in> {Completed, Cancelled, Failed} \<Longrightarrow> x \<in> TERMINAL_SESSION_STATUSES"
  by (simp add: TERMINAL_SESSION_STATUSES_def)

lemma completed_folds:
  assumes "unpublished cfg p sel False s" "assistant_text (ps_lifecycle s) = t"
  shows "case emit_and_accept cfg env i ''assistant.completed'' [(lit ''text'', JStr t)] (Some (pc_command_id cfg)) s of
      (Inl _, s') \<Rightarrow> s' = s \<or> folded cfg (\<lambda>b. AssistantCompletedEvent b t) s s'
    | (Inr _, s') \<Rightarrow> folded cfg (\<lambda>b. AssistantCompletedEvent b t) s s'"
  by (rule emit_and_accept_folds [OF unpublished_life(1) [OF assms(1)]])
    (use assms unpublished_life [OF assms(1)] in \<open>auto simp: unpublished_def life_inv_def expected_correlation_def
      dest: emit_assistant_completed simp del: lit_simps\<close>)

lemma completion_emits:
  "establishes (\<lambda>s. unpublished cfg p sel False s \<and> assistant_text (ps_lifecycle s) = t)
     (emit_and_accept cfg env i ''assistant.completed'' [(lit ''text'', JStr t)] (Some (pc_command_id cfg)))
     (\<lambda>_ s. unpublished cfg p sel True s) (\<lambda>_. ending cfg p)"
proof (rule ending_emits [where mk = "\<lambda>b. AssistantCompletedEvent b t"], goal_cases)
  case (1 s)
  then show ?case by (intro completed_folds) simp_all
next
  case (2 s x)
  then show ?case by (auto simp: unpublished_def TERMINAL_SESSION_STATUSES_def)
next
  case (3 s s' x)
  then show ?case by (auto simp: unpublished_def)
qed

definition published_now :: "ps_config \<Rightarrow> run_phase \<Rightarrow> provider_session \<Rightarrow> bool" where
  "published_now cfg p s \<longleftrightarrow>
     ending cfg p s \<and> \<not> ps_terminal_emitted s \<and> status (ps_lifecycle s) \<in> TERMINAL_SESSION_STATUSES"

lemma session_completed_folds:
  assumes "unpublished cfg p sel True s"
  shows "case emit_and_accept cfg env i ''session.completed'' [] (Some (pc_command_id cfg)) s of
      (Inl _, s') \<Rightarrow> s' = s \<or> folded cfg SessionCompletedEvent s s'
    | (Inr _, s') \<Rightarrow> folded cfg SessionCompletedEvent s s'"
  by (rule emit_and_accept_folds [OF unpublished_life(1) [OF assms(1)]])
    (use assms unpublished_life [OF assms(1)] in \<open>auto simp: unpublished_def life_inv_def expected_correlation_def
      dest: emit_session_completed simp del: lit_simps\<close>)

lemma session_completed_emits:
  assumes "so_kind sel = CompletedO"
  shows "establishes (\<lambda>s. unpublished cfg p sel True s \<and> True)
     (emit_and_accept cfg env i ''session.completed'' [] (Some (pc_command_id cfg)))
     (\<lambda>_ s. published_now cfg p s) (\<lambda>_. ending cfg p)"
proof (rule ending_emits [where mk = SessionCompletedEvent], goal_cases)
  case (1 s)
  then show ?case by (intro session_completed_folds) simp_all
qed (use assms in \<open>auto simp: unpublished_def published_now_def outcome_published_def TERMINAL_SESSION_STATUSES_def\<close>)

lemma session_failed_folds:
  assumes "unpublished cfg p sel False s"
  shows "case emit_and_accept cfg env i ''session.failed'' [(lit ''code'', JStr c), (lit ''message'', JStr m)] (Some (pc_command_id cfg)) s of
      (Inl _, s') \<Rightarrow> s' = s \<or> folded cfg (\<lambda>b. SessionFailedEvent b c m) s s'
    | (Inr _, s') \<Rightarrow> folded cfg (\<lambda>b. SessionFailedEvent b c m) s s'"
  by (rule emit_and_accept_folds [OF unpublished_life(1) [OF assms(1)]])
    (use assms unpublished_life [OF assms(1)] in \<open>auto simp: unpublished_def life_inv_def expected_correlation_def
      dest: emit_session_failed simp del: lit_simps\<close>)

lemma session_failed_emits:
  assumes "so_kind sel = FailedO" "so_failure sel = Some (c, m)"
  shows "establishes (\<lambda>s. unpublished cfg p sel False s \<and> True)
     (emit_and_accept cfg env i ''session.failed'' [(lit ''code'', JStr c), (lit ''message'', JStr m)]
        (Some (pc_command_id cfg)))
     (\<lambda>_ s. published_now cfg p s) (\<lambda>_. ending cfg p)"
proof (rule ending_emits [where mk = "\<lambda>b. SessionFailedEvent b c m"], goal_cases)
  case (1 s)
  then show ?case by (intro session_failed_folds) simp_all
qed (use assms in \<open>auto simp: unpublished_def published_now_def outcome_published_def TERMINAL_SESSION_STATUSES_def\<close>)

lemma session_cancelled_folds:
  assumes "unpublished cfg p sel False s" "so_kind sel = CancelledO" "so_correlation sel = Some cmd"
  shows "case emit_and_accept cfg env i ''session.cancelled'' [] (Some cmd) s of
      (Inl _, s') \<Rightarrow> s' = s \<or> folded cfg SessionCancelledEvent s s'
    | (Inr _, s') \<Rightarrow> folded cfg SessionCancelledEvent s s'"
  by (rule emit_and_accept_folds [OF unpublished_life(1) [OF assms(1)]])
    (use assms unpublished_life [OF assms(1)] in \<open>auto simp: unpublished_def life_inv_def expected_correlation_def
      dest: emit_session_cancelled simp del: lit_simps\<close>)

lemma session_cancelled_emits:
  assumes "so_kind sel = CancelledO" "so_correlation sel = Some cmd"
  shows "establishes (\<lambda>s. unpublished cfg p sel False s \<and> True)
     (emit_and_accept cfg env i ''session.cancelled'' [] (Some cmd))
     (\<lambda>_ s. published_now cfg p s) (\<lambda>_. ending cfg p)"
proof (rule ending_emits [where mk = SessionCancelledEvent], goal_cases)
  case (1 s)
  then show ?case by (intro session_cancelled_folds) (use assms in simp_all)
qed (use assms in \<open>auto simp: unpublished_def published_now_def outcome_published_def TERMINAL_SESSION_STATUSES_def\<close>)

lemma emit_selected_terminal_core:
  assumes st: "stands cfg p s" and f: "ps_final s = FinalTerminal" "ps_selection s = Some sel"
  shows "ending cfg p (snd (emit_selected_terminal cfg env sel s))"
proof -
  have u: "unpublished cfg p sel False s" "so_kind sel \<noteq> TeardownO" using unpublished_start [OF assms] by simp_all
  have shape: "outcome_shape cfg sel" and
    tx: "so_kind sel = CompletedO \<Longrightarrow> ps_completed_text s = Some (assistant_text (ps_lifecycle s))"
    using st f by (auto simp: stands_def core_inv_def sel_inv_def text_inv_def)
  let ?mark = "update (\<lambda>s. s\<lparr>ps_terminal_emitted := True\<rparr>)"
  have mark: "establishes (published_now cfg p) ?mark (\<lambda>_. ending cfg p) (\<lambda>_. ending cfg p)"
    by (rule establishes_update) (auto simp: published_now_def intro: terminal_post)
  have notify: "establishes (unpublished cfg p sel b) (notify_loop_limits_once cfg env)
      (\<lambda>_. unpublished cfg p sel b) (\<lambda>_. ending cfg p)" for b
    using notify_unpublished [of cfg p sel b env] by simp
  have eval: "ending cfg p (snd (emit_selected_terminal cfg env sel s))"
    if m: "emit_selected_terminal cfg env sel s = next_do m ?mark s"
      and e: "establishes P m (\<lambda>_. published_now cfg p) (\<lambda>_. ending cfg p)" and i: "P s" for m P
  proof -
    have "establishes P (next_do m ?mark) (\<lambda>_. ending cfg p) (\<lambda>_. ending cfg p)"
      by (rule establishes_next [OF e mark])
    then show ?thesis using i unfolding m
      by (cases "next_do m ?mark s") (auto simp: establishes_def split: sum.splits)
  qed
  have start: "\<not> (ps_terminal_emitted s \<or> ps_selection s \<noteq> Some sel)" using u f by (simp add: unpublished_def)
  show ?thesis
  proof (cases "so_kind sel")
    case CompletedO
    let ?t = "assistant_text (ps_lifecycle s)"
    have "establishes (\<lambda>s. unpublished cfg p sel False s \<and> assistant_text (ps_lifecycle s) = ?t)
        (next_do (emit_and_accept cfg env 0 ''assistant.completed'' [(lit ''text'', JStr ?t)] (Some (pc_command_id cfg)))
          (next_do (notify_loop_limits_once cfg env)
             (emit_and_accept cfg env 1 ''session.completed'' [] (Some (pc_command_id cfg)))))
        (\<lambda>_. published_now cfg p) (\<lambda>_. ending cfg p)"
      by (intro establishes_next [OF completion_emits] establishes_next [OF notify]) (use session_completed_emits [OF CompletedO] in simp)
    from eval [OF _ this] show ?thesis
      using CompletedO start tx u by (simp add: emit_selected_terminal_def del: lit_simps)
  next
    case FailedO
    then obtain c m where cm: "so_failure sel = Some (c, m)" using shape by (auto simp: outcome_shape_def)
    have "establishes (unpublished cfg p sel False)
        (next_do (notify_loop_limits_once cfg env)
          (emit_and_accept cfg env 0 ''session.failed'' [(lit ''code'', JStr c), (lit ''message'', JStr m)]
             (Some (pc_command_id cfg))))
        (\<lambda>_. published_now cfg p) (\<lambda>_. ending cfg p)"
      by (intro establishes_next [OF notify]) (use session_failed_emits [OF FailedO cm] in simp)
    from eval [OF _ this] show ?thesis
      using FailedO start cm u by (simp add: emit_selected_terminal_def del: lit_simps)
  next
    case CancelledO
    then obtain cmd where cmd: "so_correlation sel = Some cmd" using shape by (auto simp: outcome_shape_def)
    have "establishes (unpublished cfg p sel False)
        (next_do (notify_loop_limits_once cfg env)
          (emit_and_accept cfg env 0 ''session.cancelled'' [] (Some cmd)))
        (\<lambda>_. published_now cfg p) (\<lambda>_. ending cfg p)"
      by (intro establishes_next [OF notify]) (use session_cancelled_emits [OF CancelledO cmd] in simp)
    from eval [OF _ this] show ?thesis
      using CancelledO start cmd u by (simp add: emit_selected_terminal_def del: lit_simps)
  next
    case TeardownO
    with u show ?thesis by simp
  qed
qed

subsection \<open>Every step, every reachable state\<close>

definition session_ok :: "ps_config \<Rightarrow> provider_session \<Rightarrow> bool" where
  "session_ok cfg s \<longleftrightarrow> stands cfg (ps_run s) s"

lemma stands_run [simp]: "stands cfg p (s\<lparr>ps_run := q\<rparr>) = stands cfg p s"
  by (simp add: stands_def core_inv_def)

lemma stands_frames [simp]:
  "stands cfg p (s\<lparr>ps_lifecycle_attached := b1\<rparr>) = stands cfg p s"
  "stands cfg p (s\<lparr>ps_usage_attached := b2\<rparr>) = stands cfg p s"
  "stands cfg p (s\<lparr>ps_limits_attached := b3\<rparr>) = stands cfg p s"
  "stands cfg p (s\<lparr>ps_pending_failed := b4\<rparr>) = stands cfg p s"
  by (simp_all add: stands_def core_inv_def)

lemma stands_aborting: "core_inv cfg s \<Longrightarrow> stands cfg Aborting s"
  by (simp add: stands_def)

lemma stands_settled: "core_inv cfg s \<Longrightarrow> stands cfg Aborting (s\<lparr>ps_start_settled := True\<rparr>)"
  by (auto simp: stands_def core_inv_def phase_inv_def)

lemma ending_done: "ending cfg p s \<Longrightarrow> stands cfg p (s\<lparr>ps_final := FinalDone\<rparr>)"
  by (simp add: ending_def stands_def)

text \<open>
  What every transaction does, whatever happens: the stage of \<open>run\<close> is not its business, a
  selected outcome is never replaced, the log of accepted updates only grows, and nothing is
  published but events of this session and the cleanup error.
\<close>

definition session_moves :: "ps_config \<Rightarrow> provider_session \<Rightarrow> provider_session \<Rightarrow> bool" where
  "session_moves cfg s s' \<longleftrightarrow>
     ps_run s' = ps_run s \<and>
     (ps_selection s \<noteq> None \<longrightarrow> ps_selection s' = ps_selection s) \<and>
     prefix (ps_updates s) (ps_updates s') \<and>
     grows (session_output (pc_session_id cfg) {PROVIDER_CLEANUP_FAILED_CODE}) (ps_writer s) (ps_writer s')"

interpretation session_order: action_order "session_moves cfg" for cfg
  by unfold_locales (auto simp: session_moves_def intro: grows_trans)

lemmas session_rules = session_order.move_rules

lemma moves_ensure_cleanup: "moves (session_moves cfg) (ensure_provider_cleanup m)"
  unfolding ensure_provider_cleanup_def by (intro session_rules) (simp add: session_moves_def)

lemma moves_select_locked: "moves (session_moves cfg) (select_locked x)"
  unfolding select_locked_def by (intro session_rules) (simp add: session_moves_def)

lemma moves_latch: "moves (session_moves cfg) latch_provider_deadline"
  unfolding latch_provider_deadline_def
  by (intro session_rules moves_ensure_cleanup) (simp add: session_moves_def)

lemma moves_select_deadline: "moves (session_moves cfg) (select_deadline cfg)"
  unfolding select_deadline_def by (intro session_rules moves_latch moves_select_locked)

lemmas moves_primitive = moves_ensure_cleanup moves_select_locked moves_latch moves_select_deadline

lemma moves_selecting:
  "moves (session_moves cfg) (select_candidate cfg due x)" "moves (session_moves cfg) (select_deadline_if_due cfg due)"
  "moves (session_moves cfg) (select_provider_deadline cfg)" "moves (session_moves cfg) watch_provider_deadline"
  "moves (session_moves cfg) (start_failed cfg due)"
  unfolding select_candidate_def select_deadline_if_due_def select_provider_deadline_def
    watch_provider_deadline_def start_failed_def
  by (intro session_rules moves_primitive)+

lemma moves_selecting':
  "moves (session_moves cfg) (select_invalid_response cfg due)" "moves (session_moves cfg) (select_outcome cfg due x)"
  "moves (session_moves cfg) (watcher_during b)" "moves (session_moves cfg) (select_teardown cfg env)"
  unfolding select_invalid_response_def select_outcome_def watcher_during_def select_teardown_def
  by (intro session_rules moves_selecting)+

lemma moves_accept_lifecycle: "moves (session_moves cfg) (accept_lifecycle ob u)"
  unfolding accept_lifecycle_def Let_def by (intro session_rules) (simp add: session_moves_def)

lemma moves_emit_session_event: "moves (session_moves cfg) (emit_session_event cfg we t d c)"
  unfolding moves_def emit_session_event_def
  by (auto simp: session_moves_def session_output_def intro: emit_session_grows
      split: prod.split sum.split event.split)

lemma moves_emit_and_accept: "moves (session_moves cfg) (emit_and_accept cfg env i t d c)"
  unfolding emit_and_accept_def by (intro session_rules moves_emit_session_event moves_accept_lifecycle)

lemmas moves_all = moves_primitive moves_selecting moves_selecting' moves_accept_lifecycle moves_emit_and_accept

lemma moves_publish_started: "moves (session_moves cfg) (publish_started cfg env)"
  unfolding publish_started_def by (intro session_rules moves_all) (simp_all add: session_moves_def)

lemma moves_cases:
  "moves R a \<Longrightarrow> moves R b \<Longrightarrow> moves R c \<Longrightarrow>
     moves R (case r of StartRaises \<Rightarrow> a | EventsRaise \<Rightarrow> b | StartReturns \<Rightarrow> c)"
  "moves R a \<Longrightarrow> moves R b \<Longrightarrow> moves R c \<Longrightarrow> moves R d \<Longrightarrow>
     moves R (case k of CompletedO \<Rightarrow> a | FailedO \<Rightarrow> b | CancelledO \<Rightarrow> c | TeardownO \<Rightarrow> d)"
  "(\<And>t. moves R (f1 t)) \<Longrightarrow> (\<And>t. moves R (f2 t)) \<Longrightarrow> (\<And>x y z. moves R (f3 x y z)) \<Longrightarrow>
     (\<And>x y. moves R (f4 x y)) \<Longrightarrow> moves R f5 \<Longrightarrow> (\<And>f. moves R (f6 f)) \<Longrightarrow>
     moves R (case ob of ProviderTextDelta x \<Rightarrow> f1 x | ProviderTextCompleted x \<Rightarrow> f2 x
       | ProviderToolCallRequested x xa xb \<Rightarrow> f3 x xa xb | ProviderUsageReported x xa \<Rightarrow> f4 x xa
       | ProviderCompleted \<Rightarrow> f5 | ProviderFailed f \<Rightarrow> f6 f)"
    apply (cases r; simp)
   apply (cases k; simp)
  apply (cases ob; simp)
  done

lemma moves_start_operation: "moves (session_moves cfg) (start_provider_operation cfg env)"
  unfolding start_provider_operation_def Let_def
  by (intro session_rules moves_all moves_cases) (simp_all add: session_moves_def)

lemma moves_text_delta: "moves (session_moves cfg) (accept_text_delta cfg env t)"
  unfolding accept_text_delta_def by (intro session_rules moves_all) (simp_all add: session_moves_def)

lemma moves_text_completed: "moves (session_moves cfg) (accept_text_completed cfg env t)"
  unfolding accept_text_completed_def by (intro session_rules moves_all) (simp_all add: session_moves_def)

lemma moves_usage: "moves (session_moves cfg) (accept_usage cfg env i j)"
  unfolding accept_usage_def by (intro session_rules moves_all) (simp_all add: session_moves_def)

lemma moves_tool_call: "moves (session_moves cfg) (accept_tool_call cfg env)"
  unfolding accept_tool_call_def Let_def by (intro session_rules moves_all) (simp_all add: session_moves_def)

lemma moves_observation: "moves (session_moves cfg) (accept_observation cfg env ob)"
  unfolding accept_observation_def
  by (intro session_rules moves_all moves_cases moves_text_delta moves_text_completed moves_usage moves_tool_call)

lemma moves_user_cancellation: "moves (session_moves cfg) (select_user_cancellation cfg env cmd)"
  unfolding select_user_cancellation_def Let_def by (intro session_rules moves_all) (simp_all add: session_moves_def)

lemma moves_finalize: "moves (session_moves cfg) (finalize_cleanup env sel)"
  unfolding finalize_cleanup_def finish_provider_work_def Let_def
  by (intro session_rules moves_all) (simp_all add: session_moves_def)

lemma moves_report: "moves (session_moves cfg) (report_cleanup_failure_once cfg env)"
proof -
  let ?p = "error_payload PROVIDER_CLEANUP_FAILED_CODE (lit ''Provider cleanup could not be confirmed.'') True"
  have "moves (session_moves cfg) (\<lambda>s. case emit_runtime we (lit ''runtime.error'') ?p c (ps_writer s) of
      (Inl e, w) \<Rightarrow> (Inl e, s\<lparr>ps_writer := w\<rparr>) | (Inr _, w) \<Rightarrow> (Inr (), s\<lparr>ps_writer := w\<rparr>))" for we c
    by (auto simp: moves_def session_moves_def session_output_def error_event_def intro: emit_error_grows
        split: prod.split sum.split)
  then show ?thesis
    unfolding report_cleanup_failure_once_def error_payload_def [symmetric]
    by (intro session_rules) (simp_all add: session_moves_def)
qed

lemma moves_notify: "moves (session_moves cfg) (notify_loop_limits_once cfg env)"
  unfolding notify_loop_limits_once_def by (intro session_rules) (simp_all add: session_moves_def)

lemma moves_terminal: "moves (session_moves cfg) (emit_selected_terminal cfg env sel)"
  unfolding emit_selected_terminal_def
  by (intro session_rules moves_all moves_cases moves_notify) (simp_all add: session_moves_def)

lemmas transaction_moves = moves_all moves_publish_started moves_start_operation moves_observation
  moves_user_cancellation moves_finalize moves_report moves_terminal

lemma stands_core: "stands cfg p s \<Longrightarrow> core_inv cfg s"
  by (simp add: stands_def)

lemma stands_moved:
  assumes "stands cfg (ps_run s) s'" "session_moves cfg s s'"
  shows "session_ok cfg s'"
  using assms by (simp add: session_ok_def session_moves_def)

lemma ok_publish:
  assumes "session_ok cfg s" "ps_run s = Publishing" "publish_started cfg env s = (r, s')"
  shows "case r of Inl _ \<Rightarrow> core_inv cfg s' | Inr _ \<Rightarrow> stands cfg StartingOperation s'"
proof -
  have "core_inv cfg s \<and> run_inv Publishing s" using assms(1,2) by (simp add: session_ok_def stands_def)
  with publish_started_core [of cfg env] assms(3) show ?thesis
    by (cases r) (auto simp: stands_def dest: establishesD)
qed

lemma ok_start:
  assumes "session_ok cfg s" "ps_run s = StartingOperation" "start_provider_operation cfg env s = (r, s')"
  shows "(\<exists>u. r = Inr u) \<and> stands cfg Consuming s'"
  using start_provider_operation_core [of cfg s env] assms by (auto simp: session_ok_def stands_def)

lemma ok_accept:
  assumes "session_ok cfg s" "ps_run s = Consuming" "ps_events s" "accept_observation cfg env ob s = (r, s')"
  shows "case r of Inl _ \<Rightarrow> core_inv cfg s' | Inr _ \<Rightarrow> stands cfg Consuming s'"
  using accept_observation_core [of cfg s env ob] assms
  by (cases r) (auto simp: session_ok_def stands_def kept_def)

lemma ok_deadline:
  assumes "stands cfg p s" "select_provider_deadline cfg s = (r, s')"
  shows "stands cfg p s'"
  using select_deadline_run [of cfg s p] assms
  by (cases "ps_selection s") (auto simp: stands_def select_provider_deadline_def)

lemma ok_watch:
  assumes "stands cfg p s" "watch_provider_deadline s = (r, s')"
  shows "stands cfg p s'"
  using watcher_during_run [of cfg s p True] assms by (auto simp: stands_def watcher_during_def)

lemma ok_invalid:
  assumes "stands cfg p s" "select_invalid_response cfg due s = (r, s')"
  shows "stands cfg p s'"
  using select_invalid_run [of cfg s p due] assms by (auto simp: stands_def)

lemma ok_next_final:
  assumes st: "stands cfg p s" and f: "ps_final s = FinalCleaned b" "ps_selection s = Some sel"
  shows "stands cfg p (s\<lparr>ps_final := FinalDone\<rparr>)"
    and "so_kind sel \<noteq> TeardownO \<Longrightarrow> stands cfg p (s\<lparr>ps_final := FinalTerminal\<rparr>)"
proof -
  have core: "core_inv cfg s" using st by (rule stands_core)
  have s: "sel_inv cfg (s\<lparr>ps_final := FinalDone\<rparr>)" "sel_inv cfg (s\<lparr>ps_final := FinalTerminal\<rparr>)"
    using core f by (simp_all add: core_inv_def sel_inv_final)
  have "phase_inv cfg (s\<lparr>ps_final := FinalDone\<rparr>)" using core f by (auto simp: core_inv_def phase_inv_def)
  with s st show "stands cfg p (s\<lparr>ps_final := FinalDone\<rparr>)" by (simp add: stands_def core_inv_def)
  show "stands cfg p (s\<lparr>ps_final := FinalTerminal\<rparr>)" if k: "so_kind sel \<noteq> TeardownO"
  proof -
    have "phase_inv cfg (s\<lparr>ps_final := FinalTerminal\<rparr>)" using core f k by (auto simp: core_inv_def phase_inv_def)
    with s st show ?thesis by (simp add: stands_def core_inv_def)
  qed
qed

lemma report_keeps:
  assumes "session_ok cfg s" "ps_final s = FinalCleaned b" "ps_selection s = Some sel"
    and "(if b then report_cleanup_failure_once cfg env else ret ()) s = (r, s')"
  shows "stands cfg (ps_run s) s'" "ps_final s' = FinalCleaned b" "ps_selection s' = Some sel" "ps_run s' = ps_run s"
proof -
  have "session_moves cfg s s'"
    using assms(4) movesD [OF moves_report, of cfg env s] by (cases b) (auto simp: session_moves_def)
  then show "ps_run s' = ps_run s" by (simp add: session_moves_def)
  show "stands cfg (ps_run s) s'" "ps_final s' = FinalCleaned b" "ps_selection s' = Some sel"
    using assms report_core [of cfg "ps_run s" s env] by (cases b; auto simp: session_ok_def)+
qed

lemma ok_foreign:
  assumes "stands cfg p s" "foreign_request cfg req"
  shows "stands cfg p (s\<lparr>ps_writer := snd (emit we req (ps_writer s))\<rparr>)"
proof (rule stands_writer [OF assms(1)])
  obtain r w' where e: "emit we req (ps_writer s) = (r, w')" by fastforce
  show "snd (emit we req (ps_writer s)) = ps_writer s \<or>
    (\<exists>e. wrote (ps_writer s) (snd (emit we req (ps_writer s))) e \<and>
      (case e of RuntimeEv _ \<Rightarrow> True | SessionEv x \<Rightarrow> event_session x \<noteq> pc_session_id cfg))"
  proof (cases req)
    case (EmitRuntime t d c)
    with e emit_runtime_effect [of we t d c "ps_writer s" r w'] show ?thesis by auto
  next
    case (EmitSession t sid d c)
    with e emit_session_effect [of we t sid d c "ps_writer s" r w'] assms(2) show ?thesis
      by (auto simp: foreign_request_def split: event.splits)
  qed
qed

lemma consume_ok:
  assumes ok: "session_ok cfg s" and c: "ps_run s = Consuming" and step: "consume_step cfg s s'"
  shows "session_ok cfg s'"
  using step
proof (cases rule: consume_step.cases)
  case (consume_accepts env ob u)
  with ok_accept [OF ok c, of env ob "Inr u" s'] movesD [OF moves_observation, of cfg env ob s] c
  show ?thesis by (auto intro!: stands_moved [of cfg s])
next
  case (consume_raises env ob e t)
  with ok_accept [OF ok c, of env ob "Inl e" t] show ?thesis
    by (simp add: session_ok_def stands_aborting)
next
  case (consume_stream_ends env r t)
  with ok_invalid [of cfg Consuming s _ r t] ok c have "stands cfg Consuming t" by (simp add: session_ok_def)
  then have "stands cfg Joining t" by (simp add: stands_def run_inv_def)
  with consume_stream_ends show ?thesis by (simp add: session_ok_def)
next
  case (consume_deadline env r t)
  then have "stands cfg Consuming t"
    using ok c by (intro ok_deadline [OF _ consume_deadline(3)]) (simp add: session_ok_def)
  then have "stands cfg Joining t" by (simp add: stands_def run_inv_def)
  with consume_deadline show ?thesis by (simp add: session_ok_def)
next
  case consume_selected
  with ok c show ?thesis by (simp add: session_ok_def stands_def core_inv_def run_inv_def)
qed

lemma session_ok_run_step:
  assumes ok: "session_ok cfg s" and step: "ps_run_step cfg s s'"
  shows "session_ok cfg s'"
  using step
proof (cases rule: ps_run_step.cases)
  case (run_begins r)
  have "stands cfg Publishing s" if "ps_run s = NotRun" using ok that by (simp add: session_ok_def stands_def run_inv_def)
  with run_begins ok show ?thesis by (auto simp: session_ok_def begin_run_def split: if_splits)
next
  case (run_publishes env u t)
  with ok_publish [OF ok, of env "Inr u" t] show ?thesis by (simp add: session_ok_def)
next
  case (run_publish_raises env e t)
  with ok_publish [OF ok, of env "Inl e" t] stands_settled [of cfg t] show ?thesis by (simp add: session_ok_def)
next
  case (run_starts_operation env u t)
  with ok_start [OF ok, of env "Inr u" t] show ?thesis by (simp add: session_ok_def)
next
  case (run_start_raises env e t)
  with ok_start [OF ok, of env "Inl e" t] show ?thesis by simp
next
  case run_consumes
  from consume_ok [OF ok this] show ?thesis .
next
  case (abort_selects_teardown env r)
  with select_teardown_core [of cfg "ps_run s" s env] ok movesD [OF moves_selecting'(4), of cfg env s r s']
  show ?thesis by (intro stands_moved [of cfg s]) (simp_all add: session_ok_def)
next
  case (watcher_fires r)
  with ok_watch [of cfg "ps_run s" s r s'] ok movesD [OF moves_selecting(4), of s r s']
  show ?thesis by (intro stands_moved [of cfg s]) (simp_all add: session_ok_def)
next
  case (finalizer_cleans sel env u)
  with finalize_cleanup_core [of cfg "ps_run s" s sel env] ok movesD [OF moves_finalize, of env sel s _ s']
  show ?thesis by (intro stands_moved [of cfg s]) (auto simp: session_ok_def)
next
  case (finalizer_clean_raises sel env e t)
  with finalize_cleanup_core [of cfg "ps_run s" s sel env] ok show ?thesis by (auto simp: session_ok_def)
next
  case (finalizer_reports b sel env u t)
  note k = report_keeps [OF ok finalizer_reports(2,3,4)]
  from ok_next_final [OF k(1-3)] finalizer_reports(1) k(4) show ?thesis
    by (cases "so_kind sel = TeardownO") (simp_all add: session_ok_def)
next
  case (finalizer_report_raises b sel env e t)
  note k = report_keeps [OF ok finalizer_report_raises(2,3,4)]
  from ok_next_final(1) [OF k(1-3)] finalizer_report_raises(1) k(4) show ?thesis by (simp add: session_ok_def)
next
  case (finalizer_emits_terminal sel env r t)
  with emit_selected_terminal_core [of cfg "ps_run s" s sel env] ok have "ending cfg (ps_run s) t"
    by (simp add: session_ok_def)
  from ending_done [OF this] movesD [OF moves_terminal finalizer_emits_terminal(4)] finalizer_emits_terminal(1)
  show ?thesis by (simp add: session_ok_def session_moves_def)
qed

lemma session_ok_step:
  assumes ok: "session_ok cfg s" and step: "ps_step cfg s s'"
  shows "session_ok cfg s'"
  using step
proof (cases rule: ps_step.cases)
  case (attaches_lifecycle_observer ob r)
  with ok show ?thesis
    by (auto simp: session_ok_def attach_lifecycle_observer_def seq_simps split: if_splits option.splits)
next
  case (attaches_usage_observer r)
  with ok show ?thesis by (auto simp: session_ok_def attach_model_usage_observer_def split: if_splits)
next
  case (attaches_limits_observer r)
  with ok show ?thesis by (auto simp: session_ok_def attach_loop_limits_observer_def split: if_splits)
next
  case ps_runs
  from ok this show ?thesis by (rule session_ok_run_step)
next
  case run_cancelled
  with ok stands_settled [of cfg s] show ?thesis by (simp add: session_ok_def stands_core)
next
  case (user_cancels env cmd r)
  with select_user_cancellation_core [of cfg "ps_run s" s env cmd] ok movesD [OF moves_user_cancellation, of cfg env cmd s r s']
  show ?thesis by (intro stands_moved [of cfg s]) (simp_all add: session_ok_def)
next
  case (runtime_tears_down env r)
  with select_teardown_core [of cfg "ps_run s" s env] ok movesD [OF moves_selecting'(4), of cfg env s r s']
  show ?thesis by (intro stands_moved [of cfg s]) (simp_all add: session_ok_def)
next
  case (other_producer_emits req we)
  with ok_foreign [of cfg "ps_run s" s req we] ok show ?thesis by (simp add: session_ok_def)
qed

lemma reachable_ok:
  assumes "session_setup cfg w" "ps_reachable cfg w s"
  shows "session_ok cfg s"
  using assms(2)
proof (induction rule: ps_reachable.induct)
  case ps_created
  have "ps_run (new_provider_session cfg w) = NotRun" by (simp add: new_provider_session_def)
  with new_session_inv [OF assms(1)] show ?case by (simp add: session_ok_def stands_def)
next
  case (ps_continues s s')
  from ps_continues.IH ps_continues.hyps(2) show ?case by (rule session_ok_step)
qed

end
