(* ===== verification/Provider_Session_Properties.thy ===== *)
theory Provider_Session_Properties
  imports Provider_Session_Steps Emission
begin

section \<open>What the provider-backed session guarantees\<close>

text \<open>
  First the converse of the safety lemmas: when the sink works, the timestamps are valid and no
  observer raises (\<open>quiet\<close>), every emission of the session succeeds, so that the finalizer
  publishes the selected outcome. Then an example run, and the properties of every state reachable
  by \<open>ps_step\<close>, for every environment and interleaving.
\<close>

subsection \<open>Emissions that succeed\<close>

definition quiet :: "tx_env \<Rightarrow> bool" where
  "quiet env \<longleftrightarrow>
     (\<forall>i. te_observer env i = None) \<and>
     (\<forall>i. env_sink (te_write env i) = None \<and> Timestamp (env_timestamp (te_write env i)))"

lemma emission_returns:
  assumes fold: "case emit_and_accept cfg env i t d c s of
        (Inl _, s') \<Rightarrow> s' = s \<or> folded cfg mk s s' | (Inr _, s') \<Rightarrow> folded cfg mk s s'"
    and quiet: "quiet env"
    and mk: "\<And>b. session_event_base_of (mk b) = b" "\<And>b. t = session_type_name (session_event_type_of (mk b))"
      "\<And>b. d = session_payload_document (mk b)" "\<And>b. session_payload_ok (mk b)" "\<And>b. payload_fits (mk b)"
    and ids: "SessionId (pc_session_id cfg)" "correlation_ok c"
    and seq: "Sequence (next_sequence (ps_writer s) (pc_session_id cfg))"
  shows "\<exists>s'. emit_and_accept cfg env i t d c s = (Inr (), s') \<and> folded cfg mk s s'"
proof -
  let ?we = "(te_write env i)\<lparr>env_cancelled := False\<rparr>" and ?w = "ps_writer s"
  let ?e = "mk (emitted_base ?we (pc_session_id cfg) c ?w)"
  have q: "te_observer env i = None" "env_sink ?we = None" "Timestamp (env_timestamp ?we)"
    using quiet by (simp_all add: quiet_def)
  have ok: "session_event_ok ?e"
    using mk(1,4) ids seq q(3) by (simp add: session_event_ok_def session_event_base_ok_def emitted_base_def)
  have f: "event_session ?e = pc_session_id cfg" "event_correlation ?e = c"
    "event_sequence ?e = next_sequence ?w (pc_session_id cfg)"
    "env_timestamp ?we = se_timestamp (session_event_base_of ?e)"
    unfolding mk(1) by (simp_all add: emitted_base_def)
  have n: "event_sequence ?e = next_sequence ?w (event_session ?e)" unfolding f(1,3) ..
  have "\<exists>w'. emit_session ?we (lit t) (pc_session_id cfg) d c ?w = (Inr (SessionEv ?e), w') \<and>
      wrote ?w w' (SessionEv ?e)"
    using emit_session_publishes [OF ok mk(5) n f(4) q(2)]
    unfolding mk(2) [of "emitted_base ?we (pc_session_id cfg) c ?w", symmetric]
      mk(3) [of "emitted_base ?we (pc_session_id cfg) c ?w", symmetric] f(1,2) by simp
  then obtain w' where w': "emit_session ?we (lit t) (pc_session_id cfg) d c ?w = (Inr (SessionEv ?e), w')"
      "wrote ?w w' (SessionEv ?e)" by blast
  have eq: "emit_and_accept cfg env i t d c s = accept_lifecycle None (Wire ?e) (s\<lparr>ps_writer := w'\<rparr>)"
    using w'(1) q(1) by (simp add: emit_and_accept_def emit_session_event_def seq_simps del: lit_simps)
  have "published_events w' \<noteq> published_events ?w" using w'(2) by (simp add: wrote_def)
  then have "ps_writer (s\<lparr>ps_writer := w'\<rparr>) \<noteq> ps_writer s" by auto
  then have ne: "s\<lparr>ps_writer := w'\<rparr> \<noteq> s" by (rule contrapos_nn) (rule arg_cong)
  have nf: "\<not> folded cfg mk s (s\<lparr>ps_writer := w'\<rparr>)"
  proof
    assume "folded cfg mk s (s\<lparr>ps_writer := w'\<rparr>)"
    then have "ps_updates (s\<lparr>ps_writer := w'\<rparr>) \<noteq> ps_updates s"
      unfolding folded_def by (elim exE conjE) (simp only:, simp)
    then show False by simp
  qed
  show ?thesis
  proof (cases "reduction_ok (reduce_session_state (ps_lifecycle s) (Wire ?e))")
    case True
    then show ?thesis using fold unfolding eq by (simp add: accept_lifecycle_def Let_def seq_simps)
  next
    case False
    then show ?thesis using fold ne nf unfolding eq by (simp add: accept_lifecycle_def Let_def)
  qed
qed

subsection \<open>The finalizer publishes\<close>

text \<open>What an outcome carries is legal on the wire, and there is room for two more events.\<close>

definition outcome_wire_ok :: "selected_outcome \<Rightarrow> bool" where
  "outcome_wire_ok sel \<longleftrightarrow>
     (case so_failure sel of Some (c, m) \<Rightarrow> ErrorCode c \<and> SafeMessage m \<and> list_all is_scalar m | None \<Rightarrow> True) \<and>
     (case so_correlation sel of Some cmd \<Rightarrow> CommandId cmd | None \<Rightarrow> True)"

definition room :: "provider_session \<Rightarrow> bool" where
  "room s \<longleftrightarrow> last_sequence (ps_lifecycle s) + 2 \<le> MAX_SAFE_SEQUENCE"

lemma life_sequence_pos: "life_inv cfg s \<Longrightarrow> 0 \<le> last_sequence (ps_lifecycle s)"
proof -
  assume a: "life_inv cfg s"
  then have "reduction_ok (replay_session_updates INITIAL_SESSION_STATE (ps_updates s))"
    by (simp add: life_inv_def)
  from replay_tape_inv [OF this] a show ?thesis by (simp add: life_inv_def tape_inv_def)
qed

lemma sequence_room:
  assumes "life_inv cfg s" "last_sequence (ps_lifecycle s) + 1 \<le> MAX_SAFE_SEQUENCE"
  shows "Sequence (next_sequence (ps_writer s) (pc_session_id cfg))"
  using assms life_sequence_pos [OF assms(1)]
  by (simp add: next_sequence_counter life_inv_def Sequence_def)

lemma folded_sequence:
  "folded cfg mk s s' \<Longrightarrow> (\<And>b. last_sequence (reduced_state (apply_event (ps_lifecycle s) (mk b))) = se_sequence b) \<Longrightarrow>
     last_sequence (ps_lifecycle s') = last_sequence (ps_lifecycle s) + 1"
  unfolding folded_def by (elim exE conjE) simp

lemma notify_returns:
  assumes "SessionId (pc_session_id cfg)" "unpublished cfg p sel b s" "quiet env"
  shows "\<exists>s'. notify_loop_limits_once cfg env s = (Inr (), s') \<and> unpublished cfg p sel b s' \<and>
    ps_lifecycle s' = ps_lifecycle s"
proof -
  have "tracker_ok (ps_tracker s)"
    using assms(2) unfolding unpublished_def ending_def core_inv_def sel_inv_def by simp
  from snapshot_ok [OF this assms(1)] obtain ob where ob: "snapshot (pc_session_id cfg) (ps_tracker s) = Inr ob" by blast
  obtain r s' where r: "notify_loop_limits_once cfg env s = (r, s')" by fastforce
  have "r = Inr () \<and> ps_lifecycle s' = ps_lifecycle s"
    using r ob assms(3) by (auto simp: notify_loop_limits_once_def seq_simps quiet_def split: if_splits)
  with r notify_unpublished [of cfg p sel b env] assms(2) show ?thesis by (auto dest: establishesD)
qed

lemma completed_fits:
  assumes "core_inv cfg s"
  shows "wire_size (assistant_text (ps_lifecycle s)) \<le> 8192"
proof -
  have "tracker_ok (ps_tracker s)" "int (wire_size (assistant_text (ps_lifecycle s))) \<le> lt_assistant_output_bytes (ps_tracker s)"
    using assms by (simp_all add: core_inv_def sel_inv_def text_inv_def wire_size_def)
  then show ?thesis by (simp add: tracker_ok_def counters_ok_def loop_limits_ok_def limit_constants)
qed

text \<open>The last emission of each outcome, as a total statement.\<close>

lemma last_event_returns:
  assumes e: "\<exists>s1. m s = (Inr (), s1) \<and> published_now cfg p s1"
    and eq: "emit_selected_terminal cfg env sel s = next_do m (update (\<lambda>s. s\<lparr>ps_terminal_emitted := True\<rparr>)) s"
  shows "\<exists>s'. emit_selected_terminal cfg env sel s = (Inr (), s') \<and>
    status (ps_lifecycle s') \<in> TERMINAL_SESSION_STATUSES"
  using assms by (auto simp: seq_simps published_now_def)

lemma emitted_now:
  assumes "establishes (\<lambda>s. unpublished cfg p sel b s \<and> P s) (emit_and_accept cfg env i t d c) (\<lambda>_. Q) E"
    and "unpublished cfg p sel b s" "P s" "\<exists>s'. emit_and_accept cfg env i t d c s = (Inr (), s') \<and> F s'"
  shows "\<exists>s'. emit_and_accept cfg env i t d c s = (Inr (), s') \<and> Q s' \<and> F s'"
  using assms by (auto dest: establishesD)

definition valid_ids :: "ps_config \<Rightarrow> bool" where
  "valid_ids cfg \<longleftrightarrow> SessionId (pc_session_id cfg) \<and> CommandId (pc_command_id cfg)"

lemma valid_ids_fields:
  "valid_ids cfg \<Longrightarrow> SessionId (pc_session_id cfg)" "valid_ids cfg \<Longrightarrow> correlation_ok (Some (pc_command_id cfg))"
  by (simp_all add: valid_ids_def correlation_ok_def)

lemma failed_returns:
  assumes ids: "valid_ids cfg" and quiet: "quiet env"
    and u: "unpublished cfg p sel False s" and k: "so_kind sel = FailedO" "so_failure sel = Some (c, m)"
    and w: "outcome_wire_ok sel" and r: "room s"
  shows "\<exists>s'. emit_selected_terminal cfg env sel s = (Inr (), s') \<and>
    status (ps_lifecycle s') \<in> TERMINAL_SESSION_STATUSES"
proof (rule last_event_returns)
  obtain s1 where s1: "notify_loop_limits_once cfg env s = (Inr (), s1)" "unpublished cfg p sel False s1"
    "ps_lifecycle s1 = ps_lifecycle s" using notify_returns [OF valid_ids_fields(1) [OF ids] u quiet] by blast
  have q: "Sequence (next_sequence (ps_writer s1) (pc_session_id cfg))"
    by (rule sequence_room [OF unpublished_life(1) [OF s1(2)]]) (use r s1(3) in \<open>simp add: room_def\<close>)
  have "\<exists>s'. emit_and_accept cfg env 0 ''session.failed'' [(lit ''code'', JStr c), (lit ''message'', JStr m)]
      (Some (pc_command_id cfg)) s1 = (Inr (), s') \<and> folded cfg (\<lambda>b. SessionFailedEvent b c m) s1 s'"
    by (rule emission_returns [OF session_failed_folds [OF s1(2)] quiet])
      (use w k q valid_ids_fields [OF ids] in \<open>simp_all add: session_payload_document_def outcome_wire_ok_def\<close>)
  from emitted_now [OF session_failed_emits [OF k] s1(2) TrueI this] s1(1)
  show "\<exists>s1. next_do (notify_loop_limits_once cfg env)
      (emit_and_accept cfg env 0 ''session.failed'' [(lit ''code'', JStr c), (lit ''message'', JStr m)]
         (Some (pc_command_id cfg))) s = (Inr (), s1) \<and> published_now cfg p s1"
    by (auto simp: seq_simps)
  show "emit_selected_terminal cfg env sel s = next_do (next_do (notify_loop_limits_once cfg env)
      (emit_and_accept cfg env 0 ''session.failed'' [(lit ''code'', JStr c), (lit ''message'', JStr m)]
         (Some (pc_command_id cfg)))) (update (\<lambda>s. s\<lparr>ps_terminal_emitted := True\<rparr>)) s"
    using u k by (simp add: emit_selected_terminal_def unpublished_def del: lit_simps)
qed

lemma cancelled_returns:
  assumes ids: "valid_ids cfg" and quiet: "quiet env"
    and u: "unpublished cfg p sel False s" and k: "so_kind sel = CancelledO" "so_correlation sel = Some cmd"
    and w: "outcome_wire_ok sel" and r: "room s"
  shows "\<exists>s'. emit_selected_terminal cfg env sel s = (Inr (), s') \<and>
    status (ps_lifecycle s') \<in> TERMINAL_SESSION_STATUSES"
proof (rule last_event_returns)
  obtain s1 where s1: "notify_loop_limits_once cfg env s = (Inr (), s1)" "unpublished cfg p sel False s1"
    "ps_lifecycle s1 = ps_lifecycle s" using notify_returns [OF valid_ids_fields(1) [OF ids] u quiet] by blast
  have q: "Sequence (next_sequence (ps_writer s1) (pc_session_id cfg))"
    by (rule sequence_room [OF unpublished_life(1) [OF s1(2)]]) (use r s1(3) in \<open>simp add: room_def\<close>)
  have "\<exists>s'. emit_and_accept cfg env 0 ''session.cancelled'' [] (Some cmd) s1 = (Inr (), s') \<and>
      folded cfg SessionCancelledEvent s1 s'"
    by (rule emission_returns [OF session_cancelled_folds [OF s1(2) k] quiet])
      (use w k q valid_ids_fields [OF ids] in \<open>simp_all add: session_payload_document_def outcome_wire_ok_def correlation_ok_def\<close>)
  from emitted_now [OF session_cancelled_emits [OF k] s1(2) TrueI this] s1(1)
  show "\<exists>s1. next_do (notify_loop_limits_once cfg env)
      (emit_and_accept cfg env 0 ''session.cancelled'' [] (Some cmd)) s = (Inr (), s1) \<and> published_now cfg p s1"
    by (auto simp: seq_simps)
  show "emit_selected_terminal cfg env sel s = next_do (next_do (notify_loop_limits_once cfg env)
      (emit_and_accept cfg env 0 ''session.cancelled'' [] (Some cmd)))
      (update (\<lambda>s. s\<lparr>ps_terminal_emitted := True\<rparr>)) s"
    using u k by (simp add: emit_selected_terminal_def unpublished_def del: lit_simps)
qed

lemma completed_returns:
  assumes ids: "valid_ids cfg" and quiet: "quiet env" and core: "core_inv cfg s"
    and u: "unpublished cfg p sel False s" and k: "so_kind sel = CompletedO" and r: "room s"
    and at: "assistant_text (ps_lifecycle s) = t"
  shows "\<exists>s'. emit_selected_terminal cfg env sel s = (Inr (), s') \<and>
    status (ps_lifecycle s') \<in> TERMINAL_SESSION_STATUSES"
proof (rule last_event_returns)
  let ?c = "Some (pc_command_id cfg)"
  let ?first = "emit_and_accept cfg env 0 ''assistant.completed'' [(lit ''text'', JStr t)] ?c"
  let ?last = "emit_and_accept cfg env 1 ''session.completed'' [] ?c"
  have sel: "ps_selection s = Some sel" using u by (simp add: unpublished_def)
  have tx: "ps_completed_text s = Some t" "AssistantText t" "wire_size t \<le> 8192"
    using core sel k completed_fits [OF core] at by (auto simp: core_inv_def text_inv_def)
  have q: "Sequence (next_sequence (ps_writer s) (pc_session_id cfg))"
    by (rule sequence_room [OF unpublished_life(1) [OF u]]) (use r in \<open>simp add: room_def\<close>)
  have "\<exists>s'. ?first s = (Inr (), s') \<and> folded cfg (\<lambda>b. AssistantCompletedEvent b t) s s'"
    by (rule emission_returns [OF completed_folds [OF u at] quiet])
      (use tx q valid_ids_fields [OF ids] in \<open>simp_all add: session_payload_document_def\<close>)
  from emitted_now [OF completion_emits u at this] obtain s1 where s1: "?first s = (Inr (), s1)"
    "unpublished cfg p sel True s1" "folded cfg (\<lambda>b. AssistantCompletedEvent b t) s s1" by blast
  have seq1: "last_sequence (ps_lifecycle s1) = last_sequence (ps_lifecycle s) + 1"
    by (rule folded_sequence [OF s1(3)]) (use u at in \<open>simp add: unpublished_def\<close>)
  obtain s2 where s2: "notify_loop_limits_once cfg env s1 = (Inr (), s2)" "unpublished cfg p sel True s2"
    "ps_lifecycle s2 = ps_lifecycle s1" using notify_returns [OF valid_ids_fields(1) [OF ids] s1(2) quiet] by blast
  have q2: "Sequence (next_sequence (ps_writer s2) (pc_session_id cfg))"
    by (rule sequence_room [OF unpublished_life(1) [OF s2(2)]]) (use r seq1 s2(3) in \<open>simp add: room_def\<close>)
  have "\<exists>s'. ?last s2 = (Inr (), s') \<and> folded cfg SessionCompletedEvent s2 s'"
    by (rule emission_returns [OF session_completed_folds [OF s2(2)] quiet])
      (use q2 valid_ids_fields [OF ids] in \<open>simp_all add: session_payload_document_def\<close>)
  from emitted_now [OF session_completed_emits [OF k] s2(2) TrueI this] s1(1) s2(1)
  show "\<exists>s1. next_do ?first (next_do (notify_loop_limits_once cfg env) ?last) s = (Inr (), s1) \<and> published_now cfg p s1"
    by (auto simp: seq_simps)
  show "emit_selected_terminal cfg env sel s =
      next_do (next_do ?first (next_do (notify_loop_limits_once cfg env) ?last))
        (update (\<lambda>s. s\<lparr>ps_terminal_emitted := True\<rparr>)) s"
    using u k tx(1) by (simp add: emit_selected_terminal_def unpublished_def del: lit_simps)
qed

lemma terminal_returns:
  assumes ids: "valid_ids cfg" and quiet: "quiet env" and st: "stands cfg p s"
    and f: "ps_final s = FinalTerminal" "ps_selection s = Some sel"
    and w: "outcome_wire_ok sel" and r: "room s"
  shows "\<exists>s'. emit_selected_terminal cfg env sel s = (Inr (), s') \<and>
    status (ps_lifecycle s') \<in> TERMINAL_SESSION_STATUSES"
proof -
  have u: "unpublished cfg p sel False s" "so_kind sel \<noteq> TeardownO" using unpublished_start [OF st f] by simp_all
  have core: "core_inv cfg s" using st by (rule stands_core)
  then have shape: "outcome_shape cfg sel" using f by (simp add: core_inv_def sel_inv_def)
  show ?thesis
  proof (cases "so_kind sel")
    case CompletedO
    show ?thesis by (rule completed_returns [OF ids quiet core u(1) CompletedO r refl])
  next
    case FailedO
    then obtain c m where "so_failure sel = Some (c, m)" using shape by (auto simp: outcome_shape_def)
    from failed_returns [OF ids quiet u(1) FailedO this w r] show ?thesis .
  next
    case CancelledO
    then obtain cmd where "so_correlation sel = Some cmd" using shape by (auto simp: outcome_shape_def)
    from cancelled_returns [OF ids quiet u(1) CancelledO this w r] show ?thesis .
  qed (use u(2) in simp)
qed

text \<open>The whole finalizer, when nothing interrupts it.\<close>

definition finalize :: "ps_config \<Rightarrow> tx_env \<Rightarrow> selected_outcome \<Rightarrow> unit ps_action" where
  "finalize cfg env sel =
     next_do (finalize_cleanup env sel)
     (ask (\<lambda>s. case ps_final s of
         FinalCleaned cleanup_failed \<Rightarrow>
           next_do (if cleanup_failed then report_cleanup_failure_once cfg env else ret ())
           (if so_kind sel = TeardownO then update (\<lambda>s. s\<lparr>ps_final := FinalDone\<rparr>)
            else next_do (update (\<lambda>s. s\<lparr>ps_final := FinalTerminal\<rparr>))
                (next_do (emit_selected_terminal cfg env sel) (update (\<lambda>s. s\<lparr>ps_final := FinalDone\<rparr>))))
       | _ \<Rightarrow> ret ()))"

lemma finalize_cleanup_value:
  assumes "core_inv cfg s" "ps_selection s = Some sel" "so_kind sel = TeardownO \<or> ps_started_ok s"
    and "\<not> te_cleanup_failed env" "\<not> te_reap_failed env" "\<not> ps_pending_failed s"
  shows "\<exists>s1. finalize_cleanup env sel s = (Inr (), s1) \<and> ps_final s1 = FinalCleaned False \<and>
    ps_lifecycle s1 = ps_lifecycle s \<and> ps_selection s1 = ps_selection s \<and>
    ps_limits_attached s1 = ps_limits_attached s \<and> ps_limits_observed s1 = ps_limits_observed s"
proof -
  have m: "ps_cleanup s = None \<or> ps_cleanup s = Some (so_cleanup_mode sel)"
    using assms(1,2) by (cases "ps_cleanup s") (auto simp: core_inv_def sel_inv_def)
  have c: "\<exists>c. ensure_provider_cleanup (so_cleanup_mode sel) s = (Inr (), c) \<and> ps_pending_failed c = ps_pending_failed s \<and>
      ps_lifecycle c = ps_lifecycle s \<and> ps_selection c = ps_selection s \<and>
      ps_limits_attached c = ps_limits_attached s \<and> ps_limits_observed c = ps_limits_observed s"
    using m by (cases "ps_operation s"; cases "ps_cleanup s") (auto simp: ensure_provider_cleanup_def)
  have i: "\<not> (so_kind sel \<noteq> TeardownO \<and> \<not> ps_started_ok s)" using assms(3) by blast
  have "finalize_cleanup env sel s = seq (finish_provider_work env (so_cleanup_mode sel))
        (\<lambda>cleanup_failed. update (\<lambda>s. s\<lparr>ps_final := FinalCleaned cleanup_failed\<rparr>)) s"
    by (simp only: finalize_cleanup_def action_simps(5) i if_False)
  with c assms(4-6) show ?thesis by (auto simp: finish_provider_work_def seq_simps)
qed

lemma finalize_publishes:
  assumes ids: "valid_ids cfg" and quiet: "quiet env" and st: "stands cfg p s"
    and f: "ps_final s = FinalPending" "ps_selection s = Some sel" "so_kind sel \<noteq> TeardownO" "ps_started_ok s"
    and w: "outcome_wire_ok sel" and r: "room s"
    and clean: "\<not> te_cleanup_failed env" "\<not> te_reap_failed env" "\<not> ps_pending_failed s"
  shows "\<exists>s1 s2. finalize_cleanup env sel s = (Inr (), s1) \<and> ps_final s1 = FinalCleaned False \<and>
    ps_selection s1 = Some sel \<and>
    emit_selected_terminal cfg env sel (s1\<lparr>ps_final := FinalTerminal\<rparr>) = (Inr (), s2) \<and>
    finalize cfg env sel s = (Inr (), s2\<lparr>ps_final := FinalDone\<rparr>) \<and>
    status (ps_lifecycle s2) \<in> TERMINAL_SESSION_STATUSES \<and> outcome_published sel (ps_lifecycle s2)"
proof -
  obtain s1 where s1: "finalize_cleanup env sel s = (Inr (), s1)" "ps_final s1 = FinalCleaned False"
    "ps_lifecycle s1 = ps_lifecycle s" "ps_selection s1 = Some sel"
    using finalize_cleanup_value [OF stands_core [OF st] f(2) _ clean] f(2,4) by auto
  have st1: "stands cfg p s1" using finalize_cleanup_core [OF st f(1,2), of env] s1(1) by auto
  let ?t = "s1\<lparr>ps_final := FinalTerminal\<rparr>"
  have stt: "stands cfg p ?t" by (rule ok_next_final(2) [OF st1 s1(2,4) f(3)])
  have ft: "ps_final ?t = FinalTerminal" "ps_selection ?t = Some sel" using s1(4) by simp_all
  have rt: "room ?t" using r s1(3) by (simp add: room_def)
  obtain s2 where s2: "emit_selected_terminal cfg env sel ?t = (Inr (), s2)"
    "status (ps_lifecycle s2) \<in> TERMINAL_SESSION_STATUSES"
    using terminal_returns [OF ids quiet stt ft w rt] by blast
  have e: "ending cfg p s2" using emit_selected_terminal_core [OF stt ft, of env] s2(1) by simp
  have m: "ps_selection s2 = Some sel"
    using movesD [OF moves_terminal s2(1)] s1(4) by (simp add: session_moves_def)
  have "outcome_published sel (ps_lifecycle s2)"
    using e s2(2) m by (auto simp: ending_def core_inv_def phase_inv_def)
  moreover have "finalize cfg env sel s = (Inr (), s2\<lparr>ps_final := FinalDone\<rparr>)"
    using s1(1,2) s2(1) f(3) by (simp add: finalize_def seq_simps)
  ultimately show ?thesis using s1 s2 by blast
qed

lemma finalize_steps:
  assumes "finalize_cleanup env sel s = (Inr (), s1)" "ps_final s1 = FinalCleaned False" "ps_selection s1 = Some sel"
    and "emit_selected_terminal cfg env sel (s1\<lparr>ps_final := FinalTerminal\<rparr>) = (Inr (), s2)"
    and s: "ps_reachable cfg w s" "ps_final s = FinalPending" "ps_selection s = Some sel" "ps_start_settled s"
      "so_kind sel \<noteq> TeardownO"
  shows "ps_reachable cfg w (s2\<lparr>ps_final := FinalDone\<rparr>)"
proof -
  have "ps_reachable cfg w s1"
    using ps_continues [OF s(1) ps_runs [OF finalizer_cleans [OF s(2,3) _ assms(1)]]] s(4) by simp
  then have "ps_reachable cfg w (s1\<lparr>ps_final := FinalTerminal\<rparr>)"
    using ps_continues [OF _ ps_runs [OF finalizer_reports [where env = env and u = "()" and s' = s1, OF assms(2,3)]], of cfg w] s(5)
    by simp
  then show ?thesis
    by (rule ps_continues) (rule ps_runs, rule finalizer_emits_terminal [OF _ _ assms(4)]; simp add: assms(3))
qed

subsection \<open>An example run\<close>

text \<open>A session whose provider work is already overdue when its operation would start.\<close>

definition example_config :: ps_config where
  "example_config =
     \<lparr>pc_session_id = lit ''ses_1'', pc_command_id = lit ''cmd_1'', pc_task = lit ''explain'',
      pc_limits = default_loop_limits\<rparr>"

definition example_tx :: tx_env where
  "example_tx =
     \<lparr>te_due = (\<lambda>_. True), te_latches = False,
      te_write = (\<lambda>_. \<lparr>env_timestamp = lit ''2026-01-01T00:00:00.000Z'', env_sink = None, env_cancelled = False\<rparr>),
      te_observer = (\<lambda>_. None), te_start = StartReturns, te_cleanup_failed = False, te_reap_failed = False\<rparr>"

lemma example_tx_facts: "quiet example_tx" "\<not> te_cleanup_failed example_tx" "\<not> te_reap_failed example_tx"
  "\<not> te_latches example_tx" "te_due example_tx i"
  using example_timestamp by (simp_all add: example_tx_def quiet_def)

lemma example_config_ids: "valid_ids example_config"
  using example_ids by (simp add: valid_ids_def example_config_def del: lit_simps)

lemma example_setup: "session_setup example_config new_event_writer"
  using example_config_ids
  by (simp add: session_setup_def new_event_writer_def valid_ids_def) (simp add: example_config_def)

definition run_0 :: provider_session where
  "run_0 = (new_provider_session example_config new_event_writer)\<lparr>ps_limits_attached := True, ps_run := Publishing\<rparr>"

lemma new_session_stage:
  "ps_run (new_provider_session cfg w) = NotRun"
 "\<not> ps_limits_attached (new_provider_session cfg w)"
  by (simp_all add: new_provider_session_def)

lemma run_0_facts: "ps_reachable example_config new_event_writer run_0" "ps_selection run_0 = None"
  "ps_deferred run_0 = None" "ps_operation run_0 = False" "ps_run run_0 = Publishing"
  "\<not> ps_pending_failed run_0" "status (ps_lifecycle run_0) = Starting" "last_sequence (ps_lifecycle run_0) = 0"
  "ps_limits_attached run_0" "\<not> ps_limits_observed run_0"
proof -
  let ?n = "new_provider_session example_config new_event_writer"
  have "attach_loop_limits_observer ?n = (Inr (), ?n\<lparr>ps_limits_attached := True\<rparr>)"
    by (simp add: attach_loop_limits_observer_def new_session_stage)
  note r = ps_continues [OF ps_created attaches_limits_observer [OF this]]
  have "begin_run (?n\<lparr>ps_limits_attached := True\<rparr>) = (Inr (), run_0)"
    by (simp add: begin_run_def new_session_stage run_0_def)
  from ps_continues [OF r ps_runs [OF run_begins [OF this]]] show "ps_reachable example_config new_event_writer run_0" .
qed (simp_all add: run_0_def new_provider_session_def reduce_session_state_def INITIAL_SESSION_STATE_def
    TERMINAL_SESSION_STATUSES_def)

lemma example_started:
  "\<exists>s1. publish_started example_config example_tx run_0 = (Inr (), s1) \<and> ps_selection s1 = None \<and>
     \<not> ps_operation s1 \<and> \<not> ps_pending_failed s1 \<and> last_sequence (ps_lifecycle s1) = 1 \<and> ps_started_ok s1 \<and>
     ps_limits_attached s1 \<and> \<not> ps_limits_observed s1"
proof -
  have life: "life_inv example_config run_0"
    using reachable_ok [OF example_setup run_0_facts(1)] by (simp add: session_ok_def stands_def core_inv_def)
  have "Sequence (next_sequence (ps_writer run_0) (pc_session_id example_config))"
    by (rule sequence_room [OF life]) (simp add: run_0_facts MAX_SAFE_SEQUENCE_def)
  then obtain s1 where s1: "emit_and_accept example_config example_tx 0 ''session.started'' []
      (Some (pc_command_id example_config)) run_0 = (Inr (), s1)" "folded example_config SessionStartedEvent run_0 s1"
    using emission_returns [OF started_folds [OF life run_0_facts(7), where env = example_tx and i = 0]
        example_tx_facts(1)] valid_ids_fields [OF example_config_ids]
    by (auto simp: session_payload_document_def)
  have k: "ps_selection s1 = None" "ps_deferred s1 = None" "\<not> ps_operation s1" "\<not> ps_pending_failed s1"
    "ps_limits_attached s1" "\<not> ps_limits_observed s1"
    using s1(2) run_0_facts unfolding folded_def by auto
  have q: "last_sequence (ps_lifecycle s1) = 1"
    using folded_sequence [OF s1(2)] run_0_facts(8) by simp
  have "publish_started example_config example_tx run_0 = (Inr (), s1\<lparr>ps_started_ok := True, ps_start_settled := True\<rparr>)"
    using s1(1) k(2) by (simp add: publish_started_def seq_simps watcher_during_def example_tx_facts)
  with k q show ?thesis by simp
qed

abbreviation example_outcome :: selected_outcome where
  "example_outcome \<equiv> deadline_outcome example_config"

text \<open>The operation does not start: the deadline is selected, and the finalizer is pending.\<close>

lemma example_selected:
  "\<exists>s. ps_reachable example_config new_event_writer s \<and> ps_final s = FinalPending \<and>
     ps_selection s = Some example_outcome \<and> ps_started_ok s \<and> ps_start_settled s \<and> room s \<and> \<not> ps_pending_failed s \<and>
     ps_limits_attached s \<and> \<not> ps_limits_observed s"
proof -
  obtain s1 where s1: "publish_started example_config example_tx run_0 = (Inr (), s1)" "ps_selection s1 = None"
    "\<not> ps_operation s1" "\<not> ps_pending_failed s1" "last_sequence (ps_lifecycle s1) = 1" "ps_started_ok s1"
    "ps_limits_attached s1" "\<not> ps_limits_observed s1"
    using example_started by blast
  let ?s = "s1\<lparr>ps_run := StartingOperation\<rparr>"
  have r1: "ps_reachable example_config new_event_writer ?s"
    by (rule ps_continues [OF run_0_facts(1) ps_runs [OF run_publishes [OF run_0_facts(5) s1(1)]]])
  obtain s2 where s2: "start_provider_operation example_config example_tx ?s = (Inr (), s2)"
      "ps_selection s2 = Some example_outcome" "ps_final s2 = FinalPending" "ps_started_ok s2"
      "ps_lifecycle s2 = ps_lifecycle s1" "\<not> ps_pending_failed s2"
      "ps_limits_attached s2" "\<not> ps_limits_observed s2"
  proof
    let ?l = "if ps_latched ?s then ?s
      else ?s\<lparr>ps_latched := True, ps_tracker := mark_provider_work_exhausted (ps_tracker ?s)\<rparr>"
    let ?e = "?l\<lparr>ps_selection := Some example_outcome, ps_final := FinalPending\<rparr>"
    have l: "\<not> ps_operation ?l" "ps_selection ?l = None" using s1(2,3) by simp_all
    have "latch_provider_deadline ?s = (Inr (), ?l)"
      using l(1) unfolding latch_provider_deadline_def ensure_provider_cleanup_def seq_simps action_simps by simp
    then have "select_deadline example_config ?s = (Inr (), ?e)"
      using l(2) by (simp only: select_deadline_def seq_simps select_locked_def action_simps prod.case sum.case) simp
    then show "start_provider_operation example_config example_tx ?s = (Inr (), ?e)"
      using s1(2) by (simp add: start_provider_operation_def example_tx_facts)
  qed (use s1 in simp_all)
  have r2: "ps_reachable example_config new_event_writer (s2\<lparr>ps_run := Consuming\<rparr>)"
    by (rule ps_continues [OF r1 ps_runs [OF run_starts_operation [OF _ s2(1)]]]) simp
  then have "ps_start_settled (s2\<lparr>ps_run := Consuming\<rparr>)"
    using reachable_ok [OF example_setup r2] s2(4) by (simp add: session_ok_def stands_def core_inv_def phase_inv_def)
  with r2 s2 s1(5) show ?thesis
    by (intro exI [of _ "s2\<lparr>ps_run := Consuming\<rparr>"]) (simp add: room_def MAX_SAFE_SEQUENCE_def)
qed

lemma example_outcome_wire_ok: "outcome_wire_ok example_outcome" "so_kind example_outcome = FailedO"
proof -
  have "CommandId (pc_command_id example_config)" using example_config_ids by (simp add: valid_ids_def)
  then show "outcome_wire_ok example_outcome" "so_kind example_outcome = FailedO"
    by (simp_all add: outcome_wire_ok_def deadline_outcome_def failed_outcome_def limit_codes ErrorCode_def
        is_lower_def is_code_char_def is_digit_def SafeMessage_def validate_safe_message_def is_control_def
        is_scalar_small)
qed

lemma example_finished:
  "\<exists>s. ps_reachable example_config new_event_writer s \<and> status (ps_lifecycle s) = Failed"
proof -
  obtain s where s: "ps_reachable example_config new_event_writer s" "ps_final s = FinalPending"
    "ps_selection s = Some example_outcome" "ps_started_ok s" "ps_start_settled s" "room s" "\<not> ps_pending_failed s"
    using example_selected by blast
  have k: "so_kind example_outcome \<noteq> TeardownO" using example_outcome_wire_ok by simp
  have st: "stands example_config (ps_run s) s" using reachable_ok [OF example_setup s(1)] by (simp add: session_ok_def)
  obtain s1 s2 where f: "finalize_cleanup example_tx example_outcome s = (Inr (), s1)" "ps_final s1 = FinalCleaned False"
    "ps_selection s1 = Some example_outcome"
    "emit_selected_terminal example_config example_tx example_outcome (s1\<lparr>ps_final := FinalTerminal\<rparr>) = (Inr (), s2)"
    "outcome_published example_outcome (ps_lifecycle s2)"
    using finalize_publishes [OF example_config_ids example_tx_facts(1) st s(2,3) k s(4) example_outcome_wire_ok(1)
        s(6) example_tx_facts(2,3) s(7)] by blast
  have "ps_reachable example_config new_event_writer (s2\<lparr>ps_final := FinalDone\<rparr>)"
    by (rule finalize_steps [OF f(1-4) s(1-3,5) k])
  moreover have "status (ps_lifecycle (s2\<lparr>ps_final := FinalDone\<rparr>)) = Failed"
    using f(5) example_outcome_wire_ok(2) by (simp add: outcome_published_def)
  ultimately show ?thesis by blast
qed

lemma reachable_core:
  "session_setup cfg w \<Longrightarrow> ps_reachable cfg w s \<Longrightarrow> core_inv cfg s"
  using reachable_ok by (auto simp: session_ok_def stands_def)

lemma reachable_tape:
  assumes "core_inv cfg s"
  shows "tape_inv (ps_updates s) (ps_lifecycle s)" "session_inv (ps_lifecycle s)"
    "session_events (pc_session_id cfg) (published_events (ps_writer s)) = wire_events (ps_updates s)"
    "reduction_ok (replay_session_updates INITIAL_SESSION_STATE (ps_updates s))"
proof -
  have l: "life_inv cfg s" using assms by (simp add: core_inv_def)
  then show "reduction_ok (replay_session_updates INITIAL_SESSION_STATE (ps_updates s))" by (simp add: life_inv_def)
  from replay_tape_inv [OF this] l show "tape_inv (ps_updates s) (ps_lifecycle s)" by (simp add: life_inv_def)
  show "session_inv (ps_lifecycle s)" using l by (rule life_inv_session)
  show "session_events (pc_session_id cfg) (published_events (ps_writer s)) = wire_events (ps_updates s)"
    using l by (simp add: life_inv_def)
qed

lemma wire_events_split:
  "wire_events us = xs @ [e] \<Longrightarrow> \<exists>vs v ws. us = vs @ v # ws \<and> wire_events vs = xs"
proof (induction us arbitrary: xs rule: rev_induct)
  case (snoc u us)
  show ?case
  proof (cases u)
    case (Wire x)
    with snoc.prems have "wire_events us = xs" by simp
    then show ?thesis by blast
  qed (use snoc in \<open>auto, (metis append_Cons append_assoc)+\<close>)
qed simp

lemma map_sum_Inr_obtain: "map_sum f g x = Inr y \<Longrightarrow> (\<And>z. x = Inr z \<Longrightarrow> y = g z \<Longrightarrow> P) \<Longrightarrow> P"
  by (cases x) auto

subsection \<open>Properties\<close>

text \<open>C14: In every reachable state, whatever the sink, the observers, the provider, the deadline and
  other producers did, the events published for the session are exactly the wire events its
  lifecycle accepted, in order; the lifecycle is their replay; they are numbered 1, 2, 3, ...; and
  nothing follows a terminal event.\<close>

theorem published_tape_is_lifecycle:
  assumes "session_setup cfg w" "ps_reachable cfg w s"
  shows "session_events (pc_session_id cfg) (published_events (ps_writer s)) = wire_events (ps_updates s)
    \<and> replay_session_updates INITIAL_SESSION_STATE (ps_updates s) = accept (ps_lifecycle s)
    \<and> map event_sequence (wire_events (ps_updates s)) = map int [1..<Suc (length (wire_events (ps_updates s)))]
    \<and> (\<forall>before e after. wire_events (ps_updates s) = before @ e # after \<longrightarrow> is_terminal_event e \<longrightarrow> after = [])"
proof (intro conjI allI impI)
  have core: "core_inv cfg s" using assms by (rule reachable_core)
  note t = reachable_tape [OF core]
  show "session_events (pc_session_id cfg) (published_events (ps_writer s)) = wire_events (ps_updates s)"
    by (rule t(3))
  show "replay_session_updates INITIAL_SESSION_STATE (ps_updates s) = accept (ps_lifecycle s)"
    using core by (simp add: core_inv_def life_inv_def)
  show "map event_sequence (wire_events (ps_updates s)) = map int [1..<Suc (length (wire_events (ps_updates s)))]"
    using t(1) by (simp add: tape_inv_def)
  fix before e after
  assume split: "wire_events (ps_updates s) = before @ e # after" and te: "is_terminal_event e"
  show "after = []"
  proof (rule ccontr)
    assume "after \<noteq> []"
    then obtain d u where "wire_events (ps_updates s) = (before @ e # d) @ [u]" using split
      by (cases after rule: rev_cases) auto
    then obtain us v vs where us: "ps_updates s = us @ v # vs" "wire_events us = before @ e # d"
      using wire_events_split by blast
    from replay_terminal_last [OF t(4) [unfolded us(1)]] us(2) te show False by (simp add: list_ex_iff)
  qed
qed

theorem published_tape_is_lifecycle_witness:
  "\<exists>s. ps_reachable example_config new_event_writer s \<and> status (ps_lifecycle s) = Failed \<and>
     session_events (lit ''ses_1'') (published_events (ps_writer s)) = wire_events (ps_updates s)"
proof -
  obtain s where s: "ps_reachable example_config new_event_writer s" "status (ps_lifecycle s) = Failed"
    using example_finished by blast
  from published_tape_is_lifecycle [OF example_setup s(1)] s show ?thesis
    by (auto simp: example_config_def simp del: lit_simps)
qed

text \<open>C15: A terminal status is the one of the selected outcome: a failure publishes exactly the
  selected code and message, a cancellation names the cancelling command, and a completion is of
  a non-empty text that the provider repeated in full.\<close>

theorem terminal_status_matches_selection:
  assumes "session_setup cfg w" "ps_reachable cfg w s" "status (ps_lifecycle s) \<in> TERMINAL_SESSION_STATUSES"
  shows "\<exists>sel. ps_selection s = Some sel \<and> outcome_published sel (ps_lifecycle s) \<and>
    (status (ps_lifecycle s) = Completed \<longrightarrow>
       assistant_text (ps_lifecycle s) \<noteq> [] \<and> ps_completed_text s = Some (assistant_text (ps_lifecycle s)) \<and>
       assistant_text (ps_lifecycle s) = concat (ps_accepted_text s) \<and> assistant_completed (ps_lifecycle s))"
proof -
  have core: "core_inv cfg s" using assms(1,2) by (rule reachable_core)
  obtain sel where sel: "ps_selection s = Some sel" "outcome_published sel (ps_lifecycle s)"
    using core assms(3) by (auto simp: core_inv_def phase_inv_def)
  have c: "so_kind sel = CompletedO" if "status (ps_lifecycle s) = Completed"
    using sel(2) that by (simp add: outcome_published_def split: outcome_kind.splits)
  have "assistant_completed (ps_lifecycle s)" if "status (ps_lifecycle s) = Completed"
    using reachable_tape(2) [OF core] that by (simp add: session_inv_def)
  with sel c core show ?thesis by (auto simp: core_inv_def text_inv_def)
qed

theorem terminal_status_matches_selection_witness:
  "\<exists>s sel. ps_reachable example_config new_event_writer s \<and> status (ps_lifecycle s) = Failed \<and>
     ps_selection s = Some sel \<and> outcome_published sel (ps_lifecycle s)"
proof -
  obtain s where s: "ps_reachable example_config new_event_writer s" "status (ps_lifecycle s) = Failed"
    using example_finished by blast
  from terminal_status_matches_selection [OF example_setup s(1)] s show ?thesis
    by (auto simp: TERMINAL_SESSION_STATUSES_def)
qed

lemma run_step_moves:
  assumes "ps_run_step cfg s s'"
  shows "\<exists>t. session_moves cfg s t \<and> ps_selection s' = ps_selection t \<and> ps_updates s' = ps_updates t \<and> ps_writer s' = ps_writer t"
  using assms
proof (cases rule: ps_run_step.cases)
    case run_consumes
    from run_consumes(2) show ?thesis
    proof (cases rule: consume_step.cases)
      case (consume_deadline env r t)
      then have "session_moves cfg (s\<lparr>ps_pending_failed := ps_pending_failed s \<or> te_reap_failed env\<rparr>) t"
        by (intro movesD [OF moves_selecting(3)])
      with consume_deadline(1) show ?thesis by (intro exI [of _ t]) (simp add: session_moves_def)
    qed (force dest: movesD [rotated] intro: transaction_moves simp: session_order.order_refl)+
next
    case (run_begins r)
    then show ?thesis by (intro exI [of _ s])
      (auto simp: session_order.order_refl begin_run_def split: if_splits)
next
    case (finalizer_reports b sel env u t)
    then show ?thesis
      by (intro exI [of _ t]) (cases b; auto dest: movesD [OF moves_report] simp: session_moves_def)
next
    case (finalizer_report_raises b sel env e t)
    then show ?thesis
      by (intro exI [of _ t]) (cases b; auto dest: movesD [OF moves_report] simp: session_moves_def)
qed (force dest: movesD [rotated] intro: transaction_moves simp: session_order.order_refl)+

text \<open>The first selected outcome wins: no step of the session, of the watcher, of a concurrent
  request or of another producer replaces it, and accepted updates are never dropped.\<close>

theorem selection_is_final:
  assumes "ps_step cfg s s'"
  shows "(\<forall>sel. ps_selection s = Some sel \<longrightarrow> ps_selection s' = Some sel) \<and> prefix (ps_updates s) (ps_updates s')"
proof -
  have "\<exists>t. session_moves cfg s t \<and> ps_selection s' = ps_selection t \<and> ps_updates s' = ps_updates t"
    using assms
  proof (cases rule: ps_step.cases)
    case ps_runs
    then show ?thesis using run_step_moves by blast
  next
    case (other_producer_emits req we)
    then show ?thesis by (intro exI [of _ s]) (simp add: session_order.order_refl)
  next
    case (attaches_lifecycle_observer ob r)
    then show ?thesis by (intro exI [of _ s'])
      (auto simp: session_moves_def attach_lifecycle_observer_def seq_simps split: if_splits option.splits)
  next
    case (attaches_usage_observer r)
    then show ?thesis by (intro exI [of _ s'])
      (auto simp: session_moves_def attach_model_usage_observer_def split: if_splits)
  next
    case (attaches_limits_observer r)
    then show ?thesis by (intro exI [of _ s'])
      (auto simp: session_moves_def attach_loop_limits_observer_def split: if_splits)
  qed (force dest: movesD [rotated] intro: transaction_moves simp: session_order.order_refl)+
  then show ?thesis by (auto simp: session_moves_def)
qed

theorem selection_is_final_witness:
  "\<exists>s s'. ps_reachable example_config new_event_writer s \<and> ps_selection s = Some example_outcome \<and>
     ps_step example_config s s' \<and> ps_selection s' = Some example_outcome"
proof -
  obtain s where s: "ps_reachable example_config new_event_writer s" "ps_selection s = Some example_outcome"
    using example_selected by blast
  obtain r s' where "select_teardown example_config example_tx s = (r, s')" by fastforce
  then have step: "ps_step example_config s s'" by (rule runtime_tears_down)
  from selection_is_final [OF this] s step show ?thesis by blast
qed

text \<open>C16: The text a session publishes never exceeds its configured assistant output budget, nor the
  fixed ceiling of a provider turn, in bytes of UTF-8, whatever the provider sends.\<close>

theorem published_text_within_budget:
  assumes "session_setup cfg w" "ps_reachable cfg w s"
  shows "int (length (utf8_bytes (concat (delta_texts
      (session_events (pc_session_id cfg) (published_events (ps_writer s)))))))
    \<le> max_assistant_output_bytes (pc_limits cfg)
    \<and> max_assistant_output_bytes (pc_limits cfg) \<le> MAX_PROVIDER_TURN_OUTPUT_BYTES"
proof -
  have core: "core_inv cfg s" using assms by (rule reachable_core)
  have "concat (delta_texts (session_events (pc_session_id cfg) (published_events (ps_writer s)))) =
      assistant_text (ps_lifecycle s)"
    using reachable_tape(1,3) [OF core] by (simp add: tape_inv_def)
  moreover have "int (length (utf8_bytes (assistant_text (ps_lifecycle s)))) \<le> lt_assistant_output_bytes (ps_tracker s)"
    "lt_assistant_output_bytes (ps_tracker s) \<le> max_assistant_output_bytes (pc_limits cfg)"
    "max_assistant_output_bytes (pc_limits cfg) \<le> MAX_PROVIDER_TURN_OUTPUT_BYTES"
    using core by (auto simp: core_inv_def text_inv_def sel_inv_def tracker_ok_def counters_ok_def
        loop_limits_ok_def limit_constants MAX_PROVIDER_TURN_OUTPUT_BYTES_def)
  ultimately show ?thesis by simp
qed

theorem published_text_within_budget_witness:
  "\<exists>s. ps_reachable example_config new_event_writer s \<and> status (ps_lifecycle s) = Failed \<and>
     int (length (utf8_bytes (concat (delta_texts
      (session_events (lit ''ses_1'') (published_events (ps_writer s))))))) \<le> 8192"
proof -
  obtain s where s: "ps_reachable example_config new_event_writer s" "status (ps_lifecycle s) = Failed"
    using example_finished by blast
  from published_text_within_budget [OF example_setup s(1)] s show ?thesis
    by (auto simp: example_config_def MAX_PROVIDER_TURN_OUTPUT_BYTES_def simp del: lit_simps)
qed


lemma example_observed:
  "\<exists>s ob. ps_reachable example_config new_event_writer s \<and> ps_limits_evidence s = Some ob \<and>
     ps_selection s = Some example_outcome"
proof -
  obtain s where s: "ps_reachable example_config new_event_writer s" "ps_final s = FinalPending"
    "ps_selection s = Some example_outcome" "ps_started_ok s" "ps_start_settled s" "\<not> ps_pending_failed s"
    "ps_limits_attached s" "\<not> ps_limits_observed s" using example_selected by blast
  have k: "so_kind example_outcome = FailedO" by (rule example_outcome_wire_ok)
  obtain s1 where s1: "finalize_cleanup example_tx example_outcome s = (Inr (), s1)" "ps_final s1 = FinalCleaned False"
    "ps_selection s1 = Some example_outcome" "ps_limits_attached s1" "\<not> ps_limits_observed s1"
    using finalize_cleanup_value [OF reachable_core [OF example_setup s(1)] s(3) _ example_tx_facts(2,3) s(6)] s by auto
  let ?t = "s1\<lparr>ps_final := FinalTerminal\<rparr>" and ?env = "example_tx\<lparr>te_observer := \<lambda>_. Some (RuntimeError ''observer'')\<rparr>"
  have r1: "ps_reachable example_config new_event_writer s1"
    using ps_continues [OF s(1) ps_runs [OF finalizer_cleans [OF s(2,3) _ s1(1)]]] s(5) by simp
  have rt: "ps_reachable example_config new_event_writer ?t"
    using ps_continues [OF r1 ps_runs [OF finalizer_reports [where env = ?env and u = "()" and s' = s1, OF s1(2,3)]]] k by simp
  have core: "core_inv example_config ?t" by (rule reachable_core [OF example_setup rt])
  have "\<not> ps_terminal_emitted ?t"
    using core by (auto simp: core_inv_def phase_inv_def)
  moreover obtain ob where "snapshot (pc_session_id example_config) (ps_tracker s1) = Inr ob"
    using snapshot_ok [of "ps_tracker s1"] core valid_ids_fields(1) [OF example_config_ids]
    by (auto simp: core_inv_def sel_inv_def)
  ultimately have "emit_selected_terminal example_config ?env example_outcome ?t =
      (Inl (RuntimeError ''observer''), ?t\<lparr>ps_limits_observed := True, ps_limits_evidence := Some ob\<rparr>)"
    using s1 k by (simp add: emit_selected_terminal_def deadline_outcome_def failed_outcome_def
        notify_loop_limits_once_def seq_simps del: lit_simps)
  from ps_continues [OF rt ps_runs [OF finalizer_emits_terminal [OF _ _ this]]] s1(3) show ?thesis by fastforce
qed


text \<open>The internal errors of the session are unreachable: for every environment, cleanup never
  finds a cleanup of another mode already started, and starting the operation never raises.\<close>

theorem cleanup_and_start_never_raise:
  assumes "session_setup cfg w" "ps_reachable cfg w s"
  shows "(ps_run s = StartingOperation \<longrightarrow> (\<exists>s'. start_provider_operation cfg env s = (Inr (), s')))
    \<and> (\<forall>sel. ps_final s = FinalPending \<longrightarrow> ps_selection s = Some sel \<longrightarrow>
         (\<exists>s'. finalize_cleanup env sel s = (Inr (), s')))
    \<and> (\<exists>r s'. select_teardown cfg env s = (Inr r, s')) \<and> (\<exists>s'. watch_provider_deadline s = (Inr (), s'))"
proof (intro conjI allI impI)
  have st: "stands cfg (ps_run s) s" using reachable_ok [OF assms] by (simp add: session_ok_def)
  then have core: "core_inv cfg s" by (rule stands_core)
  show "\<exists>s'. start_provider_operation cfg env s = (Inr (), s')" if "ps_run s = StartingOperation"
    using start_provider_operation_core [OF core] st that by (auto simp: stands_def)
  show "\<exists>s'. finalize_cleanup env sel s = (Inr (), s')" if "ps_final s = FinalPending" "ps_selection s = Some sel" for sel
    using finalize_cleanup_core [OF st that] by blast
  show "\<exists>s'. watch_provider_deadline s = (Inr (), s')" using watch_core [OF core] by blast
  show "\<exists>r s'. select_teardown cfg env s = (Inr r, s')"
    using select_candidate_core [OF core, of teardown_outcome "te_due env 0"]
    by (cases "ps_selection s") (auto simp: select_teardown_def seq_simps)
qed

theorem cleanup_and_start_never_raise_witness:
  "\<exists>s s'. ps_reachable example_config new_event_writer s \<and> ps_selection s = Some example_outcome \<and>
     finalize_cleanup example_tx example_outcome s = (Inr (), s')"
proof -
  obtain s where s: "ps_reachable example_config new_event_writer s" "ps_final s = FinalPending"
    "ps_selection s = Some example_outcome" using example_selected by blast
  from cleanup_and_start_never_raise [OF example_setup s(1), of example_tx] s show ?thesis by blast
qed



text \<open>The runner gives every session an identity of its own: the identifiers of any two created
  sessions differ, each is a valid session identifier, and a session with valid limits is set up
  for any writer that has not seen it.\<close>

theorem runner_sessions_are_fresh:
  assumes "create_session runner cmd t w = (Inr (cfg, s), runner')"
    and "create_session runner2 cmd2 t2 w2 = (Inr (cfg2, s2), runner2')"
    and "loop_limits_ok (pr_limits runner)" "pr_session_count runner' < 10 ^ 50"
    and "session_sequences w (pc_session_id cfg) = None"
      "session_events (pc_session_id cfg) (published_events w) = []"
  shows "session_setup cfg w \<and> s = new_provider_session cfg w \<and>
    pr_session_count runner' = pr_session_count runner + 1 \<and>
    (pr_session_count runner \<noteq> pr_session_count runner2 \<longrightarrow> pc_session_id cfg \<noteq> pc_session_id cfg2)"
proof -
  have c: "cfg = \<lparr>pc_session_id = runner_session_id (pr_session_count runner + 1), pc_command_id = cmd,
      pc_task = t, pc_limits = pr_limits runner\<rparr>" "pr_session_count runner' = pr_session_count runner + 1"
    "ProviderSession cfg (fresh_tracker (pr_limits runner)) w = Inr s"
    using assms(1) by (auto simp: create_session_def Let_def elim!: map_sum_Inr_obtain)
  have c2: "pc_session_id cfg2 = runner_session_id (pr_session_count runner2 + 1)"
    using assms(2) by (auto simp: create_session_def Let_def elim!: map_sum_Inr_obtain)
  have "s = (new_provider_session cfg w)\<lparr>ps_tracker := fresh_tracker (pr_limits runner)\<rparr>"
    using c(3) by (auto simp: ProviderSession_def split: if_splits)
  then have "s = new_provider_session cfg w" by (simp add: new_provider_session_def c(1))
  moreover have "length (dec_nat (pr_session_count runner + 1)) \<le> 50"
    using assms(4) c(2) by (intro dec_nat_size) simp_all
  then have "SessionId (runner_session_id (pr_session_count runner + 1))"
    using dec_nat_digits [of _ "pr_session_count runner + 1"]
    by (auto simp: runner_session_id_def SessionId_def tagged_id_def starts_with_def Let_def list_all_iff
        is_id_char_def is_digit_def is_lower_def is_upper_def Suc_le_eq)
  moreover have "runner_session_id m = runner_session_id n \<longleftrightarrow> m = n" for m n
    by (simp add: runner_session_id_def dec_nat_inj)
  moreover have "\<forall>e \<in> set (published_events w). case e of SessionEv x \<Rightarrow> event_session x \<noteq> pc_session_id cfg
        | RuntimeEv _ \<Rightarrow> True"
    using assms(6) by (auto simp: session_events_def split: event.splits if_splits)
  moreover have "pc_session_id cfg = runner_session_id (pr_session_count runner + 1)" "pc_limits cfg = pr_limits runner"
    by (simp_all add: c(1))
  ultimately show ?thesis
    using assms(3,5) c(2) c2 unfolding session_setup_def by simp
qed

lemma create_session_value:
  "create_session runner cmd t w =
     (let cfg = \<lparr>pc_session_id = runner_session_id (pr_session_count runner + 1), pc_command_id = cmd,
                 pc_task = t, pc_limits = pr_limits runner\<rparr> in
      (Inr (cfg, new_provider_session cfg w), runner\<lparr>pr_session_count := pr_session_count runner + 1\<rparr>))"
  by (simp add: create_session_def ProviderSession_def Let_def fresh_tracker_def new_provider_session_def
      reduce_session_state_def INITIAL_SESSION_STATE_def TERMINAL_SESSION_STATUSES_def)

theorem runner_sessions_are_fresh_witness:
  "\<exists>cfg s runner' cfg2 s2 runner2.
     create_session \<lparr>pr_limits = default_loop_limits, pr_session_count = 0\<rparr> (lit ''cmd_1'') (lit ''a'') new_event_writer
       = (Inr (cfg, s), runner') \<and>
     create_session runner' (lit ''cmd_2'') (lit ''b'') new_event_writer = (Inr (cfg2, s2), runner2) \<and>
     session_setup cfg new_event_writer \<and> pc_session_id cfg \<noteq> pc_session_id cfg2"
proof -
  let ?r = "\<lparr>pr_limits = default_loop_limits, pr_session_count = 0\<rparr>"
  obtain cfg s where a: "create_session ?r (lit ''cmd_1'') (lit ''a'') new_event_writer =
      (Inr (cfg, s), ?r\<lparr>pr_session_count := 1\<rparr>)"
    by (simp add: create_session_value Let_def del: lit_simps)
  obtain cfg2 s2 where b: "create_session (?r\<lparr>pr_session_count := 1\<rparr>) (lit ''cmd_2'') (lit ''b'') new_event_writer =
      (Inr (cfg2, s2), ?r\<lparr>pr_session_count := 2\<rparr>)"
    by (simp add: create_session_value Let_def numeral_2_eq_2 del: lit_simps)
  have "session_setup cfg new_event_writer \<and> pc_session_id cfg \<noteq> pc_session_id cfg2"
    using runner_sessions_are_fresh [OF a b] by (simp add: new_event_writer_def)
  with a b show ?thesis by blast
qed

end
