(* ===== verification/Workspace.thy ===== *)
theory Workspace
  imports Py_Text State_Action
begin

section \<open>Workspace containment (workspace.py)\<close>

text \<open>
  The lexical admission of a relative path and the resolution of an existing target below one
  captured root. The host file system is a parameter: a \<open>host\<close> answers every call as a function
  of the calls made so far, so one theorem covers every file system and every change another
  process makes between two calls. A canonical absolute path is its list of components. The
  state is the log of the calls made, which is what the containment theorem speaks about.
\<close>

subsection \<open>Errors\<close>

datatype workspace_error =
    InvalidWorkspaceRoot | StaleWorkspaceRoot | InvalidWorkspacePath | WorkspacePathNotFound
  | WorkspacePathOutside

fun workspace_error_message :: "workspace_error \<Rightarrow> string" where
  "workspace_error_message InvalidWorkspaceRoot = ''Workspace root must be an existing directory.''"
| "workspace_error_message StaleWorkspaceRoot = ''The selected workspace is no longer available.''"
| "workspace_error_message InvalidWorkspacePath =
     ''Workspace path must be a non-empty relative path.''"
| "workspace_error_message WorkspacePathNotFound = ''Workspace path does not exist.''"
| "workspace_error_message WorkspacePathOutside =
     ''Workspace path is outside the selected workspace.''"

subsection \<open>Lexical admission\<close>

definition MAX_RAW_PATH_BYTES :: nat where "MAX_RAW_PATH_BYTES = 4095"
definition MAX_COMPONENTS :: nat where "MAX_COMPONENTS = 256"
definition MAX_COMPONENT_BYTES :: nat where "MAX_COMPONENT_BYTES = 255"

lemmas path_limits = MAX_RAW_PATH_BYTES_def MAX_COMPONENTS_def MAX_COMPONENT_BYTES_def

fun normalize_components ::
  "(ustr \<times> byte list) list \<Rightarrow> ustr list \<Rightarrow> workspace_error + ustr list" where
  "normalize_components [] components = Inr components"
| "normalize_components ((component, component_bytes) # rest) components =
     (if component = [] \<or> component = lit ''.'' then normalize_components rest components
      else if component = lit ''..'' \<or> length component_bytes > MAX_COMPONENT_BYTES
      then Inl InvalidWorkspacePath
      else if length (components @ [component]) > MAX_COMPONENTS then Inl InvalidWorkspacePath
      else normalize_components rest (components @ [component]))"

definition normalize_workspace_relative_path :: "py_object \<Rightarrow> workspace_error + ustr list" where
  "normalize_workspace_relative_path object =
     (case object of
        PyStr text \<Rightarrow>
          if text = [] \<or> length text > MAX_RAW_PATH_BYTES then Inl InvalidWorkspacePath
          else (case utf8_encode text of
                  None \<Rightarrow> Inl InvalidWorkspacePath
                | Some encoded \<Rightarrow>
                    if length encoded > MAX_RAW_PATH_BYTES \<or> utf8_decode encoded \<noteq> Some text
                       \<or> 0 \<in> set text \<or> starts_with text (lit ''/'')
                    then Inl InvalidWorkspacePath
                    else normalize_components
                           (zip (py_split 47 text) (py_split 47 encoded)) [])
      | _ \<Rightarrow> Inl InvalidWorkspacePath)"

text \<open>The canonical label of a component list (\<open>_label\<close>, and the end of \<open>resolve_existing\<close>).\<close>

definition path_label :: "ustr list \<Rightarrow> ustr" where
  "path_label components = (if components = [] then lit ''.'' else py_join (lit ''/'') components)"

subsection \<open>What the lexical admission accepts\<close>

definition trivial_component :: "ustr \<Rightarrow> bool" where
  "trivial_component c \<longleftrightarrow> c = [] \<or> c = lit ''.''"

definition fit_component :: "ustr \<Rightarrow> bool" where
  "fit_component c \<longleftrightarrow> c \<noteq> lit ''..'' \<and> length (utf8_bytes c) \<le> MAX_COMPONENT_BYTES"

definition admitted_path_text :: "ustr \<Rightarrow> bool" where
  "admitted_path_text text \<longleftrightarrow>
     text \<noteq> [] \<and> list_all is_scalar text \<and> length (utf8_bytes text) \<le> MAX_RAW_PATH_BYTES \<and>
     0 \<notin> set text \<and> hd text \<noteq> 47"

definition significant :: "ustr \<Rightarrow> ustr list" where
  "significant text = filter (\<lambda>c. \<not> trivial_component c) (py_split 47 text)"

lemma py_split_Cons_append:
  "d \<notin> set w \<Longrightarrow> py_split d (w @ s) = (w @ hd (py_split d s)) # tl (py_split d s)"
  by (induction w) (auto split: list.splits)

lemma utf8_char_slash: "utf8_char 47 = [47]"
  by (simp add: utf8_char_def)

lemma utf8_char_no_slash:
  assumes "c \<noteq> 47"
  shows "47 \<notin> set (utf8_char c)"
  using assms by (simp add: utf8_char_def)

lemma py_split_utf8: "py_split 47 (utf8_bytes s) = map utf8_bytes (py_split 47 s)"
proof (induction s)
  case Nil
  then show ?case by simp
next
  case (Cons c s)
  show ?case
  proof (cases "c = 47")
    case True
    with Cons show ?thesis by (simp add: utf8_char_slash)
  next
    case False
    obtain w ws where w: "py_split 47 s = w # ws" by (cases "py_split 47 s") simp_all
    from False have "47 \<notin> set (utf8_char c)" by (rule utf8_char_no_slash)
    from py_split_Cons_append [OF this] False Cons w show ?thesis by simp
  qed
qed

text \<open>
  The two splits that the code zips with \<open>strict=True\<close> have the same length, so its
  \<open>ValueError\<close> cannot occur, and the byte piece is the encoding of the text piece.
\<close>

lemma zip_py_split_utf8:
  "zip (py_split 47 s) (py_split 47 (utf8_bytes s)) = map (\<lambda>w. (w, utf8_bytes w)) (py_split 47 s)"
  by (simp add: py_split_utf8 zip_map2 map_idI zip_same_conv_map)

lemma normalize_components_iff:
  "length acc \<le> MAX_COMPONENTS \<Longrightarrow>
   normalize_components (map (\<lambda>w. (w, utf8_bytes w)) ws) acc = Inr cs \<longleftrightarrow>
     cs = acc @ filter (\<lambda>c. \<not> trivial_component c) ws \<and> length cs \<le> MAX_COMPONENTS \<and>
     (\<forall>c \<in> set (filter (\<lambda>c. \<not> trivial_component c) ws). fit_component c)"
proof (induction ws arbitrary: acc)
  case Nil
  then show ?case by auto
next
  case (Cons w ws)
  show ?case
  proof (cases "trivial_component w")
    case True
    then have "normalize_components (map (\<lambda>w. (w, utf8_bytes w)) (w # ws)) acc
        = normalize_components (map (\<lambda>w. (w, utf8_bytes w)) ws) acc"
      by (auto simp: trivial_component_def)
    with True Cons show ?thesis by simp
  next
    case nontrivial: False
    show ?thesis
    proof (cases "fit_component w \<and> length acc < MAX_COMPONENTS")
      case True
      with nontrivial Cons.IH [of "acc @ [w]"] show ?thesis
        by (auto simp: trivial_component_def fit_component_def not_less)
    next
      case False
      with nontrivial show ?thesis
        by (auto simp: trivial_component_def fit_component_def not_less)
    qed
  qed
qed

lemma normalize_components_error: "normalize_components ps acc = Inl e \<Longrightarrow> e = InvalidWorkspacePath"
  by (induction ps acc rule: normalize_components.induct) (auto split: if_splits)

lemma normalize_error:
  "normalize_workspace_relative_path v = Inl e \<Longrightarrow> e = InvalidWorkspacePath"
  by (auto simp: normalize_workspace_relative_path_def normalize_components_error
           split: py_object.splits option.splits if_splits)

lemma starts_with_slash: "text \<noteq> [] \<Longrightarrow> starts_with text [47] \<longleftrightarrow> hd text = 47"
  by (cases "text") (simp_all add: starts_with_def)

lemma normalize_text_iff:
  "normalize_workspace_relative_path (PyStr text) = Inr cs \<longleftrightarrow>
     admitted_path_text text \<and> cs = significant text \<and> length cs \<le> MAX_COMPONENTS \<and>
     list_all fit_component cs"
proof (cases "text \<noteq> [] \<and> list_all is_scalar text")
  case True
  then have enc: "utf8_encode text = Some (utf8_bytes text)" by (simp add: utf8_encode_def)
  have "length text \<le> length (utf8_bytes text)" by (rule length_le_utf8_bytes)
  with True enc show ?thesis
    by (auto simp: normalize_workspace_relative_path_def admitted_path_text_def significant_def
          zip_py_split_utf8 normalize_components_iff list_all_iff starts_with_slash
          path_limits)
next
  case False
  then show ?thesis
    by (auto simp: normalize_workspace_relative_path_def admitted_path_text_def utf8_encode_def)
qed

lemma normalize_text_eval:
  "normalize_workspace_relative_path (PyStr tx) =
     (if admitted_path_text tx \<and> length (significant tx) \<le> MAX_COMPONENTS
         \<and> list_all fit_component (significant tx)
      then Inr (significant tx) else Inl InvalidWorkspacePath)"
proof (cases "normalize_workspace_relative_path (PyStr tx)")
  case (Inl e)
  then have "e = InvalidWorkspacePath" by (rule normalize_error)
  with Inl normalize_text_iff [of tx "significant tx"] show ?thesis by auto
next
  case (Inr cs)
  with normalize_text_iff [of tx cs] show ?thesis by auto
qed

lemmas normalize_eval = normalize_text_eval admitted_path_text_def significant_def path_limits
  fit_component_def trivial_component_def is_scalar_def is_surrogate_def utf8_char_def

text \<open>The label of an admitted path names the same components: normalization is idempotent.\<close>

lemma significant_label:
  assumes "\<And>c. c \<in> set cs \<Longrightarrow> 47 \<notin> set c \<and> \<not> trivial_component c"
  shows "significant (path_label cs) = cs"
proof (cases "cs = []")
  case True
  then show ?thesis by (simp add: significant_def path_label_def trivial_component_def)
next
  case False
  with assms have "py_split 47 (py_join [47] cs) = cs" by (simp add: py_split_join)
  with False assms show ?thesis by (simp add: significant_def path_label_def filter_id_conv)
qed

lemma significant_components:
  assumes "c \<in> set (significant tx)"
  shows "47 \<notin> set c \<and> \<not> trivial_component c \<and> set c \<subseteq> set tx"
  using assms py_split_pieces [of c 47 tx] by (auto simp: significant_def)

lemma set_py_join: "set (py_join sep ws) \<subseteq> set sep \<union> (\<Union>w \<in> set ws. set w)"
  by (induction sep ws rule: py_join.induct) auto

lemma utf8_bytes_join_filter:
  "length (utf8_bytes (py_join [47] (filter P ws))) \<le> length (utf8_bytes (py_join [47] ws))"
proof (induction ws)
  case Nil
  then show ?case by simp
next
  case (Cons w ws)
  have "length (utf8_bytes (py_join [47] (v # vs)))
      = length (utf8_bytes v) + (if vs = [] then 0 else 1 + length (utf8_bytes (py_join [47] vs)))"
    for v vs by (cases vs) (simp_all add: utf8_char_slash)
  with Cons show ?case by auto
qed

lemma path_label_admitted:
  assumes adm: "admitted_path_text tx" and cs: "cs = significant tx"
  shows "admitted_path_text (path_label cs)"
proof (cases "cs = []")
  case True
  then show ?thesis
    by (simp add: path_label_def admitted_path_text_def path_limits is_scalar_def is_surrogate_def
          utf8_char_def)
next
  case False
  have parts: "47 \<notin> set c \<and> \<not> trivial_component c \<and> set c \<subseteq> set tx" if "c \<in> set cs" for c
    using that cs significant_components by blast
  let ?j = "py_join [47] cs"
  have chars: "set ?j \<subseteq> {47} \<union> set tx"
    using set_py_join [of "[47]" cs] parts by (simp add: UN_subset_iff subset_iff) blast
  obtain w ws where w: "cs = w # ws" using False by (cases cs) auto
  then have "47 \<notin> set w" "w \<noteq> []" using parts [of w] by (auto simp: trivial_component_def)
  then have "hd w \<noteq> 47" by (metis hd_in_set)
  note w = w \<open>w \<noteq> []\<close> \<open>hd w \<noteq> 47\<close>
  then have "?j \<noteq> []" "hd ?j \<noteq> 47" by (cases ws; simp)+
  moreover have "list_all is_scalar ?j" "0 \<notin> set ?j"
    using chars adm by (auto simp: list_all_iff admitted_path_text_def is_scalar_def is_surrogate_def)
  moreover have "length (utf8_bytes ?j) \<le> MAX_RAW_PATH_BYTES"
    using utf8_bytes_join_filter [of "\<lambda>c. \<not> trivial_component c" "py_split 47 tx"] adm cs
    by (simp add: significant_def py_join_split admitted_path_text_def)
  ultimately show ?thesis using False by (simp add: admitted_path_text_def path_label_def)
qed

lemma normalize_label:
  assumes "normalize_workspace_relative_path (PyStr tx) = Inr cs"
  shows "normalize_workspace_relative_path (PyStr (path_label cs)) = Inr cs"
proof -
  from assms have adm: "admitted_path_text tx" and cs: "cs = significant tx"
    and fit: "length cs \<le> MAX_COMPONENTS" "list_all fit_component cs"
    using normalize_text_iff by blast+
  have "significant (path_label cs) = cs"
    using cs significant_components by (intro significant_label) blast
  with path_label_admitted [OF adm cs] fit show ?thesis by (simp add: normalize_text_iff)
qed

subsection \<open>The host\<close>

type_synonym abs_path = "ustr list"

datatype file_kind = RegularFile | Directory | SymbolicLink | SpecialFile

record file_status =
  st_kind :: file_kind
  st_dev :: int
  st_ino :: int
  st_size :: int

datatype stat_reply = StatOk file_status | StatMissing | StatFailed

text \<open>
  A path argument is a plain object or an \<open>os.PathLike\<close>, whose \<open>__fspath__\<close> returns an object
  or raises (\<open>None\<close>).
\<close>

datatype path_value = PlainPath py_object | PathLike "py_object option"

datatype host_call =
    ResolveRoot path_value
  | ResolvePath bool abs_path
  | StatPath bool abs_path
  | ReadPath nat abs_path

text \<open>
  The host's answers, as functions of the calls before: \<open>Path(v).expanduser().resolve(strict=True)\<close>,
  \<open>path.resolve(strict=...)\<close> (\<open>None\<close> for the three exceptions it documents),
  \<open>path.stat(follow_symlinks=...)\<close> and \<open>open("rb").read(n)\<close>.
\<close>

record host =
  answer_root :: "host_call list \<Rightarrow> path_value \<Rightarrow> abs_path option"
  answer_resolve :: "host_call list \<Rightarrow> bool \<Rightarrow> abs_path \<Rightarrow> abs_path option"
  answer_stat :: "host_call list \<Rightarrow> bool \<Rightarrow> abs_path \<Rightarrow> stat_reply"
  answer_read :: "host_call list \<Rightarrow> nat \<Rightarrow> abs_path \<Rightarrow> byte list option"

record host_log =
  calls :: "host_call list"

definition host_do ::
  "host_call \<Rightarrow> (host_call list \<Rightarrow> 'a) \<Rightarrow> ('e, 'z host_log_scheme, 'a) effect" where
  "host_do call answer = (\<lambda>s. (Inr (answer (calls s)), s\<lparr>calls := calls s @ [call]\<rparr>))"

definition path_resolve ::
  "host \<Rightarrow> bool \<Rightarrow> abs_path \<Rightarrow> ('e, 'z host_log_scheme, abs_path option) effect" where
  "path_resolve h strict p = host_do (ResolvePath strict p) (\<lambda>log. answer_resolve h log strict p)"

definition path_stat ::
  "host \<Rightarrow> bool \<Rightarrow> abs_path \<Rightarrow> ('e, 'z host_log_scheme, stat_reply) effect" where
  "path_stat h follow p = host_do (StatPath follow p) (\<lambda>log. answer_stat h log follow p)"

definition path_read ::
  "host \<Rightarrow> nat \<Rightarrow> abs_path \<Rightarrow> ('e, 'z host_log_scheme, byte list option) effect" where
  "path_read h n p = host_do (ReadPath n p) (\<lambda>log. answer_read h log n p)"

subsection \<open>The boundary\<close>

record workspace_boundary =
  wb_root :: abs_path
  wb_root_device :: int
  wb_root_inode :: int

record resolved_path =
  rp_absolute :: abs_path
  rp_relative :: ustr

definition from_path ::
  "host \<Rightarrow> path_value \<Rightarrow> (workspace_error, 'z host_log_scheme, workspace_boundary) effect" where
  "from_path h v =
     seq (host_do (ResolveRoot v) (\<lambda>log. answer_root h log v))
       (\<lambda>resolved. case resolved of
          None \<Rightarrow> raise InvalidWorkspaceRoot
        | Some canonical_root \<Rightarrow>
            seq (path_stat h True canonical_root)
              (\<lambda>reply. case reply of
                 StatOk st \<Rightarrow>
                   if st_kind st \<noteq> Directory then raise InvalidWorkspaceRoot
                   else ret \<lparr>wb_root = canonical_root, wb_root_device = st_dev st,
                             wb_root_inode = st_ino st\<rparr>
               | _ \<Rightarrow> raise InvalidWorkspaceRoot))"

fun os_fspath :: "path_value \<Rightarrow> py_object option" where
  "os_fspath (PlainPath (PyStr s)) = Some (PyStr s)"
| "os_fspath (PlainPath _) = None"
| "os_fspath (PathLike r) = r"

definition path_like_string :: "path_value \<Rightarrow> workspace_error + py_object" where
  "path_like_string v =
     (case os_fspath v of
        Some (PyStr s) \<Rightarrow> Inr (PyStr s)
      | _ \<Rightarrow> Inl InvalidWorkspacePath)"

definition assert_current_root ::
  "host \<Rightarrow> workspace_boundary \<Rightarrow> (workspace_error, 'z host_log_scheme, unit) effect" where
  "assert_current_root h b =
     seq (path_resolve h True (wb_root b))
       (\<lambda>observed. case observed of
          None \<Rightarrow> raise StaleWorkspaceRoot
        | Some observed_root \<Rightarrow>
            seq (path_stat h True observed_root)
              (\<lambda>reply. case reply of
                 StatOk st \<Rightarrow>
                   if observed_root \<noteq> wb_root b \<or> st_kind st \<noteq> Directory
                      \<or> st_dev st \<noteq> wb_root_device b \<or> st_ino st \<noteq> wb_root_inode b
                   then raise StaleWorkspaceRoot else ret ()
               | _ \<Rightarrow> raise StaleWorkspaceRoot))"

definition raise_resolution_failure ::
  "host \<Rightarrow> workspace_boundary \<Rightarrow> abs_path \<Rightarrow> (workspace_error, 'z host_log_scheme, 'a) effect" where
  "raise_resolution_failure h b candidate =
     seq (path_resolve h False candidate)
       (\<lambda>unresolved. case unresolved of
          Some p \<Rightarrow> if \<not> prefix (wb_root b) p then raise WorkspacePathOutside
                    else raise WorkspacePathNotFound
        | None \<Rightarrow> raise WorkspacePathNotFound)"

fun resolve_components ::
  "host \<Rightarrow> workspace_boundary \<Rightarrow> ustr list \<Rightarrow> abs_path
     \<Rightarrow> (workspace_error, 'z host_log_scheme, abs_path) effect" where
  "resolve_components h b [] target = ret target"
| "resolve_components h b (component # rest) target =
     seq (path_resolve h True (target @ [component]))
       (\<lambda>resolved. case resolved of
          None \<Rightarrow> raise_resolution_failure h b (target @ [component])
        | Some p \<Rightarrow>
            if \<not> prefix (wb_root b) p then raise WorkspacePathOutside
            else resolve_components h b rest p)"

definition resolve_target ::
  "host \<Rightarrow> workspace_boundary \<Rightarrow> ustr list
     \<Rightarrow> (workspace_error, 'z host_log_scheme, abs_path) effect" where
  "resolve_target h b components = resolve_components h b components (wb_root b)"

definition snapshot_of :: "workspace_boundary \<Rightarrow> abs_path \<Rightarrow> workspace_error + resolved_path" where
  "snapshot_of b target =
     (if \<not> prefix (wb_root b) target then Inl WorkspacePathOutside
      else let label = path_label (drop (length (wb_root b)) target) in
           and_then (normalize_workspace_relative_path (PyStr label))
             (\<lambda>canonical. if path_label canonical \<noteq> label then Inl InvalidWorkspacePath
                          else Inr \<lparr>rp_absolute = target, rp_relative = path_label canonical\<rparr>))"

definition resolve_existing ::
  "host \<Rightarrow> workspace_boundary \<Rightarrow> path_value
     \<Rightarrow> (workspace_error, 'z host_log_scheme, resolved_path) effect" where
  "resolve_existing h b v =
     seq (lift_result (and_then (path_like_string v) normalize_workspace_relative_path))
       (\<lambda>components. next_do (assert_current_root h b)
         (seq (attempt (resolve_target h b components))
           (\<lambda>outcome. next_do (assert_current_root h b)
             (seq (lift_result outcome)
               (\<lambda>target. lift_result (snapshot_of b target))))))"

subsection \<open>Containment\<close>

text \<open>
  \<open>call_inside h root log c\<close>: the call \<open>c\<close>, made after \<open>log\<close>, resolves or inspects a path at or
  below the root. The one exception is in \<open>_assert_current_root\<close>, which inspects whatever
  directory the root path resolved to in the call just before. \<open>calls_obey ok\<close> says that every
  call added to the log satisfies \<open>ok\<close>, and \<open>host_only ok\<close> that nothing but the log changed.
\<close>

fun call_inside :: "host \<Rightarrow> abs_path \<Rightarrow> host_call list \<Rightarrow> host_call \<Rightarrow> bool" where
  "call_inside h root log (ResolveRoot v) = False"
| "call_inside h root log (ResolvePath strict p) = prefix root p"
| "call_inside h root log (ReadPath n p) = False"
| "call_inside h root log (StatPath follow p) =
     (prefix root p \<or>
      (follow \<and> log \<noteq> [] \<and> last log = ResolvePath True root \<and>
       answer_resolve h (butlast log) True root = Some p))"

definition calls_obey ::
  "(host_call list \<Rightarrow> host_call \<Rightarrow> bool) \<Rightarrow> 'z host_log_scheme \<Rightarrow> 'z host_log_scheme \<Rightarrow> bool" where
  "calls_obey ok s s' \<longleftrightarrow>
     prefix (calls s) (calls s') \<and>
     (\<forall>i. length (calls s) \<le> i \<and> i < length (calls s') \<longrightarrow> ok (take i (calls s')) (calls s' ! i))"

definition host_only ::
  "(host_call list \<Rightarrow> host_call \<Rightarrow> bool) \<Rightarrow> 'z host_log_scheme \<Rightarrow> 'z host_log_scheme \<Rightarrow> bool" where
  "host_only ok s s' \<longleftrightarrow> calls_obey ok s s' \<and> s' = s\<lparr>calls := calls s'\<rparr>"

lemma calls_obey_refl: "calls_obey ok s s"
  by (auto simp: calls_obey_def)

lemma calls_obey_trans:
  assumes "calls_obey ok s t" "calls_obey ok t u"
  shows "calls_obey ok s u"
proof -
  from assms obtain a b where ab: "calls t = calls s @ a" "calls u = calls t @ b"
    by (auto simp: calls_obey_def prefix_def)
  have "ok (take i (calls u)) (calls u ! i)"
    if "length (calls s) \<le> i" "i < length (calls u)" for i
  proof (cases "i < length (calls t)")
    case True
    then have "take i (calls u) = take i (calls t)" "calls u ! i = calls t ! i"
      by (simp_all add: ab(2) nth_append)
    with True that assms(1) show ?thesis by (simp add: calls_obey_def)
  next
    case False
    with that assms(2) show ?thesis by (simp add: calls_obey_def)
  qed
  with ab show ?thesis by (auto simp: calls_obey_def)
qed

lemma calls_obey_mono:
  "calls_obey ok s t \<Longrightarrow> (\<And>log c. ok log c \<Longrightarrow> ok' log c) \<Longrightarrow> calls_obey ok' s t"
  by (auto simp: calls_obey_def)

interpretation obeying: action_order "calls_obey ok" for ok
  by unfold_locales (blast intro: calls_obey_refl calls_obey_trans)+

interpretation hosted: action_order "host_only ok" for ok
proof
  show "host_only ok s s" for s :: "'a host_log_scheme"
    by (simp add: host_only_def calls_obey_refl)
  show "host_only ok s u" if "host_only ok s t" "host_only ok t u"
    for s t u :: "'a host_log_scheme"
  proof -
    from that have "t = s\<lparr>calls := calls t\<rparr>" "u = t\<lparr>calls := calls u\<rparr>"
      by (simp_all add: host_only_def)
    then have "u = s\<lparr>calls := calls u\<rparr>" by (metis host_log.fold_congs(1) host_log.update_convs(1)
          host_log.surjective)
    with that show ?thesis unfolding host_only_def using calls_obey_trans by blast
  qed
qed

lemma host_only_snoc:
  "ok (calls s) c \<Longrightarrow> host_only ok s (s\<lparr>calls := calls s @ [c]\<rparr>)"
  by (auto simp: host_only_def calls_obey_def not_less_eq less_Suc_eq)

lemma moves_host_call: "(\<And>log. ok log c) \<Longrightarrow> moves (host_only ok) (host_do c f)"
  by (simp add: moves_def host_do_def host_only_snoc)

lemma moves_path_resolve:
  "prefix root p \<Longrightarrow> moves (host_only (call_inside h root)) (path_resolve g strict p)"
  by (simp add: path_resolve_def moves_host_call)

text \<open>What the root check observes, and its result, as a function of the log.\<close>

definition root_is_current :: "host \<Rightarrow> workspace_boundary \<Rightarrow> host_call list \<Rightarrow> bool" where
  "root_is_current h b log \<longleftrightarrow>
     answer_resolve h log True (wb_root b) = Some (wb_root b) \<and>
     (case answer_stat h (log @ [ResolvePath True (wb_root b)]) True (wb_root b) of
        StatOk st \<Rightarrow> st_kind st = Directory \<and> st_dev st = wb_root_device b
                       \<and> st_ino st = wb_root_inode b
      | _ \<Rightarrow> False)"

lemma assert_current_root_result:
  "fst (assert_current_root h b s)
     = (if root_is_current h b (calls s) then Inr () else Inl StaleWorkspaceRoot)"
  by (auto simp: assert_current_root_def root_is_current_def seq_def path_resolve_def path_stat_def
        host_do_def split: option.splits stat_reply.splits)

lemma assert_current_root_calls:
  "\<exists>new. snd (assert_current_root h b s) = s\<lparr>calls := calls s @ ResolvePath True (wb_root b) # new\<rparr>
     \<and> (new = [] \<or> (\<exists>p. new = [StatPath True p]
                     \<and> answer_resolve h (calls s) True (wb_root b) = Some p))"
  by (auto simp: assert_current_root_def seq_def path_resolve_def path_stat_def
        host_do_def split: option.splits stat_reply.splits)

lemma moves_assert_current_root: "moves (host_only (call_inside h (wb_root b))) (assert_current_root h b)"
  unfolding moves_def
proof
  fix s :: "'z host_log_scheme"
  from assert_current_root_calls [of h b s] obtain new where new:
    "snd (assert_current_root h b s) = s\<lparr>calls := calls s @ ResolvePath True (wb_root b) # new\<rparr>"
    "new = [] \<or> (\<exists>p. new = [StatPath True p]
       \<and> answer_resolve h (calls s) True (wb_root b) = Some p)" by blast
  let ?t = "s\<lparr>calls := calls s @ [ResolvePath True (wb_root b)]\<rparr>"
  let ?ok = "call_inside h (wb_root b)"
  have st: "host_only ?ok s ?t" by (rule host_only_snoc) simp
  from new(2) show "host_only ?ok s (snd (assert_current_root h b s))"
  proof
    assume "new = []"
    with new(1) st show ?thesis by simp
  next
    assume "\<exists>p. new = [StatPath True p] \<and> answer_resolve h (calls s) True (wb_root b) = Some p"
    then obtain p where p: "new = [StatPath True p]"
      "answer_resolve h (calls s) True (wb_root b) = Some p" by blast
    have "host_only ?ok ?t (?t\<lparr>calls := calls ?t @ [StatPath True p]\<rparr>)"
      by (rule host_only_snoc) (simp add: p)
    with st have "host_only ?ok s (?t\<lparr>calls := calls ?t @ [StatPath True p]\<rparr>)"
      by (rule hosted.order_trans)
    with new(1) p(1) show ?thesis by simp
  qed
qed

lemma moves_resolution_failure:
  "prefix (wb_root b) p \<Longrightarrow> moves (host_only (call_inside h (wb_root b))) (raise_resolution_failure h b p)"
  unfolding raise_resolution_failure_def
  by (intro hosted.move_rules moves_path_resolve)

lemma moves_resolve_components:
  "prefix (wb_root b) target \<Longrightarrow>
     moves (host_only (call_inside h (wb_root b))) (resolve_components h b cs target)"
proof (induction cs arbitrary: target)
  case Nil
  show ?case by (simp only: resolve_components.simps hosted.moves_pure)
next
  case (Cons c cs)
  then have inside: "prefix (wb_root b) (target @ [c])" by (simp add: prefix_prefix)
  show ?case
    unfolding resolve_components.simps
  proof (rule hosted.moves_seq [OF moves_path_resolve [OF inside]],
      rule hosted.moves_option [OF moves_resolution_failure [OF inside]], split if_split,
      intro conjI impI)
  qed (simp_all only: not_not hosted.moves_pure Cons.IH)
qed

lemma moves_resolve_existing: "moves (host_only (call_inside h (wb_root b))) (resolve_existing h b v)"
  unfolding resolve_existing_def resolve_target_def
  by (intro hosted.move_rules moves_assert_current_root moves_resolve_components) simp

subsection \<open>The result\<close>

lemma lift_result_Inr [simp]: "lift_result r s = (Inr x, t) \<longleftrightarrow> r = Inr x \<and> t = s"
  by auto

lemma host_do_result [simp]:
  "path_resolve h strict p s
     = (Inr (answer_resolve h (calls s) strict p), s\<lparr>calls := calls s @ [ResolvePath strict p]\<rparr>)"
  "path_stat h follow p s
     = (Inr (answer_stat h (calls s) follow p), s\<lparr>calls := calls s @ [StatPath follow p]\<rparr>)"
  "path_read h n p s
     = (Inr (answer_read h (calls s) n p), s\<lparr>calls := calls s @ [ReadPath n p]\<rparr>)"
  by (simp_all add: path_resolve_def path_stat_def path_read_def host_do_def)

lemma resolve_components_inside:
  "prefix (wb_root b) target \<Longrightarrow> resolve_components h b cs target s = (Inr p, s') \<Longrightarrow>
     prefix (wb_root b) p"
  by (induction cs arbitrary: target s)
     (auto simp: seq_def raise_resolution_failure_def split: option.splits if_splits)

lemma resolve_components_errors:
  "resolve_components h b cs target s = (Inl e, s') \<Longrightarrow>
     e = WorkspacePathOutside \<or> e = WorkspacePathNotFound"
  by (induction cs arbitrary: target s)
     (auto simp: seq_def raise_resolution_failure_def split: option.splits if_splits)

text \<open>
  What is relied on about the host: the components of a canonical path are proper names. This is
  what \<open>Path.resolve\<close> documents (an absolute path without \<open>.\<close>, \<open>..\<close> or empty parts).
\<close>

definition proper_name :: "ustr \<Rightarrow> bool" where
  "proper_name c \<longleftrightarrow> c \<noteq> [] \<and> c \<noteq> lit ''.'' \<and> 47 \<notin> set c"

definition canonical_host :: "host \<Rightarrow> bool" where
  "canonical_host h \<longleftrightarrow>
     (\<forall>log strict p q. answer_resolve h log strict p = Some q \<longrightarrow> list_all proper_name q)"

definition snapshot_valid :: "workspace_boundary \<Rightarrow> resolved_path \<Rightarrow> bool" where
  "snapshot_valid b r \<longleftrightarrow>
     (let below = drop (length (wb_root b)) (rp_absolute r) in
      prefix (wb_root b) (rp_absolute r) \<and> rp_relative r = path_label below \<and>
      normalize_workspace_relative_path (PyStr (rp_relative r)) = Inr below)"

lemma resolve_components_step:
  assumes "resolve_components h b (c # cs) target s = (Inr p, s')"
  obtains q t where "answer_resolve h (calls s) True (target @ [c]) = Some q"
    "resolve_components h b cs q t = (Inr p, s')"
  using assms
  by (auto simp: seq_def raise_resolution_failure_def split: option.splits if_splits)

lemma resolve_components_proper:
  "canonical_host h \<Longrightarrow> cs \<noteq> [] \<Longrightarrow> resolve_components h b cs target s = (Inr p, s') \<Longrightarrow>
     list_all proper_name p"
proof (induction cs arbitrary: target s)
  case Nil
  then show ?case by simp
next
  case (Cons c cs)
  from Cons.prems(3) obtain q t where q: "answer_resolve h (calls s) True (target @ [c]) = Some q"
    "resolve_components h b cs q t = (Inr p, s')" by (rule resolve_components_step)
  show ?case
  proof (cases "cs = []")
    case True
    with q Cons.prems(1) show ?thesis by (auto simp: canonical_host_def)
  next
    case False
    with q(2) Cons show ?thesis by blast
  qed
qed

lemma snapshot_of_valid:
  assumes "snapshot_of b p = Inr q" and "list_all proper_name (drop (length (wb_root b)) p)"
  shows "snapshot_valid b q"
proof -
  let ?cs = "drop (length (wb_root b)) p"
  from assms(1) obtain ds where q: "prefix (wb_root b) p" "rp_absolute q = p"
    "normalize_workspace_relative_path (PyStr (path_label ?cs)) = Inr ds"
    "path_label ds = path_label ?cs" "rp_relative q = path_label ds"
    by (auto simp: snapshot_of_def Let_def split: if_splits)
  have "significant (path_label ?cs) = ?cs"
    using assms(2)
    by (intro significant_label) (auto simp: trivial_component_def proper_name_def list_all_iff)
  with q(3) have "ds = ?cs" by (simp add: normalize_text_iff)
  with q show ?thesis by (simp add: snapshot_valid_def Let_def)
qed

lemma resolve_target_valid:
  assumes "canonical_host h" "resolve_target h b cs s = (Inr p, s')" "snapshot_of b p = Inr q"
  shows "snapshot_valid b q"
proof (rule snapshot_of_valid [OF assms(3)], cases "cs = []")
  case True
  with assms(2) show "list_all proper_name (drop (length (wb_root b)) p)"
    by (simp add: resolve_target_def)
next
  case False
  with assms show "list_all proper_name (drop (length (wb_root b)) p)"
    unfolding resolve_target_def using resolve_components_proper list_all_drop by blast
qed

text \<open>The result of \<open>resolve_existing\<close>, branch by branch, as a function of what the host shows.\<close>

lemma seq_lift_Inr: "r = Inr x \<Longrightarrow> seq (lift_result r) k = k x"
  by (simp add: seq_def lift_result_def fun_eq_iff)

lemma resolve_existing_result:
  assumes "and_then (path_like_string v) normalize_workspace_relative_path = Inr cs"
    and "assert_current_root h b s = (first, t1)" and "resolve_target h b cs t1 = (found, t2)"
  shows "fst (resolve_existing h b v s) =
    (if \<not> root_is_current h b (calls s) \<or> \<not> root_is_current h b (calls t2)
     then Inl StaleWorkspaceRoot
     else and_then found (snapshot_of b))"
proof (cases "root_is_current h b (calls s)")
  case False
  with assms(2) assert_current_root_result [of h b s] have "first = Inl StaleWorkspaceRoot" by simp
  with assms(2) False show ?thesis
    unfolding resolve_existing_def seq_lift_Inr [OF assms(1)] by (simp add: seq_simps)
next
  case True
  with assms(2) assert_current_root_result [of h b s] have first: "first = Inr ()" by simp
  obtain second t3 where second: "assert_current_root h b t2 = (second, t3)"
    by (cases "assert_current_root h b t2")
  with assert_current_root_result [of h b t2] have
    "second = (if root_is_current h b (calls t2) then Inr () else Inl StaleWorkspaceRoot)" by simp
  with assms(2,3) first second True show ?thesis
    unfolding resolve_existing_def seq_lift_Inr [OF assms(1)]
    by (cases found) (simp_all add: seq_simps attempt_def)
qed

lemma resolve_existing_lexical:
  "and_then (path_like_string v) normalize_workspace_relative_path = Inl e \<Longrightarrow>
     resolve_existing h b v s = (Inl InvalidWorkspacePath, s)"
  by (auto simp: resolve_existing_def seq_simps and_then_Inl_iff path_like_string_def normalize_error
        split: option.splits py_object.splits)

lemma resolve_existing_outcome:
  assumes "canonical_host h" "resolve_existing h b v s = (r, s')"
  shows "case r of Inl e \<Rightarrow> e \<noteq> InvalidWorkspaceRoot | Inr q \<Rightarrow> snapshot_valid b q"
proof (cases "and_then (path_like_string v) normalize_workspace_relative_path")
  case (Inl e)
  from resolve_existing_lexical [OF this, of h b s] assms(2) show ?thesis by auto
next
  case (Inr cs)
  obtain first t1 where first: "assert_current_root h b s = (first, t1)"
    by (cases "assert_current_root h b s")
  obtain found t2 where found: "resolve_target h b cs t1 = (found, t2)"
    by (cases "resolve_target h b cs t1")
  have errors: "e \<noteq> InvalidWorkspaceRoot" if "found = Inl e" for e
    using found that resolve_components_errors by (fastforce simp: resolve_target_def)
  have snapshot_errors: "e \<noteq> InvalidWorkspaceRoot" if "snapshot_of b p = Inl e" for p e
    using that
    by (auto simp: snapshot_of_def Let_def and_then_Inl_iff dest: normalize_error split: if_splits)
  from resolve_existing_result [OF Inr first found] assms(2)
  have "r = Inl StaleWorkspaceRoot \<or> r = and_then found (snapshot_of b)"
    by (auto split: if_splits)
  then show ?thesis
  proof
    assume "r = and_then found (snapshot_of b)"
    moreover have "snapshot_valid b q" if "found = Inr p" "snapshot_of b p = Inr q" for p q
      using that found resolve_target_valid [OF assms(1)] by blast
    ultimately show ?thesis using errors snapshot_errors
      by (cases found) (auto split: sum.split)
  qed simp
qed

subsection \<open>An example host\<close>

text \<open>
  A directory \<open>/w\<close> with the file \<open>a/f\<close>, a link \<open>l\<close> to that file and a link \<open>e\<close> to \<open>/x\<close>.
\<close>

definition example_status :: "abs_path \<Rightarrow> stat_reply" where
  "example_status p =
     (if p = [lit ''w''] then StatOk \<lparr>st_kind = Directory, st_dev = 1, st_ino = 2, st_size = 0\<rparr>
      else if p = [lit ''w'', lit ''a''] then
        StatOk \<lparr>st_kind = Directory, st_dev = 1, st_ino = 3, st_size = 0\<rparr>
      else if p = [lit ''w'', lit ''a'', lit ''f''] then
        StatOk \<lparr>st_kind = RegularFile, st_dev = 1, st_ino = 4, st_size = 9\<rparr>
      else StatMissing)"

definition example_link :: "abs_path \<Rightarrow> abs_path" where
  "example_link p =
     (if p = [lit ''w'', lit ''l''] then [lit ''w'', lit ''a'', lit ''f'']
      else if p = [lit ''w'', lit ''e''] then [lit ''x''] else p)"

definition example_host :: host where
  "example_host =
     \<lparr>answer_root = (\<lambda>log v. Some [lit ''w'']),
      answer_resolve = (\<lambda>log strict p.
        let q = example_link p in
        if \<not> list_all proper_name q then None
        else if strict \<and> example_status q = StatMissing then None else Some q),
      answer_stat = (\<lambda>log follow p.
        if \<not> follow \<and> example_link p \<noteq> p
        then StatOk \<lparr>st_kind = SymbolicLink, st_dev = 1, st_ino = 7, st_size = 0\<rparr>
        else example_status (example_link p)),
      answer_read = (\<lambda>log n p. Some [])\<rparr>"

definition example_boundary :: workspace_boundary where
  "example_boundary = \<lparr>wb_root = [lit ''w''], wb_root_device = 1, wb_root_inode = 2\<rparr>"

definition no_calls :: host_log where "no_calls = \<lparr>calls = []\<rparr>"

lemma example_host_canonical: "canonical_host example_host"
  by (auto simp: canonical_host_def example_host_def Let_def split: if_splits)

lemma example_boundary_captured:
  "fst (from_path example_host (PlainPath (PyStr (lit ''w''))) no_calls) = Inr example_boundary"
  by (simp add: from_path_def seq_simps host_do_def example_host_def example_status_def
      example_link_def example_boundary_def no_calls_def)

lemmas example_host_simps = example_host_def example_status_def example_link_def
  example_boundary_def proper_name_def

lemma example_root_check:
  "assert_current_root example_host example_boundary s
     = (Inr (), s\<lparr>calls := calls s @ [ResolvePath True [lit ''w''], StatPath True [lit ''w'']]\<rparr>)"
  by (simp add: assert_current_root_def seq_simps example_host_simps)

lemma example_targets:
  "fst (resolve_target example_host example_boundary [lit ''l''] s)
     = Inr [lit ''w'', lit ''a'', lit ''f'']"
  "fst (resolve_target example_host example_boundary [lit ''e''] s) = Inl WorkspacePathOutside"
  by (simp_all add: resolve_target_def seq_simps raise_resolution_failure_def example_host_simps)

lemma example_root_current: "root_is_current example_host example_boundary log"
  by (simp add: root_is_current_def example_host_simps)

lemma example_lexical:
  "and_then (path_like_string (PlainPath (PyStr (lit ''./l'')))) normalize_workspace_relative_path
     = Inr [lit ''l'']"
  "and_then (path_like_string (PlainPath (PyStr (lit ''e'')))) normalize_workspace_relative_path
     = Inr [lit ''e'']"
  by (simp_all add: path_like_string_def normalize_eval)

lemma example_resolutions:
  "fst (resolve_existing example_host example_boundary (PlainPath (PyStr (lit ''./l''))) no_calls)
     = Inr \<lparr>rp_absolute = [lit ''w'', lit ''a'', lit ''f''], rp_relative = lit ''a/f''\<rparr>"
  "fst (resolve_existing example_host example_boundary (PlainPath (PyStr (lit ''e''))) no_calls)
     = Inl WorkspacePathOutside"
proof -
  have "snapshot_of example_boundary [lit ''w'', lit ''a'', lit ''f'']
      = Inr \<lparr>rp_absolute = [lit ''w'', lit ''a'', lit ''f''], rp_relative = lit ''a/f''\<rparr>"
    by (simp add: snapshot_of_def path_label_def example_boundary_def normalize_eval)
  with resolve_existing_result [OF example_lexical(1) surjective_pairing surjective_pairing,
      of example_host example_boundary no_calls]
  show "fst (resolve_existing example_host example_boundary
      (PlainPath (PyStr (lit ''./l''))) no_calls)
     = Inr \<lparr>rp_absolute = [lit ''w'', lit ''a'', lit ''f''], rp_relative = lit ''a/f''\<rparr>"
    by (simp add: example_targets example_root_current del: lit_simps)
  from resolve_existing_result [OF example_lexical(2) surjective_pairing surjective_pairing,
      of example_host example_boundary no_calls]
  show "fst (resolve_existing example_host example_boundary
      (PlainPath (PyStr (lit ''e''))) no_calls) = Inl WorkspacePathOutside"
    by (simp add: example_targets example_root_current del: lit_simps)
qed

subsection \<open>The properties of the boundary\<close>

text \<open>The lexical admission accepts exactly the non-empty relative NUL-free UTF-8 texts of at
  most 4095 bytes whose significant components (the pieces between slashes other than the empty
  one and \<open>.\<close>) are at most 256, none of them \<open>..\<close> or longer than 255 bytes; it returns those
  components, and every other object gets the one lexical error.\<close>

theorem normalize_accepts_exactly:
  "normalize_workspace_relative_path v =
     (case v of
        PyStr tx \<Rightarrow>
          if admitted_path_text tx \<and> length (significant tx) \<le> MAX_COMPONENTS
             \<and> list_all fit_component (significant tx)
          then Inr (significant tx) else Inl InvalidWorkspacePath
      | _ \<Rightarrow> Inl InvalidWorkspacePath)"
  by (cases v) (simp_all add: normalize_text_eval, simp_all add: normalize_workspace_relative_path_def)

text \<open>The label of an admitted path is admitted again and names the same components, so a
  label can be given back to the boundary.\<close>

theorem path_label_roundtrip:
  assumes "normalize_workspace_relative_path (PyStr tx) = Inr cs"
  shows "normalize_workspace_relative_path (PyStr (path_label cs)) = Inr cs"
  using assms by (rule normalize_label)

theorem path_label_roundtrip_witness:
  "normalize_workspace_relative_path (PyStr (lit ''a//./b'')) = Inr [lit ''a'', lit ''b''] \<and>
   normalize_workspace_relative_path (PyStr (path_label [lit ''a'', lit ''b'']))
     = Inr [lit ''a'', lit ''b'']"
proof -
  have "normalize_workspace_relative_path (PyStr (lit ''a//./b'')) = Inr [lit ''a'', lit ''b'']"
    by (simp add: normalize_eval)
  with path_label_roundtrip [OF this] show ?thesis by blast
qed

text \<open>C19: Whatever the file system answers and however it changes between the calls, resolving a
  path only resolves and inspects paths at or below the root (apart from the root check's own
  stat), reads no content and changes nothing else, and a returned snapshot is below the root under a label that normalizes to exactly its
  components; an escape is never returned.\<close>

theorem resolve_stays_inside:
  assumes "canonical_host h" "resolve_existing h b v s = (r, s')"
  shows "host_only (call_inside h (wb_root b)) s s' \<and>
    (case r of Inl e \<Rightarrow> e \<noteq> InvalidWorkspaceRoot | Inr q \<Rightarrow> snapshot_valid b q)"
  using movesD [OF moves_resolve_existing assms(2)] resolve_existing_outcome [OF assms] by blast

theorem resolve_stays_inside_witness:
  "snapshot_valid example_boundary
     \<lparr>rp_absolute = [lit ''w'', lit ''a'', lit ''f''], rp_relative = lit ''a/f''\<rparr>"
proof -
  obtain r s' where r: "resolve_existing example_host example_boundary
      (PlainPath (PyStr (lit ''./l''))) no_calls = (r, s')" by (rule prod.exhaust)
  have "r = Inr \<lparr>rp_absolute = [lit ''w'', lit ''a'', lit ''f''], rp_relative = lit ''a/f''\<rparr>"
    using example_resolutions(1) unfolding r fst_conv .
  with resolve_stays_inside [OF example_host_canonical r] show ?thesis by (simp del: lit_simps)
qed

text \<open>For an admitted path the result is decided by the two root checks and then by the
  target: a root that is not current before the attempt or after it gives the staleness error,
  whatever became of the target; otherwise the target's error or snapshot is the result.\<close>

theorem stale_root_wins:
  assumes "and_then (path_like_string v) normalize_workspace_relative_path = Inr cs"
  shows "fst (resolve_existing h b v s) =
    (let t = snd (assert_current_root h b s);
         found = resolve_target h b cs t in
     if \<not> root_is_current h b (calls s) \<or> \<not> root_is_current h b (calls (snd found))
     then Inl StaleWorkspaceRoot
     else and_then (fst found) (snapshot_of b))"
  using resolve_existing_result [OF assms surjective_pairing surjective_pairing]
  by (simp only: Let_def)

theorem stale_root_wins_witness:
  "fst (resolve_existing example_host (example_boundary\<lparr>wb_root_inode := 9\<rparr>)
      (PlainPath (PyStr (lit ''e''))) no_calls) = Inl StaleWorkspaceRoot"
proof -
  have "\<not> root_is_current example_host (example_boundary\<lparr>wb_root_inode := 9\<rparr>) (calls no_calls)"
    by (simp add: root_is_current_def example_host_simps)
  with stale_root_wins [OF example_lexical(2), where h = example_host and s = no_calls
      and b = "example_boundary\<lparr>wb_root_inode := 9\<rparr>"]
  show ?thesis by (simp add: Let_def del: lit_simps)
qed

end
