(* ===== verification/Policy_Grammar.thy ===== *)
theory Policy_Grammar
  imports Py_Text
begin

section \<open>The ignore-policy grammar (repository_access.py)\<close>

text \<open>
  The pure text functions that stand between a \<open>.gitignore\<close> file and the third-party
  \<open>pathspec\<close> matcher: line normalization, the bounded wildcard grammar, the derived directory
  patterns and the consistency checks on what \<open>GitIgnoreSpec.from_lines\<close> returned. The matcher
  is a parameter (\<open>git_ignore\<close>): from the lines to the compiled patterns, or \<open>None\<close> when it
  raises. A compiled pattern is what the code reads of it: its text, its \<open>include\<close> flag and the
  outcome of \<open>match_file\<close>.
\<close>

subsection \<open>Compiled patterns\<close>

datatype pattern_match = NoMatch | EntryMatch | ParentMatch | MatchRaises

record ignore_pattern =
  ip_pattern :: py_object
  ip_include :: "bool option"
  ip_match :: "ustr \<Rightarrow> pattern_match"

type_synonym git_ignore = "ustr list \<Rightarrow> ignore_pattern list option"

record policy_rules =
  rules_file :: "ignore_pattern list"
  rules_directory :: "ignore_pattern list"

text \<open>
  \<open>_check_policy\<close>: the last pattern that matches the entry itself decides; a match through the
  \<open>ps_d\<close> group (a parent directory) is skipped. \<open>None\<close> outside stands for a raising matcher.
\<close>

fun check_policy_loop :: "ignore_pattern list \<Rightarrow> ustr \<Rightarrow> bool option \<Rightarrow> bool option option" where
  "check_policy_loop [] label decision = Some decision"
| "check_policy_loop (p # ps) label decision =
     (if ip_include p = None then check_policy_loop ps label decision
      else case ip_match p label of
             NoMatch \<Rightarrow> check_policy_loop ps label decision
           | ParentMatch \<Rightarrow> check_policy_loop ps label decision
           | EntryMatch \<Rightarrow> check_policy_loop ps label (ip_include p)
           | MatchRaises \<Rightarrow> None)"

definition check_policy :: "ignore_pattern list \<Rightarrow> ustr \<Rightarrow> bool option option" where
  "check_policy rules label = check_policy_loop rules label None"

subsection \<open>Line normalization\<close>

text \<open>
  The index loop of \<open>_normalize_policy_line\<close>: where the run of unescaped trailing spaces starts
  (\<open>Some None\<close>: there is none); \<open>None\<close> is the early return at a final backslash.
\<close>

fun trailing_space_scan :: "ustr \<Rightarrow> nat \<Rightarrow> nat option \<Rightarrow> nat option option" where
  "trailing_space_scan [] index trailing = Some trailing"
| "trailing_space_scan (c # rest) index trailing =
     (if c = 92 then
        (case rest of
           [] \<Rightarrow> None
         | _ # rest' \<Rightarrow> trailing_space_scan rest' (index + 2) None)
      else if c = 32 then
        trailing_space_scan rest (index + 1) (if trailing = None then Some index else trailing)
      else trailing_space_scan rest (index + 1) None)"

definition normalize_policy_line :: "ustr \<Rightarrow> ustr" where
  "normalize_policy_line raw =
     (let line = (if ends_with raw [13] then butlast raw else raw) in
      case trailing_space_scan line 0 None of
        None \<Rightarrow> line
      | Some None \<Rightarrow> line
      | Some (Some index) \<Rightarrow> take index line)"

subsection \<open>The bounded grammar\<close>

definition MAX_POLICY_STARS_PER_SEGMENT :: nat where "MAX_POLICY_STARS_PER_SEGMENT = 1"
definition MAX_POLICY_ACTIVE_GLOBSTARS :: nat where "MAX_POLICY_ACTIVE_GLOBSTARS = 1"

definition SAFE_POLICY_RANGE_LITERALS :: "nat list" where
  "SAFE_POLICY_RANGE_LITERALS = lit ''_*?.''"

definition bracket_error :: py_error where
  "bracket_error = ValueError ''policy pattern uses unsupported bracket syntax''"

definition ascii_range_group :: "nat \<Rightarrow> nat option" where
  "ascii_range_group c =
     (if 48 \<le> c \<and> c \<le> 57 then Some 0
      else if 65 \<le> c \<and> c \<le> 90 then Some 1
      else if 97 \<le> c \<and> c \<le> 122 then Some 2
      else None)"

fun validate_range_loop :: "ustr \<Rightarrow> py_error + unit" where
  "validate_range_loop [] = Inr ()"
| "validate_range_loop [c] =
     (if ascii_range_group c = None \<and> c \<notin> set SAFE_POLICY_RANGE_LITERALS then Inl bracket_error
      else Inr ())"
| "validate_range_loop (c # d # rest) =
     (if d = 45 then
        (case rest of
           [] \<Rightarrow> Inl bracket_error
         | endpoint # rest' \<Rightarrow>
             if ascii_range_group c = None \<or> ascii_range_group endpoint \<noteq> ascii_range_group c
                \<or> c > endpoint
             then Inl bracket_error else validate_range_loop rest')
      else if ascii_range_group c = None \<and> c \<notin> set SAFE_POLICY_RANGE_LITERALS
      then Inl bracket_error
      else validate_range_loop (d # rest))"

definition validate_policy_range :: "ustr \<Rightarrow> py_error + unit" where
  "validate_policy_range content =
     (if content = [] \<or> hd content \<in> {33, 94, 93} then Inl bracket_error
      else validate_range_loop content)"

text \<open>
  \<open>_validate_policy_segment\<close>, over the rest of the segment: the star count and, inside brackets,
  the content read since the opening bracket (\<open>segment[range_start:index]\<close>), which is non-empty
  exactly when \<open>range_has_member\<close> is set.
\<close>

fun validate_segment_loop :: "nat \<Rightarrow> ustr option \<Rightarrow> ustr \<Rightarrow> py_error + unit" where
  "validate_segment_loop stars bracket [] = Inr ()"
| "validate_segment_loop stars None (c # rest) =
     (if c = 92 then validate_segment_loop stars None (tl rest)
      else if c = 91 then validate_segment_loop stars (Some []) rest
      else if c = 42 then
        (if stars + 1 > MAX_POLICY_STARS_PER_SEGMENT
         then Inl (ValueError ''policy pattern exceeds the bounded wildcard grammar'')
         else validate_segment_loop (stars + 1) None rest)
      else if c = 63
      then Inl (ValueError ''policy pattern uses an unsupported question-mark wildcard'')
      else validate_segment_loop stars None rest)"
| "validate_segment_loop stars (Some content) (c # rest) =
     (if c = 93 \<and> content \<noteq> [] then
        and_then (validate_policy_range content) (\<lambda>_. validate_segment_loop stars None rest)
      else validate_segment_loop stars (Some (content @ [c])) rest)"

definition validate_policy_segment :: "ustr \<Rightarrow> py_error + unit" where
  "validate_policy_segment segment = validate_segment_loop 0 None segment"

fun last_nonempty :: "ustr list \<Rightarrow> int" where
  "last_nonempty [] = - 1"
| "last_nonempty (s # ss) =
     (if last_nonempty ss \<ge> 0 then last_nonempty ss + 1 else if s \<noteq> [] then 0 else - 1)"

fun validate_segments :: "int \<Rightarrow> bool \<Rightarrow> int \<Rightarrow> nat \<Rightarrow> ustr list \<Rightarrow> py_error + unit" where
  "validate_segments last_index trailing_empty index globstars [] = Inr ()"
| "validate_segments last_index trailing_empty index globstars (segment # rest) =
     (if segment = lit ''**'' then
        (if index < last_index \<or> (index = last_index \<and> trailing_empty) then
           (if globstars + 1 > MAX_POLICY_ACTIVE_GLOBSTARS
            then Inl (ValueError ''policy pattern exceeds the bounded globstar grammar'')
            else validate_segments last_index trailing_empty (index + 1) (globstars + 1) rest)
         else validate_segments last_index trailing_empty (index + 1) globstars rest)
      else and_then (validate_policy_segment segment)
             (\<lambda>_. validate_segments last_index trailing_empty (index + 1) globstars rest))"

definition policy_body :: "ustr \<Rightarrow> ustr" where
  "policy_body line = (if starts_with line (lit ''!'') then tl line else line)"

definition validate_policy_line :: "ustr \<Rightarrow> py_error + unit" where
  "validate_policy_line line =
     (if line = [] \<or> starts_with line (lit ''#'') \<or> line = lit ''/'' then Inr ()
      else let body = policy_body line; segments = py_split 47 body in
           validate_segments (last_nonempty segments) (ends_with body (lit ''//'')) 0 0 segments)"

subsection \<open>Compilation\<close>

definition directory_pattern :: "ustr \<Rightarrow> ustr" where
  "directory_pattern line =
     (let body = policy_body line in
      if body = lit ''/'' \<or> ends_with body (lit ''//'') \<or> \<not> ends_with body (lit ''/'') then line
      else butlast line)"

fun directory_lines :: "(ustr \<times> ignore_pattern) list \<Rightarrow> py_error + ustr list" where
  "directory_lines [] = Inr []"
| "directory_lines ((line, p) # rest) =
     (if ip_pattern p \<noteq> PyStr line
      then Inl (ValueError ''GitIgnoreSpec changed a retained policy pattern'')
      else and_then (directory_lines rest)
        (\<lambda>ls. Inr ((if ip_include p = None then line else directory_pattern line) # ls)))"

fun check_directory_rules ::
  "(ustr \<times> ignore_pattern \<times> ignore_pattern) list \<Rightarrow> py_error + unit" where
  "check_directory_rules [] = Inr ()"
| "check_directory_rules ((line, original, derived) # rest) =
     (if ip_pattern derived \<noteq> PyStr line \<or> ip_include derived \<noteq> ip_include original
      then Inl (ValueError ''directory rules changed a retained pattern identity'')
      else check_directory_rules rest)"

fun validate_policy_lines :: "ustr list \<Rightarrow> py_error + unit" where
  "validate_policy_lines [] = Inr ()"
| "validate_policy_lines (l # ls) = and_then (validate_policy_line l) (\<lambda>_. validate_policy_lines ls)"

definition from_lines :: "git_ignore \<Rightarrow> ustr list \<Rightarrow> py_error + ignore_pattern list" where
  "from_lines git lines =
     (case git lines of None \<Rightarrow> Inl (ValueError ''pathspec'') | Some ps \<Rightarrow> Inr ps)"

definition compile_policy_rules :: "git_ignore \<Rightarrow> ustr list \<Rightarrow> py_error + policy_rules" where
  "compile_policy_rules git lines =
     (let semantic = map normalize_policy_line lines;
          retained = filter (\<lambda>l. l \<noteq> []) semantic in
      and_then (validate_policy_lines semantic) (\<lambda>_.
      and_then (from_lines git semantic) (\<lambda>file_rules.
      and_then (raise_unless (length retained = length file_rules)
                  (ValueError ''GitIgnoreSpec retained an unexpected pattern count'')) (\<lambda>_.
      and_then (directory_lines (zip retained file_rules)) (\<lambda>dir_lines.
      and_then (from_lines git dir_lines) (\<lambda>directory_rules.
      and_then (raise_unless (length directory_rules = length file_rules)
                  (ValueError ''directory rules changed the retained pattern count'')) (\<lambda>_.
      and_then (check_directory_rules (zip dir_lines (zip file_rules directory_rules))) (\<lambda>_.
        Inr \<lparr>rules_file = file_rules, rules_directory = directory_rules\<rparr>))))))))"

subsection \<open>Line normalization strips the unescaped trailing spaces\<close>

text \<open>
  The reference reading of a line: a list of units, each an escaped character (backslash and
  the character), or a single character; a final lone backslash is a unit of its own.
\<close>

fun line_units :: "ustr \<Rightarrow> ustr list" where
  "line_units [] = []"
| "line_units (c # rest) =
     (if c = 92 then
        (case rest of [] \<Rightarrow> [[92]] | d # rest' \<Rightarrow> [92, d] # line_units rest')
      else [c] # line_units rest)"

definition strip_units :: "ustr list \<Rightarrow> ustr list" where
  "strip_units us = rev (dropWhile (\<lambda>u. u = [32]) (rev us))"

lemma concat_line_units: "concat (line_units s) = s"
  by (induction s rule: line_units.induct) (auto split: list.splits)

lemma line_units_eq_Nil [simp]: "line_units s = [] \<longleftrightarrow> s = []"
  by (cases s) (auto split: list.splits)

lemma strip_units_Cons:
  "strip_units (u # us) = (if u = [32] \<and> strip_units us = [] then [] else u # strip_units us)"
  by (simp add: strip_units_def dropWhile_append)

lemma strip_units_Nil_iff: "strip_units us = [] \<longleftrightarrow> list_all (\<lambda>u. u = [32]) us"
  by (induction us) (simp_all add: strip_units_Cons, simp add: strip_units_def)

lemma strip_units_prefix: "prefix (concat (strip_units us)) (concat us)"
  by (induction us) (auto simp: strip_units_Cons, simp add: strip_units_def)

definition scan_result :: "ustr \<Rightarrow> nat \<Rightarrow> nat option \<Rightarrow> nat option" where
  "scan_result s index trailing =
     (if strip_units (line_units s) = line_units s
      then (if s = [] then trailing else None)
      else if strip_units (line_units s) = [] \<and> trailing \<noteq> None then trailing
      else Some (index + length (concat (strip_units (line_units s)))))"

lemma trailing_space_scan_result:
  "case trailing_space_scan s index trailing of
     None \<Rightarrow> strip_units (line_units s) = line_units s \<and> s \<noteq> []
   | Some r \<Rightarrow> r = scan_result s index trailing"
proof (induction s index trailing rule: trailing_space_scan.induct)
  case (1 index trailing)
  then show ?case by (simp add: scan_result_def strip_units_def)
next
  case (2 c rest index trailing)
  consider (escape) "c = 92" | (space) "c = 32" | (other) "c \<noteq> 92" "c \<noteq> 32" by auto
  then show ?case
  proof cases
    case escape
    show ?thesis
    proof (cases rest)
      case Nil
      with escape show ?thesis by (simp add: strip_units_def)
    next
      case (Cons d rest')
      with escape 2(1) show ?thesis
        by (auto simp: scan_result_def strip_units_Cons split: option.splits)
    qed
  next
    case space
    with 2(2) show ?thesis
      by (cases trailing) (auto simp: scan_result_def strip_units_Cons split: option.splits if_splits)
  next
    case other
    with 2(3) show ?thesis
      by (auto simp: scan_result_def strip_units_Cons split: option.splits)
  qed
qed

lemma normalize_policy_line_units:
  "normalize_policy_line raw =
     concat (strip_units (line_units (if ends_with raw [13] then butlast raw else raw)))"
proof -
  define line where "line = (if ends_with raw [13] then butlast raw else raw)"
  have pre: "concat (strip_units (line_units line))
      = take (length (concat (strip_units (line_units line)))) line"
    using strip_units_prefix [of "line_units line"]
    by (metis append_eq_conv_conj concat_line_units prefix_def)
  have "(case trailing_space_scan line 0 None of None \<Rightarrow> line | Some None \<Rightarrow> line
        | Some (Some i) \<Rightarrow> take i line) = concat (strip_units (line_units line))"
    using trailing_space_scan_result [of line 0 None] pre
    by (auto simp: scan_result_def concat_line_units split: option.splits if_splits)
  then show ?thesis unfolding normalize_policy_line_def Let_def line_def .
qed

subsection \<open>Accepted brackets cannot match a separator\<close>

text \<open>The characters a bracket content stands for, in the glob reading of \<open>a-z\<close> and \<open>x\<close>.\<close>

fun bracket_matches :: "ustr \<Rightarrow> nat \<Rightarrow> bool" where
  "bracket_matches [] x \<longleftrightarrow> False"
| "bracket_matches [c] x \<longleftrightarrow> x = c"
| "bracket_matches [c, d] x \<longleftrightarrow> x = c \<or> x = d"
| "bracket_matches (c # d # e # rest) x \<longleftrightarrow>
     (if d = 45 then (c \<le> x \<and> x \<le> e) \<or> bracket_matches rest x
      else x = c \<or> bracket_matches (d # e # rest) x)"

lemma ascii_range_group_bounds:
  "ascii_range_group c = Some g \<Longrightarrow> ascii_range_group e = Some g \<Longrightarrow> c \<le> x \<Longrightarrow> x \<le> e \<Longrightarrow>
     ascii_range_group x = Some g"
  by (auto simp: ascii_range_group_def split: if_splits)

lemma slash_not_a_range_member [simp]:
  "ascii_range_group 47 = None"
  "47 \<notin> set SAFE_POLICY_RANGE_LITERALS"
  by (simp_all add: ascii_range_group_def SAFE_POLICY_RANGE_LITERALS_def)

lemma validate_range_loop_no_slash:
  "validate_range_loop content = Inr () \<Longrightarrow> \<not> bracket_matches content 47"
proof (induction content rule: validate_range_loop.induct)
  case 1
  then show ?case by simp
next
  case (2 c)
  then show ?case by (auto split: if_splits)
next
  case (3 c d rest)
  show ?case
  proof (cases "d = 45")
    case True
    with "3.prems" obtain e rest' where e: "rest = e # rest'"
      "ascii_range_group c \<noteq> None" "ascii_range_group e = ascii_range_group c"
      "validate_range_loop rest' = Inr ()"
      by (cases rest) (auto split: if_splits)
    then obtain g where "ascii_range_group c = Some g" "ascii_range_group e = Some g" by auto
    then have "\<not> (c \<le> 47 \<and> 47 \<le> e)"
      using ascii_range_group_bounds [of c g e 47] by (auto simp: ascii_range_group_def)
    with e True "3.IH"(1) "3.prems" show ?thesis by (auto split: if_splits)
  next
    case False
    with "3.prems" have c: "c \<noteq> 47" "validate_range_loop (d # rest) = Inr ()"
      by (auto split: if_splits)
    with False "3.IH"(2) "3.prems" have "\<not> bracket_matches (d # rest) 47"
      by (auto split: if_splits)
    with c False show ?thesis by (cases rest) auto
  qed
qed

lemma validate_policy_range_no_slash:
  "validate_policy_range content = Inr () \<Longrightarrow> \<not> bracket_matches content 47"
  by (auto simp: validate_policy_range_def validate_range_loop_no_slash split: if_splits)

subsection \<open>The accepted segments\<close>

text \<open>
  The reference reading of a segment: its glob tokens. A bracket opens at an unescaped \<open>[\<close>, its
  first member may be \<open>]\<close>, and it closes at the next \<open>]\<close>; an unclosed bracket is a token of its
  own.
\<close>

datatype glob_token = GLiteral nat | GEscape ustr | GStar | GQuestion | GBracket ustr | GUnclosed ustr

fun glob_tokens :: "ustr option \<Rightarrow> ustr \<Rightarrow> glob_token list" where
  "glob_tokens None [] = []"
| "glob_tokens (Some content) [] = [GUnclosed content]"
| "glob_tokens None (c # rest) =
     (if c = 92 then GEscape (take 1 rest) # glob_tokens None (tl rest)
      else if c = 91 then glob_tokens (Some []) rest
      else if c = 42 then GStar # glob_tokens None rest
      else if c = 63 then GQuestion # glob_tokens None rest
      else GLiteral c # glob_tokens None rest)"
| "glob_tokens (Some content) (c # rest) =
     (if c = 93 \<and> content \<noteq> [] then GBracket content # glob_tokens None rest
      else glob_tokens (Some (content @ [c])) rest)"

definition token_ok :: "glob_token \<Rightarrow> bool" where
  "token_ok t = (case t of
       GQuestion \<Rightarrow> False
     | GBracket content \<Rightarrow> validate_policy_range content = Inr ()
     | _ \<Rightarrow> True)"

definition star_count :: "glob_token list \<Rightarrow> nat" where
  "star_count ts = length (filter (\<lambda>t. t = GStar) ts)"

lemma token_ok_simps [simp]:
  "token_ok (GLiteral c)" "token_ok (GEscape s)" "token_ok GStar" "\<not> token_ok GQuestion"
  "token_ok (GUnclosed s)" "token_ok (GBracket s) \<longleftrightarrow> validate_policy_range s = Inr ()"
  by (simp_all add: token_ok_def)

lemma star_count_simps [simp]:
  "star_count [] = 0"
  "star_count (t # ts) = (if t = GStar then 1 else 0) + star_count ts"
  by (simp_all add: star_count_def)

lemma validate_segment_loop_iff:
  "stars \<le> MAX_POLICY_STARS_PER_SEGMENT \<Longrightarrow>
   validate_segment_loop stars bracket s = Inr () \<longleftrightarrow>
     stars + star_count (glob_tokens bracket s) \<le> MAX_POLICY_STARS_PER_SEGMENT \<and>
     list_all token_ok (glob_tokens bracket s)"
proof (induction stars bracket s rule: validate_segment_loop.induct)
  case (1 stars bracket)
  then show ?case by (cases bracket) simp_all
next
  case (2 stars c rest)
  then show ?case by (auto simp: not_less)
next
  case (3 stars content c rest)
  then show ?case by auto
qed

lemma validate_policy_segment_iff:
  "validate_policy_segment segment = Inr () \<longleftrightarrow>
     star_count (glob_tokens None segment) \<le> MAX_POLICY_STARS_PER_SEGMENT \<and>
     list_all token_ok (glob_tokens None segment)"
  by (simp add: validate_policy_segment_def validate_segment_loop_iff)

subsection \<open>The accepted lines\<close>

text \<open>
  The globstars that can repeat: a segment \<open>**\<close> before the last non-empty one, or the last
  non-empty one itself when the line ends in \<open>//\<close>.
\<close>

definition active_globstar :: "int \<Rightarrow> bool \<Rightarrow> int \<Rightarrow> ustr \<Rightarrow> bool" where
  "active_globstar last_index trailing_empty index segment \<longleftrightarrow>
     segment = lit ''**'' \<and>
     (index < last_index \<or> (index = last_index \<and> trailing_empty))"

fun active_globstars :: "int \<Rightarrow> bool \<Rightarrow> int \<Rightarrow> ustr list \<Rightarrow> nat" where
  "active_globstars last_index trailing_empty index [] = 0"
| "active_globstars last_index trailing_empty index (s # ss) =
     (if active_globstar last_index trailing_empty index s then 1 else 0) +
     active_globstars last_index trailing_empty (index + 1) ss"

definition segment_accepted :: "ustr \<Rightarrow> bool" where
  "segment_accepted s \<longleftrightarrow> s = lit ''**'' \<or>
     (star_count (glob_tokens None s) \<le> MAX_POLICY_STARS_PER_SEGMENT \<and>
      list_all token_ok (glob_tokens None s))"

lemma validate_segments_iff:
  "globstars \<le> MAX_POLICY_ACTIVE_GLOBSTARS \<Longrightarrow>
   validate_segments last_index trailing_empty index globstars ss = Inr () \<longleftrightarrow>
     globstars + active_globstars last_index trailing_empty index ss \<le> MAX_POLICY_ACTIVE_GLOBSTARS \<and>
     list_all segment_accepted ss"
proof (induction ss arbitrary: index globstars)
  case Nil
  then show ?case by simp
next
  case (Cons s ss)
  show ?case
  proof (cases "s = lit ''**''")
    case True
    with Cons show ?thesis
      by (auto simp: active_globstar_def segment_accepted_def not_less simp del: lit_simps)
  next
    case False
    with Cons show ?thesis
      by (auto simp: active_globstar_def segment_accepted_def validate_policy_segment_iff
            simp del: lit_simps)
  qed
qed

lemma last_nonempty_upper: "i < length ss \<Longrightarrow> ss ! i \<noteq> [] \<Longrightarrow> int i \<le> last_nonempty ss"
proof (induction ss arbitrary: i)
  case Nil
  then show ?case by simp
next
  case (Cons s ss)
  show ?case
  proof (cases i)
    case 0
    with Cons.prems show ?thesis by simp
  next
    case (Suc j)
    with Cons show ?thesis by fastforce
  qed
qed

lemma last_nonempty_member:
  "0 \<le> last_nonempty ss \<Longrightarrow> nat (last_nonempty ss) < length ss \<and> ss ! nat (last_nonempty ss) \<noteq> []"
  by (induction ss) (auto simp: nat_add_distrib split: if_splits)

text \<open>What an accepted bracket token guarantees.\<close>

definition separator_safe :: "glob_token \<Rightarrow> bool" where
  "separator_safe t = (case t of
       GQuestion \<Rightarrow> False
     | GBracket content \<Rightarrow> \<not> bracket_matches content 47 \<and> hd content \<noteq> 33 \<and> hd content \<noteq> 94
     | _ \<Rightarrow> True)"

lemma token_ok_separator_safe: "token_ok t \<Longrightarrow> separator_safe t"
  by (cases t)
     (auto simp: separator_safe_def validate_policy_range_no_slash validate_policy_range_def
        split: if_splits)

definition bounded_segment :: "ustr \<Rightarrow> bool" where
  "bounded_segment s \<longleftrightarrow> s = lit ''**'' \<or>
     (star_count (glob_tokens None s) \<le> 1 \<and> list_all separator_safe (glob_tokens None s))"

lemma segment_accepted_bounded: "segment_accepted s \<Longrightarrow> bounded_segment s"
  by (auto simp: segment_accepted_def bounded_segment_def MAX_POLICY_STARS_PER_SEGMENT_def
        list_all_iff token_ok_separator_safe)

text \<open>C20: The index loop that normalizes a policy line computes the reference reading: after one
  trailing carriage return, exactly the unescaped trailing spaces are removed, where a backslash
  binds the character after it.\<close>

theorem policy_line_normal_form:
  "normalize_policy_line raw =
     concat (strip_units (line_units (if ends_with raw [13] then butlast raw else raw)))"
  by (rule normalize_policy_line_units)

text \<open>A policy line that the validator admits (other than an empty line, a comment or the
  lone slash) is within the bounded grammar: at most one globstar that can repeat, and in every
  other segment at most one unescaped star, no question mark, and no bracket that is negated or
  matches the separator.\<close>

theorem accepted_line_is_bounded:
  assumes "validate_policy_line line = Inr ()"
    and "line \<noteq> []" "\<not> starts_with line (lit ''#'')" "line \<noteq> lit ''/''"
  shows "let segments = py_split 47 (policy_body line) in
    active_globstars (last_nonempty segments) (ends_with (policy_body line) (lit ''//'')) 0 segments
      \<le> 1
    \<and> list_all bounded_segment segments"
proof -
  let ?segments = "py_split 47 (policy_body line)"
  have "validate_segments (last_nonempty ?segments) (ends_with (policy_body line) (lit ''//'')) 0 0
      ?segments = Inr ()"
    using assms by (simp add: validate_policy_line_def Let_def del: lit_simps)
  then have bounds: "active_globstars (last_nonempty ?segments)
        (ends_with (policy_body line) (lit ''//'')) 0 ?segments \<le> 1"
      "list_all segment_accepted ?segments"
    by (simp_all add: validate_segments_iff MAX_POLICY_ACTIVE_GLOBSTARS_def del: lit_simps)
  then have "list_all bounded_segment ?segments"
    using segment_accepted_bounded by (auto simp: list_all_iff)
  with bounds(1) show ?thesis by (simp add: Let_def del: lit_simps)
qed

theorem accepted_line_is_bounded_witness:
  "list_all bounded_segment (py_split 47 (policy_body (lit ''!a/**/[a-c]*.py'')))"
proof -
  have "validate_policy_line (lit ''!a/**/[a-c]*.py'') = Inr ()" by code_simp
  from accepted_line_is_bounded [OF this] show ?thesis
    by (simp add: Let_def starts_with_def)
qed

end
