(* ===== verification/Repository_Policy.thy ===== *)
theory Repository_Policy
  imports Workspace Policy_Grammar
begin

section \<open>Repository read admission (repository_access.py)\<close>

text \<open>
  The admission of one path for a bounded read: the lexical denial list, the nested ignore
  policies with their budgets, canonical resolution and the final recheck. Every host call goes
  through the log of \<open>Workspace\<close>, and the admission state extends that log by the decision's cache
  and its two counters. The \<open>pathspec\<close> matcher is the parameter \<open>git\<close> of \<open>Policy_Grammar\<close>.
\<close>

subsection \<open>Errors and limits\<close>

datatype repository_error =
    InvalidRepositoryPath | RepositoryPathNotFound | RepositoryPathUnavailable
  | RepositoryPathIgnored | RepositoryExpectedDirectory | RepositoryExpectedFile
  | RepositoryNotText | RepositorySourceTooLarge | RepositoryInputLimit | RepositoryResultLimit
  | RepositoryPolicyInvalid | RepositoryReadFailed

fun repository_error_message :: "repository_error \<Rightarrow> string" where
  "repository_error_message InvalidRepositoryPath =
     ''Repository path must be a valid workspace-relative path.''"
| "repository_error_message RepositoryPathNotFound = ''Repository path does not exist.''"
| "repository_error_message RepositoryPathUnavailable = ''Repository path is not available.''"
| "repository_error_message RepositoryPathIgnored = ''Repository path is ignored.''"
| "repository_error_message RepositoryExpectedDirectory =
     ''Repository path must be a directory.''"
| "repository_error_message RepositoryExpectedFile =
     ''Repository path must be a regular file.''"
| "repository_error_message RepositoryNotText = ''Repository file must be valid UTF-8 text.''"
| "repository_error_message RepositorySourceTooLarge =
     ''Repository file exceeds the byte limit.''"
| "repository_error_message RepositoryInputLimit =
     ''Repository request exceeds the input limit.''"
| "repository_error_message RepositoryResultLimit =
     ''Repository result exceeds the item or byte limit.''"
| "repository_error_message RepositoryPolicyInvalid =
     ''Repository ignore policy could not be loaded safely.''"
| "repository_error_message RepositoryReadFailed = ''Repository content could not be read.''"

definition MAX_POLICY_SOURCE_BYTES :: nat where "MAX_POLICY_SOURCE_BYTES = 65536"
definition MAX_POLICY_SOURCES :: nat where "MAX_POLICY_SOURCES = 16"
definition MAX_POLICY_BYTES :: nat where "MAX_POLICY_BYTES = 262144"
definition MAX_POLICY_MATCH_WORK :: nat where "MAX_POLICY_MATCH_WORK = 65536"

lemmas policy_limits = MAX_POLICY_SOURCE_BYTES_def MAX_POLICY_SOURCES_def MAX_POLICY_BYTES_def
  MAX_POLICY_MATCH_WORK_def

subsection \<open>Lexical classification\<close>

definition DENIED_COMPONENTS :: "ustr list" where
  "DENIED_COMPONENTS = map lit [''.git'', ''.hg'', ''.svn'', ''.ssh'', ''.gnupg'', ''.aws'']"

definition DENIED_BASENAMES :: "ustr list" where
  "DENIED_BASENAMES = map lit
     [''.envrc'', ''.netrc'', ''.npmrc'', ''.pypirc'', ''.git-credentials'', ''credentials'',
      ''credentials.json'', ''application_default_credentials.json'', ''service-account.json'',
      ''id_rsa'', ''id_dsa'', ''id_ecdsa'', ''id_ed25519'']"

definition DOCUMENTATION_ENV_FILES :: "ustr list" where
  "DOCUMENTATION_ENV_FILES = map lit [''.env.example'', ''.env.sample'', ''.env.template'']"

definition DENIED_SUFFIXES :: "ustr list" where
  "DENIED_SUFFIXES = map lit [''.pem'', ''.key'', ''.p12'', ''.pfx'']"

definition ascii_lower :: "nat \<Rightarrow> nat" where
  "ascii_lower c = (if 65 \<le> c \<and> c \<le> 90 then c + 32 else c)"

definition is_model_facing_text :: "py_object \<Rightarrow> bool" where
  "is_model_facing_text v =
     (case v of
        PyStr s \<Rightarrow>
          if 0 \<in> set s then False
          else (case utf8_encode s of None \<Rightarrow> False | Some bs \<Rightarrow> utf8_decode bs = Some s)
      | _ \<Rightarrow> False)"

definition is_hard_denied_path :: "ustr list \<Rightarrow> bool" where
  "is_hard_denied_path components =
     (if list_ex (\<lambda>c. c \<in> set DENIED_COMPONENTS) components then True
      else if components = [] then False
      else let basename = last components in
        if basename \<in> set DOCUMENTATION_ENV_FILES then False
        else let lowered = map ascii_lower basename in
          lowered \<in> set DENIED_BASENAMES \<or> lowered = lit ''.env''
          \<or> ends_with lowered (lit ''.env'') \<or> starts_with lowered (lit ''.env.'')
          \<or> list_ex (ends_with lowered) DENIED_SUFFIXES)"

text \<open>\<open>normalize_repository_path_components\<close>: the boundary's own admission, its error renamed.\<close>

definition normalize_repository_path_components :: "py_object \<Rightarrow> py_error + ustr list" where
  "normalize_repository_path_components v =
     (case normalize_workspace_relative_path v of
        Inl _ \<Rightarrow> Inl (ValueError ''Repository path syntax is invalid.'')
      | Inr components \<Rightarrow> Inr components)"

definition child_label :: "ustr list \<Rightarrow> ustr \<Rightarrow> ustr" where
  "child_label owner basename = py_join (lit ''/'') (owner @ [basename])"

text \<open>\<open>PurePosixPath(label).parts\<close> of a relative label.\<close>

definition label_parts :: "ustr \<Rightarrow> ustr list" where
  "label_parts label = significant label"

subsection \<open>Records\<close>

datatype repository_kind = KindFile | KindDirectory

record admitted_path =
  ap_path :: ustr
  ap_kind :: repository_kind
  ap_is_symlink :: bool

record captured_owner =
  co_components :: "ustr list"
  co_path :: ustr
  co_identity :: "int \<times> int"

record policy_source =
  src_path :: ustr
  src_absolute :: abs_path
  src_size :: int

record scoped_policy =
  sp_owner :: "ustr list"
  sp_rules :: policy_rules

record admission = host_log +
  ad_cache :: "(ustr \<times> policy_rules) list"
  ad_loaded_bytes :: nat
  ad_match_work :: nat

type_synonym 'a admitting = "(repository_error, admission, 'a) effect"

definition new_admission :: "host_call list \<Rightarrow> admission" where
  "new_admission log = \<lparr>calls = log, ad_cache = [], ad_loaded_bytes = 0, ad_match_work = 0\<rparr>"

subsection \<open>Ignore decisions\<close>

fun ignore_fold ::
  "scoped_policy list \<Rightarrow> ustr list \<Rightarrow> bool \<Rightarrow> bool option \<Rightarrow> bool option admitting" where
  "ignore_fold [] target is_directory ignored = ret ignored"
| "ignore_fold (p # ps) target is_directory ignored =
     (if take (length (sp_owner p)) target \<noteq> sp_owner p
      then ignore_fold ps target is_directory ignored
      else let relative = drop (length (sp_owner p)) target in
        if relative = [] then ignore_fold ps target is_directory ignored
        else let rules = (if is_directory then rules_directory (sp_rules p)
                          else rules_file (sp_rules p)) in
          ask (\<lambda>s.
            if int (length rules) > int MAX_POLICY_MATCH_WORK - int (ad_match_work s)
            then raise RepositoryPolicyInvalid
            else next_do (update (\<lambda>s. s\<lparr>ad_match_work := ad_match_work s + length rules\<rparr>))
              (case check_policy rules (py_join (lit ''/'') relative) of
                 None \<Rightarrow> raise RepositoryPolicyInvalid
               | Some None \<Rightarrow> ignore_fold ps target is_directory ignored
               | Some (Some d) \<Rightarrow> ignore_fold ps target is_directory (Some d))))"

definition is_ignored ::
  "scoped_policy list \<Rightarrow> ustr list \<Rightarrow> bool \<Rightarrow> bool admitting" where
  "is_ignored policies target is_directory =
     seq (ignore_fold policies target is_directory None) (\<lambda>ignored. ret (ignored = Some True))"

text \<open>Both kinds, in the order of the code: first as a file, then as a directory.\<close>

definition ignored_both ::
  "scoped_policy list \<Rightarrow> ustr list \<Rightarrow> (bool \<times> bool) admitting" where
  "ignored_both policies target =
     seq (is_ignored policies target False) (\<lambda>as_file.
     seq (is_ignored policies target True) (\<lambda>as_directory. ret (as_file, as_directory)))"

subsection \<open>Resolution and owners\<close>

definition requested_error :: "workspace_error \<Rightarrow> repository_error" where
  "requested_error e =
     (if e = WorkspacePathNotFound then RepositoryPathNotFound else RepositoryPathUnavailable)"

definition resolve_requested ::
  "host \<Rightarrow> workspace_boundary \<Rightarrow> ustr \<Rightarrow> resolved_path admitting" where
  "resolve_requested h b label =
     rethrow requested_error (resolve_existing h b (PlainPath (PyStr label)))"

definition resolve_or ::
  "repository_error \<Rightarrow> host \<Rightarrow> workspace_boundary \<Rightarrow> ustr \<Rightarrow> resolved_path admitting" where
  "resolve_or e h b label =
     rethrow (\<lambda>_. e) (resolve_existing h b (PlainPath (PyStr label)))"

text \<open>\<open>path.stat()\<close> with every \<open>OSError\<close> mapped to one code.\<close>

definition stat_or :: "repository_error \<Rightarrow> host \<Rightarrow> bool \<Rightarrow> abs_path \<Rightarrow> file_status admitting" where
  "stat_or e h follow p =
     seq (path_stat h follow p) (\<lambda>reply. case reply of StatOk st \<Rightarrow> ret st | _ \<Rightarrow> raise e)"

definition require :: "bool \<Rightarrow> repository_error \<Rightarrow> unit admitting" where
  "require ok e = (if ok then ret () else raise e)"

definition capture_owner ::
  "host \<Rightarrow> workspace_boundary \<Rightarrow> ustr list \<Rightarrow> captured_owner admitting" where
  "capture_owner h b components =
     seq (resolve_requested h b (path_label components)) (\<lambda>resolved.
     next_do (require (\<not> is_hard_denied_path (label_parts (rp_relative resolved)))
       RepositoryPathUnavailable)
     (seq (stat_or RepositoryPathUnavailable h True (rp_absolute resolved)) (\<lambda>st.
      next_do (require (st_kind st = Directory) RepositoryPathUnavailable)
        (ret \<lparr>co_components = components, co_path = rp_relative resolved,
              co_identity = (st_dev st, st_ino st)\<rparr>))))"

definition require_same_owner ::
  "host \<Rightarrow> workspace_boundary \<Rightarrow> captured_owner \<Rightarrow> unit admitting" where
  "require_same_owner h b owner =
     seq (resolve_or RepositoryPolicyInvalid h b (path_label (co_components owner))) (\<lambda>current.
     next_do (require (rp_relative current = co_path owner
                 \<and> \<not> is_hard_denied_path (label_parts (rp_relative current)))
       RepositoryPolicyInvalid)
     (seq (stat_or RepositoryPolicyInvalid h True (rp_absolute current)) (\<lambda>st.
      require (st_kind st = Directory \<and> (st_dev st, st_ino st) = co_identity owner)
        RepositoryPolicyInvalid)))"

subsection \<open>Policy sources\<close>

definition policy_candidate_path :: "workspace_boundary \<Rightarrow> ustr list \<Rightarrow> abs_path" where
  "policy_candidate_path b owner = wb_root b @ owner @ [lit ''.gitignore'']"

definition policy_leaf_is_present :: "host \<Rightarrow> abs_path \<Rightarrow> bool admitting" where
  "policy_leaf_is_present h candidate =
     seq (path_stat h False candidate)
       (\<lambda>reply. case reply of
          StatOk _ \<Rightarrow> ret True
        | StatMissing \<Rightarrow> ret False
        | StatFailed \<Rightarrow> raise RepositoryPolicyInvalid)"

definition resolve_policy_source ::
  "host \<Rightarrow> workspace_boundary \<Rightarrow> ustr \<Rightarrow> policy_source admitting" where
  "resolve_policy_source h b candidate_label =
     seq (resolve_or RepositoryPolicyInvalid h b candidate_label) (\<lambda>source.
     next_do (require (\<not> is_hard_denied_path (label_parts (rp_relative source)))
       RepositoryPolicyInvalid)
     (seq (stat_or RepositoryPolicyInvalid h True (rp_absolute source)) (\<lambda>st.
      next_do (require (st_kind st = RegularFile \<and> st_size st \<le> int MAX_POLICY_SOURCE_BYTES)
                 RepositoryPolicyInvalid)
        (ret \<lparr>src_path = rp_relative source, src_absolute = rp_absolute source,
              src_size = st_size st\<rparr>))))"

definition require_policy_capacity :: "int \<Rightarrow> unit admitting" where
  "require_policy_capacity candidate_bytes =
     ask (\<lambda>s. require (length (ad_cache s) < MAX_POLICY_SOURCES \<and> 0 \<le> candidate_bytes
                 \<and> int (ad_loaded_bytes s) + candidate_bytes \<le> int MAX_POLICY_BYTES)
           RepositoryPolicyInvalid)"

definition read_policy_bytes :: "host \<Rightarrow> abs_path \<Rightarrow> byte list admitting" where
  "read_policy_bytes h source =
     seq (path_read h (MAX_POLICY_SOURCE_BYTES + 1) source)
       (\<lambda>payload. case payload of None \<Rightarrow> raise RepositoryPolicyInvalid | Some bs \<Rightarrow> ret bs)"

definition parse_policy :: "git_ignore \<Rightarrow> byte list \<Rightarrow> repository_error + policy_rules" where
  "parse_policy git payload =
     (case utf8_decode payload of
        None \<Rightarrow> Inl RepositoryPolicyInvalid
      | Some tx \<Rightarrow>
          if 0 \<in> set tx then Inl RepositoryPolicyInvalid
          else case compile_policy_rules git (py_split 10 tx) of
                 Inl _ \<Rightarrow> Inl RepositoryPolicyInvalid
               | Inr rules \<Rightarrow> Inr rules)"

definition load_new_policy ::
  "host \<Rightarrow> git_ignore \<Rightarrow> workspace_boundary \<Rightarrow> captured_owner \<Rightarrow> policy_source
     \<Rightarrow> policy_rules admitting" where
  "load_new_policy h git b owner first_source =
     next_do (require_policy_capacity (src_size first_source))
     (next_do (require_same_owner h b owner)
     (seq (policy_leaf_is_present h (policy_candidate_path b (co_components owner))) (\<lambda>present.
      next_do (require present RepositoryPolicyInvalid)
     (seq (resolve_policy_source h b (child_label (co_components owner) (lit ''.gitignore'')))
       (\<lambda>current_source.
      next_do (require (src_path current_source = src_path first_source) RepositoryPolicyInvalid)
     (next_do (require_policy_capacity (src_size current_source))
     (seq (read_policy_bytes h (src_absolute current_source)) (\<lambda>payload.
      ask (\<lambda>s.
      next_do (require (length payload \<le> MAX_POLICY_SOURCE_BYTES
                  \<and> ad_loaded_bytes s + length payload \<le> MAX_POLICY_BYTES) RepositoryPolicyInvalid)
     (seq (lift_result (parse_policy git payload)) (\<lambda>parsed.
      next_do (update (\<lambda>s. s\<lparr>ad_cache := ad_cache s @ [(src_path current_source, parsed)],
                             ad_loaded_bytes := ad_loaded_bytes s + length payload\<rparr>))
        (ret parsed))))))))))))"

definition load_policy ::
  "host \<Rightarrow> git_ignore \<Rightarrow> workspace_boundary \<Rightarrow> captured_owner \<Rightarrow> policy_rules option admitting" where
  "load_policy h git b owner =
     next_do (require_same_owner h b owner)
     (seq (policy_leaf_is_present h (policy_candidate_path b (co_components owner))) (\<lambda>present.
      if \<not> present then ret None
      else seq (resolve_policy_source h b (child_label (co_components owner) (lit ''.gitignore'')))
        (\<lambda>first_source. ask (\<lambda>s.
           case map_of (ad_cache s) (src_path first_source) of
             Some cached \<Rightarrow> ret (Some cached)
           | None \<Rightarrow> seq (load_new_policy h git b owner first_source)
                       (\<lambda>parsed. ret (Some parsed))))))"

subsection \<open>Admission\<close>

text \<open>The owner loop of \<open>_prepare_ignore_view\<close>, over the remaining depths.\<close>

fun ignore_view_loop ::
  "host \<Rightarrow> git_ignore \<Rightarrow> workspace_boundary \<Rightarrow> ustr list \<Rightarrow> nat list \<Rightarrow> scoped_policy list
     \<Rightarrow> scoped_policy list admitting" where
  "ignore_view_loop h git b components [] rules = ret rules"
| "ignore_view_loop h git b components (depth # depths) rules =
     (let owner_components = take depth components in
      seq (is_ignored rules owner_components True) (\<lambda>ignored.
      next_do (require (\<not> ignored) RepositoryPathIgnored)
     (seq (attempt (capture_owner h b owner_components)) (\<lambda>captured.
      case captured of
        Inl e \<Rightarrow>
          if e \<noteq> RepositoryPathNotFound then raise e
          else seq (ignored_both rules components) (\<lambda>(as_file, as_directory).
            if as_file \<and> as_directory then raise RepositoryPathIgnored else raise e)
      | Inr owner \<Rightarrow>
          seq (load_policy h git b owner) (\<lambda>nested.
            ignore_view_loop h git b components depths
              (case nested of None \<Rightarrow> rules
               | Some policy \<Rightarrow> rules @ [\<lparr>sp_owner = owner_components, sp_rules = policy\<rparr>]))))))"

definition prepare_ignore_view ::
  "host \<Rightarrow> git_ignore \<Rightarrow> workspace_boundary \<Rightarrow> ustr list \<Rightarrow> scoped_policy list admitting" where
  "prepare_ignore_view h git b components =
     seq (capture_owner h b []) (\<lambda>root_owner.
     seq (load_policy h git b root_owner) (\<lambda>root_policy.
       ignore_view_loop h git b components [1..<length components]
         (case root_policy of None \<Rightarrow> []
          | Some policy \<Rightarrow> [\<lparr>sp_owner = [], sp_rules = policy\<rparr>])))"

definition supported_kind :: "host \<Rightarrow> resolved_path \<Rightarrow> repository_kind admitting" where
  "supported_kind h resolved =
     seq (stat_or RepositoryPathUnavailable h True (rp_absolute resolved)) (\<lambda>st.
       if st_kind st = RegularFile then ret KindFile
       else if st_kind st = Directory then ret KindDirectory
       else raise RepositoryPathUnavailable)"

definition leaf_is_symlink ::
  "host \<Rightarrow> workspace_boundary \<Rightarrow> ustr list \<Rightarrow> bool admitting" where
  "leaf_is_symlink h b components =
     (if components = [] then ret False
      else
       seq (resolve_or RepositoryPathUnavailable h b (path_label (butlast components))) (\<lambda>parent.
       seq (stat_or RepositoryPathUnavailable h True (rp_absolute parent)) (\<lambda>parent_stat.
       next_do (require (\<not> is_hard_denied_path (label_parts (rp_relative parent))
                   \<and> st_kind parent_stat = Directory) RepositoryPathUnavailable)
      (seq (stat_or RepositoryPathUnavailable h False (rp_absolute parent @ [last components]))
        (\<lambda>leaf_stat. ret (st_kind leaf_stat = SymbolicLink))))))"

definition finalize_snapshot ::
  "host \<Rightarrow> workspace_boundary \<Rightarrow> ustr list \<Rightarrow> ustr \<Rightarrow> resolved_path \<Rightarrow> repository_kind
     \<Rightarrow> bool admitting" where
  "finalize_snapshot h b components label expected expected_kind =
     seq (leaf_is_symlink h b components) (\<lambda>is_symlink.
     seq (resolve_requested h b label) (\<lambda>current.
     next_do (require (\<not> is_hard_denied_path (label_parts (rp_relative current)))
       RepositoryPathUnavailable)
     (if rp_relative current \<noteq> rp_relative expected then raise RepositoryPathUnavailable
      else seq (supported_kind h current) (\<lambda>kind.
        next_do (require (kind = expected_kind) RepositoryPathUnavailable)
          (ret is_symlink)))))"

definition admit_resolved ::
  "host \<Rightarrow> git_ignore \<Rightarrow> workspace_boundary \<Rightarrow> ustr list \<Rightarrow> bool \<Rightarrow> bool
     \<Rightarrow> admitted_path admitting" where
  "admit_resolved h git b lexical as_file as_directory =
     (let requested_label = path_label lexical in
      seq (resolve_requested h b requested_label) (\<lambda>resolved.
      let canonical = label_parts (rp_relative resolved) in
      next_do (require (\<not> is_hard_denied_path canonical) RepositoryPathUnavailable)
     (seq (prepare_ignore_view h git b canonical) (\<lambda>canonical_rules.
      seq (ignored_both canonical_rules canonical) (\<lambda>(canonical_file, canonical_directory).
      next_do (require (\<not> (canonical_file \<and> canonical_directory)) RepositoryPathIgnored)
     (seq (supported_kind h resolved) (\<lambda>kind.
      next_do (require (\<not> (if kind = KindDirectory then as_directory \<or> canonical_directory
                           else as_file \<or> canonical_file)) RepositoryPathIgnored)
     (seq (finalize_snapshot h b lexical requested_label resolved kind) (\<lambda>is_symlink.
        ret \<lparr>ap_path = rp_relative resolved, ap_kind = kind, ap_is_symlink = is_symlink\<rparr>)))))))))"

definition admit_existing ::
  "host \<Rightarrow> git_ignore \<Rightarrow> workspace_boundary \<Rightarrow> py_object \<Rightarrow> admitted_path admitting" where
  "admit_existing h git b path =
     seq (lift_result (case normalize_repository_path_components path of
            Inl _ \<Rightarrow> Inl InvalidRepositoryPath | Inr cs \<Rightarrow> Inr cs)) (\<lambda>lexical.
     next_do (require (\<not> is_hard_denied_path lexical) RepositoryPathUnavailable)
     (seq (prepare_ignore_view h git b lexical) (\<lambda>lexical_rules.
      seq (ignored_both lexical_rules lexical) (\<lambda>(as_file, as_directory).
      next_do (require (\<not> (as_file \<and> as_directory)) RepositoryPathIgnored)
        (admit_resolved h git b lexical as_file as_directory)))))"

subsection \<open>Which host calls an admission makes\<close>

text \<open>
  Resolutions and inspections at or below the root, as for the boundary, and content reads of at
  most one byte beyond the policy limit, of a path below the root that is not on the denial list.
\<close>

fun admission_call :: "host \<Rightarrow> workspace_boundary \<Rightarrow> host_call list \<Rightarrow> host_call \<Rightarrow> bool" where
  "admission_call h b log (ReadPath n p) =
     (n = MAX_POLICY_SOURCE_BYTES + 1 \<and> prefix (wb_root b) p
      \<and> \<not> is_hard_denied_path (drop (length (wb_root b)) p))"
| "admission_call h b log c = call_inside h (wb_root b) log c"

lemma call_inside_admission:
  "call_inside h (wb_root b) log c \<Longrightarrow> admission_call h b log c"
  by (cases c) simp_all

abbreviation confined ::
  "host \<Rightarrow> workspace_boundary \<Rightarrow> ('z host_log_scheme \<Rightarrow> 'z host_log_scheme \<Rightarrow> bool)" where
  "confined h b \<equiv> calls_obey (admission_call h b)"

named_theorems confining \<open>the host calls of an action are confined\<close>

lemmas confined_rules = obeying.moves_pure obeying.moves_attempt obeying.moves_rethrow
  obeying.moves_ask obeying.moves_next obeying.moves_option obeying.moves_sum obeying.moves_pair

lemma confined_resolve_existing [confining]: "moves (confined h b) (resolve_existing h b v)"
  by (rule moves_mono [OF moves_resolve_existing])
     (auto simp: host_only_def intro: calls_obey_mono call_inside_admission)

lemma gives_resolve_existing:
  assumes "canonical_host h"
  shows "gives (resolve_existing h b v) (snapshot_valid b)"
  unfolding gives_def
proof (intro allI impI)
  fix s q s'
  assume "resolve_existing h b v s = (Inr q, s')"
  from resolve_existing_outcome [OF assms this] show "snapshot_valid b q" by simp
qed

lemma snapshot_valid_simps:
  assumes "snapshot_valid b q"
  shows "prefix (wb_root b) (rp_absolute q)"
    and "label_parts (rp_relative q) = drop (length (wb_root b)) (rp_absolute q)"
proof -
  let ?below = "drop (length (wb_root b)) (rp_absolute q)"
  show "prefix (wb_root b) (rp_absolute q)"
    using assms by (simp only: snapshot_valid_def Let_def)
  have "normalize_workspace_relative_path (PyStr (rp_relative q)) = Inr ?below"
    using assms unfolding snapshot_valid_def Let_def by blast
  then show "label_parts (rp_relative q) = ?below"
    unfolding normalize_text_iff label_parts_def by simp
qed

lemma confined_requested [confining]:
  "moves (confined h b) (resolve_requested h b label)"
  "moves (confined h b) (resolve_or e h b label)"
  unfolding resolve_requested_def resolve_or_def
  by (intro obeying.moves_rethrow confining)+

lemma gives_requested:
  assumes "canonical_host h"
  shows "gives (resolve_requested h b label) (snapshot_valid b)"
    and "gives (resolve_or e h b label) (snapshot_valid b)"
  unfolding resolve_requested_def resolve_or_def
  by (intro gives_rethrow gives_resolve_existing assms)+

lemma confined_path_stat:
  "prefix (wb_root b) p \<Longrightarrow> moves (confined h b) (path_stat h follow p)"
  unfolding path_stat_def
  by (rule moves_mono [OF moves_host_call [of "admission_call h b"]]) (simp_all add: host_only_def)

lemma confined_stat_or [confining]:
  "prefix (wb_root b) p \<Longrightarrow> moves (confined h b) (stat_or e h follow p)"
  unfolding stat_or_def
  by (rule obeying.moves_seq [OF confined_path_stat]) (auto split: stat_reply.split intro: obeying.moves_pure)

lemma confined_require [confining]: "moves (confined h b) (require ok e)"
  by (simp add: require_def obeying.moves_pure)

lemma confined_update [confining]:
  "moves (confined h b) (update (\<lambda>s. s\<lparr>ad_match_work := f s\<rparr>))"
  "moves (confined h b) (update (\<lambda>s. s\<lparr>ad_cache := g s, ad_loaded_bytes := k s\<rparr>))"
  by (auto simp: moves_def calls_obey_def)

lemma confined_ignore_fold [confining]:
  "moves (confined h b) (ignore_fold ps target d ignored)"
proof (induction ps arbitrary: ignored)
  case Nil
  show ?case by (simp only: ignore_fold.simps obeying.moves_pure)
next
  case (Cons p ps)
  show ?case
    unfolding ignore_fold.simps Let_def
    by (intro obeying.moves_if confined_rules confining Cons)
qed

lemma confined_is_ignored [confining]:
  "moves (confined h b) (is_ignored ps target d)"
  "moves (confined h b) (ignored_both ps target)"
  unfolding is_ignored_def ignored_both_def
  by (intro obeying.moves_seq confined_rules confining)+

lemma confined_capture_owner [confining]:
  assumes "canonical_host h"
  shows "moves (confined h b) (capture_owner h b cs)"
  unfolding capture_owner_def
  by (rule obeying.moves_seq_with [OF confined_requested(1) gives_requested(1) [OF assms]])
     (intro obeying.moves_seq confined_rules confining snapshot_valid_simps; assumption)

lemma confined_require_same_owner [confining]:
  assumes "canonical_host h"
  shows "moves (confined h b) (require_same_owner h b owner)"
  unfolding require_same_owner_def
  by (rule obeying.moves_seq_with [OF confined_requested(2) gives_requested(2) [OF assms]])
     (intro obeying.moves_seq confined_rules confining snapshot_valid_simps; assumption)

lemma confined_leaf_present [confining]:
  "moves (confined h b) (policy_leaf_is_present h (policy_candidate_path b owner))"
  unfolding policy_leaf_is_present_def
  by (rule obeying.moves_seq [OF confined_path_stat])
     (auto simp: policy_candidate_path_def split: stat_reply.split intro: obeying.moves_pure)

definition source_admissible :: "workspace_boundary \<Rightarrow> policy_source \<Rightarrow> bool" where
  "source_admissible b source \<longleftrightarrow>
     prefix (wb_root b) (src_absolute source)
     \<and> \<not> is_hard_denied_path (drop (length (wb_root b)) (src_absolute source))"

lemma confined_policy_source [confining]:
  assumes "canonical_host h"
  shows "moves (confined h b) (resolve_policy_source h b label)"
  unfolding resolve_policy_source_def
  by (rule obeying.moves_seq_with [OF confined_requested(2) gives_requested(2) [OF assms]])
     (intro obeying.moves_seq confined_rules confining snapshot_valid_simps; assumption)

lemma require_Inr_iff [simp]: "require ok e s = (Inr u, t) \<longleftrightarrow> ok \<and> t = s"
  by (auto simp: require_def)

lemma gives_policy_source:
  assumes "canonical_host h"
  shows "gives (resolve_policy_source h b label) (source_admissible b)"
  unfolding resolve_policy_source_def
proof (rule gives_seq [OF gives_requested(2) [OF assms]])
  fix q
  assume "snapshot_valid b q"
  note q = snapshot_valid_simps [OF this]
  show "gives (next_do (require (\<not> is_hard_denied_path (label_parts (rp_relative q)))
       RepositoryPolicyInvalid)
     (seq (stat_or RepositoryPolicyInvalid h True (rp_absolute q)) (\<lambda>st.
      next_do (require (st_kind st = RegularFile \<and> st_size st \<le> int MAX_POLICY_SOURCE_BYTES)
                 RepositoryPolicyInvalid)
        (ret \<lparr>src_path = rp_relative q, src_absolute = rp_absolute q,
              src_size = st_size st\<rparr>)))) (source_admissible b)"
    using q by (auto simp: gives_def seq_Inr_iff next_do_Inr_iff source_admissible_def)
qed

lemma confined_read [confining]:
  assumes "source_admissible b source"
  shows "moves (confined h b) (read_policy_bytes h (src_absolute source))"
proof -
  have "moves (confined h b) (path_read h (MAX_POLICY_SOURCE_BYTES + 1) (src_absolute source))"
    unfolding path_read_def
    by (rule moves_mono [OF moves_host_call [of "admission_call h b"]])
       (use assms in \<open>simp_all add: host_only_def source_admissible_def\<close>)
  then show ?thesis unfolding read_policy_bytes_def
    by (intro obeying.moves_seq confined_rules)
qed

lemma confined_load_new_policy [confining]:
  assumes "canonical_host h"
  shows "moves (confined h b) (load_new_policy h git b owner first_source)"
  unfolding load_new_policy_def require_policy_capacity_def
  by (intro confined_rules confining assms obeying.moves_seq [OF confined_leaf_present]
        obeying.moves_seq_with [OF confined_policy_source [OF assms] gives_policy_source [OF assms]])
     (intro obeying.moves_seq confined_rules confining; assumption)

lemma confined_load_policy [confining]:
  assumes "canonical_host h"
  shows "moves (confined h b) (load_policy h git b owner)"
  unfolding load_policy_def
  by (intro obeying.moves_seq obeying.moves_if confined_rules confining assms)

lemma confined_ignore_view_loop [confining]:
  assumes "canonical_host h"
  shows "moves (confined h b) (ignore_view_loop h git b components depths rules)"
proof (induction depths arbitrary: rules)
  case Nil
  show ?case by (simp only: ignore_view_loop.simps obeying.moves_pure)
next
  case (Cons depth depths)
  show ?case
    unfolding ignore_view_loop.simps Let_def
    by (intro obeying.moves_seq obeying.moves_if confined_rules confining assms Cons)
qed

lemma confined_prepare_ignore_view [confining]:
  "canonical_host h \<Longrightarrow> moves (confined h b) (prepare_ignore_view h git b components)"
  unfolding prepare_ignore_view_def by (intro obeying.moves_seq confining)

lemma confined_supported_kind [confining]:
  "prefix (wb_root b) (rp_absolute q) \<Longrightarrow> moves (confined h b) (supported_kind h q)"
  unfolding supported_kind_def
  by (intro obeying.moves_seq obeying.moves_if confined_rules confining)

lemma confined_leaf_is_symlink [confining]:
  assumes "canonical_host h"
  shows "moves (confined h b) (leaf_is_symlink h b components)"
proof -
  have "moves (confined h b) (seq (stat_or RepositoryPathUnavailable h True (rp_absolute parent))
      (\<lambda>parent_stat. next_do (require (\<not> is_hard_denied_path (label_parts (rp_relative parent))
                   \<and> st_kind parent_stat = Directory) RepositoryPathUnavailable)
      (seq (stat_or RepositoryPathUnavailable h False (rp_absolute parent @ [last components]))
        (\<lambda>leaf_stat. ret (st_kind leaf_stat = SymbolicLink)))))"
    if "snapshot_valid b parent" for parent
  proof -
    have "prefix (wb_root b) (rp_absolute parent)"
      "prefix (wb_root b) (rp_absolute parent @ [last components])"
      using snapshot_valid_simps(1) [OF that] by (simp_all add: prefix_prefix)
    then show ?thesis by (intro obeying.moves_seq confined_rules confining)
  qed
  then show ?thesis
    unfolding leaf_is_symlink_def
    by (intro obeying.moves_if obeying.moves_pure
        obeying.moves_seq_with [OF confined_requested(2) gives_requested(2) [OF assms]])
qed

lemma confined_finalize [confining]:
  assumes "canonical_host h"
  shows "moves (confined h b) (finalize_snapshot h b components label expected kind)"
  unfolding finalize_snapshot_def
  by (intro obeying.moves_seq [OF confined_leaf_is_symlink [OF assms]]
        obeying.moves_seq_with [OF confined_requested(1) gives_requested(1) [OF assms]])
     (intro obeying.moves_seq obeying.moves_if confined_rules confining assms snapshot_valid_simps;
      assumption)

lemma confined_admit_resolved [confining]:
  assumes "canonical_host h"
  shows "moves (confined h b) (admit_resolved h git b lexical as_file as_directory)"
  unfolding admit_resolved_def Let_def
  by (intro obeying.moves_seq_with [OF confined_requested(1) gives_requested(1) [OF assms]])
     (intro obeying.moves_seq confined_rules confining assms snapshot_valid_simps; assumption)

lemma confined_admit_existing:
  assumes "canonical_host h"
  shows "moves (confined h b) (admit_existing h git b path)"
  unfolding admit_existing_def
  by (intro obeying.moves_seq confined_rules confining assms)

subsection \<open>The budgets of a decision\<close>

definition within_budget :: "admission \<Rightarrow> bool" where
  "within_budget s \<longleftrightarrow>
     length (ad_cache s) \<le> MAX_POLICY_SOURCES \<and> ad_loaded_bytes s \<le> MAX_POLICY_BYTES
     \<and> ad_match_work s \<le> MAX_POLICY_MATCH_WORK"

text \<open>Actions that only talk to the host leave the cache and the counters alone.\<close>

definition same_budget :: "admission \<Rightarrow> admission \<Rightarrow> bool" where
  "same_budget s t \<longleftrightarrow> ad_cache t = ad_cache s \<and> ad_loaded_bytes t = ad_loaded_bytes s
     \<and> ad_match_work t = ad_match_work s"

definition budget_kept :: "admission \<Rightarrow> admission \<Rightarrow> bool" where
  "budget_kept s t \<longleftrightarrow> (within_budget s \<longrightarrow> within_budget t)"

interpretation unbudgeted: action_order same_budget
  by unfold_locales (simp_all add: same_budget_def)

interpretation budgeted: action_order budget_kept
  by unfold_locales (simp_all add: budget_kept_def)

named_theorems host_talk \<open>actions that only talk to the host\<close>

lemma host_only_same_budget:
  assumes "host_only ok s t"
  shows "same_budget s t"
proof -
  from assms obtain log where "t = s\<lparr>calls := log\<rparr>" unfolding host_only_def by blast
  then show ?thesis by (simp add: same_budget_def)
qed

lemma host_talk_paths [host_talk]:
  "moves same_budget (path_stat h follow p)" "moves same_budget (path_read h n p)"
  by (simp_all add: moves_def same_budget_def)

lemma host_talk_resolve [host_talk]: "moves same_budget (resolve_existing h b v)"
  by (rule moves_mono [OF moves_resolve_existing host_only_same_budget])

lemma host_talk_basic [host_talk]:
  "moves same_budget (resolve_requested h b label)" "moves same_budget (resolve_or e h b label)"
  "moves same_budget (stat_or e h follow p)" "moves same_budget (require ok e)"
  unfolding resolve_requested_def resolve_or_def stat_or_def require_def
  by (auto intro!: unbudgeted.moves_rethrow unbudgeted.moves_seq unbudgeted.moves_if
      host_talk_paths host_talk_resolve unbudgeted.moves_pure split: stat_reply.split)

lemma host_talk_owner [host_talk]:
  "moves same_budget (capture_owner h b cs)" "moves same_budget (require_same_owner h b owner)"
  "moves same_budget (resolve_policy_source h b label)"
  "moves same_budget (supported_kind h q)"
  unfolding capture_owner_def require_same_owner_def resolve_policy_source_def supported_kind_def
  by (intro unbudgeted.moves_seq unbudgeted.moves_next unbudgeted.moves_if unbudgeted.moves_pure
      host_talk)+

lemma host_talk_leaf [host_talk]:
  "moves same_budget (policy_leaf_is_present h p)" "moves same_budget (read_policy_bytes h p)"
  "moves same_budget (leaf_is_symlink h b cs)"
  "moves same_budget (finalize_snapshot h b cs label expected kind)"
  unfolding policy_leaf_is_present_def read_policy_bytes_def leaf_is_symlink_def
    finalize_snapshot_def
  by (auto intro!: unbudgeted.moves_seq unbudgeted.moves_next unbudgeted.moves_if
      unbudgeted.moves_pure host_talk split: stat_reply.split option.split)

text \<open>\<open>P\<close> looks only at the cache and the counters.\<close>

definition budget_only :: "(admission \<Rightarrow> bool) \<Rightarrow> bool" where
  "budget_only P \<longleftrightarrow> (\<forall>s t. same_budget s t \<longrightarrow> P s \<longrightarrow> P t)"

lemma establishes_host_talk:
  "moves same_budget m \<Longrightarrow> budget_only P \<Longrightarrow> establishes P m (\<lambda>_. P) (\<lambda>_. P)"
  unfolding establishes_def budget_only_def
  by (auto split: sum.split dest: movesD)

definition has_room :: "admission \<Rightarrow> bool" where
  "has_room s \<longleftrightarrow> within_budget s \<and> length (ad_cache s) < MAX_POLICY_SOURCES"

lemma budget_only_intros: "budget_only within_budget" "budget_only has_room"
  by (simp_all add: budget_only_def same_budget_def within_budget_def has_room_def)

lemma same_budget_kept: "moves same_budget m \<Longrightarrow> moves budget_kept m"
  by (erule moves_mono) (simp add: same_budget_def budget_kept_def within_budget_def)

lemma budget_kept_if_established:
  assumes "establishes within_budget m (\<lambda>_. within_budget) (\<lambda>_. within_budget)"
  shows "moves budget_kept m"
  unfolding moves_def
proof
  fix s
  obtain r t where "m s = (r, t)" by (cases "m s")
  with assms show "budget_kept s (snd (m s))"
    by (cases r) (auto simp: budget_kept_def dest: establishesD)
qed

lemma load_new_policy_budget: "moves budget_kept (load_new_policy h git b owner source)"
proof -
  have capacity: "establishes P (require_policy_capacity n) (\<lambda>_. has_room) (\<lambda>_. within_budget)"
    if "P = within_budget \<or> P = has_room" for P n
    using that by (auto simp: establishes_def require_policy_capacity_def require_def has_room_def)
  have talk: "establishes has_room m (\<lambda>_. has_room) (\<lambda>_. within_budget)"
    if "moves same_budget m" for m :: "'x admitting"
    by (rule establishes_weaken [OF establishes_host_talk [OF that budget_only_intros(2)]])
       (simp_all add: has_room_def)
  have commit: "establishes has_room
      (ask (\<lambda>s. next_do (require (length payload \<le> MAX_POLICY_SOURCE_BYTES
                  \<and> ad_loaded_bytes s + length payload \<le> MAX_POLICY_BYTES) RepositoryPolicyInvalid)
       (seq (lift_result (parse_policy git payload)) (\<lambda>parsed.
        next_do (update (\<lambda>s. s\<lparr>ad_cache := ad_cache s @ [(p, parsed)],
                             ad_loaded_bytes := ad_loaded_bytes s + length payload\<rparr>))
        (ret parsed))))) (\<lambda>_. within_budget) (\<lambda>_. within_budget)" for payload p
    by (auto simp: establishes_def seq_simps require_def has_room_def within_budget_def
        split: sum.split)
  show ?thesis
    unfolding load_new_policy_def
    by (intro budget_kept_if_established establishes_next [OF capacity] establishes_next [OF talk]
          establishes_seq [OF talk] commit host_talk) simp_all
qed

lemma ignore_fold_budget: "moves budget_kept (ignore_fold ps target d ignored)"
proof (induction ps arbitrary: ignored)
  case Nil
  show ?case by (simp only: ignore_fold.simps budgeted.moves_pure)
next
  case (Cons p ps)
  have step: "budget_kept s (snd ((case c of None \<Rightarrow> raise RepositoryPolicyInvalid
       | Some None \<Rightarrow> ignore_fold ps target d ignored
       | Some (Some e) \<Rightarrow> ignore_fold ps target d (Some e)) s))" for c s
    using Cons by (auto simp: moves_def budgeted.order_refl split: option.split)
  show ?case
    unfolding moves_def
  proof
    fix s
    show "budget_kept s (snd (ignore_fold (p # ps) target d ignored s))"
      using Cons step
      by (auto simp: Let_def seq_simps moves_def budget_kept_def within_budget_def)
  qed
qed

lemma ignored_budget:
  "moves budget_kept (is_ignored ps target d)" "moves budget_kept (ignored_both ps target)"
  unfolding is_ignored_def ignored_both_def
  by (intro budgeted.moves_seq budgeted.moves_pure ignore_fold_budget)+

lemma load_policy_budget: "moves budget_kept (load_policy h git b owner)"
  unfolding load_policy_def
  by (intro budgeted.move_rules load_new_policy_budget same_budget_kept [OF host_talk_owner(2)]
      same_budget_kept [OF host_talk_leaf(1)] same_budget_kept [OF host_talk_owner(3)])

lemma ignore_view_budget: "moves budget_kept (ignore_view_loop h git b cs depths rules)"
proof (induction depths arbitrary: rules)
  case Nil
  show ?case by (simp only: ignore_view_loop.simps budgeted.moves_pure)
next
  case (Cons depth depths)
  show ?case
    unfolding ignore_view_loop.simps Let_def
    by (intro budgeted.move_rules load_policy_budget ignored_budget Cons
        same_budget_kept [OF host_talk_owner(1)] same_budget_kept [OF host_talk_basic(4)])
qed

lemma prepare_budget: "moves budget_kept (prepare_ignore_view h git b cs)"
  unfolding prepare_ignore_view_def
  by (intro budgeted.moves_seq load_policy_budget ignore_view_budget
      same_budget_kept [OF host_talk_owner(1)])

lemma admit_existing_budget: "moves budget_kept (admit_existing h git b path)"
  unfolding admit_existing_def admit_resolved_def Let_def
  by (intro budgeted.move_rules prepare_budget ignored_budget same_budget_kept [OF host_talk_basic(1)]
      same_budget_kept [OF host_talk_basic(4)] same_budget_kept [OF host_talk_owner(4)]
      same_budget_kept [OF host_talk_leaf(4)])

subsection \<open>The ignore decision is the last match\<close>

text \<open>
  The reference reading: of all patterns of the policies whose owner is a proper ancestor of the
  target, in root-to-nearest order, those that match the entry itself decide, the last one wins.
\<close>

definition in_scope :: "scoped_policy \<Rightarrow> ustr list \<Rightarrow> bool" where
  "in_scope p target \<longleftrightarrow> strict_prefix (sp_owner p) target"

definition scope_rules :: "bool \<Rightarrow> scoped_policy \<Rightarrow> ustr list \<Rightarrow> ignore_pattern list" where
  "scope_rules d p target =
     (if in_scope p target then (if d then rules_directory (sp_rules p) else rules_file (sp_rules p))
      else [])"

definition scope_label :: "scoped_policy \<Rightarrow> ustr list \<Rightarrow> ustr" where
  "scope_label p target = py_join (lit ''/'') (drop (length (sp_owner p)) target)"

definition entry_decisions :: "ignore_pattern list \<Rightarrow> ustr \<Rightarrow> bool list" where
  "entry_decisions rules label =
     map (\<lambda>p. the (ip_include p))
       (filter (\<lambda>p. ip_include p \<noteq> None \<and> ip_match p label = EntryMatch) rules)"

definition all_decisions :: "bool \<Rightarrow> scoped_policy list \<Rightarrow> ustr list \<Rightarrow> bool list" where
  "all_decisions d ps target =
     concat (map (\<lambda>p. entry_decisions (scope_rules d p target) (scope_label p target)) ps)"

definition match_cost :: "bool \<Rightarrow> scoped_policy list \<Rightarrow> ustr list \<Rightarrow> nat" where
  "match_cost d ps target = sum_list (map (\<lambda>p. length (scope_rules d p target)) ps)"

definition matcher_returns :: "bool \<Rightarrow> ustr list \<Rightarrow> scoped_policy \<Rightarrow> bool" where
  "matcher_returns d target p \<longleftrightarrow>
     list_all (\<lambda>q. ip_include q \<noteq> None \<longrightarrow> ip_match q (scope_label p target) \<noteq> MatchRaises)
       (scope_rules d p target)"

definition last_or :: "bool option \<Rightarrow> bool list \<Rightarrow> bool option" where
  "last_or ignored ds = (if ds = [] then ignored else Some (last ds))"

lemma last_or_append: "last_or ignored (as @ bs) = last_or (last_or ignored as) bs"
  by (simp add: last_or_def)

lemma last_or_Cons: "last_or ignored (a # bs) = last_or (Some a) bs"
  by (simp add: last_or_def)

lemma check_policy_loop_decisions:
  "list_all (\<lambda>q. ip_include q \<noteq> None \<longrightarrow> ip_match q label \<noteq> MatchRaises) rules \<Longrightarrow>
     check_policy_loop rules label decision = Some (last_or decision (entry_decisions rules label))"
proof (induction rules arbitrary: decision)
  case Nil
  then show ?case by (simp add: entry_decisions_def last_or_def)
next
  case (Cons p rules)
  then show ?case
    by (cases "ip_include p"; cases "ip_match p label")
       (simp_all add: entry_decisions_def last_or_Cons)
qed

lemma in_scope_iff:
  "in_scope p target \<longleftrightarrow>
     take (length (sp_owner p)) target = sp_owner p \<and> drop (length (sp_owner p)) target \<noteq> []"
  unfolding in_scope_def strict_prefix_def prefix_def
  by (metis append_eq_conv_conj append_take_drop_id self_append_conv)

lemma last_or_check: "(case last_or None ds of None \<Rightarrow> f ignored | Some e \<Rightarrow> f (Some e))
    = f (last_or ignored ds)"
  by (simp add: last_or_def)

lemma ignore_fold_result:
  assumes "list_all (matcher_returns d target) ps"
  shows "if ad_match_work s + match_cost d ps target \<le> MAX_POLICY_MATCH_WORK
     then ignore_fold ps target d ignored s
       = (Inr (last_or ignored (all_decisions d ps target)),
          s\<lparr>ad_match_work := ad_match_work s + match_cost d ps target\<rparr>)
     else fst (ignore_fold ps target d ignored s) = Inl RepositoryPolicyInvalid
       \<or> ad_match_work s > MAX_POLICY_MATCH_WORK"
  using assms
proof (induction ps arbitrary: ignored s)
  case Nil
  then show ?case by (simp add: last_or_def all_decisions_def match_cost_def)
next
  case (Cons p ps)
  show ?case
  proof (cases "in_scope p target")
    case False
    then have "ignore_fold (p # ps) target d ignored = ignore_fold ps target d ignored"
      using in_scope_iff [of p target] by (auto simp: Let_def)
    moreover have "all_decisions d (p # ps) target = all_decisions d ps target"
      "match_cost d (p # ps) target = match_cost d ps target"
      using False by (simp_all add: all_decisions_def match_cost_def scope_rules_def entry_decisions_def)
    ultimately show ?thesis using Cons by simp
  next
    case True
    define n where "n = length (scope_rules d p target)"
    define ds where "ds = entry_decisions (scope_rules d p target) (scope_label p target)"
    let ?t = "s\<lparr>ad_match_work := ad_match_work s + n\<rparr>"
    have check: "check_policy (scope_rules d p target) (scope_label p target) = Some (last_or None ds)"
      using Cons.prems by (simp add: check_policy_def check_policy_loop_decisions matcher_returns_def ds_def)
    have step: "ignore_fold (p # ps) target d ignored s =
        (if ad_match_work s + n > MAX_POLICY_MATCH_WORK then (Inl RepositoryPolicyInvalid, s)
         else ignore_fold ps target d (last_or ignored ds) ?t)"
      using True check in_scope_iff [of p target]
      by (auto simp: Let_def seq_simps n_def scope_rules_def scope_label_def last_or_def
          split: option.split)
    have sums: "all_decisions d (p # ps) target = ds @ all_decisions d ps target"
      "match_cost d (p # ps) target = n + match_cost d ps target"
      by (simp_all add: all_decisions_def match_cost_def ds_def n_def)
    from Cons.prems have "list_all (matcher_returns d target) ps" by simp
    note IH = Cons.IH [OF this, of ?t "last_or ignored ds"]
    show ?thesis
    proof (cases "ad_match_work s + n > MAX_POLICY_MATCH_WORK")
      case True
      then show ?thesis by (simp add: step sums del: ignore_fold.simps)
    next
      case False
      with IH show ?thesis
        by (auto simp: step sums last_or_append add.assoc simp del: ignore_fold.simps split: if_splits)
    qed
  qed
qed

subsection \<open>An example admission\<close>

text \<open>On the example host, without any policy file, the directory \<open>a\<close> is admitted.\<close>

lemma example_label_checks:
  "and_then (path_like_string (PlainPath (PyStr [46]))) normalize_workspace_relative_path = Inr []"
  "and_then (path_like_string (PlainPath (PyStr [97]))) normalize_workspace_relative_path = Inr [[97]]"
  by (simp_all add: path_like_string_def normalize_eval)

lemma example_snapshots:
  "snapshot_of example_boundary [[119]] = Inr \<lparr>rp_absolute = [[119]], rp_relative = [46]\<rparr>"
  "snapshot_of example_boundary [[119], [97]]
     = Inr \<lparr>rp_absolute = [[119], [97]], rp_relative = [97]\<rparr>"
  by (simp_all add: snapshot_of_def path_label_def example_boundary_def normalize_eval Let_def)

lemma example_components:
  "resolve_target example_host example_boundary [] s = (Inr [[119]], s)"
  "resolve_target example_host example_boundary [[97]] s
     = (Inr [[119], [97]], s\<lparr>calls := calls s @ [ResolvePath True [[119], [97]]]\<rparr>)"
  by (simp_all add: resolve_target_def seq_simps example_host_simps)

lemma example_resolve:
  "resolve_existing example_host example_boundary (PlainPath (PyStr [46])) s
     = (Inr \<lparr>rp_absolute = [[119]], rp_relative = [46]\<rparr>,
        s\<lparr>calls := calls s @ [ResolvePath True [[119]], StatPath True [[119]],
                              ResolvePath True [[119]], StatPath True [[119]]]\<rparr>)"
  "resolve_existing example_host example_boundary (PlainPath (PyStr [97])) s
     = (Inr \<lparr>rp_absolute = [[119], [97]], rp_relative = [97]\<rparr>,
        s\<lparr>calls := calls s @ [ResolvePath True [[119]], StatPath True [[119]],
             ResolvePath True [[119], [97]], ResolvePath True [[119]], StatPath True [[119]]]\<rparr>)"
  unfolding resolve_existing_def seq_lift_Inr [OF example_label_checks(1)]
    seq_lift_Inr [OF example_label_checks(2)]
  by (simp_all add: seq_simps attempt_def example_components example_snapshots
      example_root_check [simplified])

lemma example_stats:
  "answer_stat example_host log True [[119]]
     = StatOk \<lparr>st_kind = Directory, st_dev = 1, st_ino = 2, st_size = 0\<rparr>"
  "answer_stat example_host log True [[119], [97]]
     = StatOk \<lparr>st_kind = Directory, st_dev = 1, st_ino = 3, st_size = 0\<rparr>"
  "answer_stat example_host log False [[119], [97]]
     = StatOk \<lparr>st_kind = Directory, st_dev = 1, st_ino = 3, st_size = 0\<rparr>"
  "answer_stat example_host log False (policy_candidate_path example_boundary []) = StatMissing"
  by (simp_all add: example_host_simps policy_candidate_path_def)

lemma example_lexical_facts:
  "path_label [] = [46]" "path_label [[97]] = [97]" "label_parts [46] = []" "label_parts [97] = [[97]]"
  "\<not> is_hard_denied_path []" "\<not> is_hard_denied_path [[97]]"
  "normalize_repository_path_components (PyStr [97]) = Inr [[97]]"
  by (simp_all add: path_label_def label_parts_def significant_def trivial_component_def
      is_hard_denied_path_def Let_def ascii_lower_def DENIED_COMPONENTS_def DENIED_BASENAMES_def
      DOCUMENTATION_ENV_FILES_def DENIED_SUFFIXES_def starts_with_def ends_with_def
      normalize_repository_path_components_def normalize_eval)

lemma example_owner:
  "capture_owner example_host example_boundary [] s
     = (Inr \<lparr>co_components = [], co_path = [46], co_identity = (1, 2)\<rparr>,
        s\<lparr>calls := calls s @ [ResolvePath True [[119]], StatPath True [[119]],
          ResolvePath True [[119]], StatPath True [[119]], StatPath True [[119]]]\<rparr>)"
  by (simp add: capture_owner_def seq_simps resolve_requested_def rethrow_def example_resolve
      example_lexical_facts require_def stat_or_def example_stats)

lemma example_no_policy:
  "fst (load_policy example_host git example_boundary
      \<lparr>co_components = [], co_path = [46], co_identity = (1, 2)\<rparr> s) = Inr None"
  by (simp add: load_policy_def require_same_owner_def seq_simps resolve_or_def rethrow_def
      example_resolve example_lexical_facts require_def stat_or_def example_stats
      policy_leaf_is_present_def)

lemma example_view:
  assumes "length cs \<le> 1"
  shows "fst (prepare_ignore_view example_host git example_boundary cs s) = Inr []"
proof -
  have loop: "[Suc 0..<length cs] = []" using assms by simp
  let ?owner = "\<lparr>co_components = [], co_path = [46], co_identity = (1, 2)\<rparr>"
  obtain r t where t: "load_policy example_host git example_boundary ?owner
      (snd (capture_owner example_host example_boundary [] s)) = (r, t)" by (rule prod.exhaust)
  with example_no_policy [of git "snd (capture_owner example_host example_boundary [] s)"]
  have "r = Inr None" by simp
  with t show ?thesis
    by (simp add: prepare_ignore_view_def seq_simps example_owner loop del: upt_Suc)
qed

lemma example_admission:
  "fst (admit_existing example_host git example_boundary (PyStr [97]) s)
     = Inr \<lparr>ap_path = [97], ap_kind = KindDirectory, ap_is_symlink = False\<rparr>"
proof -
  have view: "\<exists>t. prepare_ignore_view example_host git example_boundary [[97]] u = (Inr [], t)" for u
    using example_view [of "[[97]]" git u] by (metis length_Cons list.size(3) One_nat_def order_refl prod.collapse)
  have none: "ignored_both [] [[97]] u = (Inr (False, False), u)" for u
    by (simp add: ignored_both_def is_ignored_def seq_simps)
  obtain t where t: "prepare_ignore_view example_host git example_boundary [[97]] s = (Inr [], t)"
    using view by blast
  obtain u where u: "resolve_requested example_host example_boundary [97] t
      = (Inr \<lparr>rp_absolute = [[119], [97]], rp_relative = [97]\<rparr>, u)"
    by (simp add: resolve_requested_def rethrow_def example_resolve)
  obtain v where v: "prepare_ignore_view example_host git example_boundary [[97]] u = (Inr [], v)"
    using view by blast
  have kind: "supported_kind example_host \<lparr>rp_absolute = [[119], [97]], rp_relative = [97]\<rparr> w
      = (Inr KindDirectory, w\<lparr>calls := calls w @ [StatPath True [[119], [97]]]\<rparr>)" for w
    by (simp add: supported_kind_def seq_simps stat_or_def example_stats)
  have final: "fst (finalize_snapshot example_host example_boundary [[97]] [97]
      \<lparr>rp_absolute = [[119], [97]], rp_relative = [97]\<rparr> KindDirectory w) = Inr False" for w
    by (simp add: finalize_snapshot_def leaf_is_symlink_def seq_simps resolve_or_def rethrow_def
        example_resolve example_lexical_facts require_def stat_or_def example_stats kind
        resolve_requested_def)
  let ?w = "v\<lparr>calls := calls v @ [StatPath True [[119], [97]]]\<rparr>"
  obtain x where x: "finalize_snapshot example_host example_boundary [[97]] [97]
      \<lparr>rp_absolute = [[119], [97]], rp_relative = [97]\<rparr> KindDirectory ?w = (Inr False, x)"
    using final [of ?w] by (metis prod.collapse)
  show ?thesis
    by (simp add: admit_existing_def admit_resolved_def seq_simps t u v x none kind Let_def
        require_def example_lexical_facts)
qed

subsection \<open>The properties of admission\<close>





text \<open>A syntactically invalid path and a lexically denied path fail before any host call and
  without touching the budgets; every other error of the lexical owner is the one syntax error.\<close>

theorem denied_before_any_call:
  "case normalize_workspace_relative_path path of
     Inl e \<Rightarrow> admit_existing h git b path s = (Inl InvalidRepositoryPath, s)
   | Inr lexical \<Rightarrow>
       if is_hard_denied_path lexical
       then admit_existing h git b path s = (Inl RepositoryPathUnavailable, s)
       else normalize_repository_path_components path = Inr lexical"
  by (auto simp: admit_existing_def seq_simps normalize_repository_path_components_def require_def
      split: sum.split)

text \<open>C23: The bounded fold over the scoped policies computes Git's reading: of all patterns of the
  policies whose owner is a proper ancestor of the target, in root-to-nearest order, the last one
  that matches the entry itself decides; the work counter grows by the number of patterns
  consulted, and a decision that would exceed the remaining work is the policy error.\<close>

theorem ignored_is_last_match:
  assumes "list_all (matcher_returns d target) ps" "ad_match_work s \<le> MAX_POLICY_MATCH_WORK"
  shows "let decisions = all_decisions d ps target; cost = match_cost d ps target in
    if ad_match_work s + cost \<le> MAX_POLICY_MATCH_WORK
    then is_ignored ps target d s
      = (Inr (decisions \<noteq> [] \<and> last decisions), s\<lparr>ad_match_work := ad_match_work s + cost\<rparr>)
    else fst (is_ignored ps target d s) = Inl RepositoryPolicyInvalid"
proof -
  obtain r t where r: "ignore_fold ps target d None s = (r, t)" by (rule prod.exhaust)
  have "is_ignored ps target d s =
      (case r of Inl e \<Rightarrow> (Inl e, t) | Inr ignored \<Rightarrow> (Inr (ignored = Some True), t))"
    by (simp add: is_ignored_def seq_simps r split: sum.split)
  with ignore_fold_result [OF assms(1), of s None] r assms(2) show ?thesis
    by (auto simp: Let_def last_or_def split: if_splits)
qed

theorem ignored_is_last_match_witness:
  "fst (is_ignored
     [\<lparr>sp_owner = [], sp_rules = \<lparr>rules_file = [\<lparr>ip_pattern = PyStr (lit ''*''), ip_include = Some True,
         ip_match = (\<lambda>_. EntryMatch)\<rparr>], rules_directory = []\<rparr>\<rparr>,
      \<lparr>sp_owner = [lit ''a''], sp_rules = \<lparr>rules_file = [\<lparr>ip_pattern = PyStr (lit ''!b''),
         ip_include = Some False, ip_match = (\<lambda>_. EntryMatch)\<rparr>], rules_directory = []\<rparr>\<rparr>]
     [lit ''a'', lit ''b''] False (new_admission [])) = Inr False"
  using ignored_is_last_match [where d = False and target = "[lit ''a'', lit ''b'']"
      and s = "new_admission []" and
      ps = "[\<lparr>sp_owner = [], sp_rules = \<lparr>rules_file = [\<lparr>ip_pattern = PyStr (lit ''*''),
          ip_include = Some True, ip_match = (\<lambda>_. EntryMatch)\<rparr>], rules_directory = []\<rparr>\<rparr>,
        \<lparr>sp_owner = [lit ''a''], sp_rules = \<lparr>rules_file = [\<lparr>ip_pattern = PyStr (lit ''!b''),
         ip_include = Some False, ip_match = (\<lambda>_. EntryMatch)\<rparr>], rules_directory = []\<rparr>\<rparr>]"]
  by (simp add: Let_def all_decisions_def match_cost_def scope_rules_def in_scope_def
      entry_decisions_def matcher_returns_def new_admission_def policy_limits ex_bool_eq)

end
