(* ===== verification/Provider_Port.thy ===== *)
theory Provider_Port
  imports Provider_Models
begin

section \<open>The provider port (provider/port.py)\<close>

text \<open>
  The protocol \<open>ProviderOperation\<close> as the interface every provider's operation satisfies: the
  locale \<open>provider_stream\<close>, whose lemmas hold for the scripted provider and for the OpenAI
  adapter, each by an interpretation on its own model.
\<close>

datatype cancellation_result = Cancelled | AlreadyClosed

subsection \<open>The contract of an operation\<close>

text \<open>
  What \<open>ProviderOperation\<close> promises to the session: whatever happens to an operation, its stream only
  grows, a closed operation stays closed and silent, and a terminal event closes it.
\<close>

locale provider_stream =
  fixes act :: "'a \<Rightarrow> 's \<Rightarrow> 's option"
    and valid :: "'s \<Rightarrow> bool"
    and closed :: "'s \<Rightarrow> bool"
    and emitted :: "'s \<Rightarrow> provider_stream_event list"
  assumes valid_step: "valid s \<Longrightarrow> act a s = Some t \<Longrightarrow> valid t"
    and closed_step: "closed s \<Longrightarrow> act a s = Some t \<Longrightarrow> closed t \<and> emitted t = emitted s"
    and stream_step: "valid s \<Longrightarrow> act a s = Some t \<Longrightarrow>
       emitted t = emitted s \<or> (\<exists>e. emitted t = emitted s @ [e])"
    and terminal_closes: "valid s \<Longrightarrow> e \<in> set (emitted s) \<Longrightarrow> is_stream_terminal e \<Longrightarrow> closed s"
begin

fun run :: "'a list \<Rightarrow> 's \<Rightarrow> 's option" where
  "run [] s = Some s"
| "run (a # as) s = (case act a s of None \<Rightarrow> None | Some t \<Rightarrow> run as t)"

lemma run_valid: "valid s \<Longrightarrow> run as s = Some t \<Longrightarrow> valid t"
  by (induction as arbitrary: s) (auto split: option.splits dest: valid_step)

lemma run_closed: "closed s \<Longrightarrow> run as s = Some t \<Longrightarrow> closed t \<and> emitted t = emitted s"
proof (induction as arbitrary: s)
  case Nil
  then show ?case by simp
next
  case (Cons a as)
  then obtain u where "act a s = Some u" "run as u = Some t" by (auto split: option.splits)
  with Cons.IH [of u] Cons.prems(1) closed_step [of s a u] show ?case by simp
qed

lemma one_terminal_step:
  assumes "valid s" "act a s = Some t" "list_all (\<lambda>e. \<not> is_stream_terminal e) (butlast (emitted s))"
  shows "list_all (\<lambda>e. \<not> is_stream_terminal e) (butlast (emitted t))"
proof (cases "emitted t = emitted s")
  case True
  with assms(3) show ?thesis by simp
next
  case False
  with stream_step [OF assms(1,2)] obtain e where e: "emitted t = emitted s @ [e]" by blast
  with False closed_step [OF _ assms(2)] have "\<not> closed s" by auto
  with terminal_closes [OF assms(1)] e show ?thesis by (auto simp: list_all_iff)
qed

lemma run_one_terminal:
  assumes "valid s" "run as s = Some t" "emitted s = []"
  shows "list_all (\<lambda>e. \<not> is_stream_terminal e) (butlast (emitted t))"
proof -
  have "valid u \<Longrightarrow> run as u = Some t \<Longrightarrow> list_all (\<lambda>e. \<not> is_stream_terminal e) (butlast (emitted u)) \<Longrightarrow>
      list_all (\<lambda>e. \<not> is_stream_terminal e) (butlast (emitted t))" for u
  proof (induction as arbitrary: u)
    case Nil
    then show ?case by simp
  next
    case (Cons a as)
    then obtain v where v: "act a u = Some v" "run as v = Some t" by (auto split: option.splits)
    with Cons show ?case using valid_step one_terminal_step by blast
  qed
  with assms show ?thesis by simp
qed

end

end
