(* ===== verification/Fake_Provider.thy ===== *)
theory Fake_Provider
  imports Provider_Port
begin

section \<open>The scripted provider (provider/fake.py, provider/port.py)\<close>

text \<open>
  The deterministic provider: script validation, request matching and the single-use operation.
  The operation is a state with one function per atomic segment of its coroutines, a segment
  being the code between two points where the coroutine can suspend. The locks are never
  contended inside a segment (no critical section awaits), so they are not part of the state;
  \<open>_next_lock\<close> is the condition that \<open>__anext__\<close> starts only when no other one is suspended. Where
  two wake-ups are possible, both are steps, so every interleaving the event loop can choose is a
  run of the model.
\<close>

subsection \<open>Scripts\<close>

datatype fake_step =
    FakeProviderEmit provider_stream_event
  | FakeProviderDelay ustr
  | FakeProviderWaitForCancellation ustr

definition validate_checkpoint_name :: "py_object \<Rightarrow> py_error + ustr" where
  "validate_checkpoint_name checkpoint =
     (case checkpoint of
        PyStr s \<Rightarrow>
          if s = [] then Inl (ValueError ''fake provider checkpoint must not be empty'')
          else if length s > 256
          then Inl (ValueError ''fake provider checkpoint must contain at most 256 characters'')
          else if list_ex (\<lambda>c. c < 32 \<or> 127 \<le> c \<and> c \<le> 159) s
          then Inl (ValueError ''fake provider checkpoint must not contain terminal controls'')
          else Inr s
      | _ \<Rightarrow> Inl (TypeError ''fake provider checkpoint must be a string''))"

definition make_delay :: "py_object \<Rightarrow> py_error + fake_step" where
  "make_delay c = and_then (validate_checkpoint_name c) (\<lambda>s. Inr (FakeProviderDelay s))"

definition make_wait_for_cancellation :: "py_object \<Rightarrow> py_error + fake_step" where
  "make_wait_for_cancellation c =
     and_then (validate_checkpoint_name c) (\<lambda>s. Inr (FakeProviderWaitForCancellation s))"

fun checkpoint_of :: "fake_step \<Rightarrow> ustr option" where
  "checkpoint_of (FakeProviderEmit _) = None"
| "checkpoint_of (FakeProviderDelay c) = Some c"
| "checkpoint_of (FakeProviderWaitForCancellation c) = Some c"

fun is_emit :: "fake_step \<Rightarrow> bool" where
  "is_emit (FakeProviderEmit _) = True"
| "is_emit _ = False"

fun is_cancellation :: "fake_step \<Rightarrow> bool" where
  "is_cancellation (FakeProviderWaitForCancellation _) = True"
| "is_cancellation _ = False"

fun is_terminal_emit :: "fake_step \<Rightarrow> bool" where
  "is_terminal_emit (FakeProviderEmit e) = is_stream_terminal e"
| "is_terminal_emit _ = False"

definition step_indexes :: "(fake_step \<Rightarrow> bool) \<Rightarrow> fake_step list \<Rightarrow> nat list" where
  "step_indexes f steps = filter (\<lambda>i. f (steps ! i)) [0..<length steps]"

definition validate_steps :: "fake_step py_tuple \<Rightarrow> py_error + fake_step list" where
  "validate_steps arg =
     (case arg of
        None \<Rightarrow> Inl (TypeError ''fake provider exchange steps must be a tuple'')
      | Some items \<Rightarrow>
          if items = [] then Inl (ValueError ''fake provider exchange steps must not be empty'')
          else if list_ex (\<lambda>i. i = None) items
          then Inl (TypeError ''fake provider exchange contains an unsupported step'')
          else
            let steps = map the items;
                cancellations = step_indexes is_cancellation steps;
                terminals = step_indexes is_terminal_emit steps in
            if \<not> distinct (List.map_filter checkpoint_of steps)
            then Inl (ValueError
                   ''fake provider checkpoint names must be unique within an exchange'')
            else if length cancellations > 1
            then Inl (ValueError
                   ''fake provider exchange may contain only one cancellation checkpoint'')
            else if cancellations \<noteq> [] then
              if list_ex (\<lambda>i. i < hd cancellations) terminals
              then Inl (ValueError ''fake provider terminal event cannot precede cancellation'')
              else if list_ex (\<lambda>s. \<not> is_emit s) (drop (hd cancellations + 1) steps)
              then Inl (ValueError
                ''only cancellation-suppressed emit steps may follow a cancellation checkpoint'')
              else Inr steps
            else if terminals \<noteq> [length steps - 1]
            then Inl (ValueError
              ''fake provider non-cancellation exchange must end with one terminal event'')
            else Inr steps)"

record fake_exchange =
  ex_request :: provider_request
  ex_steps :: "fake_step list"

definition FakeProviderExchange ::
  "provider_request option \<Rightarrow> fake_step py_tuple \<Rightarrow> py_error + fake_exchange" where
  "FakeProviderExchange expected steps =
     (case expected of
        None \<Rightarrow> Inl (TypeError ''fake provider exchange requires a provider request'')
      | Some request \<Rightarrow>
          and_then (validate_steps steps)
            (\<lambda>ss. Inr \<lparr>ex_request = request, ex_steps = ss\<rparr>))"

subsection \<open>The scripted operation\<close>


datatype fake_consumer = ConsumerIdle | ConsumerInDelay ustr | ConsumerInCancellation ustr

record scripted_operation =
  so_exchange_number :: nat
  so_steps :: "fake_step list"
  so_step_index :: nat
  so_events_claimed :: bool
  so_closed :: bool
  so_next_active :: bool
  so_cancel_requested :: bool
  so_cancelled_at :: "ustr option"
  so_reached :: "ustr list"
  so_released :: "ustr list"
  so_consumer :: fake_consumer
  so_emitted :: "provider_stream_event list"

definition new_operation :: "nat \<Rightarrow> fake_step list \<Rightarrow> scripted_operation" where
  "new_operation number steps =
     \<lparr>so_exchange_number = number, so_steps = steps, so_step_index = 0, so_events_claimed = False,
      so_closed = False, so_next_active = False, so_cancel_requested = False,
      so_cancelled_at = None, so_reached = [], so_released = [], so_consumer = ConsumerIdle,
      so_emitted = []\<rparr>"

definition claim_events :: "scripted_operation \<Rightarrow> py_error + scripted_operation" where
  "claim_events op =
     (if so_events_claimed op
      then Inl (RuntimeError ''fake provider operation events may be claimed only once'')
      else Inr (op\<lparr>so_events_claimed := True\<rparr>))"

definition mark_closed :: "scripted_operation \<Rightarrow> scripted_operation" where
  "mark_closed op = op\<lparr>so_closed := True\<rparr>"

text \<open>\<open>_finish_idle_cancellation_locked\<close>\<close>

definition finish_idle_cancellation :: "scripted_operation \<Rightarrow> scripted_operation" where
  "finish_idle_cancellation op =
     (if so_closed op then op
      else mark_closed
        (if so_step_index op < length (so_steps op) then
           (case so_steps op ! so_step_index op of
              FakeProviderWaitForCancellation c \<Rightarrow>
                op\<lparr>so_reached := so_reached op @ [c], so_cancelled_at := Some c,
                   so_step_index := length (so_steps op)\<rparr>
            | _ \<Rightarrow> op)
         else op))"

text \<open>The \<open>finally\<close> of \<open>__anext__\<close>, after which the consumer is idle.\<close>

definition leave_next :: "scripted_operation \<Rightarrow> scripted_operation" where
  "leave_next op =
     (let op' = op\<lparr>so_next_active := False, so_consumer := ConsumerIdle\<rparr> in
      if so_cancel_requested op' \<and> \<not> so_closed op' then finish_idle_cancellation op' else op')"

datatype next_outcome = NextEvent provider_stream_event | NextStop | NextSuspended

text \<open>One pass of the loop of \<open>_next_event\<close> up to its return or its suspension.\<close>

definition next_event :: "scripted_operation \<Rightarrow> next_outcome \<times> scripted_operation" where
  "next_event op =
     (if so_closed op then (NextStop, op)
      else if so_cancel_requested op then (NextStop, finish_idle_cancellation op)
      else case so_steps op ! so_step_index op of
        FakeProviderEmit e \<Rightarrow>
          let op' = op\<lparr>so_step_index := so_step_index op + 1\<rparr> in
          (NextEvent e,
           if so_step_index op' = length (so_steps op') then mark_closed op' else op')
      | FakeProviderDelay c \<Rightarrow>
          (NextSuspended, op\<lparr>so_reached := so_reached op @ [c], so_consumer := ConsumerInDelay c\<rparr>)
      | FakeProviderWaitForCancellation c \<Rightarrow>
          (NextSuspended,
           op\<lparr>so_reached := so_reached op @ [c], so_consumer := ConsumerInCancellation c\<rparr>))"

text \<open>How a segment of \<open>__anext__\<close> ends: a returned event is delivered.\<close>

definition settle_next :: "next_outcome \<times> scripted_operation \<Rightarrow> scripted_operation" where
  "settle_next r =
     (case r of
        (NextEvent e, op) \<Rightarrow> leave_next (op\<lparr>so_emitted := so_emitted op @ [e]\<rparr>)
      | (NextStop, op) \<Rightarrow> leave_next op
      | (NextSuspended, op) \<Rightarrow> op)"

definition anext :: "scripted_operation \<Rightarrow> py_error + scripted_operation" where
  "anext op =
     (if \<not> so_events_claimed op
      then Inl (RuntimeError ''claim fake provider events before iterating'')
      else if so_closed op then Inr op
      else Inr (settle_next (next_event (op\<lparr>so_next_active := True\<rparr>))))"

text \<open>Resuming after a released delay, after a cancelled delay and after a cancellation wait.\<close>

definition resume_delay :: "scripted_operation \<Rightarrow> scripted_operation" where
  "resume_delay op =
     (if so_closed op then leave_next op
      else settle_next (next_event
        (op\<lparr>so_step_index := so_step_index op + 1, so_consumer := ConsumerIdle\<rparr>)))"

definition resume_delay_cancelled :: "scripted_operation \<Rightarrow> scripted_operation" where
  "resume_delay_cancelled op = leave_next (mark_closed op)"

definition resume_cancellation :: "ustr \<Rightarrow> scripted_operation \<Rightarrow> scripted_operation" where
  "resume_cancellation c op =
     leave_next (mark_closed
       (op\<lparr>so_cancelled_at := Some c, so_step_index := length (so_steps op)\<rparr>))"

text \<open>A \<open>CancelledError\<close> delivered to the suspended consumer (\<open>_close_incomplete\<close>).\<close>

definition abort_next :: "scripted_operation \<Rightarrow> scripted_operation" where
  "abort_next op = leave_next (mark_closed op)"

text \<open>\<open>cancel\<close> up to its wait for the closed event: a result now, or \<open>None\<close> while it waits.\<close>

definition cancel_operation ::
  "scripted_operation \<Rightarrow> cancellation_result option \<times> scripted_operation" where
  "cancel_operation op =
     (if so_closed op then (Some AlreadyClosed, op)
      else let op' = op\<lparr>so_cancel_requested := True\<rparr>;
               op'' = (if so_next_active op' then op' else finish_idle_cancellation op') in
           (if so_closed op'' then Some Cancelled else None, op''))"

definition force_cancel_cleanup :: "scripted_operation \<Rightarrow> scripted_operation" where
  "force_cancel_cleanup op =
     (let op' = op\<lparr>so_cancel_requested := True\<rparr> in
      if so_closed op' then op' else finish_idle_cancellation op')"

datatype checkpoint_kind = DelayCheckpoint | CancellationCheckpoint

fun find_checkpoint :: "fake_step list \<Rightarrow> ustr \<Rightarrow> checkpoint_kind option" where
  "find_checkpoint [] c = None"
| "find_checkpoint (FakeProviderEmit e # ss) c = find_checkpoint ss c"
| "find_checkpoint (FakeProviderDelay d # ss) c =
     (if d = c then Some DelayCheckpoint else find_checkpoint ss c)"
| "find_checkpoint (FakeProviderWaitForCancellation d # ss) c =
     (if d = c then Some CancellationCheckpoint else find_checkpoint ss c)"

definition release_checkpoint ::
  "scripted_operation \<Rightarrow> ustr \<Rightarrow> py_error + scripted_operation" where
  "release_checkpoint op c =
     (case find_checkpoint (so_steps op) c of
        None \<Rightarrow> Inl (ValueError ''unknown fake provider checkpoint'')
      | Some kind \<Rightarrow>
          if kind \<noteq> DelayCheckpoint
          then Inl (RuntimeError ''cancellation checkpoints can only be released by cancellation'')
          else if so_closed op
          then Inl (RuntimeError ''cannot release a checkpoint after the operation closed'')
          else if c \<notin> set (so_reached op)
          then Inl (RuntimeError ''cannot release a checkpoint before the stream reaches it'')
          else if c \<in> set (so_released op)
          then Inl (RuntimeError ''fake provider delay checkpoint was already released'')
          else Inr (op\<lparr>so_released := so_released op @ [c]\<rparr>))"

text \<open>\<open>wait_for_checkpoint\<close> as a check of the current state: reached, refused, or still waiting.\<close>

definition wait_for_checkpoint :: "scripted_operation \<Rightarrow> ustr \<Rightarrow> py_error + bool" where
  "wait_for_checkpoint op c =
     (case find_checkpoint (so_steps op) c of
        None \<Rightarrow> Inl (ValueError ''unknown fake provider checkpoint'')
      | Some _ \<Rightarrow>
          if c \<in> set (so_reached op) then Inr True
          else if so_closed op
          then Inl (AssertionError (''fake provider exchange ''
                 @ decimal (int (so_exchange_number op))
                 @ '' closed before the requested checkpoint''))
          else Inr False)"

fun event_kind :: "provider_stream_event \<Rightarrow> string" where
  "event_kind (ProviderTextDelta _) = ''text.delta''"
| "event_kind (ProviderTextCompleted _) = ''text.completed''"
| "event_kind (ProviderToolCallRequested _ _ _) = ''tool.call_requested''"
| "event_kind (ProviderUsageReported _ _) = ''usage.reported''"
| "event_kind ProviderCompleted = ''response.completed''"
| "event_kind (ProviderFailed _) = ''response.failed''"

definition step_label :: "scripted_operation \<Rightarrow> string" where
  "step_label op =
     (if so_step_index op \<ge> length (so_steps op) then ''end-of-script''
      else case so_steps op ! so_step_index op of
             FakeProviderEmit e \<Rightarrow> ''emit:'' @ event_kind e
           | FakeProviderDelay _ \<Rightarrow> ''delay-checkpoint''
           | FakeProviderWaitForCancellation _ \<Rightarrow> ''cancellation-checkpoint'')"

definition verification_failure :: "scripted_operation \<Rightarrow> string option" where
  "verification_failure op =
     (let at_step = ''step '' @ decimal (int (so_step_index op) + 1) @ '' ('' @ step_label op @ '')'';
          exchange = ''fake provider exchange '' @ decimal (int (so_exchange_number op)) in
      if \<not> so_closed op then Some (exchange @ '' is still active at '' @ at_step)
      else if so_step_index op < length (so_steps op)
      then Some (exchange @ '' stopped before '' @ at_step)
      else None)"

subsection \<open>The provider\<close>

record fake_provider =
  fp_exchanges :: "fake_exchange list"
  fp_next_exchange_index :: nat
  fp_operations :: "scripted_operation list"

definition FakeProvider :: "fake_exchange option list \<Rightarrow> py_error + fake_provider" where
  "FakeProvider exchanges =
     (if list_ex (\<lambda>e. e = None) exchanges
      then Inl (TypeError ''fake provider exchanges contain an unsupported value'')
      else Inr \<lparr>fp_exchanges = map the exchanges, fp_next_exchange_index = 0, fp_operations = []\<rparr>)"

definition indexed_path :: "string \<Rightarrow> nat \<Rightarrow> string \<Rightarrow> string" where
  "indexed_path collection i field = collection @ ''['' @ decimal (int i) @ ''].'' @ field"

fun conversation_mismatches ::
  "nat \<Rightarrow> (provider_message \<times> provider_message) list \<Rightarrow> string list" where
  "conversation_mismatches i [] = []"
| "conversation_mismatches i ((e, a) # rest) =
     (if pm_role e \<noteq> pm_role a then [indexed_path ''conversation'' i ''role''] else [])
     @ (if pm_content e \<noteq> pm_content a then [indexed_path ''conversation'' i ''content''] else [])
     @ conversation_mismatches (i + 1) rest"

fun instruction_mismatches ::
  "nat \<Rightarrow> (repository_instruction \<times> repository_instruction) list \<Rightarrow> string list" where
  "instruction_mismatches i [] = []"
| "instruction_mismatches i ((e, a) # rest) =
     (if ri_source e \<noteq> ri_source a
      then [indexed_path ''repository_instructions'' i ''source''] else [])
     @ (if ri_content e \<noteq> ri_content a
        then [indexed_path ''repository_instructions'' i ''content''] else [])
     @ instruction_mismatches (i + 1) rest"

definition request_mismatch_paths :: "provider_request \<Rightarrow> provider_request \<Rightarrow> string list" where
  "request_mismatch_paths expected actual =
     (if length (conversation expected) \<noteq> length (conversation actual)
      then [''conversation.length''] else [])
     @ conversation_mismatches 0 (zip (conversation expected) (conversation actual))
     @ (if length (repository_instructions expected) \<noteq> length (repository_instructions actual)
        then [''repository_instructions.length''] else [])
     @ instruction_mismatches 0
         (zip (repository_instructions expected) (repository_instructions actual))"

definition MAX_MISMATCH_PATHS :: nat where "MAX_MISMATCH_PATHS = 8"

definition mismatch_message :: "nat \<Rightarrow> string list \<Rightarrow> string" where
  "mismatch_message number paths =
     ''fake provider request '' @ decimal (int number) @ '' differed at ''
     @ py_join '', '' (take MAX_MISMATCH_PATHS paths)
     @ (if length paths \<le> MAX_MISMATCH_PATHS then ''''
        else '', and '' @ decimal (int (length paths) - int MAX_MISMATCH_PATHS)
             @ '' more field(s)'')"

definition start_request ::
  "fake_provider \<Rightarrow> provider_request option \<Rightarrow> py_error + fake_provider" where
  "start_request fp arg =
     (case (if fp_operations fp = [] then None
            else verification_failure (last (fp_operations fp))) of
        Some failure \<Rightarrow>
          Inl (AssertionError (failure @ ''; cannot start another provider request''))
      | None \<Rightarrow>
          let number = fp_next_exchange_index fp + 1 in
          if fp_next_exchange_index fp \<ge> length (fp_exchanges fp)
          then Inl (AssertionError (''fake provider received unexpected request ''
                 @ decimal (int number) @ ''; the script has no remaining exchanges''))
          else (case arg of
            None \<Rightarrow> Inl (TypeError ''fake provider requires a provider request'')
          | Some request \<Rightarrow>
              let exchange = fp_exchanges fp ! fp_next_exchange_index fp;
                  paths = request_mismatch_paths (ex_request exchange) request in
              if paths \<noteq> [] then Inl (AssertionError (mismatch_message number paths))
              else Inr (fp\<lparr>fp_next_exchange_index := number,
                           fp_operations := fp_operations fp
                             @ [new_operation number (ex_steps exchange)]\<rparr>)))"

definition assert_complete :: "fake_provider \<Rightarrow> py_error + unit" where
  "assert_complete fp =
     (case List.map_filter verification_failure (fp_operations fp) of
        failure # _ \<Rightarrow> Inl (AssertionError failure)
      | [] \<Rightarrow>
          if fp_next_exchange_index fp < length (fp_exchanges fp)
          then Inl (AssertionError (''fake provider expected request ''
                 @ decimal (int (fp_next_exchange_index fp) + 1) @ '', but ''
                 @ decimal (int (length (fp_exchanges fp)) - int (fp_next_exchange_index fp))
                 @ '' exchange(s) were never started''))
          else Inr ())"

subsection \<open>Validated scripts\<close>

definition steps_ok :: "fake_step list \<Rightarrow> bool" where
  "steps_ok steps \<longleftrightarrow> validate_steps (Some (map Some steps)) = Inr steps"

fun emits :: "fake_step list \<Rightarrow> provider_stream_event list" where
  "emits [] = []"
| "emits (FakeProviderEmit e # ss) = e # emits ss"
| "emits (_ # ss) = emits ss"

definition uncancelled :: "fake_step list \<Rightarrow> bool" where
  "uncancelled ss \<longleftrightarrow> list_all (\<lambda>s. \<not> is_cancellation s) ss"

lemma emits_append [simp]: "emits (xs @ ys) = emits xs @ emits ys"
  by (induction xs rule: emits.induct) simp_all

lemma emits_take_prefix: "prefix (emits (take k steps)) (emits steps)"
  by (metis append_take_drop_id emits_append prefixI)

lemma emits_member: "e \<in> set (emits ss) \<Longrightarrow> FakeProviderEmit e \<in> set ss"
  by (induction ss rule: emits.induct) auto

lemma set_step_indexes: "i \<in> set (step_indexes f steps) \<longleftrightarrow> i < length steps \<and> f (steps ! i)"
  by (auto simp: step_indexes_def)

lemma steps_ok_nonempty: "steps_ok steps \<Longrightarrow> steps \<noteq> []"
  by (auto simp: steps_ok_def validate_steps_def)

lemma steps_ok_facts:
  assumes "steps_ok steps"
  shows "distinct (List.map_filter checkpoint_of steps)"
    and "step_indexes is_cancellation steps = [] \<Longrightarrow>
       step_indexes is_terminal_emit steps = [length steps - 1]"
    and "step_indexes is_cancellation steps \<noteq> [] \<Longrightarrow> i \<in> set (step_indexes is_terminal_emit steps) \<Longrightarrow>
       hd (step_indexes is_cancellation steps) \<le> i"
proof -
  from assms have ok: "validate_steps (Some (map Some steps)) = Inr steps" by (simp add: steps_ok_def)
  show "distinct (List.map_filter checkpoint_of steps)"
    using ok by (auto simp: validate_steps_def Let_def comp_def split: if_splits)
  show "step_indexes is_terminal_emit steps = [length steps - 1]"
    if "step_indexes is_cancellation steps = []"
    using ok that by (auto simp: validate_steps_def Let_def comp_def split: if_splits)
  show "hd (step_indexes is_cancellation steps) \<le> i"
    if "step_indexes is_cancellation steps \<noteq> []" "i \<in> set (step_indexes is_terminal_emit steps)"
    using ok that
    by (auto simp: validate_steps_def Let_def comp_def list_ex_iff not_less split: if_splits)
qed

lemma terminal_emit_is_last:
  assumes "steps_ok steps" "k \<le> length steps" "uncancelled (take k steps)"
    and "i < k" "is_terminal_emit (steps ! i)"
  shows "i = length steps - 1 \<and> k = length steps"
proof -
  have i: "i \<in> set (step_indexes is_terminal_emit steps)"
    using assms by (simp add: set_step_indexes)
  show ?thesis
  proof (cases "step_indexes is_cancellation steps = []")
    case True
    with i steps_ok_facts(2) [OF assms(1)] have "i = length steps - 1" by simp
    with assms show ?thesis by simp
  next
    case False
    let ?c = "hd (step_indexes is_cancellation steps)"
    have "?c \<in> set (step_indexes is_cancellation steps)" using False by simp
    then have c: "?c < length steps" "is_cancellation (steps ! ?c)"
      by (simp_all add: set_step_indexes)
    have "?c \<le> i" using steps_ok_facts(3) [OF assms(1) False i] .
    with assms(4) have "?c < k" by simp
    with c assms(2,3) have False
      by (auto simp: uncancelled_def list_all_length)
    then show ?thesis ..
  qed
qed

lemma emits_terminal_index:
  assumes "e \<in> set (emits (take k steps))" "is_stream_terminal e" "k \<le> length steps"
  obtains i where "i < k" "is_terminal_emit (steps ! i)"
proof -
  from emits_member [OF assms(1)] obtain i where "i < length (take k steps)"
    "take k steps ! i = FakeProviderEmit e" by (metis in_set_conv_nth)
  with assms(2,3) that [of i] show ?thesis by simp
qed

text \<open>A script without a cancellation checkpoint ends with its only terminal event.\<close>

lemma emits_last_terminal:
  assumes "steps_ok steps" "uncancelled steps"
  shows "emits steps \<noteq> [] \<and> is_stream_terminal (last (emits steps))"
proof -
  have "step_indexes is_cancellation steps = []"
    using assms(2) by (auto simp: step_indexes_def uncancelled_def list_all_length filter_empty_conv)
  from steps_ok_facts(2) [OF assms(1) this]
  have "length steps - 1 \<in> set (step_indexes is_terminal_emit steps)" by simp
  then have t: "is_terminal_emit (steps ! (length steps - 1))" by (simp add: set_step_indexes)
  have ne: "steps \<noteq> []" using assms(1) by (rule steps_ok_nonempty)
  then have last: "steps = butlast steps @ [steps ! (length steps - 1)]"
    by (metis append_butlast_last_id last_conv_nth)
  from t obtain e where "steps ! (length steps - 1) = FakeProviderEmit e" "is_stream_terminal e"
    by (cases "steps ! (length steps - 1)") auto
  with last have "emits steps = emits (butlast steps) @ [e]" by (metis emits.simps(1,2) emits_append)
  with \<open>is_stream_terminal e\<close> show ?thesis by simp
qed

subsection \<open>Atomic actions\<close>

datatype op_action =
    ClaimEvents | NextRequested | DelayReleased | DelayCancelled | CancellationSeen | ConsumerAborted
  | CancelRequested | ForcedCleanup | CheckpointReleased ustr

definition value_of :: "'e + 'a \<Rightarrow> 'a option" where
  "value_of r = (case r of Inl _ \<Rightarrow> None | Inr x \<Rightarrow> Some x)"

fun op_act :: "op_action \<Rightarrow> scripted_operation \<Rightarrow> scripted_operation option" where
  "op_act ClaimEvents op = value_of (claim_events op)"
| "op_act NextRequested op = (if so_consumer op = ConsumerIdle then value_of (anext op) else None)"
| "op_act DelayReleased op =
     (case so_consumer op of
        ConsumerInDelay c \<Rightarrow> if c \<in> set (so_released op) then Some (resume_delay op) else None
      | _ \<Rightarrow> None)"
| "op_act DelayCancelled op =
     (case so_consumer op of
        ConsumerInDelay c \<Rightarrow>
          if so_cancel_requested op then Some (resume_delay_cancelled op) else None
      | _ \<Rightarrow> None)"
| "op_act CancellationSeen op =
     (case so_consumer op of
        ConsumerInCancellation c \<Rightarrow>
          if so_cancel_requested op then Some (resume_cancellation c op) else None
      | _ \<Rightarrow> None)"
| "op_act ConsumerAborted op =
     (if so_consumer op = ConsumerIdle then None else Some (abort_next op))"
| "op_act CancelRequested op = Some (snd (cancel_operation op))"
| "op_act ForcedCleanup op = Some (force_cancel_cleanup op)"
| "op_act (CheckpointReleased c) op = value_of (release_checkpoint op c)"

lemma value_of_simps [simp]: "value_of (Inl e) = None" "value_of (Inr x) = Some x"
  by (simp_all add: value_of_def)

subsection \<open>The invariant of an operation\<close>

text \<open>
  \<open>k\<close> steps of the script have been consumed: their events are the ones emitted, none of them is
  the cancellation checkpoint, and unless the checkpoint was cancelled \<open>k\<close> is the step index.
\<close>

definition consumed :: "scripted_operation \<Rightarrow> nat \<Rightarrow> bool" where
  "consumed op k \<longleftrightarrow>
     k \<le> length (so_steps op) \<and> so_emitted op = emits (take k (so_steps op))
     \<and> uncancelled (take k (so_steps op))
     \<and> (case so_cancelled_at op of
          None \<Rightarrow> so_step_index op = k
        | Some c \<Rightarrow> so_closed op \<and> so_step_index op = length (so_steps op)
            \<and> k < length (so_steps op) \<and> so_steps op ! k = FakeProviderWaitForCancellation c)"

definition consumer_at :: "scripted_operation \<Rightarrow> nat \<Rightarrow> bool" where
  "consumer_at op k \<longleftrightarrow>
     (case so_consumer op of
        ConsumerIdle \<Rightarrow> \<not> so_next_active op \<and> (so_cancel_requested op \<longrightarrow> so_closed op)
      | ConsumerInDelay c \<Rightarrow>
          so_next_active op \<and> k < length (so_steps op) \<and> so_steps op ! k = FakeProviderDelay c
          \<and> so_cancelled_at op = None
      | ConsumerInCancellation c \<Rightarrow>
          so_next_active op \<and> k < length (so_steps op)
          \<and> so_steps op ! k = FakeProviderWaitForCancellation c)"

definition op_ok :: "scripted_operation \<Rightarrow> bool" where
  "op_ok op \<longleftrightarrow>
     steps_ok (so_steps op)
     \<and> (\<not> so_closed op \<longrightarrow> so_step_index op < length (so_steps op))
     \<and> (\<exists>k. consumed op k \<and> consumer_at op k)"

lemma finish_idle_simps [simp]:
  "so_steps (finish_idle_cancellation op) = so_steps op"
  "so_emitted (finish_idle_cancellation op) = so_emitted op"
  "so_consumer (finish_idle_cancellation op) = so_consumer op"
  "so_next_active (finish_idle_cancellation op) = so_next_active op"
  "so_cancel_requested (finish_idle_cancellation op) = so_cancel_requested op"
  "so_closed (finish_idle_cancellation op)"
  by (simp_all add: finish_idle_cancellation_def mark_closed_def split: fake_step.split)

lemma consumed_open: "consumed op k \<Longrightarrow> \<not> so_closed op \<Longrightarrow> so_cancelled_at op = None \<and> so_step_index op = k"
  by (auto simp: consumed_def split: option.splits)

lemma mark_closed_emitted: "mark_closed (op\<lparr>so_emitted := es\<rparr>) = (mark_closed op)\<lparr>so_emitted := es\<rparr>"
  by (cases op) (simp add: mark_closed_def)

lemma mark_closed_same [simp]: "so_emitted (mark_closed op) = so_emitted op"
  by (simp add: mark_closed_def)

lemma consumed_irrelevant [simp]:
  "consumed (op\<lparr>so_next_active := a, so_consumer := c\<rparr>) k = consumed op k"
  "consumed (op\<lparr>so_next_active := a\<rparr>) k = consumed op k"
  "consumed (op\<lparr>so_cancel_requested := a\<rparr>) k = consumed op k"
  "consumed (op\<lparr>so_reached := r, so_consumer := c\<rparr>) k = consumed op k"
  "consumed (op\<lparr>so_released := r\<rparr>) k = consumed op k"
  "consumed (op\<lparr>so_events_claimed := a\<rparr>) k = consumed op k"
  by (simp_all add: consumed_def cong: option.case_cong)

lemma consumed_mark_closed: "consumed op k \<Longrightarrow> consumed (mark_closed op) k"
  by (auto simp: consumed_def mark_closed_def split: option.splits)

lemma consumed_finish_idle:
  assumes "consumed op k"
  shows "consumed (finish_idle_cancellation op) k"
proof (cases "so_closed op")
  case True
  with assms show ?thesis by (simp add: finish_idle_cancellation_def)
next
  case False
  note none = consumed_open [OF assms False]
  show ?thesis
  proof (cases "so_step_index op < length (so_steps op)
      \<and> is_cancellation (so_steps op ! so_step_index op)")
    case True
    then obtain c where "so_steps op ! so_step_index op = FakeProviderWaitForCancellation c"
      by (cases "so_steps op ! so_step_index op") auto
    with True False none assms show ?thesis
      by (auto simp: finish_idle_cancellation_def consumed_def mark_closed_def)
  next
    case other: False
    then have "finish_idle_cancellation op = mark_closed op"
      using False
      by (cases "so_steps op ! so_step_index op") (auto simp: finish_idle_cancellation_def)
    with consumed_mark_closed [OF assms] show ?thesis by simp
  qed
qed

lemma leave_next_simps [simp]:
  "so_steps (leave_next op) = so_steps op"
  "so_emitted (leave_next op) = so_emitted op"
  "so_consumer (leave_next op) = ConsumerIdle"
  "\<not> so_next_active (leave_next op)"
  "so_cancel_requested (leave_next op) = so_cancel_requested op"
  "so_closed (leave_next op) \<longleftrightarrow> so_closed op \<or> so_cancel_requested op"
  by (auto simp: leave_next_def Let_def)

lemma consumed_leave_next:
  assumes "consumed op k"
  shows "consumed (leave_next op) k"
proof -
  let ?op = "op\<lparr>so_next_active := False, so_consumer := ConsumerIdle\<rparr>"
  have "consumed ?op k" using assms by simp
  then show ?thesis using consumed_finish_idle [of ?op k]
    by (simp add: leave_next_def Let_def)
qed

lemma consumer_leave_next: "consumer_at (leave_next op) k"
  by (simp add: consumer_at_def)

text \<open>The open operation and the one a segment leaves: idle, with the next step still in range.\<close>

lemma op_ok_leave_next:
  assumes "steps_ok (so_steps op)" "consumed op k"
    and "so_closed op \<or> so_step_index op < length (so_steps op)"
  shows "op_ok (leave_next op)"
proof -
  have "so_step_index (leave_next op) < length (so_steps op)" if "\<not> so_closed (leave_next op)"
    using that assms(3) by (auto simp: leave_next_def Let_def)
  with assms(1) consumed_leave_next [OF assms(2)] consumer_leave_next show ?thesis
    by (auto simp: op_ok_def)
qed

lemma settle_next_event_ok:
  assumes ok: "steps_ok (so_steps op)" and con: "consumed op k" and opn: "\<not> so_closed op"
    and range: "so_step_index op < length (so_steps op)" and active: "so_next_active op"
  shows "op_ok (settle_next (next_event op))"
proof -
  note none = consumed_open [OF con opn]
  show ?thesis
  proof (cases "so_cancel_requested op")
    case True
    then have "settle_next (next_event op) = leave_next (finish_idle_cancellation op)"
      using opn by (simp add: next_event_def settle_next_def)
    with op_ok_leave_next [OF _ consumed_finish_idle [OF con]] ok show ?thesis by simp
  next
    case False
    show ?thesis
    proof (cases "so_steps op ! k")
      case (FakeProviderEmit e)
      have take: "take (Suc k) (so_steps op) = take k (so_steps op) @ [FakeProviderEmit e]"
        using range none FakeProviderEmit by (simp add: take_Suc_conv_app_nth)
      let ?op = "op\<lparr>so_step_index := Suc k, so_emitted := so_emitted op @ [e]\<rparr>"
      let ?t = "if Suc k = length (so_steps op) then mark_closed ?op else ?op"
      have "consumed ?op (Suc k)"
        using con none range take by (simp add: consumed_def uncancelled_def)
      then have t: "consumed ?t (Suc k)" using consumed_mark_closed [of ?op "Suc k"] by presburger
      have "settle_next (next_event op) = leave_next ?t"
        using False opn none FakeProviderEmit
        by (simp add: next_event_def settle_next_def Let_def mark_closed_emitted)
      moreover have "so_closed ?t \<or> so_step_index ?t < length (so_steps ?t)"
        using none range by (simp add: mark_closed_def)
      moreover have "steps_ok (so_steps ?t)" using ok by (simp add: mark_closed_def)
      ultimately show ?thesis using op_ok_leave_next [OF _ t] by presburger
    next
      case (FakeProviderDelay c)
      have eq: "settle_next (next_event op)
          = op\<lparr>so_reached := so_reached op @ [c], so_consumer := ConsumerInDelay c\<rparr>" (is "_ = ?t")
        using False opn none FakeProviderDelay by (simp add: next_event_def settle_next_def)
      have "consumed ?t k" using con by simp
      moreover have "consumer_at ?t k"
        using none range active FakeProviderDelay by (simp add: consumer_at_def)
      ultimately have "op_ok ?t" using ok range by (auto simp: op_ok_def)
      then show ?thesis by (simp only: eq)
    next
      case (FakeProviderWaitForCancellation c)
      have eq: "settle_next (next_event op)
          = op\<lparr>so_reached := so_reached op @ [c], so_consumer := ConsumerInCancellation c\<rparr>"
        (is "_ = ?t")
        using False opn none FakeProviderWaitForCancellation
        by (simp add: next_event_def settle_next_def)
      have "consumed ?t k" using con by simp
      moreover have "consumer_at ?t k"
        using none range active FakeProviderWaitForCancellation by (simp add: consumer_at_def)
      ultimately have "op_ok ?t" using ok range by (auto simp: op_ok_def)
      then show ?thesis by (simp only: eq)
    qed
  qed
qed

lemma op_ok_new: "steps_ok steps \<Longrightarrow> op_ok (new_operation n steps)"
  using steps_ok_nonempty [of steps]
  by (auto simp: op_ok_def new_operation_def consumed_def consumer_at_def uncancelled_def
      intro: exI [of _ 0])

lemma op_ok_mark_closed_leave:
  "op_ok op \<Longrightarrow> op_ok (leave_next (mark_closed op))"
  unfolding op_ok_def [of op]
  using op_ok_leave_next [of "mark_closed op"] consumed_mark_closed by (auto simp: mark_closed_def)

lemma op_ok_finish_idle:
  assumes "op_ok op" "so_consumer op \<noteq> ConsumerIdle \<or> \<not> so_next_active op"
  shows "op_ok (finish_idle_cancellation (op\<lparr>so_cancel_requested := True\<rparr>))"
proof -
  let ?op = "op\<lparr>so_cancel_requested := True\<rparr>" let ?t = "finish_idle_cancellation ?op"
  from assms obtain k where k: "steps_ok (so_steps op)" "consumed op k" "consumer_at op k"
    by (auto simp: op_ok_def)
  have c: "consumed ?op k" using k(2) by simp
  have "so_cancelled_at ?t = None" if "so_consumer op = ConsumerInDelay d" for d
    using that k(2,3) consumed_open [OF k(2)]
    by (auto simp: consumer_at_def finish_idle_cancellation_def mark_closed_def)
  then have "consumer_at ?t k"
    using k(3) assms(2) by (cases "so_consumer op") (auto simp: consumer_at_def)
  with consumed_finish_idle [OF c] k(1) show ?thesis by (auto simp: op_ok_def)
qed

lemma op_ok_cases:
  assumes "op_ok op"
  obtains k where "steps_ok (so_steps op)" "consumed op k" "consumer_at op k"
    "so_closed op \<or> so_step_index op < length (so_steps op)"
  using assms by (auto simp: op_ok_def)

lemma op_ok_irrelevant:
  assumes "op_ok op"
  shows "op_ok (op\<lparr>so_released := r\<rparr>)" "op_ok (op\<lparr>so_events_claimed := a\<rparr>)"
proof -
  from assms obtain k where k: "steps_ok (so_steps op)" "consumed op k" "consumer_at op k"
    "so_closed op \<or> so_step_index op < length (so_steps op)" by (rule op_ok_cases)
  then show "op_ok (op\<lparr>so_released := r\<rparr>)" "op_ok (op\<lparr>so_events_claimed := a\<rparr>)"
    unfolding op_ok_def
    by (auto simp: consumer_at_def cong: fake_consumer.case_cong intro!: exI [of _ k])
qed

lemma op_ok_next:
  assumes ok: "op_ok op" and idle: "so_consumer op = ConsumerIdle" and step: "anext op = Inr t"
  shows "op_ok t"
proof (cases "so_closed op")
  case True
  with step ok show ?thesis by (auto simp: anext_def split: if_splits)
next
  case False
  from ok obtain k where k: "steps_ok (so_steps op)" "consumed op k" "consumer_at op k"
    "so_closed op \<or> so_step_index op < length (so_steps op)" by (rule op_ok_cases)
  from step False have "t = settle_next (next_event (op\<lparr>so_next_active := True\<rparr>))"
    by (auto simp: anext_def split: if_splits)
  with settle_next_event_ok [of "op\<lparr>so_next_active := True\<rparr>" k] k False show ?thesis by simp
qed

lemma op_ok_resume_delay:
  assumes ok: "op_ok op" and waits: "so_consumer op = ConsumerInDelay c"
  shows "op_ok (resume_delay op)"
proof -
  from ok obtain k where k: "steps_ok (so_steps op)" "consumed op k" "consumer_at op k"
    "so_closed op \<or> so_step_index op < length (so_steps op)" by (rule op_ok_cases)
  show ?thesis
  proof (cases "so_closed op")
    case True
    with k op_ok_leave_next [of op k] show ?thesis by (simp add: resume_delay_def)
  next
    case False
    note none = consumed_open [OF k(2) False]
    from k(3) waits have delay: "k < length (so_steps op)" "so_steps op ! k = FakeProviderDelay c"
      "so_next_active op" by (simp_all add: consumer_at_def)
    have take: "take (Suc k) (so_steps op) = take k (so_steps op) @ [FakeProviderDelay c]"
      using delay by (simp add: take_Suc_conv_app_nth)
    let ?op = "op\<lparr>so_step_index := Suc k, so_consumer := ConsumerIdle\<rparr>"
    have con: "consumed ?op (Suc k)"
      using k(2) none delay take by (simp add: consumed_def uncancelled_def)
    have "Suc k < length (so_steps op)"
    proof (rule ccontr)
      assume "\<not> Suc k < length (so_steps op)"
      with delay(1) have last: "Suc k = length (so_steps op)" by simp
      then have "uncancelled (so_steps op)" using con by (simp add: consumed_def)
      then have "step_indexes is_cancellation (so_steps op) = []"
        by (auto simp: step_indexes_def uncancelled_def list_all_length filter_empty_conv)
      moreover have "length (so_steps op) - 1 = k" using last by simp
      ultimately have "k \<in> set (step_indexes is_terminal_emit (so_steps op))"
        using steps_ok_facts(2) [OF k(1)] by simp
      then have "is_terminal_emit (so_steps op ! k)" by (simp add: set_step_indexes)
      with delay(2) show False by simp
    qed
    with settle_next_event_ok [of ?op "Suc k"] con k(1) False delay(3) none show ?thesis
      by (simp add: resume_delay_def)
  qed
qed

lemma op_ok_resume_cancellation:
  assumes ok: "op_ok op" and waits: "so_consumer op = ConsumerInCancellation c"
  shows "op_ok (resume_cancellation c op)"
proof -
  from ok obtain k where k: "steps_ok (so_steps op)" "consumed op k" "consumer_at op k"
    by (rule op_ok_cases)
  let ?t = "mark_closed (op\<lparr>so_cancelled_at := Some c, so_step_index := length (so_steps op)\<rparr>)"
  have "consumed ?t k"
    using k(2,3) waits by (auto simp: consumed_def consumer_at_def mark_closed_def)
  with op_ok_leave_next [of ?t k] k(1) show ?thesis
    by (simp add: resume_cancellation_def) (simp add: mark_closed_def)
qed

lemma op_ok_cancel: "op_ok op \<Longrightarrow> op_ok (snd (cancel_operation op))"
proof -
  assume ok: "op_ok op"
  then obtain k where k: "steps_ok (so_steps op)" "consumed op k" "consumer_at op k"
    "so_closed op \<or> so_step_index op < length (so_steps op)" by (rule op_ok_cases)
  show ?thesis
  proof (cases "so_closed op \<or> \<not> so_next_active op")
    case True
    with ok op_ok_finish_idle [OF ok] show ?thesis by (auto simp: cancel_operation_def Let_def)
  next
    case False
    then have "so_consumer op \<noteq> ConsumerIdle" using k(3) by (auto simp: consumer_at_def)
    with k(3) have "consumer_at (op\<lparr>so_cancel_requested := True\<rparr>) k"
      by (cases "so_consumer op") (simp_all add: consumer_at_def)
    with k False show ?thesis by (auto simp: cancel_operation_def Let_def op_ok_def)
  qed
qed

lemma op_ok_force:
  assumes ok: "op_ok op"
  shows "op_ok (force_cancel_cleanup op)"
proof -
  from ok obtain k where k: "steps_ok (so_steps op)" "consumed op k" "consumer_at op k"
    by (rule op_ok_cases)
  have idle: "so_consumer op \<noteq> ConsumerIdle \<or> \<not> so_next_active op"
    using k(3) by (auto simp: consumer_at_def)
  show ?thesis
  proof (cases "so_closed op")
    case True
    have "consumer_at (op\<lparr>so_cancel_requested := True\<rparr>) k"
      using k(3) True by (cases "so_consumer op") (auto simp: consumer_at_def)
    with True k show ?thesis by (auto simp: force_cancel_cleanup_def op_ok_def)
  next
    case False
    with op_ok_finish_idle [OF ok idle] show ?thesis by (simp add: force_cancel_cleanup_def)
  qed
qed

lemma op_ok_act:
  assumes "op_ok op" "op_act a op = Some t"
  shows "op_ok t"
proof (cases a)
  case ClaimEvents
  with assms op_ok_irrelevant(2) show ?thesis by (auto simp: claim_events_def split: if_splits)
next
  case NextRequested
  with assms op_ok_next show ?thesis
    by (auto simp: value_of_def split: if_splits sum.splits)
next
  case DelayReleased
  with assms op_ok_resume_delay show ?thesis by (auto split: fake_consumer.splits if_splits)
next
  case DelayCancelled
  with assms op_ok_mark_closed_leave show ?thesis
    by (auto simp: resume_delay_cancelled_def split: fake_consumer.splits if_splits)
next
  case CancellationSeen
  with assms op_ok_resume_cancellation show ?thesis by (auto split: fake_consumer.splits if_splits)
next
  case ConsumerAborted
  with assms op_ok_mark_closed_leave show ?thesis by (auto simp: abort_next_def split: if_splits)
next
  case CancelRequested
  with assms op_ok_cancel show ?thesis by auto
next
  case ForcedCleanup
  with assms op_ok_force show ?thesis by auto
next
  case (CheckpointReleased c)
  with assms op_ok_irrelevant(1) show ?thesis
    by (auto simp: release_checkpoint_def split: option.splits if_splits)
qed

lemma settle_next_stream:
  "so_emitted (settle_next (next_event op)) = so_emitted op
   \<or> (\<exists>e. so_emitted (settle_next (next_event op)) = so_emitted op @ [e])"
  by (cases "so_steps op ! so_step_index op")
     (auto simp: settle_next_def next_event_def Let_def)

lemma op_act_stream:
  "op_act a op = Some t \<Longrightarrow> so_emitted t = so_emitted op \<or> (\<exists>e. so_emitted t = so_emitted op @ [e])"
proof (cases a)
  case NextRequested
  assume "op_act a op = Some t"
  with NextRequested settle_next_stream [of "op\<lparr>so_next_active := True\<rparr>"] show ?thesis
    by (auto simp: anext_def split: if_splits)
next
  case DelayReleased
  assume "op_act a op = Some t"
  with DelayReleased settle_next_stream
    [of "op\<lparr>so_step_index := Suc (so_step_index op), so_consumer := ConsumerIdle\<rparr>"] show ?thesis
    by (auto simp: resume_delay_def split: fake_consumer.splits if_splits)
qed (auto simp: claim_events_def resume_delay_cancelled_def resume_cancellation_def abort_next_def
       cancel_operation_def force_cancel_cleanup_def release_checkpoint_def Let_def mark_closed_def
     split: fake_consumer.splits if_splits option.splits)

lemma op_act_closed:
  "so_closed op \<Longrightarrow> op_act a op = Some t \<Longrightarrow> so_closed t \<and> so_emitted t = so_emitted op"
  by (cases a)
     (auto simp: claim_events_def anext_def resume_delay_def resume_delay_cancelled_def
       resume_cancellation_def abort_next_def cancel_operation_def force_cancel_cleanup_def
       release_checkpoint_def Let_def mark_closed_def
     split: fake_consumer.splits if_splits option.splits)

lemma op_ok_terminal_closes:
  assumes "op_ok op" "e \<in> set (so_emitted op)" "is_stream_terminal e"
  shows "so_closed op"
proof (rule ccontr)
  assume opn: "\<not> so_closed op"
  from assms(1) obtain k where k: "steps_ok (so_steps op)" "consumed op k" "consumer_at op k"
    "so_closed op \<or> so_step_index op < length (so_steps op)" by (rule op_ok_cases)
  with opn consumed_open have less: "k < length (so_steps op)" by fastforce
  from k(2) have "so_emitted op = emits (take k (so_steps op))" "uncancelled (take k (so_steps op))"
    by (simp_all add: consumed_def)
  with assms(2,3) less obtain i where "i < k" "is_terminal_emit (so_steps op ! i)"
    using emits_terminal_index [of e k "so_steps op"] by auto
  with terminal_emit_is_last [of "so_steps op" k i] k(1) less
    \<open>uncancelled (take k (so_steps op))\<close> show False by simp
qed

interpretation fake: provider_stream op_act op_ok so_closed so_emitted
proof
  show "op_ok t" if "op_ok s" "op_act a s = Some t" for s a t using that by (rule op_ok_act)
  show "so_closed t \<and> so_emitted t = so_emitted s" if "so_closed s" "op_act a s = Some t" for s a t
    using that by (rule op_act_closed)
  show "so_emitted t = so_emitted s \<or> (\<exists>e. so_emitted t = so_emitted s @ [e])"
    if "op_ok s" "op_act a s = Some t" for s a t using that(2) by (rule op_act_stream)
  show "so_closed s" if "op_ok s" "e \<in> set (so_emitted s)" "is_stream_terminal e" for s e
    using that by (rule op_ok_terminal_closes)
qed

text \<open>What a verified operation has emitted.\<close>

definition script_output :: "fake_step list \<Rightarrow> provider_stream_event list" where
  "script_output steps = emits (takeWhile (\<lambda>s. \<not> is_cancellation s) steps)"

lemma uncancelled_takeWhile:
  "k < length steps \<Longrightarrow> uncancelled (take k steps) \<Longrightarrow> is_cancellation (steps ! k) \<Longrightarrow>
     takeWhile (\<lambda>s. \<not> is_cancellation s) steps = take k steps"
  unfolding uncancelled_def
  by (rule takeWhile_eq_take_P_nth) (auto simp: list_all_length)

lemma verified_output:
  assumes "op_ok op" "verification_failure op = None"
  shows "so_emitted op = script_output (so_steps op)"
proof -
  from assms(1) obtain k where k: "steps_ok (so_steps op)" "consumed op k" "consumer_at op k"
    "so_closed op \<or> so_step_index op < length (so_steps op)" by (rule op_ok_cases)
  from assms(2) have full: "so_closed op" "length (so_steps op) \<le> so_step_index op"
    by (auto simp: verification_failure_def Let_def split: if_splits)
  have emitted: "so_emitted op = emits (take k (so_steps op))" "uncancelled (take k (so_steps op))"
    using k(2) by (simp_all add: consumed_def)
  have "takeWhile (\<lambda>s. \<not> is_cancellation s) (so_steps op) = take k (so_steps op)"
  proof (cases "so_cancelled_at op")
    case None
    with k(2) full have "k = length (so_steps op)" by (simp add: consumed_def)
    with emitted(2) show ?thesis by (auto simp: uncancelled_def takeWhile_eq_all_conv list_all_iff)
  next
    case (Some c)
    with k(2) have "k < length (so_steps op)" "is_cancellation (so_steps op ! k)"
      by (simp_all add: consumed_def)
    with emitted(2) show ?thesis by (simp add: uncancelled_takeWhile)
  qed
  with emitted(1) show ?thesis by (simp add: script_output_def)
qed

lemma op_act_steps: "op_act a op = Some t \<Longrightarrow> so_steps t = so_steps op"
  by (cases a; cases "so_steps op ! so_step_index op"; cases "so_steps op ! Suc (so_step_index op)")
     (auto simp: claim_events_def anext_def resume_delay_def resume_delay_cancelled_def
       resume_cancellation_def abort_next_def cancel_operation_def force_cancel_cleanup_def
       release_checkpoint_def settle_next_def next_event_def Let_def mark_closed_def
     split: fake_consumer.splits if_splits option.splits)

lemma run_steps: "fake.run as op = Some t \<Longrightarrow> so_steps t = so_steps op"
  by (induction as arbitrary: op) (auto split: option.splits dest: op_act_steps)

subsection \<open>A consumer that keeps going\<close>

text \<open>
  A test that consumes the stream, releases every delay it reaches and cancels at the
  cancellation checkpoint: one action per unit of fuel.
\<close>

fun drive :: "nat \<Rightarrow> scripted_operation \<Rightarrow> scripted_operation" where
  "drive 0 op = op"
| "drive (Suc n) op =
     (if so_closed op then op
      else case so_consumer op of
        ConsumerIdle \<Rightarrow> (case anext op of Inl _ \<Rightarrow> op | Inr t \<Rightarrow> drive n t)
      | ConsumerInDelay c \<Rightarrow>
          (case release_checkpoint op c of Inl _ \<Rightarrow> op | Inr t \<Rightarrow> drive n (resume_delay t))
      | ConsumerInCancellation c \<Rightarrow>
          drive n (resume_cancellation c (snd (cancel_operation op))))"

definition driven :: "scripted_operation \<Rightarrow> bool" where
  "driven op \<longleftrightarrow> op_ok op \<and> so_events_claimed op
     \<and> (so_closed op \<longrightarrow> so_step_index op = length (so_steps op)) \<and> (\<not> so_closed op \<longrightarrow>
     \<not> so_cancel_requested op
     \<and> set (so_released op)
         \<subseteq> set (List.map_filter checkpoint_of (take (so_step_index op) (so_steps op)))
     \<and> (\<forall>c. so_consumer op = ConsumerInDelay c \<longrightarrow> c \<in> set (so_reached op)))"

definition distance :: "scripted_operation \<Rightarrow> nat" where
  "distance op =
     (if so_closed op then 0
      else 2 * (length (so_steps op) - so_step_index op)
           + (if so_consumer op = ConsumerIdle then 1 else 0))"

lemma find_checkpoint_delay:
  "distinct (List.map_filter checkpoint_of steps) \<Longrightarrow> k < length steps \<Longrightarrow>
     steps ! k = FakeProviderDelay c \<Longrightarrow> find_checkpoint steps c = Some DelayCheckpoint"
proof (induction steps arbitrary: k)
  case Nil
  then show ?case by simp
next
  case (Cons s ss)
  show ?case
  proof (cases k)
    case 0
    with Cons.prems show ?thesis by simp
  next
    case (Suc j)
    with Cons.prems have "FakeProviderDelay c \<in> set ss" by (auto simp: in_set_conv_nth)
    then have "c \<in> set (List.map_filter checkpoint_of ss)"
      by (force simp: List.map_filter_def image_iff)
    with Cons Suc show ?thesis
      by (cases s) (auto simp: List.map_filter_def)
  qed
qed

lemma fresh_checkpoint:
  assumes "distinct (List.map_filter checkpoint_of steps)" "k < length steps"
    "checkpoint_of (steps ! k) = Some c"
  shows "c \<notin> set (List.map_filter checkpoint_of (take k steps))"
proof -
  have "steps = take k steps @ steps ! k # drop (Suc k) steps"
    using assms(2) by (rule id_take_nth_drop)
  then have "List.map_filter checkpoint_of steps =
      List.map_filter checkpoint_of (take k steps)
      @ c # List.map_filter checkpoint_of (drop (Suc k) steps)"
    using assms(3) by (metis List.map_filter_simps(2) map_filter_append option.simps(5))
  with assms(1) show ?thesis by simp
qed

lemma settle_next_fields:
  assumes "\<not> so_closed op" "\<not> so_cancel_requested op"
  defines "t \<equiv> settle_next (next_event op)"
  shows "so_released t = so_released op" "so_events_claimed t = so_events_claimed op"
    "so_steps t = so_steps op" "\<not> so_cancel_requested t"
    "case so_steps op ! so_step_index op of
       FakeProviderEmit e \<Rightarrow>
         so_consumer t = ConsumerIdle \<and> so_step_index t = Suc (so_step_index op)
         \<and> (so_closed t \<longleftrightarrow> Suc (so_step_index op) = length (so_steps op))
     | FakeProviderDelay c \<Rightarrow>
         so_consumer t = ConsumerInDelay c \<and> so_step_index t = so_step_index op
         \<and> \<not> so_closed t \<and> c \<in> set (so_reached t)
     | FakeProviderWaitForCancellation c \<Rightarrow>
         so_consumer t = ConsumerInCancellation c \<and> so_step_index t = so_step_index op
         \<and> \<not> so_closed t"
  using assms
  by (cases "so_steps op ! so_step_index op";
      simp add: settle_next_def next_event_def leave_next_def mark_closed_def Let_def)+

lemma settle_next_distance:
  assumes "\<not> so_closed op" "\<not> so_cancel_requested op" "so_step_index op < length (so_steps op)"
  shows "distance (settle_next (next_event op)) \<le> 2 * (length (so_steps op) - so_step_index op)"
  using settle_next_fields [OF assms(1,2)] assms(3)
  by (auto simp: distance_def split: fake_step.splits)

lemma settle_next_driven:
  assumes "op_ok (settle_next (next_event op))" "\<not> so_closed op" "\<not> so_cancel_requested op"
    and "so_events_claimed op" "so_step_index op < length (so_steps op)"
    and "set (so_released op)
         \<subseteq> set (List.map_filter checkpoint_of (take (so_step_index op) (so_steps op)))"
  shows "driven (settle_next (next_event op))"
proof -
  have grow: "set (List.map_filter checkpoint_of (take (so_step_index op) (so_steps op)))
      \<subseteq> set (List.map_filter checkpoint_of (take (Suc (so_step_index op)) (so_steps op)))"
    using assms(5) by (simp add: take_Suc_conv_app_nth map_filter_append)
  show ?thesis
    using settle_next_fields [OF assms(2,3)] assms(1,4,6) grow
    unfolding driven_def by (cases "so_steps op ! so_step_index op") auto
qed

lemma driven_start: "steps_ok steps \<Longrightarrow> driven ((new_operation n steps)\<lparr>so_events_claimed := True\<rparr>)"
  using op_ok_irrelevant(2) [OF op_ok_new] by (simp add: driven_def) (simp add: new_operation_def)

lemma drive_step:
  assumes "driven op" "\<not> so_closed op"
  obtains t where "\<And>n. drive (Suc n) op = drive n t" "driven t" "distance t < distance op"
    "so_steps t = so_steps op"
proof -
  from assms(1) have ok: "op_ok op" and claimed: "so_events_claimed op"
    and quiet: "\<not> so_cancel_requested op"
    and released: "set (so_released op)
         \<subseteq> set (List.map_filter checkpoint_of (take (so_step_index op) (so_steps op)))"
    and reached: "\<And>c. so_consumer op = ConsumerInDelay c \<Longrightarrow> c \<in> set (so_reached op)"
    using assms(2) by (simp_all add: driven_def)
  from ok obtain k where k: "steps_ok (so_steps op)" "consumed op k" "consumer_at op k"
    "so_closed op \<or> so_step_index op < length (so_steps op)" by (rule op_ok_cases)
  note none = consumed_open [OF k(2) assms(2)]
  have range: "so_step_index op < length (so_steps op)" using k(4) assms(2) by simp
  show thesis
  proof (cases "so_consumer op")
    case ConsumerIdle
    let ?op = "op\<lparr>so_next_active := True\<rparr>"
    let ?t = "settle_next (next_event ?op)"
    have eq: "anext op = Inr ?t" using claimed assms(2) by (simp add: anext_def)
    have "op_ok ?t" using op_ok_next [OF ok ConsumerIdle eq] .
    then have "driven ?t" using settle_next_driven [of ?op] assms(2) quiet claimed range released by simp
    moreover have "distance ?t < distance op"
      using settle_next_distance [of ?op] assms(2) quiet range ConsumerIdle by (simp add: distance_def)
    moreover have "so_steps ?t = so_steps op" using settle_next_fields(3) [of ?op] assms(2) quiet by simp
    ultimately show thesis using that [of ?t] eq assms(2) ConsumerIdle by simp
  next
    case (ConsumerInDelay c)
    with k(3) none have c: "so_steps op ! so_step_index op = FakeProviderDelay c" "so_next_active op"
      by (simp_all add: consumer_at_def)
    let ?r = "op\<lparr>so_released := so_released op @ [c]\<rparr>"
    have "c \<notin> set (so_released op)"
      using fresh_checkpoint [OF steps_ok_facts(1) [OF k(1)] range] c(1) released by auto
    then have release: "release_checkpoint op c = Inr ?r"
      using find_checkpoint_delay [OF steps_ok_facts(1) [OF k(1)] range c(1)] assms(2)
        reached [OF ConsumerInDelay] by (simp add: release_checkpoint_def)
    let ?op = "?r\<lparr>so_step_index := Suc (so_step_index op), so_consumer := ConsumerIdle\<rparr>"
    let ?t = "settle_next (next_event ?op)"
    have eq: "resume_delay ?r = ?t" using assms(2) by (simp add: resume_delay_def)
    have okt: "op_ok ?t"
      using op_ok_resume_delay [OF op_ok_irrelevant(1) [OF ok, of "so_released op @ [c]"], of c]
        ConsumerInDelay eq by simp
    have in_range: "Suc (so_step_index op) < length (so_steps op)"
    proof (rule ccontr)
      assume "\<not> ?thesis"
      then have last: "so_step_index op = length (so_steps op) - 1" using range by simp
      have "take (Suc k) (so_steps op) = take k (so_steps op) @ [FakeProviderDelay c]"
        using c(1) range none by (simp add: take_Suc_conv_app_nth)
      moreover have "take (Suc k) (so_steps op) = so_steps op" using last range none by simp
      moreover have "uncancelled (take k (so_steps op) @ [FakeProviderDelay c])"
        using k(2) by (simp add: consumed_def uncancelled_def)
      ultimately have "uncancelled (so_steps op)" by simp
      then have "step_indexes is_cancellation (so_steps op) = []"
        by (auto simp: step_indexes_def uncancelled_def list_all_length filter_empty_conv)
      from steps_ok_facts(2) [OF k(1) this] last
      have "so_step_index op \<in> set (step_indexes is_terminal_emit (so_steps op))" by simp
      with c(1) show False by (simp add: set_step_indexes)
    qed
    have "set (so_released ?r) \<subseteq>
        set (List.map_filter checkpoint_of (take (Suc (so_step_index op)) (so_steps op)))"
      using released range c(1) by (auto simp: take_Suc_conv_app_nth map_filter_append)
    then have "driven ?t"
      using settle_next_driven [of ?op] okt assms(2) quiet claimed in_range by simp
    moreover have "distance ?t < distance op"
      using settle_next_distance [of ?op] assms(2) quiet in_range ConsumerInDelay
      by (simp add: distance_def)
    moreover have "so_steps ?t = so_steps op" using settle_next_fields(3) [of ?op] assms(2) quiet by simp
    ultimately show thesis using that [of ?t] eq release assms(2) ConsumerInDelay by simp
  next
    case (ConsumerInCancellation c)
    let ?r = "snd (cancel_operation op)"
    let ?t = "resume_cancellation c ?r"
    have r: "op_ok ?r" using ok by (rule op_ok_cancel)
    have "so_next_active op" using k(3) ConsumerInCancellation by (simp add: consumer_at_def)
    then have fields: "?r = op\<lparr>so_cancel_requested := True\<rparr>"
      using assms(2) by (simp add: cancel_operation_def Let_def)
    then have "op_ok ?t" using op_ok_resume_cancellation [OF r] ConsumerInCancellation by simp
    moreover have "so_closed ?t" "so_events_claimed ?t" "so_steps ?t = so_steps op"
      "so_step_index ?t = length (so_steps op)"
      using claimed fields
      by (simp_all add: resume_cancellation_def leave_next_def mark_closed_def Let_def)
    ultimately show thesis
      using that [of ?t] assms(2) ConsumerInCancellation range
      by (simp add: driven_def distance_def)
  qed
qed

lemma drive_completes:
  "driven op \<Longrightarrow> distance op \<le> n \<Longrightarrow>
     so_closed (drive n op) \<and> driven (drive n op) \<and> so_steps (drive n op) = so_steps op"
proof (induction n arbitrary: op)
  case 0
  then have "so_closed op"
    by (cases "so_closed op") (auto simp: distance_def driven_def op_ok_def split: if_splits)
  with 0 show ?case by simp
next
  case (Suc n)
  show ?case
  proof (cases "so_closed op")
    case True
    with Suc.prems show ?thesis by simp
  next
    case False
    from drive_step [OF Suc.prems(1) this] obtain t where
      t: "\<And>n. drive (Suc n) op = drive n t" "driven t" "distance t < distance op"
        "so_steps t = so_steps op" by blast
    with Suc.prems(2) have "distance t \<le> n" by simp
    with Suc.IH [OF t(2)] t(1,4) show ?thesis by metis
  qed
qed

subsection \<open>Matching requests\<close>

lemma conversation_mismatches_Nil:
  "conversation_mismatches i ps = [] \<longleftrightarrow> list_all (\<lambda>(e, a). e = a) ps"
  by (induction i ps rule: conversation_mismatches.induct) auto

lemma instruction_mismatches_Nil:
  "instruction_mismatches i ps = [] \<longleftrightarrow> list_all (\<lambda>(e, a). e = a) ps"
  by (induction i ps rule: instruction_mismatches.induct) auto

lemma zip_all_equal:
  "length xs = length ys \<Longrightarrow> list_all (\<lambda>(e, a). e = a) (zip xs ys) \<longleftrightarrow> xs = ys"
  by (induction xs ys rule: list_induct2) auto

lemma no_mismatch_iff: "request_mismatch_paths expected actual = [] \<longleftrightarrow> expected = actual"
proof
  assume none: "request_mismatch_paths expected actual = []"
  then have "length (conversation expected) = length (conversation actual)"
    "length (repository_instructions expected) = length (repository_instructions actual)"
    by (simp_all add: request_mismatch_paths_def split: if_splits)
  with none show "expected = actual"
    by (simp add: request_mismatch_paths_def conversation_mismatches_Nil instruction_mismatches_Nil
        zip_all_equal)
next
  assume "expected = actual"
  then show "request_mismatch_paths expected actual = []"
    by (simp add: request_mismatch_paths_def conversation_mismatches_Nil instruction_mismatches_Nil
        zip_all_equal)
qed

subsection \<open>The abstract provider: a queue of expected requests\<close>

definition pending_requests :: "fake_provider \<Rightarrow> provider_request list" where
  "pending_requests fp = map ex_request (drop (fp_next_exchange_index fp) (fp_exchanges fp))"

definition last_verified :: "fake_provider \<Rightarrow> bool" where
  "last_verified fp \<longleftrightarrow>
     fp_operations fp = [] \<or> verification_failure (last (fp_operations fp)) = None"

definition abstract_start ::
  "provider_request list \<Rightarrow> bool \<Rightarrow> provider_request option \<Rightarrow> provider_request list option" where
  "abstract_start queue verified arg =
     (case queue of
        [] \<Rightarrow> None
      | q # qs \<Rightarrow> if verified \<and> arg = Some q then Some qs else None)"

lemma pending_requests_cases:
  "pending_requests fp =
     (if fp_next_exchange_index fp < length (fp_exchanges fp)
      then ex_request (fp_exchanges fp ! fp_next_exchange_index fp)
           # map ex_request (drop (Suc (fp_next_exchange_index fp)) (fp_exchanges fp))
      else [])"
  by (simp add: pending_requests_def flip: Cons_nth_drop_Suc)

subsection \<open>The properties of the scripted provider\<close>

definition example_script :: "fake_step list" where
  "example_script =
     [FakeProviderEmit (ProviderTextDelta (lit ''a'')), FakeProviderDelay (lit ''gate''),
      FakeProviderEmit (ProviderTextCompleted (lit ''a'')), FakeProviderEmit ProviderCompleted]"

lemma example_script_ok: "steps_ok example_script"
  by code_simp

text \<open>C24: Every interleaving of consumption, releases, cancellation, forced cleanup and consumer
  abort leaves the stream a prefix of the script's output up to the cancellation checkpoint, with
  no terminal event but a last one that has closed the operation, and when the exhaustion check
  passes the stream is the whole of that output.\<close>

theorem scripted_stream_contract:
  assumes "steps_ok steps" "fake.run actions (new_operation n steps) = Some op"
  shows "prefix (so_emitted op) (emits steps)
    \<and> list_all (\<lambda>e. \<not> is_stream_terminal e) (butlast (so_emitted op))
    \<and> (so_closed op \<or> list_all (\<lambda>e. \<not> is_stream_terminal e) (so_emitted op))
    \<and> (verification_failure op \<noteq> None \<or> so_emitted op = script_output steps)"
proof -
  have new: "op_ok (new_operation n steps)" using assms(1) by (rule op_ok_new)
  have ok: "op_ok op" using fake.run_valid [OF new assms(2)] .
  have steps: "so_steps op = steps" using run_steps [OF assms(2)] by (simp add: new_operation_def)
  from ok obtain k where "consumed op k" by (rule op_ok_cases)
  then have "prefix (so_emitted op) (emits steps)"
    using steps emits_take_prefix by (auto simp: consumed_def)
  moreover have "list_all (\<lambda>e. \<not> is_stream_terminal e) (butlast (so_emitted op))"
    using fake.run_one_terminal [OF new assms(2)] by (simp add: new_operation_def)
  moreover have "so_closed op \<or> list_all (\<lambda>e. \<not> is_stream_terminal e) (so_emitted op)"
    using op_ok_terminal_closes [OF ok] by (auto simp: list_all_iff)
  moreover have "verification_failure op \<noteq> None \<or> so_emitted op = script_output steps"
    using verified_output [OF ok] steps by auto
  ultimately show ?thesis by blast
qed

theorem scripted_stream_contract_witness:
  "\<exists>op. fake.run [ClaimEvents, NextRequested, NextRequested, CancelRequested, DelayCancelled]
      (new_operation 1 example_script) = Some op
    \<and> so_emitted op = [ProviderTextDelta (lit ''a'')]
    \<and> prefix (so_emitted op) (emits example_script)"
proof -
  let ?as = "[ClaimEvents, NextRequested, NextRequested, CancelRequested, DelayCancelled]"
  have "case fake.run ?as (new_operation 1 example_script) of None \<Rightarrow> False
      | Some op \<Rightarrow> so_emitted op = [ProviderTextDelta (lit ''a'')]"
    by (simp add: example_script_def new_operation_def claim_events_def anext_def next_event_def
        settle_next_def leave_next_def cancel_operation_def resume_delay_cancelled_def
        mark_closed_def Let_def)
  then obtain op where op: "fake.run ?as (new_operation 1 example_script) = Some op"
    "so_emitted op = [ProviderTextDelta (lit ''a'')]" by (auto split: option.splits)
  with scripted_stream_contract [OF example_script_ok op(1)] show ?thesis by blast
qed

text \<open>C25: A consumer that keeps asking, releases each delay it reaches and cancels at the
  cancellation checkpoint finishes every valid script within twice its length plus one actions:
  the operation is closed, has emitted the whole output up to the checkpoint, and passes the
  exhaustion check.\<close>

theorem scripted_stream_completes:
  assumes "steps_ok steps"
  shows "let op = drive (2 * length steps + 1)
                    ((new_operation n steps)\<lparr>so_events_claimed := True\<rparr>) in
    so_closed op \<and> verification_failure op = None \<and> so_emitted op = script_output steps"
proof -
  let ?start = "(new_operation n steps)\<lparr>so_events_claimed := True\<rparr>"
  let ?op = "drive (2 * length steps + 1) ?start"
  have start: "driven ?start" using assms by (rule driven_start)
  have "distance ?start \<le> 2 * length steps + 1" by (simp add: distance_def new_operation_def)
  from drive_completes [OF start this]
  have finished: "so_closed ?op" "driven ?op" "so_steps ?op = steps" by (simp_all add: new_operation_def)
  then have "verification_failure ?op = None"
    by (simp add: driven_def verification_failure_def)
  with finished verified_output [of ?op] show ?thesis by (simp add: Let_def driven_def)
qed

theorem scripted_stream_completes_witness:
  "so_emitted (drive 9 ((new_operation 1 example_script)\<lparr>so_events_claimed := True\<rparr>))
     = [ProviderTextDelta (lit ''a''), ProviderTextCompleted (lit ''a''), ProviderCompleted]"
proof -
  have "2 * length example_script + 1 = 9" "script_output example_script =
      [ProviderTextDelta (lit ''a''), ProviderTextCompleted (lit ''a''), ProviderCompleted]"
    by (simp_all add: example_script_def script_output_def)
  with scripted_stream_completes [OF example_script_ok, of 1] show ?thesis
    by (simp only: Let_def)
qed

text \<open>The field-by-field comparison of requests reports no difference exactly when the
  requests are equal.\<close>

theorem request_match_exact:
  "request_mismatch_paths expected actual = [] \<longleftrightarrow> expected = actual"
  by (rule no_mismatch_iff)

text \<open>The provider implements a queue of expected requests: a start succeeds exactly when the
  previous operation is verified and the request equals the head of the queue, and it then pops
  the head and opens a fresh operation for its script; a failed start changes nothing, and
  completion is asserted exactly when the queue is empty and every operation is verified.\<close>

theorem provider_refines_queue:
  "(case start_request fp arg of
      Inl e \<Rightarrow> abstract_start (pending_requests fp) (last_verified fp) arg = None
    | Inr fp' \<Rightarrow>
        abstract_start (pending_requests fp) (last_verified fp) arg = Some (pending_requests fp')
        \<and> fp_operations fp' = fp_operations fp
             @ [new_operation (fp_next_exchange_index fp')
                  (ex_steps (fp_exchanges fp ! fp_next_exchange_index fp))])
   \<and> (assert_complete fp = Inr () \<longleftrightarrow>
        pending_requests fp = [] \<and> list_all (\<lambda>op. verification_failure op = None) (fp_operations fp))"
proof -
  have start: "case start_request fp arg of
      Inl e \<Rightarrow> abstract_start (pending_requests fp) (last_verified fp) arg = None
    | Inr fp' \<Rightarrow>
        abstract_start (pending_requests fp) (last_verified fp) arg = Some (pending_requests fp')
        \<and> fp_operations fp' = fp_operations fp
             @ [new_operation (fp_next_exchange_index fp')
                  (ex_steps (fp_exchanges fp ! fp_next_exchange_index fp))]"
  proof (cases "last_verified fp")
    case False
    then show ?thesis
      by (auto simp: start_request_def last_verified_def abstract_start_def split: list.split)
  next
    case True
    then have none: "(if fp_operations fp = [] then None
        else verification_failure (last (fp_operations fp))) = None"
      by (auto simp: last_verified_def)
    note unfolded = start_request_def [of fp arg, unfolded none option.case Let_def]
    show ?thesis
    proof (cases "fp_next_exchange_index fp < length (fp_exchanges fp)")
      case False
      then show ?thesis unfolding unfolded by (simp add: abstract_start_def pending_requests_cases)
    next
      case in_range: True
      show ?thesis
      proof (cases "arg = Some (ex_request (fp_exchanges fp ! fp_next_exchange_index fp))")
        case True
        then show ?thesis
          using in_range \<open>last_verified fp\<close>
          unfolding unfolded pending_requests_cases [of fp]
          by (simp add: no_mismatch_iff abstract_start_def pending_requests_def)
      next
        case False
        then show ?thesis
          using in_range
          unfolding unfolded pending_requests_cases [of fp]
          by (cases arg) (auto simp: no_mismatch_iff abstract_start_def)
      qed
    qed
  qed
  have "assert_complete fp = Inr () \<longleftrightarrow>
        pending_requests fp = [] \<and> list_all (\<lambda>op. verification_failure op = None) (fp_operations fp)"
    using map_filter_Nil_iff [of verification_failure "fp_operations fp"]
    by (auto simp: assert_complete_def pending_requests_def split: list.split)
  with start show ?thesis by blast
qed

end
