(* ===== verification/Mock_Session.thy ===== *)
theory Mock_Session
  imports Session_State Event_Writer State_Action
begin

section \<open>The mocked session (mock_session.py)\<close>

text \<open>
  The learning-only session that emits a fixed answer. Its state lock makes cancellation
  acceptance, every delta and the completion atomic, so each locked block is one action; the
  steps of \<open>run\<close> between them are the values of \<open>ms_phase\<close> (\<open>mock_run_step\<close>), and \<open>mock_step\<close>
  interleaves them with cancellation requests, observers that raise, a sink that fails, a task that is cancelled during
  a write, and other producers of the shared writer. The delay before each delta is the injected
  checkpoint: it returns, raises, or loses against the cancellation signal.
\<close>

subsection \<open>The fixed answer\<close>

definition MOCK_RESPONSE_DELTAS :: "ustr list" where
  "MOCK_RESPONSE_DELTAS =
     map lit [''Mock response: '', ''the task crossed the process boundary '',
              ''and streamed back successfully.'']"

definition MOCK_RESPONSE_TEXT :: ustr where
  "MOCK_RESPONSE_TEXT = concat MOCK_RESPONSE_DELTAS"

datatype terminal_outcome = MockCompleted | MockCancelled

datatype cancellation_request_result = MockAccepted | MockAlreadyRequested | MockTerminal

datatype mock_phase =
    MockNotRun
  | MockEmitStarted
  | MockReduceStarted session_event
  | MockCheckpoint nat
  | MockDelta nat
  | MockCompletion
  | MockCancellation
  | MockReturned
  | MockAborted

record mock_config =
  mc_session_id :: ustr
  mc_command_id :: ustr
  mc_task :: ustr

record mock_session =
  ms_writer :: event_writer
  ms_lifecycle :: session_state
  ms_cancel_command_id :: "ustr option"
  ms_terminal_outcome :: "terminal_outcome option"
  ms_terminal_emitted :: bool
  ms_run_started :: bool
  ms_observer_attached :: bool
  ms_deferred :: "session_update option"
  ms_phase :: mock_phase

type_synonym 'a mock_action = "(mock_session, 'a) action"

definition lifecycle_invariant_error :: py_error where
  "lifecycle_invariant_error = RuntimeError ''session lifecycle invariant failed''"

definition MockSession :: "mock_config \<Rightarrow> event_writer \<Rightarrow> py_error + mock_session" where
  "MockSession cfg w =
     (let r = reduce_session_state INITIAL_SESSION_STATE
                (TaskSubmitted (mc_command_id cfg) (mc_task cfg)) in
      if \<not> reduction_ok r then Inl lifecycle_invariant_error
      else Inr \<lparr>ms_writer = w, ms_lifecycle = reduced_state r, ms_cancel_command_id = None,
                ms_terminal_outcome = None, ms_terminal_emitted = False, ms_run_started = False,
                ms_observer_attached = False, ms_deferred = None, ms_phase = MockNotRun\<rparr>)"

text \<open>The runner numbers its sessions.\<close>

definition mock_session_id :: "nat \<Rightarrow> ustr" where
  "mock_session_id n = lit ''ses_mock_'' @ dec_nat n"

definition create_mock_session ::
  "nat \<Rightarrow> ustr \<Rightarrow> ustr \<Rightarrow> event_writer \<Rightarrow> (py_error + mock_config \<times> mock_session) \<times> nat" where
  "create_mock_session count cmd t w =
     (let n = count + 1;
          cfg = \<lparr>mc_session_id = mock_session_id n, mc_command_id = cmd, mc_task = t\<rparr> in
      (map_sum id (Pair cfg) (MockSession cfg w), n))"

subsection \<open>Lifecycle\<close>

text \<open>\<open>observer\<close> is what the attached observer raises for this update, if anything.\<close>

definition notify_lifecycle :: "py_error option \<Rightarrow> unit mock_action" where
  "notify_lifecycle observer =
     ask (\<lambda>s. case observer of
         Some e \<Rightarrow> if ms_observer_attached s then raise e else ret ()
       | None \<Rightarrow> ret ())"

definition reduce_lifecycle :: "py_error option \<Rightarrow> session_update \<Rightarrow> unit mock_action" where
  "reduce_lifecycle observer u =
     ask (\<lambda>s.
       let r = reduce_session_state (ms_lifecycle s) u in
       if \<not> reduction_ok r then raise lifecycle_invariant_error
       else next_do (update (\<lambda>s. s\<lparr>ms_lifecycle := reduced_state r\<rparr>)) (notify_lifecycle observer))"

definition attach_mock_observer :: "py_error option \<Rightarrow> unit mock_action" where
  "attach_mock_observer observer =
     ask (\<lambda>s.
       if ms_run_started s
       then raise (RuntimeError ''a lifecycle observer must be attached before the session starts'')
       else if ms_observer_attached s
       then raise (RuntimeError ''a mock session accepts only one lifecycle observer'')
       else next_do (update (\<lambda>s. s\<lparr>ms_observer_attached := True\<rparr>)) (notify_lifecycle observer))"

definition request_cancellation ::
  "mock_config \<Rightarrow> py_error option \<Rightarrow> ustr \<Rightarrow> cancellation_request_result mock_action" where
  "request_cancellation cfg observer cmd =
     ask (\<lambda>s.
       if ms_cancel_command_id s \<noteq> None then ret MockAlreadyRequested
       else if ms_terminal_outcome s \<noteq> None then ret MockTerminal
       else
         let cancellation = CancelRequested cmd (mc_session_id cfg) in
         next_do
           (if status (ms_lifecycle s) = Starting
            then update (\<lambda>s. s\<lparr>ms_deferred := Some cancellation\<rparr>)
            else reduce_lifecycle observer cancellation)
         (next_do
           (update (\<lambda>s. s\<lparr>ms_cancel_command_id := Some cmd,
                           ms_terminal_outcome := Some MockCancelled\<rparr>))
           (ret MockAccepted)))"

subsection \<open>Emission\<close>

definition emit_mock_event ::
  "mock_config \<Rightarrow> write_env \<Rightarrow> string \<Rightarrow> document \<Rightarrow> ustr option \<Rightarrow> session_event mock_action" where
  "emit_mock_event cfg we event_type payload correlation_id =
     (\<lambda>s. case emit_session we (lit event_type) (mc_session_id cfg) payload correlation_id
                 (ms_writer s) of
            (Inl e, w) \<Rightarrow> (Inl e, s\<lparr>ms_writer := w\<rparr>)
          | (Inr (SessionEv ev), w) \<Rightarrow> (Inr ev, s\<lparr>ms_writer := w\<rparr>)
          | (Inr (RuntimeEv _), w) \<Rightarrow>
              (Inl (TypeError ''session event expected''), s\<lparr>ms_writer := w\<rparr>))"

definition emit_and_reduce ::
  "mock_config \<Rightarrow> write_env \<Rightarrow> py_error option \<Rightarrow> string \<Rightarrow> document \<Rightarrow> ustr option
     \<Rightarrow> unit mock_action" where
  "emit_and_reduce cfg we observer event_type payload correlation_id =
     seq (emit_mock_event cfg we event_type payload correlation_id)
       (\<lambda>ev. reduce_lifecycle observer (Wire ev))"

definition emit_started_event :: "mock_config \<Rightarrow> write_env \<Rightarrow> session_event mock_action" where
  "emit_started_event cfg we =
     emit_mock_event cfg we ''session.started'' [] (Some (mc_command_id cfg))"

definition reduce_started ::
  "(nat \<Rightarrow> py_error option) \<Rightarrow> session_event \<Rightarrow> unit mock_action" where
  "reduce_started observer ev =
     next_do (reduce_lifecycle (observer 0) (Wire ev))
       (ask (\<lambda>s. case ms_deferred s of
          None \<Rightarrow> ret ()
        | Some c \<Rightarrow> next_do (reduce_lifecycle (observer 1) c)
                     (update (\<lambda>s. s\<lparr>ms_deferred := None\<rparr>))))"

definition emit_delta_locked ::
  "mock_config \<Rightarrow> write_env \<Rightarrow> py_error option \<Rightarrow> ustr \<Rightarrow> bool mock_action" where
  "emit_delta_locked cfg we observer delta =
     ask (\<lambda>s.
       if ms_terminal_outcome s \<noteq> None then ret False
       else next_do (emit_and_reduce cfg we observer ''assistant.delta'' [(lit ''text'', JStr delta)]
                      (Some (mc_command_id cfg)))
              (ret True))"

definition emit_completion_locked ::
  "mock_config \<Rightarrow> (nat \<Rightarrow> write_env) \<Rightarrow> (nat \<Rightarrow> py_error option) \<Rightarrow> ustr \<Rightarrow> bool mock_action" where
  "emit_completion_locked cfg we observer completed_text =
     ask (\<lambda>s.
       if ms_terminal_outcome s \<noteq> None then ret False
       else next_do (emit_and_reduce cfg (we 0) (observer 0) ''assistant.completed''
                      [(lit ''text'', JStr completed_text)] (Some (mc_command_id cfg)))
       (next_do (update (\<lambda>s. s\<lparr>ms_terminal_outcome := Some MockCompleted\<rparr>))
       (next_do (emit_and_reduce cfg (we 1) (observer 1) ''session.completed'' []
                  (Some (mc_command_id cfg)))
       (next_do (update (\<lambda>s. s\<lparr>ms_terminal_emitted := True\<rparr>))
         (ret True)))))"

definition emit_selected_cancellation ::
  "mock_config \<Rightarrow> write_env \<Rightarrow> py_error option \<Rightarrow> unit mock_action" where
  "emit_selected_cancellation cfg we observer =
     ask (\<lambda>s.
       if ms_terminal_outcome s \<noteq> Some MockCancelled \<or> ms_terminal_emitted s then ret ()
       else case ms_cancel_command_id s of
         None \<Rightarrow> raise (RuntimeError ''cancelled session is missing its command correlation'')
       | Some cmd \<Rightarrow>
           next_do (emit_and_reduce cfg we observer ''session.cancelled'' [] (Some cmd))
             (update (\<lambda>s. s\<lparr>ms_terminal_emitted := True\<rparr>)))"

subsection \<open>The run\<close>

definition begin_mock_run :: "unit mock_action" where
  "begin_mock_run =
     ask (\<lambda>s. if ms_run_started s then raise (RuntimeError ''a mock session can run only once'')
              else update (\<lambda>s. s\<lparr>ms_run_started := True, ms_phase := MockEmitStarted\<rparr>))"

text \<open>Where the loop goes after the checkpoint and after a delta.\<close>

definition after_delta :: "nat \<Rightarrow> mock_phase" where
  "after_delta i =
     (if i + 1 < length MOCK_RESPONSE_DELTAS then MockCheckpoint (i + 1) else MockCompletion)"

definition goto_phase :: "mock_phase \<Rightarrow> mock_session \<Rightarrow> mock_session" where
  "goto_phase p s = s\<lparr>ms_phase := p\<rparr>"

text \<open>A segment of \<open>run\<close> that raises ends it.\<close>

definition settle_run ::
  "('a \<Rightarrow> mock_phase) \<Rightarrow> (py_error + 'a) \<times> mock_session \<Rightarrow> mock_session" where
  "settle_run continue r =
     (case r of (Inl _, s) \<Rightarrow> goto_phase MockAborted s | (Inr x, s) \<Rightarrow> goto_phase (continue x) s)"

definition mock_foreign :: "mock_config \<Rightarrow> emit_request \<Rightarrow> bool" where
  "mock_foreign cfg req \<longleftrightarrow>
     (case req of EmitRuntime _ _ _ \<Rightarrow> True | EmitSession _ sid _ _ \<Rightarrow> sid \<noteq> mc_session_id cfg)"

inductive mock_run_step :: "mock_config \<Rightarrow> mock_session \<Rightarrow> mock_session \<Rightarrow> bool" for cfg where
  begins: "mock_run_step cfg s (snd (begin_mock_run s))"
| emits_started:
    "ms_phase s = MockEmitStarted \<Longrightarrow>
       mock_run_step cfg s (settle_run MockReduceStarted (emit_started_event cfg we s))"
| reduces_started:
    "ms_phase s = MockReduceStarted ev \<Longrightarrow>
       mock_run_step cfg s (settle_run (\<lambda>_. MockCheckpoint 0) (reduce_started obs ev s))"
| checkpoint_passes:
    "ms_phase s = MockCheckpoint i \<Longrightarrow> ms_terminal_outcome s \<noteq> Some MockCancelled \<Longrightarrow>
       mock_run_step cfg s (goto_phase (MockDelta i) s)"
| checkpoint_cancelled:
    "ms_phase s = MockCheckpoint i \<Longrightarrow> ms_terminal_outcome s = Some MockCancelled \<Longrightarrow>
       mock_run_step cfg s (goto_phase MockCancellation s)"
| checkpoint_raises:
    "ms_phase s = MockCheckpoint i \<Longrightarrow> mock_run_step cfg s (goto_phase MockAborted s)"
| emits_delta:
    "ms_phase s = MockDelta i \<Longrightarrow>
       mock_run_step cfg s
         (settle_run (\<lambda>emitted. if emitted then after_delta i else MockCancellation)
            (emit_delta_locked cfg we ob (MOCK_RESPONSE_DELTAS ! i) s))"
| emits_completion:
    "ms_phase s = MockCompletion \<Longrightarrow>
       mock_run_step cfg s
         (settle_run (\<lambda>emitted. if emitted then MockReturned else MockCancellation)
            (emit_completion_locked cfg wes obs (concat MOCK_RESPONSE_DELTAS) s))"
| emits_cancellation:
    "ms_phase s = MockCancellation \<Longrightarrow>
       mock_run_step cfg s
         (settle_run (\<lambda>_. MockReturned) (emit_selected_cancellation cfg we ob s))"

inductive mock_step :: "mock_config \<Rightarrow> mock_session \<Rightarrow> mock_session \<Rightarrow> bool" for cfg where
  attaches: "mock_step cfg s (snd (attach_mock_observer ob s))"
| cancels: "mock_step cfg s (snd (request_cancellation cfg ob cmd s))"
| runs: "mock_run_step cfg s s' \<Longrightarrow> mock_step cfg s s'"
| task_cancelled:
    "ms_phase s \<notin> {MockNotRun, MockReturned} \<Longrightarrow> mock_step cfg s (goto_phase MockAborted s)"
| other_producer:
    "mock_foreign cfg req \<Longrightarrow>
       mock_step cfg s (s\<lparr>ms_writer := snd (emit we req (ms_writer s))\<rparr>)"

inductive mock_reachable :: "mock_config \<Rightarrow> event_writer \<Rightarrow> mock_session \<Rightarrow> bool" for cfg w where
  mock_created: "MockSession cfg w = Inr s \<Longrightarrow> mock_reachable cfg w s"
| mock_continues: "mock_reachable cfg w s \<Longrightarrow> mock_step cfg s s' \<Longrightarrow> mock_reachable cfg w s'"

inductive_cases mock_stepE: "mock_step cfg s s'"

subsection \<open>The published tape of one session\<close>

type_synonym tape_item = "session_event_type \<times> ustr \<times> ustr option"

fun event_text :: "session_event \<Rightarrow> ustr" where
  "event_text (AssistantDeltaEvent _ t) = t"
| "event_text (AssistantCompletedEvent _ t) = t"
| "event_text _ = []"

definition item_of :: "session_event \<Rightarrow> tape_item" where
  "item_of e = (session_event_type_of e, event_text e, event_correlation e)"

definition own_item :: "ustr \<Rightarrow> event \<Rightarrow> tape_item option" where
  "own_item sid e =
     (case e of
        SessionEv x \<Rightarrow> if event_session x = sid then Some (item_of x) else None
      | RuntimeEv _ \<Rightarrow> None)"

definition mock_tape :: "mock_config \<Rightarrow> mock_session \<Rightarrow> tape_item list" where
  "mock_tape cfg s =
     List.map_filter (own_item (mc_session_id cfg)) (published_events (ms_writer s))"

definition success_tape :: "mock_config \<Rightarrow> tape_item list" where
  "success_tape cfg =
     (let c = Some (mc_command_id cfg) in
      [(SessionStartedT, [], c)]
      @ map (\<lambda>d. (AssistantDeltaT, d, c)) MOCK_RESPONSE_DELTAS
      @ [(AssistantCompletedT, MOCK_RESPONSE_TEXT, c), (SessionCompletedT, [], c)])"

definition cancelled_item :: "mock_session \<Rightarrow> tape_item" where
  "cancelled_item s = (SessionCancelledT, [], ms_cancel_command_id s)"

lemma length_deltas [simp]: "length MOCK_RESPONSE_DELTAS = 3"
  by (simp add: MOCK_RESPONSE_DELTAS_def)

lemma success_tape_nth:
  "success_tape cfg ! 0 = (SessionStartedT, [], Some (mc_command_id cfg))"
  "i < 3 \<Longrightarrow> success_tape cfg ! Suc i
     = (AssistantDeltaT, MOCK_RESPONSE_DELTAS ! i, Some (mc_command_id cfg))"
  "success_tape cfg ! 4 = (AssistantCompletedT, MOCK_RESPONSE_TEXT, Some (mc_command_id cfg))"
  "success_tape cfg ! 5 = (SessionCompletedT, [], Some (mc_command_id cfg))"
  "length (success_tape cfg) = 6"
  by (simp_all add: success_tape_def Let_def nth_append)

lemma take_success_Suc:
  "n < 6 \<Longrightarrow> take n (success_tape cfg) @ [success_tape cfg ! n] = take (Suc n) (success_tape cfg)"
  by (simp add: take_Suc_conv_app_nth success_tape_nth(5))

lemma wrote_tape:
  assumes "wrote (ms_writer s) w' (SessionEv x)" "event_session x = mc_session_id cfg"
  shows "mock_tape cfg (s\<lparr>ms_writer := w'\<rparr>) = mock_tape cfg s @ [item_of x]"
  using assms
  by (simp add: wrote_def mock_tape_def own_item_def map_filter_append)

text \<open>A cancelled caller changes only what the emission returns, not what it publishes.\<close>

lemma emit_session_uncancelled:
  "snd (emit_session we t sid p c w) = snd (emit_session (we\<lparr>env_cancelled := False\<rparr>) t sid p c w)"
  "fst (emit_session we t sid p c w) = Inr ev \<Longrightarrow>
     fst (emit_session (we\<lparr>env_cancelled := False\<rparr>) t sid p c w) = Inr ev"
  by (auto simp: emit_session_def Let_def publish_event_def write_line_def session_event_data_def
      split: sum.splits option.splits if_splits)

definition emits_item ::
  "mock_config \<Rightarrow> string \<Rightarrow> document \<Rightarrow> ustr option \<Rightarrow> tape_item \<Rightarrow> bool" where
  "emits_item cfg n payload c it \<longleftrightarrow>
     (\<forall>we w ev w'. emit_session we (lit n) (mc_session_id cfg) payload c w = (Inr ev, w') \<longrightarrow>
        (\<exists>x. ev = SessionEv x \<and> item_of x = it \<and> event_session x = mc_session_id cfg \<and> wrote w w' ev))"

lemma emitted_item_facts [simp]:
  "se_session_id (emitted_base e sid c w) = sid" "se_correlation (emitted_base e sid c w) = c"
  by (simp_all add: emitted_base_def)

lemma mock_items:
  "emits_item cfg ''session.started'' [] c (SessionStartedT, [], c)"
  "emits_item cfg ''assistant.delta'' [(lit ''text'', JStr t)] c (AssistantDeltaT, t, c)"
  "emits_item cfg ''assistant.completed'' [(lit ''text'', JStr t)] c (AssistantCompletedT, t, c)"
  "emits_item cfg ''session.completed'' [] c (SessionCompletedT, [], c)"
  "emits_item cfg ''session.cancelled'' [] c (SessionCancelledT, [], c)"
  unfolding emits_item_def
  by (auto simp: item_of_def simp del: lit_simps dest!: emitted_events)

lemma emit_mock_event_effect:
  assumes item: "emits_item cfg n payload c it"
    and emit: "emit_mock_event cfg we n payload c s = (r, s')"
  shows "\<exists>w. s' = s\<lparr>ms_writer := w\<rparr>"
    and "mock_tape cfg s' = mock_tape cfg s @ [it] \<or> (mock_tape cfg s' = mock_tape cfg s \<and> (\<exists>e. r = Inl e))"
proof -
  let ?emit = "emit_session we (lit n) (mc_session_id cfg) payload c (ms_writer s)"
  let ?quiet = "emit_session (we\<lparr>env_cancelled := False\<rparr>) (lit n) (mc_session_id cfg) payload c
    (ms_writer s)"
  obtain q w where q: "?emit = (q, w)" by (rule prod.exhaust)
  obtain p v where p: "?quiet = (p, v)" by (rule prod.exhaust)
  have s': "s' = s\<lparr>ms_writer := w\<rparr>"
    using emit q by (auto simp: emit_mock_event_def split: sum.splits event.splits)
  then show "\<exists>w. s' = s\<lparr>ms_writer := w\<rparr>" by blast
  have v: "v = w" using emit_session_uncancelled(1) [of we "lit n"] q p by (metis snd_conv)
  show "mock_tape cfg s' = mock_tape cfg s @ [it] \<or> (mock_tape cfg s' = mock_tape cfg s \<and> (\<exists>e. r = Inl e))"
  proof (cases p)
    case (Inl e)
    from emit_session_Inl [OF p [unfolded Inl]] have "w = ms_writer s" using v by simp
    moreover have "\<exists>e. q = Inl e"
    proof (cases q)
      case (Inr b)
      then have "fst ?emit = Inr b" using q by simp
      from emit_session_uncancelled(2) [OF this] show ?thesis using p Inl by simp
    qed simp
    ultimately show ?thesis using emit q s' by (auto simp: emit_mock_event_def)
  next
    case (Inr ev)
    with item p v obtain x where x: "ev = SessionEv x" "item_of x = it"
      "event_session x = mc_session_id cfg" "wrote (ms_writer s) w (SessionEv x)"
      unfolding emits_item_def by blast
    with wrote_tape [OF x(4,3)] s' show ?thesis by simp
  qed
qed

text \<open>Everything but the writer and the lifecycle state.\<close>

definition control_of ::
  "mock_session \<Rightarrow> ustr option \<times> terminal_outcome option \<times> bool \<times> bool \<times> mock_phase" where
  "control_of s = (ms_cancel_command_id s, ms_terminal_outcome s, ms_terminal_emitted s,
                   ms_run_started s, ms_phase s)"

definition quiet_move :: "mock_config \<Rightarrow> mock_session \<Rightarrow> mock_session \<Rightarrow> bool" where
  "quiet_move cfg s t \<longleftrightarrow> control_of t = control_of s \<and> mock_tape cfg t = mock_tape cfg s"

interpretation quiet: action_order "quiet_move cfg" for cfg
  by unfold_locales (simp_all add: quiet_move_def)

lemma quiet_updates:
  "quiet_move cfg s (s\<lparr>ms_lifecycle := l\<rparr>)" "quiet_move cfg s (s\<lparr>ms_deferred := d\<rparr>)"
  "quiet_move cfg s (s\<lparr>ms_observer_attached := b\<rparr>)"
  by (simp_all add: quiet_move_def control_of_def mock_tape_def)

lemma quiet_reduce: "moves (quiet_move cfg) (reduce_lifecycle observer u)"
  unfolding reduce_lifecycle_def notify_lifecycle_def Let_def
  by (intro quiet.move_rules quiet_updates)

lemma quiet_reduce_started: "moves (quiet_move cfg) (reduce_started obs ev)"
  unfolding reduce_started_def
  by (intro quiet.move_rules quiet_updates quiet_reduce)

lemma quiet_attach: "moves (quiet_move cfg) (attach_mock_observer ob)"
  unfolding attach_mock_observer_def notify_lifecycle_def
  by (intro quiet.move_rules quiet_updates)

text \<open>An emission with its reduction adds the item, or raises with or without having added it.\<close>

lemma emit_and_reduce_effect:
  assumes item: "emits_item cfg n payload c it"
    and run: "emit_and_reduce cfg we ob n payload c s = (r, s')"
  shows "control_of s' = control_of s"
    and "mock_tape cfg s' = mock_tape cfg s @ [it] \<or> (mock_tape cfg s' = mock_tape cfg s \<and> (\<exists>e. r = Inl e))"
proof -
  obtain q u where q: "emit_mock_event cfg we n payload c s = (q, u)" by (rule prod.exhaust)
  from emit_mock_event_effect(1) [OF item q] have u: "control_of u = control_of s"
    by (auto simp: control_of_def)
  have "control_of s' = control_of s \<and>
    (mock_tape cfg s' = mock_tape cfg s @ [it] \<or> (mock_tape cfg s' = mock_tape cfg s \<and> (\<exists>e. r = Inl e)))"
  proof (cases q)
    case (Inl e)
    with run q have "s' = u" "r = Inl e" by (simp_all add: emit_and_reduce_def seq_simps)
    with u emit_mock_event_effect(2) [OF item q] show ?thesis by auto
  next
    case (Inr ev)
    with run q have red: "reduce_lifecycle ob (Wire ev) u = (r, s')"
      by (simp add: emit_and_reduce_def seq_simps)
    from movesD [OF quiet_reduce red] have "quiet_move cfg u s'" .
    with u emit_mock_event_effect(2) [OF item q] Inr show ?thesis by (auto simp: quiet_move_def)
  qed
  then show "control_of s' = control_of s"
    and "mock_tape cfg s' = mock_tape cfg s @ [it] \<or> (mock_tape cfg s' = mock_tape cfg s \<and> (\<exists>e. r = Inl e))"
    by simp_all
qed

subsection \<open>The invariant\<close>

definition cut_tape :: "mock_config \<Rightarrow> mock_session \<Rightarrow> tape_item list \<Rightarrow> bool" where
  "cut_tape cfg s tape \<longleftrightarrow>
     (\<exists>k. 1 \<le> k \<and> k \<le> 4 \<and> tape = take k (success_tape cfg) @ [cancelled_item s])"

text \<open>What the tape is at each stage of the run, and which stages an outcome allows.\<close>

definition phase_tape :: "mock_config \<Rightarrow> mock_session \<Rightarrow> bool" where
  "phase_tape cfg s \<longleftrightarrow>
     (case ms_phase s of
        MockNotRun \<Rightarrow> mock_tape cfg s = []
      | MockEmitStarted \<Rightarrow> mock_tape cfg s = []
      | MockReduceStarted ev \<Rightarrow> mock_tape cfg s = take 1 (success_tape cfg)
      | MockCheckpoint i \<Rightarrow> i < 3 \<and> mock_tape cfg s = take (Suc i) (success_tape cfg)
      | MockDelta i \<Rightarrow> i < 3 \<and> mock_tape cfg s = take (Suc i) (success_tape cfg)
      | MockCompletion \<Rightarrow> mock_tape cfg s = take 4 (success_tape cfg)
      | MockCancellation \<Rightarrow> ms_terminal_outcome s = Some MockCancelled
          \<and> (\<exists>k. 1 \<le> k \<and> k \<le> 4 \<and> mock_tape cfg s = take k (success_tape cfg))
      | MockReturned \<Rightarrow>
          (ms_terminal_outcome s = Some MockCompleted \<and> mock_tape cfg s = success_tape cfg)
          \<or> (ms_terminal_outcome s = Some MockCancelled \<and> cut_tape cfg s (mock_tape cfg s))
      | MockAborted \<Rightarrow>
          (\<exists>k. mock_tape cfg s = take k (success_tape cfg))
          \<or> (ms_terminal_outcome s = Some MockCancelled \<and> cut_tape cfg s (mock_tape cfg s)))"

definition mock_ok :: "mock_config \<Rightarrow> mock_session \<Rightarrow> bool" where
  "mock_ok cfg s \<longleftrightarrow>
     phase_tape cfg s
     \<and> (ms_run_started s \<longleftrightarrow> ms_phase s \<noteq> MockNotRun)
     \<and> (ms_cancel_command_id s \<noteq> None \<longleftrightarrow> ms_terminal_outcome s = Some MockCancelled)
     \<and> (ms_terminal_outcome s = Some MockCompleted \<longrightarrow> ms_phase s \<in> {MockReturned, MockAborted})
     \<and> (ms_terminal_emitted s \<longrightarrow> ms_phase s \<in> {MockReturned, MockAborted})"

lemma cut_tape_cong: "ms_cancel_command_id t = ms_cancel_command_id s \<Longrightarrow> cut_tape cfg t = cut_tape cfg s"
  by (simp add: cut_tape_def cancelled_item_def fun_eq_iff)

lemma control_ofD:
  assumes "control_of t = control_of s"
  shows "ms_cancel_command_id t = ms_cancel_command_id s" "ms_terminal_outcome t = ms_terminal_outcome s"
    "ms_terminal_emitted t = ms_terminal_emitted s" "ms_run_started t = ms_run_started s"
    "ms_phase t = ms_phase s"
  using assms by (simp_all add: control_of_def)

lemma quiet_mock_ok:
  assumes "quiet_move cfg s t" "mock_ok cfg s"
  shows "mock_ok cfg t"
proof -
  from assms(1) have c: "control_of t = control_of s" "mock_tape cfg t = mock_tape cfg s"
    by (simp_all add: quiet_move_def)
  note f = control_ofD [OF c(1)]
  show ?thesis
    using assms(2) unfolding mock_ok_def phase_tape_def f c(2) cut_tape_cong [OF f(1)] .
qed

lemma tape_goto [simp]: "mock_tape cfg (goto_phase p s) = mock_tape cfg s"
  by (simp add: goto_phase_def mock_tape_def)

lemma goto_phase_simps [simp]:
  "ms_phase (goto_phase p s) = p" "ms_terminal_outcome (goto_phase p s) = ms_terminal_outcome s"
  "ms_run_started (goto_phase p s) = ms_run_started s"
  "ms_cancel_command_id (goto_phase p s) = ms_cancel_command_id s"
  "ms_terminal_emitted (goto_phase p s) = ms_terminal_emitted s"
  by (simp_all add: goto_phase_def)

lemma cut_goto [simp]: "cut_tape cfg (goto_phase p s) = cut_tape cfg s"
  by (rule cut_tape_cong) simp

text \<open>Whatever the stage, an aborted run may leave the tape as it is.\<close>

lemma mock_tape_legal:
  assumes "mock_ok cfg s"
  shows "(\<exists>k. mock_tape cfg s = take k (success_tape cfg))
      \<or> (ms_terminal_outcome s = Some MockCancelled \<and> cut_tape cfg s (mock_tape cfg s))"
  using assms take_all [of "success_tape cfg" 6]
  unfolding mock_ok_def phase_tape_def
  by (cases "ms_phase s")
     (auto simp: success_tape_nth(5) intro: exI [of _ 0] exI [of _ 1] exI [of _ "6::nat"])

lemma mock_ok_aborted:
  "mock_ok cfg s \<Longrightarrow> ms_phase s \<noteq> MockNotRun \<Longrightarrow> mock_ok cfg (goto_phase MockAborted s)"
  using mock_tape_legal [of cfg s] by (auto simp: mock_ok_def phase_tape_def)

text \<open>An emission inside a stage: the control part stays, and the tape grows by the item or the run aborts.\<close>

lemma abort_after_emission:
  assumes "mock_ok cfg s" "ms_phase s \<noteq> MockNotRun" "ms_phase s \<noteq> MockReturned"
    and "control_of t = control_of s"
    and "mock_tape cfg t = mock_tape cfg s
         \<or> (\<exists>k. mock_tape cfg t = take k (success_tape cfg))
         \<or> (ms_terminal_outcome s = Some MockCancelled \<and> cut_tape cfg s (mock_tape cfg t))"
  shows "mock_ok cfg (goto_phase MockAborted t)"
proof -
  note f = control_ofD [OF assms(4)]
  have "(\<exists>k. mock_tape cfg t = take k (success_tape cfg))
      \<or> (ms_terminal_outcome s = Some MockCancelled \<and> cut_tape cfg s (mock_tape cfg t))"
    using assms(5) mock_tape_legal [OF assms(1)] by auto
  with assms(1,2) show ?thesis
    unfolding mock_ok_def phase_tape_def
    by (simp add: f cut_tape_cong [OF f(1)])
qed

lemma mock_ok_goto:
  assumes "mock_ok cfg s" "control_of t = control_of s" "ms_phase s \<noteq> MockNotRun" "p \<noteq> MockNotRun"
    and "phase_tape cfg (goto_phase p t)"
    and "ms_terminal_outcome s = Some MockCompleted \<or> ms_terminal_emitted s \<Longrightarrow> p \<in> {MockReturned, MockAborted}"
  shows "mock_ok cfg (goto_phase p t)"
  using assms control_ofD [OF assms(2)] unfolding mock_ok_def by auto

lemma started_stage:
  assumes ok: "mock_ok cfg s" and at: "ms_phase s = MockEmitStarted"
  shows "mock_ok cfg (settle_run MockReduceStarted (emit_started_event cfg we s))"
proof -
  obtain r t where r: "emit_started_event cfg we s = (r, t)" by (rule prod.exhaust)
  note effect = emit_mock_event_effect [OF mock_items(1) r [unfolded emit_started_event_def]]
  from effect(1) have c: "control_of t = control_of s" by (auto simp: control_of_def)
  have empty: "mock_tape cfg s = []" using ok at by (simp add: mock_ok_def phase_tape_def)
  have one: "[(SessionStartedT, [], Some (mc_command_id cfg))] = take 1 (success_tape cfg)"
    by (simp add: success_tape_def Let_def)
  show ?thesis
  proof (cases r)
    case (Inl e)
    have "mock_ok cfg (goto_phase MockAborted t)"
      using effect(2) empty one by (intro abort_after_emission [OF ok _ _ c]) (auto simp: at)
    with r Inl show ?thesis by (simp add: settle_run_def)
  next
    case (Inr ev)
    with effect(2) empty one have "mock_tape cfg t = take 1 (success_tape cfg)" by simp
    then have "mock_ok cfg (goto_phase (MockReduceStarted ev) t)"
      using ok at by (intro mock_ok_goto [OF ok c]) (auto simp: phase_tape_def mock_ok_def)
    with r Inr show ?thesis by (simp add: settle_run_def)
  qed
qed

lemma delta_stage:
  assumes ok: "mock_ok cfg s" and at: "ms_phase s = MockDelta i"
  shows "mock_ok cfg (settle_run (\<lambda>emitted. if emitted then after_delta i else MockCancellation)
            (emit_delta_locked cfg we ob (MOCK_RESPONSE_DELTAS ! i) s))"
proof -
  have i: "i < 3" "mock_tape cfg s = take (Suc i) (success_tape cfg)"
    using ok at by (simp_all add: mock_ok_def phase_tape_def)
  show ?thesis
  proof (cases "ms_terminal_outcome s = None")
    case False
    with ok at have cancelled: "ms_terminal_outcome s = Some MockCancelled"
      by (cases "ms_terminal_outcome s"; cases "the (ms_terminal_outcome s)") (auto simp: mock_ok_def)
    have "\<exists>k. 1 \<le> k \<and> k \<le> 4 \<and> mock_tape cfg s = take k (success_tape cfg)"
      using i by (intro exI [of _ "Suc i"]) simp
    then have "mock_ok cfg (goto_phase MockCancellation s)"
      using ok at cancelled
      by (intro mock_ok_goto [OF ok refl]) (auto simp: phase_tape_def mock_ok_def)
    with False show ?thesis by (simp add: emit_delta_locked_def settle_run_def)
  next
    case True
    obtain r t where r: "emit_and_reduce cfg we ob ''assistant.delta''
        [(lit ''text'', JStr (MOCK_RESPONSE_DELTAS ! i))] (Some (mc_command_id cfg)) s = (r, t)"
      by (rule prod.exhaust)
    note effect = emit_and_reduce_effect [OF mock_items(2) r]
    have grown: "mock_tape cfg s @ [(AssistantDeltaT, MOCK_RESPONSE_DELTAS ! i, Some (mc_command_id cfg))]
        = take (Suc (Suc i)) (success_tape cfg)"
      using take_success_Suc [of "Suc i" cfg] i by (simp add: success_tape_nth(2))
    show ?thesis
    proof (cases r)
      case (Inl e)
      have "mock_ok cfg (goto_phase MockAborted t)"
        using effect(2) grown by (intro abort_after_emission [OF ok _ _ effect(1)]) (auto simp: at)
      with r Inl True show ?thesis by (simp add: emit_delta_locked_def settle_run_def seq_simps)
    next
      case (Inr u)
      with effect(2) grown have "mock_tape cfg t = take (Suc (Suc i)) (success_tape cfg)" by simp
      then have "mock_ok cfg (goto_phase (after_delta i) t)"
        using ok at i True
        by (intro mock_ok_goto [OF ok effect(1)]; cases "i = 2")
           (auto simp: phase_tape_def mock_ok_def after_delta_def)
      with r Inr True show ?thesis by (simp add: emit_delta_locked_def settle_run_def seq_simps)
    qed
  qed
qed

lemma completion_stage:
  assumes ok: "mock_ok cfg s" and at: "ms_phase s = MockCompletion"
  shows "mock_ok cfg (settle_run (\<lambda>emitted. if emitted then MockReturned else MockCancellation)
            (emit_completion_locked cfg wes obs (concat MOCK_RESPONSE_DELTAS) s))"
proof -
  have tape: "mock_tape cfg s = take 4 (success_tape cfg)"
    using ok at by (simp add: mock_ok_def phase_tape_def)
  show ?thesis
  proof (cases "ms_terminal_outcome s = None")
    case False
    with ok at have cancelled: "ms_terminal_outcome s = Some MockCancelled"
      by (cases "ms_terminal_outcome s"; cases "the (ms_terminal_outcome s)") (auto simp: mock_ok_def)
    have "mock_ok cfg (goto_phase MockCancellation s)"
      using ok at cancelled tape
      by (intro mock_ok_goto [OF ok refl]) (auto simp: phase_tape_def mock_ok_def intro: exI [of _ 4])
    with False show ?thesis by (simp add: emit_completion_locked_def settle_run_def)
  next
    case True
    with ok at have flags: "ms_cancel_command_id s = None" "\<not> ms_terminal_emitted s" "ms_run_started s"
      by (auto simp: mock_ok_def)
    obtain r t where r: "emit_and_reduce cfg (wes 0) (obs 0) ''assistant.completed''
        [(lit ''text'', JStr (concat MOCK_RESPONSE_DELTAS))] (Some (mc_command_id cfg)) s = (r, t)"
      by (rule prod.exhaust)
    note effect = emit_and_reduce_effect [OF mock_items(3) r]
    note f = control_ofD [OF effect(1)]
    have grown: "mock_tape cfg s
        @ [(AssistantCompletedT, concat MOCK_RESPONSE_DELTAS, Some (mc_command_id cfg))]
        = take 5 (success_tape cfg)"
      using take_success_Suc [of 4 cfg] tape
      by (simp add: success_tape_nth(3) MOCK_RESPONSE_TEXT_def)
    show ?thesis
    proof (cases r)
      case (Inl e)
      have "mock_ok cfg (goto_phase MockAborted t)"
        using effect(2) grown by (intro abort_after_emission [OF ok _ _ effect(1)]) (auto simp: at)
      with r Inl True show ?thesis by (simp add: emit_completion_locked_def settle_run_def seq_simps)
    next
      case (Inr u)
      with effect(2) grown have five: "mock_tape cfg t = take 5 (success_tape cfg)" by simp
      let ?t = "t\<lparr>ms_terminal_outcome := Some MockCompleted\<rparr>"
      have same: "mock_tape cfg ?t = mock_tape cfg t" by (simp add: mock_tape_def)
      obtain q v where q: "emit_and_reduce cfg (wes 1) (obs 1) ''session.completed'' []
          (Some (mc_command_id cfg)) ?t = (q, v)" by (rule prod.exhaust)
      note last = emit_and_reduce_effect [OF mock_items(4) q]
      note g = control_ofD [OF last(1)]
      have six: "take 5 (success_tape cfg) @ [(SessionCompletedT, [], Some (mc_command_id cfg))]
          = success_tape cfg"
        using take_success_Suc [of 5 cfg] by (simp add: success_tape_nth(4,5))
      show ?thesis
      proof (cases q)
        case (Inl e)
        have "mock_ok cfg (goto_phase MockAborted v)"
          using last(2) five same six g f flags
          by (auto simp: mock_ok_def phase_tape_def success_tape_nth(5) intro: exI [of _ 5] exI [of _ 6])
        with r q Inr Inl True show ?thesis
          by (simp add: emit_completion_locked_def settle_run_def seq_simps)
      next
        case (Inr u')
        with last(2) five same six have all: "mock_tape cfg v = success_tape cfg" by simp
        let ?v = "v\<lparr>ms_terminal_emitted := True\<rparr>"
        have "mock_tape cfg ?v = mock_tape cfg v" by (simp add: mock_tape_def)
        with all have "mock_ok cfg (goto_phase MockReturned ?v)"
          using g f flags by (simp add: mock_ok_def phase_tape_def)
        with r q \<open>r = Inr u\<close> Inr True show ?thesis
          by (simp add: emit_completion_locked_def settle_run_def seq_simps)
      qed
    qed
  qed
qed

lemma cancellation_stage:
  assumes ok: "mock_ok cfg s" and at: "ms_phase s = MockCancellation"
  shows "mock_ok cfg (settle_run (\<lambda>_. MockReturned) (emit_selected_cancellation cfg we ob s))"
proof -
  from ok at obtain k where k: "1 \<le> k" "k \<le> 4" "mock_tape cfg s = take k (success_tape cfg)"
    and flags: "ms_terminal_outcome s = Some MockCancelled" "\<not> ms_terminal_emitted s" "ms_run_started s"
    by (auto simp: mock_ok_def phase_tape_def)
  with ok obtain cmd where cmd: "ms_cancel_command_id s = Some cmd" by (auto simp: mock_ok_def)
  obtain r t where r: "emit_and_reduce cfg we ob ''session.cancelled'' [] (Some cmd) s = (r, t)"
    by (rule prod.exhaust)
  note effect = emit_and_reduce_effect [OF mock_items(5) r]
  note f = control_ofD [OF effect(1)]
  have cut: "cut_tape cfg s (mock_tape cfg s @ [(SessionCancelledT, [], Some cmd)])"
    using k cmd by (auto simp: cut_tape_def cancelled_item_def)
  show ?thesis
  proof (cases r)
    case (Inl e)
    have "mock_ok cfg (goto_phase MockAborted t)"
      using effect(2) cut flags by (intro abort_after_emission [OF ok _ _ effect(1)]) (auto simp: at)
    with r Inl flags cmd show ?thesis
      by (simp add: emit_selected_cancellation_def settle_run_def seq_simps)
  next
    case (Inr u)
    let ?t = "t\<lparr>ms_terminal_emitted := True\<rparr>"
    have "mock_tape cfg ?t = mock_tape cfg t" by (simp add: mock_tape_def)
    moreover have "cut_tape cfg ?t = cut_tape cfg s" by (rule cut_tape_cong) (simp add: f)
    ultimately have "mock_ok cfg (goto_phase MockReturned ?t)"
      using effect(2) Inr cut f flags cmd by (simp add: mock_ok_def phase_tape_def)
    with r Inr flags cmd show ?thesis
      by (simp add: emit_selected_cancellation_def settle_run_def seq_simps)
  qed
qed

lemma mock_ok_cancel: "mock_ok cfg s \<Longrightarrow> mock_ok cfg (snd (request_cancellation cfg ob cmd s))"
proof -
  assume ok: "mock_ok cfg s"
  show ?thesis
  proof (cases "ms_cancel_command_id s \<noteq> None \<or> ms_terminal_outcome s \<noteq> None")
    case True
    with ok show ?thesis by (auto simp: request_cancellation_def)
  next
    case False
    let ?first = "if status (ms_lifecycle s) = Starting
       then update (\<lambda>s. s\<lparr>ms_deferred := Some (CancelRequested cmd (mc_session_id cfg))\<rparr>)
       else reduce_lifecycle ob (CancelRequested cmd (mc_session_id cfg))"
    obtain r t where r: "?first s = (r, t)" by (rule prod.exhaust)
    have "moves (quiet_move cfg) ?first"
      by (intro quiet.move_rules quiet_updates quiet_reduce)
    from movesD [OF this r] have t: "mock_ok cfg t" "control_of t = control_of s"
      using quiet_mock_ok [OF _ ok] by (auto simp: quiet_move_def)
    show ?thesis
    proof (cases r)
      case (Inl e)
      with r t False show ?thesis by (simp add: request_cancellation_def seq_simps Let_def)
    next
      case (Inr u)
      let ?u = "t\<lparr>ms_cancel_command_id := Some cmd, ms_terminal_outcome := Some MockCancelled\<rparr>"
      have "mock_tape cfg ?u = mock_tape cfg t" by (simp add: mock_tape_def)
      moreover have "ms_terminal_outcome t = None" using control_ofD(2) [OF t(2)] False by simp
      ultimately have "mock_ok cfg ?u"
        using t(1) by (auto simp: mock_ok_def phase_tape_def split: mock_phase.splits)
      with r Inr False show ?thesis by (simp add: request_cancellation_def seq_simps Let_def)
    qed
  qed
qed

lemma mock_ok_foreign:
  assumes "mock_foreign cfg req"
  shows "quiet_move cfg s (s\<lparr>ms_writer := snd (emit we req (ms_writer s))\<rparr>)"
proof -
  obtain r w where w: "emit we req (ms_writer s) = (r, w)" by (rule prod.exhaust)
  have "mock_tape cfg (s\<lparr>ms_writer := w\<rparr>) = mock_tape cfg s"
  proof (cases req)
    case (EmitRuntime t p c)
    with w emit_runtime_effect [of we t p c "ms_writer s" r w] show ?thesis
      by (auto simp: wrote_def mock_tape_def own_item_def map_filter_append)
  next
    case (EmitSession t sid p c)
    with w emit_session_effect [of we t sid p c "ms_writer s" r w] assms show ?thesis
      by (auto simp: wrote_def mock_tape_def own_item_def map_filter_append mock_foreign_def)
  qed
  then show ?thesis by (simp add: w quiet_move_def control_of_def)
qed

lemma mock_ok_begin:
  assumes ok: "mock_ok cfg s"
  shows "mock_ok cfg (snd (begin_mock_run s))"
proof (cases "ms_run_started s")
  case True
  with ok show ?thesis by (simp add: begin_mock_run_def)
next
  case False
  let ?t = "s\<lparr>ms_run_started := True, ms_phase := MockEmitStarted\<rparr>"
  have "mock_tape cfg ?t = mock_tape cfg s" by (simp add: mock_tape_def)
  with ok False show ?thesis by (auto simp: begin_mock_run_def mock_ok_def phase_tape_def)
qed

lemma reduce_started_stage:
  assumes ok: "mock_ok cfg s" and at: "ms_phase s = MockReduceStarted ev"
  shows "mock_ok cfg (settle_run (\<lambda>_. MockCheckpoint 0) (reduce_started obs ev s))"
proof -
  obtain r t where r: "reduce_started obs ev s = (r, t)" by (rule prod.exhaust)
  from movesD [OF quiet_reduce_started r] have t: "control_of t = control_of s"
    "mock_tape cfg t = mock_tape cfg s" "quiet_move cfg s t" by (simp_all add: quiet_move_def)
  show ?thesis
  proof (cases r)
    case (Inl e)
    have "mock_ok cfg (goto_phase MockAborted t)"
      using mock_ok_aborted [OF quiet_mock_ok [OF t(3) ok]] control_ofD(5) [OF t(1)] at by simp
    with r Inl show ?thesis by (simp add: settle_run_def)
  next
    case (Inr u)
    have "mock_ok cfg (goto_phase (MockCheckpoint 0) t)"
      using ok at t(2) by (intro mock_ok_goto [OF ok t(1)]) (auto simp: phase_tape_def mock_ok_def)
    with r Inr show ?thesis by (simp add: settle_run_def)
  qed
qed

lemma mock_ok_run_step:
  assumes "mock_run_step cfg s t" "mock_ok cfg s"
  shows "mock_ok cfg t"
  using assms
proof (cases rule: mock_run_step.cases)
  case begins
  with assms(2) mock_ok_begin show ?thesis by blast
next
  case (emits_started we)
  with assms(2) started_stage show ?thesis by blast
next
  case (reduces_started ev obs)
  with assms(2) reduce_started_stage show ?thesis by blast
next
  case (checkpoint_passes i)
  with assms(2) show ?thesis by (auto simp: mock_ok_def phase_tape_def)
next
  case (checkpoint_cancelled i)
  with assms(2) have "1 \<le> Suc i \<and> Suc i \<le> 4 \<and> mock_tape cfg s = take (Suc i) (success_tape cfg)"
    by (auto simp: mock_ok_def phase_tape_def)
  then have "\<exists>k. 1 \<le> k \<and> k \<le> 4 \<and> mock_tape cfg s = take k (success_tape cfg)" by (rule exI)
  with assms(2) checkpoint_cancelled show ?thesis by (simp add: mock_ok_def phase_tape_def)
next
  case (checkpoint_raises i)
  with assms(2) mock_ok_aborted show ?thesis by simp
next
  case (emits_delta i we ob)
  with assms(2) delta_stage show ?thesis by blast
next
  case (emits_completion wes obs)
  with assms(2) completion_stage show ?thesis by blast
next
  case (emits_cancellation we ob)
  with assms(2) cancellation_stage show ?thesis by blast
qed

lemma mock_ok_step:
  assumes "mock_step cfg s t" "mock_ok cfg s"
  shows "mock_ok cfg t"
  using assms
proof (cases rule: mock_step.cases)
  case (attaches ob)
  with assms(2) quiet_attach [of cfg ob] show ?thesis by (auto simp: moves_def intro: quiet_mock_ok)
next
  case (cancels ob cmd)
  with assms(2) mock_ok_cancel show ?thesis by blast
next
  case runs
  from this assms(2) show ?thesis by (rule mock_ok_run_step)
next
  case task_cancelled
  with assms(2) mock_ok_aborted show ?thesis by simp
next
  case (other_producer req we)
  with assms(2) mock_ok_foreign quiet_mock_ok show ?thesis by blast
qed

definition fresh_session :: "mock_config \<Rightarrow> event_writer \<Rightarrow> bool" where
  "fresh_session cfg w \<longleftrightarrow> List.map_filter (own_item (mc_session_id cfg)) (published_events w) = []"

lemma mock_ok_created:
  "MockSession cfg w = Inr s \<Longrightarrow> fresh_session cfg w \<Longrightarrow> mock_ok cfg s"
  by (auto simp: MockSession_def Let_def mock_ok_def phase_tape_def mock_tape_def fresh_session_def
      split: if_splits)

lemma mock_reachable_ok: "mock_reachable cfg w s \<Longrightarrow> fresh_session cfg w \<Longrightarrow> mock_ok cfg s"
  by (induction rule: mock_reachable.induct) (auto intro: mock_ok_created mock_ok_step)

subsection \<open>After an accepted cancellation\<close>

definition assistant_output :: "tape_item list \<Rightarrow> tape_item list" where
  "assistant_output tape = filter (\<lambda>(t, _). t = AssistantDeltaT \<or> t = AssistantCompletedT) tape"

definition cancelled_move :: "mock_config \<Rightarrow> mock_session \<Rightarrow> mock_session \<Rightarrow> bool" where
  "cancelled_move cfg s t \<longleftrightarrow>
     (ms_terminal_outcome s = Some MockCancelled \<longrightarrow>
        ms_terminal_outcome t = Some MockCancelled
        \<and> assistant_output (mock_tape cfg t) = assistant_output (mock_tape cfg s))"

lemma cancelled_if_control:
  assumes "control_of t = control_of s"
    "mock_tape cfg t = mock_tape cfg s @ [(k, x, c)] \<or> mock_tape cfg t = mock_tape cfg s"
    "k \<noteq> AssistantDeltaT" "k \<noteq> AssistantCompletedT"
  shows "cancelled_move cfg s t"
  using assms control_ofD(2) [OF assms(1)] by (auto simp: cancelled_move_def assistant_output_def)

lemma cancelled_settle:
  "cancelled_move cfg s t \<Longrightarrow> cancelled_move cfg s (settle_run f (r, t))"
  by (cases r) (auto simp: cancelled_move_def settle_run_def)

lemma cancelled_quiet: "quiet_move cfg s t \<Longrightarrow> cancelled_move cfg s t"
  by (auto simp: quiet_move_def cancelled_move_def dest: control_ofD(2))

lemma cancelled_goto: "cancelled_move cfg s (goto_phase p s)"
  by (simp add: cancelled_move_def)

lemma mock_run_step_cancelled:
  assumes "mock_run_step cfg s t"
  shows "cancelled_move cfg s t"
  using assms
proof (cases rule: mock_run_step.cases)
  case begins
  have "mock_tape cfg (s\<lparr>ms_run_started := True, ms_phase := MockEmitStarted\<rparr>) = mock_tape cfg s"
    by (simp add: mock_tape_def)
  with begins show ?thesis by (auto simp: begin_mock_run_def cancelled_move_def)
next
  case (emits_started we)
  obtain r u where r: "emit_started_event cfg we s = (r, u)" by (rule prod.exhaust)
  note effect = emit_mock_event_effect [OF mock_items(1) r [unfolded emit_started_event_def]]
  from effect(1) have "control_of u = control_of s" by (auto simp: control_of_def)
  with effect(2) have "cancelled_move cfg s u" by (intro cancelled_if_control) auto
  with emits_started r cancelled_settle show ?thesis by simp
next
  case (reduces_started ev obs)
  obtain r u where r: "reduce_started obs ev s = (r, u)" by (rule prod.exhaust)
  from movesD [OF quiet_reduce_started r] have "cancelled_move cfg s u" by (rule cancelled_quiet)
  with reduces_started r cancelled_settle show ?thesis by simp
next
  case (emits_delta i we ob)
  then show ?thesis
    by (auto simp: cancelled_move_def emit_delta_locked_def settle_run_def)
next
  case (emits_completion wes obs)
  then show ?thesis
    by (auto simp: cancelled_move_def emit_completion_locked_def settle_run_def)
next
  case (emits_cancellation we ob)
  obtain r u where r: "emit_selected_cancellation cfg we ob s = (r, u)" by (rule prod.exhaust)
  have "cancelled_move cfg s u"
  proof (cases "ms_terminal_outcome s = Some MockCancelled \<and> \<not> ms_terminal_emitted s
      \<and> ms_cancel_command_id s \<noteq> None")
    case False
    with r show ?thesis
      by (cases "ms_cancel_command_id s")
         (auto simp: emit_selected_cancellation_def cancelled_move_def split: if_splits)
  next
    case True
    then obtain cmd where cmd: "ms_cancel_command_id s = Some cmd" by blast
    obtain q v where q: "emit_and_reduce cfg we ob ''session.cancelled'' [] (Some cmd) s = (q, v)"
      by (rule prod.exhaust)
    note effect = emit_and_reduce_effect [OF mock_items(5) q]
    have "cancelled_move cfg s v" using effect by (intro cancelled_if_control) auto
    moreover have "u = v \<or> u = v\<lparr>ms_terminal_emitted := True\<rparr>"
      using r q True cmd by (cases q) (auto simp: emit_selected_cancellation_def seq_simps)
    moreover have "mock_tape cfg (v\<lparr>ms_terminal_emitted := True\<rparr>) = mock_tape cfg v"
      by (simp add: mock_tape_def)
    ultimately show ?thesis by (auto simp: cancelled_move_def)
  qed
  with emits_cancellation r cancelled_settle show ?thesis by simp
qed (auto intro: cancelled_goto)

lemma mock_step_cancelled:
  assumes "mock_step cfg s t"
  shows "cancelled_move cfg s t"
  using assms
proof (cases rule: mock_step.cases)
  case (attaches ob)
  with quiet_attach [of cfg ob] show ?thesis by (auto simp: moves_def intro: cancelled_quiet)
next
  case (cancels ob cmd)
  then show ?thesis by (auto simp: cancelled_move_def request_cancellation_def)
next
  case runs
  then show ?thesis by (rule mock_run_step_cancelled)
next
  case (other_producer req we)
  with mock_ok_foreign cancelled_quiet show ?thesis by blast
qed (auto intro: cancelled_goto)

subsection \<open>The properties of the mocked session\<close>

text \<open>C26: In every interleaving of cancellation requests, sink failures, observer failures, task
  cancellation and other producers, a fresh mocked session publishes a prefix of its fixed success
  tape or that tape cut after one to four events by the cancellation correlated to the winning
  request; a run that returned has published the whole of one of the two, as its outcome says.\<close>

theorem mock_tape_is_legal:
  assumes "mock_reachable cfg w s" "fresh_session cfg w"
  shows "((\<exists>k. mock_tape cfg s = take k (success_tape cfg))
          \<or> (ms_terminal_outcome s = Some MockCancelled \<and> cut_tape cfg s (mock_tape cfg s)))
    \<and> (ms_phase s \<noteq> MockReturned
        \<or> (ms_terminal_outcome s = Some MockCompleted \<and> mock_tape cfg s = success_tape cfg)
        \<or> (ms_terminal_outcome s = Some MockCancelled \<and> cut_tape cfg s (mock_tape cfg s)))"
proof -
  have ok: "mock_ok cfg s" using mock_reachable_ok assms by blast
  with mock_tape_legal [OF ok] show ?thesis by (auto simp: mock_ok_def phase_tape_def)
qed

definition example_mock :: mock_config where
  "example_mock = \<lparr>mc_session_id = lit ''ses_mock_1'', mc_command_id = lit ''cmd_1'', mc_task = lit ''t''\<rparr>"

lemma example_mock_created:
  "\<exists>s. MockSession example_mock new_event_writer = Inr s \<and> ms_terminal_outcome s = None
     \<and> ms_cancel_command_id s = None \<and> status (ms_lifecycle s) = Starting \<and> \<not> ms_run_started s"
  by (simp add: MockSession_def Let_def reduce_session_state_def INITIAL_SESSION_STATE_def
      TERMINAL_SESSION_STATUSES_def)

lemma example_mock_fresh: "fresh_session example_mock new_event_writer"
  by (simp add: fresh_session_def new_event_writer_def)

lemma example_mock_cancelled:
  "\<exists>s. mock_reachable example_mock new_event_writer s
     \<and> ms_terminal_outcome s = Some MockCancelled \<and> ms_phase s = MockEmitStarted"
proof -
  obtain s where s: "MockSession example_mock new_event_writer = Inr s" "ms_terminal_outcome s = None"
    "ms_cancel_command_id s = None" "status (ms_lifecycle s) = Starting" "\<not> ms_run_started s"
    using example_mock_created by blast
  let ?t = "snd (request_cancellation example_mock None (lit ''cmd_2'') s)"
  have t: "ms_terminal_outcome ?t = Some MockCancelled" "\<not> ms_run_started ?t"
    using s by (simp_all add: request_cancellation_def Let_def seq_simps)
  have "mock_reachable example_mock new_event_writer ?t"
    using s(1) mock_created mock_continues cancels by blast
  then have "mock_reachable example_mock new_event_writer (snd (begin_mock_run ?t))"
    using mock_continues runs begins by blast
  moreover have "ms_terminal_outcome (snd (begin_mock_run ?t)) = Some MockCancelled"
    "ms_phase (snd (begin_mock_run ?t)) = MockEmitStarted"
    using t by (simp_all add: begin_mock_run_def)
  ultimately show ?thesis by blast
qed

theorem mock_tape_is_legal_witness:
  "\<exists>s. mock_reachable example_mock new_event_writer s \<and> ms_terminal_outcome s = Some MockCancelled
     \<and> ((\<exists>k. mock_tape example_mock s = take k (success_tape example_mock))
        \<or> cut_tape example_mock s (mock_tape example_mock s))"
proof -
  obtain s where s: "mock_reachable example_mock new_event_writer s"
    "ms_terminal_outcome s = Some MockCancelled" using example_mock_cancelled by blast
  with mock_tape_is_legal [OF s(1) example_mock_fresh] show ?thesis by blast
qed

text \<open>Once a cancellation has been accepted, no continuation publishes another delta or the
  completed text, and the cancellation stays the outcome.\<close>

theorem cancellation_silences_assistant:
  assumes "(mock_step cfg)\<^sup>*\<^sup>* s t" "ms_terminal_outcome s = Some MockCancelled"
  shows "ms_terminal_outcome t = Some MockCancelled
    \<and> assistant_output (mock_tape cfg t) = assistant_output (mock_tape cfg s)"
  using assms
proof (induction rule: rtranclp_induct)
  case base
  then show ?case by simp
next
  case (step t u)
  with mock_step_cancelled [OF step(2)] show ?case by (simp add: cancelled_move_def)
qed

theorem cancellation_silences_assistant_witness:
  "\<exists>s t. (mock_step example_mock)\<^sup>*\<^sup>* s t \<and> ms_phase s = MockEmitStarted \<and> ms_phase t = MockAborted
     \<and> assistant_output (mock_tape example_mock t) = assistant_output (mock_tape example_mock s)"
proof -
  obtain s where "mock_reachable example_mock new_event_writer s"
    and s: "ms_terminal_outcome s = Some MockCancelled" "ms_phase s = MockEmitStarted"
    using example_mock_cancelled by auto
  have "mock_step example_mock s (goto_phase MockAborted s)" using s(2) by (intro task_cancelled) simp
  then have run: "(mock_step example_mock)\<^sup>*\<^sup>* s (goto_phase MockAborted s)" by (rule r_into_rtranclp)
  with cancellation_silences_assistant [OF run s(1)] s(2) show ?thesis by (metis goto_phase_simps(1))
qed

end
