(* ===== verification/Py_Regex.thy ===== *)
theory Py_Regex
  imports Protocol_Models
begin

section \<open>The string searching of the Python library that the redaction uses\<close>

text \<open>
  \<open>str.find\<close>, \<open>str.replace\<close>, and the fragment of \<open>re\<close> in which the credential patterns are
  written: a pattern is a list of alternatives, an alternative a list of atoms (one character of
  a class, an optional one, a greedy run with a minimum, the end anchor), matched by the
  backtracking of the library, so that the first match in its order of preference is the one
  returned. \<open>match_atoms_iff\<close> says backtracking finds a match whenever there is one.
\<close>

subsection \<open>Searching and replacing a substring\<close>

definition occurs_at :: "'a list \<Rightarrow> 'a list \<Rightarrow> nat \<Rightarrow> bool" where
  "occurs_at w s i \<longleftrightarrow> i + length w \<le> length s \<and> take (length w) (drop i s) = w"

definition find_from :: "'a list \<Rightarrow> 'a list \<Rightarrow> nat \<Rightarrow> nat option" where
  "find_from s w i = List.find (occurs_at w s) [i..<Suc (length s)]"

function replace_loop :: "ustr \<Rightarrow> ustr \<Rightarrow> ustr \<Rightarrow> ustr" where
  "replace_loop old new s =
     (if s = [] then []
      else if old \<noteq> [] \<and> starts_with s old
      then new @ replace_loop old new (drop (length old) s)
      else hd s # replace_loop old new (tl s))"
  by pat_completeness auto
termination
  by (relation "measure (\<lambda>(_, _, s). length s)") auto

declare replace_loop.simps [simp del]

definition py_replace :: "ustr \<Rightarrow> ustr \<Rightarrow> ustr \<Rightarrow> ustr" where
  "py_replace s old new =
     (if old = [] then new @ concat (map (\<lambda>c. c # new) s) else replace_loop old new s)"

subsection \<open>Patterns\<close>

datatype atom =
    Once "nat \<Rightarrow> bool"
  | Maybe "nat \<Rightarrow> bool"
  | Many "nat \<Rightarrow> bool" nat
  | End

fun first_some :: "('a \<Rightarrow> 'b option) \<Rightarrow> 'a list \<Rightarrow> 'b option" where
  "first_some f [] = None"
| "first_some f (x # xs) = (case f x of None \<Rightarrow> first_some f xs | Some y \<Rightarrow> Some y)"

fun match_atoms :: "atom list \<Rightarrow> ustr \<Rightarrow> nat option" where
  "match_atoms [] s = Some 0"
| "match_atoms (Once P # as) s =
     (case s of
        [] \<Rightarrow> None
      | c # r \<Rightarrow> if P c then map_option Suc (match_atoms as r) else None)"
| "match_atoms (Maybe P # as) s =
     (case (case s of
              [] \<Rightarrow> None
            | c # r \<Rightarrow> if P c then map_option Suc (match_atoms as r) else None) of
        Some n \<Rightarrow> Some n
      | None \<Rightarrow> match_atoms as s)"
| "match_atoms (Many P low # as) s =
     first_some (\<lambda>k. map_option (\<lambda>n. k + n) (match_atoms as (drop k s)))
       (rev [low..<Suc (length (takeWhile P s))])"
| "match_atoms (End # as) s = (if s = [] \<or> s = [10] then match_atoms as s else None)"

type_synonym pattern = "atom list list"

definition match_here :: "pattern \<Rightarrow> ustr \<Rightarrow> nat option" where
  "match_here p s = first_some (\<lambda>as. match_atoms as s) p"

definition search :: "pattern \<Rightarrow> ustr \<Rightarrow> (nat \<times> nat) option" where
  "search p s =
     first_some (\<lambda>i. map_option (\<lambda>n. (i, i + n)) (match_here p (drop i s))) [0..<Suc (length s)]"

text \<open>\<open>finditer\<close> and \<open>sub\<close> for patterns that match no empty text, as all of the code's do.\<close>

function finditer :: "pattern \<Rightarrow> nat \<Rightarrow> ustr \<Rightarrow> (nat \<times> nat) list" where
  "finditer p i s =
     (if s = [] then []
      else case match_here p s of
             None \<Rightarrow> finditer p (Suc i) (tl s)
           | Some n \<Rightarrow>
               if n = 0 then finditer p (Suc i) (tl s)
               else (i, i + n) # finditer p (i + n) (drop n s))"
  by pat_completeness auto
termination
  by (relation "measure (\<lambda>(_, _, s). length s)") auto

function re_sub :: "pattern \<Rightarrow> ustr \<Rightarrow> ustr \<Rightarrow> ustr" where
  "re_sub p new s =
     (if s = [] then []
      else case match_here p s of
             None \<Rightarrow> hd s # re_sub p new (tl s)
           | Some n \<Rightarrow>
               if n = 0 then hd s # re_sub p new (tl s)
               else new @ re_sub p new (drop n s))"
  by pat_completeness auto
termination
  by (relation "measure (\<lambda>(_, _, s). length s)") auto

declare finditer.simps [simp del] re_sub.simps [simp del]

text \<open>\<open>[_-]\<close> and its kind: the pieces between the characters of a class.\<close>

fun split_any :: "('a \<Rightarrow> bool) \<Rightarrow> 'a list \<Rightarrow> 'a list list" where
  "split_any P [] = [[]]"
| "split_any P (c # s) =
     (if P c then [] # split_any P s
      else case split_any P s of [] \<Rightarrow> [[c]] | w # ws \<Rightarrow> (c # w) # ws)"

text \<open>
  A letter of a literal under \<open>re.IGNORECASE\<close>: both cases, and the three letters with a further
  simple case variant in Unicode (dotted and dotless i, the Kelvin sign, the long s).
\<close>

definition ignore_case :: "nat \<Rightarrow> nat \<Rightarrow> bool" where
  "ignore_case letter c \<longleftrightarrow>
     c = letter \<or> c + 32 = letter \<or>
     letter = 105 \<and> (c = 0x130 \<or> c = 0x131) \<or> letter = 107 \<and> c = 0x212A \<or>
     letter = 115 \<and> c = 0x17F"

definition word :: "string \<Rightarrow> atom list" where
  "word w = map (\<lambda>x. Once (\<lambda>c. c = x)) (lit w)"

definition word_any_case :: "string \<Rightarrow> atom list" where
  "word_any_case w = map (\<lambda>x. Once (ignore_case x)) (lit w)"

subsection \<open>Facts\<close>

lemma occurs_at_iff: "occurs_at w s i \<longleftrightarrow> (\<exists>a b. s = a @ w @ b \<and> length a = i)"
proof
  assume o: "occurs_at w s i"
  have "s = take i s @ take (length w) (drop i s) @ drop (length w) (drop i s)"
    by (metis append_take_drop_id)
  with o show "\<exists>a b. s = a @ w @ b \<and> length a = i"
    by (intro exI [of _ "take i s"] exI [of _ "drop (length w) (drop i s)"])
      (auto simp: occurs_at_def)
qed (auto simp: occurs_at_def)

lemma find_from_Some:
  "find_from s w i = Some j \<Longrightarrow> i \<le> j \<and> occurs_at w s j \<and> (\<forall>k. i \<le> k \<and> k < j \<longrightarrow> \<not> occurs_at w s k)"
proof -
  assume "find_from s w i = Some j"
  then obtain n where n: "n < length [i..<Suc (length s)]" "occurs_at w s ([i..<Suc (length s)] ! n)"
    "j = [i..<Suc (length s)] ! n" "\<forall>m<n. \<not> occurs_at w s ([i..<Suc (length s)] ! m)"
    unfolding find_from_def find_Some_iff by blast
  then have j: "j = i + n" by (simp del: upt_Suc)
  have "\<not> occurs_at w s k" if "i \<le> k" "k < j" for k
  proof -
    have "k - i < n" using that j by simp
    with n(4) have "\<not> occurs_at w s ([i..<Suc (length s)] ! (k - i))" by blast
    moreover have "[i..<Suc (length s)] ! (k - i) = k"
      using \<open>k - i < n\<close> n(1) that(1) by (simp del: upt_Suc)
    ultimately show ?thesis by simp
  qed
  with n(2,3) j show ?thesis by auto
qed

lemma find_from_None: "find_from s w i = None \<longleftrightarrow> (\<forall>j\<ge>i. \<not> occurs_at w s j)"
  by (auto simp: find_from_def find_None_iff occurs_at_def simp del: upt_Suc)

lemma first_some_Some: "first_some f xs = Some y \<Longrightarrow> \<exists>x\<in>set xs. f x = Some y"
  by (induction xs) (auto split: option.splits)

lemma first_some_None: "first_some f xs = None \<longleftrightarrow> (\<forall>x\<in>set xs. f x = None)"
  by (induction xs) (auto split: option.splits)

text \<open>What a list of atoms admits as a match of length \<open>n\<close> at the start of a text.\<close>

fun admits :: "atom list \<Rightarrow> ustr \<Rightarrow> nat \<Rightarrow> bool" where
  "admits [] s n \<longleftrightarrow> n = 0"
| "admits (Once P # as) s n \<longleftrightarrow> (\<exists>c r m. s = c # r \<and> P c \<and> n = Suc m \<and> admits as r m)"
| "admits (Maybe P # as) s n \<longleftrightarrow>
     (\<exists>c r m. s = c # r \<and> P c \<and> n = Suc m \<and> admits as r m) \<or> admits as s n"
| "admits (Many P low # as) s n \<longleftrightarrow>
     (\<exists>k m. low \<le> k \<and> k \<le> length s \<and> list_all P (take k s) \<and> n = k + m \<and> admits as (drop k s) m)"
| "admits (End # as) s n \<longleftrightarrow> (s = [] \<or> s = [10]) \<and> admits as s n"

lemma list_all_take_iff_run:
  "k \<le> length s \<and> list_all P (take k s) \<longleftrightarrow> k \<le> length (takeWhile P s)"
proof (induction s arbitrary: k)
  case (Cons c s)
  then show ?case by (cases k) auto
qed simp

lemma match_atoms_sound: "match_atoms as s = Some n \<Longrightarrow> admits as s n"
proof (induction as s arbitrary: n rule: match_atoms.induct)
  case (4 P low as s)
  from first_some_Some [OF "4.prems" [unfolded match_atoms.simps]]
  obtain k m where k: "low \<le> k" "k \<le> length (takeWhile P s)" "n = k + m"
    "match_atoms as (drop k s) = Some m"
    by (auto simp del: upt_Suc)
  moreover from k(4) have "admits as (drop k s) m"
    using "4.IH" by blast
  ultimately show ?case using list_all_take_iff_run [of k s P] by auto
qed (auto split: option.splits list.splits if_splits)

lemma match_atoms_complete: "admits as s n \<Longrightarrow> match_atoms as s \<noteq> None"
proof (induction as s n rule: admits.induct)
  case (2 P as s n)
  then obtain c r m where "s = c # r" "P c" "admits as r m" by auto
  with "2.IH" show ?case by auto
next
  case (3 P as s n)
  then consider c r m where "s = c # r" "P c" "admits as r m" | "admits as s n" by auto
  then show ?case
  proof cases
    case 1
    then have "match_atoms as r \<noteq> None" using "3.IH"(1) by blast
    with 1 show ?thesis by auto
  next
    case 2
    then have "match_atoms as s \<noteq> None" using "3.IH"(2) by blast
    then show ?thesis by (auto split: option.split)
  qed
next
  case (4 P low as s n)
  then obtain k m where k: "low \<le> k" "k \<le> length s \<and> list_all P (take k s)"
    "admits as (drop k s) m"
    by auto
  then have "match_atoms as (drop k s) \<noteq> None" using "4.IH" by blast
  moreover have "k \<in> set (rev [low..<Suc (length (takeWhile P s))])"
    using k(1) list_all_take_iff_run [of k s P] k(2) by auto
  ultimately show ?case by (auto simp: first_some_None simp del: upt_Suc)
qed (auto split: option.splits)

lemma match_atoms_iff: "match_atoms as s \<noteq> None \<longleftrightarrow> (\<exists>n. admits as s n)"
  using match_atoms_sound match_atoms_complete by blast

lemma admits_le: "admits as s n \<Longrightarrow> n \<le> length s"
  by (induction as s n rule: admits.induct) (auto, fastforce)

lemma match_here_le: "match_here p s = Some n \<Longrightarrow> n \<le> length s"
  unfolding match_here_def by (auto dest!: first_some_Some match_atoms_sound admits_le)

lemma search_bounds: "search p s = Some (a, b) \<Longrightarrow> a \<le> b \<and> b \<le> length s"
  unfolding search_def
  by (auto dest!: first_some_Some match_here_le simp del: upt_Suc)

lemma finditer_bounds:
  "(a, b) \<in> set (finditer p i s) \<Longrightarrow> i \<le> a \<and> a < b \<and> b \<le> i + length s"
proof (induction p i s arbitrary: a b rule: finditer.induct)
  case (1 p i s)
  show ?case
  proof (cases "s = []")
    case False
    then have l: "Suc (length (tl s)) = length s" by simp
    show ?thesis
    proof (cases "match_here p s")
      case None
      with "1.prems" False have "(a, b) \<in> set (finditer p (Suc i) (tl s))"
        by (subst (asm) finditer.simps) simp
      with "1.IH"(1) [OF False None] l show ?thesis by fastforce
    next
      case (Some n)
      show ?thesis
      proof (cases "n = 0")
        case True
        with "1.prems" False Some have "(a, b) \<in> set (finditer p (Suc i) (tl s))"
          by (subst (asm) finditer.simps) simp
        with "1.IH"(2) [OF False Some True] l show ?thesis by fastforce
      next
        case n: False
        have "(a, b) = (i, i + n) \<or> (a, b) \<in> set (finditer p (i + n) (drop n s))"
          using "1.prems" False Some n by (subst (asm) finditer.simps) simp
        with "1.IH"(3) [OF False Some n] match_here_le [OF Some] n show ?thesis by fastforce
      qed
    qed
  qed (use "1.prems" in \<open>simp add: finditer.simps\<close>)
qed

text \<open>Replacing keeps every class of characters that the replacement text is in.\<close>

lemma replace_loop_all: "list_all P new \<Longrightarrow> list_all P s \<Longrightarrow> list_all P (replace_loop old new s)"
proof (induction old new s rule: replace_loop.induct)
  case (1 old new s)
  show ?case
  proof (cases s)
    case (Cons c r)
    have "list_all P (drop (length old) s)" using "1.prems"(2) by (rule list_all_drop)
    with 1 Cons show ?thesis by (subst replace_loop.simps) auto
  qed (simp add: replace_loop.simps)
qed

lemma py_replace_all: "list_all P new \<Longrightarrow> list_all P s \<Longrightarrow> list_all P (py_replace s old new)"
  by (auto simp: py_replace_def replace_loop_all) (auto simp: list_all_iff)

lemma re_sub_all: "list_all P new \<Longrightarrow> list_all P s \<Longrightarrow> list_all P (re_sub p new s)"
proof (induction p new s rule: re_sub.induct)
  case (1 p new s)
  show ?case
  proof (cases s)
    case (Cons c r)
    have "list_all P (drop n s)" for n using "1.prems"(2) by (rule list_all_drop)
    with 1 Cons show ?thesis by (subst re_sub.simps) (auto split: option.split)
  qed (simp add: re_sub.simps)
qed

text \<open>Nothing is left of the replaced text when the replacement cannot form it again.\<close>

lemma replace_loop_absent:
  "old \<noteq> [] \<Longrightarrow> (\<And>i. \<not> occurs_at old s i) \<Longrightarrow> replace_loop old new s = s"
proof (induction old new s rule: replace_loop.induct)
  case (1 old new s)
  show ?case
  proof (cases s)
    case (Cons c r)
    have "\<not> starts_with s old"
      using "1.prems"(2) [of 0] prefix_length_le [of old s]
      by (auto simp: occurs_at_def starts_with_iff [symmetric]) (simp add: starts_with_def)
    moreover have "\<not> occurs_at old r i" for i
      using "1.prems"(2) [of "Suc i"] by (simp add: occurs_at_def Cons)
    ultimately show ?thesis
      using "1.IH"(2) "1.prems"(1) by (subst replace_loop.simps) (simp add: Cons)
  qed (simp add: replace_loop.simps)
qed

end
