(* ===== verification/Redaction.thy ===== *)
theory Redaction
  imports Py_Regex Session_State "HOL-Library.Product_Lexorder" "HOL-Library.List_Lexorder"
begin

section \<open>The transcript sanitizer (persistence/transcript.py, first part)\<close>

text \<open>
  What happens to text before it approaches persistence bytes: exact configured secrets and
  credential-shaped text are replaced by a marker, streamed fragments are redacted with a
  look-behind so that a secret split over several deltas is hidden in each of them, and every
  text is bounded in UTF-8 bytes. \<open>sanitizer\<close> is the mutable \<open>_TranscriptSanitizer\<close>. The
  lemmas: the merged ranges cut by \<open>replace_ranges\<close> hide exactly the positions some range
  covers, each run by one marker; every occurrence of a configured secret in the concatenation
  of the deltas is covered in every fragment it touches; bounded text is within its bound.
\<close>

subsection \<open>Constants and patterns\<close>

definition TRUNCATION_MARKER :: ustr where "TRUNCATION_MARKER = lit ''[TRUNCATED]''"
definition OMISSION_MARKER :: ustr where "OMISSION_MARKER = lit ''~''"
definition REDACTION_MARKER :: ustr where "REDACTION_MARKER = lit ''[REDACTED]''"
definition STREAM_REDACTION_LOOKBEHIND :: nat where "STREAM_REDACTION_LOOKBEHIND = 1024"
definition DEFAULT_TEXT_LIMIT_BYTES :: int where "DEFAULT_TEXT_LIMIT_BYTES = 16 * 1024"

definition SECRET_NAME_TOKENS :: "string list" where
  "SECRET_NAME_TOKENS =
     [''AUTH'', ''AUTHORIZATION'', ''COOKIE'', ''CREDENTIAL'', ''CREDENTIALS'', ''DSN'', ''KEY'',
      ''PASSWORD'', ''SECRET'', ''TOKEN'']"

definition SECRET_WHOLE_NAMES :: "string list" where
  "SECRET_WHOLE_NAMES =
     [''ACCESSKEY'', ''ACCESSTOKEN'', ''APIKEY'', ''APITOKEN'', ''AUTHTOKEN'', ''CLIENTSECRET'',
      ''DATABASE_URL'', ''DATABASE_PASSWORD'', ''DB_PASSWORD'', ''DB_URL'', ''MONGODB_URI'',
      ''MONGO_URI'', ''MYSQL_PWD'', ''PGPASSWORD'', ''POSTGRES_PASSWORD'', ''REDIS_URL'',
      ''PRIVATEKEY'', ''REFRESHTOKEN'', ''SECRETKEY'']"

definition is_alnum :: "nat \<Rightarrow> bool" where
  "is_alnum c \<longleftrightarrow> is_lower c \<or> is_upper c \<or> is_digit c"

text \<open>\<open>[A-Za-z0-9._~+/=-]\<close>, and the same class under \<open>re.IGNORECASE\<close>.\<close>

definition is_token_char :: "nat \<Rightarrow> bool" where
  "is_token_char c \<longleftrightarrow> is_alnum c \<or> c \<in> {46, 95, 126, 43, 47, 61, 45}"

definition is_bearer_char :: "nat \<Rightarrow> bool" where
  "is_bearer_char c \<longleftrightarrow> is_token_char c \<or> c \<in> {0x130, 0x131, 0x17F, 0x212A}"

text \<open>\<open>[^\s,;]\<close>\<close>

definition is_value_char :: "nat \<Rightarrow> bool" where
  "is_value_char c \<longleftrightarrow> \<not> is_py_space c \<and> c \<noteq> 44 \<and> c \<noteq> 59"

text \<open>
  \<open>(?:api[_-]?key|token|secret|password)\s*[:=]\s*\<close> with what follows it, one alternative for
  each name.
\<close>

definition assignment :: "atom list \<Rightarrow> pattern" where
  "assignment rest =
     map (\<lambda>name. name @ [Many is_py_space 0, Once (\<lambda>c. c = 58 \<or> c = 61), Many is_py_space 0] @ rest)
       [word_any_case ''api'' @ [Maybe (\<lambda>c. c = 95 \<or> c = 45)] @ word_any_case ''key'',
        word_any_case ''token'', word_any_case ''secret'', word_any_case ''password'']"

definition ghx :: "atom list" where
  "ghx = word ''gh'' @ [Once (\<lambda>c. c \<in> set (lit ''pousr'')), Once (\<lambda>c. c = 95)]"

definition CREDENTIAL_PATTERNS :: "pattern list" where
  "CREDENTIAL_PATTERNS =
     [[word ''sk-'' @ [Many is_id_char 8]],
      [ghx @ [Many is_alnum 8]],
      [word ''github_pat_'' @ [Many (\<lambda>c. is_alnum c \<or> c = 95) 8]],
      [word_any_case ''bearer'' @ [Many is_py_space 1, Many is_bearer_char 8]],
      assignment [Many is_value_char 4]]"

datatype continuation_kind = TokenContinuation | AssignmentContinuation

definition CREDENTIAL_PREFIX_PATTERNS :: "(pattern \<times> continuation_kind) list" where
  "CREDENTIAL_PREFIX_PATTERNS =
     [([word ''sk-'' @ [Many is_id_char 0, End], ghx @ [Many is_id_char 0, End]], TokenContinuation),
      ([word ''github_pat_'' @ [Many (\<lambda>c. is_alnum c \<or> c = 95) 0, End]], TokenContinuation),
      ([word_any_case ''bearer'' @ [Many is_py_space 1, Many is_bearer_char 0, End]],
        TokenContinuation),
      (assignment [Many is_value_char 0, End], AssignmentContinuation)]"

definition TOKEN_CONTINUATION_PATTERN :: pattern where
  "TOKEN_CONTINUATION_PATTERN = [[Many is_token_char 0]]"

definition ASSIGNMENT_CONTINUATION_PATTERN :: pattern where
  "ASSIGNMENT_CONTINUATION_PATTERN = [[Many is_value_char 0]]"

subsection \<open>Pure text operations\<close>

definition slice_to :: "int \<Rightarrow> 'a list \<Rightarrow> 'a list" where
  "slice_to n xs = (if n < 0 then take (nat (int (length xs) + n)) xs else take (nat n) xs)"

definition slice :: "'a list \<Rightarrow> nat \<Rightarrow> nat \<Rightarrow> 'a list" where
  "slice xs a b = take (b - a) (drop a xs)"

definition single_line :: "ustr \<Rightarrow> ustr" where
  "single_line s =
     map (\<lambda>c. if c \<in> {13, 10, 9} \<or> c < 32 \<or> 127 \<le> c \<and> c \<le> 159 then 32 else c) s"

text \<open>\<open>None\<close> is the \<open>UnicodeEncodeError\<close> of a lone surrogate.\<close>

definition bound_utf8 :: "ustr \<Rightarrow> int \<Rightarrow> ustr option" where
  "bound_utf8 value limit =
     (case utf8_encode value of
        None \<Rightarrow> None
      | Some encoded \<Rightarrow>
          if int (length encoded) \<le> limit then Some value
          else
            (let marker = utf8_bytes TRUNCATION_MARKER;
                 pre = utf8_ignore (slice_to (limit - int (length marker)) encoded) in
             Some (pre @ TRUNCATION_MARKER)))"

text \<open>The loop of \<open>_replace_ranges\<close> keeps \<open>merged\<close> last first.\<close>

fun merge_step :: "nat \<times> nat \<Rightarrow> (nat \<times> nat) list \<Rightarrow> (nat \<times> nat) list" where
  "merge_step (s, e) [] = [(s, e)]"
| "merge_step (s, e) ((a, b) # m) =
     (if s \<le> b then (a, max b e) # m else (s, e) # (a, b) # m)"

definition merged_ranges :: "(nat \<times> nat) list \<Rightarrow> (nat \<times> nat) list" where
  "merged_ranges ranges = rev (fold merge_step (sort ranges) [])"

fun cut_pieces :: "ustr \<Rightarrow> nat \<Rightarrow> (nat \<times> nat) list \<Rightarrow> ustr" where
  "cut_pieces value cursor [] = drop cursor value"
| "cut_pieces value cursor ((s, e) # rs) =
     slice value cursor s @ REDACTION_MARKER @ cut_pieces value e rs"

definition replace_ranges :: "ustr \<Rightarrow> (nat \<times> nat) list \<Rightarrow> ustr" where
  "replace_ranges value ranges =
     (if ranges = [] then value else cut_pieces value 0 (merged_ranges ranges))"

subsection \<open>Configured secrets\<close>

text \<open>
  \<open>str.upper\<close> maps every character on its own; its table outside ASCII is the parameter
  \<open>unicode_upper\<close>.
\<close>

definition py_upper :: "(nat \<Rightarrow> ustr) \<Rightarrow> ustr \<Rightarrow> ustr" where
  "py_upper unicode_upper s =
     concat (map (\<lambda>c. if is_lower c then [c - 32] else if c < 128 then [c] else unicode_upper c) s)"

text \<open>\<open>re.sub(r"([a-z0-9])([A-Z])", r"\1_\2", name)\<close>: two matches cannot share a character.\<close>

fun camel_boundaries :: "ustr \<Rightarrow> ustr" where
  "camel_boundaries (a # b # s) =
     (if (is_lower a \<or> is_digit a) \<and> is_upper b then a # 95 # b # camel_boundaries s
      else a # camel_boundaries (b # s))"
| "camel_boundaries s = s"

definition is_sensitive_name :: "(nat \<Rightarrow> ustr) \<Rightarrow> ustr \<Rightarrow> bool" where
  "is_sensitive_name uc name =
     (let normalized_name = py_upper uc name;
          tokens = split_any (\<lambda>c. c = 95 \<or> c = 45) (py_upper uc (camel_boundaries name)) in
      normalized_name \<in> set (map lit SECRET_WHOLE_NAMES) \<or>
      list_ex (\<lambda>token. token \<in> set (map lit SECRET_NAME_TOKENS)) tokens)"

definition configured_sensitive_values :: "(nat \<Rightarrow> ustr) \<Rightarrow> (ustr \<times> ustr) list \<Rightarrow> ustr list" where
  "configured_sensitive_values uc environment =
     (let values = remdups (map snd (filter (\<lambda>(name, value). is_sensitive_name uc name \<and> value \<noteq> [])
                                       environment)) in
      sort_key (\<lambda>value. (- int (length value), value)) values)"

subsection \<open>The sanitizer\<close>

record sanitizer =
  sensitive_values :: "ustr list"
  text_limit_bytes :: int
  raw_assistant_tail :: ustr
  safe_assistant_text :: ustr
  assistant_content_bytes :: int
  assistant_content_exhausted :: bool
  credential_continuation :: "continuation_kind option"

definition new_sanitizer :: "ustr list \<Rightarrow> int \<Rightarrow> sanitizer" where
  "new_sanitizer secrets limit =
     \<lparr>sensitive_values = secrets, text_limit_bytes = limit, raw_assistant_tail = [],
      safe_assistant_text = [], assistant_content_bytes = 0, assistant_content_exhausted = False,
      credential_continuation = None\<rparr>"

definition redact :: "sanitizer \<Rightarrow> ustr \<Rightarrow> ustr" where
  "redact z value =
     (let exact = fold (\<lambda>secret redacted. py_replace redacted secret REDACTION_MARKER)
                    (sort_key (\<lambda>s. - int (length s)) (sensitive_values z)) value in
      fold (\<lambda>p redacted. re_sub p REDACTION_MARKER redacted) CREDENTIAL_PATTERNS exact)"

definition bounded :: "sanitizer \<Rightarrow> ustr \<Rightarrow> ustr option" where
  "bounded z value = bound_utf8 value (text_limit_bytes z)"

text \<open>The part of a range of \<open>combined\<close> that lies in the new fragment, in its own positions.\<close>

definition local_range :: "nat \<Rightarrow> nat \<Rightarrow> nat \<Rightarrow> (nat \<times> nat) list" where
  "local_range boundary s e =
     (let local_start = max s boundary - boundary; local_end = e - boundary in
      if local_start < local_end then [(local_start, local_end)] else [])"

text \<open>The continuation of a credential whose prefix ended the previous fragment.\<close>

definition continue_credential ::
  "continuation_kind option \<Rightarrow> ustr \<Rightarrow> (nat \<times> nat) list \<times> continuation_kind option" where
  "continue_credential k value =
     (case k of
        None \<Rightarrow> ([], None)
      | Some kind \<Rightarrow>
          (let p = (if kind = TokenContinuation then TOKEN_CONTINUATION_PATTERN
                    else ASSIGNMENT_CONTINUATION_PATTERN);
               continuation_end = (case match_here p value of None \<Rightarrow> 0 | Some n \<Rightarrow> n) in
           (if continuation_end \<noteq> 0 then [(0, continuation_end)] else [],
            if continuation_end < length value then None else k)))"

text \<open>The loop over \<open>combined.find(secret, start)\<close>, which restarts one past the last find.\<close>

function secret_finds :: "ustr \<Rightarrow> ustr \<Rightarrow> nat \<Rightarrow> nat list" where
  "secret_finds combined secret i =
     (case find_from combined secret i of
        None \<Rightarrow> []
      | Some s \<Rightarrow> s # secret_finds combined secret (Suc s))"
  by pat_completeness auto
termination
  by (relation "measure (\<lambda>(c, _, i). Suc (length c) - i)")
    (auto dest!: find_from_Some simp: occurs_at_def)

declare secret_finds.simps [simp del]

definition complete_secret_ranges :: "ustr \<Rightarrow> nat \<Rightarrow> ustr \<Rightarrow> (nat \<times> nat) list" where
  "complete_secret_ranges combined boundary secret =
     concat (map (\<lambda>s.
       let e = s + length secret in
       if boundary < e \<and> s < length combined
       then local_range boundary s (min e (length combined)) else [])
       (secret_finds combined secret 0))"

definition partial_secret_ranges :: "ustr \<Rightarrow> nat \<Rightarrow> ustr \<Rightarrow> (nat \<times> nat) list" where
  "partial_secret_ranges combined boundary secret =
     (case List.find (\<lambda>n. ends_with combined (take n secret)) (rev [1..<length secret]) of
        None \<Rightarrow> []
      | Some n \<Rightarrow> local_range boundary (length combined - n) (length combined))"

definition pattern_ranges :: "ustr \<Rightarrow> nat \<Rightarrow> pattern \<Rightarrow> (nat \<times> nat) list" where
  "pattern_ranges combined boundary p =
     concat (map (\<lambda>(s, e). if boundary < e then local_range boundary s e else [])
       (finditer p 0 combined))"

fun prefix_ranges ::
  "ustr \<Rightarrow> nat \<Rightarrow> (pattern \<times> continuation_kind) list \<Rightarrow> continuation_kind option \<Rightarrow>
   (nat \<times> nat) list \<times> continuation_kind option" where
  "prefix_ranges combined boundary [] k = ([], k)"
| "prefix_ranges combined boundary ((p, kind) # ps) k =
     (case search p combined of
        None \<Rightarrow> prefix_ranges combined boundary ps k
      | Some (s, _) \<Rightarrow>
          (let local_start = max s boundary - boundary; n = length combined - boundary in
           if local_start < n
           then (case prefix_ranges combined boundary ps (Some kind) of
                   (rs, k') \<Rightarrow> ((local_start, n) # rs, k'))
           else prefix_ranges combined boundary ps k))"

definition fragment_ranges :: "sanitizer \<Rightarrow> ustr \<Rightarrow> (nat \<times> nat) list \<times> continuation_kind option" where
  "fragment_ranges z value =
     (let combined = raw_assistant_tail z @ value;
          boundary = length (raw_assistant_tail z);
          (continued, k) = continue_credential (credential_continuation z) value;
          exact = concat (map (\<lambda>secret. complete_secret_ranges combined boundary secret @
                                        partial_secret_ranges combined boundary secret)
                           (sensitive_values z));
          shaped = concat (map (pattern_ranges combined boundary) CREDENTIAL_PATTERNS);
          (pre, k') = prefix_ranges combined boundary CREDENTIAL_PREFIX_PATTERNS k in
      (continued @ exact @ shaped @ pre, k'))"

definition maximum_secret_length :: "sanitizer \<Rightarrow> nat" where
  "maximum_secret_length z =
     (if sensitive_values z = [] then 1 else Max (set (map length (sensitive_values z))))"

definition tail_length :: "sanitizer \<Rightarrow> nat" where
  "tail_length z = max (maximum_secret_length z - 1) STREAM_REDACTION_LOOKBEHIND"

definition redact_stream_fragment :: "ustr \<Rightarrow> sanitizer \<Rightarrow> ustr \<times> sanitizer" where
  "redact_stream_fragment value z =
     (let combined = raw_assistant_tail z @ value;
          (ranges, k) = fragment_ranges z value;
          z' = z\<lparr>credential_continuation := k,
                 raw_assistant_tail := drop (length combined - tail_length z) combined\<rparr> in
      (redact z' (replace_ranges value ranges), z'))"

definition bounded_assistant_fragment :: "ustr \<Rightarrow> sanitizer \<Rightarrow> (ustr \<times> sanitizer) option" where
  "bounded_assistant_fragment value z =
     (if assistant_content_exhausted z then Some (OMISSION_MARKER, z)
      else
        (let remaining = text_limit_bytes z - assistant_content_bytes z in
         case utf8_encode value of
           None \<Rightarrow> None
         | Some encoded \<Rightarrow>
             if int (length encoded) \<le> remaining
             then Some (if value \<noteq> [] then value else OMISSION_MARKER,
                        z\<lparr>assistant_content_bytes :=
                            assistant_content_bytes z + int (length encoded)\<rparr>)
             else if int (length (utf8_bytes TRUNCATION_MARKER)) < remaining
             then (case bound_utf8 value remaining of
                     None \<Rightarrow> None
                   | Some safe_value \<Rightarrow>
                       Some (safe_value,
                         z\<lparr>assistant_content_bytes :=
                             assistant_content_bytes z + int (length (utf8_bytes safe_value)),
                           assistant_content_exhausted := True\<rparr>))
             else Some (TRUNCATION_MARKER, z\<lparr>assistant_content_exhausted := True\<rparr>)))"

text \<open>The branch of \<open>sanitize_update\<close> for an assistant delta.\<close>

definition sanitize_delta :: "ustr \<Rightarrow> sanitizer \<Rightarrow> ustr option \<times> sanitizer" where
  "sanitize_delta text0 z =
     (case redact_stream_fragment text0 z of
        (safe_delta, z1) \<Rightarrow>
          (case bounded_assistant_fragment safe_delta z1 of
             None \<Rightarrow> (None, z1)
           | Some (bounded_delta, z2) \<Rightarrow>
               (Some bounded_delta,
                z2\<lparr>safe_assistant_text := safe_assistant_text z2 @ bounded_delta\<rparr>)))"

subsection \<open>Merged ranges hide exactly what a range covers\<close>

definition covered :: "(nat \<times> nat) list \<Rightarrow> nat \<Rightarrow> bool" where
  "covered rs i \<longleftrightarrow> (\<exists>(s, e) \<in> set rs. s \<le> i \<and> i < e)"

text \<open>The reference: drop the hidden positions, put one marker for each maximal run of them.\<close>

fun mask_runs :: "bool \<Rightarrow> nat \<Rightarrow> (nat \<Rightarrow> bool) \<Rightarrow> ustr \<Rightarrow> ustr" where
  "mask_runs inside i H [] = []"
| "mask_runs inside i H (c # s) =
     (if H i then (if inside then [] else REDACTION_MARKER) @ mask_runs True (Suc i) H s
      else c # mask_runs False (Suc i) H s)"

fun apart :: "nat \<Rightarrow> (nat \<times> nat) list \<Rightarrow> bool" where
  "apart n [] \<longleftrightarrow> True"
| "apart n ((s, e) # rs) \<longleftrightarrow> n \<le> s \<and> s < e \<and> apart (Suc e) rs"

lemma covered_simps [simp]:
  "covered [] i \<longleftrightarrow> False"
  "covered ((s, e) # rs) i \<longleftrightarrow> s \<le> i \<and> i < e \<or> covered rs i"
  "covered (rs @ rs') i \<longleftrightarrow> covered rs i \<or> covered rs' i"
  "covered (rev rs) i \<longleftrightarrow> covered rs i"
  "covered (sort rs) i \<longleftrightarrow> covered rs i"
  by (auto simp: covered_def)

lemma covered_concat: "covered (concat rss) i \<longleftrightarrow> (\<exists>rs\<in>set rss. covered rs i)"
  by (auto simp: covered_def)

lemma apart_uncovered: "apart n rs \<Longrightarrow> i < n \<Longrightarrow> \<not> covered rs i"
  by (induction n rs rule: apart.induct) auto

lemma apart_le: "apart n rs \<Longrightarrow> m \<le> n \<Longrightarrow> apart m rs"
  by (cases rs) auto

lemma mask_plain:
  "(\<And>j. i \<le> j \<Longrightarrow> j < i + k \<Longrightarrow> \<not> H j) \<Longrightarrow> k \<le> length xs \<Longrightarrow>
     mask_runs p i H xs = take k xs @ mask_runs (p \<and> k = 0) (i + k) H (drop k xs)"
proof (induction k arbitrary: i xs p)
  case (Suc k)
  then obtain c r where xs: "xs = c # r" by (cases xs) auto
  have "\<not> H i" using Suc.prems(1) [of i] by simp
  moreover have "mask_runs False (Suc i) H r = take k r @ mask_runs (False \<and> k = 0) (Suc i + k) H (drop k r)"
    using Suc.prems by (intro Suc.IH) (auto simp: xs)
  ultimately show ?case by (simp add: xs)
qed simp

lemma mask_hidden:
  "(\<And>j. i \<le> j \<Longrightarrow> j < i + k \<Longrightarrow> H j) \<Longrightarrow> k \<le> length xs \<Longrightarrow> 0 < k \<Longrightarrow>
     mask_runs p i H xs =
       (if p then [] else REDACTION_MARKER) @ mask_runs True (i + k) H (drop k xs)"
proof (induction k arbitrary: i xs p)
  case (Suc k)
  then obtain c r where xs: "xs = c # r" by (cases xs) auto
  have h: "H i" using Suc.prems(1) [of i] by simp
  show ?case
  proof (cases "k = 0")
    case False
    have "mask_runs True (Suc i) H r = [] @ mask_runs True (Suc i + k) H (drop k r)"
      using Suc.IH [of "Suc i" r True] Suc.prems False by (auto simp: xs)
    with h show ?thesis by (simp add: xs)
  qed (use h in \<open>simp add: xs\<close>)
qed simp

lemma mask_inside: "\<not> H i \<or> xs = [] \<Longrightarrow> mask_runs True i H xs = mask_runs False i H xs"
  by (cases xs) auto

lemma mask_cong:
  "(\<And>j. i \<le> j \<Longrightarrow> H j = H' j) \<Longrightarrow> mask_runs p i H xs = mask_runs p i H' xs"
  by (induction xs arbitrary: i p) auto

lemma cut_pieces_mask:
  "apart cursor rs \<Longrightarrow> (\<forall>(s, e) \<in> set rs. e \<le> length v) \<Longrightarrow> cursor \<le> length v \<Longrightarrow>
     cut_pieces v cursor rs = mask_runs False cursor (covered rs) (drop cursor v)"
proof (induction v cursor rs rule: cut_pieces.induct)
  case (1 v cursor)
  have "\<not> covered [] j" for j by simp
  then have "mask_runs False cursor (covered []) (drop cursor v) =
      take (length v - cursor) (drop cursor v) @ mask_runs False (length v) (covered []) []"
    using mask_plain [of cursor "length v - cursor" "covered []" "drop cursor v" False] "1.prems"
    by (simp del: covered_simps)
  then show ?case by (simp del: covered_simps)
next
  case (2 v cursor s e rs)
  let ?H = "covered ((s, e) # rs)"
  have b: "cursor \<le> s" "s < e" "apart (Suc e) rs" "e \<le> length v" using "2.prems" by auto
  have later: "\<not> covered rs j" if "j \<le> e" for j using apart_uncovered [OF b(3)] that by auto
  have "mask_runs False cursor ?H (drop cursor v) =
      take (s - cursor) (drop cursor v) @ mask_runs False s ?H (drop s v)"
    using mask_plain [of cursor "s - cursor" ?H "drop cursor v" False] b later by simp
  also have "mask_runs False s ?H (drop s v) = REDACTION_MARKER @ mask_runs True e ?H (drop e v)"
    using mask_hidden [of s "e - s" ?H "drop s v" False] b by simp
  also have "mask_runs True e ?H (drop e v) = mask_runs False e ?H (drop e v)"
    using later [of e] by (intro mask_inside) simp
  also have "\<dots> = mask_runs False e (covered rs) (drop e v)"
    by (rule mask_cong) simp
  also have "\<dots> = cut_pieces v e rs"
    using "2.IH" "2.prems" b apart_le [OF b(3), of e] by simp
  finally show ?case by (simp add: slice_def)
qed

text \<open>The merge loop: ranges last first, each with a gap before it.\<close>

fun descending :: "(nat \<times> nat) list \<Rightarrow> bool" where
  "descending [] \<longleftrightarrow> True"
| "descending [(s, e)] \<longleftrightarrow> s < e"
| "descending ((s, e) # (a, b) # m) \<longleftrightarrow> s < e \<and> b < s \<and> descending ((a, b) # m)"

lemma descending_Cons: "descending ((s, e) # m) \<longleftrightarrow> s < e \<and> (m \<noteq> [] \<longrightarrow> snd (hd m) < s) \<and> descending m"
  by (cases m) auto

lemma merge_step_descending:
  "descending m \<Longrightarrow> s < e \<Longrightarrow> (m \<noteq> [] \<Longrightarrow> fst (hd m) \<le> s) \<Longrightarrow>
     descending (merge_step (s, e) m) \<and> merge_step (s, e) m \<noteq> [] \<and>
     fst (hd (merge_step (s, e) m)) \<le> s \<and>
     (\<forall>i. covered (merge_step (s, e) m) i \<longleftrightarrow> s \<le> i \<and> i < e \<or> covered m i)"
proof (cases m)
  case (Cons ab m')
  moreover assume "descending m" "s < e" "m \<noteq> [] \<Longrightarrow> fst (hd m) \<le> s"
  ultimately show ?thesis
    by (cases ab; cases "s \<le> snd ab") (auto simp: descending_Cons)
qed auto

lemma merge_step_ends:
  "\<forall>(a, b) \<in> set m. b \<le> n \<Longrightarrow> e \<le> n \<Longrightarrow> \<forall>(a, b) \<in> set (merge_step (s, e) m). b \<le> n"
  by (cases m) (auto split: if_splits)

lemma merge_fold:
  "sorted rs \<Longrightarrow> (\<forall>(s, e) \<in> set rs. s < e \<and> e \<le> n) \<Longrightarrow> descending m \<Longrightarrow>
     (m \<noteq> [] \<Longrightarrow> \<forall>(s, e) \<in> set rs. fst (hd m) \<le> s) \<Longrightarrow> \<forall>(a, b) \<in> set m. b \<le> n \<Longrightarrow>
     descending (fold merge_step rs m) \<and> (\<forall>(a, b) \<in> set (fold merge_step rs m). b \<le> n) \<and>
     (\<forall>i. covered (fold merge_step rs m) i \<longleftrightarrow> covered rs i \<or> covered m i)"
proof (induction rs arbitrary: m)
  case (Cons r rs)
  obtain s e where r: "r = (s, e)" by (cases r)
  have se: "s < e" "e \<le> n" using Cons.prems(2) r by auto
  have hd_le: "m \<noteq> [] \<Longrightarrow> fst (hd m) \<le> s" using Cons.prems(4) r by auto
  note st = merge_step_descending [OF Cons.prems(3) se(1) hd_le]
  have "\<forall>(s', e') \<in> set rs. s \<le> s'" using Cons.prems(1) by (auto simp: r less_eq_prod_def)
  then have "\<forall>(s', e') \<in> set rs. fst (hd (merge_step (s, e) m)) \<le> s'"
    using st order_trans by fastforce
  with Cons.IH [of "merge_step (s, e) m"] Cons.prems(1,2) st
    merge_step_ends [OF Cons.prems(5) se(2), of s]
  show ?case by (auto simp: r)
qed simp

lemma descending_apart: "descending m \<Longrightarrow> apart k rs \<Longrightarrow> (m \<noteq> [] \<Longrightarrow> snd (hd m) < k) \<Longrightarrow>
    apart 0 (rev m @ rs)"
proof (induction m arbitrary: k rs rule: descending.induct)
  case 1
  then show ?case using apart_le by auto
next
  case (2 s e)
  then show ?case using apart_le [of k rs "Suc e"] by auto
next
  case (3 s e a b m)
  have "apart s ((s, e) # rs)" using 3(2-4) apart_le [of k rs "Suc e"] by auto
  then have "apart 0 (rev ((a, b) # m) @ (s, e) # rs)"
    using "3.IH" [of s "(s, e) # rs"] 3(2) by simp
  then show ?case by simp
qed

lemma replace_ranges_mask:
  assumes "\<forall>(s, e) \<in> set ranges. s < e \<and> e \<le> length v"
  shows "replace_ranges v ranges = mask_runs False 0 (covered ranges) v"
proof -
  let ?m = "fold merge_step (sort ranges) []"
  have f: "descending ?m" "\<forall>(a, b) \<in> set ?m. b \<le> length v" "\<And>i. covered ?m i = covered ranges i"
    using merge_fold [of "sort ranges" "length v" "[]"] assms by auto
  have "apart 0 (rev ?m @ [])"
    using f(1) by (rule descending_apart [where k = "Suc (snd (hd ?m))"]) auto
  then have "cut_pieces v 0 (merged_ranges ranges) = mask_runs False 0 (covered (merged_ranges ranges)) v"
    using cut_pieces_mask [of 0 "merged_ranges ranges" v] f(2) by (simp add: merged_ranges_def)
  also have "covered (merged_ranges ranges) = covered ranges"
    using f(3) by (intro ext) (simp add: merged_ranges_def)
  finally have "cut_pieces v 0 (merged_ranges ranges) = mask_runs False 0 (covered ranges) v" .
  moreover have "mask_runs False 0 (covered []) v = v"
    using mask_plain [of 0 "length v" "covered []" v False] by simp
  ultimately show ?thesis by (cases "ranges = []") (simp_all add: replace_ranges_def)
qed

subsection \<open>Secrets in a stream of fragments\<close>

lemma secret_finds_all: "set (secret_finds c w i) = {s. i \<le> s \<and> occurs_at w c s}"
proof (induction c w i rule: secret_finds.induct)
  case (1 c w i)
  show ?case
  proof (cases "find_from c w i")
    case None
    then have "secret_finds c w i = []" by (subst secret_finds.simps) simp
    with None show ?thesis unfolding find_from_None by auto
  next
    case (Some s)
    note f = find_from_Some [OF Some]
    have "x = s \<or> Suc s \<le> x" if "i \<le> x" "occurs_at w c x" for x
      using f that by (metis not_less_eq_eq linorder_neqE_nat not_less)
    with f "1.IH" [OF Some] Some show ?thesis by (subst secret_finds.simps) auto
  qed
qed

lemma covered_local_range: "covered (local_range b s e) i \<longleftrightarrow> s \<le> b + i \<and> b + i < e"
  by (auto simp: local_range_def Let_def)

lemma complete_secret_covers:
  assumes "occurs_at w c s" "s \<le> b + i" "b + i < s + length w" "w \<noteq> []"
  shows "covered (complete_secret_ranges c b w) i"
proof -
  have "s \<in> set (secret_finds c w 0)" using assms(1) by (simp add: secret_finds_all)
  moreover have "s + length w \<le> length c" using assms(1) by (simp add: occurs_at_def)
  moreover have "covered (local_range b s (min (s + length w) (length c))) i"
    using assms(2,3) calculation(2) by (simp add: covered_local_range)
  moreover have "b < s + length w" "s < length c"
    using assms(2-4) calculation(2) by (auto simp flip: length_greater_0_conv)
  ultimately show ?thesis
    unfolding complete_secret_ranges_def covered_concat set_map Let_def
    by (intro bexI [OF _ image_eqI [OF refl]]) simp_all
qed

lemma partial_secret_covers:
  assumes "ends_with c (take n w)" "1 \<le> n" "n < length w" "length c \<le> b + i + n" "b + i < length c"
  shows "covered (partial_secret_ranges c b w) i"
proof -
  let ?P = "\<lambda>n. ends_with c (take n w)"
  have "n \<in> set (rev [1..<length w])" using assms(2,3) by simp
  then obtain m where m: "List.find ?P (rev [1..<length w]) = Some m"
    using assms(1) by (metis find_None_iff option.exhaust)
  have "n \<le> m"
  proof (rule ccontr)
    assume "\<not> n \<le> m"
    let ?xs = "rev [1..<length w]"
    obtain k where k: "k < length ?xs" "m = ?xs ! k" "\<forall>j<k. \<not> ?P (?xs ! j)"
      using m unfolding find_Some_iff by blast
    have km: "m = length w - Suc k" using k(1,2) by (simp add: rev_nth)
    let ?j = "length w - Suc n"
    have "?j < k" using \<open>\<not> n \<le> m\<close> km assms(3) k(1) by simp
    moreover have "?xs ! ?j = n" using assms(2,3) by (simp add: rev_nth)
    ultimately show False using k(3) assms(1) by metis
  qed
  then show ?thesis
    using m assms(4,5) by (simp add: partial_secret_ranges_def covered_local_range)
qed

definition hidden :: "sanitizer \<Rightarrow> ustr \<Rightarrow> nat \<Rightarrow> bool" where
  "hidden z d = covered (fst (fragment_ranges z d))"

lemma local_range_bounds: "(s, e) \<in> set (local_range b a c) \<Longrightarrow> s < e \<and> e = c - b"
  by (auto simp: local_range_def Let_def split: if_splits)

lemma prefix_ranges_bounds:
  "(s, e) \<in> set (fst (prefix_ranges c b ps k)) \<Longrightarrow> s < e \<and> e = length c - b"
proof (induction c b ps k rule: prefix_ranges.induct)
  case (2 c b p kind ps k)
  show ?case
  proof (cases "search p c")
    case None
    with "2.prems" "2.IH"(1) show ?thesis by simp
  next
    case (Some m)
    obtain a x where m: "m = (a, x)" by (cases m)
    let ?l = "max a b - b"
    show ?thesis
    proof (cases "?l < length c - b")
      case True
      obtain rs k' where r: "prefix_ranges c b ps (Some kind) = (rs, k')" by (rule prod.exhaust)
      have "(s, e) = (?l, length c - b) \<or> (s, e) \<in> set rs"
        using "2.prems" Some m True r by (simp add: Let_def)
      moreover have "(s, e) \<in> set rs \<Longrightarrow> s < e \<and> e = length c - b"
        using "2.IH"(2) [OF Some m [symmetric] refl refl True] r by simp
      ultimately show ?thesis using True by auto
    next
      case False
      have "(s, e) \<in> set (fst (prefix_ranges c b ps k))"
        using "2.prems" Some m False by (simp add: Let_def)
      then show ?thesis by (rule "2.IH"(3) [OF Some m [symmetric] refl refl False])
    qed
  qed
qed simp

lemma fragment_ranges_bounds:
  "(s, e) \<in> set (fst (fragment_ranges z d)) \<Longrightarrow> s < e \<and> e \<le> length d"
proof -
  let ?c = "raw_assistant_tail z @ d" and ?b = "length (raw_assistant_tail z)"
  have 1: "s < e \<and> e \<le> length d" if "(s, e) \<in> set (fst (continue_credential k d))" for k
    using that by (auto simp: continue_credential_def Let_def split: option.splits if_splits
        dest: match_here_le)
  have 2: "s < e \<and> e \<le> length d" if "(s, e) \<in> set (complete_secret_ranges ?c ?b w)" for w
  proof -
    from that obtain a where "(s, e) \<in> set (local_range ?b a (min (a + length w) (length ?c)))"
      by (auto simp: complete_secret_ranges_def Let_def simp del: length_append split: if_splits)
    then show ?thesis by (auto dest!: local_range_bounds)
  qed
  have 3: "s < e \<and> e \<le> length d" if "(s, e) \<in> set (partial_secret_ranges ?c ?b w)" for w
  proof -
    from that obtain n where "(s, e) \<in> set (local_range ?b (length ?c - n) (length ?c))"
      by (auto simp: partial_secret_ranges_def simp del: length_append split: option.splits)
    then show ?thesis by (auto dest!: local_range_bounds)
  qed
  have 4: "s < e \<and> e \<le> length d" if "(s, e) \<in> set (pattern_ranges ?c ?b p)" for p
  proof -
    from that obtain a b where "(a, b) \<in> set (finditer p 0 ?c)" "(s, e) \<in> set (local_range ?b a b)"
      by (auto simp: pattern_ranges_def split: if_splits)
    then show ?thesis by (auto dest!: local_range_bounds finditer_bounds)
  qed
  have 5: "s < e \<and> e \<le> length d" if "(s, e) \<in> set (fst (prefix_ranges ?c ?b ps k))" for ps k
    using prefix_ranges_bounds [OF that] by simp
  obtain ct k where ct: "continue_credential (credential_continuation z) d = (ct, k)"
    by (rule prod.exhaust)
  obtain pre k' where pre: "prefix_ranges ?c ?b CREDENTIAL_PREFIX_PATTERNS k = (pre, k')"
    by (rule prod.exhaust)
  have "fst (continue_credential (credential_continuation z) d) = ct"
    "fst (prefix_ranges ?c ?b CREDENTIAL_PREFIX_PATTERNS k) = pre"
    using ct pre by simp_all
  note parts = 1 [of "credential_continuation z", unfolded this(1)] 2 3 4
    5 [of CREDENTIAL_PREFIX_PATTERNS k, unfolded this(2)]
  assume "(s, e) \<in> set (fst (fragment_ranges z d))"
  then consider "(s, e) \<in> set ct" | w where "(s, e) \<in> set (complete_secret_ranges ?c ?b w)"
    | w where "(s, e) \<in> set (partial_secret_ranges ?c ?b w)"
    | p where "(s, e) \<in> set (pattern_ranges ?c ?b p)" | "(s, e) \<in> set pre"
    unfolding fragment_ranges_def Let_def ct pre prod.case by auto
  then show ?thesis by cases (use parts in blast)+
qed

lemma redact_cong: "sensitive_values z' = sensitive_values z \<Longrightarrow> redact z' = redact z"
  by (intro ext) (simp add: redact_def)

lemma redact_stream_fragment_text:
  "fst (redact_stream_fragment d z) = redact z (mask_runs False 0 (hidden z d) d)"
proof -
  obtain rs k where f: "fragment_ranges z d = (rs, k)" by (cases "fragment_ranges z d")
  have "\<forall>(s, e) \<in> set rs. s < e \<and> e \<le> length d"
    using fragment_ranges_bounds [of _ _ z d] f by auto
  from replace_ranges_mask [OF this] f show ?thesis
    by (simp add: redact_stream_fragment_def Let_def hidden_def redact_def)
qed

text \<open>What a run of deltas leaves in the look-behind: the last characters of the raw text.\<close>

definition sanitize_deltas :: "sanitizer \<Rightarrow> ustr list \<Rightarrow> sanitizer" where
  "sanitize_deltas z ds = fold (\<lambda>d z. snd (sanitize_delta d z)) ds z"

lemma bounded_fragment_frame:
  "bounded_assistant_fragment v z = Some (t, z') \<Longrightarrow>
     sensitive_values z' = sensitive_values z \<and> raw_assistant_tail z' = raw_assistant_tail z \<and>
     credential_continuation z' = credential_continuation z \<and>
     text_limit_bytes z' = text_limit_bytes z \<and> safe_assistant_text z' = safe_assistant_text z"
  by (auto simp: bounded_assistant_fragment_def Let_def split: if_splits option.splits)

lemma sanitize_delta_tail:
  "sensitive_values (snd (sanitize_delta d z)) = sensitive_values z \<and>
   raw_assistant_tail (snd (sanitize_delta d z)) =
     drop (length (raw_assistant_tail z @ d) - tail_length z) (raw_assistant_tail z @ d)"
  by (auto simp: sanitize_delta_def redact_stream_fragment_def Let_def
      dest!: bounded_fragment_frame split: prod.splits option.splits)

lemma tail_length_cong: "sensitive_values z' = sensitive_values z \<Longrightarrow> tail_length z' = tail_length z"
  by (simp add: tail_length_def maximum_secret_length_def)

lemma sanitize_deltas_tail:
  "raw_assistant_tail z = drop (length raw - tail_length z) raw \<Longrightarrow>
     sensitive_values (sanitize_deltas z ds) = sensitive_values z \<and>
     raw_assistant_tail (sanitize_deltas z ds) =
       drop (length (raw @ concat ds) - tail_length z) (raw @ concat ds)"
proof (induction ds arbitrary: z raw)
  case (Cons d ds)
  let ?z = "snd (sanitize_delta d z)"
  have s: "sensitive_values ?z = sensitive_values z" using sanitize_delta_tail by blast
  have "raw_assistant_tail ?z = drop (length (raw @ d) - tail_length z) (raw @ d)"
    using sanitize_delta_tail [of d z] Cons.prems
    by (cases "tail_length z \<le> length raw") (simp_all add: add.commute)
  then show ?case
    using Cons.IH [of ?z "raw @ d"] s tail_length_cong [OF s] by (simp add: sanitize_deltas_def)
qed (simp add: sanitize_deltas_def)

lemma secret_length_le_tail:
  assumes "w \<in> set (sensitive_values z)"
  shows "length w \<le> Suc (tail_length z)"
proof -
  have "length w \<le> Max (set (map length (sensitive_values z)))" using assms by (intro Max_ge) auto
  moreover have "tail_length z = max (Max (set (map length (sensitive_values z))) - 1) STREAM_REDACTION_LOOKBEHIND"
    using assms by (auto simp: tail_length_def maximum_secret_length_def)
  ultimately show ?thesis by linarith
qed

lemma secret_in_fragment_hidden:
  assumes "w \<in> set (sensitive_values z)" "raw_assistant_tail z = drop (length raw - tail_length z) raw"
    and "occurs_at w (raw @ d @ later) p" "i < length d"
    and "p \<le> length raw + i" "length raw + i < p + length w"
  shows "hidden z d i"
proof -
  let ?t = "raw_assistant_tail z"
  let ?b = "length ?t"
  let ?cut = "length raw - tail_length z"
  have b: "?b = length raw - ?cut" using assms(2) by simp
  have cut: "?cut \<le> p" using secret_length_le_tail [OF assms(1)] assms(4,6) assms(5) by linarith
  have w: "w \<noteq> []" using assms(5,6) by auto
  have tx: "?t @ d = drop ?cut (raw @ d)" using assms(2) by simp
  obtain x y where xy: "raw @ d @ later = x @ w @ y" "length x = p"
    using assms(3) by (auto simp: occurs_at_iff)
  have "covered (complete_secret_ranges (?t @ d) ?b w @ partial_secret_ranges (?t @ d) ?b w) i"
  proof (cases "p + length w \<le> length (raw @ d)")
    case True
    have "take (p + length w) (raw @ d) = take (p + length w) (raw @ d @ later)"
      using True by simp
    also have "\<dots> = x @ w" unfolding xy(1) using xy(2) by simp
    finally have "raw @ d = x @ w @ drop (p + length w) (raw @ d)"
      by (metis append_take_drop_id append.assoc)
    then have "?t @ d = drop ?cut x @ w @ drop (p + length w) (raw @ d)"
      unfolding tx using cut xy(2) by (metis diff_is_0_eq' drop_0 drop_append)
    then have "occurs_at w (?t @ d) (p - ?cut)" using xy(2) by (auto simp: occurs_at_iff)
    then have "covered (complete_secret_ranges (?t @ d) ?b w) i"
      by (rule complete_secret_covers) (use assms(5,6) b cut w in auto)
    then show ?thesis by simp
  next
    case False
    let ?n = "length (raw @ d) - p"
    have n: "1 \<le> ?n" "?n < length w" "p \<le> length (raw @ d)" using False assms(4,5) by auto
    have "raw @ d = take (length (raw @ d)) (raw @ d @ later)" by simp
    also have "\<dots> = x @ take ?n w" unfolding xy(1) using n xy(2) by simp
    finally have "raw @ d = x @ take ?n w" .
    then have t: "?t @ d = drop ?cut x @ take ?n w"
      unfolding tx using cut xy(2) by (metis diff_is_0_eq' drop_0 drop_append)
    then have "ends_with (?t @ d) (take ?n w)" by (metis ends_with_iff suffixI)
    moreover have "length (?t @ d) = length (raw @ d) - ?cut" using tx by simp
    moreover have "?b + i < length (?t @ d)" using assms(4) by simp
    moreover have "length (raw @ d) - ?cut \<le> ?b + i + ?n" using assms(5) b cut n(3) by simp
    ultimately have "covered (partial_secret_ranges (?t @ d) ?b w) i"
      using n(1,2) partial_secret_covers by presburger
    then show ?thesis by simp
  qed
  then show ?thesis
    using assms(1) by (auto simp: hidden_def fragment_ranges_def Let_def covered_concat split: prod.splits)
qed

subsection \<open>Bounds and validity of sanitized text\<close>

lemma marker_bytes [simp]:
  "length (utf8_bytes TRUNCATION_MARKER) = 11" "length (utf8_bytes OMISSION_MARKER) = 1"
  by (simp_all add: TRUNCATION_MARKER_def OMISSION_MARKER_def utf8_char_def)

lemma marker_scalar [simp]:
  "list_all is_scalar TRUNCATION_MARKER" "list_all is_scalar OMISSION_MARKER"
  "list_all is_scalar REDACTION_MARKER"
  by (simp_all add: TRUNCATION_MARKER_def OMISSION_MARKER_def REDACTION_MARKER_def is_scalar_def
      is_surrogate_def)

lemma marker_layout [simp]:
  "list_all (\<lambda>c. \<not> is_unsafe_layout c) TRUNCATION_MARKER"
  "list_all (\<lambda>c. \<not> is_unsafe_layout c) OMISSION_MARKER"
  "list_all (\<lambda>c. \<not> is_unsafe_layout c) REDACTION_MARKER"
  by (simp_all add: TRUNCATION_MARKER_def OMISSION_MARKER_def REDACTION_MARKER_def is_unsafe_layout_def)

lemma marker_not_Nil [simp]:
  "TRUNCATION_MARKER \<noteq> []" "OMISSION_MARKER \<noteq> []" "REDACTION_MARKER \<noteq> []"
  by (simp_all add: TRUNCATION_MARKER_def OMISSION_MARKER_def REDACTION_MARKER_def)

lemma bound_utf8_cases:
  assumes "list_all is_scalar v" "11 \<le> limit"
  obtains (whole) "bound_utf8 v limit = Some v" "int (length (utf8_bytes v)) \<le> limit"
  | (cut) pre where "bound_utf8 v limit = Some (pre @ TRUNCATION_MARKER)" "prefix pre v"
      "int (length (utf8_bytes (pre @ TRUNCATION_MARKER))) \<le> limit"
      "limit < int (length (utf8_bytes v))"
proof (cases "int (length (utf8_bytes v)) \<le> limit")
  case True
  then show ?thesis using assms by (intro whole) (simp_all add: bound_utf8_def utf8_encode_def)
next
  case False
  let ?pre = "utf8_ignore (take (nat (limit - 11)) (utf8_bytes v))"
  have "bound_utf8 v limit = Some (?pre @ TRUNCATION_MARKER)"
    using assms False by (simp add: bound_utf8_def utf8_encode_def Let_def slice_to_def)
  moreover from utf8_ignore_take [OF assms(1), of "nat (limit - 11)"]
  have "prefix ?pre v" "length (utf8_bytes ?pre) \<le> nat (limit - 11)" by simp_all
  ultimately show ?thesis using assms(2) False by (intro cut [of ?pre]) simp_all
qed

text \<open>A class of characters closed under the sanitizer: it has the three markers.\<close>

definition marker_class :: "(nat \<Rightarrow> bool) \<Rightarrow> bool" where
  "marker_class P \<longleftrightarrow>
     list_all P TRUNCATION_MARKER \<and> list_all P OMISSION_MARKER \<and> list_all P REDACTION_MARKER"

lemma mask_runs_all:
  "list_all P REDACTION_MARKER \<Longrightarrow> list_all P s \<Longrightarrow> list_all P (mask_runs p i H s)"
  by (induction s arbitrary: p i) auto

lemma fold_all: "(\<And>x s. list_all P s \<Longrightarrow> list_all P (f x s)) \<Longrightarrow> list_all P s \<Longrightarrow> list_all P (fold f xs s)"
  by (induction xs arbitrary: s) simp_all

lemma redact_all: "marker_class P \<Longrightarrow> list_all P s \<Longrightarrow> list_all P (redact z s)"
  unfolding redact_def Let_def
  by (intro fold_all) (simp_all add: marker_class_def py_replace_all re_sub_all)

lemma redact_stream_fragment_all:
  "marker_class P \<Longrightarrow> list_all P d \<Longrightarrow> list_all P (fst (redact_stream_fragment d z))"
  by (simp add: redact_stream_fragment_text redact_all mask_runs_all marker_class_def)

text \<open>
  The running budget after \<open>n\<close> deltas: the counted content is within the limit, and the safe
  text exceeds it by at most one byte for each delta and one truncation marker.
\<close>

definition sanitizer_ok :: "nat \<Rightarrow> sanitizer \<Rightarrow> bool" where
  "sanitizer_ok n z \<longleftrightarrow>
     11 < text_limit_bytes z \<and> 0 \<le> assistant_content_bytes z \<and>
     assistant_content_bytes z \<le> text_limit_bytes z \<and>
     list_all is_scalar (safe_assistant_text z) \<and>
     int (length (utf8_bytes (safe_assistant_text z))) \<le>
       assistant_content_bytes z + int n + (if assistant_content_exhausted z then 11 else 0)"

lemma bounded_fragment_ok:
  assumes "list_all is_scalar v" "sanitizer_ok n z"
  shows "\<exists>t z'. bounded_assistant_fragment v z = Some (t, z') \<and> t \<noteq> [] \<and>
     (\<forall>P. marker_class P \<longrightarrow> list_all P v \<longrightarrow> list_all P t) \<and>
     sanitizer_ok (Suc n) (z'\<lparr>safe_assistant_text := safe_assistant_text z' @ t\<rparr>)"
proof -
  let ?rem = "text_limit_bytes z - assistant_content_bytes z"
  have e: "utf8_encode v = Some (utf8_bytes v)" using assms(1) by (simp add: utf8_encode_def)
  consider "assistant_content_exhausted z"
    | "\<not> assistant_content_exhausted z" "int (length (utf8_bytes v)) \<le> ?rem"
    | "\<not> assistant_content_exhausted z" "?rem < int (length (utf8_bytes v))" "11 < ?rem"
    | "\<not> assistant_content_exhausted z" "?rem < int (length (utf8_bytes v))" "?rem \<le> 11"
    by linarith
  then show ?thesis
  proof cases
    case 1
    with assms show ?thesis
      by (auto simp: bounded_assistant_fragment_def sanitizer_ok_def marker_class_def)
  next
    case 2
    with assms show ?thesis
      by (cases "v = []")
        (auto simp: bounded_assistant_fragment_def sanitizer_ok_def marker_class_def e)
  next
    case 3
    from assms(1) have "11 \<le> ?rem" using 3 by simp
    with assms(1) show ?thesis
    proof (cases rule: bound_utf8_cases)
      case whole
      with 3 show ?thesis by simp
    next
      case (cut pre)
      have "list_all P pre" if "list_all P v" for P
        using cut(2) that by (auto simp: prefix_def)
      with cut 3 assms show ?thesis
        by (auto simp: bounded_assistant_fragment_def sanitizer_ok_def marker_class_def e)
    qed
  next
    case 4
    with assms show ?thesis
      by (auto simp: bounded_assistant_fragment_def sanitizer_ok_def marker_class_def e)
  qed
qed

lemma sanitizer_ok_frame:
  "text_limit_bytes z' = text_limit_bytes z \<Longrightarrow> assistant_content_bytes z' = assistant_content_bytes z \<Longrightarrow>
   assistant_content_exhausted z' = assistant_content_exhausted z \<Longrightarrow>
   safe_assistant_text z' = safe_assistant_text z \<Longrightarrow> sanitizer_ok n z' \<longleftrightarrow> sanitizer_ok n z"
  by (simp add: sanitizer_ok_def)

lemma sanitize_delta_ok:
  assumes "AssistantText d" "sanitizer_ok n z"
  shows "\<exists>t. fst (sanitize_delta d z) = Some t \<and> AssistantText t
    \<and> sanitizer_ok (Suc n) (snd (sanitize_delta d z))
    \<and> safe_assistant_text (snd (sanitize_delta d z)) = safe_assistant_text z @ t"
proof -
  obtain r z1 where r: "redact_stream_fragment d z = (r, z1)" by (rule prod.exhaust)
  have d: "list_all is_scalar d" "list_all (\<lambda>c. \<not> is_unsafe_layout c) d"
    using assms(1) by (auto simp: AssistantText_iff list_all_iff list_ex_iff)
  have mc: "marker_class is_scalar" "marker_class (\<lambda>c. \<not> is_unsafe_layout c)"
    by (simp_all add: marker_class_def)
  have rv: "list_all is_scalar r" "list_all (\<lambda>c. \<not> is_unsafe_layout c) r"
    using redact_stream_fragment_all [OF mc(1) d(1), of z]
      redact_stream_fragment_all [OF mc(2) d(2), of z] r by simp_all
  have "sanitizer_ok n z1" "safe_assistant_text z1 = safe_assistant_text z"
    using r assms(2)
    by (auto simp: redact_stream_fragment_def Let_def sanitizer_ok_def split: prod.splits)
  from bounded_fragment_ok [OF rv(1) this(1)] obtain t z2 where
    t: "bounded_assistant_fragment r z1 = Some (t, z2)" "t \<noteq> []"
      "\<forall>P. marker_class P \<longrightarrow> list_all P r \<longrightarrow> list_all P t"
      "sanitizer_ok (Suc n) (z2\<lparr>safe_assistant_text := safe_assistant_text z2 @ t\<rparr>)"
    by blast
  have "list_all is_scalar t" "list_all (\<lambda>c. \<not> is_unsafe_layout c) t"
    using t(3) mc rv by blast+
  then have "AssistantText t"
    using t(2) by (auto simp: AssistantText_iff list_all_iff list_ex_iff Suc_le_eq)
  with t(1,4) r bounded_fragment_frame [OF t(1)] \<open>safe_assistant_text z1 = safe_assistant_text z\<close>
  show ?thesis by (simp add: sanitize_delta_def)
qed

lemma sanitize_deltas_ok:
  "sanitizer_ok n z \<Longrightarrow> list_all AssistantText ds \<Longrightarrow> sanitizer_ok (n + length ds) (sanitize_deltas z ds)"
proof (induction ds arbitrary: n z)
  case (Cons d ds)
  then have "sanitizer_ok (Suc n) (snd (sanitize_delta d z))" using sanitize_delta_ok [of d n z] by auto
  with Cons.IH [of "Suc n"] Cons.prems(2) show ?case by (simp add: sanitize_deltas_def)
qed (simp add: sanitize_deltas_def)

lemma new_sanitizer_ok: "11 < limit \<Longrightarrow> sanitizer_ok 0 (new_sanitizer secrets limit)"
  by (simp add: sanitizer_ok_def new_sanitizer_def)

lemma bounded_scalar:
  assumes "list_all is_scalar v" "11 < text_limit_bytes z" "marker_class P" "list_all P v"
  shows "\<exists>t. bounded z v = Some t \<and> list_all P t \<and> (v \<noteq> [] \<longrightarrow> t \<noteq> [])
    \<and> int (length (utf8_bytes t)) \<le> text_limit_bytes z"
proof -
  from assms(2) have "11 \<le> text_limit_bytes z" by simp
  with assms(1) show ?thesis
  proof (cases rule: bound_utf8_cases)
    case (cut pre)
    with assms(3,4) show ?thesis by (auto simp: bounded_def marker_class_def prefix_def)
  qed (use assms(4) in \<open>simp add: bounded_def\<close>)
qed

subsection \<open>Properties\<close>

text \<open>C27: A configured secret cannot reach the transcript through a stream of deltas, however it
  is split over them. Whatever deltas came before and come after, every character of the current
  delta that belongs to an occurrence of a configured secret in the whole raw text is at a hidden
  position, and the text handed on is the delta with its hidden positions dropped, each maximal
  run of them replaced by one marker, and then redacted once more as a whole.\<close>

theorem streamed_secrets_are_hidden:
  assumes "secret \<in> set secrets"
    and "occurs_at secret (concat (before @ [d] @ later)) p"
    and "i < length d" "p \<le> length (concat before) + i" "length (concat before) + i < p + length secret"
  shows "hidden (sanitize_deltas (new_sanitizer secrets limit) before) d i \<and>
    fst (redact_stream_fragment d (sanitize_deltas (new_sanitizer secrets limit) before)) =
      redact (new_sanitizer secrets limit)
        (mask_runs False 0 (hidden (sanitize_deltas (new_sanitizer secrets limit) before) d) d)"
proof -
  let ?z = "sanitize_deltas (new_sanitizer secrets limit) before"
  have z: "sensitive_values ?z = secrets"
    "raw_assistant_tail ?z = drop (length (concat before) - tail_length ?z) (concat before)"
    using sanitize_deltas_tail [of "new_sanitizer secrets limit" "[]" before]
      tail_length_cong [of ?z "new_sanitizer secrets limit"]
    by (simp_all add: new_sanitizer_def)
  have "hidden ?z d i"
    by (rule secret_in_fragment_hidden [where raw = "concat before" and later = "concat later"
          and w = secret and p = p])
      (use assms z in simp_all)
  moreover have "fst (redact_stream_fragment d ?z) =
      redact (new_sanitizer secrets limit) (mask_runs False 0 (hidden ?z d) d)"
    using redact_cong [of ?z "new_sanitizer secrets limit"] z(1)
    by (simp add: redact_stream_fragment_text new_sanitizer_def)
  ultimately show ?thesis by blast
qed

theorem streamed_secrets_are_hidden_witness:
  "hidden (sanitize_deltas (new_sanitizer [lit ''hunter2''] 100) [lit ''key hun'']) (lit ''ter2 ok'') 3"
  by (rule streamed_secrets_are_hidden [where secret = "lit ''hunter2''" and later = "[]" and p = 4, THEN conjunct1])
    (simp_all add: occurs_at_def)

text \<open>Sanitized assistant text stays valid and bounded. From a fresh sanitizer with a usable
  limit, and for any sequence of deltas the protocol admits, each delta has a sanitized form, which
  again satisfies the constraints of an assistant text (so it is non-empty: deltas are never lost),
  and the UTF-8 size of all the safe text together is at most the configured limit, one truncation
  marker and one byte for each delta.\<close>

theorem sanitized_deltas_bounded:
  assumes "11 < limit" "list_all AssistantText ds" "AssistantText d"
  shows "\<exists>t. fst (sanitize_delta d (sanitize_deltas (new_sanitizer secrets limit) ds)) = Some t \<and>
      AssistantText t \<and>
      int (length (utf8_bytes (safe_assistant_text (sanitize_deltas (new_sanitizer secrets limit) ds) @ t)))
        \<le> limit + 11 + int (Suc (length ds))"
proof -
  let ?z = "sanitize_deltas (new_sanitizer secrets limit) ds"
  have ok: "sanitizer_ok (length ds) ?z"
    using sanitize_deltas_ok [OF new_sanitizer_ok [OF assms(1)] assms(2)] by simp
  from sanitize_delta_ok [OF assms(3) ok] obtain t where
    t: "fst (sanitize_delta d ?z) = Some t" "AssistantText t"
      "sanitizer_ok (Suc (length ds)) (snd (sanitize_delta d ?z))"
      "safe_assistant_text (snd (sanitize_delta d ?z)) = safe_assistant_text ?z @ t"
    by blast
  have "snd (sanitize_delta d ?z) = sanitize_deltas (new_sanitizer secrets limit) (ds @ [d])"
    by (simp add: sanitize_deltas_def)
  moreover have "text_limit_bytes (sanitize_deltas z es) = text_limit_bytes z" for z es
    by (induction es arbitrary: z)
      (auto simp: sanitize_deltas_def sanitize_delta_def redact_stream_fragment_def Let_def
        dest!: bounded_fragment_frame split: prod.splits option.splits)
  ultimately have "text_limit_bytes (snd (sanitize_delta d ?z)) = limit"
    by (simp add: new_sanitizer_def)
  with t show ?thesis by (auto simp: sanitizer_ok_def split: if_splits)
qed

theorem sanitized_deltas_bounded_witness:
  "\<exists>t. fst (sanitize_delta (lit ''sk-12345678'') (sanitize_deltas (new_sanitizer [] 12) [lit ''ok''])) = Some t \<and>
      AssistantText t \<and>
      int (length (utf8_bytes (safe_assistant_text (sanitize_deltas (new_sanitizer [] 12) [lit ''ok'']) @ t)))
        \<le> 12 + 11 + int (Suc (length [lit ''ok'']))"
  by (rule sanitized_deltas_bounded)
    (simp_all add: AssistantText_iff is_scalar_def is_surrogate_def is_unsafe_layout_def)

end
