(* ===== verification/Transcript_Records.thy ===== *)
theory Transcript_Records
  imports Redaction Loop_Limits Codec
begin

section \<open>Transcript records (persistence/transcript.py, second part)\<close>

text \<open>
  The four kinds of transcript record, their field constraints, the projection between reducer
  updates and records, and the line encoding. Reading and writing the JSON text of a record is
  pydantic's: the two functions are the parameter \<open>json_lib\<close>, with the law \<open>json_lib_ok\<close> that a
  dumped document reads back and has no line break in its bytes; the field constraints are checked
  here. \<open>std_json\<close>, the writer and reader of theory Json, satisfies the law. The lemmas: a valid
  record reads back from its document (\<open>validate_record_document\<close>) and an update from its record.
\<close>

subsection \<open>Constants and constrained strings\<close>

definition TRANSCRIPT_VERSION :: int where "TRANSCRIPT_VERSION = 3"
definition MAX_TRANSCRIPT_LINE_BYTES :: nat where "MAX_TRANSCRIPT_LINE_BYTES = 128 * 1024"
definition MAX_TRANSCRIPT_BYTES :: nat where "MAX_TRANSCRIPT_BYTES = 16 * 1024 * 1024"
definition MAX_TRANSCRIPT_RECORDS :: nat where "MAX_TRANSCRIPT_RECORDS = 10000"
definition MAX_REPLAY_ASSISTANT_BYTES :: nat where
  "MAX_REPLAY_ASSISTANT_BYTES = MAX_TRANSCRIPT_LINE_BYTES + MAX_TRANSCRIPT_RECORDS"

lemmas transcript_constants =
  TRANSCRIPT_VERSION_def MAX_TRANSCRIPT_LINE_BYTES_def MAX_TRANSCRIPT_BYTES_def
  MAX_TRANSCRIPT_RECORDS_def MAX_REPLAY_ASSISTANT_BYTES_def

text \<open>A constrained \<open>str\<close> field holds text that encodes: pydantic refuses a lone surrogate.\<close>

definition PersistedTask :: "ustr \<Rightarrow> bool" where
  "PersistedTask s \<longleftrightarrow> 1 \<le> length s \<and> list_all is_scalar s \<and> py_strip s \<noteq> []"

text \<open>\<open>^ws1_[a-f0-9]{24}$\<close>\<close>

definition is_hex_char :: "nat \<Rightarrow> bool" where
  "is_hex_char c \<longleftrightarrow> is_digit c \<or> 97 \<le> c \<and> c \<le> 102"

definition WorkspaceId :: "ustr \<Rightarrow> bool" where
  "WorkspaceId s \<longleftrightarrow>
     starts_with s (lit ''ws1_'') \<and> length s = 28 \<and> list_all is_hex_char (drop 4 s)"

subsection \<open>Records\<close>

datatype domain_fact =
    TaskSubmittedInput ustr ustr
  | CancelRequestedInput ustr ustr
  | ApprovalRequestedInput ustr
  | ApprovalResolvedInput ustr

record record_base =
  transcript_version :: int
  record_order :: int
  recorded_at :: ustr
  workspace_id :: ustr
  record_session :: ustr

record limits_record =
  lr_limits :: loop_limits
  lr_model_turns_started :: int
  lr_assistant_output_bytes :: int
  lr_tool_calls_observed :: int
  lr_exhausted_limit :: "loop_limit_exhaustion option"

datatype transcript_record =
    DomainFactRecord record_base domain_fact
  | SessionEventRecord record_base session_event
  | ModelUsageObservedRecord record_base int int
  | LoopLimitsObservedRecord record_base limits_record

fun base_of_record :: "transcript_record \<Rightarrow> record_base" where
  "base_of_record (DomainFactRecord b _) = b"
| "base_of_record (SessionEventRecord b _) = b"
| "base_of_record (ModelUsageObservedRecord b _ _) = b"
| "base_of_record (LoopLimitsObservedRecord b _) = b"

fun record_kind :: "transcript_record \<Rightarrow> string" where
  "record_kind (DomainFactRecord _ _) = ''domain_fact''"
| "record_kind (SessionEventRecord _ _) = ''session_event''"
| "record_kind (ModelUsageObservedRecord _ _ _) = ''model.usage_observed''"
| "record_kind (LoopLimitsObservedRecord _ _) = ''loop.limits_observed''"

fun record_versions :: "string \<Rightarrow> int set" where
  "record_versions kind =
     (if kind = ''model.usage_observed'' then {2, 3}
      else if kind = ''loop.limits_observed'' then {3} else {1, 2, 3})"

definition record_base_ok :: "string \<Rightarrow> record_base \<Rightarrow> bool" where
  "record_base_ok kind b \<longleftrightarrow>
     transcript_version b \<in> record_versions kind \<and> 0 < record_order b \<and> Timestamp (recorded_at b) \<and>
     WorkspaceId (workspace_id b) \<and> SessionId (record_session b)"

fun fact_ok :: "domain_fact \<Rightarrow> bool" where
  "fact_ok (TaskSubmittedInput cmd task) = (CommandId cmd \<and> PersistedTask task)"
| "fact_ok (CancelRequestedInput cmd sid) = (CommandId cmd \<and> SessionId sid)"
| "fact_ok (ApprovalRequestedInput sid) = SessionId sid"
| "fact_ok (ApprovalResolvedInput sid) = SessionId sid"

text \<open>\<open>_loop_limits_observation\<close>: the record's cross-field validator and its domain value.\<close>

definition loop_limits_observation :: "record_base \<Rightarrow> limits_record \<Rightarrow> py_error + loop_limits_observed" where
  "loop_limits_observation b r =
     LoopLimitsObserved (PyStr (record_session b)) (PyInt (max_model_turns (lr_limits r)))
       (PyInt (provider_work_timeout_seconds (lr_limits r)))
       (PyInt (max_assistant_output_bytes (lr_limits r)))
       (PyInt (max_observed_tool_calls (lr_limits r))) (PyInt (lr_model_turns_started r))
       (PyInt (lr_assistant_output_bytes r)) (PyInt (lr_tool_calls_observed r))
       (py_exhaustion (lr_exhausted_limit r))"

definition usage_fields_ok :: "int \<Rightarrow> int \<Rightarrow> bool" where
  "usage_fields_ok i j \<longleftrightarrow> 0 \<le> i \<and> i \<le> MAX_MODEL_USAGE_TOKENS \<and> 0 \<le> j \<and> j \<le> MAX_MODEL_USAGE_TOKENS"

definition limits_fields_ok :: "limits_record \<Rightarrow> bool" where
  "limits_fields_ok r \<longleftrightarrow>
     loop_limits_ok (lr_limits r) \<and>
     0 \<le> lr_model_turns_started r \<and> lr_model_turns_started r \<le> MAX_MODEL_TURNS \<and>
     0 \<le> lr_assistant_output_bytes r \<and> lr_assistant_output_bytes r \<le> MAX_ASSISTANT_OUTPUT_BYTES \<and>
     0 \<le> lr_tool_calls_observed r \<and> lr_tool_calls_observed r \<le> MAX_OBSERVED_TOOL_CALLS + 1"

fun record_input_ok :: "transcript_record \<Rightarrow> bool" where
  "record_input_ok (DomainFactRecord _ f) = fact_ok f"
| "record_input_ok (SessionEventRecord _ e) = session_event_ok e"
| "record_input_ok (ModelUsageObservedRecord _ i j) = usage_fields_ok i j"
| "record_input_ok (LoopLimitsObservedRecord b r) =
     (limits_fields_ok r \<and> ok_result (loop_limits_observation b r))"

definition record_ok :: "transcript_record \<Rightarrow> bool" where
  "record_ok r \<longleftrightarrow> record_base_ok (record_kind r) (base_of_record r) \<and> record_input_ok r"

subsection \<open>Updates and records\<close>

text \<open>
  Constructing a record validates it; an event instance handed to \<open>SessionEventRecord\<close> is not
  validated again.
\<close>

definition construct_record :: "transcript_record \<Rightarrow> py_error + transcript_record" where
  "construct_record r =
     (if record_base_ok (record_kind r) (base_of_record r) \<and>
         (case r of SessionEventRecord _ _ \<Rightarrow> True | _ \<Rightarrow> record_input_ok r)
      then Inr r else Inl (ValueError ''validation error''))"

definition common_base :: "int \<Rightarrow> ustr \<Rightarrow> ustr \<Rightarrow> ustr \<Rightarrow> record_base" where
  "common_base number stamp ws sid =
     \<lparr>transcript_version = TRANSCRIPT_VERSION, record_order = number, recorded_at = stamp,
      workspace_id = ws, record_session = sid\<rparr>"

definition build_record ::
  "session_update \<Rightarrow> int \<Rightarrow> ustr \<Rightarrow> ustr \<Rightarrow> ustr \<Rightarrow> py_error + transcript_record" where
  "build_record u number stamp ws sid =
     (let common = common_base number stamp ws sid in
      case u of
        TaskSubmitted cmd task \<Rightarrow> construct_record (DomainFactRecord common (TaskSubmittedInput cmd task))
      | CancelRequested cmd s \<Rightarrow> construct_record (DomainFactRecord common (CancelRequestedInput cmd s))
      | ApprovalRequested s \<Rightarrow> construct_record (DomainFactRecord common (ApprovalRequestedInput s))
      | ApprovalResolved s \<Rightarrow> construct_record (DomainFactRecord common (ApprovalResolvedInput s))
      | Wire e \<Rightarrow> construct_record (SessionEventRecord common e))"

fun record_update :: "transcript_record \<Rightarrow> py_error + session_update" where
  "record_update (SessionEventRecord _ e) = Inr (Wire e)"
| "record_update (DomainFactRecord _ f) =
     (case f of
        TaskSubmittedInput cmd task \<Rightarrow> Inr (TaskSubmitted cmd task)
      | CancelRequestedInput cmd s \<Rightarrow> Inr (CancelRequested cmd s)
      | ApprovalRequestedInput s \<Rightarrow> Inr (ApprovalRequested s)
      | ApprovalResolvedInput s \<Rightarrow> Inr (ApprovalResolved s))"
| "record_update r =
     Inl (AssertionError (''evidence record has no lifecycle update: '' @ record_kind r))"

fun record_matches_session :: "transcript_record \<Rightarrow> bool" where
  "record_matches_session (ModelUsageObservedRecord _ _ _) = True"
| "record_matches_session (LoopLimitsObservedRecord _ _) = True"
| "record_matches_session (SessionEventRecord b e) = (event_session e = record_session b)"
| "record_matches_session (DomainFactRecord b f) =
     (case f of
        TaskSubmittedInput _ _ \<Rightarrow> True
      | CancelRequestedInput _ s \<Rightarrow> s = record_session b
      | ApprovalRequestedInput s \<Rightarrow> s = record_session b
      | ApprovalResolvedInput s \<Rightarrow> s = record_session b)"

fun is_terminal_update :: "session_update \<Rightarrow> bool" where
  "is_terminal_update (Wire e) \<longleftrightarrow>
     session_event_type_of e \<in> {SessionCompletedT, SessionCancelledT, SessionFailedT}"
| "is_terminal_update u \<longleftrightarrow> False"

fun is_terminal_record :: "transcript_record \<Rightarrow> bool" where
  "is_terminal_record (SessionEventRecord _ e) \<longleftrightarrow> is_terminal_update (Wire e)"
| "is_terminal_record r \<longleftrightarrow> False"

definition failed_with :: "session_update \<Rightarrow> ustr option" where
  "failed_with u = (case u of Wire (SessionFailedEvent _ c _) \<Rightarrow> Some c | _ \<Rightarrow> None)"

definition loop_limits_match_terminal :: "loop_limits_observed \<Rightarrow> session_update \<Rightarrow> bool" where
  "loop_limits_match_terminal ob u \<longleftrightarrow>
     (case lo_exhausted ob of
        None \<Rightarrow> \<not> (case failed_with u of None \<Rightarrow> False | Some c \<Rightarrow> c \<in> LOOP_LIMIT_FAILURE_CODES)
      | Some x \<Rightarrow> failed_with u = Some (loop_limit_failure_code x))"

definition uses_loop_limit_failure_code :: "session_update \<Rightarrow> bool" where
  "uses_loop_limit_failure_code u \<longleftrightarrow>
     (case failed_with u of None \<Rightarrow> False | Some c \<Rightarrow> c \<in> LOOP_LIMIT_FAILURE_CODES)"

subsection \<open>Documents\<close>

fun fact_document :: "domain_fact \<Rightarrow> document" where
  "fact_document (TaskSubmittedInput cmd task) =
     [(lit ''type'', JStr (lit ''task.submitted'')), (lit ''command_id'', JStr cmd), (lit ''task'', JStr task)]"
| "fact_document (CancelRequestedInput cmd s) =
     [(lit ''type'', JStr (lit ''cancel.requested'')), (lit ''command_id'', JStr cmd),
      (lit ''session_id'', JStr s)]"
| "fact_document (ApprovalRequestedInput s) =
     [(lit ''type'', JStr (lit ''approval.requested'')), (lit ''session_id'', JStr s)]"
| "fact_document (ApprovalResolvedInput s) =
     [(lit ''type'', JStr (lit ''approval.resolved'')), (lit ''session_id'', JStr s)]"

definition base_document :: "string \<Rightarrow> record_base \<Rightarrow> document" where
  "base_document kind b =
     [(lit ''transcript_version'', JInt (transcript_version b)),
      (lit ''record_order'', JInt (record_order b)), (lit ''recorded_at'', JStr (recorded_at b)),
      (lit ''workspace_id'', JStr (workspace_id b)), (lit ''session_id'', JStr (record_session b)),
      (lit ''kind'', JStr (lit kind))]"

definition limits_document :: "limits_record \<Rightarrow> document" where
  "limits_document r =
     [(lit ''max_model_turns'', JInt (max_model_turns (lr_limits r))),
      (lit ''provider_work_timeout_seconds'', JInt (provider_work_timeout_seconds (lr_limits r))),
      (lit ''max_assistant_output_bytes'', JInt (max_assistant_output_bytes (lr_limits r))),
      (lit ''max_observed_tool_calls'', JInt (max_observed_tool_calls (lr_limits r))),
      (lit ''model_turns_started'', JInt (lr_model_turns_started r)),
      (lit ''assistant_output_bytes'', JInt (lr_assistant_output_bytes r)),
      (lit ''tool_calls_observed'', JInt (lr_tool_calls_observed r)),
      (lit ''exhausted_limit'',
       case lr_exhausted_limit r of None \<Rightarrow> JNull | Some x \<Rightarrow> JStr (lit (exhaustion_name x)))]"

fun input_document :: "transcript_record \<Rightarrow> document" where
  "input_document (DomainFactRecord _ f) = [(lit ''input'', JObj (fact_document f))]"
| "input_document (SessionEventRecord _ e) = [(lit ''input'', JObj (dump_event (SessionEv e)))]"
| "input_document (ModelUsageObservedRecord _ i j) =
     [(lit ''input_tokens'', JInt i), (lit ''output_tokens'', JInt j)]"
| "input_document (LoopLimitsObservedRecord _ r) = limits_document r"

definition record_document :: "transcript_record \<Rightarrow> document" where
  "record_document r = base_document (record_kind r) (base_of_record r) @ input_document r"

subsection \<open>Validation of a document\<close>

definition base_fields :: "string \<Rightarrow> field_spec list" where
  "base_fields kind =
     [(''transcript_version'', True, int_of (\<lambda>n. n \<in> record_versions kind)),
      (''record_order'', True, int_of (\<lambda>n. 0 < n)), (''recorded_at'', True, text_of Timestamp),
      (''workspace_id'', True, text_of WorkspaceId), (''session_id'', True, text_of SessionId),
      (''kind'', True, text_of (\<lambda>s. s = lit kind))]"

definition fact_models :: "(string \<times> field_spec list) list" where
  "fact_models =
     [(''task.submitted'', [(''command_id'', True, text_of CommandId), (''task'', True, text_of PersistedTask)]),
      (''cancel.requested'', [(''command_id'', True, text_of CommandId), (''session_id'', True, text_of SessionId)]),
      (''approval.requested'', [(''session_id'', True, text_of SessionId)]),
      (''approval.resolved'', [(''session_id'', True, text_of SessionId)])]"

definition build_fact :: "string \<Rightarrow> document \<Rightarrow> domain_fact" where
  "build_fact t d =
     (if t = ''task.submitted'' then TaskSubmittedInput (get_text d ''command_id'') (get_text d ''task'')
      else if t = ''cancel.requested''
      then CancelRequestedInput (get_text d ''command_id'') (get_text d ''session_id'')
      else if t = ''approval.requested'' then ApprovalRequestedInput (get_text d ''session_id'')
      else ApprovalResolvedInput (get_text d ''session_id''))"

text \<open>The two discriminated unions of the \<open>input\<close> field.\<close>

definition validate_fact :: "json \<Rightarrow> domain_fact option" where
  "validate_fact v =
     (case v of
        JObj d \<Rightarrow>
          (case map_of d (lit ''type'') of
             Some (JStr t) \<Rightarrow>
               (case find_model fact_models t of
                  None \<Rightarrow> None
                | Some (name, specs) \<Rightarrow>
                    if model_errors ((''type'', True, text_of (\<lambda>s. s = lit name)) # specs) d = []
                    then Some (build_fact name d) else None)
           | _ \<Rightarrow> None)
      | _ \<Rightarrow> None)"

definition validate_session_input :: "json \<Rightarrow> session_event option" where
  "validate_session_input v =
     (case v of
        JObj d \<Rightarrow>
          (case map_of d (lit ''type'') of
             Some (JStr t) \<Rightarrow>
               (case find_model session_payloads t of
                  None \<Rightarrow> None
                | Some (name, payload) \<Rightarrow>
                    if model_errors (session_event_model name payload) d = []
                    then Some (build_session_event name d) else None)
           | _ \<Rightarrow> None)
      | _ \<Rightarrow> None)"

definition usage_fields :: "field_spec list" where
  "usage_fields =
     [(''input_tokens'', True, int_of (\<lambda>n. 0 \<le> n \<and> n \<le> MAX_MODEL_USAGE_TOKENS)),
      (''output_tokens'', True, int_of (\<lambda>n. 0 \<le> n \<and> n \<le> MAX_MODEL_USAGE_TOKENS))]"

definition exhausted_field :: "json \<Rightarrow> bool" where
  "exhausted_field v =
     (case v of JNull \<Rightarrow> True | JStr s \<Rightarrow> exhaustion_of_name s \<noteq> None | _ \<Rightarrow> False)"

definition limits_fields :: "field_spec list" where
  "limits_fields =
     [(''max_model_turns'', True, int_of (\<lambda>n. 1 \<le> n \<and> n \<le> MAX_MODEL_TURNS)),
      (''provider_work_timeout_seconds'', True, int_of (\<lambda>n. 1 \<le> n \<and> n \<le> MAX_PROVIDER_WORK_TIMEOUT_SECONDS)),
      (''max_assistant_output_bytes'', True, int_of (\<lambda>n. 1 \<le> n \<and> n \<le> MAX_ASSISTANT_OUTPUT_BYTES)),
      (''max_observed_tool_calls'', True, int_of (\<lambda>n. 1 \<le> n \<and> n \<le> MAX_OBSERVED_TOOL_CALLS)),
      (''model_turns_started'', True, int_of (\<lambda>n. 0 \<le> n \<and> n \<le> MAX_MODEL_TURNS)),
      (''assistant_output_bytes'', True, int_of (\<lambda>n. 0 \<le> n \<and> n \<le> MAX_ASSISTANT_OUTPUT_BYTES)),
      (''tool_calls_observed'', True, int_of (\<lambda>n. 0 \<le> n \<and> n \<le> MAX_OBSERVED_TOOL_CALLS + 1)),
      (''exhausted_limit'', True, exhausted_field)]"

definition get_base :: "document \<Rightarrow> record_base" where
  "get_base d =
     \<lparr>transcript_version = get_int d ''transcript_version'', record_order = get_int d ''record_order'',
      recorded_at = get_text d ''recorded_at'', workspace_id = get_text d ''workspace_id'',
      record_session = get_text d ''session_id''\<rparr>"

definition get_exhausted :: "document \<Rightarrow> loop_limit_exhaustion option" where
  "get_exhausted d =
     (case map_of d (lit ''exhausted_limit'') of Some (JStr s) \<Rightarrow> exhaustion_of_name s | _ \<Rightarrow> None)"

definition get_limits :: "document \<Rightarrow> limits_record" where
  "get_limits d =
     \<lparr>lr_limits = \<lparr>max_model_turns = get_int d ''max_model_turns'',
                  provider_work_timeout_seconds = get_int d ''provider_work_timeout_seconds'',
                  max_assistant_output_bytes = get_int d ''max_assistant_output_bytes'',
                  max_observed_tool_calls = get_int d ''max_observed_tool_calls''\<rparr>,
      lr_model_turns_started = get_int d ''model_turns_started'',
      lr_assistant_output_bytes = get_int d ''assistant_output_bytes'',
      lr_tool_calls_observed = get_int d ''tool_calls_observed'',
      lr_exhausted_limit = get_exhausted d\<rparr>"

text \<open>
  \<open>_TRANSCRIPT_RECORD_ADAPTER.validate_json\<close> on the parsed document: the kind selects the model,
  the fields are checked, none is missing or extra, and the after-validator of the limits record
  runs last.
\<close>

definition validate_record :: "document \<Rightarrow> transcript_record option" where
  "validate_record d =
     (case map_of d (lit ''kind'') of
        Some (JStr k) \<Rightarrow>
          if k = lit ''domain_fact'' then
            (if model_errors (base_fields ''domain_fact'' @ [(''input'', True, \<lambda>v. validate_fact v \<noteq> None)]) d = []
             then map_option (DomainFactRecord (get_base d)) (validate_fact (the (map_of d (lit ''input''))))
             else None)
          else if k = lit ''session_event'' then
            (if model_errors (base_fields ''session_event'' @
                  [(''input'', True, \<lambda>v. validate_session_input v \<noteq> None)]) d = []
             then map_option (SessionEventRecord (get_base d))
                    (validate_session_input (the (map_of d (lit ''input''))))
             else None)
          else if k = lit ''model.usage_observed'' then
            (if model_errors (base_fields ''model.usage_observed'' @ usage_fields) d = []
             then Some (ModelUsageObservedRecord (get_base d) (get_int d ''input_tokens'')
                          (get_int d ''output_tokens''))
             else None)
          else if k = lit ''loop.limits_observed'' then
            (if model_errors (base_fields ''loop.limits_observed'' @ limits_fields) d = []
                \<and> ok_result (loop_limits_observation (get_base d) (get_limits d))
             then Some (LoopLimitsObservedRecord (get_base d) (get_limits d)) else None)
          else None
      | _ \<Rightarrow> None)"

subsection \<open>Lines\<close>

record json_lib =
  to_json :: "document \<Rightarrow> byte list option"
  from_json :: "byte list \<Rightarrow> document option"

definition json_lib_ok :: "json_lib \<Rightarrow> bool" where
  "json_lib_ok J \<longleftrightarrow>
     (\<forall>d bs. json_ok 3 (JObj d) \<longrightarrow> to_json J d = Some bs \<longrightarrow>
        from_json J bs = Some d \<and> 10 \<notin> set bs \<and> 13 \<notin> set bs \<and> utf8_decode bs \<noteq> None)"

definition parse_record :: "json_lib \<Rightarrow> byte list \<Rightarrow> transcript_record option" where
  "parse_record J bs = (case from_json J bs of None \<Rightarrow> None | Some d \<Rightarrow> validate_record d)"

datatype persistence_failure_code =
    TranscriptOpenFailed | TranscriptWriteFailed | TranscriptFlushFailed | TranscriptSummaryFailed

text \<open>What the code inside a transcript operation can raise.\<close>

datatype transcript_exception = PersistenceError persistence_failure_code | OtherError

definition encode_record :: "json_lib \<Rightarrow> transcript_record \<Rightarrow> transcript_exception + byte list" where
  "encode_record J r =
     (case to_json J (record_document r) of
        None \<Rightarrow> Inl OtherError
      | Some line \<Rightarrow>
          if MAX_TRANSCRIPT_LINE_BYTES < length line
          then Inl (PersistenceError TranscriptWriteFailed)
          else Inr (line @ [10]))"

subsection \<open>Facts\<close>

lemma failed_with_simps [simp]:
  "failed_with (TaskSubmitted a b) = None" "failed_with (CancelRequested a b) = None"
  "failed_with (ApprovalRequested a) = None" "failed_with (ApprovalResolved a) = None"
  "failed_with (Wire (SessionStartedEvent x)) = None"
  "failed_with (Wire (AssistantDeltaEvent x t)) = None"
  "failed_with (Wire (AssistantCompletedEvent x t)) = None"
  "failed_with (Wire (SessionCompletedEvent x)) = None"
  "failed_with (Wire (SessionCancelledEvent x)) = None"
  "failed_with (Wire (SessionFailedEvent x c m)) = Some c"
  by (simp_all add: failed_with_def)

lemma uses_code_terminal: "uses_loop_limit_failure_code u \<Longrightarrow> is_terminal_update u"
  by (auto simp: uses_loop_limit_failure_code_def failed_with_def
      split: session_update.splits session_event.splits)

lemma build_record_Inr:
  "build_record u number stamp ws sid = Inr r \<Longrightarrow>
     base_of_record r = common_base number stamp ws sid \<and> record_update r = Inr u \<and>
     record_base_ok (record_kind r) (base_of_record r) \<and>
     ((\<forall>e. u \<noteq> Wire e) \<longrightarrow> record_input_ok r) \<and> (\<forall>e. u = Wire e \<longrightarrow> r = SessionEventRecord (common_base number stamp ws sid) e)"
  by (auto simp: build_record_def construct_record_def Let_def split: session_update.splits if_splits)

lemma build_record_event:
  "build_record (Wire e) number stamp ws sid = Inr r \<longleftrightarrow>
     r = SessionEventRecord (common_base number stamp ws sid) e \<and>
     record_base_ok ''session_event'' (common_base number stamp ws sid)"
  by (auto simp: build_record_def construct_record_def Let_def)

text \<open>A fact reads back from its document, and so does an event.\<close>

lemma validate_fact_document: "fact_ok f \<Longrightarrow> validate_fact (JObj (fact_document f)) = Some f"
  by (cases f)
    (simp_all add: validate_fact_def fact_models_def find_model_lit build_fact_def dump_eval del: lit_simps)

lemma session_input_of_event_model:
  assumes "event_model_validate t d = Some (Inr (SessionEv e))" "map_of d (lit ''type'') = Some (JStr t)"
  shows "validate_session_input (JObj d) = Some e"
  using assms
  by (auto simp: event_model_validate_def validate_session_input_def Let_def
      split: option.splits if_splits)

lemma validate_session_document:
  assumes "session_event_ok e"
  shows "validate_session_input (JObj (dump_event (SessionEv e))) = Some e"
  using dump_session_event_valid [OF assms]
  by (rule session_input_of_event_model) (simp del: lit_simps)

lemma get_exhausted_document:
  "get_exhausted (base_document k b @ limits_document r) = lr_exhausted_limit r"
  by (cases "lr_exhausted_limit r")
    (simp_all add: get_exhausted_def base_document_def limits_document_def del: lit_simps)

lemma get_base_document: "get_base (base_document k b @ d) = b"
  by (cases b) (simp add: get_base_def base_document_def get_int_def get_text_def del: lit_simps)

lemma get_limits_document: "get_limits (base_document k b @ limits_document r) = r"
  using get_exhausted_document [of k b r]
  by (cases r; cases "lr_limits r")
    (simp add: get_limits_def base_document_def limits_document_def get_int_def del: lit_simps)

lemma base_errors:
  assumes "record_base_ok k b"
  shows "list_all (\<lambda>f. field_errors (base_document k b @ d) f = []) (base_fields k)"
  using assms
  by (simp add: base_fields_def base_document_def field_errors_def int_of_def text_of_def
      record_base_ok_def del: lit_simps record_versions.simps)

lemma kind_of_document: "map_of (base_document k b @ d) (lit ''kind'') = Some (JStr (lit k))"
  by (simp add: base_document_def del: lit_simps)

lemma extra_errors_append:
  "extra_errors fs (d @ d') = extra_errors fs d @ extra_errors fs d'"
  by (simp add: extra_errors_def)

lemma base_no_extra: "extra_errors (base_fields k @ fs) (base_document k b) = []"
  by (simp add: extra_errors_def base_fields_def base_document_def del: lit_simps)

lemma record_errors_Nil:
  assumes "record_base_ok k b" "list_all (\<lambda>f. field_errors (base_document k b @ d) f = []) fs"
    and "extra_errors (base_fields k @ fs) d = []"
  shows "model_errors (base_fields k @ fs) (base_document k b @ d) = []"
  using base_errors [OF assms(1), of d] assms(2,3) base_no_extra [of k fs b]
  by (simp add: model_errors_Nil_iff extra_errors_append)

lemma exhausted_field_document:
  "exhausted_field (case x of None \<Rightarrow> JNull | Some y \<Rightarrow> JStr (lit (exhaustion_name y)))"
  by (cases x) (simp_all add: exhausted_field_def del: lit_simps)

lemma validate_record_document:
  assumes "record_ok r"
  shows "validate_record (record_document r) = Some r"
proof (cases r)
  case (DomainFactRecord b f)
  have ok: "record_base_ok ''domain_fact'' b" "fact_ok f"
    using assms by (simp_all add: record_ok_def DomainFactRecord)
  let ?d = "[(lit ''input'', JObj (fact_document f))]"
  have i: "map_of (base_document ''domain_fact'' b @ ?d) (lit ''input'') = Some (JObj (fact_document f))"
    by (simp add: base_document_def del: lit_simps)
  have "model_errors (base_fields ''domain_fact'' @ [(''input'', True, \<lambda>v. validate_fact v \<noteq> None)])
      (base_document ''domain_fact'' b @ ?d) = []"
    using ok(1) i validate_fact_document [OF ok(2)]
    by (intro record_errors_Nil)
      (simp_all add: field_errors_def extra_errors_def base_fields_def del: lit_simps)
  then show ?thesis
    using i validate_fact_document [OF ok(2)]
    by (simp add: validate_record_def record_document_def DomainFactRecord kind_of_document
        get_base_document del: lit_simps map_of_append)
next
  case (SessionEventRecord b e)
  have ok: "record_base_ok ''session_event'' b" "session_event_ok e"
    using assms by (simp_all add: record_ok_def SessionEventRecord)
  let ?d = "[(lit ''input'', JObj (dump_event (SessionEv e)))]"
  have i: "map_of (base_document ''session_event'' b @ ?d) (lit ''input'') = Some (JObj (dump_event (SessionEv e)))"
    by (simp add: base_document_def del: lit_simps dump_event.simps)
  have "model_errors (base_fields ''session_event'' @ [(''input'', True, \<lambda>v. validate_session_input v \<noteq> None)])
      (base_document ''session_event'' b @ ?d) = []"
    using ok(1) i validate_session_document [OF ok(2)]
    by (intro record_errors_Nil)
      (simp_all add: field_errors_def extra_errors_def base_fields_def del: lit_simps dump_event.simps)
  then show ?thesis
    using i validate_session_document [OF ok(2)]
    by (simp add: validate_record_def record_document_def SessionEventRecord kind_of_document
        get_base_document del: lit_simps map_of_append dump_event.simps)
next
  case (ModelUsageObservedRecord b x y)
  have ok: "record_base_ok ''model.usage_observed'' b" "usage_fields_ok x y"
    using assms by (simp_all add: record_ok_def ModelUsageObservedRecord)
  let ?d = "[(lit ''input_tokens'', JInt x), (lit ''output_tokens'', JInt y)]"
  have "model_errors (base_fields ''model.usage_observed'' @ usage_fields)
      (base_document ''model.usage_observed'' b @ ?d) = []"
    using ok by (intro record_errors_Nil)
      (simp_all add: field_errors_def extra_errors_def base_fields_def usage_fields_def int_of_def
        base_document_def usage_fields_ok_def del: lit_simps)
  moreover have "get_int (base_document ''model.usage_observed'' b @ ?d) ''input_tokens'' = x"
    "get_int (base_document ''model.usage_observed'' b @ ?d) ''output_tokens'' = y"
    by (simp_all add: get_int_def base_document_def del: lit_simps)
  ultimately show ?thesis
    by (simp add: validate_record_def record_document_def ModelUsageObservedRecord kind_of_document
        get_base_document del: lit_simps map_of_append)
next
  case (LoopLimitsObservedRecord b l)
  have ok: "record_base_ok ''loop.limits_observed'' b" "limits_fields_ok l"
    "ok_result (loop_limits_observation b l)"
    using assms by (simp_all add: record_ok_def LoopLimitsObservedRecord)
  have "model_errors (base_fields ''loop.limits_observed'' @ limits_fields)
      (base_document ''loop.limits_observed'' b @ limits_document l) = []"
    using ok(1,2) exhausted_field_document [of "lr_exhausted_limit l"]
    by (intro record_errors_Nil)
      (simp_all add: field_errors_def extra_errors_def base_fields_def limits_fields_def int_of_def
        base_document_def limits_document_def limits_fields_ok_def loop_limits_ok_def del: lit_simps)
  with ok(3) show ?thesis
    by (simp add: validate_record_def record_document_def LoopLimitsObservedRecord kind_of_document
        get_base_document get_limits_document del: lit_simps map_of_append)
qed

lemma record_document_json_ok:
  assumes "record_ok r" "\<bar>record_order (base_of_record r)\<bar> < 2 ^ 53"
  shows "json_ok 3 (JObj (record_document r))"
proof -
  have v: "\<bar>transcript_version (base_of_record r)\<bar> < 2 ^ 53"
    using assms(1) by (auto simp: record_ok_def record_base_ok_def split: if_splits)
  show ?thesis
  proof (cases r)
    case (DomainFactRecord b f)
    with v assms(2) show ?thesis
      by (cases f) (simp_all add: record_document_def base_document_def del: lit_simps)
  next
    case (SessionEventRecord b e)
    have "json_ok 2 (JObj (dump_event (SessionEv e)))"
      using assms(1) by (intro dump_event_json_ok) (simp add: record_ok_def SessionEventRecord)
    with v assms(2) SessionEventRecord show ?thesis
      by (simp add: record_document_def base_document_def del: lit_simps dump_event.simps json_ok.simps(7))
        (simp add: del: lit_simps dump_event.simps)
  next
    case (ModelUsageObservedRecord b x y)
    with v assms show ?thesis
      by (simp add: record_document_def base_document_def record_ok_def usage_fields_ok_def
          MAX_MODEL_USAGE_TOKENS_def del: lit_simps)
  next
    case (LoopLimitsObservedRecord b l)
    with v assms show ?thesis
      by (cases "lr_exhausted_limit l")
        (simp_all add: record_document_def base_document_def limits_document_def record_ok_def
          limits_fields_ok_def loop_limits_ok_def limit_constants del: lit_simps)
  qed
qed

text \<open>An encoded record is one bounded line that reads back as the record.\<close>

lemma encode_record_Inr:
  assumes "json_lib_ok J" "record_ok r" "\<bar>record_order (base_of_record r)\<bar> < 2 ^ 53"
    and "encode_record J r = Inr line"
  shows "\<exists>body. line = body @ [10] \<and> length body \<le> MAX_TRANSCRIPT_LINE_BYTES \<and> 10 \<notin> set body \<and>
    13 \<notin> set body \<and> utf8_decode body \<noteq> None \<and> parse_record J body = Some r"
proof -
  obtain body where b: "to_json J (record_document r) = Some body" "line = body @ [10]"
    "length body \<le> MAX_TRANSCRIPT_LINE_BYTES"
    using assms(4) by (auto simp: encode_record_def split: option.splits if_splits)
  have "from_json J body = Some (record_document r) \<and> 10 \<notin> set body \<and> 13 \<notin> set body \<and> utf8_decode body \<noteq> None"
    using assms(1) record_document_json_ok [OF assms(2,3)] b(1) by (simp add: json_lib_ok_def)
  with b(2,3) validate_record_document [OF assms(2)] show ?thesis
    by (simp add: parse_record_def)
qed

text \<open>The reader and writer of theory Json are an instance.\<close>

definition std_json :: json_lib where
  "std_json =
     \<lparr>to_json = \<lambda>d. utf8_encode (dumps (JObj d)),
      from_json = \<lambda>bs. case utf8_decode bs of
         None \<Rightarrow> None
       | Some s \<Rightarrow> (case loads 3 s of Some (JObj d) \<Rightarrow> Some d | _ \<Rightarrow> None)\<rparr>"

lemma std_json_ok: "json_lib_ok std_json"
  unfolding json_lib_ok_def
proof (intro allI impI)
  fix d bs
  assume d: "json_ok 3 (JObj d)" and "to_json std_json d = Some bs"
  then have bs: "utf8_encode (dumps (JObj d)) = Some bs" by (simp add: std_json_def)
  then have b: "bs = utf8_bytes (dumps (JObj d))" by (simp add: utf8_encode_def split: if_splits)
  have ctl: "x \<notin> set bs" if "x < 32" for x
    using that dumps_printable [OF d, of x] utf8_bytes_low [of x "dumps (JObj d)"] unfolding b by auto
  show "from_json std_json bs = Some d \<and> 10 \<notin> set bs \<and> 13 \<notin> set bs \<and> utf8_decode bs \<noteq> None"
    using loads_dumps [OF d] utf8_roundtrip [OF bs] ctl [of 10] ctl [of 13] by (simp add: std_json_def)
qed

end
