(* ===== verification/Transcript_Writer.thy ===== *)
theory Transcript_Writer
  imports Transcript_Records State_Action
begin

section \<open>The append-only session transcript (persistence/transcript.py, third part)\<close>

text \<open>
  \<open>SessionTranscript\<close>: the safe projection, the evidence, the append with its rollback, the
  failure latch that is reported once, and the summary written after a terminal record. The state
  includes the files the operations act on. The operating system is the parameter \<open>file_ops\<close>:
  whether the \<open>n\<close>-th call fails, how many bytes a write takes and what the clock says are
  arbitrary functions of the call number, so a theorem covers every pattern of failures and every
  partial write; what a call does to the files when it succeeds is fixed here. The lock makes each
  public operation atomic: none of them awaits while it holds it.
\<close>

subsection \<open>State\<close>

record transcript_evidence =
  ev_model_usage :: "model_usage_observed option"
  ev_loop_limits :: "loop_limits_observed option"

record transcript_config =
  cfg_workspace_id :: ustr
  cfg_session_id :: ustr
  cfg_transcript_name :: ustr
  cfg_json :: json_lib

record file_ops =
  op_seek :: "nat \<Rightarrow> bool"
  op_open :: "nat \<Rightarrow> bool"
  op_chmod :: "nat \<Rightarrow> bool"
  op_write :: "nat \<Rightarrow> byte list \<Rightarrow> int option"
  op_flush :: "nat \<Rightarrow> bool"
  op_truncate :: "nat \<Rightarrow> bool"
  op_close :: "nat \<Rightarrow> bool"
  op_replace :: "nat \<Rightarrow> bool"
  op_unlink :: "nat \<Rightarrow> bool"
  op_clock :: "nat \<Rightarrow> ustr"

record transcript =
  tr_sanitizer :: sanitizer
  tr_state :: session_state
  tr_evidence :: transcript_evidence
  next_record_order :: int
  committed_bytes :: nat
  tr_failure :: "persistence_failure_code option"
  failure_reported :: bool
  tr_closed :: bool
  file_bytes :: "byte list"
  temporary_bytes :: "byte list option"
  summary_bytes :: "byte list option"
  os_calls :: nat

definition no_evidence :: transcript_evidence where
  "no_evidence = \<lparr>ev_model_usage = None, ev_loop_limits = None\<rparr>"

definition new_transcript :: "ustr list \<Rightarrow> int \<Rightarrow> transcript" where
  "new_transcript secrets limit =
     \<lparr>tr_sanitizer = new_sanitizer secrets limit, tr_state = INITIAL_SESSION_STATE,
      tr_evidence = no_evidence, next_record_order = 1, committed_bytes = 0, tr_failure = None,
      failure_reported = False, tr_closed = False, file_bytes = [], temporary_bytes = None,
      summary_bytes = None, os_calls = 0\<rparr>"

type_synonym 'a recording = "(transcript_exception, transcript, 'a) effect"

subsection \<open>Operating system calls\<close>

definition tick :: "transcript \<Rightarrow> transcript" where
  "tick t = t\<lparr>os_calls := Suc (os_calls t)\<rparr>"

text \<open>A call that either raises \<open>OSError\<close> and changes nothing, or has its effect.\<close>

definition os_call :: "(nat \<Rightarrow> bool) \<Rightarrow> (transcript \<Rightarrow> transcript) \<Rightarrow> unit recording" where
  "os_call succeeds f =
     (\<lambda>t. if succeeds (os_calls t) then (Inr (), f (tick t)) else (Inl OtherError, tick t))"

definition read_clock :: "file_ops \<Rightarrow> ustr recording" where
  "read_clock E = (\<lambda>t. (Inr (op_clock E (os_calls t)), tick t))"

text \<open>
  \<open>_write_all\<close>: each call takes a prefix of what remains; a call that raises or makes no progress
  ends the loop. \<open>put\<close> appends to the file of the descriptor.
\<close>

function write_all ::
  "file_ops \<Rightarrow> (byte list \<Rightarrow> transcript \<Rightarrow> transcript) \<Rightarrow> byte list \<Rightarrow> unit recording" where
  "write_all E put remaining t =
     (if remaining = [] then (Inr (), t)
      else case op_write E (os_calls t) remaining of
             None \<Rightarrow> (Inl OtherError, tick t)
           | Some written \<Rightarrow>
               if written \<le> 0 then (Inl OtherError, tick t)
               else write_all E put (drop (nat written) remaining)
                      (put (take (nat written) remaining) (tick t)))"
  by pat_completeness auto
termination
  by (relation "measure (\<lambda>(_, _, remaining, _). length remaining)") auto

declare write_all.simps [simp del]

definition put_file :: "byte list \<Rightarrow> transcript \<Rightarrow> transcript" where
  "put_file bs t = t\<lparr>file_bytes := file_bytes t @ bs\<rparr>"

definition put_temporary :: "byte list \<Rightarrow> transcript \<Rightarrow> transcript" where
  "put_temporary bs t =
     t\<lparr>temporary_bytes := (case temporary_bytes t of None \<Rightarrow> None | Some old \<Rightarrow> Some (old @ bs))\<rparr>"

subsection \<open>Appending a record\<close>

definition rollback_partial_append :: "file_ops \<Rightarrow> nat \<Rightarrow> transcript \<Rightarrow> transcript" where
  "rollback_partial_append E start_offset t =
     snd (next_do (os_call (op_truncate E) (\<lambda>t. t\<lparr>file_bytes := take start_offset (file_bytes t)\<rparr>))
            (os_call (op_flush E) (\<lambda>t. t)) t)"

text \<open>\<open>try: m except OSError: rollback; raise\<close> with the code of the failing step.\<close>

definition or_rollback ::
  "file_ops \<Rightarrow> nat \<Rightarrow> persistence_failure_code \<Rightarrow> unit recording \<Rightarrow> unit recording" where
  "or_rollback E start_offset code m =
     (\<lambda>t. case m t of
        (Inr u, t') \<Rightarrow> (Inr u, t')
      | (Inl _, t') \<Rightarrow> (Inl (PersistenceError code), rollback_partial_append E start_offset t'))"

definition append_and_flush :: "file_ops \<Rightarrow> byte list \<Rightarrow> unit recording" where
  "append_and_flush E line =
     next_do (os_call (op_seek E) (\<lambda>t. t))
       (ask (\<lambda>t. let start_offset = length (file_bytes t) in
          next_do (or_rollback E start_offset TranscriptWriteFailed (write_all E put_file line))
            (or_rollback E start_offset TranscriptFlushFailed (os_call (op_flush E) (\<lambda>t. t)))))"

definition append_record :: "transcript_config \<Rightarrow> file_ops \<Rightarrow> transcript_record \<Rightarrow> unit recording" where
  "append_record C E r =
     seq (lift_result (encode_record (cfg_json C) r)) (\<lambda>line.
     ask (\<lambda>t.
       if int MAX_TRANSCRIPT_RECORDS < next_record_order t
          \<or> MAX_TRANSCRIPT_BYTES < committed_bytes t + length line
       then raise (PersistenceError TranscriptWriteFailed)
       else next_do (append_and_flush E line)
              (update (\<lambda>t. t\<lparr>next_record_order := next_record_order t + 1,
                             committed_bytes := committed_bytes t + length line\<rparr>))))"

subsection \<open>Closing and the failure latch\<close>

definition close_file :: "transcript \<Rightarrow> transcript" where
  "close_file t = (if tr_closed t then t else tick (t\<lparr>tr_closed := True\<rparr>))"

definition latch_failure :: "persistence_failure_code \<Rightarrow> transcript \<Rightarrow> transcript" where
  "latch_failure code t =
     close_file (if tr_failure t = None then t\<lparr>tr_failure := Some code\<rparr> else t)"

definition take_failure :: "transcript \<Rightarrow> persistence_failure_code option \<times> transcript" where
  "take_failure t =
     (if tr_failure t = None \<or> failure_reported t then (None, t)
      else (tr_failure t, t\<lparr>failure_reported := True\<rparr>))"

text \<open>
  The frame of the three recording methods: an earlier failure is taken, a closed transcript is
  left alone, and whatever the body raises is latched.
\<close>

definition guarded ::
  "unit recording \<Rightarrow> transcript \<Rightarrow> persistence_failure_code option \<times> transcript" where
  "guarded body t =
     (if tr_failure t \<noteq> None then take_failure t
      else if tr_closed t then (None, t)
      else take_failure
             (case body t of
                (Inr _, t') \<Rightarrow> t'
              | (Inl (PersistenceError code), t') \<Rightarrow> latch_failure code t'
              | (Inl OtherError, t') \<Rightarrow> latch_failure TranscriptWriteFailed t'))"

subsection \<open>The summary\<close>

fun status_name :: "session_status \<Rightarrow> string" where
  "status_name Idle = ''idle''"
| "status_name Starting = ''starting''"
| "status_name Running = ''running''"
| "status_name AwaitingApproval = ''awaiting_approval''"
| "status_name Cancelling = ''cancelling''"
| "status_name Completed = ''completed''"
| "status_name Cancelled = ''cancelled''"
| "status_name Failed = ''failed''"

definition or_text :: "ustr option \<Rightarrow> string \<Rightarrow> ustr" where
  "or_text v fallback = (case v of None \<Rightarrow> lit fallback | Some s \<Rightarrow> if s = [] then lit fallback else s)"

definition usage_lines :: "model_usage_observed option \<Rightarrow> ustr list" where
  "usage_lines u =
     (case u of
        None \<Rightarrow> [lit ''Model usage: unavailable'']
      | Some x \<Rightarrow>
          [lit ''Model input tokens: '' @ dec_int (mu_input_tokens x),
           lit ''Model output tokens: '' @ dec_int (mu_output_tokens x)])"

definition loop_limit_lines :: "loop_limits_observed option \<Rightarrow> ustr list" where
  "loop_limit_lines l =
     (case l of
        None \<Rightarrow> [lit ''Loop limits: unavailable'']
      | Some x \<Rightarrow>
          [lit ''Maximum model turns: '' @ dec_int (max_model_turns (lo_limits x)),
           lit ''Provider work timeout seconds: '' @
             dec_int (provider_work_timeout_seconds (lo_limits x)),
           lit ''Maximum assistant output bytes: '' @ dec_int (max_assistant_output_bytes (lo_limits x)),
           lit ''Maximum observed tool calls: '' @ dec_int (max_observed_tool_calls (lo_limits x)),
           lit ''Model turns started: '' @ dec_int (lo_model_turns_started x),
           lit ''Assistant output bytes: '' @ dec_int (lo_assistant_output_bytes x),
           lit ''Tool calls observed: '' @ dec_int (lo_tool_calls_observed x),
           lit ''Exhausted loop limit: '' @
             (case lo_exhausted x of None \<Rightarrow> lit ''none'' | Some e \<Rightarrow> lit (exhaustion_name e))])"

definition build_summary :: "session_state \<Rightarrow> transcript_evidence \<Rightarrow> ustr \<Rightarrow> byte list option" where
  "build_summary s ev name =
     (let task = single_line (or_text (session_task s) ''unavailable'');
          failure_lines =
            (case session_failure_of s of
               None \<Rightarrow> []
             | Some f \<Rightarrow>
                 [lit ''Failure code: '' @ single_line (failure_code f),
                  lit ''Failure message: '' @ single_line (failure_message f)]);
          lines =
            [lit ''Code Assist Harness session summary'', [],
             lit ''Transcript: '' @ name,
             lit ''Session: '' @ or_text (session_id s) ''unavailable'',
             lit ''Task: '' @ task,
             lit ''Outcome: '' @ lit (status_name (status s))] @
            usage_lines (ev_model_usage ev) @ loop_limit_lines (ev_loop_limits ev) @
            [lit ''Changed files: unavailable - file-edit tools are not implemented in CAH-011.'',
             lit ''Check results: unavailable - validation tools are not implemented in CAH-011.''] @
            failure_lines in
      utf8_encode (py_join [10] lines @ [10]))"

text \<open>
  \<open>finally\<close>: the clean-up runs in any case, and what it raises replaces what was raised.
\<close>

definition finally_do :: "unit recording \<Rightarrow> unit recording \<Rightarrow> unit recording" where
  "finally_do m cleanup =
     (\<lambda>t. case m t of
        (r, t') \<Rightarrow> (case cleanup t' of (Inr _, t'') \<Rightarrow> (r, t'') | (Inl e, t'') \<Rightarrow> (Inl e, t'')))"

definition write_temporary :: "file_ops \<Rightarrow> byte list \<Rightarrow> unit recording" where
  "write_temporary E contents =
     next_do (os_call (op_chmod E) (\<lambda>t. t))
       (next_do (write_all E put_temporary contents) (os_call (op_flush E) (\<lambda>t. t)))"

text \<open>The handler: close a descriptor that is still open, unlink, raise the summary failure.\<close>

definition summary_failure :: "file_ops \<Rightarrow> bool \<Rightarrow> unit recording" where
  "summary_failure E still_open =
     (\<lambda>t. (Inl (PersistenceError TranscriptSummaryFailed),
           snd (os_call (op_unlink E) (\<lambda>t. t\<lparr>temporary_bytes := None\<rparr>)
                  (if still_open then tick t else t))))"

definition write_summary :: "file_ops \<Rightarrow> byte list \<Rightarrow> unit recording" where
  "write_summary E contents =
     (\<lambda>t. case os_call (op_open E) (\<lambda>t. t\<lparr>temporary_bytes := Some []\<rparr>) t of
        (Inl _, t1) \<Rightarrow> summary_failure E False t1
      | (Inr _, t1) \<Rightarrow>
          (case write_temporary E contents t1 of
             (written, t2) \<Rightarrow>
               (case os_call (op_close E) (\<lambda>t. t) t2 of
                  (Inl _, t3) \<Rightarrow> summary_failure E True t3
                | (Inr _, t3) \<Rightarrow>
                    (case written of
                       Inl _ \<Rightarrow> summary_failure E False t3
                     | Inr _ \<Rightarrow>
                         (case os_call (op_replace E)
                                 (\<lambda>t. t\<lparr>summary_bytes := temporary_bytes t, temporary_bytes := None\<rparr>) t3 of
                            (Inl _, t4) \<Rightarrow> summary_failure E False t4
                          | (Inr _, t4) \<Rightarrow> (Inr (), t4))))))"

subsection \<open>Recording\<close>

text \<open>A payload constructor validates its text; \<open>None\<close> is the \<open>ValidationError\<close>.\<close>

definition text_payload :: "ustr \<Rightarrow> ustr option" where
  "text_payload s = (if AssistantText s then Some s else None)"

definition failed_payload :: "ustr \<Rightarrow> ustr \<Rightarrow> (ustr \<times> ustr) option" where
  "failed_payload code msg = (if ErrorCode code \<and> SafeMessage msg then Some (code, msg) else None)"

definition sanitize_update ::
  "session_update \<Rightarrow> sanitizer \<Rightarrow> (transcript_exception + session_update) \<times> sanitizer" where
  "sanitize_update u z =
     (case u of
        TaskSubmitted cmd task \<Rightarrow>
          (case bounded z (redact z task) of
             None \<Rightarrow> (Inl OtherError, z)
           | Some safe_task \<Rightarrow> (Inr (TaskSubmitted cmd safe_task), z))
      | Wire (AssistantDeltaEvent b t) \<Rightarrow>
          (case sanitize_delta t z of
             (None, z') \<Rightarrow> (Inl OtherError, z')
           | (Some safe_delta, z') \<Rightarrow>
               (case text_payload safe_delta of
                  None \<Rightarrow> (Inl OtherError, z')
                | Some p \<Rightarrow> (Inr (Wire (AssistantDeltaEvent b p)), z')))
      | Wire (AssistantCompletedEvent b t) \<Rightarrow>
          (let completed = (if safe_assistant_text z \<noteq> [] then safe_assistant_text z else OMISSION_MARKER) in
           case text_payload completed of
             None \<Rightarrow> (Inl OtherError, z)
           | Some p \<Rightarrow> (Inr (Wire (AssistantCompletedEvent b p)), z))
      | Wire (SessionFailedEvent b c m) \<Rightarrow>
          (case bounded z (redact z m) of
             None \<Rightarrow> (Inl OtherError, z)
           | Some safe_message \<Rightarrow>
               (case failed_payload c safe_message of
                  None \<Rightarrow> (Inl OtherError, z)
                | Some (c', m') \<Rightarrow> (Inr (Wire (SessionFailedEvent b c' m')), z)))
      | _ \<Rightarrow> (Inr u, z))"

definition same_lifecycle_invariants :: "session_state \<Rightarrow> session_state \<Rightarrow> bool" where
  "same_lifecycle_invariants safe authoritative \<longleftrightarrow>
     status safe = status authoritative \<and> start_command_id safe = start_command_id authoritative \<and>
     session_id safe = session_id authoritative \<and>
     cancel_command_id safe = cancel_command_id authoritative \<and>
     last_sequence safe = last_sequence authoritative \<and>
     assistant_completed safe = assistant_completed authoritative \<and>
     map_option failure_code (session_failure_of safe) =
       map_option failure_code (session_failure_of authoritative)"

definition is_assistant_delta :: "session_update \<Rightarrow> bool" where
  "is_assistant_delta u \<longleftrightarrow> (case u of Wire (AssistantDeltaEvent _ _) \<Rightarrow> True | _ \<Rightarrow> False)"

definition run_sanitizer :: "session_update \<Rightarrow> session_update recording" where
  "run_sanitizer u =
     (\<lambda>t. case sanitize_update u (tr_sanitizer t) of (r, z) \<Rightarrow> (r, t\<lparr>tr_sanitizer := z\<rparr>))"

text \<open>The checks of \<open>record\<close> before the reducer runs.\<close>

definition evidence_conflict :: "transcript_evidence \<Rightarrow> session_update \<Rightarrow> bool" where
  "evidence_conflict ev u \<longleftrightarrow>
     ev_loop_limits ev = None \<and> uses_loop_limit_failure_code u \<or>
     (case ev_loop_limits ev of
        None \<Rightarrow> False
      | Some ob \<Rightarrow> \<not> is_terminal_update u \<or> \<not> loop_limits_match_terminal ob u) \<or>
     ev_model_usage ev \<noteq> None \<and> is_assistant_delta u"

definition py_raises :: "py_error + 'a \<Rightarrow> transcript_exception + 'a" where
  "py_raises r = (case r of Inl _ \<Rightarrow> Inl OtherError | Inr x \<Rightarrow> Inr x)"

definition finish_terminal :: "transcript_config \<Rightarrow> file_ops \<Rightarrow> unit recording" where
  "finish_terminal C E =
     ask (\<lambda>t.
       case build_summary (tr_state t) (tr_evidence t) (cfg_transcript_name C) of
         None \<Rightarrow> raise OtherError
       | Some summary \<Rightarrow> finally_do (write_summary E summary) (update close_file))"

definition record_body ::
  "transcript_config \<Rightarrow> file_ops \<Rightarrow> session_update \<Rightarrow> session_state \<Rightarrow> unit recording" where
  "record_body C E u accepted_state =
     seq (run_sanitizer u) (\<lambda>safe_update.
     ask (\<lambda>t.
       let reduction = reduce_session_state (tr_state t) safe_update in
       if evidence_conflict (tr_evidence t) safe_update
          \<or> \<not> reduction_ok reduction
          \<or> \<not> same_lifecycle_invariants (reduced_state reduction) accepted_state
       then raise (PersistenceError TranscriptWriteFailed)
       else case utf8_encode (assistant_text (reduced_state reduction)) of
              None \<Rightarrow> raise OtherError
            | Some content \<Rightarrow>
                if MAX_REPLAY_ASSISTANT_BYTES < length content
                then raise (PersistenceError TranscriptWriteFailed)
                else
                  seq (read_clock E) (\<lambda>now.
                  seq (lift_result (py_raises (build_record safe_update (next_record_order t) now
                         (cfg_workspace_id C) (cfg_session_id C)))) (\<lambda>r.
                  next_do (append_record C E r)
                    (next_do (update (\<lambda>t. t\<lparr>tr_state := reduced_state reduction\<rparr>))
                       (if status (reduced_state reduction) \<in> TERMINAL_SESSION_STATUSES
                        then finish_terminal C E else ret ()))))))"

definition record_transcript ::
  "transcript_config \<Rightarrow> file_ops \<Rightarrow> session_update \<Rightarrow> session_state \<Rightarrow> transcript \<Rightarrow>
   persistence_failure_code option \<times> transcript" where
  "record_transcript C E u accepted_state = guarded (record_body C E u accepted_state)"

definition usage_body ::
  "transcript_config \<Rightarrow> file_ops \<Rightarrow> model_usage_observed \<Rightarrow> unit recording" where
  "usage_body C E ob =
     ask (\<lambda>t.
       if mu_session_id ob \<noteq> cfg_session_id C \<or> ev_model_usage (tr_evidence t) \<noteq> None
          \<or> ev_loop_limits (tr_evidence t) \<noteq> None \<or> status (tr_state t) \<noteq> Running
          \<or> assistant_text (tr_state t) = [] \<or> assistant_completed (tr_state t)
       then raise (PersistenceError TranscriptWriteFailed)
       else
         seq (read_clock E) (\<lambda>now.
         seq (lift_result (py_raises (construct_record (ModelUsageObservedRecord
                (common_base (next_record_order t) now (cfg_workspace_id C) (cfg_session_id C))
                (mu_input_tokens ob) (mu_output_tokens ob))))) (\<lambda>r.
         next_do (append_record C E r)
           (update (\<lambda>t. t\<lparr>tr_evidence :=
              \<lparr>ev_model_usage = Some ob, ev_loop_limits = ev_loop_limits (tr_evidence t)\<rparr>\<rparr>)))))"

definition record_model_usage ::
  "transcript_config \<Rightarrow> file_ops \<Rightarrow> model_usage_observed \<Rightarrow> transcript \<Rightarrow>
   persistence_failure_code option \<times> transcript" where
  "record_model_usage C E ob = guarded (usage_body C E ob)"

definition limits_record_of :: "loop_limits_observed \<Rightarrow> limits_record" where
  "limits_record_of ob =
     \<lparr>lr_limits = lo_limits ob, lr_model_turns_started = lo_model_turns_started ob,
      lr_assistant_output_bytes = lo_assistant_output_bytes ob,
      lr_tool_calls_observed = lo_tool_calls_observed ob, lr_exhausted_limit = lo_exhausted ob\<rparr>"

definition limits_body ::
  "transcript_config \<Rightarrow> file_ops \<Rightarrow> loop_limits_observed \<Rightarrow> unit recording" where
  "limits_body C E ob =
     ask (\<lambda>t.
       if lo_session_id ob \<noteq> cfg_session_id C \<or> ev_loop_limits (tr_evidence t) \<noteq> None
          \<or> session_id (tr_state t) \<noteq> Some (cfg_session_id C)
          \<or> status (tr_state t) \<in> TERMINAL_SESSION_STATUSES
       then raise (PersistenceError TranscriptWriteFailed)
       else
         seq (read_clock E) (\<lambda>now.
         seq (lift_result (py_raises (construct_record (LoopLimitsObservedRecord
                (common_base (next_record_order t) now (cfg_workspace_id C) (cfg_session_id C))
                (limits_record_of ob))))) (\<lambda>r.
         next_do (append_record C E r)
           (update (\<lambda>t. t\<lparr>tr_evidence :=
              \<lparr>ev_model_usage = ev_model_usage (tr_evidence t), ev_loop_limits = Some ob\<rparr>\<rparr>)))))"

definition record_loop_limits ::
  "transcript_config \<Rightarrow> file_ops \<Rightarrow> loop_limits_observed \<Rightarrow> transcript \<Rightarrow>
   persistence_failure_code option \<times> transcript" where
  "record_loop_limits C E ob = guarded (limits_body C E ob)"

text \<open>The public operations, and a run of them with what each reports.\<close>

datatype transcript_call =
    RecordCall session_update session_state
  | UsageCall model_usage_observed
  | LimitsCall loop_limits_observed
  | CloseCall

fun transcript_step ::
  "transcript_config \<Rightarrow> file_ops \<Rightarrow> transcript_call \<Rightarrow> transcript \<Rightarrow>
   persistence_failure_code option \<times> transcript" where
  "transcript_step C E (RecordCall u s) t = record_transcript C E u s t"
| "transcript_step C E (UsageCall ob) t = record_model_usage C E ob t"
| "transcript_step C E (LimitsCall ob) t = record_loop_limits C E ob t"
| "transcript_step C E CloseCall t = (None, close_file t)"

fun run_transcript ::
  "transcript_config \<Rightarrow> file_ops \<Rightarrow> transcript_call list \<Rightarrow> transcript \<Rightarrow>
   persistence_failure_code option list \<times> transcript" where
  "run_transcript C E [] t = ([], t)"
| "run_transcript C E (c # cs) t =
     (case transcript_step C E c t of
        (r, t') \<Rightarrow> (case run_transcript C E cs t' of (rs, t'') \<Rightarrow> (r # rs, t'')))"

end
