(* ===== verification/Transcript_Replay.thy ===== *)
theory Transcript_Replay
  imports Transcript_Writer
begin

section \<open>Replaying a transcript (persistence/transcript.py, fourth part)\<close>

text \<open>
  \<open>replay_transcript\<close> reads the file line by line, bounded, and stops at the first unsafe one
  with a classified error and its line number. The file is a parameter: whether it opens, what
  \<open>fstat\<close> says, whether each read succeeds, and its bytes. A record goes through three stages, in
  the code's order: order, version and scope; the pending limits evidence; its own input. The
  lemmas reduce the byte loop on a file of whole encoded lines to a fold over its records
  (\<open>replay_whole_lines\<close>).
\<close>

datatype replay_failure_code =
    OpenFailed | InvalidFramingR | LineTooLarge | InvalidUtf8R | InvalidRecord
  | TranscriptVersionMismatch | RecordOrderMismatch | WorkspaceMismatch | SessionMismatchR
  | LifecycleInvariantFailed | NotRegularFile | TranscriptTooLarge

type_synonym replay_error = "replay_failure_code \<times> nat option"

record replay_state =
  rp_records :: "transcript_record list"
  rp_state :: session_state
  rp_evidence :: transcript_evidence
  rp_version :: "int option"
  rp_workspace :: "ustr option"
  rp_session :: "ustr option"
  rp_assistant_bytes :: nat
  rp_pending :: "loop_limits_observed option"

definition initial_replay :: replay_state where
  "initial_replay =
     \<lparr>rp_records = [], rp_state = INITIAL_SESSION_STATE, rp_evidence = no_evidence, rp_version = None,
      rp_workspace = None, rp_session = None, rp_assistant_bytes = 0, rp_pending = None\<rparr>"

record transcript_replay =
  replay_records :: "transcript_record list"
  replay_state_of :: session_state
  replay_evidence :: transcript_evidence
  replay_complete :: bool

definition replay_result :: "replay_state \<Rightarrow> transcript_replay" where
  "replay_result a =
     \<lparr>replay_records = rp_records a, replay_state_of = rp_state a, replay_evidence = rp_evidence a,
      replay_complete = (status (rp_state a) \<in> TERMINAL_SESSION_STATUSES)\<rparr>"

subsection \<open>One record\<close>

definition replay_scope ::
  "ustr option \<Rightarrow> nat \<Rightarrow> transcript_record \<Rightarrow> replay_state \<Rightarrow> replay_failure_code + replay_state" where
  "replay_scope scoped line_number r a =
     (let b = base_of_record r in
      if record_order b \<noteq> int line_number then Inl RecordOrderMismatch
      else and_then
        (case rp_version a of
           None \<Rightarrow> Inr (a\<lparr>rp_version := Some (transcript_version b)\<rparr>)
         | Some v \<Rightarrow> if transcript_version b \<noteq> v then Inl TranscriptVersionMismatch else Inr a) (\<lambda>a.
      and_then
        (case rp_workspace a of
           None \<Rightarrow>
             if scoped \<noteq> None \<and> Some (workspace_id b) \<noteq> scoped then Inl WorkspaceMismatch
             else Inr (a\<lparr>rp_workspace := Some (workspace_id b), rp_session := Some (record_session b)\<rparr>)
         | Some w \<Rightarrow>
             if workspace_id b \<noteq> w then Inl WorkspaceMismatch
             else if Some (record_session b) \<noteq> rp_session a then Inl SessionMismatchR
             else Inr a) (\<lambda>a.
      if \<not> record_matches_session r then Inl SessionMismatchR else Inr a)))"

fun event_input :: "transcript_record \<Rightarrow> session_update option" where
  "event_input (SessionEventRecord _ e) = Some (Wire e)"
| "event_input _ = None"

definition replay_pending ::
  "transcript_record \<Rightarrow> replay_state \<Rightarrow> replay_failure_code + replay_state" where
  "replay_pending r a =
     (case rp_pending a of
        Some ob \<Rightarrow>
          (case event_input r of
             None \<Rightarrow> Inl LifecycleInvariantFailed
           | Some u \<Rightarrow>
               if \<not> is_terminal_update u \<or> \<not> loop_limits_match_terminal ob u
               then Inl LifecycleInvariantFailed else Inr (a\<lparr>rp_pending := None\<rparr>))
      | None \<Rightarrow>
          if rp_version a = Some 3 \<and>
             (case event_input r of None \<Rightarrow> False | Some u \<Rightarrow> uses_loop_limit_failure_code u)
          then Inl LifecycleInvariantFailed else Inr a)"

definition keep_record :: "transcript_record \<Rightarrow> replay_state \<Rightarrow> replay_state" where
  "keep_record r a = a\<lparr>rp_records := rp_records a @ [r]\<rparr>"

definition replay_usage ::
  "transcript_record \<Rightarrow> record_base \<Rightarrow> int \<Rightarrow> int \<Rightarrow> replay_state \<Rightarrow> replay_failure_code + replay_state" where
  "replay_usage r b i j a =
     (if ev_model_usage (rp_evidence a) \<noteq> None \<or> ev_loop_limits (rp_evidence a) \<noteq> None
         \<or> status (rp_state a) \<noteq> Running \<or> assistant_text (rp_state a) = []
         \<or> assistant_completed (rp_state a)
      then Inl LifecycleInvariantFailed
      else case ModelUsageObserved (PyStr (record_session b)) (PyInt i) (PyInt j) of
             Inl _ \<Rightarrow> Inl InvalidRecord
           | Inr ob \<Rightarrow>
               Inr (keep_record r (a\<lparr>rp_evidence :=
                 \<lparr>ev_model_usage = Some ob, ev_loop_limits = ev_loop_limits (rp_evidence a)\<rparr>\<rparr>)))"

definition replay_limits ::
  "transcript_record \<Rightarrow> record_base \<Rightarrow> limits_record \<Rightarrow> replay_state \<Rightarrow> replay_failure_code + replay_state" where
  "replay_limits r b l a =
     (if ev_loop_limits (rp_evidence a) \<noteq> None \<or> session_id (rp_state a) \<noteq> Some (record_session b)
         \<or> status (rp_state a) \<in> TERMINAL_SESSION_STATUSES
      then Inl LifecycleInvariantFailed
      else case loop_limits_observation b l of
             Inl _ \<Rightarrow> Inl InvalidRecord
           | Inr ob \<Rightarrow>
               Inr (keep_record r (a\<lparr>rp_evidence :=
                 \<lparr>ev_model_usage = ev_model_usage (rp_evidence a), ev_loop_limits = Some ob\<rparr>,
                 rp_pending := Some ob\<rparr>)))"

definition replay_update ::
  "transcript_record \<Rightarrow> session_update \<Rightarrow> replay_state \<Rightarrow> replay_failure_code + replay_state" where
  "replay_update r u a =
     and_then
       (case u of
          Wire (AssistantDeltaEvent _ text0) \<Rightarrow>
            if ev_model_usage (rp_evidence a) \<noteq> None then Inl LifecycleInvariantFailed
            else
              (let n = rp_assistant_bytes a + length (utf8_bytes text0) in
               if MAX_REPLAY_ASSISTANT_BYTES < n then Inl TranscriptTooLarge
               else Inr (a\<lparr>rp_assistant_bytes := n\<rparr>))
        | _ \<Rightarrow> Inr a) (\<lambda>a.
     let reduction = reduce_session_state (rp_state a) u in
     if \<not> reduction_ok reduction then Inl LifecycleInvariantFailed
     else Inr (keep_record r (a\<lparr>rp_state := reduced_state reduction\<rparr>)))"

definition replay_input ::
  "transcript_record \<Rightarrow> replay_state \<Rightarrow> replay_failure_code + replay_state" where
  "replay_input r a =
     (case r of
        ModelUsageObservedRecord b i j \<Rightarrow> replay_usage r b i j a
      | LoopLimitsObservedRecord b l \<Rightarrow> replay_limits r b l a
      | _ \<Rightarrow>
          (case record_update r of
             Inl _ \<Rightarrow> Inl InvalidRecord
           | Inr u \<Rightarrow> replay_update r u a))"

definition replay_record ::
  "ustr option \<Rightarrow> nat \<Rightarrow> transcript_record \<Rightarrow> replay_state \<Rightarrow> replay_failure_code + replay_state" where
  "replay_record scoped line_number r a =
     and_then (replay_scope scoped line_number r a) (\<lambda>a.
     and_then (replay_pending r a) (\<lambda>a. replay_input r a))"

subsection \<open>The byte loop\<close>

record replay_file =
  file_opens :: bool
  file_status_ok :: bool
  file_is_regular :: bool
  file_size :: nat
  file_reads :: "nat \<Rightarrow> bool"
  file_contents :: "byte list"

text \<open>\<open>readline(limit)\<close>: up to and including the first LF, at most \<open>limit\<close> bytes.\<close>

definition read_line :: "nat \<Rightarrow> byte list \<Rightarrow> byte list" where
  "read_line limit bs =
     (let body = takeWhile (\<lambda>b. b \<noteq> 10) bs in
      take limit (if length body < length bs then body @ [10] else body))"

definition check_line :: "json_lib \<Rightarrow> nat \<Rightarrow> nat \<Rightarrow> byte list \<Rightarrow> replay_failure_code + transcript_record" where
  "check_line J line_number total_bytes line =
     (if MAX_TRANSCRIPT_BYTES < total_bytes then Inl TranscriptTooLarge
      else if MAX_TRANSCRIPT_RECORDS < line_number then Inl TranscriptTooLarge
      else if MAX_TRANSCRIPT_LINE_BYTES + 1 < length line then Inl LineTooLarge
      else if \<not> ends_with line [10] \<or> ends_with line [13, 10] then Inl InvalidFramingR
      else if utf8_decode (butlast line) = None then Inl InvalidUtf8R
      else case parse_record J (butlast line) of None \<Rightarrow> Inl InvalidRecord | Some r \<Rightarrow> Inr r)"

lemma read_line_shorter:
  "read_line (Suc n) bs \<noteq> [] \<Longrightarrow> length (drop (length (read_line (Suc n) bs)) bs) < length bs"
  by (cases bs) (auto simp: read_line_def Let_def)

function replay_lines ::
  "json_lib \<Rightarrow> ustr option \<Rightarrow> (nat \<Rightarrow> bool) \<Rightarrow> nat \<Rightarrow> nat \<Rightarrow> byte list \<Rightarrow> replay_state \<Rightarrow>
   replay_error + replay_state" where
  "replay_lines J scoped reads line_number total_bytes bs a =
     (if \<not> reads line_number then Inl (OpenFailed, None)
      else
        (let line = read_line (MAX_TRANSCRIPT_LINE_BYTES + 2) bs in
         if line = [] then Inr a
         else
           (let n = Suc line_number; seen = total_bytes + length line in
            case and_then (check_line J n seen line) (\<lambda>r. replay_record scoped n r a) of
              Inl code \<Rightarrow> Inl (code, Some n)
            | Inr a' \<Rightarrow> replay_lines J scoped reads n seen (drop (length line) bs) a')))"
  by pat_completeness auto
termination
  by (relation "measure (\<lambda>(_, _, _, _, _, bs, _). length bs)")
    (auto simp del: length_drop dest: read_line_shorter [of "Suc MAX_TRANSCRIPT_LINE_BYTES", simplified])

declare replay_lines.simps [simp del]

text \<open>
  \<open>stable_workspace_id\<close> over the path resolution (\<open>None\<close> when it raises) and SHA-256 in
  hexadecimal.
\<close>

definition stable_workspace_id :: "(ustr \<Rightarrow> ustr) \<Rightarrow> ustr option \<Rightarrow> ustr option" where
  "stable_workspace_id sha256 resolved =
     map_option (\<lambda>canonical. lit ''ws1_'' @ take 24 (sha256 canonical)) resolved"

text \<open>
  \<open>expected\<close> is \<open>None\<close> for no expected workspace, and \<open>Some id\<close> with the result of
  \<open>stable_workspace_id\<close> otherwise.
\<close>

definition replay_transcript ::
  "json_lib \<Rightarrow> ustr option option \<Rightarrow> replay_file \<Rightarrow> replay_error + transcript_replay" where
  "replay_transcript J expected f =
     (if expected = Some None then Inl (WorkspaceMismatch, None)
      else if \<not> file_opens f \<or> \<not> file_status_ok f then Inl (OpenFailed, None)
      else if \<not> file_is_regular f then Inl (NotRegularFile, None)
      else if MAX_TRANSCRIPT_BYTES < file_size f then Inl (TranscriptTooLarge, None)
      else
        (let scoped = (case expected of None \<Rightarrow> None | Some w \<Rightarrow> w) in
         and_then (replay_lines J scoped (file_reads f) 0 0 (file_contents f) initial_replay)
           (\<lambda>a. Inr (replay_result a))))"

text \<open>A regular file that opens and reads, of the given bytes.\<close>

definition plain_file :: "byte list \<Rightarrow> replay_file" where
  "plain_file bs =
     \<lparr>file_opens = True, file_status_ok = True, file_is_regular = True, file_size = length bs,
      file_reads = (\<lambda>_. True), file_contents = bs\<rparr>"

subsection \<open>A file of whole lines\<close>

text \<open>The bytes of a line for \<open>r\<close>, as the writer leaves them.\<close>

definition line_of :: "json_lib \<Rightarrow> transcript_record \<Rightarrow> byte list" where
  "line_of J r = (case encode_record J r of Inr line \<Rightarrow> line | Inl _ \<Rightarrow> [])"

definition good_record :: "json_lib \<Rightarrow> transcript_record \<Rightarrow> bool" where
  "good_record J r \<longleftrightarrow>
     (\<exists>body. encode_record J r = Inr (body @ [10]) \<and> length body \<le> MAX_TRANSCRIPT_LINE_BYTES \<and>
        10 \<notin> set body \<and> 13 \<notin> set body \<and> utf8_decode body \<noteq> None \<and> parse_record J body = Some r)"

fun replay_records_from ::
  "ustr option \<Rightarrow> nat \<Rightarrow> transcript_record list \<Rightarrow> replay_state \<Rightarrow> replay_error + replay_state" where
  "replay_records_from scoped n [] a = Inr a"
| "replay_records_from scoped n (r # rs) a =
     (case replay_record scoped (Suc n) r a of
        Inl code \<Rightarrow> Inl (code, Some (Suc n))
      | Inr a' \<Rightarrow> replay_records_from scoped (Suc n) rs a')"

lemma replay_records_from_append:
  "replay_records_from scoped n (rs @ rs') a =
     and_then (replay_records_from scoped n rs a) (replay_records_from scoped (n + length rs) rs')"
  by (induction rs arbitrary: n a) (auto split: sum.splits)

lemma read_whole_line:
  assumes "10 \<notin> set body" "length body \<le> MAX_TRANSCRIPT_LINE_BYTES"
  shows "read_line (MAX_TRANSCRIPT_LINE_BYTES + 2) (body @ 10 # rest) = body @ [10]"
proof -
  have "takeWhile (\<lambda>b. b \<noteq> 10) (body @ 10 # rest) = body"
    using assms(1) by (subst takeWhile_append2) auto
  then show ?thesis using assms(2) by (simp add: read_line_def Let_def)
qed

lemma ends_with_crlf:
  assumes "13 \<notin> set body"
  shows "\<not> ends_with (body @ [10]) [13, 10]"
proof
  assume "ends_with (body @ [10]) [13, 10]"
  then obtain ys where "body @ [10] = (ys @ [13]) @ [10]" by (auto simp: ends_with_iff suffix_def)
  then have "body = ys @ [13]" by blast
  with assms show False by simp
qed

lemma check_whole_line:
  assumes "good_record J r" "seen \<le> MAX_TRANSCRIPT_BYTES" "n \<le> MAX_TRANSCRIPT_RECORDS"
  shows "check_line J n seen (line_of J r) = Inr r"
proof -
  obtain body where b: "encode_record J r = Inr (body @ [10])" "length body \<le> MAX_TRANSCRIPT_LINE_BYTES"
    "10 \<notin> set body" "13 \<notin> set body" "utf8_decode body \<noteq> None" "parse_record J body = Some r"
    using assms(1) unfolding good_record_def by blast
  have "ends_with (body @ [10]) [10]" by (simp add: ends_with_iff)
  with b assms(2,3) ends_with_crlf [OF b(4)] show ?thesis
    by (simp add: check_line_def line_of_def)
qed

lemma replay_whole_lines:
  "list_all (good_record J) rs \<Longrightarrow>
     seen + length (concat (map (line_of J) rs)) \<le> MAX_TRANSCRIPT_BYTES \<Longrightarrow>
     n + length rs \<le> MAX_TRANSCRIPT_RECORDS \<Longrightarrow>
     replay_lines J scoped (\<lambda>_. True) n seen (concat (map (line_of J) rs)) a =
       replay_records_from scoped n rs a"
proof (induction rs arbitrary: n seen a)
  case Nil
  then show ?case by (subst replay_lines.simps) (simp add: read_line_def)
next
  case (Cons r rs)
  from Cons.prems(1) obtain body where b: "line_of J r = body @ [10]"
    "length body \<le> MAX_TRANSCRIPT_LINE_BYTES" "10 \<notin> set body"
    unfolding good_record_def line_of_def by auto
  let ?rest = "concat (map (line_of J) rs)"
  have rl: "read_line (MAX_TRANSCRIPT_LINE_BYTES + 2) (line_of J r @ ?rest) = line_of J r"
    using read_whole_line [OF b(3,2)] by (simp add: b(1))
  have ne: "line_of J r \<noteq> []" by (simp add: b(1))
  have "check_line J (Suc n) (seen + length (line_of J r)) (line_of J r) = Inr r"
    using Cons.prems by (intro check_whole_line) auto
  moreover have "replay_lines J scoped (\<lambda>_. True) (Suc n) (seen + length (line_of J r)) ?rest a' =
      replay_records_from scoped (Suc n) rs a'" for a'
    using Cons.prems by (intro Cons.IH) auto
  ultimately show ?case
    using rl ne by (subst replay_lines.simps) (simp add: Let_def split: sum.split)
qed

end
