(* ===== verification/Transcript_Properties.thy ===== *)
theory Transcript_Properties
  imports Transcript_Replay
begin

section \<open>What the transcript writer and its replay guarantee together\<close>

text \<open>
  The invariant of an open transcript: the file is the concatenation of the lines of the committed
  records, replaying those records reaches exactly the writer's safe state and evidence, and the
  counters are the file's. A torn tail exists only behind a latched failure whose rollback failed.
  From it follow the round trip between writer and replay, the bounds of the file, and the
  once-only reporting of a failure.
\<close>

subsection \<open>Writing\<close>

lemma write_all_file:
  "write_all E put_file bs t = (r, t') \<Longrightarrow>
     \<exists>k n. k \<le> length bs \<and> t' = t\<lparr>file_bytes := file_bytes t @ take k bs, os_calls := n\<rparr> \<and>
       (\<forall>u. r = Inr u \<longrightarrow> k = length bs)"
proof (induction "length bs" arbitrary: bs t rule: less_induct)
  case less
  show ?case
  proof (cases "bs = []")
    case True
    with less.prems show ?thesis
      by - (rule exI [of _ 0], rule exI [of _ "os_calls t"], simp add: write_all.simps)
  next
    case False
    show ?thesis
    proof (cases "op_write E (os_calls t) bs")
      case None
      with less.prems False show ?thesis
        by - (rule exI [of _ 0], rule exI [of _ "Suc (os_calls t)"], auto simp: write_all.simps tick_def)
    next
      case (Some w)
      show ?thesis
      proof (cases "w \<le> 0")
        case True
        with less.prems False Some show ?thesis
          by - (rule exI [of _ 0], rule exI [of _ "Suc (os_calls t)"], auto simp: write_all.simps tick_def)
      next
        case w: False
        let ?n = "nat w" and ?t = "put_file (take (nat w) bs) (tick t)"
        have "write_all E put_file (drop ?n bs) ?t = (r, t')"
          using less.prems False Some w by (simp add: write_all.simps [of E put_file bs t])
        moreover have "length (drop ?n bs) < length bs" using w False by simp
        ultimately obtain k n where k: "k \<le> length (drop ?n bs)"
          "t' = ?t\<lparr>file_bytes := file_bytes ?t @ take k (drop ?n bs), os_calls := n\<rparr>"
          "\<forall>u. r = Inr u \<longrightarrow> k = length (drop ?n bs)"
          using less.hyps by blast
        let ?k = "min (length bs) ?n + k"
        have "take ?n bs @ take k (drop ?n bs) = take ?k bs"
        proof (cases "?n \<le> length bs")
          case True
          then show ?thesis by (simp add: take_add min_absorb2)
        next
          case False
          then show ?thesis by simp
        qed
        then show ?thesis
          using k by - (rule exI [of _ ?k], rule exI [of _ n], auto simp: put_file_def tick_def)
      qed
    qed
  qed
qed

text \<open>What an append may change: the bytes of the file and the call counter.\<close>

definition appended :: "byte list \<Rightarrow> transcript \<Rightarrow> transcript \<Rightarrow> bool" where
  "appended bs t t' \<longleftrightarrow> (\<exists>n. t' = t\<lparr>file_bytes := file_bytes t @ bs, os_calls := n\<rparr>)"

lemma rollback_appended:
  assumes "appended bs t t'"
  shows "\<exists>bs'. appended bs' t (rollback_partial_append E (length (file_bytes t)) t') \<and>
    (bs' \<noteq> [] \<longrightarrow> \<not> (\<forall>k. op_truncate E k))"
proof -
  from assms obtain n where t': "t' = t\<lparr>file_bytes := file_bytes t @ bs, os_calls := n\<rparr>"
    by (auto simp: appended_def)
  show ?thesis
  proof (cases "op_truncate E n")
    case True
    then have "appended [] t (rollback_partial_append E (length (file_bytes t)) t')"
      by (auto simp: t' appended_def rollback_partial_append_def os_call_def seq_simps tick_def)
    then show ?thesis by blast
  next
    case False
    then have "appended bs t (rollback_partial_append E (length (file_bytes t)) t')"
      by (auto simp: t' appended_def rollback_partial_append_def os_call_def seq_simps tick_def)
    with False show ?thesis by blast
  qed
qed

lemma append_and_flush_cases:
  assumes "append_and_flush E line t = (r, t')"
  shows "(r = Inr () \<and> appended line t t') \<or>
    (\<exists>e bs. r = Inl e \<and> appended bs t t' \<and> (bs \<noteq> [] \<longrightarrow> \<not> (\<forall>k. op_truncate E k)))"
proof (cases "op_seek E (os_calls t)")
  case False
  with assms have "r = Inl OtherError \<and> appended [] t t'"
    by (auto simp: append_and_flush_def os_call_def seq_simps appended_def tick_def)
  then show ?thesis by blast
next
  case True
  let ?off = "length (file_bytes t)"
  obtain w t1 where w: "write_all E put_file line (tick t) = (w, t1)" by (rule prod.exhaust)
  from write_all_file [OF w] obtain k where
    k: "appended (take k line) t t1" "\<forall>u. w = Inr u \<longrightarrow> take k line = line"
    by (auto simp: appended_def tick_def)
  have off: "length (file_bytes (tick t)) = ?off" by (simp add: tick_def)
  show ?thesis
  proof (cases w)
    case (Inl e)
    then have "r = Inl (PersistenceError TranscriptWriteFailed)" "t' = rollback_partial_append E ?off t1"
      using assms True w off
      by (auto simp: append_and_flush_def os_call_def seq_simps or_rollback_def Let_def)
    with rollback_appended [OF k(1), of E] show ?thesis by blast
  next
    case (Inr u)
    with k have a: "appended line t t1" by simp
    show ?thesis
    proof (cases "op_flush E (os_calls t1)")
      case True
      then have "r = Inr ()" "t' = tick t1"
        using assms \<open>op_seek E (os_calls t)\<close> w off Inr
        by (auto simp: append_and_flush_def os_call_def seq_simps or_rollback_def Let_def)
      with a show ?thesis by (auto simp: appended_def tick_def)
    next
      case False
      then have r: "r = Inl (PersistenceError TranscriptFlushFailed)"
        "t' = rollback_partial_append E ?off (tick t1)"
        using assms \<open>op_seek E (os_calls t)\<close> w off Inr
        by (auto simp: append_and_flush_def os_call_def seq_simps or_rollback_def Let_def)
      have "appended line t (tick t1)" using a by (auto simp: appended_def tick_def)
      from rollback_appended [OF this, of E] r show ?thesis by blast
    qed
  qed
qed

lemma append_record_cases:
  assumes "append_record C E r t = (res, t')"
  shows "(res = Inr () \<and> (\<exists>line t1. encode_record (cfg_json C) r = Inr line \<and>
        next_record_order t \<le> int MAX_TRANSCRIPT_RECORDS \<and>
        committed_bytes t + length line \<le> MAX_TRANSCRIPT_BYTES \<and> appended line t t1 \<and>
        t' = t1\<lparr>next_record_order := next_record_order t + 1,
                committed_bytes := committed_bytes t + length line\<rparr>)) \<or>
    (\<exists>e bs. res = Inl e \<and> appended bs t t' \<and> (bs \<noteq> [] \<longrightarrow> \<not> (\<forall>k. op_truncate E k)))"
proof -
  have none: "appended [] t t" unfolding appended_def by (rule exI [of _ "os_calls t"]) simp
  show ?thesis
  proof (cases "encode_record (cfg_json C) r")
    case (Inl e)
    with assms none show ?thesis by (auto simp: append_record_def seq_simps)
  next
    case (Inr line)
    show ?thesis
    proof (cases "int MAX_TRANSCRIPT_RECORDS < next_record_order t
        \<or> MAX_TRANSCRIPT_BYTES < committed_bytes t + length line")
      case True
      with assms Inr none show ?thesis by (auto simp: append_record_def seq_simps)
    next
      case False
      obtain w t1 where w: "append_and_flush E line t = (w, t1)" by (rule prod.exhaust)
      have lt: "append_record C E r t =
          (case append_and_flush E line t of (Inl e, u) \<Rightarrow> (Inl e, u)
           | (Inr _, u) \<Rightarrow> (Inr (), u\<lparr>next_record_order := next_record_order u + 1,
                                      committed_bytes := committed_bytes u + length line\<rparr>))"
        using Inr False by (simp add: append_record_def seq_simps update_def)
      from append_and_flush_cases [OF w] show ?thesis
      proof (elim disjE exE conjE)
        assume a: "w = Inr ()" "appended line t t1"
        then have "next_record_order t1 = next_record_order t" "committed_bytes t1 = committed_bytes t"
          by (auto simp: appended_def)
        with a lt w assms Inr False show ?thesis by auto
      next
        fix e bs
        assume "w = Inl e" "appended bs t t1" "bs \<noteq> [] \<longrightarrow> \<not> (\<forall>k. op_truncate E k)"
        with lt w assms show ?thesis by auto
      qed
    qed
  qed
qed

subsection \<open>The invariant\<close>

text \<open>Replaying the committed records, in or out of the expected scope, tracks the writer.\<close>

definition tracks ::
  "transcript_config \<Rightarrow> transcript \<Rightarrow> transcript_record list \<Rightarrow> replay_state \<Rightarrow> bool" where
  "tracks C t rs a \<longleftrightarrow>
     rp_records a = rs \<and> rp_state a = tr_state t \<and> rp_evidence a = tr_evidence t \<and>
     rp_version a = (if rs = [] then None else Some TRANSCRIPT_VERSION) \<and>
     rp_workspace a = (if rs = [] then None else Some (cfg_workspace_id C)) \<and>
     rp_session a = (if rs = [] then None else Some (cfg_session_id C)) \<and>
     rp_assistant_bytes a = length (utf8_bytes (assistant_text (tr_state t))) \<and>
     rp_pending a = (if status (tr_state t) \<in> TERMINAL_SESSION_STATUSES then None
                     else ev_loop_limits (tr_evidence t))"

definition own_scope :: "transcript_config \<Rightarrow> ustr option \<Rightarrow> bool" where
  "own_scope C scoped \<longleftrightarrow> scoped = None \<or> scoped = Some (cfg_workspace_id C)"

definition committed :: "transcript_config \<Rightarrow> transcript_record list \<Rightarrow> transcript \<Rightarrow> bool" where
  "committed C rs t \<longleftrightarrow>
     list_all (good_record (cfg_json C)) rs \<and> length rs \<le> MAX_TRANSCRIPT_RECORDS \<and>
     next_record_order t = int (length rs) + 1 \<and>
     committed_bytes t = length (concat (map (line_of (cfg_json C)) rs)) \<and>
     committed_bytes t \<le> MAX_TRANSCRIPT_BYTES \<and> session_inv (tr_state t) \<and>
     (\<forall>scoped. own_scope C scoped \<longrightarrow>
        (\<exists>a. replay_records_from scoped 0 rs initial_replay = Inr a \<and> tracks C t rs a))"

text \<open>The file holds the committed lines and a torn tail.\<close>

definition holds ::
  "transcript_config \<Rightarrow> transcript_record list \<Rightarrow> byte list \<Rightarrow> transcript \<Rightarrow> bool" where
  "holds C rs torn t \<longleftrightarrow>
     committed C rs t \<and> file_bytes t = concat (map (line_of (cfg_json C)) rs) @ torn"

definition transcript_inv :: "transcript_config \<Rightarrow> file_ops \<Rightarrow> transcript \<Rightarrow> bool" where
  "transcript_inv C E t \<longleftrightarrow>
     (\<exists>rs torn. holds C rs torn t \<and>
        (torn \<noteq> [] \<longrightarrow> tr_failure t \<noteq> None \<and> \<not> (\<forall>k. op_truncate E k))) \<and>
     (tr_failure t \<noteq> None \<longrightarrow> tr_closed t) \<and>
     (status (tr_state t) \<in> TERMINAL_SESSION_STATUSES \<longrightarrow> tr_closed t)"

lemma committed_cong:
  "next_record_order t' = next_record_order t \<Longrightarrow> committed_bytes t' = committed_bytes t \<Longrightarrow>
   tr_state t' = tr_state t \<Longrightarrow> tr_evidence t' = tr_evidence t \<Longrightarrow> committed C rs t' \<longleftrightarrow> committed C rs t"
  by (simp add: committed_def tracks_def)

lemma holds_appended: "holds C rs [] t \<Longrightarrow> appended bs t t' \<Longrightarrow> holds C rs bs t'"
  by (auto simp: holds_def appended_def intro: committed_cong [THEN iffD2, rotated -1])

lemma transcript_inv_new: "transcript_inv C E (new_transcript secrets limit)"
  unfolding transcript_inv_def
proof (intro conjI exI [of _ "[]"])
  show "holds C [] [] (new_transcript secrets limit)"
    by (auto simp: holds_def committed_def new_transcript_def tracks_def initial_replay_def
        session_inv_initial [unfolded INITIAL_SESSION_STATE_def] no_evidence_def INITIAL_SESSION_STATE_def)
qed (simp_all add: new_transcript_def INITIAL_SESSION_STATE_def TERMINAL_SESSION_STATUSES_def)

subsection \<open>Committing one record\<close>

lemma own_scope_cases: "own_scope C scoped \<Longrightarrow> scoped = None \<or> scoped = Some (cfg_workspace_id C)"
  by (simp add: own_scope_def)

text \<open>After the scope checks, the replay state knows version, workspace and session.\<close>

definition scoped_state :: "transcript_config \<Rightarrow> replay_state \<Rightarrow> replay_state" where
  "scoped_state C a =
     a\<lparr>rp_version := Some TRANSCRIPT_VERSION, rp_workspace := Some (cfg_workspace_id C),
       rp_session := Some (cfg_session_id C)\<rparr>"

lemma replay_scope_own:
  assumes "tracks C t rs a" "own_scope C scoped" "record_matches_session r"
    and "base_of_record r = common_base (int (length rs) + 1) now (cfg_workspace_id C) (cfg_session_id C)"
  shows "replay_scope scoped (Suc (length rs)) r a = Inr (scoped_state C a)"
proof -
  have "rp_version a = (if rs = [] then None else Some TRANSCRIPT_VERSION)"
    "rp_workspace a = (if rs = [] then None else Some (cfg_workspace_id C))"
    "rp_session a = (if rs = [] then None else Some (cfg_session_id C))"
    using assms(1) by (simp_all add: tracks_def)
  with assms(2-4) show ?thesis
    by (cases "rs = []"; cases a)
      (auto simp: replay_scope_def Let_def common_base_def scoped_state_def own_scope_def)
qed

lemma scoped_state_simps [simp]:
  "rp_records (scoped_state C a) = rp_records a" "rp_state (scoped_state C a) = rp_state a"
  "rp_evidence (scoped_state C a) = rp_evidence a" "rp_version (scoped_state C a) = Some TRANSCRIPT_VERSION"
  "rp_workspace (scoped_state C a) = Some (cfg_workspace_id C)"
  "rp_session (scoped_state C a) = Some (cfg_session_id C)"
  "rp_assistant_bytes (scoped_state C a) = rp_assistant_bytes a"
  "rp_pending (scoped_state C a) = rp_pending a"
  by (simp_all add: scoped_state_def)

lemma reduce_text:
  assumes "session_inv s" "reduction_ok (reduce_session_state s u)"
  shows "assistant_text (reduced_state (reduce_session_state s u)) =
    assistant_text s @ (case u of Wire (AssistantDeltaEvent _ d) \<Rightarrow> d | _ \<Rightarrow> [])"
proof (cases u)
  case (TaskSubmitted cmd t)
  have "status s = Idle" using assms(2) TaskSubmitted
    by (auto simp: reduce_session_state_def split: if_splits)
  with assms TaskSubmitted show ?thesis
    by (auto simp: session_inv_def reduce_task_accepted INITIAL_SESSION_STATE_def)
next
  case (Wire e)
  with assms(2) reduce_wire_accepted [of s e] show ?thesis by (cases e) (auto split: if_splits)
qed (use assms(2) in \<open>auto simp: reduce_fact_accepted\<close>)

lemma reduce_ok_not_terminal:
  "reduction_ok (reduce_session_state s u) \<Longrightarrow> status s \<notin> TERMINAL_SESSION_STATUSES"
  using reduce_terminal [of s u] by auto

lemma terminal_update_reaches:
  assumes "is_terminal_update u" "reduction_ok (reduce_session_state s u)"
  shows "status (reduced_state (reduce_session_state s u)) \<in> TERMINAL_SESSION_STATUSES"
proof -
  obtain e where u: "u = Wire e" using assms(1) by (cases u) simp_all
  with assms reduce_wire_accepted [of s e] show ?thesis
    by (cases e) (auto simp: TERMINAL_SESSION_STATUSES_def split: if_splits)
qed

text \<open>A record of a conflict-free accepted update replays to the reduced state.\<close>

lemma replay_lifecycle_record:
  assumes "tracks C t rs a" "session_inv (tr_state t)"
    and "record_update r = Inr u" "event_input r = (case u of Wire e \<Rightarrow> Some u | _ \<Rightarrow> None)"
    and "\<not> evidence_conflict (tr_evidence t) u"
    and "reduction_ok (reduce_session_state (tr_state t) u)"
    and "length (utf8_bytes (assistant_text (reduced_state (reduce_session_state (tr_state t) u))))
           \<le> MAX_REPLAY_ASSISTANT_BYTES"
    and "tr_state t' = reduced_state (reduce_session_state (tr_state t) u)"
    and "tr_evidence t' = tr_evidence t"
  shows "\<exists>a'. and_then (replay_pending r (scoped_state C a)) (replay_input r) = Inr a' \<and>
    tracks C t' (rs @ [r]) a'"
proof -
  let ?red = "reduce_session_state (tr_state t) u"
  have nt: "status (tr_state t) \<notin> TERMINAL_SESSION_STATUSES"
    using assms(6) by (rule reduce_ok_not_terminal)
  let ?ev = "tr_evidence t"
  have a: "rp_records a = rs" "rp_state a = tr_state t" "rp_evidence a = ?ev"
    "rp_assistant_bytes a = length (utf8_bytes (assistant_text (tr_state t)))"
    "rp_pending a = ev_loop_limits ?ev"
    using assms(1) nt by (auto simp: tracks_def)
  let ?b = "(scoped_state C a)\<lparr>rp_pending := None\<rparr>"
  have pend: "replay_pending r (scoped_state C a) = Inr ?b"
  proof (cases "ev_loop_limits ?ev")
    case None
    then have "\<not> uses_loop_limit_failure_code u" using assms(5) by (simp add: evidence_conflict_def)
    moreover have "?b = scoped_state C a" using a(5) None by (simp add: scoped_state_def)
    ultimately show ?thesis
      using a(5) None assms(4) by (cases u) (simp_all add: replay_pending_def)
  next
    case (Some ob)
    then have t: "is_terminal_update u" "loop_limits_match_terminal ob u"
      using assms(5) by (auto simp: evidence_conflict_def)
    then obtain e where "u = Wire e" by (cases u) simp_all
    with t a(5) Some assms(4) show ?thesis by (simp add: replay_pending_def)
  qed
  have grown: "assistant_text (reduced_state ?red) =
      assistant_text (tr_state t) @ (case u of Wire (AssistantDeltaEvent _ d) \<Rightarrow> d | _ \<Rightarrow> [])"
    using assms(2,6) by (rule reduce_text)
  let ?n = "length (utf8_bytes (assistant_text (reduced_state ?red)))"
  let ?c = "keep_record r (?b\<lparr>rp_assistant_bytes := ?n, rp_state := reduced_state ?red\<rparr>)"
  have upd: "replay_update r u ?b = Inr ?c"
  proof (cases "is_assistant_delta u")
    case True
    then obtain b d where u: "u = Wire (AssistantDeltaEvent b d)"
      by (auto simp: is_assistant_delta_def split: session_update.splits session_event.splits)
    have "ev_model_usage ?ev = None" using assms(5) u
      by (simp add: evidence_conflict_def is_assistant_delta_def)
    with a grown assms(6,7) show ?thesis
      by (simp add: replay_update_def u Let_def keep_record_def)
  next
    case False
    then have n: "?n = rp_assistant_bytes a"
      using grown a(4) by (auto simp: is_assistant_delta_def split: session_update.splits session_event.splits)
    have "replay_update r u ?b = Inr (keep_record r (?b\<lparr>rp_state := reduced_state ?red\<rparr>))"
    proof (cases u)
      case (Wire e)
      with False a assms(6) show ?thesis
        by (cases e) (simp_all add: replay_update_def is_assistant_delta_def Let_def)
    qed (use a assms(6) in \<open>simp_all add: replay_update_def Let_def\<close>)
    moreover have "?b\<lparr>rp_state := reduced_state ?red\<rparr> = ?b\<lparr>rp_assistant_bytes := ?n, rp_state := reduced_state ?red\<rparr>"
      using n by (simp add: scoped_state_def)
    ultimately show ?thesis by simp
  qed
  have "replay_input r ?b = replay_update r u ?b"
    using assms(3) by (cases r) (simp_all add: replay_input_def)
  moreover have "tracks C t' (rs @ [r]) ?c"
    using a assms(5,6,8,9) terminal_update_reaches [of u "tr_state t"]
    by (auto simp: tracks_def keep_record_def evidence_conflict_def split: option.splits)
  ultimately show ?thesis using pend upd by auto
qed

text \<open>The step of the invariant: a good record whose replay tracks the new state is appended.\<close>

lemma committed_step:
  assumes "committed C rs t" "good_record (cfg_json C) r" "session_inv (tr_state t')"
    and "length rs < MAX_TRANSCRIPT_RECORDS"
    and "next_record_order t' = next_record_order t + 1"
    and "committed_bytes t' = committed_bytes t + length (line_of (cfg_json C) r)"
    and "committed_bytes t' \<le> MAX_TRANSCRIPT_BYTES"
    and step: "\<And>scoped a. own_scope C scoped \<Longrightarrow> tracks C t rs a \<Longrightarrow>
       \<exists>a'. replay_record scoped (Suc (length rs)) r a = Inr a' \<and> tracks C t' (rs @ [r]) a'"
  shows "committed C (rs @ [r]) t'"
proof -
  have "\<exists>a. replay_records_from scoped 0 (rs @ [r]) initial_replay = Inr a \<and> tracks C t' (rs @ [r]) a"
    if "own_scope C scoped" for scoped
  proof -
    from assms(1) that obtain a where "replay_records_from scoped 0 rs initial_replay = Inr a" "tracks C t rs a"
      by (auto simp: committed_def)
    with step [OF that] show ?thesis by (fastforce simp: replay_records_from_append)
  qed
  with assms show ?thesis by (simp add: committed_def)
qed

subsection \<open>The recording methods keep the invariant\<close>

text \<open>Updates a caller of this transcript passes: valid, and of its own session.\<close>

fun own_update :: "transcript_config \<Rightarrow> session_update \<Rightarrow> bool" where
  "own_update C (TaskSubmitted _ _) = True"
| "own_update C (CancelRequested _ sid) = (sid = cfg_session_id C)"
| "own_update C (ApprovalRequested sid) = (sid = cfg_session_id C)"
| "own_update C (ApprovalResolved sid) = (sid = cfg_session_id C)"
| "own_update C (Wire e) = (session_event_ok e \<and> event_session e = cfg_session_id C)"

fun call_ok :: "transcript_config \<Rightarrow> transcript_call \<Rightarrow> bool" where
  "call_ok C (RecordCall u _) = own_update C u"
| "call_ok C (UsageCall ob) = usage_ok ob"
| "call_ok C (LimitsCall ob) = observation_ok ob"
| "call_ok C CloseCall = True"

lemma sanitize_update_own:
  assumes "sanitize_update u z = (Inr u', z')" "own_update C u"
  shows "own_update C u'"
proof (cases u)
  case (TaskSubmitted cmd task)
  with assms show ?thesis by (auto simp: sanitize_update_def split: option.splits)
next
  case (Wire e)
  with assms show ?thesis
    by (cases e)
      (auto simp: sanitize_update_def text_payload_def failed_payload_def session_event_ok_def Let_def
        split: option.splits prod.splits if_splits)
qed (use assms in \<open>auto simp: sanitize_update_def\<close>)

lemma built_record:
  assumes "build_record u number now (cfg_workspace_id C) (cfg_session_id C) = Inr r" "own_update C u"
  shows "record_ok r \<and> record_matches_session r \<and> record_update r = Inr u \<and>
    event_input r = (case u of Wire e \<Rightarrow> Some u | _ \<Rightarrow> None) \<and>
    base_of_record r = common_base number now (cfg_workspace_id C) (cfg_session_id C)"
  using assms
  by (cases u)
    (auto simp: build_record_def construct_record_def record_ok_def common_base_def Let_def split: if_splits)

lemma encoded_good:
  assumes "json_lib_ok (cfg_json C)" "record_ok r" "encode_record (cfg_json C) r = Inr line"
    and "record_order (base_of_record r) = int n + 1" "n \<le> MAX_TRANSCRIPT_RECORDS"
  shows "good_record (cfg_json C) r" "line_of (cfg_json C) r = line"
proof -
  have "\<bar>record_order (base_of_record r)\<bar> < 2 ^ 53"
    using assms(4,5) by (simp add: MAX_TRANSCRIPT_RECORDS_def)
  from encode_record_Inr [OF assms(1,2) this assms(3)] assms(3) show "good_record (cfg_json C) r"
    unfolding good_record_def by blast
  show "line_of (cfg_json C) r = line" using assms(3) by (simp add: line_of_def)
qed

text \<open>How a body leaves the transcript before \<open>guarded\<close> latches what it raised.\<close>

definition settled ::
  "transcript_config \<Rightarrow> file_ops \<Rightarrow> (transcript_exception + unit) \<times> transcript \<Rightarrow> bool" where
  "settled C E out \<longleftrightarrow>
     (case out of (res, t') \<Rightarrow>
        (\<exists>rs torn. holds C rs torn t' \<and>
           (torn \<noteq> [] \<longrightarrow> \<not> ok_result res \<and> \<not> (\<forall>k. op_truncate E k))) \<and>
        tr_failure t' = None \<and>
        (status (tr_state t') \<in> TERMINAL_SESSION_STATUSES \<longrightarrow> tr_closed t' \<or> \<not> ok_result res))"

definition same_core :: "transcript \<Rightarrow> transcript \<Rightarrow> bool" where
  "same_core t t' \<longleftrightarrow>
     file_bytes t' = file_bytes t \<and> next_record_order t' = next_record_order t \<and>
     committed_bytes t' = committed_bytes t \<and> tr_state t' = tr_state t \<and>
     tr_evidence t' = tr_evidence t \<and> tr_failure t' = tr_failure t"

text \<open>
  Relations that the summary cannot break: preorders that ignore the call counter, the closed flag
  and the two summary files.
\<close>

locale quiet_order = action_order R for R :: "transcript \<Rightarrow> transcript \<Rightarrow> bool" +
  assumes quiet_tick: "R t (tick t)"
    and quiet_temporary: "R t (t\<lparr>temporary_bytes := b\<rparr>)"
    and quiet_summary: "R t (t\<lparr>summary_bytes := b\<rparr>)"
    and quiet_close: "R t (t\<lparr>tr_closed := c\<rparr>)"
begin

lemma quiet_close_file: "R t (close_file t)"
  unfolding close_file_def
  using order_trans [OF quiet_close quiet_tick] order_refl by simp

lemma quiet_os_call: "(\<And>t. R t (f t)) \<Longrightarrow> moves R (os_call c f)"
  by (auto simp: moves_def os_call_def quiet_tick intro: order_trans [OF quiet_tick])

lemma quiet_write_all:
  assumes put: "\<And>bs t. R t (put bs t)"
  shows "moves R (write_all E put bs)"
proof -
  have "R t (snd (write_all E put bs t))" for t
  proof (induction "length bs" arbitrary: bs t rule: less_induct)
    case less
    show ?case
    proof (cases "bs = []")
      case False
      have "R t (snd (write_all E put (drop (nat w) bs) (put (take (nat w) bs) (tick t))))"
        if "\<not> w \<le> 0" for w
      proof -
        have "R (put (take (nat w) bs) (tick t))
            (snd (write_all E put (drop (nat w) bs) (put (take (nat w) bs) (tick t))))"
          using that False by (intro less.hyps) simp
        with order_trans [OF quiet_tick put] show ?thesis by (rule order_trans)
      qed
      then show ?thesis
        using False quiet_tick by (subst write_all.simps) (auto split: option.split)
    qed (simp add: write_all.simps order_refl)
  qed
  then show ?thesis by (simp add: moves_def)
qed

lemma quiet_summary_failure: "R t (snd (summary_failure E b t))"
proof -
  have u: "moves R (os_call (op_unlink E) (\<lambda>t. t\<lparr>temporary_bytes := None\<rparr>))"
    by (rule quiet_os_call) (rule quiet_temporary)
  have "R t (if b then tick t else t)" using quiet_tick order_refl by simp
  moreover have "R v (snd (os_call (op_unlink E) (\<lambda>t. t\<lparr>temporary_bytes := None\<rparr>) v))" for v
    using u by (simp add: moves_def)
  ultimately show ?thesis unfolding summary_failure_def snd_conv by (rule order_trans)
qed

lemma quiet_write_temporary: "moves R (write_temporary E contents)"
  unfolding write_temporary_def
  by (intro moves_next quiet_os_call quiet_write_all)
    (auto simp: put_temporary_def order_refl quiet_temporary)

lemma quiet_write_summary: "moves R (write_summary E contents)"
  unfolding moves_def
proof
  fix t
  let ?open = "os_call (op_open E) (\<lambda>t. t\<lparr>temporary_bytes := Some []\<rparr>)"
  let ?close = "os_call (op_close E) (\<lambda>t. t)"
  let ?swap = "os_call (op_replace E) (\<lambda>t. t\<lparr>summary_bytes := temporary_bytes t, temporary_bytes := None\<rparr>)"
  have "R v (v\<lparr>summary_bytes := temporary_bytes v, temporary_bytes := None\<rparr>)" for v
    using quiet_summary quiet_temporary by (rule order_trans)
  then have steps: "moves R ?open" "moves R ?close" "moves R ?swap"
    by (auto intro!: quiet_os_call simp: quiet_temporary order_refl)
  obtain r1 t1 where o: "?open t = (r1, t1)" by (rule prod.exhaust)
  obtain r2 t2 where w: "write_temporary E contents t1 = (r2, t2)" by (rule prod.exhaust)
  obtain r3 t3 where c: "?close t2 = (r3, t3)" by (rule prod.exhaust)
  obtain r4 t4 where s: "?swap t3 = (r4, t4)" by (rule prod.exhaust)
  have m: "R t t1" "R t1 t2" "R t2 t3" "R t3 t4"
    using movesD [OF steps(1) o] movesD [OF quiet_write_temporary w] movesD [OF steps(2) c]
      movesD [OF steps(3) s] .
  have f: "R t (snd (summary_failure E b u))" if "R t u" for u b
    using that quiet_summary_failure by (rule order_trans)
  have "R t t3" "R t t4" using m order_trans by blast+
  then show "R t (snd (write_summary E contents t))"
    unfolding write_summary_def o w c s prod.case
    using m(1) f by (simp split: sum.split)
qed

lemma quiet_finally:
  assumes "moves R m" "moves R c"
  shows "moves R (finally_do m c)"
  unfolding moves_def
proof
  fix t
  obtain r t1 where m: "m t = (r, t1)" by (rule prod.exhaust)
  obtain r2 t2 where c: "c t1 = (r2, t2)" by (rule prod.exhaust)
  have "R t t2" using movesD [OF assms(1) m] movesD [OF assms(2) c] by (rule order_trans)
  then show "R t (snd (finally_do m c t))"
    using m c by (simp add: finally_do_def split: sum.split)
qed

lemma quiet_finish_terminal: "moves R (finish_terminal C E)"
  unfolding finish_terminal_def
  by (intro moves_ask moves_option moves_pure quiet_finally quiet_write_summary moves_update
      quiet_close_file)

end

interpretation core: quiet_order same_core
  by unfold_locales (auto simp: same_core_def tick_def)

lemma same_core_holds: "same_core t t' \<Longrightarrow> holds C rs torn t \<Longrightarrow> holds C rs torn t'"
  using committed_cong [of t' t C rs] by (simp add: holds_def same_core_def)

lemma core_simple [simp]:
  "same_core t (t\<lparr>tr_sanitizer := z\<rparr>)" "same_core t (tick t)" "same_core t (close_file t)"
  "same_core t (t\<lparr>failure_reported := b\<rparr>)"
  using core.quiet_close_file by (auto simp: same_core_def tick_def)

lemma finish_terminal_frame:
  assumes "finish_terminal C E t = (res, t')"
  shows "same_core t t' \<and> (tr_closed t' \<or> \<not> ok_result res)"
proof -
  have "same_core t t'" using movesD [OF core.quiet_finish_terminal assms] .
  moreover have "tr_closed (close_file u)" for u by (simp add: close_file_def tick_def)
  then have "tr_closed t' \<or> \<not> ok_result res"
    using assms by (auto simp: finish_terminal_def finally_do_def split: option.splits prod.splits)
  ultimately show ?thesis ..
qed

lemma settled_raise:
  "same_core t t' \<Longrightarrow> holds C rs [] t \<Longrightarrow> tr_failure t = None \<Longrightarrow> settled C E (Inl e, t')"
  unfolding settled_def prod.case
  using same_core_holds [of t t' C rs "[]"] by (auto simp: same_core_def)

text \<open>
  The common tail of the three bodies: append a record and then update the projection by \<open>f\<close>.
\<close>

lemma append_settles:
  assumes J: "json_lib_ok (cfg_json C)" and h: "holds C rs [] t" and nofail: "tr_failure t = None"
    and r: "record_ok r" "base_of_record r = common_base (next_record_order t) now (cfg_workspace_id C) (cfg_session_id C)"
    and f: "\<And>t. file_bytes (f t) = file_bytes t \<and> next_record_order (f t) = next_record_order t \<and>
      committed_bytes (f t) = committed_bytes t \<and> tr_failure (f t) = tr_failure t"
    and inv: "\<And>u. tr_state u = tr_state t \<Longrightarrow> tr_evidence u = tr_evidence t \<Longrightarrow> session_inv (tr_state (f u))"
    and step: "\<And>u scoped a. tr_state u = tr_state t \<Longrightarrow> tr_evidence u = tr_evidence t \<Longrightarrow>
      own_scope C scoped \<Longrightarrow> tracks C t rs a \<Longrightarrow>
       \<exists>a'. replay_record scoped (Suc (length rs)) r a = Inr a' \<and> tracks C (f u) (rs @ [r]) a'"
    and out: "next_do (append_record C E r) (update f) t = (res, t')"
  shows "(\<exists>e. res = Inl e \<and> settled C E (Inl e, t')) \<or>
    (res = Inr () \<and> holds C (rs @ [r]) [] t' \<and> tr_failure t' = None \<and>
     (\<exists>u. tr_state u = tr_state t \<and> tr_evidence u = tr_evidence t \<and> t' = f u))"
proof -
  obtain w t1 where w: "append_record C E r t = (w, t1)" by (rule prod.exhaust)
  have nt: "next_record_order t = int (length rs) + 1" "length rs \<le> MAX_TRANSCRIPT_RECORDS"
    using h by (simp_all add: holds_def committed_def)
  from append_record_cases [OF w] show ?thesis
  proof (elim disjE exE conjE)
    fix line t2
    assume a: "w = Inr ()" "encode_record (cfg_json C) r = Inr line"
      "next_record_order t \<le> int MAX_TRANSCRIPT_RECORDS"
      "committed_bytes t + length line \<le> MAX_TRANSCRIPT_BYTES" "appended line t t2"
      "t1 = t2\<lparr>next_record_order := next_record_order t + 1,
              committed_bytes := committed_bytes t + length line\<rparr>"
    have good: "good_record (cfg_json C) r" "line_of (cfg_json C) r = line"
      using encoded_good [OF J r(1) a(2), of "length rs"] nt r(2) by (simp_all add: common_base_def)
    have t1: "tr_state t1 = tr_state t" "tr_evidence t1 = tr_evidence t" "tr_failure t1 = None"
      "file_bytes t1 = file_bytes t @ line" "next_record_order t1 = next_record_order t + 1"
      "committed_bytes t1 = committed_bytes t + length line"
      using a(5,6) nofail by (auto simp: appended_def)
    have t': "res = Inr ()" "t' = f t1" using out w a(1) by (simp_all add: seq_simps)
    have "committed C (rs @ [r]) (f t1)"
    proof (rule committed_step [where t = t])
      show "committed C rs t" using h by (simp add: holds_def)
      show "session_inv (tr_state (f t1))" using inv t1(1,2) by blast
    qed (use good a(3,4) nt t1 f step in auto)
    then have "holds C (rs @ [r]) [] t'"
      using h t' t1(4) f [of t1] good(2) by (simp add: holds_def)
    with t' t1 f [of t1] show ?thesis by auto
  next
    fix e bs
    assume a: "w = Inl e" "appended bs t t1" "bs \<noteq> [] \<longrightarrow> \<not> (\<forall>k. op_truncate E k)"
    then have "res = Inl e" "t' = t1" using out w by (simp_all add: seq_simps)
    moreover have "holds C rs bs t1" using h a(2) by (rule holds_appended)
    moreover have "tr_failure t1 = None" using a(2) nofail by (auto simp: appended_def)
    ultimately show ?thesis using a(3) by (auto simp: settled_def)
  qed
qed

text \<open>The record of an accepted update replays to the reduced state.\<close>

lemma accepted_record_replays:
  assumes h: "committed C rs t" and own: "own_update C u"
    and r: "build_record u (next_record_order t) now (cfg_workspace_id C) (cfg_session_id C) = Inr r"
    and clear: "\<not> evidence_conflict (tr_evidence t) u" "reduction_ok (reduce_session_state (tr_state t) u)"
    and small: "length (utf8_bytes (assistant_text (reduced_state (reduce_session_state (tr_state t) u))))
           \<le> MAX_REPLAY_ASSISTANT_BYTES"
    and t': "tr_state t' = reduced_state (reduce_session_state (tr_state t) u)"
      "tr_evidence t' = tr_evidence t"
    and a: "own_scope C scoped" "tracks C t rs a"
  shows "\<exists>a'. replay_record scoped (Suc (length rs)) r a = Inr a' \<and> tracks C t' (rs @ [r]) a'"
proof -
  note b = built_record [OF r own]
  have n: "next_record_order t = int (length rs) + 1" and inv: "session_inv (tr_state t)"
    using h by (simp_all add: committed_def)
  have "replay_scope scoped (Suc (length rs)) r a = Inr (scoped_state C a)"
    using a(2,1) by (rule replay_scope_own) (use b n in simp_all)
  moreover have "\<exists>a'. and_then (replay_pending r (scoped_state C a)) (replay_input r) = Inr a' \<and>
      tracks C t' (rs @ [r]) a'"
    using a(2) inv by (rule replay_lifecycle_record) (use b clear small t' in simp_all)
  ultimately show ?thesis by (simp add: replay_record_def)
qed

text \<open>Appending it, moving the projection, and finishing after a terminal.\<close>

lemma commit_update_settles:
  assumes J: "json_lib_ok (cfg_json C)" and h: "holds C rs [] t" and nofail: "tr_failure t = None"
    and own: "own_update C u"
    and r: "build_record u (next_record_order t) now (cfg_workspace_id C) (cfg_session_id C) = Inr r"
    and clear: "\<not> evidence_conflict (tr_evidence t) u" "reduction_ok (reduce_session_state (tr_state t) u)"
    and small: "length (utf8_bytes (assistant_text (reduced_state (reduce_session_state (tr_state t) u))))
           \<le> MAX_REPLAY_ASSISTANT_BYTES"
    and s: "s = reduced_state (reduce_session_state (tr_state t) u)"
  shows "settled C E (next_do (append_record C E r)
      (next_do (update (\<lambda>t. t\<lparr>tr_state := s\<rparr>))
         (if status s \<in> TERMINAL_SESSION_STATUSES then finish_terminal C E else ret ())) t)"
proof -
  let ?f = "\<lambda>t :: transcript. t\<lparr>tr_state := s\<rparr>"
  let ?fin = "if status s \<in> TERMINAL_SESSION_STATUSES then finish_terminal C E else ret ()"
  note b = built_record [OF r own]
  have c: "committed C rs t" using h by (simp add: holds_def)
  obtain res t1 where out: "next_do (append_record C E r) (update ?f) t = (res, t1)"
    by (rule prod.exhaust)
  have app: "(\<exists>e. res = Inl e \<and> settled C E (Inl e, t1)) \<or>
      (res = Inr () \<and> holds C (rs @ [r]) [] t1 \<and> tr_failure t1 = None \<and>
       (\<exists>v. tr_state v = tr_state t \<and> tr_evidence v = tr_evidence t \<and> t1 = ?f v))"
  proof (rule append_settles [OF J h nofail _ _ _ _ _ out])
    show "session_inv (tr_state (?f v))" for v
      using c reduce_session_inv by (simp add: s committed_def)
    show "\<exists>a'. replay_record scoped (Suc (length rs)) r a = Inr a' \<and> tracks C (?f v) (rs @ [r]) a'"
      if "tr_state v = tr_state t" "tr_evidence v = tr_evidence t" "own_scope C scoped" "tracks C t rs a"
      for v scoped a
      using c own r clear small _ _ that(3,4) by (rule accepted_record_replays) (use that s in simp_all)
  qed (use b in simp_all)
  have fin: "next_do (append_record C E r) (next_do (update ?f) ?fin) t =
      (case (res, t1) of (Inl e, t1) \<Rightarrow> (Inl e, t1) | (Inr _, t1) \<Rightarrow> ?fin t1)"
    unfolding out [symmetric]
    by (simp add: seq_simps update_def split: prod.split sum.split)
  show ?thesis
  proof (cases res)
    case (Inl e)
    with app fin show ?thesis by auto
  next
    case (Inr x)
    with app have t1: "holds C (rs @ [r]) [] t1" "tr_failure t1 = None" "tr_state t1 = s" by auto
    obtain r2 t2 where ft: "?fin t1 = (r2, t2)" by (rule prod.exhaust)
    have "same_core t1 t2 \<and> (status s \<in> TERMINAL_SESSION_STATUSES \<longrightarrow> tr_closed t2 \<or> \<not> ok_result r2)"
      using finish_terminal_frame [of C E t1 r2 t2] ft core.order_refl by (auto split: if_splits)
    then have "settled C E (r2, t2)"
      using same_core_holds [of t1 t2 C "rs @ [r]" "[]"] t1 by (auto simp: settled_def same_core_def)
    with fin Inr ft show ?thesis by simp
  qed
qed

lemma recording_steps:
  "seq (read_clock E) k t = k (op_clock E (os_calls t)) (tick t)"
  "seq (lift_result (py_raises r)) m t = (case r of Inl _ \<Rightarrow> (Inl OtherError, t) | Inr x \<Rightarrow> m x t)"
  by (simp_all add: seq_def read_clock_def py_raises_def split: sum.split)

lemma record_body_settles:
  assumes J: "json_lib_ok (cfg_json C)" and h: "holds C rs [] t" and nofail: "tr_failure t = None"
    and own: "own_update C u"
  shows "settled C E (record_body C E u live t)"
proof -
  obtain sr z where z: "sanitize_update u (tr_sanitizer t) = (sr, z)" by (rule prod.exhaust)
  let ?t = "t\<lparr>tr_sanitizer := z\<rparr>"
  have hz: "holds C rs [] ?t" using same_core_holds [OF core_simple(1) h] .
  have fz: "tr_failure ?t = None" using nofail by simp
  have stop: "settled C E (Inl e, ?t)" "settled C E (Inl e, tick ?t)" for e
    using settled_raise [OF core.order_refl hz fz] settled_raise [OF core_simple(2) hz fz] by blast+
  show ?thesis
  proof (cases sr)
    case (Inl e)
    with z stop show ?thesis by (simp add: record_body_def seq_simps run_sanitizer_def)
  next
    case (Inr safe)
    let ?red = "reduce_session_state (tr_state t) safe"
    let ?text = "assistant_text (reduced_state ?red)"
    let ?built = "build_record safe (next_record_order t) (op_clock E (os_calls t))
                    (cfg_workspace_id C) (cfg_session_id C)"
    have start: "record_body C E u live t =
        (if evidence_conflict (tr_evidence t) safe \<or> \<not> reduction_ok ?red
            \<or> \<not> same_lifecycle_invariants (reduced_state ?red) live
         then raise (PersistenceError TranscriptWriteFailed)
         else case utf8_encode ?text of
                None \<Rightarrow> raise OtherError
              | Some content \<Rightarrow>
                  if MAX_REPLAY_ASSISTANT_BYTES < length content
                  then raise (PersistenceError TranscriptWriteFailed)
                  else seq (read_clock E) (\<lambda>now.
                    seq (lift_result (py_raises (build_record safe (next_record_order t) now
                           (cfg_workspace_id C) (cfg_session_id C)))) (\<lambda>r.
                    next_do (append_record C E r)
                      (next_do (update (\<lambda>t. t\<lparr>tr_state := reduced_state ?red\<rparr>))
                         (if status (reduced_state ?red) \<in> TERMINAL_SESSION_STATUSES
                          then finish_terminal C E else ret ()))))) ?t"
    proof -
      have "run_sanitizer u t = (Inr safe, ?t)" using z Inr by (simp add: run_sanitizer_def)
      moreover have "tr_state ?t = tr_state t" "tr_evidence ?t = tr_evidence t"
        "next_record_order ?t = next_record_order t" by simp_all
      ultimately show ?thesis
        by (simp only: record_body_def seq_simps(1) [of "run_sanitizer u"] Let_def prod.case sum.case
            action_simps(5))
    qed
    consider "evidence_conflict (tr_evidence t) safe \<or> \<not> reduction_ok ?red
            \<or> \<not> same_lifecycle_invariants (reduced_state ?red) live"
        | "utf8_encode ?text = None"
        | content where "utf8_encode ?text = Some content" "MAX_REPLAY_ASSISTANT_BYTES < length content"
        | e where "?built = Inl e"
        | content r where "\<not> evidence_conflict (tr_evidence t) safe" "reduction_ok ?red"
            "same_lifecycle_invariants (reduced_state ?red) live" "utf8_encode ?text = Some content"
            "length content \<le> MAX_REPLAY_ASSISTANT_BYTES" "?built = Inr r"
      by (metis not_le option.exhaust sum.exhaust)
    then show ?thesis
    proof cases
      case (5 content r)
      have "length (utf8_bytes ?text) \<le> MAX_REPLAY_ASSISTANT_BYTES"
        using 5(4,5) by (simp add: utf8_encode_def split: if_splits)
      then have "settled C E (next_do (append_record C E r)
          (next_do (update (\<lambda>t. t\<lparr>tr_state := reduced_state ?red\<rparr>))
             (if status (reduced_state ?red) \<in> TERMINAL_SESSION_STATUSES then finish_terminal C E else ret ()))
          (tick ?t))"
        using same_core_holds [OF core_simple(2) hz] sanitize_update_own z Inr own 5 nofail
        by (intro commit_update_settles [OF J, where u = safe and now = "op_clock E (os_calls t)"])
          (auto simp: tick_def)
      with 5 start show ?thesis by (simp add: recording_steps)
    qed (use start stop in \<open>auto simp: recording_steps tick_def split: option.split\<close>)
  qed
qed

lemma observation_of_record:
  assumes "observation_ok ob" "record_session b = lo_session_id ob"
  shows "loop_limits_observation b (limits_record_of ob) = Inr ob"
proof -
  let ?l = "lo_limits ob"
  have "LoopLimits (PyInt (max_model_turns ?l)) (PyInt (provider_work_timeout_seconds ?l))
      (PyInt (max_assistant_output_bytes ?l)) (PyInt (max_observed_tool_calls ?l)) = Inr ?l"
    using assms(1) by (simp add: LoopLimits_Inr_iff observation_ok_def)
  moreover have "require_counters ?l (PyInt (lo_model_turns_started ob)) (PyInt (lo_assistant_output_bytes ob))
      (PyInt (lo_tool_calls_observed ob)) (lo_exhausted ob) =
      Inr (lo_model_turns_started ob, lo_assistant_output_bytes ob, lo_tool_calls_observed ob)"
    using assms(1) by (simp add: require_counters_Inr_iff observation_ok_def)
  ultimately show ?thesis
    using assms by (simp add: loop_limits_observation_def limits_record_of_def LoopLimitsObserved_def
        observation_ok_def)
qed

text \<open>An evidence record that replays to the new evidence is appended.\<close>

definition evidence_only :: "transcript_evidence \<Rightarrow> replay_state \<Rightarrow> replay_state \<Rightarrow> bool" where
  "evidence_only ev a b \<longleftrightarrow>
     rp_records b = rp_records a \<and> rp_state b = rp_state a \<and> rp_evidence b = ev \<and>
     rp_version b = rp_version a \<and> rp_workspace b = rp_workspace a \<and> rp_session b = rp_session a \<and>
     rp_assistant_bytes b = rp_assistant_bytes a \<and> rp_pending b = ev_loop_limits ev"

lemma evidence_settles:
  assumes J: "json_lib_ok (cfg_json C)" and h: "holds C rs [] t" and nofail: "tr_failure t = None"
    and r: "record_ok r" "base_of_record r = common_base (next_record_order t) now (cfg_workspace_id C) (cfg_session_id C)"
    and m: "record_matches_session r" "event_input r = None"
    and quiet: "ev_loop_limits (tr_evidence t) = None"
      "status (tr_state t) \<notin> TERMINAL_SESSION_STATUSES"
    and f: "\<And>u. f u = u\<lparr>tr_evidence := g (tr_evidence u)\<rparr>"
    and input: "\<And>a. rp_state a = tr_state t \<Longrightarrow> rp_evidence a = tr_evidence t \<Longrightarrow>
      rp_pending a = None \<Longrightarrow>
      \<exists>b. replay_input r a = Inr (keep_record r b) \<and> evidence_only (g (tr_evidence t)) a b"
  shows "settled C E (next_do (append_record C E r) (update f) t)"
proof -
  obtain res t1 where out: "next_do (append_record C E r) (update f) t = (res, t1)"
    by (rule prod.exhaust)
  have c: "committed C rs t" using h by (simp add: holds_def)
  then have n: "next_record_order t = int (length rs) + 1" by (simp add: committed_def)
  have "(\<exists>e. res = Inl e \<and> settled C E (Inl e, t1)) \<or>
      (res = Inr () \<and> holds C (rs @ [r]) [] t1 \<and> tr_failure t1 = None \<and>
       (\<exists>v. tr_state v = tr_state t \<and> tr_evidence v = tr_evidence t \<and> t1 = f v))"
  proof (rule append_settles [OF J h nofail r _ _ _ out])
    show "session_inv (tr_state (f v))" if "tr_state v = tr_state t" "tr_evidence v = tr_evidence t"
      for v :: transcript
      using c that by (simp add: f committed_def)
    fix v :: transcript and scoped a
    assume v: "tr_state v = tr_state t" "tr_evidence v = tr_evidence t"
      and a: "own_scope C scoped" "tracks C t rs a"
    have "replay_scope scoped (Suc (length rs)) r a = Inr (scoped_state C a)"
      using a(2,1) by (rule replay_scope_own) (use r n m in simp_all)
    moreover have "replay_pending r (scoped_state C a) = Inr (scoped_state C a)"
      using a(2) quiet m(2) by (simp add: replay_pending_def tracks_def)
    moreover obtain b where b: "replay_input r (scoped_state C a) = Inr (keep_record r b)"
      "evidence_only (g (tr_evidence t)) (scoped_state C a) b"
      using input [of "scoped_state C a"] a(2) quiet by (auto simp: tracks_def)
    moreover have "tracks C (f v) (rs @ [r]) (keep_record r b)"
      using a(2) v quiet(2) b(2) by (simp add: tracks_def keep_record_def f evidence_only_def)
    ultimately show "\<exists>a'. replay_record scoped (Suc (length rs)) r a = Inr a' \<and> tracks C (f v) (rs @ [r]) a'"
      by (simp add: replay_record_def)
  qed (simp add: f)
  then show ?thesis
  proof (elim disjE exE conjE)
    fix v :: transcript
    assume "res = Inr ()" "holds C (rs @ [r]) [] t1" "tr_failure t1 = None" "tr_state v = tr_state t" "t1 = f v"
    with quiet(2) out show ?thesis by (auto simp: settled_def f)
  qed (use out in simp)
qed

lemma usage_body_settles:
  assumes J: "json_lib_ok (cfg_json C)" and h: "holds C rs [] t" and nofail: "tr_failure t = None"
    and ok: "usage_ok ob"
  shows "settled C E (usage_body C E ob t)"
proof -
  have stop: "settled C E (Inl e, t)" "settled C E (Inl e, tick t)" for e
    using settled_raise [OF core.order_refl h nofail] settled_raise [OF core_simple(2) h nofail] by blast+
  let ?r = "ModelUsageObservedRecord (common_base (next_record_order t) (op_clock E (os_calls t))
              (cfg_workspace_id C) (cfg_session_id C)) (mu_input_tokens ob) (mu_output_tokens ob)"
  let ?guard = "mu_session_id ob \<noteq> cfg_session_id C \<or> ev_model_usage (tr_evidence t) \<noteq> None
          \<or> ev_loop_limits (tr_evidence t) \<noteq> None \<or> status (tr_state t) \<noteq> Running
          \<or> assistant_text (tr_state t) = [] \<or> assistant_completed (tr_state t)"
  consider ?guard | e where "construct_record ?r = Inl e"
    | r where "\<not> ?guard" "construct_record ?r = Inr r"
    by (cases "construct_record ?r") blast+
  then show ?thesis
  proof cases
    case (3 r)
    then have r: "r = ?r" "record_ok ?r" by (auto simp: construct_record_def record_ok_def split: if_splits)
    have ob: "ModelUsageObserved (PyStr (cfg_session_id C)) (PyInt (mu_input_tokens ob))
        (PyInt (mu_output_tokens ob)) = Inr ob"
      using 3(1) ok by (simp add: ModelUsageObserved_Inr_iff)
    have ht: "holds C rs [] (tick t)" using same_core_holds [OF core_simple(2) h] .
    have "settled C E (next_do (append_record C E ?r) (update (\<lambda>t. t\<lparr>tr_evidence :=
              \<lparr>ev_model_usage = Some ob, ev_loop_limits = ev_loop_limits (tr_evidence t)\<rparr>\<rparr>)) (tick t))"
      using J ht
      by (rule evidence_settles [where now = "op_clock E (os_calls t)"
            and g = "\<lambda>ev. \<lparr>ev_model_usage = Some ob, ev_loop_limits = ev_loop_limits ev\<rparr>"])
        (use 3(1) r(2) nofail ob in \<open>auto simp: tick_def TERMINAL_SESSION_STATUSES_def replay_input_def
           replay_usage_def common_base_def evidence_only_def\<close>)
    with 3 r(1) show ?thesis by (simp add: usage_body_def recording_steps)
  qed (use stop in \<open>auto simp: usage_body_def recording_steps\<close>)
qed

lemma limits_body_settles:
  assumes J: "json_lib_ok (cfg_json C)" and h: "holds C rs [] t" and nofail: "tr_failure t = None"
    and ok: "observation_ok ob"
  shows "settled C E (limits_body C E ob t)"
proof -
  have stop: "settled C E (Inl e, t)" "settled C E (Inl e, tick t)" for e
    using settled_raise [OF core.order_refl h nofail] settled_raise [OF core_simple(2) h nofail] by blast+
  let ?b = "common_base (next_record_order t) (op_clock E (os_calls t)) (cfg_workspace_id C) (cfg_session_id C)"
  let ?r = "LoopLimitsObservedRecord ?b (limits_record_of ob)"
  let ?guard = "lo_session_id ob \<noteq> cfg_session_id C \<or> ev_loop_limits (tr_evidence t) \<noteq> None
          \<or> session_id (tr_state t) \<noteq> Some (cfg_session_id C)
          \<or> status (tr_state t) \<in> TERMINAL_SESSION_STATUSES"
  consider ?guard | e where "construct_record ?r = Inl e"
    | r where "\<not> ?guard" "construct_record ?r = Inr r"
    by (cases "construct_record ?r") blast+
  then show ?thesis
  proof cases
    case (3 r)
    then have r: "r = ?r" "record_ok ?r" by (auto simp: construct_record_def record_ok_def split: if_splits)
    have ob: "loop_limits_observation ?b (limits_record_of ob) = Inr ob"
      using 3(1) ok by (intro observation_of_record) (simp_all add: common_base_def)
    have ht: "holds C rs [] (tick t)" using same_core_holds [OF core_simple(2) h] .
    have "settled C E (next_do (append_record C E ?r) (update (\<lambda>t. t\<lparr>tr_evidence :=
              \<lparr>ev_model_usage = ev_model_usage (tr_evidence t), ev_loop_limits = Some ob\<rparr>\<rparr>)) (tick t))"
      using J ht
      by (rule evidence_settles [where now = "op_clock E (os_calls t)"
            and g = "\<lambda>ev. \<lparr>ev_model_usage = ev_model_usage ev, ev_loop_limits = Some ob\<rparr>"])
        (use 3(1) r(2) nofail ob in \<open>auto simp: tick_def replay_input_def
           replay_limits_def common_base_def evidence_only_def\<close>)
    with 3 r(1) show ?thesis by (simp add: limits_body_def recording_steps)
  qed (use stop in \<open>auto simp: limits_body_def recording_steps\<close>)
qed

subsection \<open>Every run keeps the invariant\<close>

lemma transcript_inv_core:
  "same_core t t' \<Longrightarrow> (tr_closed t \<longrightarrow> tr_closed t') \<Longrightarrow> transcript_inv C E t \<Longrightarrow> transcript_inv C E t'"
proof -
  assume c: "same_core t t'" "tr_closed t \<longrightarrow> tr_closed t'" and i: "transcript_inv C E t"
  have "tr_failure t' = tr_failure t" "tr_state t' = tr_state t" using c(1) by (simp_all add: same_core_def)
  with i c(2) same_core_holds [OF c(1)] show ?thesis by (simp add: transcript_inv_def) blast
qed

lemma close_file_closed: "tr_closed t \<longrightarrow> tr_closed (close_file t)"
  by (simp add: close_file_def)

lemma take_failure_inv: "transcript_inv C E t \<Longrightarrow> transcript_inv C E (snd (take_failure t))"
  by (auto simp: take_failure_def intro: transcript_inv_core [where t = t])

lemma latch_failure_inv:
  assumes "settled C E (Inl e, t)"
  shows "transcript_inv C E (latch_failure code t)"
proof -
  let ?t = "t\<lparr>tr_failure := Some code\<rparr>"
  obtain rs torn where h: "holds C rs torn t" "torn \<noteq> [] \<longrightarrow> \<not> (\<forall>k. op_truncate E k)" "tr_failure t = None"
    using assms by (auto simp: settled_def)
  have l: "latch_failure code t = close_file ?t" using h(3) by (simp add: latch_failure_def)
  have "holds C rs torn ?t" using h(1) committed_cong [of ?t t C rs] by (simp add: holds_def)
  then have "holds C rs torn (close_file ?t)" by (rule same_core_holds [OF core_simple(3)])
  moreover have "tr_failure (close_file ?t) = Some code" "tr_closed (close_file ?t)"
    by (simp_all add: close_file_def tick_def)
  ultimately show ?thesis unfolding l transcript_inv_def using h(2) by auto
qed

lemma guarded_inv:
  assumes inv: "transcript_inv C E t"
    and body: "\<And>rs. holds C rs [] t \<Longrightarrow> tr_failure t = None \<Longrightarrow> settled C E (body t)"
  shows "transcript_inv C E (snd (guarded body t))"
proof -
  consider "tr_failure t \<noteq> None" | "tr_failure t = None" "tr_closed t" | "tr_failure t = None" "\<not> tr_closed t"
    by blast
  then show ?thesis
  proof cases
    case 1
    with take_failure_inv [OF inv] show ?thesis by (simp add: guarded_def)
  next
    case 2
    with inv show ?thesis by (simp add: guarded_def)
  next
    case 3
    obtain rs torn where h: "holds C rs torn t" "torn \<noteq> [] \<longrightarrow> tr_failure t \<noteq> None"
      using inv by (auto simp: transcript_inv_def)
    with 3 have s: "settled C E (body t)" by (intro body [of rs]) auto
    obtain res t' where b: "body t = (res, t')" by (rule prod.exhaust)
    have "transcript_inv C E (case res of Inr _ \<Rightarrow> t'
        | Inl (PersistenceError code) \<Rightarrow> latch_failure code t'
        | Inl OtherError \<Rightarrow> latch_failure TranscriptWriteFailed t')"
    proof (cases res)
      case (Inl e)
      then have "transcript_inv C E (latch_failure code t')" for code
        using s b latch_failure_inv by auto
      with Inl show ?thesis by (cases e) simp_all
    next
      case (Inr x)
      with s b show ?thesis by (auto simp: settled_def transcript_inv_def)
    qed
    moreover have "guarded body t = take_failure (case res of Inr _ \<Rightarrow> t'
        | Inl (PersistenceError code) \<Rightarrow> latch_failure code t'
        | Inl OtherError \<Rightarrow> latch_failure TranscriptWriteFailed t')"
      using 3 b by (auto simp: guarded_def split: sum.split transcript_exception.split)
    ultimately show ?thesis using take_failure_inv by simp
  qed
qed

lemma transcript_step_inv:
  assumes "json_lib_ok (cfg_json C)" "call_ok C c" "transcript_inv C E t"
  shows "transcript_inv C E (snd (transcript_step C E c t))"
proof (cases c)
  case (RecordCall u live)
  with assms show ?thesis
    by (auto simp: record_transcript_def intro!: guarded_inv record_body_settles)
next
  case (UsageCall ob)
  with assms show ?thesis
    by (auto simp: record_model_usage_def intro!: guarded_inv usage_body_settles)
next
  case (LimitsCall ob)
  with assms show ?thesis
    by (auto simp: record_loop_limits_def intro!: guarded_inv limits_body_settles)
next
  case CloseCall
  with assms(3) close_file_closed show ?thesis
    by (auto intro: transcript_inv_core [OF core_simple(3)])
qed

lemma run_transcript_inv:
  "json_lib_ok (cfg_json C) \<Longrightarrow> list_all (call_ok C) cs \<Longrightarrow> transcript_inv C E t \<Longrightarrow>
     transcript_inv C E (snd (run_transcript C E cs t))"
proof (induction cs arbitrary: t)
  case (Cons c cs)
  obtain r t' where s: "transcript_step C E c t = (r, t')" by (rule prod.exhaust)
  have "transcript_inv C E t'" using transcript_step_inv [of C c E t] Cons.prems s by simp
  then have "transcript_inv C E (snd (run_transcript C E cs t'))"
    using Cons.prems by (intro Cons.IH) simp_all
  with s show ?case by (cases "run_transcript C E cs t'") simp
qed simp

lemma run_transcript_append:
  "run_transcript C E (cs @ ds) t =
     (fst (run_transcript C E cs t) @ fst (run_transcript C E ds (snd (run_transcript C E cs t))),
      snd (run_transcript C E ds (snd (run_transcript C E cs t))))"
  by (induction cs arbitrary: t) (simp_all add: case_prod_beta)

subsection \<open>The failure latch\<close>

definition latch_inv :: "transcript \<Rightarrow> bool" where
  "latch_inv t \<longleftrightarrow> (failure_reported t \<longleftrightarrow> tr_failure t \<noteq> None)"

definition same_latch :: "transcript \<Rightarrow> transcript \<Rightarrow> bool" where
  "same_latch t t' \<longleftrightarrow> tr_failure t' = tr_failure t \<and> failure_reported t' = failure_reported t"

interpretation latch: quiet_order same_latch
  by unfold_locales (auto simp: same_latch_def tick_def)

named_theorems latch_moves \<open>recording actions that do not touch the failure latch\<close>

declare latch.quiet_os_call [latch_moves] latch.quiet_write_all [latch_moves]
  latch.quiet_finish_terminal [latch_moves]

lemma or_rollback_latch [latch_moves]:
  assumes "moves same_latch m"
  shows "moves same_latch (or_rollback E off code m)"
  unfolding moves_def
proof
  fix t
  obtain r t' where m: "m t = (r, t')" by (rule prod.exhaust)
  have "same_latch t t'" using movesD [OF assms m] .
  moreover have "same_latch t' (rollback_partial_append E off t')"
    by (auto simp: rollback_partial_append_def os_call_def seq_simps tick_def same_latch_def)
  ultimately show "same_latch t (snd (or_rollback E off code m t))"
    using m latch.order_trans by (auto simp: or_rollback_def split: sum.split)
qed

lemma append_record_latch [latch_moves]: "moves same_latch (append_record C E r)"
  unfolding append_record_def append_and_flush_def Let_def
  by (intro latch.move_rules latch_moves) (auto simp: same_latch_def put_file_def)

lemma bodies_latch:
  "moves same_latch (record_body C E u live)" "moves same_latch (usage_body C E mu)"
  "moves same_latch (limits_body C E ll)"
proof -
  have z: "moves same_latch (run_sanitizer u)"
    by (auto simp: moves_def run_sanitizer_def same_latch_def split: prod.split)
  have r: "moves same_latch (read_clock E)"
    by (simp add: moves_def read_clock_def latch.quiet_tick)
  note steps = latch.move_rules latch_moves z r
  show "moves same_latch (record_body C E u live)"
    unfolding record_body_def Let_def
    by (intro steps) (auto simp: same_latch_def)
  show "moves same_latch (usage_body C E mu)"
    unfolding usage_body_def by (intro steps) (auto simp: same_latch_def)
  show "moves same_latch (limits_body C E ll)"
    unfolding limits_body_def by (intro steps) (auto simp: same_latch_def)
qed

text \<open>One guarded call: it reports exactly when it is the call that latches.\<close>

lemma guarded_latch:
  assumes "moves same_latch body" "latch_inv t" "guarded body t = (rep, t')"
  shows "latch_inv t' \<and> (tr_failure t \<noteq> None \<longrightarrow> rep = None \<and> t' = t) \<and>
    (tr_failure t = None \<longrightarrow> rep = tr_failure t')"
proof (cases "tr_failure t = None \<and> \<not> tr_closed t")
  case True
  obtain res t1 where b: "body t = (res, t1)" by (rule prod.exhaust)
  have "same_latch t t1" using movesD [OF assms(1) b] .
  then have t1: "tr_failure t1 = None" "\<not> failure_reported t1"
    using True assms(2) by (auto simp: same_latch_def latch_inv_def)
  have "tr_failure (close_file (t1\<lparr>tr_failure := Some c\<rparr>)) = Some c"
    "\<not> failure_reported (close_file (t1\<lparr>tr_failure := Some c\<rparr>))" for c
    using t1 by (simp_all add: close_file_def tick_def)
  with assms(3) True b t1 show ?thesis
    by (cases res)
      (auto simp: guarded_def take_failure_def latch_failure_def latch_inv_def
        split: transcript_exception.splits)
next
  case False
  with assms(2,3) show ?thesis
    by (cases "tr_failure t") (auto simp: guarded_def take_failure_def latch_inv_def)
qed

lemma transcript_step_latch:
  assumes "latch_inv t" "transcript_step C E c t = (rep, t')"
  shows "latch_inv t' \<and>
    (tr_failure t \<noteq> None \<longrightarrow> rep = None \<and> tr_failure t' = tr_failure t \<and> file_bytes t' = file_bytes t) \<and>
    (tr_failure t = None \<longrightarrow> rep = tr_failure t')"
proof (cases c)
  case CloseCall
  with assms show ?thesis by (auto simp: latch_inv_def close_file_def tick_def split: if_splits)
next
  case (RecordCall u live)
  with guarded_latch [OF bodies_latch(1) assms(1)] assms(2) show ?thesis
    by (fastforce simp: record_transcript_def)
next
  case (UsageCall ob)
  with guarded_latch [OF bodies_latch(2) assms(1)] assms(2) show ?thesis
    by (fastforce simp: record_model_usage_def)
next
  case (LimitsCall ob)
  with guarded_latch [OF bodies_latch(3) assms(1)] assms(2) show ?thesis
    by (fastforce simp: record_loop_limits_def)
qed

definition option_list :: "'a option \<Rightarrow> 'a list" where
  "option_list x = (case x of None \<Rightarrow> [] | Some y \<Rightarrow> [y])"

lemma run_transcript_latch:
  "latch_inv t \<Longrightarrow> run_transcript C E cs t = (reports, t') \<Longrightarrow>
     latch_inv t' \<and>
     (tr_failure t \<noteq> None \<longrightarrow> concat (map option_list reports) = [] \<and> tr_failure t' = tr_failure t \<and>
        file_bytes t' = file_bytes t) \<and>
     (tr_failure t = None \<longrightarrow> concat (map option_list reports) = option_list (tr_failure t'))"
proof (induction cs arbitrary: t reports)
  case (Cons c cs)
  obtain rep t1 where s: "transcript_step C E c t = (rep, t1)" by (rule prod.exhaust)
  obtain reps where r: "run_transcript C E cs t1 = (reps, t')" "reports = rep # reps"
    using Cons.prems(2) s by (auto split: prod.splits)
  note one = transcript_step_latch [OF Cons.prems(1) s]
  then have "latch_inv t1" by blast
  from Cons.IH [OF this r(1)] one r(2) show ?case
    by (cases "tr_failure t"; cases "tr_failure t1") (auto simp: option_list_def)
qed (simp add: option_list_def)

end
