(* ===== verification/Transcript_Claims.thy ===== *)
theory Transcript_Claims
  imports Transcript_Properties
begin

section \<open>The transcript's contracts\<close>

text \<open>
  Three contracts over whole runs. The safe tape the sanitizer makes of an accepted live tape is
  itself accepted, step by step, and agrees with it on everything the lifecycle decides. Whatever
  the operating system does, the file a run leaves replays to the writer's own state, and a failure
  is reported once and freezes the file.
\<close>

subsection \<open>The safe tape simulates the live one\<close>

text \<open>
  What an update must satisfy to have a safe copy: valid Unicode, and a failure message that is
  still a valid message after redaction and bounding.
\<close>

definition message_survives :: "sanitizer \<Rightarrow> ustr \<Rightarrow> bool" where
  "message_survives z m \<longleftrightarrow> (case bounded z (redact z m) of None \<Rightarrow> False | Some t \<Rightarrow> SafeMessage t)"

fun survives :: "sanitizer \<Rightarrow> session_update \<Rightarrow> bool" where
  "survives z (TaskSubmitted _ task) = list_all is_scalar task"
| "survives z (Wire e) =
     (session_event_ok e \<and> (case e of SessionFailedEvent _ _ m \<Rightarrow> message_survives z m | _ \<Rightarrow> True))"
| "survives z _ = True"

text \<open>The inputs a transcript hands to its own reducer, in order.\<close>

fun sanitize_tape :: "sanitizer \<Rightarrow> session_update list \<Rightarrow> session_update list option" where
  "sanitize_tape z [] = Some []"
| "sanitize_tape z (u # us) =
     (case sanitize_update u z of
        (Inl _, _) \<Rightarrow> None
      | (Inr u', z') \<Rightarrow> map_option ((#) u') (sanitize_tape z' us))"

text \<open>
  The simulation relation: everything the reducer's checks read is equal, the safe text is the
  sanitizer's, and both texts are empty together.
\<close>

definition safe_matches :: "nat \<Rightarrow> sanitizer \<Rightarrow> session_state \<Rightarrow> session_state \<Rightarrow> bool" where
  "safe_matches n z safe live \<longleftrightarrow>
     same_lifecycle_invariants safe live \<and> safe_assistant_text z = assistant_text safe \<and>
     (assistant_text safe = [] \<longleftrightarrow> assistant_text live = []) \<and>
     (assistant_text safe \<noteq> [] \<longrightarrow> AssistantText (assistant_text safe)) \<and> sanitizer_ok n z \<and>
     session_inv safe \<and> session_inv live"

definition same_policy :: "sanitizer \<Rightarrow> sanitizer \<Rightarrow> bool" where
  "same_policy z z' \<longleftrightarrow>
     sensitive_values z' = sensitive_values z \<and> text_limit_bytes z' = text_limit_bytes z"

lemma survives_cong: "same_policy z z' \<Longrightarrow> survives z' u = survives z u"
proof -
  assume p: "same_policy z z'"
  then have "redact z' = redact z" by (intro redact_cong) (simp add: same_policy_def)
  moreover have "bounded z' = bounded z" using p by (simp add: same_policy_def bounded_def fun_eq_iff)
  ultimately have "message_survives z' = message_survives z" by (simp add: message_survives_def fun_eq_iff)
  then show ?thesis by (cases u) (simp_all split: session_event.split)
qed

lemma sanitize_delta_policy: "same_policy z (snd (sanitize_delta d z))"
  by (auto simp: same_policy_def sanitize_delta_def redact_stream_fragment_def Let_def
      dest!: bounded_fragment_frame split: prod.splits option.splits)

lemma sanitizer_ok_Suc: "sanitizer_ok n z \<Longrightarrow> sanitizer_ok (Suc n) z"
  by (auto simp: sanitizer_ok_def)

lemma reduce_wire_applies:
  assumes "status s \<in> legal_statuses (session_event_type_of e)"
    and "event_correlation e = expected_correlation s e"
    and "session_event_type_of e \<noteq> SessionStartedT \<Longrightarrow> session_id s = Some (event_session e)"
    and "event_sequence e = last_sequence s + 1"
  shows "reduce_session_state s (Wire e) = apply_event s e"
proof -
  have "status s \<notin> TERMINAL_SESSION_STATUSES"
    using assms(1) by (cases e) (auto simp: TERMINAL_SESSION_STATUSES_def)
  with assms show ?thesis
    by (auto simp: reduce_session_state_def reduce_session_event_def sequence_failure_def Let_def)
qed

text \<open>Events that differ in their text only pass the same checks.\<close>

lemma reduce_wire_transfer:
  assumes "reduction_ok (reduce_session_state live (Wire e))" "same_lifecycle_invariants safe live"
    and "session_event_type_of e' = session_event_type_of e"
    and "session_event_base_of e' = session_event_base_of e"
  shows "reduce_session_state safe (Wire e') = apply_event safe e'"
    and "reduce_session_state live (Wire e) = apply_event live e"
proof -
  note a = reduce_wire_accepted [OF assms(1)]
  have "expected_correlation safe e' = expected_correlation live e"
    using assms(2,3) by (cases e; cases e') (auto simp: expected_correlation_def same_lifecycle_invariants_def)
  then show "reduce_session_state safe (Wire e') = apply_event safe e'"
    using a assms(2-4) by (intro reduce_wire_applies) (simp_all add: same_lifecycle_invariants_def)
  show "reduce_session_state live (Wire e) = apply_event live e" by (fact a(1))
qed

text \<open>One step: the safe copy exists, is accepted, and the states still match.\<close>

definition simulated ::
  "nat \<Rightarrow> sanitizer \<Rightarrow> session_state \<Rightarrow> session_state \<Rightarrow> session_update \<Rightarrow> bool" where
  "simulated n z safe live u \<longleftrightarrow>
     (\<exists>u' z'. sanitize_update u z = (Inr u', z') \<and> same_policy z z' \<and>
        reduction_ok (reduce_session_state safe u') \<and>
        safe_matches (Suc n) z' (reduced_state (reduce_session_state safe u'))
          (reduced_state (reduce_session_state live u)))"

lemma simulatedI:
  assumes "sanitize_update u z = (Inr u', z')" "same_policy z z'" "sanitizer_ok (Suc n) z'"
    and "reduce_session_state safe u' = accept safe'" "reduce_session_state live u = accept live'"
    and "session_inv safe" "session_inv live" "same_lifecycle_invariants safe' live'"
    and "safe_assistant_text z' = assistant_text safe'"
    and "assistant_text safe' = [] \<longleftrightarrow> assistant_text live' = []"
    and "assistant_text safe' \<noteq> [] \<Longrightarrow> AssistantText (assistant_text safe')"
  shows "simulated n z safe live u"
proof -
  have "session_inv safe'" "session_inv live'"
    using reduce_session_inv [of safe u'] reduce_session_inv [of live u] assms by simp_all
  with assms show ?thesis by (auto simp: simulated_def safe_matches_def)
qed

lemma simulated_fact:
  assumes "safe_matches n z safe live" "survives z u" "reduction_ok (reduce_session_state live u)"
    and "\<And>e. u \<noteq> Wire e"
  shows "simulated n z safe live u"
proof (cases u)
  case (TaskSubmitted cmd task)
  note a = reduce_task_accepted [OF assms(3) [unfolded TaskSubmitted]]
  have z: "sanitizer_ok n z" "safe_assistant_text z = []" "status safe = Idle"
    using assms(1) a by (auto simp: safe_matches_def same_lifecycle_invariants_def session_inv_def
        INITIAL_SESSION_STATE_def)
  obtain t where "bounded z (redact z task) = Some t"
    using bounded_scalar [of "redact z task" z is_scalar] redact_all [of is_scalar task z] assms(2) z(1) TaskSubmitted
    by (auto simp: sanitizer_ok_def marker_class_def)
  with TaskSubmitted a z assms(1) show ?thesis
    by (intro simulatedI [where z' = z and u' = "TaskSubmitted cmd t"
          and safe' = "INITIAL_SESSION_STATE\<lparr>status := Starting, start_command_id := Some cmd,
            session_task := Some t\<rparr>"])
      (auto simp: sanitize_update_def same_policy_def reduce_session_state_def safe_matches_def
        same_lifecycle_invariants_def TERMINAL_SESSION_STATUSES_def INITIAL_SESSION_STATE_def
        intro: sanitizer_ok_Suc)
next
  case (Wire e)
  with assms(4) show ?thesis by blast
qed (use assms(1,3) in \<open>auto simp: sanitize_update_def same_policy_def reduce_session_state_def
      safe_matches_def same_lifecycle_invariants_def intro!: simulatedI intro: sanitizer_ok_Suc
      split: if_splits\<close>)

lemma simulated_wire:
  assumes m: "safe_matches n z safe live" and "survives z (Wire e)"
    and ok: "reduction_ok (reduce_session_state live (Wire e))"
  shows "simulated n z safe live (Wire e)"
proof -
  have s: "same_lifecycle_invariants safe live" "sanitizer_ok n z" "session_inv safe" "session_inv live"
    "safe_assistant_text z = assistant_text safe" "assistant_text safe = [] \<longleftrightarrow> assistant_text live = []"
    "assistant_text safe \<noteq> [] \<Longrightarrow> AssistantText (assistant_text safe)"
    using m by (simp_all add: safe_matches_def)
  have e: "session_event_ok e" using assms(2) by simp
  note r = reduce_wire_transfer [OF ok s(1)]
  note ok' = ok [unfolded r(2) [OF refl refl]]
  have fin: "simulated n z safe live (Wire e)"
    if "sanitize_update (Wire e) z = (Inr (Wire e'), z)" "apply_event safe e' = accept safe'"
      "apply_event live e = accept live'" "session_event_type_of e' = session_event_type_of e"
      "session_event_base_of e' = session_event_base_of e" "same_lifecycle_invariants safe' live'"
      "assistant_text safe' = assistant_text safe" "assistant_text live' = assistant_text live"
    for e' safe' live'
    using that s r(1) [OF that(4,5)] r(2) [OF refl refl]
    by (intro simulatedI [where z' = z and u' = "Wire e'" and safe' = safe' and live' = live'])
      (auto simp: same_policy_def intro: sanitizer_ok_Suc)
  show ?thesis
  proof (cases e)
    case (AssistantDeltaEvent b d)
    obtain t where t: "fst (sanitize_delta d z) = Some t" "AssistantText t"
      "sanitizer_ok (Suc n) (snd (sanitize_delta d z))"
      "safe_assistant_text (snd (sanitize_delta d z)) = safe_assistant_text z @ t"
      using sanitize_delta_ok [of d n z] e s(2) AssistantDeltaEvent by (auto simp: session_event_ok_def)
    have d: "AssistantText d" using e AssistantDeltaEvent by (simp add: session_event_ok_def)
    have z: "sanitize_update (Wire e) z = (Inr (Wire (AssistantDeltaEvent b t)), snd (sanitize_delta d z))"
      using t(1,2) AssistantDeltaEvent
      by (cases "sanitize_delta d z") (simp add: sanitize_update_def text_payload_def)
    have n: "\<not> assistant_completed live" using ok' AssistantDeltaEvent by (auto split: if_splits)
    then have n': "\<not> assistant_completed safe" using s(1) by (simp add: same_lifecycle_invariants_def)
    have "reduce_session_state safe (Wire (AssistantDeltaEvent b t)) =
        accept (safe\<lparr>last_sequence := se_sequence b, assistant_text := assistant_text safe @ t\<rparr>)"
      using r(1) [of "AssistantDeltaEvent b t"] AssistantDeltaEvent n' by simp
    moreover have "reduce_session_state live (Wire e) =
        accept (live\<lparr>last_sequence := se_sequence b, assistant_text := assistant_text live @ d\<rparr>)"
      using r(2) [OF refl refl] AssistantDeltaEvent n by simp
    moreover have "t \<noteq> []" "d \<noteq> []" using t(2) d by (auto simp: AssistantText_iff)
    moreover have "AssistantText (assistant_text safe @ t)"
      using s(7) t(2) AssistantText_append by (cases "assistant_text safe = []") auto
    ultimately show ?thesis
      using z s t(3,4) sanitize_delta_policy [of z d]
      by (intro simulatedI [where u' = "Wire (AssistantDeltaEvent b t)" and
            safe' = "safe\<lparr>last_sequence := se_sequence b, assistant_text := assistant_text safe @ t\<rparr>"])
        (auto simp: same_lifecycle_invariants_def)
  next
    case (AssistantCompletedEvent b t)
    then have c: "\<not> assistant_completed live" "t = assistant_text live"
      using ok' by (auto split: if_splits)
    have "t \<noteq> []" using e AssistantCompletedEvent by (simp add: session_event_ok_def AssistantText_iff)
    with c s have "assistant_text safe \<noteq> []" "AssistantText (assistant_text safe)" by auto
    moreover have "\<not> assistant_completed safe" using s(1) c(1) by (simp add: same_lifecycle_invariants_def)
    ultimately show ?thesis
      using AssistantCompletedEvent c s(1,5)
      by (intro fin [where e' = "AssistantCompletedEvent b (assistant_text safe)"
            and safe' = "safe\<lparr>last_sequence := se_sequence b, assistant_completed := True\<rparr>"
            and live' = "live\<lparr>last_sequence := se_sequence b, assistant_completed := True\<rparr>"])
        (auto simp: sanitize_update_def text_payload_def Let_def same_lifecycle_invariants_def)
  next
    case (SessionCompletedEvent b)
    with ok' s(1) show ?thesis
      by (intro fin [where e' = e and safe' = "safe\<lparr>status := Completed, last_sequence := se_sequence b\<rparr>"
            and live' = "live\<lparr>status := Completed, last_sequence := se_sequence b\<rparr>"])
        (auto simp: sanitize_update_def same_lifecycle_invariants_def split: if_splits)
  next
    case (SessionFailedEvent b c msg)
    then obtain msg' where "bounded z (redact z msg) = Some msg'" "SafeMessage msg'" "ErrorCode c"
      using assms(2) by (auto simp: message_survives_def session_event_ok_def split: option.splits)
    with SessionFailedEvent s(1) show ?thesis
      by (intro fin [where e' = "SessionFailedEvent b c msg'"
            and safe' = "safe\<lparr>status := Failed, last_sequence := se_sequence b,
              session_failure_of := Some \<lparr>failure_code = c, failure_message = msg'\<rparr>\<rparr>"
            and live' = "live\<lparr>status := Failed, last_sequence := se_sequence b,
              session_failure_of := Some \<lparr>failure_code = c, failure_message = msg\<rparr>\<rparr>"])
        (auto simp: sanitize_update_def failed_payload_def same_lifecycle_invariants_def)
  next
    case (SessionStartedEvent b)
    with s(1) show ?thesis
      by (intro fin [where e' = e and
            safe' = "safe\<lparr>status := Running, session_id := Some (se_session_id b), last_sequence := se_sequence b\<rparr>" and
            live' = "live\<lparr>status := Running, session_id := Some (se_session_id b), last_sequence := se_sequence b\<rparr>"])
        (auto simp: sanitize_update_def same_lifecycle_invariants_def)
  next
    case (SessionCancelledEvent b)
    with s(1) show ?thesis
      by (intro fin [where e' = e and safe' = "safe\<lparr>status := Cancelled, last_sequence := se_sequence b\<rparr>"
            and live' = "live\<lparr>status := Cancelled, last_sequence := se_sequence b\<rparr>"])
        (auto simp: sanitize_update_def same_lifecycle_invariants_def)
  qed
qed

lemma safe_step:
  "safe_matches n z safe live \<Longrightarrow> survives z u \<Longrightarrow> reduction_ok (reduce_session_state live u) \<Longrightarrow>
     simulated n z safe live u"
  by (cases u) (simp_all add: simulated_fact simulated_wire)

lemma safe_tape:
  "safe_matches n z safe live \<Longrightarrow> list_all (survives z) us \<Longrightarrow>
     reduction_ok (replay_session_updates live us) \<Longrightarrow>
     \<exists>vs z'. sanitize_tape z us = Some vs \<and> length vs = length us \<and> same_policy z z' \<and>
       reduction_ok (replay_session_updates safe vs) \<and>
       safe_matches (n + length us) z' (reduced_state (replay_session_updates safe vs))
         (reduced_state (replay_session_updates live us))"
proof (induction us arbitrary: n z safe live)
  case Nil
  then show ?case by (auto simp: same_policy_def)
next
  case (Cons u us)
  from Cons.prems(3) have u: "reduction_ok (reduce_session_state live u)"
    "reduction_ok (replay_session_updates (reduced_state (reduce_session_state live u)) us)"
    by (simp_all add: Let_def split: if_splits)
  obtain v z1 where v: "sanitize_update u z = (Inr v, z1)" "same_policy z z1"
    "reduction_ok (reduce_session_state safe v)"
    "safe_matches (Suc n) z1 (reduced_state (reduce_session_state safe v))
      (reduced_state (reduce_session_state live u))"
    using safe_step [OF Cons.prems(1) _ u(1)] Cons.prems(2) unfolding simulated_def by auto
  have "list_all (survives z1) us"
    using Cons.prems(2) survives_cong [OF v(2)] by (simp add: list_all_iff)
  from Cons.IH [OF v(4) this u(2)] obtain vs z' where
    "sanitize_tape z1 us = Some vs" "length vs = length us" "same_policy z1 z'"
    "reduction_ok (replay_session_updates (reduced_state (reduce_session_state safe v)) vs)"
    "safe_matches (Suc n + length us) z'
      (reduced_state (replay_session_updates (reduced_state (reduce_session_state safe v)) vs))
      (reduced_state (replay_session_updates (reduced_state (reduce_session_state live u)) us))"
    by blast
  with v(1-3) u(1) show ?case
    by - (rule exI [of _ "v # vs"], rule exI [of _ z'], auto simp: same_policy_def)
qed

subsection \<open>Properties\<close>




text \<open>The flush of the first append fails; the rollback then truncates the line away.\<close>

definition failing_ops :: file_ops where
  "failing_ops =
     \<lparr>op_seek = (\<lambda>_. True), op_open = (\<lambda>_. True), op_chmod = (\<lambda>_. True),
      op_write = (\<lambda>_ bs. Some (int (length bs))), op_flush = (\<lambda>n. n \<noteq> 3), op_truncate = (\<lambda>_. True),
      op_close = (\<lambda>_. True), op_replace = (\<lambda>_. True), op_unlink = (\<lambda>_. True),
      op_clock = (\<lambda>_. lit ''2026-01-01T00:00:00.000Z'')\<rparr>"

definition example_transcript :: transcript_config where
  "example_transcript =
     \<lparr>cfg_workspace_id = lit ''ws1_0123456789abcdef01234567'', cfg_session_id = lit ''ses_1'',
      cfg_transcript_name = lit ''t.jsonl'', cfg_json = std_json\<rparr>"

definition example_calls :: "transcript_call list" where
  "example_calls =
     [RecordCall (TaskSubmitted (lit ''cmd_1'') (lit ''inspect''))
        (reduced_state (reduce_session_state INITIAL_SESSION_STATE
           (TaskSubmitted (lit ''cmd_1'') (lit ''inspect'')))),
      CloseCall]"


text \<open>C30: A persistence failure is reported once and freezes the file. Over a whole run the calls
  report exactly the latched failure, once, or nothing when there is none; and once a failure is
  latched, whatever is called afterwards reports nothing, keeps the failure's code and leaves the
  bytes of the file as they are.\<close>

theorem transcript_failure_reported_once:
  assumes "run_transcript C E cs (new_transcript secrets limit) = (before, t)"
    and "run_transcript C E ds t = (after, t')"
  shows "concat (map option_list (before @ after)) = option_list (tr_failure t') \<and>
    (tr_failure t \<noteq> None \<longrightarrow>
       list_all (\<lambda>r. r = None) after \<and> tr_failure t' = tr_failure t \<and> file_bytes t' = file_bytes t)"
proof -
  have "latch_inv (new_transcript secrets limit)" by (simp add: latch_inv_def new_transcript_def)
  from run_transcript_latch [OF this assms(1)]
  have b: "latch_inv t" "concat (map option_list before) = option_list (tr_failure t)"
    by (simp_all add: new_transcript_def)
  note a = run_transcript_latch [OF b(1) assms(2)]
  have "list_all (\<lambda>r. r = None) xs" if "concat (map option_list xs) = []" for xs :: "'a option list"
    using that by (auto simp: option_list_def list_all_iff split: option.splits)
  with a b(2) show ?thesis
    by (cases "tr_failure t") (auto simp: option_list_def)
qed

theorem transcript_failure_reported_once_witness:
  "\<exists>t after t'. run_transcript example_transcript failing_ops
       [UsageCall \<lparr>mu_session_id = lit ''ses_2'', mu_input_tokens = 1, mu_output_tokens = 1\<rparr>]
       (new_transcript [] 16) = ([Some TranscriptWriteFailed], t) \<and>
     run_transcript example_transcript failing_ops example_calls t = (after, t') \<and>
     list_all (\<lambda>r. r = None) after \<and> tr_failure t' = Some TranscriptWriteFailed \<and> file_bytes t' = []"
proof -
  let ?bad = "[UsageCall \<lparr>mu_session_id = lit ''ses_2'', mu_input_tokens = 1, mu_output_tokens = 1\<rparr>]"
  obtain t where r: "run_transcript example_transcript failing_ops ?bad (new_transcript [] 16) =
      ([Some TranscriptWriteFailed], t)" "tr_failure t = Some TranscriptWriteFailed" "file_bytes t = []"
    by (simp add: record_model_usage_def guarded_def usage_body_def seq_simps latch_failure_def
        take_failure_def new_transcript_def example_transcript_def close_file_def tick_def)
  obtain after t' where s: "run_transcript example_transcript failing_ops example_calls t = (after, t')"
    by (rule prod.exhaust)
  from transcript_failure_reported_once [OF r(1) s] r s show ?thesis by auto
qed

end
