(* ===== verification/Transcript_Creation.thy ===== *)
theory Transcript_Creation
  imports Transcript_Replay Workspace
begin

section \<open>Where a transcript is created (persistence/transcript.py, fifth part)\<close>

text \<open>
  \<open>TranscriptSettings\<close> and \<open>SessionTranscript.create\<close>: the state directory, the check that it lies
  outside the workspace, the private directories and the exclusive file. Every question to the
  operating system and every change it makes is one entry of a log, and the answers
  (\<open>creation_env\<close>) are arbitrary functions of the log so far, so the file system may change between
  two calls. A path is the list of its \<open>Path.parts\<close>: the anchor of an absolute path comes first.
\<close>

subsection \<open>Settings\<close>

type_synonym path_parts = "ustr list"

definition parts_of :: "ustr \<Rightarrow> path_parts" where
  "parts_of text =
     (if starts_with text (lit ''///'') then [lit ''/'']
      else if starts_with text (lit ''//'') then [lit ''//'']
      else if starts_with text (lit ''/'') then [lit ''/''] else []) @ significant text"

definition is_absolute :: "path_parts \<Rightarrow> bool" where
  "is_absolute p \<longleftrightarrow> (case p of [] \<Rightarrow> False | a # _ \<Rightarrow> a = lit ''/'' \<or> a = lit ''//'')"

record transcript_settings =
  state_directory :: path_parts
  settings_sensitive_values :: "ustr list"
  settings_text_limit :: int

definition APPLICATION_DIRECTORY :: ustr where "APPLICATION_DIRECTORY = lit ''code-assist-harness''"

definition TRANSCRIPT_DIRECTORY :: ustr where "TRANSCRIPT_DIRECTORY = lit ''transcripts''"

definition TranscriptSettings :: "path_parts \<Rightarrow> ustr list \<Rightarrow> int \<Rightarrow> py_error + transcript_settings" where
  "TranscriptSettings directory secrets limit =
     (if limit \<le> int (length (utf8_bytes TRUNCATION_MARKER))
      then Inl (ValueError ''transcript text limit must leave room for its truncation marker'')
      else Inr \<lparr>state_directory = directory, settings_sensitive_values = secrets, settings_text_limit = limit\<rparr>)"

text \<open>\<open>home\<close> is the given home, or what \<open>Path.home()\<close> returns; \<open>uc\<close> is the table of \<open>str.upper\<close>.\<close>

definition from_environment ::
  "(nat \<Rightarrow> ustr) \<Rightarrow> (ustr \<times> ustr) list \<Rightarrow> (py_error + path_parts) \<Rightarrow> int \<Rightarrow> py_error + transcript_settings" where
  "from_environment uc environment home limit =
     (if limit \<le> int (length (utf8_bytes TRUNCATION_MARKER))
      then Inl (ValueError ''transcript text limit must leave room for its truncation marker'')
      else
        and_then
          (case map_of environment (lit ''XDG_STATE_HOME'') of
             Some configured \<Rightarrow>
               if configured \<noteq> [] \<and> is_absolute (parts_of configured) then Inr (parts_of configured)
               else and_then home (\<lambda>h. Inr (h @ [lit ''.local'', lit ''state'']))
           | None \<Rightarrow> and_then home (\<lambda>h. Inr (h @ [lit ''.local'', lit ''state''])))
          (\<lambda>state_root. TranscriptSettings (state_root @ [APPLICATION_DIRECTORY])
             (configured_sensitive_values uc environment) limit))"

subsection \<open>The operating system\<close>

datatype creation_call =
    ResolvePart bool path_parts
  | ExpandUser path_parts
  | NewTranscriptId
  | MakeDirectories path_parts
  | TestSymlink path_parts
  | TestDirectory path_parts
  | MakePrivate path_parts
  | OpenExclusive path_parts
  | MakeFilePrivate path_parts
  | CloseDescriptor

record creation_env =
  ce_resolve :: "creation_call list \<Rightarrow> bool \<Rightarrow> path_parts \<Rightarrow> path_parts option"
  ce_expanduser :: "creation_call list \<Rightarrow> path_parts \<Rightarrow> path_parts option"
  ce_transcript_id :: "creation_call list \<Rightarrow> ustr"
  ce_is_symlink :: "creation_call list \<Rightarrow> path_parts \<Rightarrow> bool"
  ce_is_directory :: "creation_call list \<Rightarrow> path_parts \<Rightarrow> bool"
  ce_succeeds :: "creation_call list \<Rightarrow> creation_call \<Rightarrow> bool"
  ce_sha256 :: "ustr \<Rightarrow> ustr"

type_synonym 'a creating = "(transcript_exception, creation_call list, 'a) effect"

text \<open>A question and its answer, and a change that raises or happens.\<close>

definition inquire :: "creation_call \<Rightarrow> (creation_call list \<Rightarrow> 'a) \<Rightarrow> 'a creating" where
  "inquire c answer = (\<lambda>log. (Inr (answer log), log @ [c]))"

definition or_oserror :: "'a option creating \<Rightarrow> 'a creating" where
  "or_oserror m = seq m (\<lambda>v. case v of None \<Rightarrow> raise OtherError | Some x \<Rightarrow> ret x)"

definition change :: "creation_env \<Rightarrow> creation_call \<Rightarrow> unit creating" where
  "change E c = seq (inquire c (\<lambda>log. ce_succeeds E log c)) (\<lambda>ok. if ok then ret () else raise OtherError)"

definition resolve_part :: "creation_env \<Rightarrow> bool \<Rightarrow> path_parts \<Rightarrow> path_parts creating" where
  "resolve_part E strict p = or_oserror (inquire (ResolvePart strict p) (\<lambda>log. ce_resolve E log strict p))"

subsection \<open>Creation\<close>

definition ensure_private_directory :: "creation_env \<Rightarrow> path_parts \<Rightarrow> unit creating" where
  "ensure_private_directory E p =
     next_do (change E (MakeDirectories p))
       (seq (inquire (TestSymlink p) (\<lambda>log. ce_is_symlink E log p)) (\<lambda>link.
        if link then raise OtherError
        else seq (inquire (TestDirectory p) (\<lambda>log. ce_is_directory E log p)) (\<lambda>directory.
          if \<not> directory then raise OtherError else change E (MakePrivate p))))"

text \<open>A failing \<open>close\<close> in the handler raises \<open>OSError\<close> as well.\<close>

definition create_transcript_file ::
  "creation_env \<Rightarrow> path_parts \<Rightarrow> path_parts \<Rightarrow> path_parts \<Rightarrow> unit creating" where
  "create_transcript_file E state_dir transcript_dir path =
     next_do (ensure_private_directory E state_dir)
       (next_do (ensure_private_directory E transcript_dir)
         (next_do (change E (OpenExclusive path))
           (seq (attempt (change E (MakeFilePrivate path))) (\<lambda>r.
              case r of
                Inr _ \<Rightarrow> ret ()
              | Inl e \<Rightarrow> next_do (change E CloseDescriptor) (raise e)))))"

definition validated_transcript_id :: "ustr \<Rightarrow> transcript_exception + ustr" where
  "validated_transcript_id v =
     (if 8 \<le> length v \<and> length v \<le> 64 \<and> list_all is_id_char v then Inr v else Inl OtherError)"

definition path_text :: "path_parts \<Rightarrow> ustr" where
  "path_text p =
     (case p of [] \<Rightarrow> lit ''.'' | a # rest \<Rightarrow>
        if is_absolute p then a @ py_join (lit ''/'') rest else py_join (lit ''/'') p)"

record created_transcript =
  cr_directory :: path_parts
  cr_path :: path_parts
  cr_summary_path :: path_parts
  cr_config :: transcript_config
  cr_transcript :: transcript

definition transcript_basename :: "ustr \<Rightarrow> ustr \<Rightarrow> ustr \<Rightarrow> ustr" where
  "transcript_basename ws sid tid = ws @ lit ''--'' @ sid @ lit ''--tr_'' @ tid"

definition create_unchecked ::
  "creation_env \<Rightarrow> json_lib \<Rightarrow> transcript_settings \<Rightarrow> path_parts \<Rightarrow> ustr \<Rightarrow> created_transcript creating" where
  "create_unchecked E J st ws sid =
     seq (resolve_part E True ws) (\<lambda>resolved_workspace.
     seq (or_oserror (inquire (ExpandUser (state_directory st)) (\<lambda>log. ce_expanduser E log (state_directory st)))) (\<lambda>configured.
     seq (resolve_part E False configured) (\<lambda>resolved_state.
     if prefix resolved_workspace resolved_state then raise OtherError
     else
       seq (or_oserror (inquire (ResolvePart True resolved_workspace)
              (\<lambda>log. stable_workspace_id (ce_sha256 E)
                 (map_option path_text (ce_resolve E log True resolved_workspace))))) (\<lambda>ws_id.
       if \<not> SessionId sid then raise OtherError
       else
         seq (inquire NewTranscriptId (ce_transcript_id E)) (\<lambda>candidate.
         seq (lift_result (validated_transcript_id candidate)) (\<lambda>tid.
         let transcript_dir = configured @ [TRANSCRIPT_DIRECTORY];
             basename = transcript_basename ws_id sid tid;
             name = basename @ lit ''.jsonl'' in
         next_do (create_transcript_file E configured transcript_dir (transcript_dir @ [name]))
           (ret \<lparr>cr_directory = transcript_dir, cr_path = transcript_dir @ [name],
                 cr_summary_path = transcript_dir @ [basename @ lit ''.summary.txt''],
                 cr_config = \<lparr>cfg_workspace_id = ws_id, cfg_session_id = sid,
                              cfg_transcript_name = name, cfg_json = J\<rparr>,
                 cr_transcript = new_transcript (settings_sensitive_values st) (settings_text_limit st)\<rparr>)))))))"

definition create_transcript ::
  "creation_env \<Rightarrow> json_lib \<Rightarrow> transcript_settings \<Rightarrow> path_parts \<Rightarrow> ustr \<Rightarrow> created_transcript creating" where
  "create_transcript E J st ws sid =
     rethrow (\<lambda>_. PersistenceError TranscriptOpenFailed) (create_unchecked E J st ws sid)"

subsection \<open>Where the changes happen\<close>

fun changed_path :: "creation_call \<Rightarrow> path_parts option" where
  "changed_path (MakeDirectories p) = Some p"
| "changed_path (MakePrivate p) = Some p"
| "changed_path (OpenExclusive p) = Some p"
| "changed_path (MakeFilePrivate p) = Some p"
| "changed_path _ = None"

lemmas creation_simps =
  seq_simps inquire_def or_oserror_def change_def resolve_part_def ensure_private_directory_def
  create_transcript_file_def rethrow_def attempt_def

definition directory_calls :: "path_parts \<Rightarrow> creation_call list" where
  "directory_calls p = [MakeDirectories p, TestSymlink p, TestDirectory p, MakePrivate p]"

lemma ensure_private_directory_cases:
  obtains (made) "ensure_private_directory E p l = (Inr (), l @ directory_calls p)"
  | (failed) k where "ensure_private_directory E p l = (Inl OtherError, l @ take k (directory_calls p))"
proof (cases "ce_succeeds E l (MakeDirectories p)")
  case False
  then show thesis by (intro failed [of 1]) (simp add: creation_simps directory_calls_def)
next
  case a: True
  show thesis
  proof (cases "ce_is_symlink E (l @ [MakeDirectories p]) p")
    case True
    with a show thesis by (intro failed [of 2]) (simp add: creation_simps directory_calls_def)
  next
    case b: False
    show thesis
    proof (cases "ce_is_directory E (l @ [MakeDirectories p, TestSymlink p]) p")
      case False
      with a b show thesis by (intro failed [of 3]) (simp add: creation_simps directory_calls_def)
    next
      case c: True
      show thesis
      proof (cases "ce_succeeds E (l @ [MakeDirectories p, TestSymlink p, TestDirectory p]) (MakePrivate p)")
        case True
        with a b c show thesis by (intro made) (simp add: creation_simps directory_calls_def)
      next
        case False
        with a b c show thesis by (intro failed [of 4]) (simp add: creation_simps directory_calls_def)
      qed
    qed
  qed
qed

definition file_calls :: "path_parts \<Rightarrow> path_parts \<Rightarrow> path_parts \<Rightarrow> creation_call list" where
  "file_calls d t p = directory_calls d @ directory_calls t @ [OpenExclusive p, MakeFilePrivate p]"

lemma create_transcript_file_cases:
  obtains (created) "create_transcript_file E d t p l = (Inr (), l @ file_calls d t p)"
  | (stopped) k where "create_transcript_file E d t p l = (Inl OtherError, l @ take k (file_calls d t p))" "k < 10"
  | (closed) "create_transcript_file E d t p l = (Inl OtherError, l @ file_calls d t p @ [CloseDescriptor])"
proof (cases rule: ensure_private_directory_cases [of E d l])
  case (failed k)
  have "take (min 4 k) (file_calls d t p) = take k (directory_calls d)"
    by (simp add: file_calls_def directory_calls_def take_Cons' min_def)
  with failed(1) show thesis
    by (intro stopped [of "min 4 k"]) (simp_all add: create_transcript_file_def seq_simps)
next
  case made
  note d = made
  show thesis
  proof (cases rule: ensure_private_directory_cases [of E t "l @ directory_calls d"])
    case (failed k)
    have "take (4 + min 4 k) (file_calls d t p) = directory_calls d @ take k (directory_calls t)"
      by (simp add: file_calls_def directory_calls_def take_Cons' min_def)
    with failed(1) d show thesis
      by (intro stopped [of "4 + min 4 k"]) (simp_all add: create_transcript_file_def seq_simps)
  next
    case made
    let ?l = "l @ directory_calls d @ directory_calls t"
    show thesis
    proof (cases "ce_succeeds E ?l (OpenExclusive p)")
      case False
      with d made show thesis
        by (intro stopped [of 9]) (simp_all add: create_transcript_file_def seq_simps change_def inquire_def file_calls_def directory_calls_def)
    next
      case True
      show thesis
      proof (cases "ce_succeeds E (?l @ [OpenExclusive p]) (MakeFilePrivate p)")
        case True
        with d made \<open>ce_succeeds E ?l (OpenExclusive p)\<close> show thesis
          by (intro created) (simp add: create_transcript_file_def seq_simps change_def inquire_def attempt_def file_calls_def)
      next
        case False
        with d made \<open>ce_succeeds E ?l (OpenExclusive p)\<close> show thesis
          by (intro closed) (simp add: create_transcript_file_def seq_simps change_def inquire_def attempt_def file_calls_def)
      qed
    qed
  qed
qed

definition creation_questions :: "path_parts \<Rightarrow> path_parts \<Rightarrow> path_parts \<Rightarrow> path_parts \<Rightarrow> creation_call list" where
  "creation_questions ws st D W =
     [ResolvePart True ws, ExpandUser st, ResolvePart False D, ResolvePart True W, NewTranscriptId]"

text \<open>What the questions found out before anything is changed.\<close>

definition located ::
  "creation_env \<Rightarrow> path_parts \<Rightarrow> path_parts \<Rightarrow> creation_call list \<Rightarrow> path_parts \<Rightarrow> path_parts \<Rightarrow> bool" where
  "located E ws st l W D \<longleftrightarrow>
     ce_resolve E l True ws = Some W \<and> ce_expanduser E (l @ [ResolvePart True ws]) st = Some D \<and>
     (\<exists>R. ce_resolve E (l @ [ResolvePart True ws, ExpandUser st]) False D = Some R \<and> \<not> prefix W R)"

definition transcript_file_name :: "ustr \<Rightarrow> ustr \<Rightarrow> bool" where
  "transcript_file_name sid name \<longleftrightarrow>
     (\<exists>digest tid. name = transcript_basename (lit ''ws1_'' @ digest) sid tid @ lit ''.jsonl'' \<and>
        length digest \<le> 24 \<and> list_all is_hex_char digest \<and> 8 \<le> length tid \<and> length tid \<le> 64 \<and>
        list_all is_id_char tid)"

lemma create_unchecked_cases:
  assumes "\<And>s. list_all is_hex_char (ce_sha256 E s)"
  obtains (refused) k D W where
      "create_unchecked E J st ws sid l = (Inl OtherError, l @ take k (creation_questions ws (state_directory st) D W))"
  | (admitted) W D name a where "located E ws (state_directory st) l W D"
      "transcript_file_name sid name" "SessionId sid"
      "create_unchecked E J st ws sid l =
         next_do (create_transcript_file E D (D @ [TRANSCRIPT_DIRECTORY]) (D @ [TRANSCRIPT_DIRECTORY, name]))
           (ret a) (l @ creation_questions ws (state_directory st) D W)"
      "cr_path a = D @ [TRANSCRIPT_DIRECTORY, name]" "cfg_session_id (cr_config a) = sid"
      "cfg_transcript_name (cr_config a) = name" "cfg_json (cr_config a) = J"
      "cr_transcript a = new_transcript (settings_sensitive_values st) (settings_text_limit st)"
proof (cases "ce_resolve E l True ws")
  case None
  then show thesis by (intro refused [of 1]) (simp add: create_unchecked_def creation_simps creation_questions_def)
next
  case W: (Some W)
  let ?st = "state_directory st" and ?l1 = "l @ [ResolvePart True ws]"
  show thesis
  proof (cases "ce_expanduser E ?l1 ?st")
    case None
    with W show thesis
      by (intro refused [of 2]) (simp add: create_unchecked_def creation_simps creation_questions_def)
  next
    case D: (Some D)
    let ?l2 = "l @ [ResolvePart True ws, ExpandUser ?st]"
    show thesis
    proof (cases "ce_resolve E ?l2 False D")
      case None
      with W D show thesis
        by (intro refused [of 3 D]) (simp add: create_unchecked_def creation_simps creation_questions_def)
    next
      case R: (Some R)
      show thesis
      proof (cases "prefix W R")
        case True
        with W D R show thesis
          by (intro refused [of 3 D]) (simp add: create_unchecked_def creation_simps creation_questions_def)
      next
        case out: False
        let ?l3 = "l @ [ResolvePart True ws, ExpandUser ?st, ResolvePart False D]"
        show thesis
        proof (cases "ce_resolve E ?l3 True W")
          case None
          with W D R out show thesis
            by (intro refused [of 4 D W])
              (simp add: create_unchecked_def creation_simps creation_questions_def stable_workspace_id_def)
        next
          case W': (Some W')
          let ?id = "lit ''ws1_'' @ take 24 (ce_sha256 E (path_text W'))"
          let ?l4 = "l @ [ResolvePart True ws, ExpandUser ?st, ResolvePart False D, ResolvePart True W]"
          let ?tid = "ce_transcript_id E ?l4"
          show thesis
          proof (cases "SessionId sid")
            case False
            with W D R out W' show thesis
              by (intro refused [of 4 D W])
                (simp add: create_unchecked_def creation_simps creation_questions_def stable_workspace_id_def)
          next
            case sid: True
            show thesis
            proof (cases "validated_transcript_id ?tid")
              case (Inl e)
              then have "e = OtherError" by (simp add: validated_transcript_id_def split: if_splits)
              with Inl W D R out W' sid show thesis
                by (intro refused [of 5 D W])
                  (simp add: create_unchecked_def creation_simps creation_questions_def stable_workspace_id_def)
            next
              case (Inr tid)
              let ?name = "transcript_basename ?id sid tid @ lit ''.jsonl''"
              have t: "transcript_file_name sid ?name"
                using Inr assms [of "path_text W'"] unfolding transcript_file_name_def
                by (intro exI [of _ "take 24 (ce_sha256 E (path_text W'))"] exI [of _ tid])
                   (auto simp: validated_transcript_id_def list_all_take split: if_splits)
              show thesis
              proof (rule admitted [of W D ?name])
                show "located E ws ?st l W D" using W D R out by (simp add: located_def)
                show "create_unchecked E J st ws sid l =
                  next_do (create_transcript_file E D (D @ [TRANSCRIPT_DIRECTORY]) (D @ [TRANSCRIPT_DIRECTORY, ?name]))
                    (ret \<lparr>cr_directory = D @ [TRANSCRIPT_DIRECTORY], cr_path = D @ [TRANSCRIPT_DIRECTORY, ?name],
                       cr_summary_path = D @ [TRANSCRIPT_DIRECTORY, transcript_basename ?id sid tid @ lit ''.summary.txt''],
                       cr_config = \<lparr>cfg_workspace_id = ?id, cfg_session_id = sid,
                                    cfg_transcript_name = ?name, cfg_json = J\<rparr>,
                       cr_transcript = new_transcript (settings_sensitive_values st) (settings_text_limit st)\<rparr>)
                    (l @ creation_questions ws ?st D W)"
                  using Inr W D R out W' sid
                  by (simp add: create_unchecked_def seq_simps inquire_def or_oserror_def resolve_part_def
                      creation_questions_def stable_workspace_id_def Let_def del: lit_simps)
              qed (use t sid in simp_all)
            qed
          qed
        qed
      qed
    qed
  qed
qed

lemma transcript_file_name_proper:
  assumes "transcript_file_name sid name" "SessionId sid"
  shows "proper_name name"
proof -
  from assms(1) obtain digest tid where n: "name = transcript_basename (lit ''ws1_'' @ digest) sid tid @ lit ''.jsonl''"
    "list_all is_hex_char digest" "list_all is_id_char tid" by (auto simp: transcript_file_name_def)
  have s: "47 \<notin> set sid"
  proof -
    have "take 4 sid = lit ''ses_''"
      using assms(2) by (simp add: SessionId_def tagged_id_def starts_with_def Let_def eval_nat_numeral)
    then have "47 \<notin> set (take 4 sid)" by simp
    moreover have "47 \<notin> set (drop 4 sid)"
      using assms(2) by (auto simp: SessionId_def tagged_id_def Let_def list_all_iff is_id_char_def is_lower_def
          is_upper_def is_digit_def eval_nat_numeral)
    moreover have "set sid = set (take 4 sid) \<union> set (drop 4 sid)"
      by (metis append_take_drop_id set_append)
    ultimately show ?thesis by blast
  qed
  have "47 \<notin> set digest" "47 \<notin> set tid"
    using n(2,3) by (auto simp: list_all_iff is_hex_char_def is_id_char_def is_lower_def is_upper_def is_digit_def)
  with s n(1) show ?thesis by (simp add: proper_name_def transcript_basename_def)
qed

lemma file_calls_changes:
  "c \<in> set (file_calls D t p) \<Longrightarrow> changed_path c = Some q \<Longrightarrow> q \<in> {D, t, p}"
  by (auto simp: file_calls_def directory_calls_def)

lemma questions_change_nothing: "c \<in> set (creation_questions ws st D W) \<Longrightarrow> changed_path c = None"
  by (auto simp: creation_questions_def)

text \<open>What a call changes, if anything, lies in the admitted state directory.\<close>

definition change_confined :: "creation_env \<Rightarrow> path_parts \<Rightarrow> path_parts \<Rightarrow> creation_call list \<Rightarrow> creation_call \<Rightarrow> bool" where
  "change_confined E ws st l c \<longleftrightarrow>
     (case changed_path c of
        None \<Rightarrow> True
      | Some p \<Rightarrow>
          (\<exists>W D name. located E ws st l W D \<and> proper_name name \<and>
             p \<in> {D, D @ [TRANSCRIPT_DIRECTORY], D @ [TRANSCRIPT_DIRECTORY, name]}))"

subsection \<open>An example\<close>

text \<open>A home outside the workspace \<open>/w\<close>, and a state directory that turns out to be a link into it.\<close>

definition example_creation :: "bool \<Rightarrow> creation_env" where
  "example_creation inside =
     \<lparr>ce_resolve = (\<lambda>l strict p. Some (if p = [lit ''/'', lit ''w''] then p
                       else if inside then [lit ''/'', lit ''w'', lit ''s''] else p)),
      ce_expanduser = (\<lambda>l p. Some p), ce_transcript_id = (\<lambda>l. lit ''0123abcd''),
      ce_is_symlink = (\<lambda>l p. False), ce_is_directory = (\<lambda>l p. True), ce_succeeds = (\<lambda>l c. True),
      ce_sha256 = (\<lambda>s. lit ''00ff'')\<rparr>"

definition example_settings :: transcript_settings where
  "example_settings = \<lparr>state_directory = [lit ''/'', lit ''h''], settings_sensitive_values = [], settings_text_limit = 16\<rparr>"

lemma example_created:
  "\<exists>a. create_transcript (example_creation False) J example_settings [lit ''/'', lit ''w''] (lit ''ses_a'') [] =
     (Inr a, creation_questions [lit ''/'', lit ''w''] [lit ''/'', lit ''h''] [lit ''/'', lit ''h''] [lit ''/'', lit ''w''] @
       file_calls [lit ''/'', lit ''h''] [lit ''/'', lit ''h'', lit ''transcripts'']
         [lit ''/'', lit ''h'', lit ''transcripts'', lit ''ws1_00ff--ses_a--tr_0123abcd.jsonl''])"
  by (simp add: create_transcript_def create_unchecked_def creation_simps example_creation_def example_settings_def
      creation_questions_def file_calls_def directory_calls_def stable_workspace_id_def Let_def
      validated_transcript_id_def is_id_char_def is_lower_def is_upper_def is_digit_def SessionId_def tagged_id_def
      starts_with_def transcript_basename_def TRANSCRIPT_DIRECTORY_def)

lemma example_inside_refused:
  "create_transcript (example_creation True) J example_settings [lit ''/'', lit ''w''] (lit ''ses_a'') [] =
     (Inl (PersistenceError TranscriptOpenFailed),
      [ResolvePart True [lit ''/'', lit ''w''], ExpandUser [lit ''/'', lit ''h''], ResolvePart False [lit ''/'', lit ''h'']])"
  by (simp add: create_transcript_def create_unchecked_def creation_simps example_creation_def example_settings_def)

subsection \<open>Claim\<close>



end
