(* ===== verification/OpenAI_Config.thy ===== *)
theory OpenAI_Config
  imports Py_Text
begin

section \<open>SDK-free provider selection (provider/openai_config.py)\<close>

text \<open>
  The provider and model given on the command line, and the environment, become either the mock
  (no configuration) or a validated configuration of the OpenAI adapter. Every rejection is one of
  five fixed messages. The environment is the list of its names and values. The category table of
  \<open>unicodedata\<close> is the parameter \<open>category_other\<close>: whether a code point's category starts with C.
\<close>

subsection \<open>Constants\<close>

definition SUPPORTED_OPENAI_TEXT_STREAM_MODELS :: "ustr list" where
  "SUPPORTED_OPENAI_TEXT_STREAM_MODELS = [lit ''gpt-5.6-luna'']"

definition OPENAI_API_KEY_NAME :: ustr where "OPENAI_API_KEY_NAME = lit ''OPENAI_API_KEY''"
definition SUPPORTED_PROVIDERS :: "ustr list" where
  "SUPPORTED_PROVIDERS = [lit ''mock'', lit ''openai'']"
definition DEFAULT_PROVIDER :: ustr where "DEFAULT_PROVIDER = lit ''mock''"

text \<open>\<open>ProviderConfigurationError\<close> with its fixed message.\<close>

datatype configuration_error =
    UnsupportedOpenAIModel | UnsupportedProvider | ModelForMock | OpenAIModelRequired
  | UnsupportedOpenAIEnvironment | InvalidOpenAIApiKey

fun configuration_message :: "configuration_error \<Rightarrow> string" where
  "configuration_message UnsupportedOpenAIModel = ''Unsupported OpenAI model. Use gpt-5.6-luna.''"
| "configuration_message UnsupportedProvider = ''--provider must be either mock or openai.''"
| "configuration_message ModelForMock = ''--model is supported only with --provider openai.''"
| "configuration_message OpenAIModelRequired = ''--provider openai requires --model MODEL.''"
| "configuration_message UnsupportedOpenAIEnvironment =
     ''Unsupported OpenAI or TLS key-logging configuration is present. Remove every OPENAI_* variable except OPENAI_API_KEY and remove SSLKEYLOGFILE.''"
| "configuration_message InvalidOpenAIApiKey =
     ''OPENAI_API_KEY is required and must be a valid local credential.''"

record openai_configuration =
  oc_model :: ustr
  oc_api_key :: ustr

subsection \<open>Validation\<close>

definition is_bounded_visible_utf8 :: "(nat \<Rightarrow> bool) \<Rightarrow> py_object \<Rightarrow> nat \<Rightarrow> bool" where
  "is_bounded_visible_utf8 category_other value maximum_bytes =
     (case value of
        PyStr s \<Rightarrow>
          (case utf8_encode s of
             None \<Rightarrow> False
           | Some encoded \<Rightarrow>
               if \<not> (1 \<le> length encoded \<and> length encoded \<le> maximum_bytes) then False
               else \<not> list_ex (\<lambda>c. is_py_space c \<or> category_other c) s)
      | _ \<Rightarrow> False)"

definition validate_provider_name :: "py_object \<Rightarrow> configuration_error + ustr" where
  "validate_provider_name value =
     (case value of
        PyStr s \<Rightarrow> if s \<in> set SUPPORTED_PROVIDERS then Inr s else Inl UnsupportedProvider
      | _ \<Rightarrow> Inl UnsupportedProvider)"

definition validate_openai_model :: "(nat \<Rightarrow> bool) \<Rightarrow> py_object \<Rightarrow> configuration_error + ustr" where
  "validate_openai_model category_other value =
     (if \<not> is_bounded_visible_utf8 category_other value 256 then Inl UnsupportedOpenAIModel
      else case value of
             PyStr s \<Rightarrow>
               if s \<in> set SUPPORTED_OPENAI_TEXT_STREAM_MODELS then Inr s else Inl UnsupportedOpenAIModel
           | _ \<Rightarrow> Inl UnsupportedOpenAIModel)"

definition validate_openai_environment :: "(ustr \<times> ustr) list \<Rightarrow> configuration_error + unit" where
  "validate_openai_environment environment =
     (if lit ''SSLKEYLOGFILE'' \<in> fst ` set environment
         \<or> list_ex (\<lambda>(name, _). starts_with name (lit ''OPENAI_'') \<and> name \<noteq> OPENAI_API_KEY_NAME) environment
      then Inl UnsupportedOpenAIEnvironment else Inr ())"

text \<open>A model that is not given is \<open>None\<close>.\<close>

definition validate_provider_selection ::
  "(nat \<Rightarrow> bool) \<Rightarrow> py_object \<Rightarrow> py_object option \<Rightarrow> configuration_error + (ustr \<times> ustr option)" where
  "validate_provider_selection category_other provider model =
     and_then (validate_provider_name provider) (\<lambda>selected.
       if selected = lit ''mock'' then
         (if model \<noteq> None then Inl ModelForMock else Inr (selected, None))
       else case model of
              None \<Rightarrow> Inl OpenAIModelRequired
            | Some m \<Rightarrow>
                and_then (validate_openai_model category_other m) (\<lambda>validated.
                  Inr (selected, Some validated)))"

text \<open>\<open>OpenAIProviderConfiguration\<close> with its \<open>__post_init__\<close>.\<close>

definition OpenAIProviderConfiguration ::
  "(nat \<Rightarrow> bool) \<Rightarrow> ustr \<Rightarrow> ustr \<Rightarrow> configuration_error + openai_configuration" where
  "OpenAIProviderConfiguration category_other model api_key =
     and_then (validate_openai_model category_other (PyStr model)) (\<lambda>_.
       if \<not> is_bounded_visible_utf8 category_other (PyStr api_key) 4096 then Inl InvalidOpenAIApiKey
       else Inr \<lparr>oc_model = model, oc_api_key = api_key\<rparr>)"

definition resolve_provider_configuration ::
  "(nat \<Rightarrow> bool) \<Rightarrow> py_object \<Rightarrow> py_object option \<Rightarrow> (ustr \<times> ustr) list
   \<Rightarrow> configuration_error + openai_configuration option" where
  "resolve_provider_configuration category_other provider model environment =
     and_then (validate_provider_selection category_other provider model) (\<lambda>(selected, validated_model).
       if selected = lit ''mock'' then Inr None
       else case validated_model of
              None \<Rightarrow> Inl OpenAIModelRequired
            | Some m \<Rightarrow>
                and_then (validate_openai_environment environment) (\<lambda>_.
                  case map_of environment OPENAI_API_KEY_NAME of
                    None \<Rightarrow> Inl InvalidOpenAIApiKey
                  | Some key \<Rightarrow>
                      if \<not> is_bounded_visible_utf8 category_other (PyStr key) 4096
                      then Inl InvalidOpenAIApiKey
                      else and_then (OpenAIProviderConfiguration category_other m key)
                             (\<lambda>c. Inr (Some c))))"

subsection \<open>Properties\<close>

text \<open>What an admitted credential and environment are.\<close>

definition admissible_key :: "(nat \<Rightarrow> bool) \<Rightarrow> ustr \<Rightarrow> bool" where
  "admissible_key category_other key \<longleftrightarrow>
     key \<noteq> [] \<and> list_all is_scalar key \<and> length (utf8_bytes key) \<le> 4096 \<and>
     list_all (\<lambda>c. \<not> is_py_space c \<and> \<not> category_other c) key"

lemma is_bounded_visible_key:
  "is_bounded_visible_utf8 co (PyStr key) 4096 \<longleftrightarrow> admissible_key co key"
  by (cases key)
    (auto simp: is_bounded_visible_utf8_def admissible_key_def utf8_encode_def list_all_iff list_ex_iff
      Suc_le_eq)

lemma validate_environment_iff:
  "validate_openai_environment env = Inr u \<longleftrightarrow>
     list_all (\<lambda>name. name \<noteq> lit ''SSLKEYLOGFILE'' \<and>
       (\<not> prefix (lit ''OPENAI_'') name \<or> name = OPENAI_API_KEY_NAME)) (map fst env)"
  by (induction env)
    (auto simp: validate_openai_environment_def starts_with_iff simp del: lit_simps split: if_splits)

lemma luna_visible:
  "validate_openai_model co m = Inr s \<longleftrightarrow>
     m = PyStr s \<and> s = lit ''gpt-5.6-luna'' \<and> list_all (\<lambda>c. \<not> co c) s"
proof -
  have "\<not> list_ex is_py_space (lit ''gpt-5.6-luna'')" "utf8_encode (lit ''gpt-5.6-luna'') \<noteq> None"
    "length (utf8_bytes (lit ''gpt-5.6-luna'')) = 12"
    by (simp_all add: is_py_space_def utf8_encode_def is_scalar_def is_surrogate_def utf8_char_def)
  then show ?thesis
    by (auto simp: validate_openai_model_def is_bounded_visible_utf8_def utf8_encode_def list_ex_iff
        list_all_iff SUPPORTED_OPENAI_TEXT_STREAM_MODELS_def simp del: lit_simps
        split: py_object.splits if_splits option.splits)
qed

lemma validate_name_iff:
  "validate_provider_name v = Inr s \<longleftrightarrow> v = PyStr s \<and> (s = lit ''mock'' \<or> s = lit ''openai'')"
  by (auto simp: validate_provider_name_def SUPPORTED_PROVIDERS_def simp del: lit_simps
      split: py_object.splits)

lemma provider_names: "lit ''mock'' \<noteq> lit ''openai''"
  by simp

text \<open>C31: The provider configuration is exact. The mock is selected just when its name is given
  without a model, whatever the environment holds, so it is never inspected then. The adapter is
  configured just when its name comes with the one allowlisted model, no name in the environment
  routes, logs or keys the SDK, and the credential is non-empty visible Unicode of at most 4096
  bytes, which it then carries unchanged. Everything else is one of the fixed errors.\<close>

theorem provider_configuration_exact:
  "resolve_provider_configuration co provider model env = Inr r \<longleftrightarrow>
     provider = PyStr (lit ''mock'') \<and> model = None \<and> r = None \<or>
     (\<exists>key. provider = PyStr (lit ''openai'') \<and> model = Some (PyStr (lit ''gpt-5.6-luna'')) \<and>
        list_all (\<lambda>c. \<not> co c) (lit ''gpt-5.6-luna'') \<and>
        list_all (\<lambda>name. name \<noteq> lit ''SSLKEYLOGFILE'' \<and>
          (\<not> prefix (lit ''OPENAI_'') name \<or> name = OPENAI_API_KEY_NAME)) (map fst env) \<and>
        map_of env OPENAI_API_KEY_NAME = Some key \<and> admissible_key co key \<and>
        r = Some \<lparr>oc_model = lit ''gpt-5.6-luna'', oc_api_key = key\<rparr>)"
    (is "?l \<longleftrightarrow> ?m \<or> ?o")
proof -
  have sel: "validate_provider_selection co provider model = Inr (p, v) \<longleftrightarrow>
      provider = PyStr (lit ''mock'') \<and> model = None \<and> p = lit ''mock'' \<and> v = None \<or>
      (\<exists>s. provider = PyStr (lit ''openai'') \<and> model = Some (PyStr s) \<and> p = lit ''openai'' \<and>
         v = Some s \<and> s = lit ''gpt-5.6-luna'' \<and> list_all (\<lambda>c. \<not> co c) s)" for p v
    using provider_names
    by (cases provider; cases model)
      (auto simp: validate_provider_selection_def validate_name_iff
        luna_visible and_then_Inr_iff simp del: lit_simps split: if_splits)
  have con: "OpenAIProviderConfiguration co (lit ''gpt-5.6-luna'') key = Inr c \<longleftrightarrow>
      list_all (\<lambda>c. \<not> co c) (lit ''gpt-5.6-luna'') \<and> admissible_key co key \<and>
      c = \<lparr>oc_model = lit ''gpt-5.6-luna'', oc_api_key = key\<rparr>" for key c
    by (auto simp: OpenAIProviderConfiguration_def luna_visible is_bounded_visible_key simp del: lit_simps)
  let ?body = "\<lambda>m. and_then (validate_openai_environment env) (\<lambda>_.
      case map_of env OPENAI_API_KEY_NAME of None \<Rightarrow> Inl InvalidOpenAIApiKey
      | Some key \<Rightarrow> if \<not> is_bounded_visible_utf8 co (PyStr key) 4096 then Inl InvalidOpenAIApiKey
          else and_then (OpenAIProviderConfiguration co m key) (\<lambda>c. Inr (Some c)))"
  have body: "?body (lit ''gpt-5.6-luna'') = Inr r \<longleftrightarrow> (\<exists>key.
      list_all (\<lambda>c. \<not> co c) (lit ''gpt-5.6-luna'') \<and>
      list_all (\<lambda>name. name \<noteq> lit ''SSLKEYLOGFILE'' \<and>
        (\<not> prefix (lit ''OPENAI_'') name \<or> name = OPENAI_API_KEY_NAME)) (map fst env) \<and>
      map_of env OPENAI_API_KEY_NAME = Some key \<and> admissible_key co key \<and>
      r = Some \<lparr>oc_model = lit ''gpt-5.6-luna'', oc_api_key = key\<rparr>)"
    by (cases "map_of env OPENAI_API_KEY_NAME")
      (auto simp: con validate_environment_iff is_bounded_visible_key simp del: lit_simps)
  have "resolve_provider_configuration co provider model env = Inr r \<longleftrightarrow>
      (\<exists>p v. validate_provider_selection co provider model = Inr (p, v) \<and>
        (if p = lit ''mock'' then Inr None
         else case v of None \<Rightarrow> Inl OpenAIModelRequired | Some m \<Rightarrow> ?body m) = Inr r)"
    unfolding resolve_provider_configuration_def and_then_Inr_iff by auto
  also have "\<dots> \<longleftrightarrow> ?m \<or> provider = PyStr (lit ''openai'') \<and>
      model = Some (PyStr (lit ''gpt-5.6-luna'')) \<and> list_all (\<lambda>c. \<not> co c) (lit ''gpt-5.6-luna'') \<and>
      ?body (lit ''gpt-5.6-luna'') = Inr r"
    unfolding sel using provider_names by (fastforce simp del: lit_simps and_then_Inr_iff)
  also have "\<dots> \<longleftrightarrow> ?m \<or> ?o" unfolding body by blast
  finally show ?thesis .
qed

theorem provider_configuration_exact_witness:
  "resolve_provider_configuration (\<lambda>c. c < 32) (PyStr (lit ''openai'')) (Some (PyStr (lit ''gpt-5.6-luna'')))
     [(lit ''HOME'', lit ''x''), (OPENAI_API_KEY_NAME, lit ''sk-1'')] =
   Inr (Some \<lparr>oc_model = lit ''gpt-5.6-luna'', oc_api_key = lit ''sk-1''\<rparr>)"
  unfolding provider_configuration_exact
  by (simp add: OPENAI_API_KEY_NAME_def admissible_key_def is_py_space_def is_scalar_def
      is_surrogate_def utf8_char_def)

end
