(* ===== verification/Responses_Automaton.thy ===== *)
theory Responses_Automaton
  imports Provider_Models State_Action Json
begin

section \<open>The event automaton of the OpenAI adapter (provider/openai_responses.py, first part)\<close>

text \<open>
  What the SDK hands over is untrusted: an \<open>sdk_value\<close> is any Python object as the field helpers
  see it, a mapping, an object with attributes (whose getter may raise) or a plain value. The
  automaton is the class \<open>_ResponsesAutomaton\<close>: each handler is an action on its state that
  returns provider events or raises. The request mapping and the classification of exceptions
  complete the part of the adapter that involves no concurrency.
\<close>

subsection \<open>SDK values and exceptions\<close>

text \<open>
  An attribute whose value is \<open>None\<close> is a getter that raises something other than
  \<open>AttributeError\<close> or \<open>TypeError\<close>. Plain values have none of the attributes the adapter reads.
\<close>

datatype sdk_value =
    SdkNone
  | SdkBool bool
  | SdkInt int
  | SdkStr ustr
  | SdkList "sdk_value list"
  | SdkMapping "(string \<times> sdk_value) list"
  | SdkObject "(string \<times> sdk_value option) list"
  | SdkOther

text \<open>An exception by the first of the classes named in \<open>_normalize_exception\<close> it belongs to.\<close>

datatype sdk_exception =
    InvalidSDKObservation
  | StopAsyncIteration
  | APIResponseValidationError
  | JSONDecodeError
  | UnicodeDecodeError
  | AuthenticationError
  | RateLimitError
  | APITimeoutError
  | APIConnectionError
  | APIStatusError py_object
  | OpenAIError
  | OtherException

definition OPENAI_MAX_OUTPUT_TOKENS :: int where "OPENAI_MAX_OUTPUT_TOKENS = 8192"
definition MAX_SAFE_INTEGER :: int where "MAX_SAFE_INTEGER = 9007199254740991"

definition failure_details :: "provider_failure_code \<Rightarrow> string \<times> bool" where
  "failure_details code =
     (case code of
        AuthenticationFailed \<Rightarrow> (''OpenAI authentication failed. Check OPENAI_API_KEY.'', False)
      | RateLimited \<Rightarrow> (''OpenAI rate limit was reached. Try again later.'', True)
      | Unavailable \<Rightarrow> (''OpenAI is temporarily unavailable. Try again later.'', True)
      | RequestRejected \<Rightarrow> (''OpenAI rejected the request.'', False)
      | InvalidResponse \<Rightarrow> (''OpenAI returned an invalid response.'', False)
      | UnknownFailure \<Rightarrow> (''OpenAI request failed.'', False))"

definition failed_event :: "provider_failure_code \<Rightarrow> provider_stream_event" where
  "failed_event code =
     (case failure_details code of (message, retryable) \<Rightarrow>
        ProviderFailed \<lparr>pf_code = code, pf_message = lit message, pf_retryable = retryable\<rparr>)"

definition status_failure :: "py_object \<Rightarrow> provider_failure_code" where
  "status_failure v =
     (case v of
        PyInt n \<Rightarrow>
          if n = 401 then AuthenticationFailed
          else if n = 429 then RateLimited
          else if n = 408 \<or> n = 409 \<or> 500 \<le> n \<and> n \<le> 599 then Unavailable
          else if 400 \<le> n \<and> n \<le> 499 then RequestRejected
          else UnknownFailure
      | _ \<Rightarrow> UnknownFailure)"

fun normalize_exception :: "sdk_exception \<Rightarrow> provider_stream_event" where
  "normalize_exception InvalidSDKObservation = failed_event InvalidResponse"
| "normalize_exception StopAsyncIteration = failed_event InvalidResponse"
| "normalize_exception APIResponseValidationError = failed_event InvalidResponse"
| "normalize_exception JSONDecodeError = failed_event InvalidResponse"
| "normalize_exception UnicodeDecodeError = failed_event InvalidResponse"
| "normalize_exception AuthenticationError = failed_event AuthenticationFailed"
| "normalize_exception RateLimitError = failed_event RateLimited"
| "normalize_exception APITimeoutError = failed_event Unavailable"
| "normalize_exception APIConnectionError = failed_event Unavailable"
| "normalize_exception (APIStatusError status) = failed_event (status_failure status)"
| "normalize_exception OpenAIError = failed_event UnknownFailure"
| "normalize_exception OtherException = failed_event UnknownFailure"

subsection \<open>Field helpers\<close>

definition sdk_field :: "sdk_value \<Rightarrow> string \<Rightarrow> sdk_exception + sdk_value" where
  "sdk_field v name =
     (case v of
        SdkMapping m \<Rightarrow> (case map_of m name of None \<Rightarrow> Inl InvalidSDKObservation | Some x \<Rightarrow> Inr x)
      | SdkObject m \<Rightarrow>
          (case map_of m name of
             None \<Rightarrow> Inl InvalidSDKObservation
           | Some None \<Rightarrow> Inl OtherException
           | Some (Some x) \<Rightarrow> Inr x)
      | _ \<Rightarrow> Inl InvalidSDKObservation)"

text \<open>\<open>_optional_field\<close>: \<open>missing\<close> is what it returns for an absent field.\<close>

definition optional_field :: "sdk_value \<Rightarrow> string \<Rightarrow> 'a \<Rightarrow> (sdk_value \<Rightarrow> 'a) \<Rightarrow> sdk_exception + 'a" where
  "optional_field v name missing found =
     (case v of
        SdkMapping m \<Rightarrow> Inr (case map_of m name of None \<Rightarrow> missing | Some x \<Rightarrow> found x)
      | SdkObject m \<Rightarrow>
          (case map_of m name of
             None \<Rightarrow> Inr missing
           | Some None \<Rightarrow> Inl OtherException
           | Some (Some x) \<Rightarrow> Inr (found x))
      | _ \<Rightarrow> Inr missing)"

abbreviation field_or_none :: "sdk_value \<Rightarrow> string \<Rightarrow> sdk_exception + sdk_value" where
  "field_or_none v name \<equiv> optional_field v name SdkNone (\<lambda>x. x)"

definition require_that :: "bool \<Rightarrow> sdk_exception + unit" where
  "require_that b = raise_unless b InvalidSDKObservation"

definition required_string :: "sdk_value \<Rightarrow> bool \<Rightarrow> sdk_exception + ustr" where
  "required_string v allow_empty =
     (case v of
        SdkStr s \<Rightarrow>
          if (\<not> allow_empty \<and> s = []) \<or> utf8_encode s = None then Inl InvalidSDKObservation else Inr s
      | _ \<Rightarrow> Inl InvalidSDKObservation)"

definition optional_string :: "sdk_value \<Rightarrow> sdk_exception + ustr option" where
  "optional_string v =
     (if v = SdkNone then Inr None
      else and_then (required_string v True) (\<lambda>s. Inr (Some s)))"

definition safe_integer :: "sdk_value \<Rightarrow> sdk_exception + int" where
  "safe_integer v =
     (case v of
        SdkInt n \<Rightarrow> if n < 0 \<or> MAX_SAFE_INTEGER < n then Inl InvalidSDKObservation else Inr n
      | _ \<Rightarrow> Inl InvalidSDKObservation)"

definition required_list :: "sdk_value \<Rightarrow> sdk_exception + sdk_value list" where
  "required_list v = (case v of SdkList xs \<Rightarrow> Inr xs | _ \<Rightarrow> Inl InvalidSDKObservation)"

definition require_empty_list :: "sdk_value \<Rightarrow> sdk_exception + unit" where
  "require_empty_list v = and_then (required_list v) (\<lambda>xs. require_that (xs = []))"

definition require_absent_or_empty_list :: "sdk_value \<Rightarrow> sdk_exception + unit" where
  "require_absent_or_empty_list v = (if v \<noteq> SdkNone then require_empty_list v else Inr ())"

definition require_index :: "sdk_value \<Rightarrow> string \<Rightarrow> int \<Rightarrow> sdk_exception + unit" where
  "require_index v name expected =
     and_then (sdk_field v name) (\<lambda>x.
     and_then (safe_integer x) (\<lambda>n. require_that (n = expected)))"

definition first_of :: "sdk_value list \<Rightarrow> sdk_exception + sdk_value" where
  "first_of xs = (case xs of [] \<Rightarrow> Inl OtherException | x # _ \<Rightarrow> Inr x)"

definition validate_output_text :: "sdk_value \<Rightarrow> ustr \<Rightarrow> sdk_exception + unit" where
  "validate_output_text v expected_text =
     and_then (sdk_field v ''type'') (\<lambda>t.
     and_then (require_that (t = SdkStr (lit ''output_text''))) (\<lambda>_.
     and_then (sdk_field v ''text'') (\<lambda>x.
     and_then (required_string x True) (\<lambda>s.
     and_then (require_that (s = expected_text)) (\<lambda>_.
     and_then (sdk_field v ''annotations'') require_empty_list)))))"

definition expected_status :: "bool \<Rightarrow> sdk_value" where
  "expected_status completed = SdkStr (if completed then lit ''completed'' else lit ''in_progress'')"

definition validate_message :: "sdk_value \<Rightarrow> nat \<Rightarrow> bool \<Rightarrow> sdk_exception + ustr" where
  "validate_message v content_count completed =
     and_then (sdk_field v ''type'') (\<lambda>t.
     and_then (require_that (t = SdkStr (lit ''message''))) (\<lambda>_.
     and_then (sdk_field v ''role'') (\<lambda>r.
     and_then (require_that (r = SdkStr (lit ''assistant''))) (\<lambda>_.
     and_then (sdk_field v ''id'') (\<lambda>i.
     and_then (required_string i False) (\<lambda>item_id.
     and_then (sdk_field v ''content'') (\<lambda>c.
     and_then (required_list c) (\<lambda>content.
     and_then (require_that (length content = content_count)) (\<lambda>_.
     and_then (sdk_field v ''status'') (\<lambda>st.
     and_then (require_that (st = expected_status completed)) (\<lambda>_.
     Inr item_id)))))))))))"

definition validate_reasoning_item :: "sdk_value \<Rightarrow> bool \<Rightarrow> sdk_exception + ustr" where
  "validate_reasoning_item v completed =
     and_then (sdk_field v ''type'') (\<lambda>t.
     and_then (require_that (t = SdkStr (lit ''reasoning''))) (\<lambda>_.
     and_then (sdk_field v ''id'') (\<lambda>i.
     and_then (required_string i False) (\<lambda>item_id.
     and_then (sdk_field v ''summary'') (\<lambda>s.
     and_then (require_empty_list s) (\<lambda>_.
     and_then (field_or_none v ''content'') (\<lambda>c.
     and_then (require_absent_or_empty_list c) (\<lambda>_.
     and_then (field_or_none v ''status'') (\<lambda>st.
     and_then (require_that (st = SdkNone \<or> st = expected_status completed)) (\<lambda>_.
     Inr item_id))))))))))"

definition validate_reasoning_configuration :: "sdk_value \<Rightarrow> sdk_exception + unit" where
  "validate_reasoning_configuration v =
     and_then (sdk_field v ''effort'') (\<lambda>effort.
     and_then (sdk_field v ''context'') (\<lambda>context0.
     and_then (optional_field v ''summary'' None Some) (\<lambda>summary.
     and_then (optional_field v ''generate_summary'' None Some) (\<lambda>generate_summary.
     and_then (optional_field v ''mode'' None Some) (\<lambda>mode.
     and_then (require_that (effort = SdkStr (lit ''none'') \<and> context0 = SdkStr (lit ''current_turn''))) (\<lambda>_.
     and_then (require_that (summary = None \<or> summary = Some SdkNone)) (\<lambda>_.
     and_then (require_that (generate_summary = None \<or> generate_summary = Some SdkNone)) (\<lambda>_.
     require_that (mode = None \<or> mode = Some SdkNone \<or> mode = Some (SdkStr (lit ''standard'')))))))))))"

subsection \<open>The automaton\<close>

datatype automaton_state =
    CreatedExpected | QueuedOrInProgress | InProgress | OutputItemAdded | ReasoningItemDone
  | MessageItemAdded | ContentPartAdded | DeltaExpected | DeltaOrDone | ContentPartDone
  | OutputItemDone | CompletedExpected | AutomatonTerminal

record automaton =
  ra_model :: ustr
  ra_state :: automaton_state
  ra_next_sequence :: "int option"
  ra_response_id :: "ustr option"
  ra_reasoning_item_id :: "ustr option"
  ra_item_id :: "ustr option"
  ra_message_output_index :: nat
  ra_text_fragments :: "ustr list"

definition new_automaton :: "ustr \<Rightarrow> automaton" where
  "new_automaton model =
     \<lparr>ra_model = model, ra_state = CreatedExpected, ra_next_sequence = None, ra_response_id = None,
      ra_reasoning_item_id = None, ra_item_id = None, ra_message_output_index = 0,
      ra_text_fragments = []\<rparr>"

type_synonym 'a automaton_action = "(sdk_exception, automaton, 'a) effect"

abbreviation check :: "sdk_exception + 'a \<Rightarrow> 'a automaton_action" where
  "check r \<equiv> lift_result r"

definition enter :: "automaton_state \<Rightarrow> unit automaton_action" where
  "enter q = update (\<lambda>a. a\<lparr>ra_state := q\<rparr>)"

definition require_state :: "automaton_state \<Rightarrow> unit automaton_action" where
  "require_state q = ask (\<lambda>a. check (require_that (ra_state a = q)))"

definition accept_sequence :: "sdk_value \<Rightarrow> unit automaton_action" where
  "accept_sequence v =
     seq (check (safe_integer v)) (\<lambda>n.
     ask (\<lambda>a.
       case ra_next_sequence a of
         None \<Rightarrow> update (\<lambda>a. a\<lparr>ra_next_sequence := Some (n + 1)\<rparr>)
       | Some expected \<Rightarrow>
           next_do (check (require_that (n = expected)))
             (update (\<lambda>a. a\<lparr>ra_next_sequence := Some (expected + 1)\<rparr>))))"

definition require_response_identity :: "sdk_value \<Rightarrow> unit automaton_action" where
  "require_response_identity response =
     seq (check (sdk_field response ''id'')) (\<lambda>i.
     seq (check (required_string i False)) (\<lambda>s.
     ask (\<lambda>a. check (require_that (Some s = ra_response_id a)))))"

definition require_item_coordinates :: "sdk_value \<Rightarrow> unit automaton_action" where
  "require_item_coordinates event =
     seq (check (sdk_field event ''item_id'')) (\<lambda>i.
     seq (check (required_string i False)) (\<lambda>s.
     ask (\<lambda>a.
       next_do (check (require_that (Some s = ra_item_id a)))
         (next_do (check (require_index event ''output_index'' (int (ra_message_output_index a))))
            (check (require_index event ''content_index'' 0))))))"

definition automaton_text :: "automaton \<Rightarrow> ustr" where
  "automaton_text a = concat (ra_text_fragments a)"

definition on_created :: "sdk_value \<Rightarrow> provider_stream_event list automaton_action" where
  "on_created event =
     next_do (require_state CreatedExpected)
       (seq (check (sdk_field event ''response'')) (\<lambda>response.
        seq (check (sdk_field response ''id'')) (\<lambda>i.
        seq (check (required_string i False)) (\<lambda>s.
        next_do (update (\<lambda>a. a\<lparr>ra_response_id := Some s\<rparr>))
          (next_do (enter QueuedOrInProgress) (ret []))))))"

definition on_queued :: "sdk_value \<Rightarrow> provider_stream_event list automaton_action" where
  "on_queued event =
     next_do (require_state QueuedOrInProgress)
       (seq (check (sdk_field event ''response'')) (\<lambda>response.
        next_do (require_response_identity response)
          (next_do (enter InProgress) (ret []))))"

definition on_in_progress :: "sdk_value \<Rightarrow> provider_stream_event list automaton_action" where
  "on_in_progress event =
     next_do (ask (\<lambda>a. check (require_that (ra_state a \<in> {QueuedOrInProgress, InProgress}))))
       (seq (check (sdk_field event ''response'')) (\<lambda>response.
        next_do (require_response_identity response)
          (next_do (enter OutputItemAdded) (ret []))))"

definition on_message_added ::
  "sdk_value \<Rightarrow> sdk_value \<Rightarrow> provider_stream_event list automaton_action" where
  "on_message_added event item =
     next_do (update (\<lambda>a. a\<lparr>ra_message_output_index :=
                (if ra_reasoning_item_id a \<noteq> None then 1 else 0)\<rparr>))
       (next_do (ask (\<lambda>a. check (require_index event ''output_index'' (int (ra_message_output_index a)))))
          (seq (check (validate_message item 0 False)) (\<lambda>item_id.
           next_do (update (\<lambda>a. a\<lparr>ra_item_id := Some item_id\<rparr>))
             (next_do (enter ContentPartAdded) (ret [])))))"

definition on_reasoning_added ::
  "sdk_value \<Rightarrow> sdk_value \<Rightarrow> provider_stream_event list automaton_action" where
  "on_reasoning_added event item =
     next_do (check (require_index event ''output_index'' 0))
       (seq (check (validate_reasoning_item item False)) (\<lambda>item_id.
        next_do (update (\<lambda>a. a\<lparr>ra_reasoning_item_id := Some item_id\<rparr>))
          (next_do (enter ReasoningItemDone) (ret []))))"

definition on_output_item_added :: "sdk_value \<Rightarrow> provider_stream_event list automaton_action" where
  "on_output_item_added event =
     next_do (ask (\<lambda>a. check (require_that (ra_state a \<in> {OutputItemAdded, MessageItemAdded}))))
       (seq (check (sdk_field event ''item'')) (\<lambda>item.
        ask (\<lambda>a.
          if ra_state a = OutputItemAdded then
            seq (check (field_or_none item ''type'')) (\<lambda>t.
              if t = SdkStr (lit ''reasoning'') then on_reasoning_added event item
              else on_message_added event item)
          else on_message_added event item)))"

definition on_content_part_added :: "sdk_value \<Rightarrow> provider_stream_event list automaton_action" where
  "on_content_part_added event =
     next_do (require_state ContentPartAdded)
       (next_do (require_item_coordinates event)
          (seq (check (sdk_field event ''part'')) (\<lambda>part.
           next_do (check (validate_output_text part []))
             (next_do (enter DeltaExpected) (ret [])))))"

text \<open>The domain checks on a text: their own exceptions become an invalid observation.\<close>

definition sdk_text :: "sdk_value \<Rightarrow> bool \<Rightarrow> sdk_exception + ustr" where
  "sdk_text v allow_empty =
     (case require_terminal_safe_text (case v of SdkStr s \<Rightarrow> PyStr s | _ \<Rightarrow> PyOther) ''OpenAI text'' allow_empty of
        Inl _ \<Rightarrow> Inl InvalidSDKObservation
      | Inr s \<Rightarrow> Inr s)"

definition on_text_delta :: "sdk_value \<Rightarrow> provider_stream_event list automaton_action" where
  "on_text_delta event =
     next_do (ask (\<lambda>a. check (require_that (ra_state a \<in> {DeltaExpected, DeltaOrDone}))))
       (next_do (require_item_coordinates event)
          (seq (check (field_or_none event ''logprobs'')) (\<lambda>lp.
           next_do (check (require_absent_or_empty_list lp))
             (seq (check (sdk_field event ''delta'')) (\<lambda>d.
              seq (check (sdk_text d False)) (\<lambda>delta.
              next_do (update (\<lambda>a. a\<lparr>ra_text_fragments := ra_text_fragments a @ [delta]\<rparr>))
                (next_do (enter DeltaOrDone) (ret [ProviderTextDelta delta]))))))))"

definition on_text_done :: "sdk_value \<Rightarrow> provider_stream_event list automaton_action" where
  "on_text_done event =
     next_do (require_state DeltaOrDone)
       (next_do (require_item_coordinates event)
          (seq (check (field_or_none event ''logprobs'')) (\<lambda>lp.
           next_do (check (require_absent_or_empty_list lp))
             (seq (check (sdk_field event ''text'')) (\<lambda>x.
              seq (check (sdk_text x True)) (\<lambda>completed.
              ask (\<lambda>a.
                next_do (check (require_that (completed = automaton_text a)))
                  (next_do (enter ContentPartDone) (ret [ProviderTextCompleted completed])))))))))"

definition on_content_part_done :: "sdk_value \<Rightarrow> provider_stream_event list automaton_action" where
  "on_content_part_done event =
     next_do (require_state ContentPartDone)
       (next_do (require_item_coordinates event)
          (seq (check (sdk_field event ''part'')) (\<lambda>part.
           ask (\<lambda>a.
             next_do (check (validate_output_text part (automaton_text a)))
               (next_do (enter OutputItemDone) (ret []))))))"

definition on_reasoning_done :: "sdk_value \<Rightarrow> provider_stream_event list automaton_action" where
  "on_reasoning_done event =
     next_do (check (require_index event ''output_index'' 0))
       (seq (check (sdk_field event ''item'')) (\<lambda>item.
        seq (check (validate_reasoning_item item True)) (\<lambda>item_id.
        ask (\<lambda>a.
          next_do (check (require_that (Some item_id = ra_reasoning_item_id a)))
            (next_do (enter MessageItemAdded) (ret []))))))"

definition on_message_done :: "sdk_value \<Rightarrow> provider_stream_event list automaton_action" where
  "on_message_done event =
     next_do (require_state OutputItemDone)
       (ask (\<lambda>a.
        next_do (check (require_index event ''output_index'' (int (ra_message_output_index a))))
          (seq (check (sdk_field event ''item'')) (\<lambda>item.
           seq (check (validate_message item 1 True)) (\<lambda>item_id.
           next_do (check (require_that (Some item_id = ra_item_id a)))
             (seq (check (sdk_field item ''content'')) (\<lambda>c.
              seq (check (required_list c)) (\<lambda>content.
              seq (check (first_of content)) (\<lambda>part.
              next_do (check (validate_output_text part (automaton_text a)))
                (next_do (enter CompletedExpected) (ret [])))))))))))"

definition on_output_item_done :: "sdk_value \<Rightarrow> provider_stream_event list automaton_action" where
  "on_output_item_done event =
     ask (\<lambda>a. if ra_state a = ReasoningItemDone then on_reasoning_done event else on_message_done event)"

text \<open>The usage of a completed response; its own constructor may reject the counts.\<close>

definition usage_events :: "sdk_value \<Rightarrow> sdk_exception + provider_stream_event list" where
  "usage_events usage =
     (if usage = SdkNone then Inr []
      else
        and_then (sdk_field usage ''input_tokens'') (\<lambda>i. and_then (safe_integer i) (\<lambda>input_tokens.
        and_then (sdk_field usage ''output_tokens'') (\<lambda>j. and_then (safe_integer j) (\<lambda>output_tokens.
        and_then (sdk_field usage ''total_tokens'') (\<lambda>k. and_then (safe_integer k) (\<lambda>total_tokens.
        and_then (require_that (\<not> (input_tokens + output_tokens \<noteq> total_tokens
                    \<or> MAX_SAFE_INTEGER < total_tokens \<or> OPENAI_MAX_OUTPUT_TOKENS < output_tokens))) (\<lambda>_.
        and_then (field_or_none usage ''output_tokens_details'') (\<lambda>details.
        and_then
          (if details = SdkNone then Inr ()
           else and_then (sdk_field details ''reasoning_tokens'') (\<lambda>r.
                and_then (safe_integer r) (\<lambda>reasoning_tokens.
                require_that (\<not> output_tokens < reasoning_tokens)))) (\<lambda>_.
        case make_usage (PyInt input_tokens) (PyInt output_tokens) of
          Inl _ \<Rightarrow> Inl OtherException
        | Inr e \<Rightarrow> Inr [e]))))))))))"

definition on_completed :: "sdk_value \<Rightarrow> provider_stream_event list automaton_action" where
  "on_completed event =
     next_do (require_state CompletedExpected)
       (seq (check (sdk_field event ''response'')) (\<lambda>response.
        next_do (require_response_identity response)
          (seq (check (sdk_field response ''status'')) (\<lambda>st.
           next_do (check (require_that (st = SdkStr (lit ''completed''))))
          (seq (check (sdk_field response ''model'')) (\<lambda>m.
           ask (\<lambda>a.
           next_do (check (require_that (m = SdkStr (ra_model a))))
          (seq (check (field_or_none response ''error'')) (\<lambda>er.
           next_do (check (require_that (er = SdkNone)))
          (seq (check (field_or_none response ''incomplete_details'')) (\<lambda>inc.
           next_do (check (require_that (inc = SdkNone)))
          (seq (check (field_or_none response ''reasoning'')) (\<lambda>rs.
           next_do (check (validate_reasoning_configuration rs))
          (seq (check (sdk_field response ''output'')) (\<lambda>o0.
           seq (check (required_list o0)) (\<lambda>output.
           next_do (check (require_that
                     (length output = (if ra_reasoning_item_id a \<noteq> None then 2 else 1))))
          (next_do
             (if ra_reasoning_item_id a \<noteq> None
              then seq (check (first_of output)) (\<lambda>x.
                   seq (check (validate_reasoning_item x True)) (\<lambda>reasoning_id.
                   check (require_that (Some reasoning_id = ra_reasoning_item_id a))))
              else ret ())
          (seq (check (first_of (drop (ra_message_output_index a) output))) (\<lambda>message.
           seq (check (validate_message message 1 True)) (\<lambda>item_id.
           next_do (check (require_that (Some item_id = ra_item_id a)))
          (seq (check (sdk_field message ''content'')) (\<lambda>c.
           seq (check (required_list c)) (\<lambda>content.
           seq (check (first_of content)) (\<lambda>part.
           next_do (check (validate_output_text part (automaton_text a)))
          (seq (check (field_or_none response ''usage'')) (\<lambda>usage.
           seq (check (usage_events usage)) (\<lambda>mapped.
           next_do (enter AutomatonTerminal)
             (ret (mapped @ [ProviderCompleted])))))))))))))))))))))))))))))"

definition accept_response_terminal :: "sdk_value \<Rightarrow> string \<Rightarrow> unit automaton_action" where
  "accept_response_terminal event event_type =
     ask (\<lambda>a.
       next_do (check (require_that (\<not> (ra_response_id a = None \<or> ra_state a = CreatedExpected))))
         (seq (check (sdk_field event ''response'')) (\<lambda>response.
          next_do (require_response_identity response)
            (seq (check (sdk_field response ''status'')) (\<lambda>st.
             check (require_that (st = SdkStr
               (if event_type = ''response.failed'' then lit ''failed'' else lit ''incomplete''))))))))"

text \<open>The code of a failed response; any other code is an unknown failure.\<close>

definition response_failure :: "sdk_value \<Rightarrow> sdk_exception + provider_stream_event list" where
  "response_failure event =
     and_then (sdk_field event ''response'') (\<lambda>response.
     and_then (sdk_field response ''error'') (\<lambda>er.
     and_then (field_or_none er ''code'') (\<lambda>c.
     and_then (optional_string c) (\<lambda>code.
       Inr [failed_event
              (if code = Some (lit ''server_error'') then Unavailable
               else if code = Some (lit ''rate_limit_exceeded'') then RateLimited
               else UnknownFailure)]))))"

definition handlers :: "(string \<times> (sdk_value \<Rightarrow> provider_stream_event list automaton_action)) list" where
  "handlers =
     [(''response.created'', on_created),
      (''response.queued'', on_queued),
      (''response.in_progress'', on_in_progress),
      (''response.output_item.added'', on_output_item_added),
      (''response.content_part.added'', on_content_part_added),
      (''response.output_text.delta'', on_text_delta),
      (''response.output_text.done'', on_text_done),
      (''response.content_part.done'', on_content_part_done),
      (''response.output_item.done'', on_output_item_done),
      (''response.completed'', on_completed)]"

definition find_handler ::
  "ustr \<Rightarrow> (sdk_value \<Rightarrow> provider_stream_event list automaton_action) option" where
  "find_handler event_type = map_of (map (\<lambda>(n, h). (lit n, h)) handlers) event_type"

definition accept_event :: "sdk_value \<Rightarrow> provider_stream_event list automaton_action" where
  "accept_event event =
     seq (check (sdk_field event ''type'')) (\<lambda>t.
     seq (check (required_string t False)) (\<lambda>event_type.
     seq (check (sdk_field event ''sequence_number'')) (\<lambda>n.
     next_do (accept_sequence n)
       (if event_type = lit ''error''
        then next_do (enter AutomatonTerminal) (ret [failed_event UnknownFailure])
        else
          ask (\<lambda>a.
            if ra_state a = AutomatonTerminal then raise InvalidSDKObservation
            else if event_type = lit ''response.failed''
            then next_do (accept_response_terminal event ''response.failed'')
                   (next_do (enter AutomatonTerminal) (check (response_failure event)))
            else if event_type = lit ''response.incomplete''
            then next_do (accept_response_terminal event ''response.incomplete'')
                   (next_do (enter AutomatonTerminal) (ret [failed_event RequestRejected]))
            else case find_handler event_type of
                   None \<Rightarrow> raise InvalidSDKObservation
                 | Some h \<Rightarrow> h event)))))"

subsection \<open>The request\<close>

definition REPOSITORY_INSTRUCTIONS_PREFIX :: ustr where
  "REPOSITORY_INSTRUCTIONS_PREFIX =
     lit ''Repository instructions in precedence order (JSON):'' @ [10]"

definition role_name :: "provider_message_role \<Rightarrow> string" where
  "role_name r = (case r of UserRole \<Rightarrow> ''user'' | AssistantRole \<Rightarrow> ''assistant'')"

record request_arguments =
  arg_model :: ustr
  arg_input :: "(string \<times> ustr) list"
  arg_effort :: string
  arg_context :: string
  arg_max_output_tokens :: int
  arg_stream :: bool
  arg_background :: bool
  arg_store :: bool
  arg_instructions :: "ustr option"

definition instruction_document :: "repository_instruction \<Rightarrow> json" where
  "instruction_document i =
     JObj [(lit ''source'', JStr (ri_source i)), (lit ''content'', JStr (ri_content i))]"

definition map_request :: "provider_request \<Rightarrow> ustr \<Rightarrow> request_arguments" where
  "map_request request model =
     \<lparr>arg_model = model,
      arg_input = map (\<lambda>m. (role_name (pm_role m), pm_content m)) (conversation request),
      arg_effort = ''none'', arg_context = ''current_turn'',
      arg_max_output_tokens = OPENAI_MAX_OUTPUT_TOKENS, arg_stream = True, arg_background = False,
      arg_store = False,
      arg_instructions =
        (if repository_instructions request = [] then None
         else Some (REPOSITORY_INSTRUCTIONS_PREFIX @
                dumps (JArr (map instruction_document (repository_instructions request)))))\<rparr>"

end
