(* ===== verification/Responses_Stream.thy ===== *)
theory Responses_Stream
  imports Responses_Automaton
begin

section \<open>What the OpenAI event automaton admits\<close>

text \<open>
  The lemmas say what each handler does when it does not raise; from them follows an invariant that
  ties the automaton's state to the types of the observations accepted so far and to the provider
  events handed on. The properties: the stream a consumer sees has one shape, whatever the SDK sends;
  a completed stream was sent in the one admitted order; and every canonical response is accepted.
\<close>

subsection \<open>The handlers when they return\<close>

lemmas handler_defs =
  on_created_def on_queued_def on_in_progress_def on_output_item_added_def on_content_part_added_def
  on_text_delta_def on_text_done_def on_content_part_done_def on_output_item_done_def on_completed_def
  on_reasoning_added_def on_message_added_def on_reasoning_done_def on_message_done_def

lemma require_that_iff [simp]: "require_that b = Inr u \<longleftrightarrow> b"
  by (simp add: require_that_def)

lemma enter_eq [simp]: "enter q a = (Inr (), a\<lparr>ra_state := q\<rparr>)"
  by (simp add: enter_def)

lemmas step_iff = seq_Inr_iff next_do_Inr_iff require_state_def

lemma require_item_coordinates_Inr:
  "require_item_coordinates e a = (Inr u, a') \<Longrightarrow> a' = a"
  by (auto simp: require_item_coordinates_def step_iff)

lemma require_response_identity_Inr:
  "require_response_identity e a = (Inr u, a') \<Longrightarrow> a' = a"
  by (auto simp: require_response_identity_def step_iff)

lemma sdk_text_Inr_iff [simp]:
  "sdk_text v b = Inr s \<longleftrightarrow> v = SdkStr s \<and> (b \<or> s \<noteq> []) \<and> terminal_safe s"
proof -
  have "sdk_text v b = Inr s \<longleftrightarrow>
      require_terminal_safe_text (case v of SdkStr s \<Rightarrow> PyStr s | _ \<Rightarrow> PyOther) ''OpenAI text'' b = Inr s"
    unfolding sdk_text_def
    by (cases "require_terminal_safe_text (case v of SdkStr s \<Rightarrow> PyStr s | _ \<Rightarrow> PyOther) ''OpenAI text'' b")
      (simp_all del: require_terminal_safe_Inr_iff)
  then show ?thesis by (cases v) auto
qed

lemma on_created_Inr:
  "on_created e a = (Inr r, a') \<Longrightarrow>
     ra_state a = CreatedExpected \<and> r = [] \<and>
     (\<exists>s. a' = a\<lparr>ra_response_id := Some s, ra_state := QueuedOrInProgress\<rparr>)"
  by (auto simp: on_created_def step_iff)

lemma on_queued_Inr:
  "on_queued e a = (Inr r, a') \<Longrightarrow>
     ra_state a = QueuedOrInProgress \<and> r = [] \<and> a' = a\<lparr>ra_state := InProgress\<rparr>"
  by (auto simp: on_queued_def step_iff dest!: require_response_identity_Inr)

lemma on_in_progress_Inr:
  "on_in_progress e a = (Inr r, a') \<Longrightarrow>
     ra_state a \<in> {QueuedOrInProgress, InProgress} \<and> r = [] \<and> a' = a\<lparr>ra_state := OutputItemAdded\<rparr>"
  by (auto simp: on_in_progress_def step_iff dest!: require_response_identity_Inr)

lemma on_output_item_added_Inr:
  "on_output_item_added e a = (Inr r, a') \<Longrightarrow>
     r = [] \<and>
     (ra_state a = OutputItemAdded \<and> (\<exists>s. a' = a\<lparr>ra_reasoning_item_id := Some s, ra_state := ReasoningItemDone\<rparr>) \<or>
      ra_state a \<in> {OutputItemAdded, MessageItemAdded} \<and>
      (\<exists>s. a' = a\<lparr>ra_message_output_index := (if ra_reasoning_item_id a \<noteq> None then 1 else 0),
                 ra_item_id := Some s, ra_state := ContentPartAdded\<rparr>))"
  by (auto simp: on_output_item_added_def on_reasoning_added_def on_message_added_def step_iff
      split: if_splits)

lemma on_content_part_added_Inr:
  "on_content_part_added e a = (Inr r, a') \<Longrightarrow>
     ra_state a = ContentPartAdded \<and> r = [] \<and> a' = a\<lparr>ra_state := DeltaExpected\<rparr>"
  by (auto simp: on_content_part_added_def step_iff dest!: require_item_coordinates_Inr)

lemma on_text_delta_Inr:
  "on_text_delta e a = (Inr r, a') \<Longrightarrow>
     ra_state a \<in> {DeltaExpected, DeltaOrDone} \<and>
     (\<exists>d. d \<noteq> [] \<and> terminal_safe d \<and> r = [ProviderTextDelta d] \<and>
        a' = a\<lparr>ra_text_fragments := ra_text_fragments a @ [d], ra_state := DeltaOrDone\<rparr>)"
  by (auto simp: on_text_delta_def step_iff dest!: require_item_coordinates_Inr)

lemma on_text_done_Inr:
  "on_text_done e a = (Inr r, a') \<Longrightarrow>
     ra_state a = DeltaOrDone \<and> terminal_safe (automaton_text a) \<and>
     r = [ProviderTextCompleted (automaton_text a)] \<and> a' = a\<lparr>ra_state := ContentPartDone\<rparr>"
  by (auto simp: on_text_done_def step_iff dest!: require_item_coordinates_Inr)

lemma on_content_part_done_Inr:
  "on_content_part_done e a = (Inr r, a') \<Longrightarrow>
     ra_state a = ContentPartDone \<and> r = [] \<and> a' = a\<lparr>ra_state := OutputItemDone\<rparr>"
  by (auto simp: on_content_part_done_def step_iff dest!: require_item_coordinates_Inr)

lemma on_output_item_done_Inr:
  "on_output_item_done e a = (Inr r, a') \<Longrightarrow>
     r = [] \<and> (ra_state a = ReasoningItemDone \<and> a' = a\<lparr>ra_state := MessageItemAdded\<rparr> \<or>
               ra_state a = OutputItemDone \<and> a' = a\<lparr>ra_state := CompletedExpected\<rparr>)"
  by (auto simp: on_output_item_done_def on_reasoning_done_def on_message_done_def step_iff
      split: if_splits)

definition usage_shape :: "provider_stream_event list \<Rightarrow> bool" where
  "usage_shape us \<longleftrightarrow>
     us = [] \<or>
     (\<exists>i j. us = [ProviderUsageReported i j] \<and> 0 \<le> i \<and> 0 \<le> j \<and> j \<le> OPENAI_MAX_OUTPUT_TOKENS \<and>
        i + j \<le> MAX_SAFE_INTEGER \<and> provider_event_ok (ProviderUsageReported i j))"

lemma safe_integer_Inr_iff [simp]:
  "safe_integer v = Inr n \<longleftrightarrow> v = SdkInt n \<and> 0 \<le> n \<and> n \<le> MAX_SAFE_INTEGER"
  by (cases v) (auto simp: safe_integer_def)

lemma usage_events_Inr:
  assumes "usage_events u = Inr us"
  shows "usage_shape us"
proof (cases "u = SdkNone")
  case True
  with assms show ?thesis by (simp add: usage_events_def usage_shape_def)
next
  case False
  with assms obtain i j where u: "0 \<le> i" "0 \<le> j" "i + j \<le> MAX_SAFE_INTEGER" "j \<le> OPENAI_MAX_OUTPUT_TOKENS"
    "(case make_usage (PyInt i) (PyInt j) of Inl _ \<Rightarrow> Inl OtherException | Inr e \<Rightarrow> Inr [e]) = Inr us"
    by (auto simp: usage_events_def)
  then show ?thesis by (cases "make_usage (PyInt i) (PyInt j)") (auto simp: usage_shape_def)
qed

lemma on_completed_Inr:
  assumes "on_completed e a = (Inr r, a')"
  shows "ra_state a = CompletedExpected \<and> a' = a\<lparr>ra_state := AutomatonTerminal\<rparr> \<and>
    (\<exists>us. usage_shape us \<and> r = us @ [ProviderCompleted])"
  using assms unfolding on_completed_def step_iff
  by (auto dest!: require_response_identity_Inr usage_events_Inr simp: step_iff split: if_splits)

subsection \<open>One observation\<close>

definition observation_type :: "sdk_value \<Rightarrow> ustr" where
  "observation_type e = (case sdk_field e ''type'' of Inr (SdkStr s) \<Rightarrow> s | _ \<Rightarrow> [])"

definition observation_sequence :: "sdk_value \<Rightarrow> int" where
  "observation_sequence e = (case sdk_field e ''sequence_number'' of Inr (SdkInt n) \<Rightarrow> n | _ \<Rightarrow> 0)"

text \<open>The failure an observation may end the stream with: one \<open>ProviderFailed\<close>.\<close>

definition failure_only :: "provider_stream_event list \<Rightarrow> bool" where
  "failure_only r \<longleftrightarrow> (\<exists>c. r = [failed_event c])"

lemma required_string_Inr_iff [simp]:
  "required_string v b = Inr s \<longleftrightarrow> v = SdkStr s \<and> (b \<or> s \<noteq> []) \<and> list_all is_scalar s"
  by (cases v) (auto simp: required_string_def utf8_encode_def)

lemma accept_sequence_Inr:
  "accept_sequence v a = (Inr u, a') \<Longrightarrow>
     \<exists>n. v = SdkInt n \<and> (ra_next_sequence a = None \<or> ra_next_sequence a = Some n) \<and>
       a' = a\<lparr>ra_next_sequence := Some (n + 1)\<rparr>"
  by (cases "ra_next_sequence a") (auto simp: accept_sequence_def step_iff)

lemma accept_response_terminal_Inr:
  "accept_response_terminal e t a = (Inr u, a') \<Longrightarrow> a' = a"
  by (auto simp: accept_response_terminal_def step_iff dest!: require_response_identity_Inr)

lemma response_failure_Inr: "response_failure e = Inr r \<Longrightarrow> failure_only r"
  by (auto simp: response_failure_def failure_only_def)

lemma accept_event_Inr:
  assumes "accept_event e a = (Inr r, a')"
  defines "n \<equiv> observation_sequence e"
  shows "ra_next_sequence a = None \<or> ra_next_sequence a = Some n"
    and "ra_state a' = AutomatonTerminal \<and> ra_next_sequence a' = Some (n + 1) \<and> failure_only r \<or>
      ra_state a \<noteq> AutomatonTerminal \<and>
      (\<exists>h. find_handler (observation_type e) = Some h \<and>
           h e (a\<lparr>ra_next_sequence := Some (n + 1)\<rparr>) = (Inr r, a'))"
proof -
  obtain t v a1 where t: "sdk_field e ''type'' = Inr (SdkStr t)" "sdk_field e ''sequence_number'' = Inr v"
    and s: "accept_sequence v a = (Inr (), a1)"
    and rest: "(if t = lit ''error''
        then next_do (enter AutomatonTerminal) (ret [failed_event UnknownFailure])
        else ask (\<lambda>a.
            if ra_state a = AutomatonTerminal then raise InvalidSDKObservation
            else if t = lit ''response.failed''
            then next_do (accept_response_terminal e ''response.failed'')
                   (next_do (enter AutomatonTerminal) (check (response_failure e)))
            else if t = lit ''response.incomplete''
            then next_do (accept_response_terminal e ''response.incomplete'')
                   (next_do (enter AutomatonTerminal) (ret [failed_event RequestRejected]))
            else case find_handler t of None \<Rightarrow> raise InvalidSDKObservation | Some h \<Rightarrow> h e)) a1 = (Inr r, a')"
    using assms(1) unfolding accept_event_def step_iff by (auto simp del: lit_simps)
  obtain m where m: "v = SdkInt m" "ra_next_sequence a = None \<or> ra_next_sequence a = Some m"
    "a1 = a\<lparr>ra_next_sequence := Some (m + 1)\<rparr>"
    using accept_sequence_Inr [OF s] by blast
  have n: "n = m" "observation_type e = t"
    using t m(1) by (simp_all add: n_def observation_sequence_def observation_type_def)
  from m(2) n show "ra_next_sequence a = None \<or> ra_next_sequence a = Some n" by simp
  show "ra_state a' = AutomatonTerminal \<and> ra_next_sequence a' = Some (n + 1) \<and> failure_only r \<or>
      ra_state a \<noteq> AutomatonTerminal \<and>
      (\<exists>h. find_handler (observation_type e) = Some h \<and>
           h e (a\<lparr>ra_next_sequence := Some (n + 1)\<rparr>) = (Inr r, a'))"
    using rest m(3) n
    by (auto simp: step_iff failure_only_def simp del: lit_simps dest!: accept_response_terminal_Inr
        response_failure_Inr split: if_splits option.splits)
qed

subsection \<open>The order of a response\<close>

text \<open>
  The types of the observations accepted on the way to a state: \<open>q\<close> says whether the response was
  queued, \<open>r\<close> whether a reasoning item came first, \<open>n\<close> counts the deltas.
\<close>

definition opening_types :: "bool \<Rightarrow> string list" where
  "opening_types q =
     ''response.created'' # (if q then [''response.queued''] else []) @ [''response.in_progress'']"

definition item_types :: "bool \<Rightarrow> string list" where
  "item_types r =
     (if r then [''response.output_item.added'', ''response.output_item.done''] else []) @
     [''response.output_item.added'']"

definition text_types :: "bool \<Rightarrow> bool \<Rightarrow> nat \<Rightarrow> string list" where
  "text_types q r n =
     opening_types q @ item_types r @ [''response.content_part.added''] @
     replicate n ''response.output_text.delta''"

fun stage_types :: "automaton_state \<Rightarrow> bool \<Rightarrow> bool \<Rightarrow> nat \<Rightarrow> string list" where
  "stage_types CreatedExpected q r n = []"
| "stage_types QueuedOrInProgress q r n = [''response.created'']"
| "stage_types InProgress q r n = [''response.created'', ''response.queued'']"
| "stage_types OutputItemAdded q r n = opening_types q"
| "stage_types ReasoningItemDone q r n = opening_types q @ [''response.output_item.added'']"
| "stage_types MessageItemAdded q r n =
     opening_types q @ [''response.output_item.added'', ''response.output_item.done'']"
| "stage_types ContentPartAdded q r n = opening_types q @ item_types r"
| "stage_types DeltaExpected q r n = text_types q r 0"
| "stage_types DeltaOrDone q r n = text_types q r n"
| "stage_types ContentPartDone q r n = text_types q r n @ [''response.output_text.done'']"
| "stage_types OutputItemDone q r n =
     text_types q r n @ [''response.output_text.done'', ''response.content_part.done'']"
| "stage_types CompletedExpected q r n =
     text_types q r n @ [''response.output_text.done'', ''response.content_part.done'',
       ''response.output_item.done'']"
| "stage_types AutomatonTerminal q r n =
     text_types q r n @ [''response.output_text.done'', ''response.content_part.done'',
       ''response.output_item.done'', ''response.completed'']"

definition text_started :: "automaton_state \<Rightarrow> bool" where
  "text_started q \<longleftrightarrow>
     q \<in> {DeltaOrDone, ContentPartDone, OutputItemDone, CompletedExpected, AutomatonTerminal}"

definition text_finished :: "automaton_state \<Rightarrow> bool" where
  "text_finished q \<longleftrightarrow> q \<in> {ContentPartDone, OutputItemDone, CompletedExpected, AutomatonTerminal}"

definition reasoning_known :: "automaton_state \<Rightarrow> bool option" where
  "reasoning_known q =
     (case q of ReasoningItemDone \<Rightarrow> Some True | MessageItemAdded \<Rightarrow> Some True
      | CreatedExpected \<Rightarrow> Some False | QueuedOrInProgress \<Rightarrow> Some False
      | InProgress \<Rightarrow> Some False | OutputItemAdded \<Rightarrow> Some False | _ \<Rightarrow> None)"

text \<open>The provider events handed on in a state.\<close>

definition text_events :: "automaton \<Rightarrow> provider_stream_event list" where
  "text_events a =
     map ProviderTextDelta (ra_text_fragments a) @
     (if text_finished (ra_state a) then [ProviderTextCompleted (automaton_text a)] else [])"

definition fragments_ok :: "automaton \<Rightarrow> bool" where
  "fragments_ok a \<longleftrightarrow>
     list_all (\<lambda>d. d \<noteq> [] \<and> terminal_safe d) (ra_text_fragments a) \<and>
     (ra_text_fragments a \<noteq> [] \<longleftrightarrow> text_started (ra_state a))"

definition stage_ok :: "automaton \<Rightarrow> ustr list \<Rightarrow> bool" where
  "stage_ok a ts \<longleftrightarrow>
     fragments_ok a \<and>
     (case reasoning_known (ra_state a) of None \<Rightarrow> True | Some b \<Rightarrow> (ra_reasoning_item_id a \<noteq> None) = b) \<and>
     (\<exists>q. ts = map lit (stage_types (ra_state a) q (ra_reasoning_item_id a \<noteq> None)
                          (length (ra_text_fragments a))))"

lemma handler_cases:
  assumes "find_handler t = Some h"
  obtains "t = lit ''response.created''" "h = on_created"
  | "t = lit ''response.queued''" "h = on_queued"
  | "t = lit ''response.in_progress''" "h = on_in_progress"
  | "t = lit ''response.output_item.added''" "h = on_output_item_added"
  | "t = lit ''response.content_part.added''" "h = on_content_part_added"
  | "t = lit ''response.output_text.delta''" "h = on_text_delta"
  | "t = lit ''response.output_text.done''" "h = on_text_done"
  | "t = lit ''response.content_part.done''" "h = on_content_part_done"
  | "t = lit ''response.output_item.done''" "h = on_output_item_done"
  | "t = lit ''response.completed''" "h = on_completed"
proof -
  have "(t, h) \<in> set (map (\<lambda>(n, h). (lit n, h)) handlers)"
    using assms unfolding find_handler_def by (rule map_of_SomeD)
  then show thesis
    unfolding handlers_def using that by (simp del: lit_simps) blast
qed

text \<open>
  A handler that returns moves to the next stage and hands on the new events; completing adds the
  usage and the completion.
\<close>

definition advanced :: "automaton \<Rightarrow> provider_stream_event list \<Rightarrow> automaton \<Rightarrow> bool" where
  "advanced a r a' \<longleftrightarrow>
     (if ra_state a' = AutomatonTerminal
      then text_events a' = text_events a \<and> (\<exists>us. usage_shape us \<and> r = us @ [ProviderCompleted])
      else text_events a' = text_events a @ r)"

lemma stage_okE:
  assumes "stage_ok a ts"
  obtains q where "fragments_ok a"
    "reasoning_known (ra_state a) = None \<or> reasoning_known (ra_state a) = Some (ra_reasoning_item_id a \<noteq> None)"
    "ts = map lit (stage_types (ra_state a) q (ra_reasoning_item_id a \<noteq> None) (length (ra_text_fragments a)))"
  using assms unfolding stage_ok_def by (auto split: option.splits)

lemma stage_okI:
  assumes "fragments_ok a"
    "reasoning_known (ra_state a) = None \<or> reasoning_known (ra_state a) = Some (ra_reasoning_item_id a \<noteq> None)"
    "ts = map lit (stage_types (ra_state a) q (ra_reasoning_item_id a \<noteq> None) (length (ra_text_fragments a)))"
  shows "stage_ok a ts"
  using assms unfolding stage_ok_def by (auto split: option.splits)

lemmas stage_facts =
  fragments_ok_def text_started_def text_finished_def reasoning_known_def text_events_def
  automaton_text_def advanced_def

lemma handler_step:
  assumes "find_handler t = Some h" "h e a = (Inr r, a')" "stage_ok a ts"
  shows "stage_ok a' (ts @ [t]) \<and> advanced a r a'"
proof -
  from assms(3) obtain q where f: "fragments_ok a"
    and k: "reasoning_known (ra_state a) = None \<or> reasoning_known (ra_state a) = Some (ra_reasoning_item_id a \<noteq> None)"
    and ts: "ts = map lit (stage_types (ra_state a) q (ra_reasoning_item_id a \<noteq> None) (length (ra_text_fragments a)))"
    by (rule stage_okE)
  have fin: "stage_ok a' (ts @ [t]) \<and> advanced a r a'"
    if "fragments_ok a'" "advanced a r a'"
      "reasoning_known (ra_state a') = None \<or> reasoning_known (ra_state a') = Some (ra_reasoning_item_id a' \<noteq> None)"
      "t = lit s"
      "stage_types (ra_state a) q (ra_reasoning_item_id a \<noteq> None) (length (ra_text_fragments a)) @ [s] =
         stage_types (ra_state a') q' (ra_reasoning_item_id a' \<noteq> None) (length (ra_text_fragments a'))"
    for q' s
  proof -
    have "ts @ [t] = map lit (stage_types (ra_state a) q (ra_reasoning_item_id a \<noteq> None)
        (length (ra_text_fragments a)) @ [s])"
      unfolding ts that(4) by simp
    then show ?thesis using that(1-3) unfolding that(5) by (intro conjI stage_okI) auto
  qed
  from assms(1) show ?thesis
  proof (cases rule: handler_cases)
    case 1
    from on_created_Inr [OF assms(2) [unfolded 1(2)]] f k 1(1) show ?thesis
      by (elim conjE exE, intro fin [where q' = q and s = "''response.created''"])
        (simp_all add: stage_facts del: lit_simps)
  next
    case 2
    from on_queued_Inr [OF assms(2) [unfolded 2(2)]] f k 2(1) show ?thesis
      by (elim conjE exE, intro fin [where q' = q and s = "''response.queued''"])
        (simp_all add: stage_facts del: lit_simps)
  next
    case 3
    from on_in_progress_Inr [OF assms(2) [unfolded 3(2)]] consider
        "ra_state a = QueuedOrInProgress" "r = []" "a' = a\<lparr>ra_state := OutputItemAdded\<rparr>"
      | "ra_state a = InProgress" "r = []" "a' = a\<lparr>ra_state := OutputItemAdded\<rparr>" by blast
    then show ?thesis
      by cases (use f k 3(1) in \<open>intro fin [where q' = "ra_state a = InProgress" and s = "''response.in_progress''"];
        simp add: stage_facts opening_types_def del: lit_simps\<close>)+
  next
    case 4
    with assms(2) on_output_item_added_Inr [of e a r a'] have r: "r = []"
      and c: "ra_state a = OutputItemAdded \<and>
          (\<exists>s. a' = a\<lparr>ra_reasoning_item_id := Some s, ra_state := ReasoningItemDone\<rparr>) \<or>
        ra_state a \<in> {OutputItemAdded, MessageItemAdded} \<and>
          (\<exists>s. a' = a\<lparr>ra_message_output_index := (if ra_reasoning_item_id a \<noteq> None then 1 else 0),
                     ra_item_id := Some s, ra_state := ContentPartAdded\<rparr>)"
      by blast+
    from c consider (reasoning) s where "ra_state a = OutputItemAdded"
        "a' = a\<lparr>ra_reasoning_item_id := Some s, ra_state := ReasoningItemDone\<rparr>"
      | (message) s i where "ra_state a \<in> {OutputItemAdded, MessageItemAdded}"
        "a' = a\<lparr>ra_message_output_index := i, ra_item_id := Some s, ra_state := ContentPartAdded\<rparr>"
      by blast
    then show ?thesis
    proof cases
      case reasoning
      with f r 4(1) show ?thesis
        by (intro fin [where q' = q and s = "''response.output_item.added''"]) (simp_all add: stage_facts del: lit_simps)
    next
      case message
      with f k r 4(1) show ?thesis
        by (intro fin [where q' = q and s = "''response.output_item.added''"])
          (auto simp: stage_facts item_types_def simp del: lit_simps)
    qed
  next
    case 5
    from on_content_part_added_Inr [OF assms(2) [unfolded 5(2)]] f k 5(1) show ?thesis
      by (elim conjE exE, intro fin [where q' = q and s = "''response.content_part.added''"])
        (simp_all add: stage_facts text_types_def del: lit_simps)
  next
    case 6
    with assms(2) on_text_delta_Inr [of e a r a'] obtain d where d:
      "ra_state a \<in> {DeltaExpected, DeltaOrDone}" "d \<noteq> []" "terminal_safe d" "r = [ProviderTextDelta d]"
      "a' = a\<lparr>ra_text_fragments := ra_text_fragments a @ [d], ra_state := DeltaOrDone\<rparr>" by blast
    have "text_types q b n @ [''response.output_text.delta''] = text_types q b (Suc n)" for b n
      by (simp add: text_types_def replicate_append_same)
    moreover have "ra_text_fragments a = []" if "ra_state a = DeltaExpected"
      using f that by (simp add: fragments_ok_def text_started_def)
    ultimately have "stage_types (ra_state a) q (ra_reasoning_item_id a \<noteq> None) (length (ra_text_fragments a)) @
        [''response.output_text.delta''] =
        stage_types (ra_state a') q (ra_reasoning_item_id a' \<noteq> None) (length (ra_text_fragments a'))"
      using d(1,5) by auto
    moreover have "fragments_ok a'" "advanced a r a'" "reasoning_known (ra_state a') = None"
      using d f by (auto simp: stage_facts)
    ultimately show ?thesis using 6(1)
      by (intro fin [where q' = q and s = "''response.output_text.delta''"]) (simp_all del: lit_simps)
  next
    case 7
    from on_text_done_Inr [OF assms(2) [unfolded 7(2)]] f k 7(1) show ?thesis
      by (elim conjE exE, intro fin [where q' = q and s = "''response.output_text.done''"])
        (simp_all add: stage_facts del: lit_simps)
  next
    case 8
    from on_content_part_done_Inr [OF assms(2) [unfolded 8(2)]] f k 8(1) show ?thesis
      by (elim conjE exE, intro fin [where q' = q and s = "''response.content_part.done''"])
        (simp_all add: stage_facts del: lit_simps)
  next
    case 9
    with assms(2) on_output_item_done_Inr [of e a r a'] consider
        "r = []" "ra_state a = ReasoningItemDone" "a' = a\<lparr>ra_state := MessageItemAdded\<rparr>"
      | "r = []" "ra_state a = OutputItemDone" "a' = a\<lparr>ra_state := CompletedExpected\<rparr>" by blast
    then show ?thesis
      by cases (use f k 9(1) in \<open>intro fin [where q' = q and s = "''response.output_item.done''"];
        simp add: stage_facts del: lit_simps\<close>)+
  next
    case 10
    with assms(2) on_completed_Inr [of e a r a'] have c: "ra_state a = CompletedExpected"
      "a' = a\<lparr>ra_state := AutomatonTerminal\<rparr>" "\<exists>us. usage_shape us \<and> r = us @ [ProviderCompleted]" by blast+
    have "advanced a r a'" using c by (simp add: stage_facts)
    moreover have "fragments_ok a'" "reasoning_known (ra_state a') = None" using c(1,2) f by (simp_all add: stage_facts)
    ultimately show ?thesis using c(1,2) 10(1)
      by (intro fin [where q' = q and s = "''response.completed''"]) (simp_all del: lit_simps)
  qed
qed

end
