(* ===== verification/Responses_Contract.thy ===== *)
theory Responses_Contract
  imports Responses_Stream
begin

section \<open>The stream of one response\<close>

text \<open>
  \<open>read_stream\<close> is what an undisturbed consumer of the operation receives from a finite list of
  observations: progress events one by one, and the terminal tuple of the first observation that
  ends the stream, raises, or is missing. The properties state its shape for arbitrary untrusted
  observations, the order a completed response was sent in, and that every canonical response is
  read back whole.
\<close>

definition is_progress :: "provider_stream_event list \<Rightarrow> bool" where
  "is_progress mapped \<longleftrightarrow>
     (case mapped of [ProviderTextDelta _] \<Rightarrow> True | [ProviderTextCompleted _] \<Rightarrow> True | _ \<Rightarrow> False)"

fun read_stream :: "sdk_value list \<Rightarrow> automaton \<Rightarrow> provider_stream_event list" where
  "read_stream [] a = [normalize_exception StopAsyncIteration]"
| "read_stream (e # es) a =
     (case accept_event e a of
        (Inl x, _) \<Rightarrow> [normalize_exception x]
      | (Inr mapped, a') \<Rightarrow>
          if mapped = [] then read_stream es a'
          else if is_progress mapped then mapped @ read_stream es a'
          else mapped)"

text \<open>The observations consumed: up to and including the one that ended the stream.\<close>

fun consumed_observations :: "sdk_value list \<Rightarrow> automaton \<Rightarrow> sdk_value list" where
  "consumed_observations [] a = []"
| "consumed_observations (e # es) a =
     (case accept_event e a of
        (Inl _, _) \<Rightarrow> [e]
      | (Inr mapped, a') \<Rightarrow>
          if mapped = [] \<or> is_progress mapped then e # consumed_observations es a' else [e])"

subsection \<open>The shape of the stream\<close>

definition stream_shape :: "provider_stream_event list \<Rightarrow> bool" where
  "stream_shape out \<longleftrightarrow>
     (\<exists>ds c. list_all (\<lambda>d. d \<noteq> [] \<and> terminal_safe d) ds \<and>
        (out = map ProviderTextDelta ds @ [failed_event c] \<or>
         ds \<noteq> [] \<and> out = map ProviderTextDelta ds @ [ProviderTextCompleted (concat ds), failed_event c] \<or>
         ds \<noteq> [] \<and> (\<exists>us. usage_shape us \<and>
            out = map ProviderTextDelta ds @ ProviderTextCompleted (concat ds) # us @ [ProviderCompleted])))"

lemma normalize_exception_failed: "\<exists>c. normalize_exception x = failed_event c"
  by (cases x) auto

text \<open>A state reached without a terminal: its stage, what was handed on, and the sequence so far.\<close>

definition reached :: "automaton \<Rightarrow> sdk_value list \<Rightarrow> bool" where
  "reached a es \<longleftrightarrow>
     stage_ok a (map observation_type es) \<and> ra_state a \<noteq> AutomatonTerminal \<and>
     (\<exists>first. map observation_sequence es = map (\<lambda>i. first + int i) [0..<length es] \<and>
        ra_next_sequence a = (if es = [] then None else Some (first + int (length es))))"

lemma reached_new: "reached (new_automaton model) []"
  by (auto simp: reached_def stage_ok_def new_automaton_def fragments_ok_def text_started_def
      reasoning_known_def)

lemma ends_failed:
  assumes "stage_ok a ts" "ra_state a \<noteq> AutomatonTerminal"
  shows "stream_shape (text_events a @ [failed_event c])"
proof -
  have f: "fragments_ok a" using assms(1) by (rule stage_okE)
  show ?thesis
  proof (cases "text_finished (ra_state a)")
    case True
    then have "ra_text_fragments a \<noteq> []"
      using f by (auto simp: fragments_ok_def text_started_def text_finished_def)
    with True f show ?thesis
      by (auto simp: stream_shape_def text_events_def fragments_ok_def automaton_text_def)
  next
    case False
    with f show ?thesis
      by (auto simp: stream_shape_def text_events_def fragments_ok_def)
  qed
qed

lemma sequence_step:
  assumes "map observation_sequence es = map (\<lambda>i. first + int i) [0..<length es]"
    and "ra_next_sequence a = (if es = [] then None else Some (first + int (length es)))"
    and "ra_next_sequence a = None \<or> ra_next_sequence a = Some (observation_sequence e)"
  shows "\<exists>first'. map observation_sequence (es @ [e]) = map (\<lambda>i. first' + int i) [0..<length (es @ [e])] \<and>
    observation_sequence e + 1 = first' + int (length (es @ [e]))"
proof (cases "es = []")
  case True
  then show ?thesis by (intro exI [of _ "observation_sequence e"]) simp
next
  case False
  with assms show ?thesis by (intro exI [of _ first]) auto
qed

lemma handler_progress:
  assumes "find_handler t = Some h" "h e a = (Inr r, a')" "ra_state a' \<noteq> AutomatonTerminal"
  shows "r = [] \<or> is_progress r"
  using assms(1)
proof (cases rule: handler_cases)
  case 1
  from on_created_Inr [OF assms(2) [unfolded 1(2)]] show ?thesis by simp
next
  case 2
  from on_queued_Inr [OF assms(2) [unfolded 2(2)]] show ?thesis by simp
next
  case 3
  from on_in_progress_Inr [OF assms(2) [unfolded 3(2)]] show ?thesis by simp
next
  case 4
  from on_output_item_added_Inr [OF assms(2) [unfolded 4(2)]] show ?thesis by simp
next
  case 5
  from on_content_part_added_Inr [OF assms(2) [unfolded 5(2)]] show ?thesis by simp
next
  case 6
  from on_text_delta_Inr [OF assms(2) [unfolded 6(2)]] show ?thesis by (auto simp: is_progress_def)
next
  case 7
  from on_text_done_Inr [OF assms(2) [unfolded 7(2)]] show ?thesis by (simp add: is_progress_def)
next
  case 8
  from on_content_part_done_Inr [OF assms(2) [unfolded 8(2)]] show ?thesis by simp
next
  case 9
  from on_output_item_done_Inr [OF assms(2) [unfolded 9(2)]] show ?thesis by simp
next
  case 10
  from on_completed_Inr [OF assms(2) [unfolded 10(2)]] assms(3) show ?thesis by simp
qed

lemma handler_terminal:
  assumes "find_handler t = Some h" "h e a = (Inr r, a')" "ra_state a' = AutomatonTerminal"
    and "ra_state a \<noteq> AutomatonTerminal"
  shows "ra_text_fragments a' = ra_text_fragments a"
  using assms(1)
proof (cases rule: handler_cases)
  case 6
  from on_text_delta_Inr [OF assms(2) [unfolded 6(2)]] assms(3) show ?thesis by auto
next
  case 10
  from on_completed_Inr [OF assms(2) [unfolded 10(2)]] show ?thesis by auto
qed (use assms(2,3) in \<open>auto dest!: on_created_Inr on_queued_Inr on_in_progress_Inr on_output_item_added_Inr
      on_content_part_added_Inr on_text_done_Inr on_content_part_done_Inr on_output_item_done_Inr\<close>)

lemma handler_sequence:
  assumes "find_handler t = Some h" "h e a = (Inr r, a')"
  shows "ra_next_sequence a' = ra_next_sequence a"
  using assms(1)
  by (cases rule: handler_cases)
    (use assms(2) in \<open>auto dest!: on_created_Inr on_queued_Inr on_in_progress_Inr on_output_item_added_Inr
      on_content_part_added_Inr on_text_delta_Inr on_text_done_Inr on_content_part_done_Inr
      on_output_item_done_Inr on_completed_Inr\<close>)

lemma completion_not_progress: "usage_shape us \<Longrightarrow> us @ [ProviderCompleted] \<noteq> [] \<and> \<not> is_progress (us @ [ProviderCompleted])"
  by (auto simp: usage_shape_def is_progress_def)

lemma failure_not_progress: "failure_only r \<Longrightarrow> r \<noteq> [] \<and> \<not> is_progress r"
  unfolding failure_only_def failed_event_def is_progress_def by (fastforce split: prod.splits)

text \<open>The observations of a completed response, in the one admitted order.\<close>

definition completed_order :: "sdk_value list \<Rightarrow> nat \<Rightarrow> bool" where
  "completed_order es n \<longleftrightarrow>
     (\<exists>q r. map observation_type es =
        map lit (text_types q r n @ [''response.output_text.done'', ''response.content_part.done'',
          ''response.output_item.done'', ''response.completed''])) \<and>
     (\<exists>first. map observation_sequence es = map (\<lambda>i. first + int i) [0..<length es])"

lemma accept_step:
  assumes "reached a es" "accept_event e a = (Inr r, a')"
  obtains (progress) "reached a' (es @ [e])" "text_events a' = text_events a @ r" "r = [] \<or> is_progress r"
  | (failed) "failure_only r"
  | (completed) us where "usage_shape us" "r = us @ [ProviderCompleted]"
      "text_events a = map ProviderTextDelta (ra_text_fragments a) @ [ProviderTextCompleted (concat (ra_text_fragments a))]"
      "ra_text_fragments a \<noteq> []" "list_all (\<lambda>d. d \<noteq> [] \<and> terminal_safe d) (ra_text_fragments a)"
      "completed_order (es @ [e]) (length (ra_text_fragments a))"
proof -
  from assms(1) obtain first where st: "stage_ok a (map observation_type es)" "ra_state a \<noteq> AutomatonTerminal"
    and sq: "map observation_sequence es = map (\<lambda>i. first + int i) [0..<length es]"
      "ra_next_sequence a = (if es = [] then None else Some (first + int (length es)))"
    unfolding reached_def by blast
  from sequence_step [OF sq accept_event_Inr(1) [OF assms(2)]] obtain first' where
    sq': "map observation_sequence (es @ [e]) = map (\<lambda>i. first' + int i) [0..<length (es @ [e])]"
      "observation_sequence e + 1 = first' + int (length (es @ [e]))" by blast
  let ?a = "a\<lparr>ra_next_sequence := Some (observation_sequence e + 1)\<rparr>"
  have st': "stage_ok ?a (map observation_type es)"
    using st(1) by (elim stage_okE) (rule stage_okI; simp add: fragments_ok_def)
  have te: "text_events ?a = text_events a" by (simp add: text_events_def automaton_text_def)
  from accept_event_Inr(2) [OF assms(2)] consider
      "failure_only r"
    | h where "find_handler (observation_type e) = Some h" "h e ?a = (Inr r, a')" by blast
  then show thesis
  proof cases
    case 1
    then show thesis by (rule failed)
  next
    case 2
    from handler_step [OF 2 st'] have n: "stage_ok a' (map observation_type (es @ [e]))" "advanced ?a r a'"
      by simp_all
    have ns: "ra_next_sequence a' = Some (observation_sequence e + 1)"
      using handler_sequence [OF 2] by simp
    show thesis
    proof (cases "ra_state a' = AutomatonTerminal")
      case False
      have "text_events a' = text_events a @ r" using n(2) False te by (simp add: advanced_def)
      moreover have "reached a' (es @ [e])"
        using n(1) ns sq' False by (auto simp: reached_def)
      ultimately show thesis using handler_progress [OF 2 False] by (intro progress)
    next
      case True
      with n(2) te obtain us where us: "text_events a' = text_events a" "usage_shape us" "r = us @ [ProviderCompleted]"
        unfolding advanced_def by auto
      from n(1) obtain q where f: "fragments_ok a'" and ts: "map observation_type (es @ [e]) =
          map lit (stage_types (ra_state a') q (ra_reasoning_item_id a' \<noteq> None) (length (ra_text_fragments a')))"
        by (rule stage_okE) 
      have fr: "ra_text_fragments a' = ra_text_fragments a" using handler_terminal [OF 2 True] st(2) by simp
      show thesis
      proof (rule completed [OF us(2,3)])
        show "text_events a = map ProviderTextDelta (ra_text_fragments a) @ [ProviderTextCompleted (concat (ra_text_fragments a))]"
          using us(1) fr True by (simp add: text_events_def text_finished_def automaton_text_def)
        show "ra_text_fragments a \<noteq> []" "list_all (\<lambda>d. d \<noteq> [] \<and> terminal_safe d) (ra_text_fragments a)"
          using f fr True by (auto simp: fragments_ok_def text_started_def)
        show "completed_order (es @ [e]) (length (ra_text_fragments a))"
          using ts sq'(1) fr True unfolding completed_order_def by (simp del: lit_simps) blast
      qed
    qed
  qed
qed

lemma read_stream_not_Nil [simp]: "read_stream obs a \<noteq> []"
  by (induction obs arbitrary: a) (auto split: prod.splits sum.splits)

lemma read_stream_shape:
  "reached a es \<Longrightarrow> stream_shape (text_events a @ read_stream obs a) \<and>
     (last (read_stream obs a) = ProviderCompleted \<longrightarrow>
        (\<exists>ds us. completed_order (es @ consumed_observations obs a) (length ds) \<and> usage_shape us \<and>
           text_events a @ read_stream obs a =
             map ProviderTextDelta ds @ ProviderTextCompleted (concat ds) # us @ [ProviderCompleted]))"
proof (induction obs arbitrary: a es)
  case Nil
  from Nil have "stage_ok a (map observation_type es)" "ra_state a \<noteq> AutomatonTerminal"
    by (simp_all add: reached_def)
  from ends_failed [OF this] show ?case by (simp add: failed_event_def split: prod.split)
next
  case (Cons e obs)
  have st: "stage_ok a (map observation_type es)" "ra_state a \<noteq> AutomatonTerminal"
    using Cons.prems by (simp_all add: reached_def)
  obtain r a' where s: "accept_event e a = (r, a')" by (rule prod.exhaust)
  show ?case
  proof (cases r)
    case (Inl x)
    obtain c where "normalize_exception x = failed_event c" using normalize_exception_failed by blast
    with ends_failed [OF st] s Inl show ?thesis by (simp add: failed_event_def split: prod.split)
  next
    case (Inr m)
    from Cons.prems s [unfolded Inr] show ?thesis
    proof (cases rule: accept_step)
      case progress
      have o: "text_events a @ read_stream (e # obs) a = text_events a' @ read_stream obs a'"
        "read_stream (e # obs) a = m @ read_stream obs a'"
        using s Inr progress(2,3) by auto
      have l: "last (read_stream (e # obs) a) = last (read_stream obs a')" using o(2) read_stream_not_Nil by simp
      have c: "es @ consumed_observations (e # obs) a = (es @ [e]) @ consumed_observations obs a'"
        using s Inr progress(3) by auto
      show ?thesis unfolding o(1) l c by (rule Cons.IH [OF progress(1)])
    next
      case failed
      with failure_not_progress [OF failed] s Inr have o: "read_stream (e # obs) a = m" by simp
      from failed obtain c where "m = [failed_event c]" by (auto simp: failure_only_def)
      with ends_failed [OF st] o show ?thesis by (simp add: failed_event_def split: prod.split)
    next
      case (completed us)
      with completion_not_progress [OF completed(1)] s Inr
      have o: "read_stream (e # obs) a = us @ [ProviderCompleted]" "consumed_observations (e # obs) a = [e]"
        by simp_all
      have "text_events a @ read_stream (e # obs) a = map ProviderTextDelta (ra_text_fragments a) @
          ProviderTextCompleted (concat (ra_text_fragments a)) # us @ [ProviderCompleted]"
        using o completed(3) by simp
      with completed(1,4-6) o(2) show ?thesis unfolding stream_shape_def by auto
    qed
  qed
qed

subsection \<open>Canonical responses\<close>

text \<open>
  The response a conforming service sends: its identities, whether it was queued, whether a reasoning
  item comes first, its deltas and its usage. \<open>luna_observations\<close> is its stream, numbered from
  \<open>first\<close>.
\<close>

record luna_response =
  lu_id :: ustr
  lu_queued :: bool
  lu_reasoning :: "ustr option"
  lu_item :: ustr
  lu_deltas :: "ustr list"
  lu_usage :: "(int \<times> int) option"

definition sdk_text_value :: "string \<Rightarrow> sdk_value option" where
  "sdk_text_value s = Some (SdkStr (lit s))"

definition observation :: "string \<Rightarrow> int \<Rightarrow> (string \<times> sdk_value option) list \<Rightarrow> sdk_value" where
  "observation ty n fs =
     SdkObject ((''type'', sdk_text_value ty) # (''sequence_number'', Some (SdkInt n)) # fs)"

definition output_text :: "ustr \<Rightarrow> sdk_value" where
  "output_text s =
     SdkObject [(''type'', sdk_text_value ''output_text''), (''text'', Some (SdkStr s)),
       (''annotations'', Some (SdkList []))]"

definition message_item :: "ustr \<Rightarrow> bool \<Rightarrow> sdk_value list \<Rightarrow> sdk_value" where
  "message_item i completed content =
     SdkObject [(''type'', sdk_text_value ''message''), (''role'', sdk_text_value ''assistant''),
       (''id'', Some (SdkStr i)), (''content'', Some (SdkList content)),
       (''status'', Some (expected_status completed))]"

definition reasoning_item :: "ustr \<Rightarrow> bool \<Rightarrow> sdk_value" where
  "reasoning_item i completed =
     SdkObject [(''type'', sdk_text_value ''reasoning''), (''id'', Some (SdkStr i)),
       (''summary'', Some (SdkList [])), (''status'', Some (expected_status completed))]"

definition response_field :: "luna_response \<Rightarrow> string \<times> sdk_value option" where
  "response_field l = (''response'', Some (SdkObject [(''id'', Some (SdkStr (lu_id l)))]))"

definition message_index :: "luna_response \<Rightarrow> int" where
  "message_index l = (if lu_reasoning l = None then 0 else 1)"

definition coordinates :: "luna_response \<Rightarrow> (string \<times> sdk_value option) list" where
  "coordinates l =
     [(''item_id'', Some (SdkStr (lu_item l))), (''output_index'', Some (SdkInt (message_index l))),
      (''content_index'', Some (SdkInt 0))]"

definition usage_value :: "(int \<times> int) option \<Rightarrow> sdk_value" where
  "usage_value u =
     (case u of
        None \<Rightarrow> SdkNone
      | Some (i, j) \<Rightarrow>
          SdkObject [(''input_tokens'', Some (SdkInt i)), (''output_tokens'', Some (SdkInt j)),
            (''total_tokens'', Some (SdkInt (i + j)))])"

definition final_response :: "ustr \<Rightarrow> luna_response \<Rightarrow> sdk_value" where
  "final_response model l =
     SdkObject [(''id'', Some (SdkStr (lu_id l))), (''status'', sdk_text_value ''completed''),
       (''model'', Some (SdkStr model)),
       (''reasoning'', Some (SdkObject [(''effort'', sdk_text_value ''none''),
          (''context'', sdk_text_value ''current_turn'')])),
       (''output'', Some (SdkList
          ((case lu_reasoning l of None \<Rightarrow> [] | Some r \<Rightarrow> [reasoning_item r True]) @
           [message_item (lu_item l) True [output_text (concat (lu_deltas l))]]))),
       (''usage'', Some (usage_value (lu_usage l)))]"

definition opening_part :: "luna_response \<Rightarrow> (string \<times> (string \<times> sdk_value option) list) list" where
  "opening_part l =
     (''response.created'', [response_field l]) #
     (if lu_queued l then [(''response.queued'', [response_field l])] else []) @
     [(''response.in_progress'', [response_field l])]"

definition reasoning_part :: "luna_response \<Rightarrow> (string \<times> (string \<times> sdk_value option) list) list" where
  "reasoning_part l =
     (case lu_reasoning l of
        None \<Rightarrow> []
      | Some r \<Rightarrow>
          [(''response.output_item.added'',
              [(''item'', Some (reasoning_item r False)), (''output_index'', Some (SdkInt 0))]),
           (''response.output_item.done'',
              [(''item'', Some (reasoning_item r True)), (''output_index'', Some (SdkInt 0))])])"

definition message_part :: "luna_response \<Rightarrow> (string \<times> (string \<times> sdk_value option) list) list" where
  "message_part l =
     [(''response.output_item.added'',
         [(''item'', Some (message_item (lu_item l) False [])),
          (''output_index'', Some (SdkInt (message_index l)))]),
      (''response.content_part.added'', (''part'', Some (output_text [])) # coordinates l)]"

definition delta_part :: "luna_response \<Rightarrow> (string \<times> (string \<times> sdk_value option) list) list" where
  "delta_part l =
     map (\<lambda>d. (''response.output_text.delta'', (''delta'', Some (SdkStr d)) # coordinates l)) (lu_deltas l)"

definition closing_part ::
  "ustr \<Rightarrow> luna_response \<Rightarrow> (string \<times> (string \<times> sdk_value option) list) list" where
  "closing_part model l =
     [(''response.output_text.done'', (''text'', Some (SdkStr (concat (lu_deltas l)))) # coordinates l),
      (''response.content_part.done'', (''part'', Some (output_text (concat (lu_deltas l)))) # coordinates l),
      (''response.output_item.done'',
         [(''item'', Some (message_item (lu_item l) True [output_text (concat (lu_deltas l))])),
          (''output_index'', Some (SdkInt (message_index l)))]),
      (''response.completed'', [(''response'', Some (final_response model l))])]"

definition luna_parts ::
  "ustr \<Rightarrow> luna_response \<Rightarrow> (string \<times> (string \<times> sdk_value option) list) list" where
  "luna_parts model l =
     opening_part l @ reasoning_part l @ message_part l @ delta_part l @ closing_part model l"

fun numbered :: "int \<Rightarrow> (string \<times> (string \<times> sdk_value option) list) list \<Rightarrow> sdk_value list" where
  "numbered n [] = []"
| "numbered n ((ty, fs) # ps) = observation ty n fs # numbered (n + 1) ps"

definition luna_observations :: "int \<Rightarrow> ustr \<Rightarrow> luna_response \<Rightarrow> sdk_value list" where
  "luna_observations first model l = numbered first (luna_parts model l)"

definition id_ok :: "ustr \<Rightarrow> bool" where
  "id_ok s \<longleftrightarrow> s \<noteq> [] \<and> list_all is_scalar s"

definition luna_ok :: "luna_response \<Rightarrow> bool" where
  "luna_ok l \<longleftrightarrow>
     id_ok (lu_id l) \<and> id_ok (lu_item l) \<and>
     (case lu_reasoning l of None \<Rightarrow> True | Some r \<Rightarrow> id_ok r) \<and>
     lu_deltas l \<noteq> [] \<and> list_all (\<lambda>d. d \<noteq> [] \<and> terminal_safe d) (lu_deltas l) \<and>
     (case lu_usage l of None \<Rightarrow> True
      | Some (i, j) \<Rightarrow> 0 \<le> i \<and> 0 \<le> j \<and> j \<le> OPENAI_MAX_OUTPUT_TOKENS \<and> i + j \<le> MAX_SAFE_INTEGER \<and>
          i \<le> MAX_MODEL_USAGE_TOKENS \<and> j \<le> MAX_MODEL_USAGE_TOKENS)"

text \<open>Accepting a list of parts from a state: the events handed on and the state after.\<close>

fun feed :: "int \<Rightarrow> (string \<times> (string \<times> sdk_value option) list) list \<Rightarrow> automaton \<Rightarrow>
  (provider_stream_event list \<times> automaton) option" where
  "feed n [] a = Some ([], a)"
| "feed n ((ty, fs) # ps) a =
     (case accept_event (observation ty n fs) a of
        (Inr m, a') \<Rightarrow>
          if m = [] \<or> is_progress m then map_option (\<lambda>(out, b). (m @ out, b)) (feed (n + 1) ps a') else None
      | (Inl _, _) \<Rightarrow> None)"

lemma feed_append:
  "feed n ps a = Some (out, b) \<Longrightarrow> feed (n + int (length ps)) qs b = Some (out', c) \<Longrightarrow>
     feed n (ps @ qs) a = Some (out @ out', c)"
proof (induction n ps a arbitrary: out rule: feed.induct)
  case (2 n ty fs ps a)
  then obtain m a' o2 where m: "accept_event (observation ty n fs) a = (Inr m, a')" "m = [] \<or> is_progress m"
    "feed (n + 1) ps a' = Some (o2, b)" "out = m @ o2"
    by (auto split: prod.splits sum.splits if_splits)
  with "2.IH" [OF m(1) [symmetric] refl m(2,3)] "2.prems"(2) show ?case by (simp add: add.assoc)
qed simp

lemma feed_read:
  "feed n ps a = Some (out, b) \<Longrightarrow> read_stream (numbered n ps @ obs) a = out @ read_stream obs b"
proof (induction n ps a arbitrary: out rule: feed.induct)
  case (2 n ty fs ps a)
  then obtain m a' o2 where m: "accept_event (observation ty n fs) a = (Inr m, a')" "m = [] \<or> is_progress m"
    "feed (n + 1) ps a' = Some (o2, b)" "out = m @ o2"
    by (auto split: prod.splits sum.splits if_splits)
  with "2.IH" [OF m(1) [symmetric] refl m(2,3)] show ?case by (cases "m = []") auto
qed simp

lemma observation_field [simp]:
  "name \<noteq> ''type'' \<Longrightarrow> name \<noteq> ''sequence_number'' \<Longrightarrow>
     sdk_field (observation ty n fs) name = sdk_field (SdkObject fs) name"
  "name \<noteq> ''type'' \<Longrightarrow> name \<noteq> ''sequence_number'' \<Longrightarrow>
     optional_field (observation ty n fs) name d f = optional_field (SdkObject fs) name d f"
  by (simp_all add: observation_def sdk_field_def optional_field_def)

lemma lit_scalar: "list_all is_scalar (lit ty) \<longleftrightarrow> list_all (\<lambda>c. is_scalar (of_char c)) ty"
  by (simp add: lit_def list_all_iff)

lemma accept_observation:
  assumes "find_handler (lit ty) = Some h" "ra_next_sequence a = None \<or> ra_next_sequence a = Some n"
    and "0 \<le> n" "n \<le> MAX_SAFE_INTEGER" "ra_state a \<noteq> AutomatonTerminal"
  shows "accept_event (observation ty n fs) a = h (observation ty n fs) (a\<lparr>ra_next_sequence := Some (n + 1)\<rparr>)"
proof -
  have ty: "ty \<in> fst ` set handlers"
    using assms(1) by (cases rule: handler_cases) (simp_all add: handlers_def lit_eq_iff del: lit_simps)
  then have t: "required_string (SdkStr (lit ty)) False = Inr (lit ty)"
    by (auto simp: handlers_def is_scalar_def is_surrogate_def)
  have ne: "lit ty \<noteq> lit ''error''" "lit ty \<noteq> lit ''response.failed''" "lit ty \<noteq> lit ''response.incomplete''"
    using ty by (auto simp: handlers_def lit_eq_iff simp del: lit_simps)
  have sf: "sdk_field (observation ty n fs) ''type'' = Inr (SdkStr (lit ty))"
    "sdk_field (observation ty n fs) ''sequence_number'' = Inr (SdkInt n)"
    by (simp_all add: observation_def sdk_field_def sdk_text_value_def)
  have sq: "accept_sequence (SdkInt n) a = (Inr (), a\<lparr>ra_next_sequence := Some (n + 1)\<rparr>)"
    using assms(2-4) by (auto simp: accept_sequence_def seq_simps require_that_def raise_unless_def safe_integer_def)
  show ?thesis
    using assms(1,5) ne
    by (simp add: accept_event_def seq_simps sf t sq del: lit_simps)
qed

definition at_stage ::
  "ustr \<Rightarrow> luna_response \<Rightarrow> automaton_state \<Rightarrow> int \<Rightarrow> ustr option \<Rightarrow> ustr option \<Rightarrow> nat \<Rightarrow> ustr list \<Rightarrow> automaton" where
  "at_stage model l q n reasoning item i frags =
     \<lparr>ra_model = model, ra_state = q, ra_next_sequence = Some n, ra_response_id = Some (lu_id l),
      ra_reasoning_item_id = reasoning, ra_item_id = item, ra_message_output_index = i,
      ra_text_fragments = frags\<rparr>"

lemma field_simps:
  "sdk_field (SdkObject m) name =
     (case map_of m name of None \<Rightarrow> Inl InvalidSDKObservation | Some None \<Rightarrow> Inl OtherException
      | Some (Some x) \<Rightarrow> Inr x)"
  "optional_field (SdkObject m) name d f =
     (case map_of m name of None \<Rightarrow> Inr d | Some None \<Rightarrow> Inl OtherException | Some (Some x) \<Rightarrow> Inr (f x))"
  "optional_field SdkNone name d f = Inr d"
  by (simp_all add: sdk_field_def optional_field_def)

lemma require_that_simps [simp]: "require_that True = Inr ()" "require_that False = Inl InvalidSDKObservation"
  by (simp_all add: require_that_def raise_unless_def)

lemma id_string [simp]: "id_ok s \<Longrightarrow> required_string (SdkStr s) b = Inr s"
  by (simp add: id_ok_def)

lemma handlers_found:
  "find_handler (lit ''response.created'') = Some on_created"
  "find_handler (lit ''response.queued'') = Some on_queued"
  "find_handler (lit ''response.in_progress'') = Some on_in_progress"
  "find_handler (lit ''response.output_item.added'') = Some on_output_item_added"
  "find_handler (lit ''response.content_part.added'') = Some on_content_part_added"
  "find_handler (lit ''response.output_text.delta'') = Some on_text_delta"
  "find_handler (lit ''response.output_text.done'') = Some on_text_done"
  "find_handler (lit ''response.content_part.done'') = Some on_content_part_done"
  "find_handler (lit ''response.output_item.done'') = Some on_output_item_done"
  "find_handler (lit ''response.completed'') = Some on_completed"
  by (simp_all add: find_handler_def handlers_def lit_eq_iff del: lit_simps)

lemmas accepts = handlers_found [THEN accept_observation]

lemma luna_ids:
  assumes "luna_ok l"
  shows "id_ok (lu_id l)" "id_ok (lu_item l)" "lu_reasoning l = Some r \<Longrightarrow> id_ok r"
  using assms by (auto simp: luna_ok_def)

lemma feed_opening:
  assumes "luna_ok l" "0 \<le> n" "n + 3 \<le> MAX_SAFE_INTEGER"
  shows "feed n (opening_part l) (new_automaton model) =
    Some ([], at_stage model l OutputItemAdded (n + int (length (opening_part l))) None None 0 [])"
  using assms(2,3) luna_ids(1) [OF assms(1)]
  by (simp add: opening_part_def accepts new_automaton_def on_created_def on_queued_def on_in_progress_def
      require_state_def seq_simps field_simps response_field_def require_response_identity_def at_stage_def
      del: lit_simps)

lemma status_not_none [simp]: "expected_status b \<noteq> SdkNone"
  by (simp add: expected_status_def)

lemma reasoning_item_valid:
  "id_ok r \<Longrightarrow> validate_reasoning_item (reasoning_item r b) b = Inr r"
  by (simp add: validate_reasoning_item_def reasoning_item_def field_simps sdk_text_value_def require_empty_list_def
      required_list_def require_absent_or_empty_list_def del: lit_simps)

lemma message_item_valid:
  "id_ok i \<Longrightarrow> validate_message (message_item i b content) (length content) b = Inr i"
  by (simp add: validate_message_def message_item_def field_simps sdk_text_value_def required_list_def
      del: lit_simps)

lemma output_text_valid:
  "list_all is_scalar s \<Longrightarrow> validate_output_text (output_text s) s = Inr ()"
  by (simp add: validate_output_text_def output_text_def field_simps sdk_text_value_def require_empty_list_def
      required_list_def del: lit_simps)

lemma index_valid:
  "map_of fs name = Some (Some (SdkInt i)) \<Longrightarrow> 0 \<le> i \<Longrightarrow> i \<le> 1 \<Longrightarrow> name \<noteq> ''type'' \<Longrightarrow>
     name \<noteq> ''sequence_number'' \<Longrightarrow> require_index (observation ty n fs) name i = Inr ()"
  by (simp add: require_index_def field_simps MAX_SAFE_INTEGER_def)

lemma feed_reasoning:
  assumes "luna_ok l" "0 \<le> n" "n + 2 \<le> MAX_SAFE_INTEGER" "lu_reasoning l = Some r"
  shows "feed n (reasoning_part l) (at_stage model l OutputItemAdded n None None 0 []) =
    Some ([], at_stage model l MessageItemAdded (n + 2) (Some r) None 0 [])"
proof -
  have "field_or_none (reasoning_item r False) ''type'' = Inr (SdkStr (lit ''reasoning''))"
    by (simp add: reasoning_item_def field_simps sdk_text_value_def del: lit_simps)
  then show ?thesis
    using assms(2,3) luna_ids(3) [OF assms(1,4)] assms(4)
    by (simp add: reasoning_part_def accepts on_output_item_added_def on_reasoning_added_def
        on_output_item_done_def on_reasoning_done_def reasoning_item_valid index_valid require_state_def
        seq_simps field_simps at_stage_def del: lit_simps)
qed

text \<open>Where the message item begins: after the opening, or after the reasoning item.\<close>

definition message_start :: "ustr \<Rightarrow> luna_response \<Rightarrow> int \<Rightarrow> automaton" where
  "message_start model l n =
     (case lu_reasoning l of
        None \<Rightarrow> at_stage model l OutputItemAdded n None None 0 []
      | Some r \<Rightarrow> at_stage model l MessageItemAdded n (Some r) None 0 [])"

abbreviation in_message ::
  "ustr \<Rightarrow> luna_response \<Rightarrow> automaton_state \<Rightarrow> int \<Rightarrow> ustr list \<Rightarrow> automaton" where
  "in_message model l q n frags \<equiv>
     at_stage model l q n (lu_reasoning l) (Some (lu_item l)) (nat (message_index l)) frags"

lemma message_index_simps [simp]:
  "int (nat (message_index l)) = message_index l" "0 \<le> message_index l" "message_index l \<le> 1"
  by (simp_all add: message_index_def)

lemma coordinates_valid:
  assumes "luna_ok l" "fs = (name, v) # coordinates l" "name \<notin> {''item_id'', ''output_index'', ''content_index''}"
    and "ra_item_id a = Some (lu_item l)" "ra_message_output_index a = nat (message_index l)"
  shows "require_item_coordinates (observation ty n fs) a = (Inr (), a)"
proof -
  have n: "''item_id'' \<noteq> name" "''output_index'' \<noteq> name" "''content_index'' \<noteq> name" using assms(3) by auto
  have i: "require_index (observation ty n fs) ''output_index'' (message_index l) = Inr ()"
    "require_index (observation ty n fs) ''content_index'' 0 = Inr ()"
    by (rule index_valid; use assms(2) n in \<open>simp add: coordinates_def\<close>)+
  have "sdk_field (observation ty n fs) ''item_id'' = Inr (SdkStr (lu_item l))"
    using assms(2) n by (simp add: field_simps coordinates_def)
  with i assms(4,5) luna_ids(2) [OF assms(1)] show ?thesis
    by (simp add: require_item_coordinates_def seq_simps)
qed

lemma feed_message:
  assumes "luna_ok l" "0 \<le> n" "n + 2 \<le> MAX_SAFE_INTEGER"
  shows "feed n (message_part l) (message_start model l n) = Some ([], in_message model l DeltaExpected (n + 2) [])"
proof -
  have ty: "field_or_none (message_item i b c) ''type'' = Inr (SdkStr (lit ''message''))" for i b c
    by (simp add: message_item_def field_simps sdk_text_value_def del: lit_simps)
  have neq: "lit ''message'' \<noteq> lit ''reasoning''" by simp
  have m: "validate_message (message_item (lu_item l) False []) 0 False = Inr (lu_item l)"
    using message_item_valid [OF luna_ids(2) [OF assms(1)], of False "[]"] by simp
  have first: "accept_event (observation ''response.output_item.added'' n
      [(''item'', Some (message_item (lu_item l) False [])), (''output_index'', Some (SdkInt (message_index l)))])
      (message_start model l n) = (Inr [], in_message model l ContentPartAdded (n + 1) [])"
    using assms(2,3) neq
    by (cases "lu_reasoning l")
      (simp_all add: message_start_def accepts at_stage_def on_output_item_added_def on_message_added_def
        ty m index_valid message_index_def seq_simps field_simps del: lit_simps)
  show ?thesis
    using assms(2,3) first output_text_valid [of "[]"] coordinates_valid [OF assms(1) refl]
    by (simp add: message_part_def accepts on_content_part_added_def require_state_def seq_simps field_simps
        at_stage_def del: lit_simps)
qed

lemma sdk_text_ok: "terminal_safe s \<Longrightarrow> b \<or> s \<noteq> [] \<Longrightarrow> sdk_text (SdkStr s) b = Inr s"
  by simp

lemma feed_deltas:
  assumes "luna_ok l"
  shows "list_all (\<lambda>d. d \<noteq> [] \<and> terminal_safe d) ds \<Longrightarrow> 0 \<le> n \<Longrightarrow>
     n + int (length ds) \<le> MAX_SAFE_INTEGER \<Longrightarrow> q \<in> {DeltaExpected, DeltaOrDone} \<Longrightarrow>
     feed n (map (\<lambda>d. (''response.output_text.delta'', (''delta'', Some (SdkStr d)) # coordinates l)) ds)
       (in_message model l q n frags) =
     Some (map ProviderTextDelta ds,
           in_message model l (if ds = [] then q else DeltaOrDone) (n + int (length ds)) (frags @ ds))"
proof (induction ds arbitrary: n q frags)
  case (Cons d ds)
  have "accept_event (observation ''response.output_text.delta'' n ((''delta'', Some (SdkStr d)) # coordinates l))
      (in_message model l q n frags) =
      (Inr [ProviderTextDelta d], in_message model l DeltaOrDone (n + 1) (frags @ [d]))"
    using Cons.prems coordinates_valid [OF assms refl]
    by (auto simp: accepts at_stage_def on_text_delta_def seq_simps field_simps coordinates_def
        require_absent_or_empty_list_def sdk_text_ok simp del: lit_simps)
  moreover have "feed (n + 1) (map (\<lambda>d. (''response.output_text.delta'', (''delta'', Some (SdkStr d)) # coordinates l)) ds)
      (in_message model l DeltaOrDone (n + 1) (frags @ [d])) =
      Some (map ProviderTextDelta ds, in_message model l DeltaOrDone (n + 1 + int (length ds)) (frags @ d # ds))"
    using Cons.IH [of "n + 1" DeltaOrDone "frags @ [d]"] Cons.prems by simp
  ultimately show ?case by (simp add: is_progress_def add.assoc)
qed simp

lemma terminal_safe_concat: "list_all terminal_safe ds \<Longrightarrow> terminal_safe (concat ds)"
  by (induction ds) (simp_all add: terminal_safe_def)

lemma luna_text:
  assumes "luna_ok l"
  shows "terminal_safe (concat (lu_deltas l))" "list_all is_scalar (concat (lu_deltas l))"
proof -
  have "list_all terminal_safe (lu_deltas l)" using assms by (auto simp: luna_ok_def list_all_iff)
  then show "terminal_safe (concat (lu_deltas l))" by (rule terminal_safe_concat)
  then show "list_all is_scalar (concat (lu_deltas l))" by (simp add: terminal_safe_def)
qed

definition usage_event :: "(int \<times> int) option \<Rightarrow> provider_stream_event list" where
  "usage_event u = (case u of None \<Rightarrow> [] | Some (i, j) \<Rightarrow> [ProviderUsageReported i j])"

lemma usage_value_events:
  assumes "luna_ok l"
  shows "usage_events (usage_value (lu_usage l)) = Inr (usage_event (lu_usage l))"
proof (cases "lu_usage l")
  case None
  then show ?thesis by (simp add: usage_events_def usage_value_def usage_event_def)
next
  case (Some u)
  obtain i j where u: "u = (i, j)" by (rule prod.exhaust)
  have b: "0 \<le> i" "0 \<le> j" "j \<le> OPENAI_MAX_OUTPUT_TOKENS" "i + j \<le> MAX_SAFE_INTEGER"
    "i \<le> MAX_MODEL_USAGE_TOKENS" "j \<le> MAX_MODEL_USAGE_TOKENS"
    using assms Some u by (auto simp: luna_ok_def)
  then have s: "safe_integer (SdkInt i) = Inr i" "safe_integer (SdkInt j) = Inr j"
    "safe_integer (SdkInt (i + j)) = Inr (i + j)" by simp_all
  have m: "make_usage (PyInt i) (PyInt j) = Inr (ProviderUsageReported i j)" using b by simp
  show ?thesis
    using b s m Some u
    by (simp add: usage_events_def usage_value_def usage_event_def field_simps
        del: make_usage_Inr_iff safe_integer_Inr_iff)
qed

lemma completed_observation:
  assumes "luna_ok l" "0 \<le> n" "n + 1 \<le> MAX_SAFE_INTEGER"
  shows "\<exists>a'. accept_event (observation ''response.completed'' n [(''response'', Some (final_response model l))])
      (in_message model l CompletedExpected n (lu_deltas l)) = (Inr (usage_event (lu_usage l) @ [ProviderCompleted]), a')"
proof -
  let ?t = "concat (lu_deltas l)" and ?r = "final_response model l"
  let ?msg = "message_item (lu_item l) True [output_text ?t]"
  have m: "validate_message ?msg (Suc 0) True = Inr (lu_item l)"
    using message_item_valid [OF luna_ids(2) [OF assms(1)], of True "[output_text ?t]"] by simp
  have c: "sdk_field ?msg ''content'' = Inr (SdkList [output_text ?t])"
    by (simp add: message_item_def field_simps)
  have o: "validate_output_text (output_text ?t) ?t = Inr ()" using output_text_valid [OF luna_text(2) [OF assms(1)]] .
  have f: "sdk_field ?r ''id'' = Inr (SdkStr (lu_id l))"
    "sdk_field ?r ''status'' = Inr (SdkStr (lit ''completed''))" "sdk_field ?r ''model'' = Inr (SdkStr model)"
    "field_or_none ?r ''error'' = Inr SdkNone" "field_or_none ?r ''incomplete_details'' = Inr SdkNone"
    "field_or_none ?r ''usage'' = Inr (usage_value (lu_usage l))"
    "field_or_none ?r ''reasoning'' = Inr (SdkObject [(''effort'', sdk_text_value ''none''),
       (''context'', sdk_text_value ''current_turn'')])"
    "sdk_field ?r ''output'' = Inr (SdkList
       ((case lu_reasoning l of None \<Rightarrow> [] | Some r \<Rightarrow> [reasoning_item r True]) @ [?msg]))"
    by (simp_all add: final_response_def field_simps sdk_text_value_def del: lit_simps)
  have rc: "validate_reasoning_configuration (SdkObject [(''effort'', sdk_text_value ''none''),
       (''context'', sdk_text_value ''current_turn'')]) = Inr ()"
    by (simp add: validate_reasoning_configuration_def field_simps sdk_text_value_def del: lit_simps)
  note common = accepts at_stage_def on_completed_def require_state_def require_response_identity_def
    seq_simps field_simps f rc m c o required_list_def first_of_def usage_value_events [OF assms(1)] message_index_def
  show ?thesis
  proof (cases "lu_reasoning l")
    case None
    with assms(2,3) luna_ids(1) [OF assms(1)] show ?thesis
      by (simp add: common automaton_text_def del: lit_simps)
  next
    case (Some r)
    with assms(2,3) luna_ids(1) [OF assms(1)] luna_ids(3) [OF assms(1) Some] show ?thesis
      by (simp add: common automaton_text_def reasoning_item_valid del: lit_simps)
  qed
qed

lemma feed_closing:
  assumes "luna_ok l" "0 \<le> n" "n + 3 \<le> MAX_SAFE_INTEGER"
  shows "feed n (butlast (closing_part model l)) (in_message model l DeltaOrDone n (lu_deltas l)) =
    Some ([ProviderTextCompleted (concat (lu_deltas l))], in_message model l CompletedExpected (n + 3) (lu_deltas l))"
proof -
  let ?t = "concat (lu_deltas l)"
  let ?msg = "message_item (lu_item l) True [output_text ?t]"
  have m: "validate_message ?msg (Suc 0) True = Inr (lu_item l)"
    using message_item_valid [OF luna_ids(2) [OF assms(1)], of True "[output_text ?t]"] by simp
  have c: "sdk_field ?msg ''content'' = Inr (SdkList [output_text ?t])"
    by (simp add: message_item_def field_simps)
  have o: "validate_output_text (output_text ?t) ?t = Inr ()" using output_text_valid [OF luna_text(2) [OF assms(1)]] .
  have t: "sdk_text (SdkStr ?t) True = Inr ?t" using luna_text(1) [OF assms(1)] by simp
  note base = accepts at_stage_def require_state_def seq_simps field_simps automaton_text_def
  have s1: "accept_event (observation ''response.output_text.done'' n ((''text'', Some (SdkStr ?t)) # coordinates l))
      (in_message model l DeltaOrDone n (lu_deltas l)) =
      (Inr [ProviderTextCompleted ?t], in_message model l ContentPartDone (n + 1) (lu_deltas l))"
    using assms(2,3) t coordinates_valid [OF assms(1) refl]
    by (simp add: base on_text_done_def coordinates_def require_absent_or_empty_list_def del: lit_simps sdk_text_Inr_iff)
  have s2: "accept_event (observation ''response.content_part.done'' (n + 1) ((''part'', Some (output_text ?t)) # coordinates l))
      (in_message model l ContentPartDone (n + 1) (lu_deltas l)) =
      (Inr [], in_message model l OutputItemDone (n + 2) (lu_deltas l))"
    using assms(2,3) o coordinates_valid [OF assms(1) refl]
    by (simp add: base on_content_part_done_def del: lit_simps)
  have s3: "accept_event (observation ''response.output_item.done'' (n + 2)
      [(''item'', Some ?msg), (''output_index'', Some (SdkInt (message_index l)))])
      (in_message model l OutputItemDone (n + 2) (lu_deltas l)) =
      (Inr [], in_message model l CompletedExpected (n + 3) (lu_deltas l))"
    using assms(2,3) o m c
    by (simp add: base on_output_item_done_def on_message_done_def index_valid required_list_def first_of_def
        del: lit_simps)
  show ?thesis
    using s1 s2 s3 by (simp add: closing_part_def is_progress_def add.assoc del: lit_simps)
qed

lemma feed_luna:
  assumes "luna_ok l" "0 \<le> n" "n + int (length (luna_parts model l)) \<le> MAX_SAFE_INTEGER"
  shows "\<exists>k. feed n (butlast (luna_parts model l)) (new_automaton model) =
      Some (map ProviderTextDelta (lu_deltas l) @ [ProviderTextCompleted (concat (lu_deltas l))],
            in_message model l CompletedExpected k (lu_deltas l)) \<and>
    k = n + int (length (butlast (luna_parts model l))) \<and> 0 \<le> k \<and> k + 1 \<le> MAX_SAFE_INTEGER"
proof -
  let ?o = "int (length (opening_part l))" and ?r = "int (length (reasoning_part l))"
    and ?d = "int (length (lu_deltas l))"
  have len: "length (opening_part l) \<le> 3" "2 \<le> length (opening_part l)" "length (message_part l) = 2"
    "length (closing_part model l) = 4" "length (delta_part l) = length (lu_deltas l)"
    by (simp_all add: opening_part_def message_part_def closing_part_def delta_part_def)
  have bl: "butlast (luna_parts model l) =
      opening_part l @ reasoning_part l @ message_part l @ delta_part l @ butlast (closing_part model l)"
    by (simp add: luna_parts_def closing_part_def butlast_append)
  have bnd: "n + ?o + ?r + 2 + ?d + 4 \<le> MAX_SAFE_INTEGER" using assms(3) len by (simp add: luna_parts_def)
  have ge: "0 \<le> n + ?o + ?r + 2 + ?d" "0 \<le> n + ?o + ?r" "0 \<le> n + ?o + ?r + 2" "0 \<le> n + ?o" using assms(2) by simp_all
  have d: "lu_deltas l \<noteq> []" "list_all (\<lambda>d. d \<noteq> [] \<and> terminal_safe d) (lu_deltas l)"
    using assms(1) by (simp_all add: luna_ok_def)
  have 1: "feed n (opening_part l) (new_automaton model) =
      Some ([], at_stage model l OutputItemAdded (n + ?o) None None 0 [])"
    using bnd len(2) by (intro feed_opening [OF assms(1,2)]) linarith
  have 2: "feed (n + ?o) (reasoning_part l) (at_stage model l OutputItemAdded (n + ?o) None None 0 []) =
      Some ([], message_start model l (n + ?o + ?r))"
  proof (cases "lu_reasoning l")
    case None
    then show ?thesis by (simp add: reasoning_part_def message_start_def)
  next
    case (Some r)
    then have "?r = 2" by (simp add: reasoning_part_def)
    with feed_reasoning [OF assms(1) ge(4) _ Some] bnd Some show ?thesis by (simp add: message_start_def)
  qed
  have 3: "feed (n + ?o + ?r) (message_part l) (message_start model l (n + ?o + ?r)) =
      Some ([], in_message model l DeltaExpected (n + ?o + ?r + 2) [])"
    using bnd by (intro feed_message [OF assms(1) ge(2)]) linarith
  have 4: "feed (n + ?o + ?r + 2) (delta_part l) (in_message model l DeltaExpected (n + ?o + ?r + 2) []) =
      Some (map ProviderTextDelta (lu_deltas l), in_message model l DeltaOrDone (n + ?o + ?r + 2 + ?d) (lu_deltas l))"
    using feed_deltas [OF assms(1) d(2) ge(3), of DeltaExpected model "[]"] bnd d(1) by (simp add: delta_part_def)
  have 5: "feed (n + ?o + ?r + 2 + ?d) (butlast (closing_part model l))
      (in_message model l DeltaOrDone (n + ?o + ?r + 2 + ?d) (lu_deltas l)) =
      Some ([ProviderTextCompleted (concat (lu_deltas l))],
        in_message model l CompletedExpected (n + ?o + ?r + 2 + ?d + 3) (lu_deltas l))"
    using bnd by (intro feed_closing [OF assms(1) ge(1)]) linarith
  have 45: "feed (n + ?o + ?r + 2) (delta_part l @ butlast (closing_part model l))
      (in_message model l DeltaExpected (n + ?o + ?r + 2) []) =
      Some (map ProviderTextDelta (lu_deltas l) @ [ProviderTextCompleted (concat (lu_deltas l))],
        in_message model l CompletedExpected (n + ?o + ?r + 2 + ?d + 3) (lu_deltas l))"
    using feed_append [OF 4] 5 len(5) by simp
  have 35: "feed (n + ?o + ?r) (message_part l @ delta_part l @ butlast (closing_part model l))
      (message_start model l (n + ?o + ?r)) =
      Some (map ProviderTextDelta (lu_deltas l) @ [ProviderTextCompleted (concat (lu_deltas l))],
        in_message model l CompletedExpected (n + ?o + ?r + 2 + ?d + 3) (lu_deltas l))"
    using feed_append [OF 3] 45 len(3) by simp
  from feed_append [OF 2 35] have 25: "feed (n + ?o)
      (reasoning_part l @ message_part l @ delta_part l @ butlast (closing_part model l))
      (at_stage model l OutputItemAdded (n + ?o) None None 0 []) =
      Some (map ProviderTextDelta (lu_deltas l) @ [ProviderTextCompleted (concat (lu_deltas l))],
        in_message model l CompletedExpected (n + ?o + ?r + 2 + ?d + 3) (lu_deltas l))"
    by simp
  from feed_append [OF 1 25] bl bnd ge(1) len show ?thesis
    by (intro exI [of _ "n + ?o + ?r + 2 + ?d + 3"]) simp
qed

lemma numbered_append: "numbered n (ps @ qs) = numbered n ps @ numbered (n + int (length ps)) qs"
  by (induction ps arbitrary: n) (auto simp: add.assoc)

lemma read_luna:
  assumes "luna_ok l" "0 \<le> n" "n + int (length (luna_parts model l)) \<le> MAX_SAFE_INTEGER"
  shows "read_stream (luna_observations n model l @ rest) (new_automaton model) =
    map ProviderTextDelta (lu_deltas l) @
    ProviderTextCompleted (concat (lu_deltas l)) # usage_event (lu_usage l) @ [ProviderCompleted]"
proof -
  let ?ps = "butlast (luna_parts model l)"
  let ?last = "(''response.completed'', [(''response'', Some (final_response model l))])"
  obtain k where k: "feed n ?ps (new_automaton model) =
      Some (map ProviderTextDelta (lu_deltas l) @ [ProviderTextCompleted (concat (lu_deltas l))],
            in_message model l CompletedExpected k (lu_deltas l))"
    "k = n + int (length ?ps)" "0 \<le> k" "k + 1 \<le> MAX_SAFE_INTEGER"
    using feed_luna [OF assms] by blast
  have "luna_parts model l = ?ps @ [?last]"
    by (simp add: luna_parts_def closing_part_def butlast_append)
  then have "luna_observations n model l = numbered n (?ps @ [?last])"
    unfolding luna_observations_def by (rule arg_cong)
  then have o: "luna_observations n model l @ rest =
      numbered n ?ps @ observation (fst ?last) k (snd ?last) # rest"
    using k(2) by (simp add: numbered_append)
  obtain a' where c: "accept_event (observation (fst ?last) k (snd ?last))
      (in_message model l CompletedExpected k (lu_deltas l)) = (Inr (usage_event (lu_usage l) @ [ProviderCompleted]), a')"
    using completed_observation [OF assms(1) k(3,4)] by auto
  have "\<not> is_progress (usage_event (lu_usage l) @ [ProviderCompleted])"
    by (auto simp: usage_event_def is_progress_def split: option.splits)
  with c have "read_stream (observation (fst ?last) k (snd ?last) # rest)
      (in_message model l CompletedExpected k (lu_deltas l)) = usage_event (lu_usage l) @ [ProviderCompleted]"
    by simp
  then show ?thesis unfolding o feed_read [OF k(1)] by simp
qed

subsection \<open>Properties\<close>

text \<open>C32: Whatever objects the SDK hands over, the stream a consumer reads has one shape: non-empty
  text deltas that are legal for a terminal; then, unless it failed before, the completed text,
  which is exactly their concatenation and non-empty; then either one failure with a fixed message,
  or at most one usage report within the output cap and the completion. Nothing follows a terminal.\<close>

theorem response_stream_shape: "stream_shape (read_stream obs (new_automaton model))"
  using read_stream_shape [OF reached_new] by (simp add: text_events_def new_automaton_def text_finished_def)

definition example_response :: luna_response where
  "example_response =
     \<lparr>lu_id = lit ''r1'', lu_queued = True, lu_reasoning = Some (lit ''rs1''), lu_item = lit ''m1'',
      lu_deltas = [lit ''he'', lit ''y''], lu_usage = Some (7, 2)\<rparr>"

lemma example_response_ok: "luna_ok example_response"
  by (simp add: luna_ok_def example_response_def id_ok_def terminal_safe_def is_scalar_def is_surrogate_def
      is_unsafe_layout_def OPENAI_MAX_OUTPUT_TOKENS_def MAX_SAFE_INTEGER_def MAX_MODEL_USAGE_TOKENS_def)

lemma example_response_length: "length (luna_parts model example_response) = 13"
  by (simp add: luna_parts_def opening_part_def reasoning_part_def message_part_def delta_part_def
      closing_part_def example_response_def)

lemma example_response_read:
  "read_stream (luna_observations 0 model example_response @ rest) (new_automaton model) =
    [ProviderTextDelta (lit ''he''), ProviderTextDelta (lit ''y''), ProviderTextCompleted (lit ''hey''),
     ProviderUsageReported 7 2, ProviderCompleted]"
  using read_luna [OF example_response_ok, of 0 model rest]
  by (simp add: example_response_length MAX_SAFE_INTEGER_def) (simp add: example_response_def usage_event_def)

text \<open>A response is reported as completed only if it was sent in the one admitted order:
  created, possibly queued, in progress, possibly a reasoning item opened and closed, one message
  item with one content part, at least one delta, the three closing observations and the
  completion, with contiguous sequence numbers; and one delta was handed on for each delta sent.\<close>

theorem completed_response_order:
  assumes "last (read_stream obs (new_automaton model)) = ProviderCompleted"
  shows "\<exists>ds us. completed_order (consumed_observations obs (new_automaton model)) (length ds) \<and>
    usage_shape us \<and>
    read_stream obs (new_automaton model) =
      map ProviderTextDelta ds @ ProviderTextCompleted (concat ds) # us @ [ProviderCompleted]"
  using read_stream_shape [OF reached_new [of model], of obs] assms
  by (simp add: text_events_def new_automaton_def text_finished_def)

theorem completed_response_order_witness:
  "\<exists>n. completed_order (consumed_observations (luna_observations 0 (lit ''gpt-5.6-luna'') example_response)
      (new_automaton (lit ''gpt-5.6-luna''))) n"
  using completed_response_order [of "luna_observations 0 (lit ''gpt-5.6-luna'') example_response" "lit ''gpt-5.6-luna''"]
    example_response_read [of "lit ''gpt-5.6-luna''" "[]"]
  by auto

text \<open>C33: Every conforming response is read back whole. Take any identities, any non-empty list of
  legal deltas, queued or not, with a reasoning item or without, with usage within the caps or
  none, sent from any safe sequence number: the consumer reads exactly its deltas, their
  concatenation, its usage and the completion, whatever is sent afterwards.\<close>

theorem conforming_response_is_read:
  assumes "luna_ok l" "0 \<le> n" "n + int (length (luna_parts model l)) \<le> MAX_SAFE_INTEGER"
  shows "read_stream (luna_observations n model l @ rest) (new_automaton model) =
    map ProviderTextDelta (lu_deltas l) @
    ProviderTextCompleted (concat (lu_deltas l)) # usage_event (lu_usage l) @ [ProviderCompleted]"
  by (rule read_luna [OF assms])

theorem conforming_response_is_read_witness:
  "read_stream (luna_observations 5 (lit ''m'') example_response @ [SdkNone]) (new_automaton (lit ''m'')) =
    map ProviderTextDelta (lu_deltas example_response) @
    ProviderTextCompleted (concat (lu_deltas example_response)) #
    usage_event (lu_usage example_response) @ [ProviderCompleted]"
  by (rule conforming_response_is_read [OF example_response_ok])
    (simp_all add: example_response_length MAX_SAFE_INTEGER_def)

end
