(* ===== verification/Responses_Operation.thy ===== *)
theory Responses_Operation
  imports Responses_Contract Provider_Port
begin

section \<open>The OpenAI operation (provider/openai_responses.py, second part)\<close>

text \<open>
  \<open>OpenAIResponsesOperation\<close> as a state with one function for each atomic segment of its
  coroutines, the code between two points where a coroutine can suspend: awaiting the owned SDK
  task, the stream's and the client's \<open>close\<close>, the shared cleanup task, or the cancellation
  transition. The state lock is never held across a suspension, so it is not part of the state. What
  the SDK does is the argument of a step: whether a call raises, what a task ends with, how a
  \<open>close\<close> ends. A task that was cancelled may still end in any way. Wake-ups that are possible at
  the same time are all steps, so every interleaving of the event loop is a run.
\<close>

subsection \<open>State\<close>

datatype operation_state = Active | ResourcesClosing | TerminalPending | ClosedOperation

datatype work_kind = CreateWork | NextWork

text \<open>
  How an awaited SDK call ends: \<open>create\<close> with a stream whose iterator can be claimed or not,
  \<open>__anext__\<close> with an observation, either with an exception, or cancelled.
\<close>

datatype work_outcome =
    StreamReturned bool
  | ObservationReturned sdk_value
  | WorkRaised sdk_exception
  | WorkCancelled

text \<open>
  \<open>WorkEnded\<close> is a consumer whose awaited task is finished and that has not run since;
  \<open>WorkDropped\<close> is one that was cancelled in this moment, so that its \<open>await\<close> raises
  \<open>CancelledError\<close> whatever the task ended with.
\<close>

datatype close_outcome = CloseReturned | CloseRaised | CloseCancelled

datatype consumer =
    ConsumerIdle
  | AwaitingWork work_kind
  | WorkEnded work_kind work_outcome
  | WorkDropped work_kind work_outcome
  | JoiningCleanup
  | SelectingCancellation

datatype cleanup =
    NoCleanup
  | CleanupScheduled
  | AwaitingOwned work_kind
  | OwnedEnded work_kind work_outcome
  | ClosingStream bool
  | ClosingClient bool
  | CleanupDone bool
  | CleanupInterrupted

datatype resource_call = StreamClosed close_outcome | ClientClosed close_outcome

record operation =
  ro_automaton :: automaton
  ro_state :: operation_state
  ro_claimed :: bool
  ro_client :: bool
  ro_stream :: bool
  ro_iterator :: bool
  ro_owned :: "work_kind option"
  ro_cleanup :: cleanup
  ro_cleanup_cancelling :: bool
  ro_cleanup_failed :: bool
  ro_cancel_selected :: bool
  ro_terminal_queue :: "provider_stream_event list"
  ro_consumer :: consumer
  ro_consumer_cancelling :: bool
  ro_cancel_waiters :: "bool list"
  ro_emitted :: "provider_stream_event list"
  ro_calls :: "resource_call list"

text \<open>\<open>ro_emitted\<close> and \<open>ro_calls\<close> record what the consumer received and the calls of \<open>close\<close>.\<close>

definition new_responses_operation :: "ustr \<Rightarrow> operation" where
  "new_responses_operation model =
     \<lparr>ro_automaton = new_automaton model, ro_state = Active, ro_claimed = False, ro_client = False,
      ro_stream = False, ro_iterator = False, ro_owned = None, ro_cleanup = NoCleanup,
      ro_cleanup_cancelling = False, ro_cleanup_failed = False, ro_cancel_selected = False,
      ro_terminal_queue = [], ro_consumer = ConsumerIdle, ro_consumer_cancelling = False,
      ro_cancel_waiters = [], ro_emitted = [], ro_calls = []\<rparr>"

definition events_call :: "operation \<Rightarrow> py_error + operation" where
  "events_call s =
     (if ro_claimed s then Inl (RuntimeError ''OpenAI provider operation stream was already claimed'')
      else Inr (s\<lparr>ro_claimed := True\<rparr>))"

subsection \<open>Shared pieces\<close>

definition cleanup_settled :: "operation \<Rightarrow> bool" where
  "cleanup_settled s \<longleftrightarrow> (case ro_cleanup s of CleanupDone _ \<Rightarrow> True | CleanupInterrupted \<Rightarrow> True | _ \<Rightarrow> False)"

definition ensure_cleanup :: "operation \<Rightarrow> operation" where
  "ensure_cleanup s = (if ro_cleanup s = NoCleanup then s\<lparr>ro_cleanup := CleanupScheduled\<rparr> else s)"

text \<open>\<open>_terminal_queue.clear(); _state = "closed"; _closed.set()\<close>\<close>

definition close_logically :: "operation \<Rightarrow> operation" where
  "close_logically s = s\<lparr>ro_terminal_queue := [], ro_state := ClosedOperation\<rparr>"

definition select_consumer_cancellation :: "operation \<Rightarrow> operation" where
  "select_consumer_cancellation s =
     (if ro_state s = ClosedOperation then s
      else ensure_cleanup (close_logically (s\<lparr>ro_cancel_selected := True\<rparr>)))"

text \<open>
  The end of \<open>__anext__\<close>: \<open>StopAsyncIteration\<close>, an event (dropped when the consumer's task is
  being cancelled), or the \<open>CancelledError\<close> handler.
\<close>

definition stop_consumer :: "operation \<Rightarrow> operation" where
  "stop_consumer s = s\<lparr>ro_consumer := ConsumerIdle\<rparr>"

definition consumer_cancelled :: "operation \<Rightarrow> operation" where
  "consumer_cancelled s = s\<lparr>ro_consumer := SelectingCancellation\<rparr>"

definition deliver :: "provider_stream_event \<Rightarrow> operation \<Rightarrow> operation" where
  "deliver e s =
     (if ro_consumer_cancelling s then consumer_cancelled s
      else s\<lparr>ro_consumer := ConsumerIdle, ro_emitted := ro_emitted s @ [e]\<rparr>)"

definition pop_terminal :: "operation \<Rightarrow> operation" where
  "pop_terminal s =
     (case ro_terminal_queue s of
        [] \<Rightarrow> stop_consumer s
      | e # rest \<Rightarrow>
          deliver e (s\<lparr>ro_terminal_queue := rest,
                       ro_state := (if rest = [] then ClosedOperation else ro_state s)\<rparr>))"

definition install_terminal_after_cleanup :: "operation \<Rightarrow> operation" where
  "install_terminal_after_cleanup s =
     (if ro_state s \<noteq> ResourcesClosing then s
      else if ro_cancel_selected s then close_logically s
      else
        (let queue = (if ro_cleanup_failed s \<and> ProviderCompleted \<in> set (ro_terminal_queue s)
                      then [failed_event UnknownFailure] else ro_terminal_queue s) in
         s\<lparr>ro_terminal_queue := (if queue = [] then [failed_event UnknownFailure] else queue),
           ro_state := TerminalPending\<rparr>))"

text \<open>
  The head of \<open>_next_event\<close> in a state that is not active. An empty queue ends the call here; the
  code raises \<open>RuntimeError\<close>, and the invariant of the operation shows that it never does.
\<close>

definition settle_top :: "operation \<Rightarrow> operation" where
  "settle_top s =
     (case ro_state s of
        ClosedOperation \<Rightarrow> stop_consumer s
      | TerminalPending \<Rightarrow> pop_terminal s
      | _ \<Rightarrow> s\<lparr>ro_consumer := JoiningCleanup\<rparr>)"

text \<open>
  Past \<open>_join_cleanup\<close>: a cancelled cleanup task raises in a joiner that is being cancelled and
  counts as settled for any other.
\<close>

definition join_settled :: "operation \<Rightarrow> operation" where
  "join_settled s =
     (if ro_cleanup s = CleanupInterrupted \<and> ro_consumer_cancelling s then consumer_cancelled s
      else settle_top (install_terminal_after_cleanup s))"

definition loop_top :: "operation \<Rightarrow> operation" where
  "loop_top s =
     (if ro_state s = ResourcesClosing \<and> cleanup_settled s then join_settled s else settle_top s)"

definition close_with_terminal :: "provider_stream_event list \<Rightarrow> operation \<Rightarrow> operation" where
  "close_with_terminal events s =
     (if ro_state s \<noteq> Active then loop_top s
      else loop_top (ensure_cleanup (s\<lparr>ro_terminal_queue := events, ro_state := ResourcesClosing\<rparr>)))"

text \<open>\<open>start\<close> is the exception the call raises before there is a task, if any.\<close>

definition run_owned :: "work_kind \<Rightarrow> sdk_exception option \<Rightarrow> operation \<Rightarrow> operation" where
  "run_owned kind start s =
     (if ro_state s \<noteq> Active then stop_consumer s
      else if ro_owned s \<noteq> None then close_with_terminal [failed_event UnknownFailure] s
      else case start of
             Some x \<Rightarrow> close_with_terminal [normalize_exception x] s
           | None \<Rightarrow> s\<lparr>ro_owned := Some kind, ro_consumer := AwaitingWork kind\<rparr>)"

definition read_next :: "sdk_exception option \<Rightarrow> operation \<Rightarrow> operation" where
  "read_next start s =
     (if \<not> ro_iterator s then close_with_terminal [normalize_exception InvalidSDKObservation] s
      else run_owned NextWork start s)"

definition read_sdk_observation ::
  "sdk_exception option \<Rightarrow> sdk_exception option \<Rightarrow> operation \<Rightarrow> operation" where
  "read_sdk_observation factory start s =
     (case (if ro_client s then None else factory) of
        Some x \<Rightarrow> close_with_terminal [normalize_exception x] s
      | None \<Rightarrow>
          (let s = s\<lparr>ro_client := True\<rparr> in
           if \<not> ro_stream s then run_owned CreateWork start s else read_next start s))"

definition adapter_next_event ::
  "sdk_exception option \<Rightarrow> sdk_exception option \<Rightarrow> operation \<Rightarrow> operation" where
  "adapter_next_event factory start s =
     (if ro_state s = Active then read_sdk_observation factory start s else loop_top s)"

subsection \<open>The consumer after its SDK call\<close>

definition accept_observation_value ::
  "sdk_value \<Rightarrow> sdk_exception option \<Rightarrow> operation \<Rightarrow> operation" where
  "accept_observation_value raw start s =
     (case accept_event raw (ro_automaton s) of
        (Inl x, a) \<Rightarrow> close_with_terminal [normalize_exception x] (s\<lparr>ro_automaton := a\<rparr>)
      | (Inr mapped, a) \<Rightarrow>
          (let s = s\<lparr>ro_automaton := a\<rparr> in
           if mapped = [] then read_next start s
           else if is_progress mapped then
             (if ro_state s \<noteq> Active then stop_consumer s else deliver (hd mapped) s)
           else close_with_terminal mapped s))"

definition consumer_resumes :: "work_kind \<Rightarrow> work_outcome \<Rightarrow> sdk_exception option \<Rightarrow> operation \<Rightarrow> operation" where
  "consumer_resumes kind result start s0 =
     (let s = s0\<lparr>ro_owned := None\<rparr> in
      case result of
        StreamReturned claims \<Rightarrow>
          (let s = s\<lparr>ro_stream := True\<rparr> in
           if \<not> claims then close_with_terminal [normalize_exception InvalidSDKObservation] s
           else run_owned NextWork start (s\<lparr>ro_iterator := True\<rparr>))
      | ObservationReturned raw \<Rightarrow> accept_observation_value raw start s
      | WorkRaised x \<Rightarrow> close_with_terminal [normalize_exception x] s
      | WorkCancelled \<Rightarrow>
          if ro_consumer_cancelling s then consumer_cancelled s
          else if ro_cancel_selected s \<or> ro_state s \<noteq> Active then stop_consumer s
          else close_with_terminal [normalize_exception OtherException] s)"

subsection \<open>The cleanup task\<close>

definition finish_cleanup :: "bool \<Rightarrow> operation \<Rightarrow> operation" where
  "finish_cleanup failed s =
     (let s = s\<lparr>ro_cleanup_failed := ro_cleanup_failed s \<or> failed, ro_cleanup := CleanupDone failed\<rparr> in
      if ro_cancel_selected s \<and> ro_state s = ResourcesClosing then close_logically s else s)"

definition close_client :: "bool \<Rightarrow> operation \<Rightarrow> operation" where
  "close_client failed s =
     (if ro_client s \<and> \<not> ro_cleanup_cancelling s then s\<lparr>ro_cleanup := ClosingClient failed\<rparr>
      else finish_cleanup failed s)"

definition close_stream :: "bool \<Rightarrow> operation \<Rightarrow> operation" where
  "close_stream failed s =
     (if ro_stream s then s\<lparr>ro_cleanup := ClosingStream failed\<rparr> else close_client failed s)"

definition reap_owned :: "work_kind \<Rightarrow> work_outcome \<Rightarrow> operation \<Rightarrow> operation" where
  "reap_owned kind result s =
     (case result of
        StreamReturned claims \<Rightarrow>
          if kind = CreateWork \<and> \<not> ro_stream s
          then close_stream (\<not> claims) (s\<lparr>ro_stream := True, ro_iterator := claims\<rparr>)
          else close_stream False s
      | WorkCancelled \<Rightarrow>
          if ro_cleanup_cancelling s then s\<lparr>ro_cleanup := CleanupInterrupted\<rparr> else close_stream False s
      | _ \<Rightarrow> close_stream False s)"

text \<open>
  A step of the cleanup task that does not wait for a \<open>close\<close>. The owned task is finished when the
  consumer that awaits it has its outcome.
\<close>

definition cleanup_runs :: "operation \<Rightarrow> operation option" where
  "cleanup_runs s =
     (case ro_cleanup s of
        CleanupScheduled \<Rightarrow>
          Some (if ro_cleanup_cancelling s then s\<lparr>ro_cleanup := CleanupInterrupted\<rparr>
                else case ro_owned s of
                       None \<Rightarrow> close_stream False s
                     | Some kind \<Rightarrow>
                         (case ro_consumer s of
                            WorkEnded k result \<Rightarrow> reap_owned kind result s
                          | WorkDropped k result \<Rightarrow> reap_owned kind result s
                          | _ \<Rightarrow> s\<lparr>ro_cleanup := AwaitingOwned kind\<rparr>))
      | OwnedEnded kind result \<Rightarrow> Some (reap_owned kind result s)
      | _ \<Rightarrow> None)"

definition stream_close_ends :: "close_outcome \<Rightarrow> operation \<Rightarrow> operation option" where
  "stream_close_ends result s =
     (case ro_cleanup s of
        ClosingStream failed \<Rightarrow>
          (let s = s\<lparr>ro_calls := ro_calls s @ [StreamClosed result]\<rparr> in
           Some (case result of
                   CloseReturned \<Rightarrow> close_client failed s
                 | CloseRaised \<Rightarrow> close_client True s
                 | CloseCancelled \<Rightarrow>
                     if ro_cleanup_cancelling s then s\<lparr>ro_cleanup := CleanupInterrupted\<rparr>
                     else close_client True s))
      | _ \<Rightarrow> None)"

definition client_close_ends :: "close_outcome \<Rightarrow> operation \<Rightarrow> operation option" where
  "client_close_ends result s =
     (case ro_cleanup s of
        ClosingClient failed \<Rightarrow>
          (let s = s\<lparr>ro_calls := ro_calls s @ [ClientClosed result]\<rparr> in
           Some (case result of
                   CloseReturned \<Rightarrow> finish_cleanup failed s
                 | CloseRaised \<Rightarrow> finish_cleanup True s
                 | CloseCancelled \<Rightarrow>
                     if ro_cleanup_cancelling s then s\<lparr>ro_cleanup := CleanupInterrupted\<rparr>
                     else finish_cleanup True s))
      | _ \<Rightarrow> None)"

subsection \<open>Cancellation\<close>

definition settle_cancelled_state :: "operation \<Rightarrow> operation" where
  "settle_cancelled_state s =
     (if ro_cancel_selected s \<and> ro_state s \<noteq> ClosedOperation then close_logically s else s)"

text \<open>
  The first segment of \<open>cancel\<close>: the caller then waits for the cleanup, if there is one, with the
  result it will return.
\<close>

definition cancel_called :: "operation \<Rightarrow> operation" where
  "cancel_called s =
     (if ro_state s = ClosedOperation then s\<lparr>ro_cancel_waiters := ro_cancel_waiters s @ [False]\<rparr>
      else
        (let selected = (\<not> ro_cancel_selected s);
             s = s\<lparr>ro_cancel_selected := True, ro_terminal_queue := [],
                   ro_cancel_waiters := ro_cancel_waiters s @ [selected],
                   ro_state := (if ro_state s = TerminalPending then ClosedOperation
                                else ResourcesClosing)\<rparr> in
         ensure_cleanup s))"

definition remove_at :: "nat \<Rightarrow> 'a list \<Rightarrow> 'a list" where
  "remove_at i xs = take i xs @ drop (Suc i) xs"

text \<open>The last segment: \<open>None\<close> is the \<open>OpenAIAdapterCleanupError\<close>.\<close>

definition cancel_returns :: "nat \<Rightarrow> operation \<Rightarrow> (cancellation_result option \<times> operation) option" where
  "cancel_returns i s =
     (if i < length (ro_cancel_waiters s) \<and> (ro_cleanup s = NoCleanup \<or> cleanup_settled s)
      then
        (let selected = ro_cancel_waiters s ! i;
             s = settle_cancelled_state (s\<lparr>ro_cancel_waiters := remove_at i (ro_cancel_waiters s)\<rparr>) in
         Some (if ro_cleanup_failed s then None else Some (if selected then Cancelled else AlreadyClosed), s))
      else None)"

text \<open>\<open>wait_closed\<close> returns once this is not \<open>None\<close>; \<open>Some False\<close> is the cleanup error.\<close>

definition wait_closed :: "operation \<Rightarrow> bool option" where
  "wait_closed s =
     (if ro_state s = ClosedOperation \<and> (ro_cleanup s = NoCleanup \<or> cleanup_settled s)
      then Some (\<not> ro_cleanup_failed s) else None)"

definition cleanup_confirmed :: "operation \<Rightarrow> bool" where
  "cleanup_confirmed s \<longleftrightarrow>
     (case ro_cleanup s of
        CleanupDone failed \<Rightarrow> \<not> failed
      | NoCleanup \<Rightarrow> ro_owned s = None \<and> \<not> ro_client s \<and> \<not> ro_stream s
      | _ \<Rightarrow> False)"

text \<open>
  \<open>force_cancel_cleanup\<close>: its first segment closes the operation and cancels the tasks; the segment
  after they ended repeats the assignments, which changes nothing by then. A cleanup task that has
  its owned task's result but has not run since receives \<open>CancelledError\<close> instead.
\<close>

definition force_cancel_adapter :: "operation \<Rightarrow> operation" where
  "force_cancel_adapter s =
     close_logically
       (s\<lparr>ro_cleanup_failed := ro_cleanup_failed s \<or> \<not> cleanup_confirmed s, ro_cancel_selected := True,
          ro_cleanup := (case ro_cleanup s of OwnedEnded k _ \<Rightarrow> OwnedEnded k WorkCancelled | c \<Rightarrow> c),
          ro_cleanup_cancelling := ro_cleanup_cancelling s \<or> (ro_cleanup s \<noteq> NoCleanup \<and> \<not> cleanup_settled s)\<rparr>)"

subsection \<open>Steps\<close>

datatype operation_action =
    EventsClaimed
  | NextCalled "sdk_exception option" "sdk_exception option"
  | WorkFinished work_outcome
  | ConsumerResumed "sdk_exception option"
  | CleanupJoined
  | ConsumerCancelled
  | TransitionRan
  | CleanupRan
  | StreamCloseEnded close_outcome
  | ClientCloseEnded close_outcome
  | CancelCalled
  | CancelReturned nat
  | CancelAbandoned nat
  | ForceCalled

fun outcome_fits :: "work_kind \<Rightarrow> work_outcome \<Rightarrow> bool" where
  "outcome_fits CreateWork (StreamReturned _) = True"
| "outcome_fits NextWork (ObservationReturned _) = True"
| "outcome_fits _ (WorkRaised _) = True"
| "outcome_fits _ WorkCancelled = True"
| "outcome_fits _ _ = False"

definition work_finished :: "work_outcome \<Rightarrow> operation \<Rightarrow> operation option" where
  "work_finished result s =
     (case ro_consumer s of
        AwaitingWork kind \<Rightarrow>
          if outcome_fits kind result
          then Some (s\<lparr>ro_consumer := WorkEnded kind result,
                       ro_cleanup := (case ro_cleanup s of
                                        AwaitingOwned k \<Rightarrow> OwnedEnded k result
                                      | c \<Rightarrow> c)\<rparr>)
          else None
      | _ \<Rightarrow> None)"

text \<open>
  The task of the consumer is cancelled while it is suspended: a pending SDK task is cancelled with
  it, a finished one has its result dropped, a shielded join is left at once, the transition finishes
  first. The consumer is one task; its cancellation outside \<open>__anext__\<close> is its caller's.
\<close>

definition consumer_cancel_requested :: "operation \<Rightarrow> operation option" where
  "consumer_cancel_requested s =
     (case ro_consumer s of
        ConsumerIdle \<Rightarrow> None
      | WorkEnded k result \<Rightarrow>
          Some (s\<lparr>ro_consumer_cancelling := True, ro_consumer := WorkDropped k result\<rparr>)
      | JoiningCleanup \<Rightarrow> Some (consumer_cancelled (s\<lparr>ro_consumer_cancelling := True\<rparr>))
      | _ \<Rightarrow> Some (s\<lparr>ro_consumer_cancelling := True\<rparr>))"

fun operation_step :: "operation_action \<Rightarrow> operation \<Rightarrow> operation option" where
  "operation_step EventsClaimed s = (case events_call s of Inl _ \<Rightarrow> None | Inr t \<Rightarrow> Some t)"
| "operation_step (NextCalled factory start) s =
     (if ro_claimed s \<and> ro_consumer s = ConsumerIdle then Some (adapter_next_event factory start s) else None)"
| "operation_step (WorkFinished result) s = work_finished result s"
| "operation_step (ConsumerResumed start) s =
     (case ro_consumer s of
        WorkEnded kind result \<Rightarrow> Some (consumer_resumes kind result start s)
      | WorkDropped _ _ \<Rightarrow> Some (consumer_cancelled (s\<lparr>ro_owned := None\<rparr>))
      | _ \<Rightarrow> None)"
| "operation_step CleanupJoined s =
     (if ro_consumer s = JoiningCleanup \<and> cleanup_settled s then Some (join_settled s) else None)"
| "operation_step ConsumerCancelled s = consumer_cancel_requested s"
| "operation_step TransitionRan s =
     (if ro_consumer s = SelectingCancellation
      then Some (stop_consumer (select_consumer_cancellation s)) else None)"
| "operation_step CleanupRan s = cleanup_runs s"
| "operation_step (StreamCloseEnded result) s = stream_close_ends result s"
| "operation_step (ClientCloseEnded result) s = client_close_ends result s"
| "operation_step CancelCalled s = Some (cancel_called s)"
| "operation_step (CancelReturned i) s = map_option snd (cancel_returns i s)"
| "operation_step (CancelAbandoned i) s =
     (if i < length (ro_cancel_waiters s)
      then Some (s\<lparr>ro_cancel_waiters := remove_at i (ro_cancel_waiters s)\<rparr>) else None)"
| "operation_step ForceCalled s = Some (force_cancel_adapter s)"

end
