(* ===== verification/Responses_Operation_Inv.thy ===== *)
theory Responses_Operation_Inv
  imports Responses_Operation
begin

section \<open>Every interleaving of the OpenAI operation\<close>

text \<open>
  An invariant of the operation's steps in three parts: the owned SDK task and the resources it needs,
  the calls of \<open>close\<close> made so far, and the events handed on. Each part takes the position of the
  consumer as an argument, so that a segment of the consumer's code starts from the invariant with an
  idle consumer and ends in the invariant of the state it leaves.
\<close>

subsection \<open>Shape facts\<close>

lemma stream_terminal_simps [simp]:
  "is_stream_terminal ProviderCompleted" "is_stream_terminal (ProviderFailed x)"
  "\<not> is_stream_terminal (ProviderTextDelta d)" "\<not> is_stream_terminal (ProviderTextCompleted d)"
  "\<not> is_stream_terminal (ProviderUsageReported i j)"
  by (simp_all add: is_stream_terminal_def)

lemma failed_event_terminal [simp]: "is_stream_terminal (failed_event c)"
  by (simp add: failed_event_def split: prod.split)

lemma usage_not_terminal: "usage_shape us \<Longrightarrow> e \<in> set us \<Longrightarrow> \<not> is_stream_terminal e \<and> e \<noteq> ProviderCompleted"
  by (auto simp: usage_shape_def)

lemma failed_event_not_completed [simp]: "failed_event c \<noteq> ProviderCompleted" "ProviderCompleted \<noteq> failed_event c"
  by (simp_all add: failed_event_def split: prod.split)

lemma stream_shape_terminals:
  assumes "stream_shape (xs @ e # ys)"
  shows "is_stream_terminal e \<longleftrightarrow> ys = []"
proof -
  have k: "\<forall>e \<in> set (butlast out). \<not> is_stream_terminal e" "is_stream_terminal (last out)"
    if "stream_shape out" for out
    using that usage_not_terminal by (auto simp: stream_shape_def butlast_append)
  show ?thesis
  proof (cases ys rule: rev_cases)
    case Nil
    with k(2) [OF assms] show ?thesis by simp
  next
    case (snoc zs z)
    have "e \<in> set (butlast (xs @ e # ys))" using snoc by (simp add: butlast_append)
    with k(1) [OF assms] snoc show ?thesis by auto
  qed
qed

subsection \<open>The owned task and the resources\<close>

definition work_ready :: "work_kind \<Rightarrow> operation \<Rightarrow> bool" where
  "work_ready kind s \<longleftrightarrow> ro_client s \<and> (kind = NextWork \<longrightarrow> ro_iterator s)"

definition work_inv :: "consumer \<Rightarrow> operation \<Rightarrow> bool" where
  "work_inv c s \<longleftrightarrow>
     (ro_iterator s \<longrightarrow> ro_stream s) \<and> (ro_stream s \<longrightarrow> ro_client s) \<and>
     (case c of
        AwaitingWork k \<Rightarrow> ro_owned s = Some k \<and> work_ready k s \<and>
          ro_cleanup s \<in> {NoCleanup, CleanupScheduled, AwaitingOwned k, CleanupInterrupted}
      | WorkEnded k r \<Rightarrow> ro_owned s = Some k \<and> work_ready k s \<and> outcome_fits k r
      | WorkDropped k r \<Rightarrow> ro_owned s = Some k \<and> work_ready k s \<and> outcome_fits k r
      | _ \<Rightarrow> ro_owned s = None) \<and>
     (case ro_cleanup s of
        AwaitingOwned k \<Rightarrow> c = AwaitingWork k
      | OwnedEnded k r \<Rightarrow> work_ready k s \<and> outcome_fits k r \<and>
          (\<forall>k' r'. c = WorkEnded k' r' \<and> \<not> ro_cleanup_cancelling s \<longrightarrow> k' = k \<and> r' = r)
      | _ \<Rightarrow> True)"

definition calls_shape :: "resource_call list \<Rightarrow> bool" where
  "calls_shape cs \<longleftrightarrow>
     cs \<in> {[]} \<union> range (\<lambda>x. [StreamClosed x]) \<union> range (\<lambda>x. [ClientClosed x]) \<union>
       range (\<lambda>(x, y). [StreamClosed x, ClientClosed y])"

definition stream_calls :: "operation \<Rightarrow> resource_call list" where
  "stream_calls s = (if ro_stream s then [StreamClosed CloseReturned] else [])"

definition clean_calls :: "operation \<Rightarrow> resource_call list" where
  "clean_calls s = stream_calls s @ (if ro_client s then [ClientClosed CloseReturned] else [])"

definition calls_inv :: "consumer \<Rightarrow> operation \<Rightarrow> bool" where
  "calls_inv c s \<longleftrightarrow>
     (case ro_cleanup s of
        ClosingStream f \<Rightarrow> ro_calls s = [] \<and> ro_stream s
      | ClosingClient f \<Rightarrow>
          (ro_calls s = [] \<or> (\<exists>x. ro_calls s = [StreamClosed x])) \<and> ro_client s \<and>
          (\<not> f \<and> \<not> ro_cleanup_cancelling s \<longrightarrow> ro_calls s = stream_calls s)
      | CleanupDone f \<Rightarrow>
          calls_shape (ro_calls s) \<and> (\<not> f \<and> \<not> ro_cleanup_cancelling s \<longrightarrow> ro_calls s = clean_calls s)
      | CleanupInterrupted \<Rightarrow> calls_shape (ro_calls s)
      | _ \<Rightarrow> ro_calls s = []) \<and>
     (\<forall>b. c = WorkEnded CreateWork (StreamReturned b) \<and> \<not> ro_cleanup_cancelling s \<longrightarrow>
        (case ro_cleanup s of
           ClosingStream _ \<Rightarrow> True | ClosingClient _ \<Rightarrow> ro_stream s | CleanupDone _ \<Rightarrow> ro_stream s | _ \<Rightarrow> True))"

subsection \<open>The events\<close>

definition extends_to_shape :: "operation \<Rightarrow> bool" where
  "extends_to_shape s \<longleftrightarrow> (\<exists>out. stream_shape out \<and> prefix (ro_emitted s) out)"

definition stream_inv :: "consumer \<Rightarrow> operation \<Rightarrow> bool" where
  "stream_inv c s \<longleftrightarrow>
     (case ro_state s of
        Active \<Rightarrow>
          ro_cleanup s = NoCleanup \<and> ro_terminal_queue s = [] \<and> \<not> ro_cancel_selected s \<and>
          \<not> ro_cleanup_failed s \<and> \<not> ro_cleanup_cancelling s \<and>
          (c \<noteq> SelectingCancellation \<longrightarrow>
             ro_emitted s = text_events (ro_automaton s) \<and> (\<exists>es. reached (ro_automaton s) es))
      | ResourcesClosing \<Rightarrow>
          ro_cleanup s \<noteq> NoCleanup \<and> \<not> ro_cleanup_cancelling s \<and> ro_cleanup s \<noteq> CleanupInterrupted \<and>
          (ro_cleanup_failed s \<longleftrightarrow> ro_cleanup s = CleanupDone True) \<and>
          (if ro_cancel_selected s then ro_terminal_queue s = []
           else ro_terminal_queue s \<noteq> [] \<and> stream_shape (ro_emitted s @ ro_terminal_queue s) \<and>
             (\<forall>c. stream_shape (ro_emitted s @ [failed_event c])) \<and>
             (ProviderCompleted \<in> set (ro_terminal_queue s) \<longrightarrow> ro_stream s))
      | TerminalPending \<Rightarrow>
          \<not> ro_cleanup_cancelling s \<and> \<not> ro_cancel_selected s \<and> ro_terminal_queue s \<noteq> [] \<and>
          (c \<noteq> SelectingCancellation \<longrightarrow> stream_shape (ro_emitted s @ ro_terminal_queue s)) \<and>
          (\<exists>f. ro_cleanup s = CleanupDone f \<and> ro_cleanup_failed s = f) \<and>
          (ProviderCompleted \<in> set (ro_terminal_queue s) \<longrightarrow> ro_stream s \<and> \<not> ro_cleanup_failed s)
      | ClosedOperation \<Rightarrow> ro_terminal_queue s = []) \<and>
     extends_to_shape s \<and>
     (\<forall>e \<in> set (ro_emitted s). is_stream_terminal e \<longrightarrow> ro_state s = ClosedOperation) \<and>
     (ProviderCompleted \<in> set (ro_emitted s) \<longrightarrow>
        ro_stream s \<and> ro_cleanup s = CleanupDone False \<and> \<not> ro_cleanup_failed s) \<and>
     (ro_cleanup_cancelling s \<longrightarrow> ro_cleanup_failed s) \<and>
     (ro_cleanup s = CleanupDone True \<longrightarrow> ro_cleanup_failed s) \<and>
     (ro_cleanup s = CleanupInterrupted \<longrightarrow> ro_cleanup_cancelling s)"

definition op_inv :: "operation \<Rightarrow> bool" where
  "op_inv s \<longleftrightarrow> work_inv (ro_consumer s) s \<and> calls_inv (ro_consumer s) s \<and> stream_inv (ro_consumer s) s"

text \<open>The invariant while the consumer runs.\<close>

definition run_inv :: "operation \<Rightarrow> bool" where
  "run_inv s \<longleftrightarrow> work_inv ConsumerIdle s \<and> calls_inv ConsumerIdle s \<and> stream_inv ConsumerIdle s"

lemmas inv_defs = op_inv_def run_inv_def work_inv_def calls_inv_def stream_inv_def extends_to_shape_def

lemma calls_shape_simps [simp]:
  "calls_shape []" "calls_shape [StreamClosed x]" "calls_shape [ClientClosed y]"
  "calls_shape [StreamClosed x, ClientClosed y]"
  by (auto simp: calls_shape_def image_iff)

text \<open>Fields a part of the invariant does not read.\<close>

lemma work_inv_frame [simp]:
  "work_inv c (s\<lparr>ro_automaton := a\<rparr>) = work_inv c s" "work_inv c (s\<lparr>ro_state := st\<rparr>) = work_inv c s"
  "work_inv c (s\<lparr>ro_claimed := b\<rparr>) = work_inv c s" "work_inv c (s\<lparr>ro_cleanup_failed := b\<rparr>) = work_inv c s"
  "work_inv c (s\<lparr>ro_cancel_selected := b\<rparr>) = work_inv c s" "work_inv c (s\<lparr>ro_terminal_queue := q\<rparr>) = work_inv c s"
  "work_inv c (s\<lparr>ro_consumer := d\<rparr>) = work_inv c s" "work_inv c (s\<lparr>ro_consumer_cancelling := b\<rparr>) = work_inv c s"
  "work_inv c (s\<lparr>ro_cancel_waiters := w\<rparr>) = work_inv c s" "work_inv c (s\<lparr>ro_emitted := q\<rparr>) = work_inv c s"
  "work_inv c (s\<lparr>ro_calls := cs\<rparr>) = work_inv c s"
  by (simp_all add: work_inv_def work_ready_def cong: cleanup.case_cong consumer.case_cong)

lemma calls_inv_frame [simp]:
  "calls_inv c (s\<lparr>ro_automaton := a\<rparr>) = calls_inv c s" "calls_inv c (s\<lparr>ro_state := st\<rparr>) = calls_inv c s"
  "calls_inv c (s\<lparr>ro_claimed := b\<rparr>) = calls_inv c s" "calls_inv c (s\<lparr>ro_cleanup_failed := b\<rparr>) = calls_inv c s"
  "calls_inv c (s\<lparr>ro_cancel_selected := b\<rparr>) = calls_inv c s" "calls_inv c (s\<lparr>ro_terminal_queue := q\<rparr>) = calls_inv c s"
  "calls_inv c (s\<lparr>ro_consumer := d\<rparr>) = calls_inv c s" "calls_inv c (s\<lparr>ro_consumer_cancelling := b\<rparr>) = calls_inv c s"
  "calls_inv c (s\<lparr>ro_cancel_waiters := w\<rparr>) = calls_inv c s" "calls_inv c (s\<lparr>ro_emitted := q\<rparr>) = calls_inv c s"
  "calls_inv c (s\<lparr>ro_iterator := b\<rparr>) = calls_inv c s" "calls_inv c (s\<lparr>ro_owned := k\<rparr>) = calls_inv c s"
  by (simp_all add: calls_inv_def stream_calls_def clean_calls_def cong: cleanup.case_cong)

lemma stream_inv_frame [simp]:
  "stream_inv c (s\<lparr>ro_claimed := b\<rparr>) = stream_inv c s" "stream_inv c (s\<lparr>ro_client := b\<rparr>) = stream_inv c s"
  "stream_inv c (s\<lparr>ro_iterator := b\<rparr>) = stream_inv c s" "stream_inv c (s\<lparr>ro_owned := k\<rparr>) = stream_inv c s"
  "stream_inv c (s\<lparr>ro_consumer := d\<rparr>) = stream_inv c s" "stream_inv c (s\<lparr>ro_consumer_cancelling := b\<rparr>) = stream_inv c s"
  "stream_inv c (s\<lparr>ro_cancel_waiters := w\<rparr>) = stream_inv c s" "stream_inv c (s\<lparr>ro_calls := cs\<rparr>) = stream_inv c s"
  by (simp_all add: stream_inv_def extends_to_shape_def cong: operation_state.case_cong)

text \<open>A consumer that awaits no SDK task.\<close>

lemma resting_inv [simp]:
  "work_inv JoiningCleanup s = work_inv ConsumerIdle s"
  "work_inv SelectingCancellation s = work_inv ConsumerIdle s"
  "calls_inv JoiningCleanup s = calls_inv ConsumerIdle s"
  "calls_inv SelectingCancellation s = calls_inv ConsumerIdle s"
  "calls_inv (AwaitingWork k) s = calls_inv ConsumerIdle s"
  "calls_inv (WorkDropped k r) s = calls_inv ConsumerIdle s"
  by (simp_all add: work_inv_def calls_inv_def cong: cleanup.case_cong)

lemma stream_inv_idle: "stream_inv ConsumerIdle s \<Longrightarrow> stream_inv c s"
  unfolding stream_inv_def by (cases "ro_state s") auto

lemma stream_inv_other:
  assumes "c \<noteq> SelectingCancellation"
  shows "stream_inv c s = stream_inv ConsumerIdle s"
proof -
  have "c \<noteq> SelectingCancellation \<longleftrightarrow> ConsumerIdle \<noteq> SelectingCancellation" using assms by simp
  then show ?thesis unfolding stream_inv_def by (simp only:)
qed

lemma stream_inv_positions [simp]:
  "stream_inv JoiningCleanup s = stream_inv ConsumerIdle s"
  "stream_inv (AwaitingWork k) s = stream_inv ConsumerIdle s"
  "stream_inv (WorkEnded k r) s = stream_inv ConsumerIdle s"
  "stream_inv (WorkDropped k r) s = stream_inv ConsumerIdle s"
  by (rule stream_inv_other, simp)+

text \<open>A segment of the consumer that leaves it resting.\<close>

lemma leaves_inv:
  assumes "run_inv s" "c \<in> {ConsumerIdle, JoiningCleanup, SelectingCancellation}"
  shows "op_inv (s\<lparr>ro_consumer := c\<rparr>)"
  using assms by (auto simp: op_inv_def run_inv_def stream_inv_idle)

lemma stop_consumer_inv: "run_inv s \<Longrightarrow> op_inv (stop_consumer s)"
  by (simp add: stop_consumer_def leaves_inv)

lemma consumer_cancelled_inv: "run_inv s \<Longrightarrow> op_inv (consumer_cancelled s)"
  by (simp add: consumer_cancelled_def leaves_inv)

lemma ensure_cleanup_inv:
  assumes "ro_cleanup s = NoCleanup" "work_inv c s" "calls_inv c s"
  shows "work_inv c (ensure_cleanup s)" "calls_inv c (ensure_cleanup s)"
  using assms
  by (simp_all add: ensure_cleanup_def work_inv_def calls_inv_def work_ready_def stream_calls_def
      clean_calls_def split: consumer.splits)


subsection \<open>The consumer's segments\<close>

lemma run_invE:
  assumes "run_inv s"
  obtains "work_inv ConsumerIdle s" "calls_inv ConsumerIdle s" "stream_inv ConsumerIdle s"
  using assms by (simp add: run_inv_def)

lemma run_activeE:
  assumes "run_inv s" "ro_state s = Active"
  obtains es where "ro_cleanup s = NoCleanup" "ro_terminal_queue s = []" "\<not> ro_cancel_selected s"
    "ro_emitted s = text_events (ro_automaton s)" "reached (ro_automaton s) es"
  using assms by (auto simp: run_inv_def stream_inv_def)

lemma run_active_failed:
  assumes "run_inv s" "ro_state s = Active"
  shows "stream_shape (ro_emitted s @ [failed_event c])"
proof -
  from assms obtain es where "ro_emitted s = text_events (ro_automaton s)" "reached (ro_automaton s) es"
    by (rule run_activeE)
  then show ?thesis using ends_failed unfolding reached_def by auto
qed

lemma prefix_extends: "stream_shape (ro_emitted s @ xs) \<Longrightarrow> extends_to_shape s"
  unfolding extends_to_shape_def by (intro exI [of _ "ro_emitted s @ xs"]) simp

lemma pop_terminal_inv:
  assumes "run_inv s" "ro_state s = TerminalPending"
  shows "op_inv (pop_terminal s)"
proof -
  from assms have sh: "ro_terminal_queue s \<noteq> []" "stream_shape (ro_emitted s @ ro_terminal_queue s)"
    "\<not> ro_cleanup_cancelling s" "\<not> ro_cancel_selected s" "ro_cleanup s = CleanupDone (ro_cleanup_failed s)"
    "ProviderCompleted \<in> set (ro_terminal_queue s) \<Longrightarrow> ro_stream s \<and> \<not> ro_cleanup_failed s"
    "\<forall>e \<in> set (ro_emitted s). \<not> is_stream_terminal e" "ProviderCompleted \<notin> set (ro_emitted s)"
    by (auto simp: run_inv_def stream_inv_def)
  obtain e rest where q: "ro_terminal_queue s = e # rest" using sh(1) by (cases "ro_terminal_queue s") auto
  define t where "t = s\<lparr>ro_terminal_queue := rest, ro_state := (if rest = [] then ClosedOperation else ro_state s)\<rparr>"
  have p: "pop_terminal s = deliver e t" by (simp add: pop_terminal_def q t_def)
  have w: "work_inv ConsumerIdle t" "calls_inv ConsumerIdle t" using assms(1) by (simp_all add: run_inv_def t_def)
  have tm: "is_stream_terminal e \<longleftrightarrow> rest = []" using stream_shape_terminals sh(2) q by auto
  have x: "extends_to_shape (s\<lparr>ro_emitted := ro_emitted s @ [e]\<rparr>)"
    using sh(2) q by (intro prefix_extends [where xs = rest]) simp
  have y: "extends_to_shape s" using sh(2) by (rule prefix_extends)
  show ?thesis
  proof (cases "ro_consumer_cancelling t")
    case True
    have "stream_inv SelectingCancellation t"
      using sh q y assms(2) by (auto simp: t_def stream_inv_def extends_to_shape_def)
    with True w show ?thesis
      by (simp add: p deliver_def consumer_cancelled_def op_inv_def)
  next
    case False
    have "stream_inv ConsumerIdle (t\<lparr>ro_consumer := ConsumerIdle, ro_emitted := ro_emitted s @ [e]\<rparr>)"
      using sh q x tm assms(2) by (auto simp: t_def stream_inv_def extends_to_shape_def)
    with False w show ?thesis by (simp add: p deliver_def op_inv_def) (simp add: t_def)
  qed
qed

lemma settle_top_inv: "run_inv s \<Longrightarrow> op_inv (settle_top s)"
  by (cases "ro_state s") (simp_all add: settle_top_def stop_consumer_inv pop_terminal_inv leaves_inv)

lemma install_inv:
  assumes "run_inv s" "cleanup_settled s"
  shows "run_inv (install_terminal_after_cleanup s)"
proof (cases "ro_state s = ResourcesClosing")
  case False
  with assms show ?thesis by (simp add: install_terminal_after_cleanup_def)
next
  case True
  with assms obtain f where d: "ro_cleanup s = CleanupDone f" "ro_cleanup_failed s = f" "\<not> ro_cleanup_cancelling s"
    by (cases "ro_cleanup s") (auto simp: run_inv_def stream_inv_def cleanup_settled_def)
  have w: "work_inv ConsumerIdle (install_terminal_after_cleanup s)"
    "calls_inv ConsumerIdle (install_terminal_after_cleanup s)"
    using assms(1) by (simp_all add: install_terminal_after_cleanup_def run_inv_def close_logically_def Let_def)
  have "stream_inv ConsumerIdle (install_terminal_after_cleanup s)"
    using assms(1) True d
    by (auto simp: run_inv_def stream_inv_def install_terminal_after_cleanup_def close_logically_def
        extends_to_shape_def Let_def)
  with w show ?thesis by (simp add: run_inv_def)
qed

lemma join_settled_inv: "run_inv s \<Longrightarrow> cleanup_settled s \<Longrightarrow> op_inv (join_settled s)"
  by (simp add: join_settled_def consumer_cancelled_inv settle_top_inv install_inv)

lemma loop_top_inv: "run_inv s \<Longrightarrow> op_inv (loop_top s)"
  by (simp add: loop_top_def join_settled_inv settle_top_inv)

text \<open>
  The automaton has moved on when an observation is rejected or ends the stream, and nothing reads it
  after that.
\<close>

lemma run_inv_automaton: "run_inv s \<Longrightarrow> ro_state s \<noteq> Active \<Longrightarrow> run_inv (s\<lparr>ro_automaton := a\<rparr>)"
  by (cases "ro_state s") (auto simp: run_inv_def stream_inv_def extends_to_shape_def)

lemma close_with_terminal_inv:
  assumes "run_inv s"
    and "ro_state s = Active \<Longrightarrow> events \<noteq> [] \<and> stream_shape (ro_emitted s @ events) \<and>
      (ProviderCompleted \<in> set events \<longrightarrow> ro_stream s)"
  shows "op_inv (close_with_terminal events (s\<lparr>ro_automaton := a\<rparr>))"
proof (cases "ro_state s = Active")
  case False
  with run_inv_automaton [OF assms(1) False] show ?thesis by (simp add: close_with_terminal_def loop_top_inv)
next
  case True
  let ?s = "s\<lparr>ro_automaton := a, ro_terminal_queue := events, ro_state := ResourcesClosing\<rparr>"
  from assms(1) True have nc: "ro_cleanup s = NoCleanup" by (rule run_activeE)
  have "work_inv ConsumerIdle (ensure_cleanup ?s)" "calls_inv ConsumerIdle (ensure_cleanup ?s)"
    using ensure_cleanup_inv [of ?s] nc assms(1) by (simp_all add: run_inv_def)
  moreover have "stream_inv ConsumerIdle (ensure_cleanup ?s)"
    using assms(1) assms(2) [OF True] True run_active_failed [OF assms(1) True]
    by (auto simp: stream_inv_def run_inv_def ensure_cleanup_def nc extends_to_shape_def)
  ultimately have "run_inv (ensure_cleanup ?s)" by (simp add: run_inv_def)
  with True show ?thesis by (simp add: close_with_terminal_def loop_top_inv)
qed

lemma finish_failed_automaton_inv:
  "run_inv s \<Longrightarrow> op_inv (close_with_terminal [failed_event c] (s\<lparr>ro_automaton := a\<rparr>))"
  by (rule close_with_terminal_inv) (simp_all add: run_active_failed)

lemma finish_failed_inv: "run_inv s \<Longrightarrow> op_inv (close_with_terminal [failed_event c] s)"
  using finish_failed_automaton_inv [of s c "ro_automaton s"] by simp

lemma finish_exception_automaton_inv:
  "run_inv s \<Longrightarrow> op_inv (close_with_terminal [normalize_exception x] (s\<lparr>ro_automaton := a\<rparr>))"
  using normalize_exception_failed [of x] finish_failed_automaton_inv by auto

lemma finish_exception_inv: "run_inv s \<Longrightarrow> op_inv (close_with_terminal [normalize_exception x] s)"
  using finish_exception_automaton_inv [of s x "ro_automaton s"] by simp

lemma run_owned_inv:
  assumes "run_inv s" "work_ready kind s"
  shows "op_inv (run_owned kind start s)"
proof -
  have "op_inv (s\<lparr>ro_owned := Some kind, ro_consumer := AwaitingWork kind\<rparr>)" if "ro_state s = Active"
  proof -
    from assms(1) that have nc: "ro_cleanup s = NoCleanup" by (rule run_activeE)
    with assms show ?thesis
      by (simp add: op_inv_def run_inv_def work_inv_def calls_inv_def work_ready_def)
  qed
  with assms(1) show ?thesis
    by (simp add: run_owned_def stop_consumer_inv finish_failed_inv finish_exception_inv split: option.split)
qed

lemma read_next_inv: "run_inv s \<Longrightarrow> op_inv (read_next start s)"
  by (auto simp: read_next_def finish_exception_inv run_owned_inv work_ready_def run_inv_def work_inv_def
      simp del: normalize_exception.simps)

lemma adapter_next_event_inv:
  assumes "run_inv s"
  shows "op_inv (adapter_next_event factory start s)"
proof (cases "ro_state s = Active")
  case False
  with assms show ?thesis by (simp add: adapter_next_event_def loop_top_inv)
next
  case True
  from assms True have nc: "ro_cleanup s = NoCleanup" by (rule run_activeE)
  have "run_inv (s\<lparr>ro_client := True\<rparr>)"
    using assms nc by (simp add: run_inv_def work_inv_def calls_inv_def)
  then show ?thesis using assms True
    by (simp add: adapter_next_event_def read_sdk_observation_def Let_def read_next_inv run_owned_inv
        work_ready_def finish_exception_inv split: option.split)
qed

lemma progress_delivered_inv:
  assumes "run_inv s" "ro_state s = Active" "reached a es" "text_events a = ro_emitted s @ [e]"
    and "is_progress [e]"
  shows "op_inv (deliver e (s\<lparr>ro_automaton := a\<rparr>))"
proof -
  have "stage_ok a (map observation_type es)" "ra_state a \<noteq> AutomatonTerminal"
    using assms(3) by (simp_all add: reached_def)
  from ends_failed [OF this] assms(4) have sh: "stream_shape (ro_emitted s @ e # [failed_event c])" for c
    by simp
  have e: "\<not> is_stream_terminal e" "e \<noteq> ProviderCompleted"
    using assms(5) by (auto simp: is_progress_def split: provider_stream_event.splits)
  have x: "extends_to_shape (s\<lparr>ro_emitted := ro_emitted s @ [e]\<rparr>)" "extends_to_shape s"
    using sh [of UnknownFailure] by (auto simp: extends_to_shape_def intro!: exI [of _ "ro_emitted s @ e # [failed_event UnknownFailure]"])
  have "stream_inv SelectingCancellation (s\<lparr>ro_automaton := a\<rparr>)"
    using assms(1,2) x by (auto simp: run_inv_def stream_inv_def extends_to_shape_def)
  moreover have "stream_inv ConsumerIdle (s\<lparr>ro_automaton := a, ro_consumer := ConsumerIdle, ro_emitted := ro_emitted s @ [e]\<rparr>)"
    using assms x e by (auto simp: run_inv_def stream_inv_def extends_to_shape_def)
  ultimately show ?thesis
    using assms(1) by (simp add: deliver_def consumer_cancelled_def op_inv_def run_inv_def)
qed

lemma run_inv_reached:
  assumes "run_inv s" "ro_state s = Active" "reached a es" "text_events a = ro_emitted s"
  shows "run_inv (s\<lparr>ro_automaton := a\<rparr>)"
  using assms by (auto simp: run_inv_def stream_inv_def extends_to_shape_def)

lemma accept_active_inv:
  assumes "run_inv s" "ro_stream s" "ro_state s = Active"
  shows "op_inv (accept_observation_value raw start s)"
proof -
  from assms(1,3) obtain es where em: "ro_emitted s = text_events (ro_automaton s)"
    and re: "reached (ro_automaton s) es" by (rule run_activeE)
  obtain r a where ac: "accept_event raw (ro_automaton s) = (r, a)" by (rule prod.exhaust)
  show ?thesis
  proof (cases r)
    case (Inl x)
    with ac assms(1) show ?thesis
      by (simp add: accept_observation_value_def finish_exception_automaton_inv)
  next
    case (Inr m)
    from re ac [unfolded Inr] show ?thesis
    proof (cases rule: accept_step)
      case progress
      show ?thesis
      proof (cases "m = []")
        case True
        with progress(2) em have "run_inv (s\<lparr>ro_automaton := a\<rparr>)"
          by (intro run_inv_reached [OF assms(1,3) progress(1)]) simp
        with True ac Inr show ?thesis by (simp add: accept_observation_value_def Let_def read_next_inv)
      next
        case False
        with progress(3) obtain e where e: "m = [e]" "is_progress [e]"
          by (auto simp: is_progress_def split: list.splits provider_stream_event.splits)
        with progress(2) em have "op_inv (deliver e (s\<lparr>ro_automaton := a\<rparr>))"
          by (intro progress_delivered_inv [OF assms(1,3) progress(1)]) simp_all
        with e ac Inr assms(3) show ?thesis by (simp add: accept_observation_value_def Let_def)
      qed
    next
      case failed
      with failure_not_progress [OF failed] ac Inr assms(1) show ?thesis
        by (auto simp: accept_observation_value_def Let_def failure_only_def finish_failed_automaton_inv)
    next
      case (completed us)
      have sh: "stream_shape (ro_emitted s @ m)"
        using completed em unfolding stream_shape_def by auto
      have "op_inv (close_with_terminal m (s\<lparr>ro_automaton := a\<rparr>))"
        using assms(2) completed(2) sh by (intro close_with_terminal_inv [OF assms(1)]) simp
      with completion_not_progress [OF completed(1)] completed(2) ac Inr show ?thesis
        by (simp add: accept_observation_value_def Let_def)
    qed
  qed
qed

lemma accept_observation_value_inv:
  assumes "run_inv s" "ro_stream s"
  shows "op_inv (accept_observation_value raw start s)"
proof (cases "ro_state s = Active")
  case True
  with assms show ?thesis by (intro accept_active_inv)
next
  case False
  obtain r a where ac: "accept_event raw (ro_automaton s) = (r, a)" by (rule prod.exhaust)
  have "run_inv (s\<lparr>ro_automaton := a\<rparr>)" using assms(1) False by (rule run_inv_automaton)
  with ac False show ?thesis
    by (cases r) (simp_all add: accept_observation_value_def Let_def finish_exception_inv read_next_inv
        stop_consumer_inv close_with_terminal_def loop_top_inv)
qed

lemma resumed_run_inv:
  assumes "op_inv s" "ro_consumer s = WorkEnded kind result \<or> ro_consumer s = WorkDropped kind result"
  shows "run_inv (s\<lparr>ro_owned := None\<rparr>)"
proof -
  have "work_inv ConsumerIdle (s\<lparr>ro_owned := None\<rparr>)"
    using assms by (auto simp: op_inv_def work_inv_def work_ready_def split: cleanup.splits)
  moreover have "calls_inv ConsumerIdle s" "stream_inv ConsumerIdle s"
    using assms by (auto simp: op_inv_def calls_inv_def)
  ultimately show ?thesis by (simp add: run_inv_def)
qed

lemma stream_known_inv: "stream_inv c s \<Longrightarrow> stream_inv c (s\<lparr>ro_stream := True\<rparr>)"
  by (cases "ro_state s") (auto simp: stream_inv_def extends_to_shape_def)

lemma consumer_resumes_inv:
  assumes "op_inv s" "ro_consumer s = WorkEnded kind result"
  shows "op_inv (consumer_resumes kind result start s)"
proof -
  let ?s = "s\<lparr>ro_owned := None\<rparr>"
  have r: "run_inv ?s" using assms by (intro resumed_run_inv) simp_all
  have w: "work_ready kind s" "outcome_fits kind result" "work_inv (WorkEnded kind result) s"
    "calls_inv (WorkEnded kind result) s"
    using assms by (auto simp: op_inv_def work_inv_def)
  show ?thesis
  proof (cases result)
    case (StreamReturned b)
    with w(2) have k: "kind = CreateWork" by (cases kind) simp_all
    have "work_inv ConsumerIdle (?s\<lparr>ro_stream := True\<rparr>)" 
      using r w(1) by (auto simp: run_inv_def work_inv_def work_ready_def split: cleanup.splits)
    moreover have "calls_inv ConsumerIdle (?s\<lparr>ro_stream := True\<rparr>)"
      using w(4) by (auto simp: calls_inv_def StreamReturned k stream_calls_def clean_calls_def split: cleanup.splits)
    moreover have "stream_inv ConsumerIdle (?s\<lparr>ro_stream := True\<rparr>)"
      using r by (intro stream_known_inv) (simp add: run_inv_def)
    ultimately have t: "run_inv (?s\<lparr>ro_stream := True\<rparr>)" by (simp add: run_inv_def)
    then have "run_inv (?s\<lparr>ro_stream := True, ro_iterator := True\<rparr>)"
      by (auto simp: run_inv_def work_inv_def work_ready_def split: cleanup.splits)
    with t w(1) show ?thesis
      by (simp add: consumer_resumes_def StreamReturned Let_def finish_exception_inv run_owned_inv work_ready_def
          del: normalize_exception.simps)
  next
    case (ObservationReturned raw)
    with w(2) have "kind = NextWork" by (cases kind) simp_all
    with w(1,3) have "ro_stream ?s" by (simp add: work_ready_def work_inv_def)
    with r show ?thesis by (simp add: consumer_resumes_def ObservationReturned accept_observation_value_inv)
  qed (use r in \<open>simp_all add: consumer_resumes_def Let_def finish_exception_inv consumer_cancelled_inv stop_consumer_inv
      del: normalize_exception.simps\<close>)
qed

subsection \<open>The cleanup task\<close>

definition cleanup_working :: "operation \<Rightarrow> bool" where
  "cleanup_working s \<longleftrightarrow> ro_cleanup s \<noteq> NoCleanup \<and> \<not> cleanup_settled s"

lemma working_stream_inv:
  assumes "stream_inv c s" "cleanup_working s" "p \<noteq> NoCleanup" "\<forall>f. p \<noteq> CleanupDone f"
    and "p = CleanupInterrupted \<longrightarrow> ro_cleanup_cancelling s"
  shows "stream_inv c (s\<lparr>ro_cleanup := p\<rparr>)"
  using assms
  by (cases "ro_state s") (auto simp: stream_inv_def extends_to_shape_def cleanup_working_def cleanup_settled_def)

lemma done_stream_inv:
  assumes "stream_inv c s" "cleanup_working s"
  shows "stream_inv c (finish_cleanup f s)"
  using assms
  by (cases "ro_state s")
    (auto simp: stream_inv_def extends_to_shape_def cleanup_working_def cleanup_settled_def
      finish_cleanup_def close_logically_def Let_def)

lemma phase_work_inv:
  assumes "work_inv c s" "(\<forall>k. c \<noteq> AwaitingWork k) \<or> (p = CleanupInterrupted \<and> ro_cleanup s \<noteq> AwaitingOwned k)"
    and "\<forall>k. p \<noteq> AwaitingOwned k" "\<forall>k r. p \<noteq> OwnedEnded k r"
  shows "work_inv c (s\<lparr>ro_cleanup := p\<rparr>)"
  using assms by (cases c; cases p) (auto simp: work_inv_def work_ready_def)

text \<open>What a cleanup has done when it comes to the client.\<close>

definition client_next :: "consumer \<Rightarrow> bool \<Rightarrow> operation \<Rightarrow> bool" where
  "client_next c f s \<longleftrightarrow>
     work_inv c s \<and> stream_inv c s \<and> cleanup_working s \<and> (\<forall>k. c \<noteq> AwaitingWork k) \<and>
     (ro_calls s = [] \<or> (\<exists>x. ro_calls s = [StreamClosed x])) \<and>
     (\<not> f \<and> \<not> ro_cleanup_cancelling s \<longrightarrow> ro_calls s = stream_calls s) \<and>
     (\<forall>b. c = WorkEnded CreateWork (StreamReturned b) \<and> \<not> ro_cleanup_cancelling s \<longrightarrow> ro_stream s)"

definition inv_at :: "consumer \<Rightarrow> operation \<Rightarrow> bool" where
  "inv_at c s \<longleftrightarrow> work_inv c s \<and> calls_inv c s \<and> stream_inv c s"

lemma finish_cleanup_inv:
  assumes "work_inv c s" "stream_inv c s" "cleanup_working s" "\<forall>k. c \<noteq> AwaitingWork k"
    and "calls_shape (ro_calls s)" "\<not> f \<and> \<not> ro_cleanup_cancelling s \<longrightarrow> ro_calls s = clean_calls s"
    and "\<forall>b. c = WorkEnded CreateWork (StreamReturned b) \<and> \<not> ro_cleanup_cancelling s \<longrightarrow> ro_stream s"
  shows "inv_at c (finish_cleanup f s)"
proof -
  have "work_inv c (finish_cleanup f s)"
    using phase_work_inv [of c "s\<lparr>ro_cleanup_failed := ro_cleanup_failed s \<or> f\<rparr>" "CleanupDone f"] assms(1,4)
    by (simp add: finish_cleanup_def close_logically_def Let_def)
  moreover have "calls_inv c (finish_cleanup f s)"
    using assms(5-7)
    by (simp add: finish_cleanup_def close_logically_def Let_def calls_inv_def clean_calls_def stream_calls_def)
  ultimately show ?thesis using done_stream_inv [OF assms(2,3)] by (simp add: inv_at_def)
qed

lemma close_client_inv:
  assumes "client_next c f s"
  shows "inv_at c (close_client f s)"
proof (cases "ro_client s \<and> \<not> ro_cleanup_cancelling s")
  case True
  have a: "work_inv c s" "stream_inv c s" "cleanup_working s" "\<forall>k. c \<noteq> AwaitingWork k"
    using assms by (simp_all add: client_next_def)
  have "calls_inv c (s\<lparr>ro_cleanup := ClosingClient f\<rparr>)"
    using assms True by (auto simp: client_next_def calls_inv_def stream_calls_def)
  with True phase_work_inv [OF a(1) disjI1 [OF a(4)]] working_stream_inv [OF a(2,3)] show ?thesis
    by (simp add: close_client_def inv_at_def)
next
  case False
  with assms have "inv_at c (finish_cleanup f s)"
    by (intro finish_cleanup_inv) (auto simp: client_next_def clean_calls_def)
  with False show ?thesis by (auto simp: close_client_def)
qed

lemma close_stream_inv:
  assumes "work_inv c s" "stream_inv c s" "cleanup_working s" "\<forall>k. c \<noteq> AwaitingWork k" "ro_calls s = []"
    and "\<forall>b. c = WorkEnded CreateWork (StreamReturned b) \<and> \<not> ro_cleanup_cancelling s \<longrightarrow> ro_stream s"
  shows "inv_at c (close_stream f s)"
proof (cases "ro_stream s")
  case True
  have "calls_inv c (s\<lparr>ro_cleanup := ClosingStream f\<rparr>)" using True assms(5) by (simp add: calls_inv_def)
  with True phase_work_inv [OF assms(1) disjI1 [OF assms(4)]] working_stream_inv [OF assms(2,3)] show ?thesis
    by (simp add: close_stream_def inv_at_def)
next
  case False
  have "client_next c f s" using False assms by (simp add: client_next_def stream_calls_def)
  with False show ?thesis by (simp add: close_stream_def close_client_inv)
qed

lemma interrupted_inv:
  assumes "work_inv c s" "stream_inv c s" "cleanup_working s" "ro_cleanup_cancelling s" "calls_shape (ro_calls s)"
    and "\<forall>k. ro_cleanup s \<noteq> AwaitingOwned k"
  shows "inv_at c (s\<lparr>ro_cleanup := CleanupInterrupted\<rparr>)"
proof -
  have "work_inv c (s\<lparr>ro_cleanup := CleanupInterrupted\<rparr>)"
    using phase_work_inv [OF assms(1), of CleanupInterrupted] assms(6) by simp
  with working_stream_inv [OF assms(2,3), of CleanupInterrupted] assms(4,5) show ?thesis
    by (simp add: inv_at_def calls_inv_def)
qed

lemma reap_owned_inv:
  assumes "work_inv c s" "stream_inv c s" "cleanup_working s" "\<forall>k. c \<noteq> AwaitingWork k" "ro_calls s = []"
    and "work_ready kind s" "\<forall>k. ro_cleanup s \<noteq> AwaitingOwned k"
    and "\<forall>k r. c = WorkEnded k r \<and> \<not> ro_cleanup_cancelling s \<longrightarrow> k = kind \<and> r = result"
  shows "inv_at c (reap_owned kind result s)"
proof (cases result)
  case (StreamReturned b)
  show ?thesis
  proof (cases "kind = CreateWork \<and> \<not> ro_stream s")
    case True
    let ?s = "s\<lparr>ro_stream := True, ro_iterator := b\<rparr>"
    have "\<not> ro_iterator s" "ro_client s" using assms(1,6) True by (auto simp: work_inv_def work_ready_def)
    then have "work_inv c ?s"
      using assms(1) by (simp add: work_inv_def work_ready_def split: consumer.splits cleanup.splits)
    moreover have "stream_inv c ?s" using stream_known_inv [OF assms(2)] by simp
    ultimately have "inv_at c (close_stream (\<not> b) ?s)"
      using assms(3-5) by (intro close_stream_inv) (simp_all add: cleanup_working_def cleanup_settled_def)
    with True StreamReturned show ?thesis by (simp add: reap_owned_def)
  next
    case False
    have "inv_at c (close_stream False s)"
      using assms False by (intro close_stream_inv) (auto simp: StreamReturned)
    with False StreamReturned show ?thesis by (auto simp: reap_owned_def)
  qed
next
  case WorkCancelled
  show ?thesis
  proof (cases "ro_cleanup_cancelling s")
    case True
    with assms have "inv_at c (s\<lparr>ro_cleanup := CleanupInterrupted\<rparr>)" by (intro interrupted_inv) simp_all
    with True WorkCancelled show ?thesis by (simp add: reap_owned_def)
  next
    case False
    with assms have "inv_at c (close_stream False s)" by (intro close_stream_inv) (auto simp: WorkCancelled)
    with False WorkCancelled show ?thesis by (simp add: reap_owned_def)
  qed
next
  case (ObservationReturned raw)
  with assms have "inv_at c (close_stream False s)" by (intro close_stream_inv) auto
  with ObservationReturned show ?thesis by (simp add: reap_owned_def)
next
  case (WorkRaised x)
  with assms have "inv_at c (close_stream False s)" by (intro close_stream_inv) auto
  with WorkRaised show ?thesis by (simp add: reap_owned_def)
qed

lemma consumer_unchanged [simp]:
  "ro_consumer (finish_cleanup f s) = ro_consumer s" "ro_consumer (close_client f s) = ro_consumer s"
  "ro_consumer (close_stream f s) = ro_consumer s" "ro_consumer (reap_owned k r s) = ro_consumer s"
  "ro_consumer (ensure_cleanup s) = ro_consumer s" "ro_consumer (close_logically s) = ro_consumer s"
  by (simp_all add: finish_cleanup_def close_client_def close_stream_def reap_owned_def Let_def
      ensure_cleanup_def close_logically_def split: work_outcome.split)

lemma op_inv_at: "op_inv s \<longleftrightarrow> inv_at (ro_consumer s) s"
  by (simp add: op_inv_def inv_at_def)

lemma op_inv_not_awaiting:
  assumes "op_inv s" "ro_consumer s = AwaitingWork k"
  shows "ro_cleanup s \<in> {NoCleanup, CleanupScheduled, AwaitingOwned k, CleanupInterrupted}"
  using assms by (simp add: op_inv_def work_inv_def)

lemma cleanup_scheduled_inv:
  assumes "op_inv s" "ro_cleanup s = CleanupScheduled" "\<not> ro_cleanup_cancelling s"
  shows "op_inv (case ro_owned s of
                   None \<Rightarrow> close_stream False s
                 | Some kind \<Rightarrow>
                     (case ro_consumer s of
                        WorkEnded k result \<Rightarrow> reap_owned kind result s
                      | WorkDropped k result \<Rightarrow> reap_owned kind result s
                      | _ \<Rightarrow> s\<lparr>ro_cleanup := AwaitingOwned kind\<rparr>))"
proof -
  have w: "work_inv (ro_consumer s) s" "stream_inv (ro_consumer s) s" "cleanup_working s" "ro_calls s = []"
    using assms by (simp_all add: op_inv_def cleanup_working_def cleanup_settled_def calls_inv_def)
  show ?thesis
  proof (cases "ro_owned s")
    case None
    with w(1) have "\<forall>k r. ro_consumer s \<noteq> AwaitingWork k \<and> ro_consumer s \<noteq> WorkEnded k r"
      by (auto simp: work_inv_def)
    with w None show ?thesis by (simp add: op_inv_at close_stream_inv)
  next
    case (Some kind)
    from w(1) Some consider "ro_consumer s = AwaitingWork kind"
      | r where "ro_consumer s = WorkEnded kind r" "work_ready kind s"
      | r where "ro_consumer s = WorkDropped kind r" "work_ready kind s"
      by (cases "ro_consumer s") (auto simp: work_inv_def)
    then show ?thesis
    proof cases
      case 1
      have "work_inv (AwaitingWork kind) (s\<lparr>ro_cleanup := AwaitingOwned kind\<rparr>)"
        using w(1) 1 by (simp add: work_inv_def work_ready_def)
      moreover have "calls_inv ConsumerIdle (s\<lparr>ro_cleanup := AwaitingOwned kind\<rparr>)"
        using w(4) by (simp add: calls_inv_def)
      moreover have "stream_inv ConsumerIdle (s\<lparr>ro_cleanup := AwaitingOwned kind\<rparr>)"
        using w(2) 1 by (intro working_stream_inv w(3)) simp_all
      ultimately show ?thesis using Some 1 by (simp add: op_inv_def)
    next
      case 2
      with w Some assms(2) show ?thesis by (simp add: op_inv_at reap_owned_inv)
    next
      case 3
      with w Some assms(2) show ?thesis by (simp add: op_inv_at reap_owned_inv)
    qed
  qed
qed

lemma cleanup_runs_inv:
  assumes "op_inv s" "cleanup_runs s = Some t"
  shows "op_inv t"
proof -
  from assms(2) consider
      "ro_cleanup s = CleanupScheduled" "ro_cleanup_cancelling s" "t = s\<lparr>ro_cleanup := CleanupInterrupted\<rparr>"
    | "ro_cleanup s = CleanupScheduled" "\<not> ro_cleanup_cancelling s"
    | k r where "ro_cleanup s = OwnedEnded k r" "t = reap_owned k r s"
    by (auto simp: cleanup_runs_def split: cleanup.splits if_splits)
  then show ?thesis
  proof cases
    case 1
    have "inv_at (ro_consumer s) (s\<lparr>ro_cleanup := CleanupInterrupted\<rparr>)"
      using assms(1) 1 by (intro interrupted_inv)
        (simp_all add: op_inv_def cleanup_working_def cleanup_settled_def calls_inv_def)
    with 1 show ?thesis by (simp add: op_inv_at)
  next
    case 2
    with assms(2) cleanup_scheduled_inv [OF assms(1) 2] show ?thesis by (simp add: cleanup_runs_def)
  next
    case 3
    have "\<forall>k. ro_consumer s \<noteq> AwaitingWork k" using op_inv_not_awaiting [OF assms(1)] 3 by auto
    with assms(1) 3 have "inv_at (ro_consumer s) (reap_owned k r s)"
      by (intro reap_owned_inv)
        (auto simp: op_inv_def cleanup_working_def cleanup_settled_def calls_inv_def work_inv_def)
    with 3 show ?thesis by (simp add: op_inv_at)
  qed
qed

lemma stream_close_ends_inv:
  assumes "op_inv s" "stream_close_ends result s = Some t"
  shows "op_inv t"
proof -
  from assms(2) obtain f where f: "ro_cleanup s = ClosingStream f"
    by (auto simp: stream_close_ends_def split: cleanup.splits)
  let ?s = "s\<lparr>ro_calls := ro_calls s @ [StreamClosed result]\<rparr>"
  have n: "\<forall>k. ro_consumer s \<noteq> AwaitingWork k" using op_inv_not_awaiting [OF assms(1)] f by auto
  have w: "work_inv (ro_consumer s) ?s" "stream_inv (ro_consumer s) ?s" "cleanup_working ?s"
    "ro_calls s = []" "ro_stream s"
    using assms(1) f by (simp_all add: op_inv_def cleanup_working_def cleanup_settled_def calls_inv_def)
  have c: "client_next (ro_consumer s) g ?s" if "g \<or> result = CloseReturned" for g
    using w n that by (auto simp: client_next_def stream_calls_def)
  have i: "inv_at (ro_consumer s) (?s\<lparr>ro_cleanup := CleanupInterrupted\<rparr>)" if "ro_cleanup_cancelling s"
    using that f w(4) by (intro interrupted_inv w(1-3)) simp_all
  show ?thesis
  proof (cases result)
    case CloseReturned
    with f assms(2) have "t = close_client f ?s" by (simp add: stream_close_ends_def Let_def)
    with close_client_inv [OF c [of f]] CloseReturned show ?thesis by (simp add: op_inv_at)
  next
    case CloseRaised
    with f assms(2) have "t = close_client True ?s" by (simp add: stream_close_ends_def Let_def)
    with close_client_inv [OF c [of True]] show ?thesis by (simp add: op_inv_at)
  next
    case CloseCancelled
    with f assms(2) have "t = (if ro_cleanup_cancelling s then ?s\<lparr>ro_cleanup := CleanupInterrupted\<rparr>
        else close_client True ?s)" by (auto simp: stream_close_ends_def Let_def)
    with close_client_inv [OF c [of True]] i show ?thesis by (simp add: op_inv_at)
  qed
qed

lemma client_close_ends_inv:
  assumes "op_inv s" "client_close_ends result s = Some t"
  shows "op_inv t"
proof -
  from assms(2) obtain f where f: "ro_cleanup s = ClosingClient f"
    by (auto simp: client_close_ends_def split: cleanup.splits)
  let ?s = "s\<lparr>ro_calls := ro_calls s @ [ClientClosed result]\<rparr>"
  have n: "\<forall>k. ro_consumer s \<noteq> AwaitingWork k" using op_inv_not_awaiting [OF assms(1)] f by auto
  have w: "work_inv (ro_consumer s) ?s" "stream_inv (ro_consumer s) ?s" "cleanup_working ?s"
    "calls_shape (ro_calls ?s)" "ro_client s"
    and d: "\<not> f \<and> \<not> ro_cleanup_cancelling s \<longrightarrow> ro_calls s = stream_calls s"
      "\<forall>b. ro_consumer s = WorkEnded CreateWork (StreamReturned b) \<and> \<not> ro_cleanup_cancelling s \<longrightarrow> ro_stream s"
    using assms(1) f by (auto simp: op_inv_def cleanup_working_def cleanup_settled_def calls_inv_def)
  have c: "inv_at (ro_consumer s) (finish_cleanup g ?s)" if "g \<or> result = CloseReturned \<and> g = f" for g
    using w n d that by (intro finish_cleanup_inv) (auto simp: clean_calls_def stream_calls_def)
  have i: "inv_at (ro_consumer s) (?s\<lparr>ro_cleanup := CleanupInterrupted\<rparr>)" if "ro_cleanup_cancelling s"
    using that f w(4) by (intro interrupted_inv w(1-3)) simp_all
  show ?thesis
  proof (cases result)
    case CloseReturned
    with f assms(2) have "t = finish_cleanup f ?s" by (simp add: client_close_ends_def Let_def)
    with c [of f] CloseReturned show ?thesis by (simp add: op_inv_at)
  next
    case CloseRaised
    with f assms(2) have "t = finish_cleanup True ?s" by (simp add: client_close_ends_def Let_def)
    with c [of True] show ?thesis by (simp add: op_inv_at)
  next
    case CloseCancelled
    with f assms(2) have "t = (if ro_cleanup_cancelling s then ?s\<lparr>ro_cleanup := CleanupInterrupted\<rparr>
        else finish_cleanup True ?s)" by (auto simp: client_close_ends_def Let_def)
    with c [of True] i show ?thesis by (simp add: op_inv_at)
  qed
qed

subsection \<open>Cancellation\<close>

lemma ensure_cleanup_at:
  assumes "inv_at c s" "ro_state s \<noteq> Active"
  shows "inv_at c (ensure_cleanup s)"
proof (cases "ro_cleanup s = NoCleanup")
  case False
  with assms(1) show ?thesis by (simp add: ensure_cleanup_def)
next
  case True
  have "stream_inv c (ensure_cleanup s)"
    using assms True by (cases "ro_state s")
      (auto simp: inv_at_def stream_inv_def extends_to_shape_def ensure_cleanup_def)
  with ensure_cleanup_inv [OF True] assms(1) show ?thesis by (simp add: inv_at_def)
qed

lemma close_logically_at: "inv_at c s \<Longrightarrow> inv_at c (close_logically s)"
  by (cases "ro_state s")
    (auto simp: inv_at_def close_logically_def stream_inv_def extends_to_shape_def)

lemma closed_at:
  "inv_at c s \<Longrightarrow> inv_at c (close_logically (s\<lparr>ro_cancel_selected := b\<rparr>))"
  by (cases "ro_state s")
    (auto simp: inv_at_def close_logically_def stream_inv_def extends_to_shape_def)

lemma closed_idle:
  assumes "inv_at SelectingCancellation s" "ro_state s = ClosedOperation"
  shows "inv_at ConsumerIdle s"
  using assms by (simp add: inv_at_def stream_inv_def)

lemma inv_at_stop: "inv_at ConsumerIdle s \<Longrightarrow> op_inv (stop_consumer s)"
  by (intro stop_consumer_inv) (simp add: run_inv_def inv_at_def)

lemma transition_inv:
  assumes "op_inv s" "ro_consumer s = SelectingCancellation"
  shows "op_inv (stop_consumer (select_consumer_cancellation s))"
proof -
  have a: "inv_at SelectingCancellation s" using assms by (simp add: op_inv_at)
  show ?thesis
  proof (cases "ro_state s = ClosedOperation")
    case True
    with a show ?thesis by (simp add: select_consumer_cancellation_def inv_at_stop closed_idle)
  next
    case False
    let ?s = "close_logically (s\<lparr>ro_cancel_selected := True\<rparr>)"
    have c: "ro_state ?s = ClosedOperation" by (simp add: close_logically_def)
    have "inv_at ConsumerIdle (ensure_cleanup ?s)"
      using closed_idle [OF closed_at [OF a, of True] c] c by (intro ensure_cleanup_at) simp_all
    with False show ?thesis by (simp add: select_consumer_cancellation_def inv_at_stop)
  qed
qed

lemma inv_at_waiters [simp]: "inv_at c (s\<lparr>ro_cancel_waiters := w\<rparr>) = inv_at c s"
  by (simp add: inv_at_def)

lemma cancel_called_inv:
  assumes "op_inv s"
  shows "op_inv (cancel_called s)"
proof (cases "ro_state s = ClosedOperation")
  case True
  with assms show ?thesis by (simp add: cancel_called_def op_inv_at)
next
  case False
  let ?t = "s\<lparr>ro_cancel_selected := True, ro_terminal_queue := [],
                ro_cancel_waiters := ro_cancel_waiters s @ [\<not> ro_cancel_selected s],
                ro_state := (if ro_state s = TerminalPending then ClosedOperation else ResourcesClosing)\<rparr>"
  have "work_inv (ro_consumer s) (ensure_cleanup ?t)" "calls_inv (ro_consumer s) (ensure_cleanup ?t)"
    using assms ensure_cleanup_inv [of ?t "ro_consumer s"]
    by (cases "ro_cleanup s = NoCleanup"; simp add: op_inv_def ensure_cleanup_def)+
  moreover have "stream_inv (ro_consumer s) (ensure_cleanup ?t)"
    using assms False by (cases "ro_state s")
      (auto simp: op_inv_def stream_inv_def extends_to_shape_def ensure_cleanup_def)
  ultimately have "inv_at (ro_consumer s) (ensure_cleanup ?t)" by (simp add: inv_at_def)
  then show ?thesis using False by (simp add: cancel_called_def op_inv_at Let_def)
qed

lemma cancel_returns_inv: "op_inv s \<Longrightarrow> cancel_returns i s = Some (r, t) \<Longrightarrow> op_inv t"
  by (auto simp: cancel_returns_def settle_cancelled_state_def op_inv_at Let_def close_logically_at
      split: if_splits)

lemma force_cancel_inv:
  assumes "op_inv s"
  shows "op_inv (force_cancel_adapter s)"
proof -
  let ?t = "force_cancel_adapter s"
  have "work_inv (ro_consumer s) ?t"
    using assms by (simp add: op_inv_def force_cancel_adapter_def close_logically_def work_inv_def
        work_ready_def cleanup_settled_def split: consumer.splits cleanup.splits)
  moreover have "calls_inv (ro_consumer s) ?t"
    using assms by (cases "ro_cleanup s") (auto simp: op_inv_def force_cancel_adapter_def close_logically_def
        calls_inv_def stream_calls_def clean_calls_def)
  moreover have "stream_inv (ro_consumer s) ?t"
    using assms by (cases "ro_cleanup s") (auto simp: op_inv_def force_cancel_adapter_def close_logically_def
        stream_inv_def extends_to_shape_def cleanup_settled_def cleanup_confirmed_def
        split: operation_state.splits)
  ultimately show ?thesis by (simp add: op_inv_def force_cancel_adapter_def)
qed

end
