(* ===== verification/Responses_Operation_Properties.thy ===== *)
theory Responses_Operation_Properties
  imports Responses_Operation_Inv
begin

section \<open>Properties of the OpenAI operation\<close>

text \<open>
  Every step preserves the invariant, so the operation satisfies the contract of the provider port:
  \<open>adapter\<close> interprets it, and \<open>adapter.run\<close> is a run of the operation under any interleaving of its
  consumer, its SDK task, its cleanup task and the callers of \<open>cancel\<close> and \<open>force_cancel_cleanup\<close>.
\<close>

subsection \<open>The contract\<close>

lemma work_finished_inv:
  assumes "op_inv s" "work_finished result s = Some t"
  shows "op_inv t"
proof -
  from assms(2) obtain kind where k: "ro_consumer s = AwaitingWork kind" "outcome_fits kind result"
    and t: "t = s\<lparr>ro_consumer := WorkEnded kind result,
                  ro_cleanup := (case ro_cleanup s of AwaitingOwned k \<Rightarrow> OwnedEnded k result | c \<Rightarrow> c)\<rparr>"
    by (auto simp: work_finished_def split: consumer.splits if_splits)
  from assms(1) k(1) have c: "ro_cleanup s \<in> {NoCleanup, CleanupScheduled, AwaitingOwned kind, CleanupInterrupted}"
    by (rule op_inv_not_awaiting)
  have i: "work_inv (AwaitingWork kind) s" "calls_inv ConsumerIdle s" "stream_inv ConsumerIdle s"
    using assms(1) k(1) by (simp_all add: op_inv_def)
  show ?thesis
  proof (cases "ro_cleanup s = AwaitingOwned kind")
    case True
    then have "cleanup_working s" by (simp add: cleanup_working_def cleanup_settled_def)
    then have "stream_inv ConsumerIdle (s\<lparr>ro_consumer := WorkEnded kind result, ro_cleanup := OwnedEnded kind result\<rparr>)"
      using i(3) by (intro working_stream_inv) (simp_all add: cleanup_working_def cleanup_settled_def)
    with True i(1,2) k t show ?thesis by (simp add: op_inv_def work_inv_def work_ready_def calls_inv_def)
  next
    case False
    then have "t = s\<lparr>ro_consumer := WorkEnded kind result\<rparr>" using c t by auto
    with c i k False show ?thesis by (auto simp: op_inv_def work_inv_def work_ready_def calls_inv_def)
  qed
qed

lemma consumer_cancel_requested_inv:
  assumes "op_inv s" "consumer_cancel_requested s = Some t"
  shows "op_inv t"
proof (cases "ro_consumer s")
  case JoiningCleanup
  with assms have "run_inv (s\<lparr>ro_consumer_cancelling := True\<rparr>)" by (simp add: op_inv_def run_inv_def)
  with JoiningCleanup assms(2) show ?thesis by (auto simp: consumer_cancel_requested_def consumer_cancelled_inv)
next
  case (WorkEnded k r)
  have t: "t = s\<lparr>ro_consumer_cancelling := True, ro_consumer := WorkDropped k r\<rparr>"
    using WorkEnded assms(2) by (simp add: consumer_cancel_requested_def)
  have i: "work_inv (WorkEnded k r) s" "calls_inv (WorkEnded k r) s" "stream_inv ConsumerIdle s"
    using WorkEnded assms(1) by (simp_all add: op_inv_def)
  have "work_inv (WorkDropped k r) s" using i(1) by (cases "ro_cleanup s") (simp_all add: work_inv_def)
  moreover have "calls_inv ConsumerIdle s" using i(2) by (simp add: calls_inv_def)
  ultimately show ?thesis using i(3) by (simp add: t op_inv_def)
qed (use assms in \<open>auto simp: consumer_cancel_requested_def op_inv_def\<close>)

lemma op_inv_run: "op_inv s \<Longrightarrow> ro_consumer s = ConsumerIdle \<or> ro_consumer s = JoiningCleanup \<Longrightarrow> run_inv s"
  by (auto simp: op_inv_def run_inv_def)

lemma operation_step_inv:
  assumes "op_inv s" "operation_step act s = Some t"
  shows "op_inv t"
proof (cases act)
  case EventsClaimed
  with assms show ?thesis by (auto simp: events_call_def op_inv_def split: if_splits)
next
  case (NextCalled factory start)
  with assms op_inv_run [OF assms(1)] show ?thesis by (auto simp: adapter_next_event_inv split: if_splits)
next
  case (WorkFinished result)
  with assms show ?thesis by (simp add: work_finished_inv)
next
  case (ConsumerResumed start)
  with assms consumer_resumes_inv [OF assms(1)] consumer_cancelled_inv resumed_run_inv [OF assms(1)] show ?thesis
    by (auto split: consumer.splits)
next
  case CleanupJoined
  with assms op_inv_run [OF assms(1)] show ?thesis by (auto simp: join_settled_inv split: if_splits)
next
  case ConsumerCancelled
  with assms show ?thesis by (simp add: consumer_cancel_requested_inv)
next
  case TransitionRan
  with assms transition_inv show ?thesis by (auto split: if_splits)
next
  case CleanupRan
  with assms show ?thesis by (simp add: cleanup_runs_inv)
next
  case (StreamCloseEnded result)
  with assms show ?thesis by (simp add: stream_close_ends_inv)
next
  case (ClientCloseEnded result)
  with assms show ?thesis by (simp add: client_close_ends_inv)
next
  case CancelCalled
  with assms show ?thesis by (auto simp: cancel_called_inv)
next
  case (CancelReturned i)
  with assms show ?thesis by (auto dest: cancel_returns_inv)
next
  case (CancelAbandoned i)
  with assms show ?thesis by (auto simp: op_inv_at split: if_splits)
next
  case ForceCalled
  with assms show ?thesis by (auto simp: force_cancel_inv)
qed

text \<open>
  What a segment hands on, whatever state it runs in: at most one event, none from a state that is
  closed or silenced by a cancellation, and the cleanup never goes back.
\<close>

definition silenced :: "operation \<Rightarrow> bool" where
  "silenced s \<longleftrightarrow> ro_cancel_selected s \<and> ro_state s \<in> {ResourcesClosing, ClosedOperation}"

fun cleanup_rank :: "cleanup \<Rightarrow> nat" where
  "cleanup_rank NoCleanup = 6"
| "cleanup_rank CleanupScheduled = 5"
| "cleanup_rank (AwaitingOwned _) = 4"
| "cleanup_rank (OwnedEnded _ _) = 3"
| "cleanup_rank (ClosingStream _) = 2"
| "cleanup_rank (ClosingClient _) = 1"
| "cleanup_rank (CleanupDone _) = 0"
| "cleanup_rank CleanupInterrupted = 0"

definition onward :: "operation \<Rightarrow> operation \<Rightarrow> bool" where
  "onward s t \<longleftrightarrow>
     (ro_state s = ClosedOperation \<longrightarrow> ro_state t = ClosedOperation) \<and> (silenced s \<longrightarrow> silenced t) \<and>
     cleanup_rank (ro_cleanup t) \<le> cleanup_rank (ro_cleanup s)"

definition quiet :: "operation \<Rightarrow> operation \<Rightarrow> bool" where
  "quiet s t \<longleftrightarrow> ro_emitted t = ro_emitted s \<and> onward s t"

definition hands_on :: "operation \<Rightarrow> operation \<Rightarrow> bool" where
  "hands_on s t \<longleftrightarrow>
     (ro_emitted t = ro_emitted s \<or>
      (\<exists>e. ro_emitted t = ro_emitted s @ [e] \<and> ro_state s \<noteq> ClosedOperation \<and> \<not> silenced s)) \<and>
     onward s t"

lemmas quiet_defs = quiet_def onward_def silenced_def

lemmas hands_on_defs = hands_on_def onward_def silenced_def

lemma quiet_then: "quiet s u \<Longrightarrow> hands_on u t \<Longrightarrow> hands_on s t"
  by (auto simp: quiet_def hands_on_def onward_def)

lemma quiet_hands_on: "quiet s t \<Longrightarrow> hands_on s t"
  by (simp add: quiet_def hands_on_def)

lemmas segment_defs =
  stop_consumer_def consumer_cancelled_def deliver_def pop_terminal_def install_terminal_after_cleanup_def
  close_logically_def ensure_cleanup_def Let_def

lemma settle_top_hands_on: "hands_on s (settle_top s)"
  by (cases "ro_state s") (auto simp: hands_on_defs settle_top_def segment_defs split: list.split)

lemma join_settled_hands_on: "hands_on s (join_settled s)"
proof -
  have "quiet s (install_terminal_after_cleanup s)" by (simp add: quiet_defs segment_defs)
  from quiet_then [OF this settle_top_hands_on] show ?thesis
    by (simp add: join_settled_def) (simp add: hands_on_defs consumer_cancelled_def)
qed

lemma loop_top_hands_on: "hands_on s (loop_top s)"
  by (simp add: loop_top_def join_settled_hands_on settle_top_hands_on)

lemma close_with_terminal_hands_on: "hands_on s (close_with_terminal es s)"
proof (cases "ro_state s = Active")
  case True
  let ?t = "ensure_cleanup (s\<lparr>ro_terminal_queue := es, ro_state := ResourcesClosing\<rparr>)"
  have "quiet s ?t" using True by (simp add: quiet_defs ensure_cleanup_def)
  from quiet_then [OF this loop_top_hands_on] True show ?thesis by (simp add: close_with_terminal_def)
next
  case False
  then show ?thesis by (simp add: close_with_terminal_def loop_top_hands_on)
qed

lemma run_owned_hands_on: "hands_on s (run_owned kind start s)"
  using close_with_terminal_hands_on
  by (auto simp: run_owned_def stop_consumer_def hands_on_defs split: option.split)

lemma read_next_hands_on: "hands_on s (read_next start s)"
  by (simp add: read_next_def close_with_terminal_hands_on run_owned_hands_on del: normalize_exception.simps)

lemma accept_observation_value_hands_on: "hands_on s (accept_observation_value raw start s)"
proof -
  obtain r a where ac: "accept_event raw (ro_automaton s) = (r, a)" by (rule prod.exhaust)
  have h: "hands_on s u \<longleftrightarrow> hands_on (s\<lparr>ro_automaton := a\<rparr>) u" for u by (simp add: hands_on_defs)
  have d: "ro_state s = Active \<Longrightarrow> hands_on (s\<lparr>ro_automaton := a\<rparr>) (deliver e (s\<lparr>ro_automaton := a\<rparr>))" for e
    by (simp add: hands_on_defs deliver_def consumer_cancelled_def)
  have p: "hands_on (s\<lparr>ro_automaton := a\<rparr>) (stop_consumer (s\<lparr>ro_automaton := a\<rparr>))"
    by (simp add: hands_on_defs stop_consumer_def)
  show ?thesis
    by (cases r) (simp_all add: accept_observation_value_def ac h d p Let_def close_with_terminal_hands_on
        read_next_hands_on del: normalize_exception.simps)
qed

lemma consumer_resumes_hands_on: "hands_on s (consumer_resumes kind result start s)"
proof -
  have o: "hands_on s u \<longleftrightarrow> hands_on (s\<lparr>ro_owned := None\<rparr>) u"
    "hands_on s u \<longleftrightarrow> hands_on (s\<lparr>ro_owned := None, ro_stream := True\<rparr>) u"
    "hands_on s u \<longleftrightarrow> hands_on (s\<lparr>ro_owned := None, ro_stream := True, ro_iterator := True\<rparr>) u" for u
    by (simp_all add: hands_on_defs)
  show ?thesis
  proof (cases result)
    case (StreamReturned b)
    then show ?thesis
      using o(2) close_with_terminal_hands_on [of "s\<lparr>ro_owned := None, ro_stream := True\<rparr>"]
        o(3) run_owned_hands_on [of "s\<lparr>ro_owned := None, ro_stream := True, ro_iterator := True\<rparr>"]
      by (simp add: consumer_resumes_def Let_def del: normalize_exception.simps)
  next
    case (ObservationReturned raw)
    then show ?thesis using o(1) accept_observation_value_hands_on [of "s\<lparr>ro_owned := None\<rparr>"]
      by (simp add: consumer_resumes_def)
  next
    case (WorkRaised x)
    then show ?thesis using o(1) close_with_terminal_hands_on [of "s\<lparr>ro_owned := None\<rparr>"]
      by (simp add: consumer_resumes_def)
  next
    case WorkCancelled
    then show ?thesis
      using o(1) close_with_terminal_hands_on [of "s\<lparr>ro_owned := None\<rparr>"]
      by (auto simp: consumer_resumes_def Let_def hands_on_defs stop_consumer_def consumer_cancelled_def
          simp del: normalize_exception.simps)
  qed
qed

lemma adapter_next_event_hands_on: "hands_on s (adapter_next_event factory start s)"
proof -
  have "quiet s (s\<lparr>ro_client := True\<rparr>)" by (simp add: quiet_defs)
  from quiet_then [OF this run_owned_hands_on] quiet_then [OF this read_next_hands_on] show ?thesis
    by (simp add: adapter_next_event_def read_sdk_observation_def Let_def loop_top_hands_on
        close_with_terminal_hands_on del: normalize_exception.simps
        split: option.split)
qed

text \<open>The segments of the cleanup, and how far each brings it.\<close>

definition still :: "operation \<Rightarrow> operation \<Rightarrow> bool" where
  "still s t \<longleftrightarrow> ro_emitted t = ro_emitted s \<and> ro_cancel_selected t = ro_cancel_selected s \<and>
     (ro_state s = ClosedOperation \<longrightarrow> ro_state t = ClosedOperation) \<and>
     (ro_state s = ResourcesClosing \<longrightarrow> ro_state t \<in> {ResourcesClosing, ClosedOperation})"

lemma still_quiet: "still s t \<Longrightarrow> cleanup_rank (ro_cleanup t) \<le> cleanup_rank (ro_cleanup s) \<Longrightarrow> quiet s t"
  by (auto simp: still_def quiet_defs)

lemma finish_cleanup_still: "still s (finish_cleanup f s) \<and> cleanup_rank (ro_cleanup (finish_cleanup f s)) = 0"
  by (simp add: still_def finish_cleanup_def segment_defs)

lemma close_client_still: "still s (close_client f s) \<and> cleanup_rank (ro_cleanup (close_client f s)) \<le> 1"
  using finish_cleanup_still [of s f] by (simp add: close_client_def still_def)

lemma close_stream_still: "still s (close_stream f s) \<and> cleanup_rank (ro_cleanup (close_stream f s)) \<le> 2"
  using close_client_still [of s f] by (simp add: close_stream_def still_def)

lemma reap_owned_still: "still s (reap_owned k r s) \<and> cleanup_rank (ro_cleanup (reap_owned k r s)) \<le> 2"
proof -
  have i: "still s (s\<lparr>ro_cleanup := CleanupInterrupted\<rparr>)" by (simp add: still_def)
  have c: "still s (close_stream f (s\<lparr>ro_stream := True, ro_iterator := b\<rparr>)) \<and>
      cleanup_rank (ro_cleanup (close_stream f (s\<lparr>ro_stream := True, ro_iterator := b\<rparr>))) \<le> 2" for f b
    using close_stream_still [of "s\<lparr>ro_stream := True, ro_iterator := b\<rparr>" f] by (simp add: still_def)
  show ?thesis
    using i c close_stream_still [of s] by (cases r) (simp_all add: reap_owned_def)
qed

lemma cleanup_runs_still:
  assumes "cleanup_runs s = Some t"
  shows "still s t \<and> cleanup_rank (ro_cleanup t) < cleanup_rank (ro_cleanup s)"
proof (cases "ro_cleanup s")
  case CleanupScheduled
  have "still s (s\<lparr>ro_cleanup := p\<rparr>)" for p by (simp add: still_def)
  moreover have "still s (close_stream f s) \<and> cleanup_rank (ro_cleanup (close_stream f s)) < 5" for f
    using close_stream_still [of s f] by simp
  moreover have "still s (reap_owned k r s) \<and> cleanup_rank (ro_cleanup (reap_owned k r s)) < 5" for k r
    using reap_owned_still [of s k r] by simp
  ultimately show ?thesis using assms CleanupScheduled
    by (auto simp: cleanup_runs_def split: if_splits option.splits consumer.splits)
next
  case (OwnedEnded k r)
  with assms reap_owned_still [of s k r] show ?thesis by (auto simp: cleanup_runs_def)
qed (use assms in \<open>simp_all add: cleanup_runs_def\<close>)

lemma stream_close_ends_still:
  assumes "stream_close_ends r s = Some t"
  shows "still s t \<and> cleanup_rank (ro_cleanup t) < cleanup_rank (ro_cleanup s)"
proof -
  let ?s = "s\<lparr>ro_calls := ro_calls s @ [StreamClosed r]\<rparr>"
  have "still s (close_client f ?s) \<and> cleanup_rank (ro_cleanup (close_client f ?s)) < 2" for f
    using close_client_still [of ?s f] by (simp add: still_def)
  moreover have "still s (?s\<lparr>ro_cleanup := CleanupInterrupted\<rparr>)" by (simp add: still_def)
  ultimately show ?thesis using assms
    by (cases "ro_cleanup s"; cases r) (auto simp: stream_close_ends_def Let_def split: if_splits)
qed

lemma client_close_ends_still:
  assumes "client_close_ends r s = Some t"
  shows "still s t \<and> cleanup_rank (ro_cleanup t) < cleanup_rank (ro_cleanup s)"
proof -
  let ?s = "s\<lparr>ro_calls := ro_calls s @ [ClientClosed r]\<rparr>"
  have "still s (finish_cleanup f ?s) \<and> cleanup_rank (ro_cleanup (finish_cleanup f ?s)) = 0" for f
    using finish_cleanup_still [of ?s f] by (simp add: still_def)
  moreover have "still s (?s\<lparr>ro_cleanup := CleanupInterrupted\<rparr>)" by (simp add: still_def)
  ultimately show ?thesis using assms
    by (cases "ro_cleanup s"; cases r) (auto simp: client_close_ends_def Let_def split: if_splits)
qed

lemma operation_step_hands_on:
  assumes "operation_step act s = Some t"
  shows "hands_on s t"
proof (cases act)
  case (NextCalled factory start)
  with assms show ?thesis by (auto simp: adapter_next_event_hands_on split: if_splits)
next
  case (ConsumerResumed start)
  have "hands_on s (consumer_cancelled (s\<lparr>ro_owned := None\<rparr>))" by (simp add: hands_on_defs consumer_cancelled_def)
  with assms ConsumerResumed consumer_resumes_hands_on show ?thesis by (auto split: consumer.splits)
next
  case CleanupJoined
  with assms show ?thesis by (auto simp: join_settled_hands_on split: if_splits)
next
  case CleanupRan
  with assms cleanup_runs_still [of s t] show ?thesis by (auto intro!: quiet_hands_on still_quiet)
next
  case (StreamCloseEnded r)
  with assms stream_close_ends_still [of r s t] show ?thesis by (auto intro!: quiet_hands_on still_quiet)
next
  case (ClientCloseEnded r)
  with assms client_close_ends_still [of r s t] show ?thesis by (auto intro!: quiet_hands_on still_quiet)
next
  case (WorkFinished r)
  with assms have "quiet s t"
    by (auto simp: work_finished_def quiet_defs split: consumer.splits if_splits cleanup.split)
  then show ?thesis by (rule quiet_hands_on)
next
  case EventsClaimed
  with assms have "quiet s t" by (auto simp: events_call_def quiet_defs split: if_splits)
  then show ?thesis by (rule quiet_hands_on)
next
  case ConsumerCancelled
  with assms have "quiet s t"
    by (auto simp: consumer_cancel_requested_def consumer_cancelled_def quiet_defs split: consumer.splits)
  then show ?thesis by (rule quiet_hands_on)
next
  case TransitionRan
  with assms have "quiet s t"
    by (auto simp: select_consumer_cancellation_def quiet_defs segment_defs split: if_splits)
  then show ?thesis by (rule quiet_hands_on)
next
  case CancelCalled
  with assms have "quiet s t" by (auto simp: cancel_called_def quiet_defs ensure_cleanup_def Let_def)
  then show ?thesis by (rule quiet_hands_on)
next
  case (CancelReturned i)
  with assms have "quiet s t"
    by (auto simp: cancel_returns_def settle_cancelled_state_def quiet_defs close_logically_def Let_def split: if_splits)
  then show ?thesis by (rule quiet_hands_on)
next
  case (CancelAbandoned i)
  with assms have "quiet s t" by (auto simp: quiet_defs split: if_splits)
  then show ?thesis by (rule quiet_hands_on)
next
  case ForceCalled
  with assms have "quiet s t"
    by (auto simp: force_cancel_adapter_def quiet_defs close_logically_def split: cleanup.split)
  then show ?thesis by (rule quiet_hands_on)
qed

interpretation adapter: provider_stream operation_step op_inv "\<lambda>s. ro_state s = ClosedOperation" ro_emitted
proof
  show "op_inv t" if "op_inv s" "operation_step a s = Some t" for s a t using that by (rule operation_step_inv)
  show "ro_state t = ClosedOperation \<and> ro_emitted t = ro_emitted s"
    if "ro_state s = ClosedOperation" "operation_step a s = Some t" for s a t
    using operation_step_hands_on [OF that(2)] that(1) by (auto simp: hands_on_def onward_def)
  show "ro_emitted t = ro_emitted s \<or> (\<exists>e. ro_emitted t = ro_emitted s @ [e])"
    if "op_inv s" "operation_step a s = Some t" for s a t
    using operation_step_hands_on [OF that(2)] by (auto simp: hands_on_def)
  show "ro_state s = ClosedOperation" if "op_inv s" "e \<in> set (ro_emitted s)" "is_stream_terminal e" for s e
    using that by (auto simp: op_inv_def stream_inv_def)
qed

end
