(* ===== verification/Responses_Claims.thy ===== *)
theory Responses_Claims
  imports Responses_Operation_Properties
begin

section \<open>Claims on the OpenAI operation\<close>

text \<open>
  The operation under every interleaving, and the run nobody disturbs, in which the SDK answers with a
  list of observations: that one emits exactly \<open>read_stream\<close>.
\<close>

subsection \<open>An undisturbed run\<close>

text \<open>
  What happens next when nobody cancels, both calls of \<open>close\<close> return and \<open>obs\<close> are the observations
  still to come, after which the iterator is exhausted.
\<close>

definition answer :: "operation \<Rightarrow> sdk_value list \<Rightarrow> operation_action \<times> sdk_value list" where
  "answer s obs =
     (if \<not> ro_claimed s then (EventsClaimed, obs)
      else case ro_consumer s of
        ConsumerIdle \<Rightarrow> (NextCalled None None, obs)
      | AwaitingWork CreateWork \<Rightarrow> (WorkFinished (StreamReturned True), obs)
      | AwaitingWork NextWork \<Rightarrow>
          (case obs of
             [] \<Rightarrow> (WorkFinished (WorkRaised StopAsyncIteration), [])
           | e # es \<Rightarrow> (WorkFinished (ObservationReturned e), es))
      | WorkEnded _ _ \<Rightarrow> (ConsumerResumed None, obs)
      | JoiningCleanup \<Rightarrow>
          (case ro_cleanup s of
             ClosingStream _ \<Rightarrow> (StreamCloseEnded CloseReturned, obs)
           | ClosingClient _ \<Rightarrow> (ClientCloseEnded CloseReturned, obs)
           | CleanupDone _ \<Rightarrow> (CleanupJoined, obs)
           | _ \<Rightarrow> (CleanupRan, obs))
      | _ \<Rightarrow> (TransitionRan, obs))"

text \<open>\<open>None\<close> is a step that cannot run, or too little fuel.\<close>

fun attend :: "nat \<Rightarrow> sdk_value list \<Rightarrow> operation \<Rightarrow> operation option" where
  "attend 0 obs s = (if ro_state s = ClosedOperation \<and> ro_consumer s = ConsumerIdle then Some s else None)"
| "attend (Suc n) obs s =
     (if ro_state s = ClosedOperation \<and> ro_consumer s = ConsumerIdle then Some s
      else case answer s obs of
        (act, rest) \<Rightarrow> (case operation_step act s of None \<Rightarrow> None | Some t \<Rightarrow> attend n rest t))"

lemma attend_run: "attend n obs s = Some t \<Longrightarrow> \<exists>as. adapter.run as s = Some t"
proof (induction n obs s rule: attend.induct)
  case (1 obs s)
  then show ?case by (intro exI [of _ "[]"]) (simp split: if_splits)
next
  case (2 n obs s)
  show ?case
  proof (cases "ro_state s = ClosedOperation \<and> ro_consumer s = ConsumerIdle")
    case True
    with 2 show ?thesis by (intro exI [of _ "[]"]) simp
  next
    case False
    obtain act rest where a: "answer s obs = (act, rest)" by (rule prod.exhaust)
    with 2(2) False obtain u where u: "operation_step act s = Some u" "attend n rest u = Some t"
      by (auto split: option.splits)
    with 2(1) [OF False a [symmetric]] obtain as where "adapter.run as u = Some t" by auto
    with u(1) show ?thesis by (intro exI [of _ "act # as"]) simp
  qed
qed

definition served :: "automaton \<Rightarrow> provider_stream_event list \<Rightarrow> operation" where
  "served a out =
     \<lparr>ro_automaton = a, ro_state = Active, ro_claimed = True, ro_client = True,
      ro_stream = True, ro_iterator = True, ro_owned = Some NextWork, ro_cleanup = NoCleanup,
      ro_cleanup_cancelling = False, ro_cleanup_failed = False, ro_cancel_selected = False,
      ro_terminal_queue = [], ro_consumer = AwaitingWork NextWork, ro_consumer_cancelling = False,
      ro_cancel_waiters = [], ro_emitted = out, ro_calls = []\<rparr>"

definition closing_with :: "automaton \<Rightarrow> provider_stream_event list \<Rightarrow> provider_stream_event list \<Rightarrow> operation" where
  "closing_with a out queue =
     (served a out)\<lparr>ro_state := ResourcesClosing, ro_owned := None, ro_cleanup := CleanupScheduled,
        ro_terminal_queue := queue, ro_consumer := JoiningCleanup\<rparr>"

definition finished :: "automaton \<Rightarrow> provider_stream_event list \<Rightarrow> operation" where
  "finished a out =
     (served a out)\<lparr>ro_state := ClosedOperation, ro_owned := None, ro_cleanup := CleanupDone False,
        ro_consumer := ConsumerIdle, ro_calls := [StreamClosed CloseReturned, ClientClosed CloseReturned]\<rparr>"

lemma attend_finished [simp]: "attend n obs (finished a out) = Some (finished a out)"
  by (cases n) (simp_all add: finished_def)

lemmas step_defs =
  answer_def served_def closing_with_def finished_def cleanup_runs_def close_stream_def
  stream_close_ends_def close_client_def client_close_ends_def finish_cleanup_def join_settled_def
  install_terminal_after_cleanup_def settle_top_def pop_terminal_def deliver_def cleanup_settled_def
  adapter_next_event_def loop_top_def Let_def

lemma attend_closing:
  "attend (5 + n) obs (closing_with a out [e]) = Some (finished a (out @ [e]))"
  "attend (5 + n) obs (closing_with a out [e, e']) = Some (finished a (out @ [e, e']))"
proof -
  have a: "attend (5 + n) obs s = attend (Suc (Suc (Suc (Suc (Suc n))))) obs s" for s
    by (simp add: eval_nat_numeral)
  show "attend (5 + n) obs (closing_with a out [e]) = Some (finished a (out @ [e]))"
    unfolding a by (simp add: step_defs)
  show "attend (5 + n) obs (closing_with a out [e, e']) = Some (finished a (out @ [e, e']))"
    unfolding a by (simp add: step_defs) (cases n; simp)
qed

lemma attend_Suc2: "attend (2 + n) obs s = attend (Suc (Suc n)) obs s"
  by simp

lemma attend_raised:
  "attend (7 + n) [] (served a out) = Some (finished a (out @ [normalize_exception StopAsyncIteration]))"
proof -
  have "attend (Suc (Suc m)) [] (served a out) = attend m [] (closing_with a out [normalize_exception StopAsyncIteration])" for m
    by (simp add: step_defs work_finished_def consumer_resumes_def close_with_terminal_def ensure_cleanup_def
        del: normalize_exception.simps)
  from this [of "5 + n"] show ?thesis using attend_closing(1) by simp
qed

text \<open>The consumer's segment after one observation.\<close>

lemma attend_observed:
  "attend (2 + n) (e # obs) (served a out) =
     attend n obs (accept_observation_value e None ((served a out)\<lparr>ro_consumer := WorkEnded NextWork (ObservationReturned e), ro_owned := None\<rparr>))"
  unfolding attend_Suc2 by (simp add: step_defs work_finished_def consumer_resumes_def)

lemma attend_terminal:
  assumes "r \<noteq> []" "length r \<le> 2"
  shows "attend (5 + n) obs (close_with_terminal r ((served a out)\<lparr>ro_automaton := a', ro_consumer := c, ro_owned := None\<rparr>))
    = Some (finished a' (out @ r))"
proof -
  have f: "close_with_terminal r ((served a out)\<lparr>ro_automaton := a', ro_consumer := c, ro_owned := None\<rparr>) = closing_with a' out r"
    by (simp add: close_with_terminal_def served_def closing_with_def ensure_cleanup_def loop_top_def
        cleanup_settled_def settle_top_def)
  from assms obtain e e' where "r = [e] \<or> r = [e, e']"
    by (cases r; cases "tl r"; cases "tl (tl r)") auto
  with attend_closing show ?thesis unfolding f by blast
qed

lemma served_order:
  "(served a out)\<lparr>ro_consumer := c, ro_owned := None, ro_automaton := a'\<rparr> =
   (served a out)\<lparr>ro_automaton := a', ro_consumer := c, ro_owned := None\<rparr>"
  by simp

lemma attend_reads:
  "reached a es \<Longrightarrow> \<exists>a'. attend (3 * length obs + 7 + n) obs (served a out) = Some (finished a' (out @ read_stream obs a))"
proof (induction obs arbitrary: a es out n)
  case Nil
  show ?case using attend_raised [of n a out] by (intro exI [of _ a]) simp
next
  case (Cons e obs)
  let ?s = "(served a out)\<lparr>ro_consumer := WorkEnded NextWork (ObservationReturned e), ro_owned := None\<rparr>"
  define m where "m = 3 * length obs + 7 + n"
  have fuel: "attend (3 * length (e # obs) + 7 + n) (e # obs) (served a out) =
      attend (1 + m) obs (accept_observation_value e None ?s)"
    using attend_observed [of "1 + m" e obs a out] by (simp add: m_def add.assoc)
  have five: "attend (1 + m) obs (close_with_terminal r ((served a out)\<lparr>ro_automaton := a', ro_consumer := c, ro_owned := None\<rparr>))
      = Some (finished a' (out @ r))" if "r \<noteq> []" "length r \<le> 2" for r a' c
    using attend_terminal [OF that, of "3 * length obs + 3 + n"] by (simp add: m_def)
  obtain r a' where ac: "accept_event e a = (r, a')" by (rule prod.exhaust)
  have at: "ro_automaton ?s = a" by (simp add: served_def)
  show ?case
  proof (cases r)
    case (Inl x)
    have "accept_observation_value e None ?s = close_with_terminal [normalize_exception x] (?s\<lparr>ro_automaton := a'\<rparr>)"
      using ac Inl at by (simp add: accept_observation_value_def del: normalize_exception.simps)
    with five [where r = "[normalize_exception x]" and a' = a'] ac Inl show ?thesis unfolding fuel served_order by auto
  next
    case (Inr k)
    from Cons.prems ac [unfolded Inr] show ?thesis
    proof (cases rule: accept_step)
      case progress
      show ?thesis
      proof (cases "k = []")
        case True
        have "accept_observation_value e None ?s = served a' out"
          using ac Inr at True
          by (simp add: accept_observation_value_def Let_def read_next_def run_owned_def served_def)
        with Cons.IH [OF progress(1), of "1 + n" out] ac Inr True show ?thesis
          unfolding fuel by (simp add: m_def)
      next
        case False
        with progress(3) obtain d where d: "k = [d]" "is_progress [d]"
          by (auto simp: is_progress_def split: list.splits provider_stream_event.splits)
        have "accept_observation_value e None ?s = deliver d (?s\<lparr>ro_automaton := a'\<rparr>)"
          using ac Inr at d by (simp add: accept_observation_value_def Let_def served_def)
        then have "attend (1 + m) obs (accept_observation_value e None ?s) = attend m obs (served a' (out @ [d]))"
          by (simp add: deliver_def served_def answer_def adapter_next_event_def read_sdk_observation_def
              read_next_def run_owned_def)
        with Cons.IH [OF progress(1), of n "out @ [d]"] ac Inr d show ?thesis
          unfolding fuel by (simp add: m_def)
      qed
    next
      case failed
      then have k: "length k = 1" by (auto simp: failure_only_def)
      have "accept_observation_value e None ?s = close_with_terminal k (?s\<lparr>ro_automaton := a'\<rparr>)"
        using ac Inr at failure_not_progress [OF failed] by (simp add: accept_observation_value_def Let_def)
      with five [where r = k and a' = a'] k ac Inr failure_not_progress [OF failed] show ?thesis
        unfolding fuel served_order by auto
    next
      case (completed us)
      then have k: "length k \<le> 2" by (auto simp: usage_shape_def)
      have n: "k \<noteq> []" "\<not> is_progress k" using completion_not_progress [OF completed(1)] completed(2) by simp_all
      have "accept_observation_value e None ?s = close_with_terminal k (?s\<lparr>ro_automaton := a'\<rparr>)"
        using ac Inr at n by (simp add: accept_observation_value_def Let_def)
      with five [OF n(1) k, where a' = a'] ac Inr n show ?thesis unfolding fuel served_order by auto
    qed
  qed
qed

lemma attend_all:
  "\<exists>a'. attend (3 * length obs + 11 + n) obs (new_responses_operation model) =
     Some (finished a' (read_stream obs (new_automaton model)))"
proof -
  have "attend (4 + m) obs (new_responses_operation model) = attend m obs (served (new_automaton model) [])" for m
    by (simp add: new_responses_operation_def served_def answer_def eval_nat_numeral events_call_def
        adapter_next_event_def read_sdk_observation_def run_owned_def work_finished_def consumer_resumes_def Let_def)
  from this [of "3 * length obs + 7 + n"] attend_reads [OF reached_new, of obs n model "[]"] show ?thesis by (simp add: add.commute add.left_commute)
qed

subsection \<open>Reachable states\<close>

lemma op_inv_new: "op_inv (new_responses_operation model)"
proof -
  have "stream_shape [failed_event UnknownFailure]" unfolding stream_shape_def
    by (intro exI [of _ "[]"] exI [of _ UnknownFailure]) simp
  then have "extends_to_shape (new_responses_operation model)"
    unfolding extends_to_shape_def by (intro exI [of _ "[failed_event UnknownFailure]"]) (simp add: new_responses_operation_def)
  moreover have "text_events (new_automaton model) = []"
    by (simp add: text_events_def new_automaton_def text_finished_def)
  ultimately show ?thesis using reached_new [of model]
    by (auto simp: op_inv_def work_inv_def calls_inv_def stream_inv_def new_responses_operation_def)
qed

lemma reachable_inv: "adapter.run as (new_responses_operation model) = Some s \<Longrightarrow> op_inv s"
  using adapter.run_valid [OF op_inv_new] .

lemma completed_calls:
  assumes "op_inv s" "ProviderCompleted \<in> set (ro_emitted s)"
  shows "ro_calls s = [StreamClosed CloseReturned, ClientClosed CloseReturned] \<and> wait_closed s = Some True"
proof -
  from assms have f: "ro_stream s" "ro_cleanup s = CleanupDone False" "\<not> ro_cleanup_failed s"
    "\<not> ro_cleanup_cancelling s"
    by (auto simp: op_inv_def stream_inv_def)
  have c: "ro_state s = ClosedOperation" using adapter.terminal_closes [OF assms] by simp
  have "ro_calls s = clean_calls s" using assms(1) f by (simp add: op_inv_def calls_inv_def)
  moreover have "ro_client s" using assms(1) f(1) by (simp add: op_inv_def work_inv_def)
  ultimately show ?thesis using f c by (simp add: clean_calls_def stream_calls_def wait_closed_def cleanup_settled_def)
qed

lemma silenced_selected: "op_inv s \<Longrightarrow> ro_cancel_selected s \<longleftrightarrow> silenced s"
  by (cases "ro_state s") (auto simp: op_inv_def stream_inv_def silenced_def)

lemma silenced_run:
  "silenced s \<Longrightarrow> adapter.run bs s = Some t \<Longrightarrow> silenced t \<and> ro_emitted t = ro_emitted s"
proof (induction bs arbitrary: s)
  case Nil
  then show ?case by simp
next
  case (Cons b bs)
  then obtain u where u: "operation_step b s = Some u" "adapter.run bs u = Some t"
    by (auto split: option.splits)
  from operation_step_hands_on [OF u(1)] Cons.prems(1) have "silenced u" "ro_emitted u = ro_emitted s"
    by (auto simp: hands_on_def onward_def)
  with Cons.IH u(2) show ?case by auto
qed

text \<open>The run of the example, and one that is cancelled while its stream is created.\<close>

definition example_run :: "operation_action list" where
  "example_run = [EventsClaimed, NextCalled None None, CancelCalled]"

lemma example_cancelled:
  "\<exists>s. adapter.run example_run (new_responses_operation (lit ''m'')) = Some s \<and> ro_cancel_selected s \<and>
     cleanup_working s \<and> adapter.run [CleanupRan, WorkFinished (StreamReturned True), ConsumerResumed None, CleanupRan] s \<noteq> None"
  by (simp add: example_run_def new_responses_operation_def events_call_def adapter_next_event_def
      read_sdk_observation_def run_owned_def cancel_called_def ensure_cleanup_def cleanup_working_def
      cleanup_settled_def cleanup_runs_def work_finished_def consumer_resumes_def stop_consumer_def
      reap_owned_def close_stream_def Let_def)

lemma example_completes:
  "\<exists>as s. adapter.run as (new_responses_operation (lit ''m'')) = Some s \<and> ProviderCompleted \<in> set (ro_emitted s)"
proof -
  obtain a where a: "attend (3 * length (luna_observations 0 (lit ''m'') example_response) + 11 + 0)
      (luna_observations 0 (lit ''m'') example_response) (new_responses_operation (lit ''m'')) =
      Some (finished a (read_stream (luna_observations 0 (lit ''m'') example_response) (new_automaton (lit ''m''))))"
    using attend_all by blast
  from attend_run [OF this] example_response_read [of "lit ''m''" "[]"] show ?thesis
    by (force simp: finished_def served_def)
qed

subsection \<open>Claims\<close>

text \<open>C34: A consumer that is not disturbed receives exactly the stream of the automaton. With any
  observations from the SDK, three steps for each and eleven more bring the operation to its end: it
  has emitted \<open>read_stream\<close>, its stream and then its client were closed once each, and waiting for
  its end reports success; the schedule is one of the operation's runs.\<close>

theorem undisturbed_operation_reads_stream:
  "\<exists>s. attend (3 * length obs + 11 + extra) obs (new_responses_operation model) = Some s \<and>
     ro_emitted s = read_stream obs (new_automaton model) \<and>
     ro_calls s = [StreamClosed CloseReturned, ClientClosed CloseReturned] \<and>
     wait_closed s = Some True \<and> (\<exists>as. adapter.run as (new_responses_operation model) = Some s)"
proof -
  obtain a where a: "attend (3 * length obs + 11 + extra) obs (new_responses_operation model) =
      Some (finished a (read_stream obs (new_automaton model)))"
    using attend_all by blast
  from a attend_run [OF a] show ?thesis
    by (auto simp: finished_def served_def wait_closed_def cleanup_settled_def)
qed

text \<open>C35: In every interleaving of the consumer, the SDK task, the cleanup, cancellations and forced
  cleanups, and whatever the SDK returns or raises, what a consumer has received is the beginning of
  a stream of the one admitted shape; and the completion is handed on only after the stream's and
  the client's \<open>close\<close> returned, once each and in this order, with the operation closed cleanly.\<close>

theorem operation_stream_safe:
  assumes "adapter.run as (new_responses_operation model) = Some s"
  shows "(\<exists>out. stream_shape out \<and> prefix (ro_emitted s) out) \<and>
    (ProviderCompleted \<in> set (ro_emitted s) \<longrightarrow>
       ro_calls s = [StreamClosed CloseReturned, ClientClosed CloseReturned] \<and> wait_closed s = Some True)"
proof -
  have i: "op_inv s" using assms by (rule reachable_inv)
  then have "extends_to_shape s" by (simp add: op_inv_def stream_inv_def)
  with completed_calls [OF i] show ?thesis by (simp add: extends_to_shape_def)
qed

theorem operation_stream_safe_witness:
  "\<exists>as s. adapter.run as (new_responses_operation (lit ''m'')) = Some s \<and>
     ro_calls s = [StreamClosed CloseReturned, ClientClosed CloseReturned] \<and> wait_closed s = Some True"
  using example_completes operation_stream_safe by blast

text \<open>C36: Once a cancellation is selected, by \<open>cancel\<close>, by a forced cleanup or because the consumer
  was cancelled, the operation hands nothing on any more, in whatever order its tasks go on.\<close>

theorem cancelled_operation_is_silent:
  assumes "adapter.run as (new_responses_operation model) = Some s" "ro_cancel_selected s"
    and "adapter.run bs s = Some t"
  shows "ro_emitted t = ro_emitted s \<and> ro_cancel_selected t"
proof -
  have "silenced s" using silenced_selected [OF reachable_inv [OF assms(1)]] assms(2) by blast
  from silenced_run [OF this assms(3)] show ?thesis by (auto simp: silenced_def)
qed

theorem cancelled_operation_is_silent_witness:
  "\<exists>s t. adapter.run [CleanupRan, WorkFinished (StreamReturned True), ConsumerResumed None, CleanupRan] s = Some t \<and>
     ro_emitted t = ro_emitted s \<and> ro_cancel_selected t"
proof -
  obtain s t where "adapter.run example_run (new_responses_operation (lit ''m'')) = Some s" "ro_cancel_selected s"
    "adapter.run [CleanupRan, WorkFinished (StreamReturned True), ConsumerResumed None, CleanupRan] s = Some t"
    using example_cancelled by (elim exE conjE) (auto simp only: not_None_eq)
  from cancelled_operation_is_silent [OF this] this(3) show ?thesis by (intro exI [of _ s] exI [of _ t] conjI) simp_all
qed

text \<open>C37: The stream's and the client's \<open>close\<close> are called at most once each, the stream's first; and
  when the cleanup ended and \<open>wait_closed\<close> reports success, every resource the operation held was
  closed and its \<open>close\<close> returned.\<close>

theorem resources_closed_once:
  assumes "adapter.run as (new_responses_operation model) = Some s"
  shows "calls_shape (ro_calls s) \<and>
    (cleanup_settled s \<and> wait_closed s = Some True \<longrightarrow> ro_calls s = clean_calls s)"
proof -
  have i: "op_inv s" using assms by (rule reachable_inv)
  then have "calls_shape (ro_calls s)"
    by (cases "ro_cleanup s") (auto simp: op_inv_def calls_inv_def)
  moreover have "ro_calls s = clean_calls s" if "cleanup_settled s" "wait_closed s = Some True"
  proof -
    from that(2) have "\<not> ro_cleanup_failed s" by (auto simp: wait_closed_def split: if_splits)
    with i that(1) have "ro_cleanup s = CleanupDone False" "\<not> ro_cleanup_cancelling s"
      by (auto simp: op_inv_def stream_inv_def cleanup_settled_def split: cleanup.splits)
    with i show ?thesis by (simp add: op_inv_def calls_inv_def)
  qed
  ultimately show ?thesis by blast
qed

theorem resources_closed_once_witness:
  "\<exists>as s. adapter.run as (new_responses_operation (lit ''m'')) = Some s \<and>
     ProviderCompleted \<in> set (ro_emitted s) \<and> calls_shape (ro_calls s)"
  using example_completes resources_closed_once by blast

text \<open>The actions that move a cleanup on.\<close>

definition cleanup_action :: "operation \<Rightarrow> operation_action \<Rightarrow> bool" where
  "cleanup_action s act \<longleftrightarrow>
     (case act of
        CleanupRan \<Rightarrow> True
      | StreamCloseEnded _ \<Rightarrow> True
      | ClientCloseEnded _ \<Rightarrow> True
      | WorkFinished _ \<Rightarrow> (case ro_cleanup s of AwaitingOwned _ \<Rightarrow> True | _ \<Rightarrow> False)
      | _ \<Rightarrow> False)"

lemma cleanup_enabled:
  assumes "op_inv s" "cleanup_working s"
  shows "\<exists>act. cleanup_action s act \<and> operation_step act s \<noteq> None"
proof (cases "ro_cleanup s")
  case CleanupScheduled
  then show ?thesis by (intro exI [of _ CleanupRan]) (simp add: cleanup_action_def cleanup_runs_def)
next
  case (AwaitingOwned k)
  with assms(1) have "ro_consumer s = AwaitingWork k" by (simp add: op_inv_def work_inv_def)
  with AwaitingOwned show ?thesis
    by (intro exI [of _ "WorkFinished WorkCancelled"]) (cases k; simp add: cleanup_action_def work_finished_def)
next
  case (OwnedEnded k r)
  then show ?thesis by (intro exI [of _ CleanupRan]) (simp add: cleanup_action_def cleanup_runs_def)
next
  case (ClosingStream f)
  then show ?thesis
    by (intro exI [of _ "StreamCloseEnded CloseReturned"]) (simp add: cleanup_action_def stream_close_ends_def Let_def)
next
  case (ClosingClient f)
  then show ?thesis
    by (intro exI [of _ "ClientCloseEnded CloseReturned"]) (simp add: cleanup_action_def client_close_ends_def Let_def)
qed (use assms(2) in \<open>simp_all add: cleanup_working_def cleanup_settled_def\<close>)

lemma cleanup_advances:
  assumes "cleanup_action s act" "operation_step act s = Some t"
  shows "cleanup_rank (ro_cleanup t) < cleanup_rank (ro_cleanup s)"
proof (cases act)
  case (WorkFinished r)
  with assms show ?thesis
    by (auto simp: cleanup_action_def work_finished_def split: cleanup.splits consumer.splits if_splits)
next
  case CleanupRan
  with assms(2) cleanup_runs_still show ?thesis by simp
next
  case (StreamCloseEnded r)
  with assms(2) stream_close_ends_still show ?thesis by simp
next
  case (ClientCloseEnded r)
  with assms(2) client_close_ends_still show ?thesis by simp
qed (use assms(1) in \<open>simp_all add: cleanup_action_def\<close>)

text \<open>C38: A cleanup that was started always ends. While it is at work, an action of its environment is
  enabled (the SDK task or a \<open>close\<close> ends, or the task runs); each such action brings it closer to its
  end, five of them at most from its start, and no other step of the operation sets it back.\<close>

theorem cleanup_always_settles:
  assumes "adapter.run as (new_responses_operation model) = Some s" "cleanup_working s"
  shows "cleanup_rank (ro_cleanup s) \<le> 5 \<and>
    (\<exists>act. cleanup_action s act \<and> operation_step act s \<noteq> None) \<and>
    (\<forall>act t. operation_step act s = Some t \<longrightarrow>
       cleanup_rank (ro_cleanup t) \<le> cleanup_rank (ro_cleanup s) \<and>
       (cleanup_action s act \<longrightarrow> cleanup_rank (ro_cleanup t) < cleanup_rank (ro_cleanup s)) \<and>
       (cleanup_rank (ro_cleanup t) = 0 \<longrightarrow> cleanup_settled t))"
proof -
  have z: "cleanup_rank c = 0 \<Longrightarrow> (\<exists>f. c = CleanupDone f) \<or> c = CleanupInterrupted" for c
    by (cases c) simp_all
  have "cleanup_rank (ro_cleanup s) \<le> 5"
    using assms(2) by (cases "ro_cleanup s") (simp_all add: cleanup_working_def)
  moreover have "cleanup_rank (ro_cleanup t) \<le> cleanup_rank (ro_cleanup s)"
    if "operation_step act s = Some t" for act t
    using operation_step_hands_on [OF that] by (simp add: hands_on_def onward_def)
  moreover have "cleanup_settled t" if "cleanup_rank (ro_cleanup t) = 0" for t
    using z [OF that] by (auto simp: cleanup_settled_def)
  ultimately show ?thesis
    using cleanup_enabled [OF reachable_inv [OF assms(1)] assms(2)] cleanup_advances by blast
qed

theorem cleanup_always_settles_witness:
  "\<exists>s. adapter.run example_run (new_responses_operation (lit ''m'')) = Some s \<and>
     (\<exists>act. cleanup_action s act \<and> operation_step act s \<noteq> None)"
  using example_cancelled cleanup_always_settles by blast

subsection \<open>A dropped stream\<close>

text \<open>
  A consumer whose task is cancelled after \<open>create\<close> returned and before it runs again drops the stream:
  no \<open>close\<close> of it is called, and the operation still reports a clean end.
\<close>

lemma dropped_stream_is_not_closed:
  "\<exists>s. adapter.run [EventsClaimed, NextCalled None None, WorkFinished (StreamReturned True), ConsumerCancelled,
       ConsumerResumed None, TransitionRan, CleanupRan, ClientCloseEnded CloseReturned]
       (new_responses_operation model) = Some s \<and>
     wait_closed s = Some True \<and> ro_calls s = [ClientClosed CloseReturned]"
  by (simp add: new_responses_operation_def events_call_def adapter_next_event_def read_sdk_observation_def
      run_owned_def work_finished_def consumer_cancel_requested_def consumer_cancelled_def stop_consumer_def
      select_consumer_cancellation_def close_logically_def ensure_cleanup_def cleanup_runs_def close_stream_def
      close_client_def client_close_ends_def finish_cleanup_def wait_closed_def cleanup_settled_def Let_def)

end
