(* ===== verification/Runtime.thy ===== *)
theory Runtime
  imports Line_Reader OpenAI_Config Mock_Session Provider_Session Transcript_Creation
begin

section \<open>The supervised runtime (runtime.py)\<close>

text \<open>
  The process composition: validated options, the choice of the session runner, and the loop of
  \<open>run_runtime\<close>, which answers commands in input order while at most one session runs in a task
  of its own. The loop's local variables are the fields of \<open>runtime_state\<close>; the writer is shared,
  so a session works on the runtime's writer and hands it back (\<open>keep_session\<close>). Between two
  awaits of the loop nothing else runs, so a handled command is one action, and \<open>runtime_step\<close>
  interleaves these with the steps of the session's tasks, with what the transcript observers do,
  with a failing or interrupted loop, and with the teardown of the \<open>finally\<close> block. The observers
  are called from inside a session's step; the model makes each call a step of its own after it.
\<close>

subsection \<open>Options and composition\<close>

text \<open>What \<open>argparse\<close> returns: the values of each option in order, or its error message.\<close>

record argument_namespace =
  arg_workspace :: "ustr list option"
  arg_no_transcript :: bool
  arg_provider :: "ustr list option"
  arg_model :: "ustr list option"

datatype startup_error =
    RuntimeConfigurationError string
  | ProviderConfigurationError configuration_error

record runtime_options =
  opt_workspace :: workspace_boundary
  opt_transcript_enabled :: bool
  opt_provider :: ustr
  opt_model :: "ustr option"

definition single_value :: "string \<Rightarrow> ustr list option \<Rightarrow> startup_error + ustr option" where
  "single_value message values =
     (case values of
        None \<Rightarrow> Inr None
      | Some vs \<Rightarrow> if length vs \<noteq> 1 then Inl (RuntimeConfigurationError message) else Inr (Some (hd vs)))"

definition parse_runtime_options ::
  "(nat \<Rightarrow> bool) \<Rightarrow> host \<Rightarrow> string + argument_namespace
     \<Rightarrow> (startup_error, 'z host_log_scheme, runtime_options) effect" where
  "parse_runtime_options category_other h arguments =
     seq (lift_result (map_sum RuntimeConfigurationError id arguments)) (\<lambda>parsed.
     case arg_workspace parsed of
       None \<Rightarrow> raise (RuntimeConfigurationError ''--workspace PATH is required exactly once'')
     | Some workspace_values \<Rightarrow>
         if length workspace_values \<noteq> 1
         then raise (RuntimeConfigurationError ''--workspace PATH must be provided exactly once'')
         else
           seq (lift_result (single_value ''--provider NAME may be provided at most once'' (arg_provider parsed))) (\<lambda>provider.
           seq (lift_result (single_value ''--model MODEL may be provided at most once'' (arg_model parsed))) (\<lambda>model.
           seq (lift_result (map_sum (\<lambda>e. RuntimeConfigurationError (configuration_message e)) id
                  (validate_provider_selection category_other
                     (PyStr (case provider of None \<Rightarrow> DEFAULT_PROVIDER | Some p \<Rightarrow> p))
                     (map_option PyStr model)))) (\<lambda>(selected, validated_model).
           seq (rethrow (\<lambda>e. RuntimeConfigurationError (workspace_error_message e))
                  (from_path h (PlainPath (PyStr (hd workspace_values))))) (\<lambda>boundary.
           ret \<lparr>opt_workspace = boundary, opt_transcript_enabled = \<not> arg_no_transcript parsed,
                opt_provider = selected, opt_model = validated_model\<rparr>)))))"

text \<open>\<open>None\<close> selects the mocked session; a configuration is given to the OpenAI adapter.\<close>

definition compose_provider ::
  "(nat \<Rightarrow> bool) \<Rightarrow> runtime_options \<Rightarrow> (ustr \<times> ustr) list \<Rightarrow> startup_error + openai_configuration option" where
  "compose_provider category_other options environment =
     map_sum ProviderConfigurationError id
       (resolve_provider_configuration category_other (PyStr (opt_provider options))
          (map_option PyStr (opt_model options)) environment)"

text \<open>How \<open>run_runtime\<close> ends, and the process status; \<open>None\<close> is an exception \<open>main\<close> does not catch.\<close>

datatype run_end = RunReturned | RunRejected startup_error | RunRaised py_error | RunInterrupted

definition run_status :: "run_end \<Rightarrow> int option" where
  "run_status r =
     (case r of
        RunReturned \<Rightarrow> Some 0
      | RunRejected _ \<Rightarrow> Some 2
      | RunRaised e \<Rightarrow> if e = OSError then Some 1 else None
      | RunInterrupted \<Rightarrow> Some 130)"

definition main_status ::
  "(nat \<Rightarrow> bool) \<Rightarrow> host \<Rightarrow> string + argument_namespace \<Rightarrow> (ustr \<times> ustr) list
     \<Rightarrow> (runtime_options \<Rightarrow> openai_configuration option \<Rightarrow> run_end) \<Rightarrow> 'z host_log_scheme \<Rightarrow> int option" where
  "main_status category_other h arguments environment run_runtime hl =
     (case parse_runtime_options category_other h arguments hl of
        (Inl e, _) \<Rightarrow> run_status (RunRejected e)
      | (Inr options, _) \<Rightarrow>
          (case compose_provider category_other options environment of
             Inl e \<Rightarrow> run_status (RunRejected e)
           | Inr provider \<Rightarrow> run_status (run_runtime options provider)))"

subsection \<open>Commands\<close>

text \<open>\<open>_read_commands\<close> over the chunks of the input pipe until its end.\<close>

fun feed_chunks ::
  "nat \<Rightarrow> line_reader \<Rightarrow> byte list list \<Rightarrow> py_error + command line_result list \<times> line_reader" where
  "feed_chunks depth r [] = Inr ([], r)"
| "feed_chunks depth r (c # cs) =
     and_then (command_reader_feed depth r c) (\<lambda>(results, r').
     and_then (feed_chunks depth r' cs) (\<lambda>(later, r''). Inr (results @ later, r'')))"

definition read_commands :: "nat \<Rightarrow> byte list list \<Rightarrow> py_error + command line_result list" where
  "read_commands depth chunks =
     and_then (new_line_reader (int DEFAULT_MAX_LINE_BYTES)) (\<lambda>r.
     and_then (feed_chunks depth r chunks) (\<lambda>(results, r').
     Inr (results @ fst (finish_reader r'))))"

text \<open>Reading never finishes the reader early, so the commands are the lines of the whole input.\<close>

lemma feed_loop_unfinished: "reader_finished (snd (feed_loop parser r a)) = reader_finished r"
proof (induction "length a" arbitrary: a r rule: less_induct)
  case less
  show ?case
  proof (cases a rule: split_at_lf)
    case tail
    then show ?thesis by (cases "a = []") (simp_all add: feed_loop_tail)
  next
    case (line seg rest)
    with less.hyps [of rest] show ?thesis by (simp add: feed_loop_line split_beta Let_def)
  qed
qed

lemma feed_chunks_total:
  "\<not> reader_finished r \<Longrightarrow> feed_chunks depth r cs = Inr (reader.consume_all (parse_command_line depth) r cs)"
proof (induction cs arbitrary: r)
  case (Cons c cs)
  with feed_loop_unfinished [of "parse_command_line depth" r c] show ?case
    by (simp add: command_reader_feed_def feed_def split_beta Let_def)
qed simp

lemma read_commands_frames:
  "read_commands depth chunks =
     Inr (frame_stream (parse_command_line depth) DEFAULT_MAX_LINE_BYTES (concat chunks))"
proof -
  let ?r = "idle_reader DEFAULT_MAX_LINE_BYTES"
  have "new_line_reader (int DEFAULT_MAX_LINE_BYTES) = Inr ?r"
    by (simp add: new_line_reader_Inr DEFAULT_MAX_LINE_BYTES_def MAX_PROTOCOL_LINE_BYTES_def)
  moreover have "\<not> reader_finished ?r" by (simp add: idle_reader_def)
  ultimately show ?thesis
    using read_stream_frames [of "parse_command_line depth" DEFAULT_MAX_LINE_BYTES "concat chunks"]
    by (simp add: read_commands_def feed_chunks_total reader.consume_all_concat split_beta)
qed

subsection \<open>State\<close>

datatype live_session =
    MockRun mock_config mock_session
  | ProviderRun ps_config provider_session

text \<open>
  Where the loop stands: waiting for a command or the session, awaiting a session that was told to
  cancel, awaiting the session before it returns, in \<open>finally\<close> after an exception, or ended.
\<close>

datatype loop_phase = Serving | AwaitingCancelled | Leaving | Closing | Returned | Raised

record runtime_config =
  rc_host :: host
  rc_boundary :: workspace_boundary
  rc_provider :: "loop_limits option"
  rc_transcript_enabled :: bool
  rc_settings :: "transcript_settings option"
  rc_creation :: creation_env
  rc_json :: json_lib
  rc_files :: "nat \<Rightarrow> file_ops"

record runtime_state = host_log +
  rt_input :: "command line_result list"
  rt_writer :: event_writer
  rt_initialized :: bool
  rt_sessions :: nat
  rt_active :: "live_session option"
  rt_task :: bool
  rt_task_cancelled :: bool
  rt_latest :: "ustr option"
  rt_recording :: bool
  rt_transcript :: "created_transcript option"
  rt_start_command :: ustr
  rt_creation_calls :: "creation_call list"
  rt_recorded :: "created_transcript list"
  rt_phase :: loop_phase

type_synonym 'a runtime_action = "(py_error, runtime_state, 'a) effect"

record runtime_env =
  rn_write :: "nat \<Rightarrow> write_env"
  rn_observer :: "py_error option"
  rn_tx :: tx_env

definition root_text :: "abs_path \<Rightarrow> ustr" where
  "root_text p = lit ''/'' @ py_join (lit ''/'') p"

definition root_parts :: "abs_path \<Rightarrow> path_parts" where
  "root_parts p = lit ''/'' # p"

text \<open>The start of \<open>run_runtime\<close>: the boundary is checked before anything is written.\<close>

definition start_runtime ::
  "runtime_config \<Rightarrow> command line_result list \<Rightarrow> host_call list \<Rightarrow> startup_error + runtime_state" where
  "start_runtime RC input hl =
     (case resolve_existing (rc_host RC) (rc_boundary RC) (PlainPath (PyStr (lit ''.''))) \<lparr>calls = hl\<rparr> of
        (Inl e, _) \<Rightarrow> Inl (RuntimeConfigurationError (workspace_error_message e))
      | (Inr _, s) \<Rightarrow>
          Inr \<lparr>calls = calls s, rt_input = input, rt_writer = new_event_writer, rt_initialized = False,
               rt_sessions = 0, rt_active = None, rt_task = False, rt_task_cancelled = False,
               rt_latest = None, rt_recording = rc_transcript_enabled RC, rt_transcript = None,
               rt_start_command = [], rt_creation_calls = [], rt_recorded = [], rt_phase = Serving\<rparr>)"

subsection \<open>The active session\<close>

fun live_id :: "live_session \<Rightarrow> ustr" where
  "live_id (MockRun cfg _) = mc_session_id cfg"
| "live_id (ProviderRun cfg _) = pc_session_id cfg"

text \<open>A task ends by returning or by raising.\<close>

fun live_returned :: "live_session \<Rightarrow> bool" where
  "live_returned (MockRun _ m) \<longleftrightarrow> ms_phase m = MockReturned"
| "live_returned (ProviderRun _ p) \<longleftrightarrow> ps_run p = Joining \<and> ps_final p = FinalDone"

fun live_raised :: "live_session \<Rightarrow> bool" where
  "live_raised (MockRun _ m) \<longleftrightarrow> ms_phase m = MockAborted"
| "live_raised (ProviderRun _ p) \<longleftrightarrow> ps_run p \<in> {Joining, Aborting} \<and> ps_final p = FinalDone"

text \<open>A session acts on the runtime's writer.\<close>

definition lent_mock :: "runtime_state \<Rightarrow> mock_session \<Rightarrow> mock_session" where
  "lent_mock s m = m\<lparr>ms_writer := rt_writer s\<rparr>"

definition lent_provider :: "runtime_state \<Rightarrow> provider_session \<Rightarrow> provider_session" where
  "lent_provider s p = p\<lparr>ps_writer := rt_writer s\<rparr>"

fun live_writer :: "live_session \<Rightarrow> event_writer" where
  "live_writer (MockRun _ m) = ms_writer m"
| "live_writer (ProviderRun _ p) = ps_writer p"

definition keep_session :: "live_session \<Rightarrow> runtime_state \<Rightarrow> runtime_state" where
  "keep_session l s = s\<lparr>rt_active := Some l, rt_writer := live_writer l\<rparr>"

definition on_mock :: "mock_config \<Rightarrow> mock_session \<Rightarrow> 'a mock_action \<Rightarrow> 'a runtime_action" where
  "on_mock cfg m act =
     (\<lambda>s. case act (lent_mock s m) of (r, m') \<Rightarrow> (r, keep_session (MockRun cfg m') s))"

definition on_provider :: "ps_config \<Rightarrow> provider_session \<Rightarrow> 'a ps_action \<Rightarrow> 'a runtime_action" where
  "on_provider cfg p act =
     (\<lambda>s. case act (lent_provider s p) of (r, p') \<Rightarrow> (r, keep_session (ProviderRun cfg p') s))"

subsection \<open>Runtime events\<close>

definition emit_runtime_event ::
  "write_env \<Rightarrow> string \<Rightarrow> document \<Rightarrow> ustr option \<Rightarrow> unit runtime_action" where
  "emit_runtime_event we event_type payload correlation_id =
     (\<lambda>s. case emit_runtime we (lit event_type) payload correlation_id (rt_writer s) of
            (r, w) \<Rightarrow> (map_sum id (\<lambda>_. ()) r, s\<lparr>rt_writer := w\<rparr>))"

definition runtime_error ::
  "write_env \<Rightarrow> string \<Rightarrow> ustr \<Rightarrow> bool \<Rightarrow> ustr option \<Rightarrow> unit runtime_action" where
  "runtime_error we code message recoverable correlation_id =
     emit_runtime_event we ''runtime.error''
       [(lit ''code'', JStr (lit code)), (lit ''message'', JStr message),
        (lit ''recoverable'', JBool recoverable)] correlation_id"

definition RECORDING_MESSAGE :: ustr where
  "RECORDING_MESSAGE = lit ''Session recording is unavailable; session work will continue.''"

definition recording_warning :: "write_env \<Rightarrow> ustr \<Rightarrow> unit runtime_action" where
  "recording_warning we cmd =
     next_do (update (\<lambda>s. s\<lparr>rt_recording := False\<rparr>))
       (runtime_error we ''transcript_persistence_failed'' RECORDING_MESSAGE True (Some cmd))"

subsection \<open>Recording\<close>

text \<open>The three observers: record, and warn when a failure is reported.\<close>

definition observe :: "runtime_config \<Rightarrow> write_env \<Rightarrow> transcript_call \<Rightarrow> unit runtime_action" where
  "observe RC we call =
     ask (\<lambda>s. case rt_transcript s of
         None \<Rightarrow> ret ()
       | Some c \<Rightarrow>
           (case transcript_step (cr_config c) (rc_files RC (rt_sessions s)) call (cr_transcript c) of
              (reported, t) \<Rightarrow>
                next_do (update (\<lambda>s. s\<lparr>rt_transcript := Some (c\<lparr>cr_transcript := t\<rparr>)\<rparr>))
                  (case reported of
                     None \<Rightarrow> ret ()
                   | Some _ \<Rightarrow> recording_warning we (rt_start_command s))))"

definition close_transcript :: "runtime_config \<Rightarrow> runtime_state \<Rightarrow> runtime_state" where
  "close_transcript RC s =
     (case rt_transcript s of
        None \<Rightarrow> s
      | Some c \<Rightarrow>
          s\<lparr>rt_transcript := Some (c\<lparr>cr_transcript :=
               snd (transcript_step (cr_config c) (rc_files RC (rt_sessions s)) CloseCall (cr_transcript c))\<rparr>)\<rparr>)"

definition raised_by :: "py_error + unit \<Rightarrow> py_error option" where
  "raised_by r = (case r of Inl e \<Rightarrow> Some e | Inr _ \<Rightarrow> None)"

text \<open>
  Attaching the lifecycle observer delivers the submitted task to it at once; a provider session
  takes the two other observers as well.
\<close>

definition attach_observers :: "runtime_config \<Rightarrow> write_env \<Rightarrow> live_session \<Rightarrow> unit runtime_action" where
  "attach_observers RC we l =
     (case l of
        MockRun cfg m \<Rightarrow>
          seq (attempt (observe RC we (RecordCall (TaskSubmitted (mc_command_id cfg) (mc_task cfg)) (ms_lifecycle m))))
            (\<lambda>r. on_mock cfg m (attach_mock_observer (raised_by r)))
      | ProviderRun cfg p \<Rightarrow>
          seq (attempt (observe RC we (RecordCall (TaskSubmitted (pc_command_id cfg) (pc_task cfg)) (ps_lifecycle p))))
            (\<lambda>r. on_provider cfg p
               (next_do (attach_lifecycle_observer (raised_by r))
                 (next_do attach_model_usage_observer attach_loop_limits_observer))))"

definition start_recording :: "runtime_config \<Rightarrow> runtime_env \<Rightarrow> ustr \<Rightarrow> live_session \<Rightarrow> unit runtime_action" where
  "start_recording RC env cmd l =
     (case rc_settings RC of
        None \<Rightarrow> raise (RuntimeError ''enabled transcripts are missing their settings'')
      | Some settings \<Rightarrow>
          (\<lambda>s. case create_transcript (rc_creation RC) (rc_json RC) settings
                     (root_parts (wb_root (rc_boundary RC))) (live_id l) (rt_creation_calls s) of
             (Inl _, cl) \<Rightarrow> recording_warning (rn_write env 0) cmd (s\<lparr>rt_creation_calls := cl\<rparr>)
           | (Inr c, cl) \<Rightarrow>
               attach_observers RC (rn_write env 0) l
                 (s\<lparr>rt_creation_calls := cl, rt_transcript := Some c, rt_start_command := cmd\<rparr>)))"

subsection \<open>Handling one input\<close>

definition go :: "loop_phase \<Rightarrow> unit runtime_action" where
  "go p = update (\<lambda>s. s\<lparr>rt_phase := p\<rparr>)"

text \<open>A teardown is requested of a provider session only.\<close>

definition tear_down :: "runtime_env \<Rightarrow> unit runtime_action" where
  "tear_down env =
     ask (\<lambda>s. case rt_active s of
         Some (ProviderRun cfg p) \<Rightarrow>
           if rt_task s then seq (on_provider cfg p (select_teardown cfg (rn_tx env))) (\<lambda>_. ret ())
           else ret ()
       | _ \<Rightarrow> ret ())"

definition leave_runtime :: "runtime_env \<Rightarrow> unit runtime_action" where
  "leave_runtime env = next_do (tear_down env) (go Leaving)"

definition requested_boundary ::
  "runtime_config \<Rightarrow> ustr \<Rightarrow> (workspace_error, runtime_state, workspace_boundary) effect" where
  "requested_boundary RC path =
     seq (from_path (rc_host RC) (PlainPath (PyStr path))) (\<lambda>requested.
     seq (resolve_existing (rc_host RC) (rc_boundary RC) (PlainPath (PyStr (lit ''.'')))) (\<lambda>_.
     ret requested))"

definition handle_initialize :: "runtime_config \<Rightarrow> runtime_env \<Rightarrow> ustr \<Rightarrow> ustr \<Rightarrow> unit runtime_action" where
  "handle_initialize RC env cmd path =
     ask (\<lambda>s.
       if rt_initialized s
       then runtime_error (rn_write env 0) ''already_initialized''
              (lit ''Runtime initialization has already completed.'') True (Some cmd)
       else
         seq (attempt (requested_boundary RC path)) (\<lambda>requested.
         if requested \<noteq> Inr (rc_boundary RC)
         then next_do (runtime_error (rn_write env 0) ''workspace_mismatch''
                  (lit ''Initialization workspace does not match the supervised workspace.'') False (Some cmd))
                (go Leaving)
         else next_do (update (\<lambda>s. s\<lparr>rt_initialized := True\<rparr>))
                (emit_runtime_event (rn_write env 0) ''runtime.ready''
                   [(lit ''workspace'', JStr (root_text (wb_root (rc_boundary RC))))] (Some cmd))))"

definition create_active :: "runtime_config \<Rightarrow> ustr \<Rightarrow> ustr \<Rightarrow> unit runtime_action" where
  "create_active RC cmd t =
     (\<lambda>s. case rc_provider RC of
        None \<Rightarrow>
          (case create_mock_session (rt_sessions s) cmd t (rt_writer s) of
             (Inl e, n) \<Rightarrow> (Inl e, s\<lparr>rt_sessions := n\<rparr>)
           | (Inr (cfg, m), n) \<Rightarrow> (Inr (), s\<lparr>rt_sessions := n, rt_active := Some (MockRun cfg m)\<rparr>))
      | Some limits \<Rightarrow>
          (case create_session \<lparr>pr_limits = limits, pr_session_count = rt_sessions s\<rparr> cmd t (rt_writer s) of
             (Inl e, r) \<Rightarrow> (Inl e, s\<lparr>rt_sessions := pr_session_count r\<rparr>)
           | (Inr (cfg, p), r) \<Rightarrow>
               (Inr (), s\<lparr>rt_sessions := pr_session_count r, rt_active := Some (ProviderRun cfg p)\<rparr>)))"

definition handle_start :: "runtime_config \<Rightarrow> runtime_env \<Rightarrow> ustr \<Rightarrow> ustr \<Rightarrow> unit runtime_action" where
  "handle_start RC env cmd t =
     ask (\<lambda>s.
       if py_strip t = []
       then runtime_error (rn_write env 0) ''invalid_task''
              (lit ''A session task must contain non-whitespace text.'') True (Some cmd)
       else if rt_active s \<noteq> None
       then runtime_error (rn_write env 0) ''session_active'' (lit ''A session is already active.'') True (Some cmd)
       else
         next_do (create_active RC cmd t)
         (next_do
           (ask (\<lambda>s. case rt_active s of
               Some l \<Rightarrow> if rt_recording s then start_recording RC env cmd l else ret ()
             | None \<Rightarrow> ret ()))
           (update (\<lambda>s. s\<lparr>rt_task := True, rt_task_cancelled := False\<rparr>))))"

definition request_session_cancellation :: "runtime_env \<Rightarrow> ustr \<Rightarrow> live_session \<Rightarrow> unit runtime_action" where
  "request_session_cancellation env cmd l =
     (case l of
        MockRun cfg m \<Rightarrow> seq (on_mock cfg m (request_cancellation cfg (rn_observer env) cmd)) (\<lambda>_. ret ())
      | ProviderRun cfg p \<Rightarrow> seq (on_provider cfg p (select_user_cancellation cfg (rn_tx env) cmd)) (\<lambda>_. ret ()))"

definition handle_cancel :: "runtime_env \<Rightarrow> ustr \<Rightarrow> ustr \<Rightarrow> unit runtime_action" where
  "handle_cancel env cmd target =
     ask (\<lambda>s. case rt_active s of
         None \<Rightarrow>
           if Some target = rt_latest s then ret ()
           else runtime_error (rn_write env 0) ''session_not_active''
                  (lit ''No matching active or recently completed session exists.'') True (Some cmd)
       | Some l \<Rightarrow>
           if target \<noteq> live_id l
           then runtime_error (rn_write env 0) ''session_mismatch''
                  (lit ''Cancellation target does not match the active session.'') True (Some cmd)
           else
             next_do (request_session_cancellation env cmd l)
               (if \<not> rt_task s then raise (RuntimeError ''active session is missing its task'')
                else go AwaitingCancelled))"

definition handle_command :: "runtime_config \<Rightarrow> runtime_env \<Rightarrow> command \<Rightarrow> unit runtime_action" where
  "handle_command RC env c =
     (let cmd = command_id (base_of_command c);
          initialized = (\<lambda>act. ask (\<lambda>s.
            if \<not> rt_initialized s
            then runtime_error (rn_write env 0) ''not_initialized''
                   (lit ''Runtime initialization must complete before session commands are accepted.'') True (Some cmd)
            else act)) in
      case c of
        RuntimeShutdownCommand _ \<Rightarrow> leave_runtime env
      | RuntimeInitializeCommand _ path \<Rightarrow> handle_initialize RC env cmd path
      | SessionStartCommand _ t \<Rightarrow> initialized (handle_start RC env cmd t)
      | SessionCancelCommand _ target \<Rightarrow> initialized (handle_cancel env cmd target))"

definition handle_result ::
  "runtime_config \<Rightarrow> runtime_env \<Rightarrow> command line_result \<Rightarrow> unit runtime_action" where
  "handle_result RC env r =
     (case r of
        Inl f \<Rightarrow> runtime_error (rn_write env 0) (parse_error_name (parse_code f)) (parse_message f) True None
      | Inr c \<Rightarrow> handle_command RC env c)"

subsection \<open>Ending a session\<close>

text \<open>
  The reaping of a returned task: the transcript is closed and stays on disk (\<open>rt_recorded\<close>), and
  its session becomes the one whose repeated cancellation is ignored.
\<close>

definition reap_session :: "runtime_config \<Rightarrow> runtime_state \<Rightarrow> runtime_state" where
  "reap_session RC s =
     (let t = close_transcript RC s in
      t\<lparr>rt_latest := map_option live_id (rt_active s), rt_active := None, rt_task := False,
        rt_task_cancelled := False, rt_transcript := None,
        rt_recorded := rt_recorded s @ (case rt_transcript t of None \<Rightarrow> [] | Some c \<Rightarrow> [c]), rt_phase := Serving\<rparr>)"

definition running_mock :: "runtime_state \<Rightarrow> bool" where
  "running_mock s \<longleftrightarrow>
     (case rt_active s of
        Some (MockRun cfg m) \<Rightarrow> rt_task s \<and> ms_phase m \<notin> {MockReturned, MockAborted}
      | _ \<Rightarrow> False)"

text \<open>
  The \<open>finally\<close> block: a provider session is told to tear down, the task of a mocked session that
  has not ended is cancelled; what the request raises does not keep the task from being awaited.
\<close>

definition begin_closing :: "runtime_env \<Rightarrow> runtime_state \<Rightarrow> runtime_state" where
  "begin_closing env s =
     (let t = snd (tear_down env s) in
      t\<lparr>rt_phase := Closing, rt_task_cancelled := rt_task_cancelled t \<or> running_mock t\<rparr>)"

definition settle_loop :: "runtime_env \<Rightarrow> (py_error + unit) \<times> runtime_state \<Rightarrow> runtime_state" where
  "settle_loop env r = (case r of (Inl _, s) \<Rightarrow> begin_closing env s | (Inr _, s) \<Rightarrow> s)"

text \<open>Nothing is left to await: no task, an ended one, or one cancelled before its first step.\<close>

definition nothing_to_await :: "runtime_state \<Rightarrow> bool" where
  "nothing_to_await s \<longleftrightarrow>
     (case rt_active s of
        None \<Rightarrow> True
      | Some l \<Rightarrow> \<not> rt_task s \<or> live_returned l \<or> live_raised l \<or>
          rt_task_cancelled s \<and> (case l of MockRun _ m \<Rightarrow> ms_phase m = MockNotRun | ProviderRun _ p \<Rightarrow> ps_run p = NotRun))"

subsection \<open>The loop and the session's tasks\<close>

definition observed_call :: "live_session \<Rightarrow> transcript_call \<Rightarrow> bool" where
  "observed_call l call \<longleftrightarrow>
     (case call of
        RecordCall _ _ \<Rightarrow> True
      | CloseCall \<Rightarrow> False
      | _ \<Rightarrow> (case l of MockRun _ _ \<Rightarrow> False | ProviderRun _ _ \<Rightarrow> True))"

definition may_dispatch :: "runtime_state \<Rightarrow> bool" where
  "may_dispatch s \<longleftrightarrow>
     rt_phase s = Serving \<and>
     (case rt_active s of None \<Rightarrow> True | Some l \<Rightarrow> rt_task s \<longrightarrow> \<not> live_returned l \<and> \<not> live_raised l)"

text \<open>
  The loop waits for the task and for a command together and reaps an ended task first, so a
  command is handled only while no ended task waits. A provider session whose finalizer is done
  may have returned or raised: both steps are possible.
\<close>

inductive runtime_step :: "runtime_config \<Rightarrow> runtime_state \<Rightarrow> runtime_state \<Rightarrow> bool" for RC where
  handles:
    "may_dispatch s \<Longrightarrow> rt_input s = r # rest \<Longrightarrow>
       runtime_step RC s (settle_loop env (handle_result RC env r (s\<lparr>rt_input := rest\<rparr>)))"
| reaches_end:
    "may_dispatch s \<Longrightarrow> rt_input s = [] \<Longrightarrow> runtime_step RC s (settle_loop env (leave_runtime env s))"
| reading_fails:
    "may_dispatch s \<Longrightarrow> runtime_step RC s (begin_closing env s)"
| reaps:
    "rt_phase s \<in> {Serving, AwaitingCancelled} \<Longrightarrow> rt_active s = Some l \<Longrightarrow> rt_task s \<Longrightarrow>
       live_returned l \<Longrightarrow> runtime_step RC s (reap_session RC s)"
| session_raises:
    "rt_phase s \<in> {Serving, AwaitingCancelled, Leaving} \<Longrightarrow> rt_active s = Some l \<Longrightarrow> rt_task s \<Longrightarrow>
       live_raised l \<Longrightarrow> runtime_step RC s (begin_closing env s)"
| mock_runs:
    "rt_active s = Some (MockRun cfg m) \<Longrightarrow> rt_task s \<Longrightarrow> rt_phase s \<notin> {Returned, Raised} \<Longrightarrow>
       mock_run_step cfg (lent_mock s m) m' \<Longrightarrow> runtime_step RC s (keep_session (MockRun cfg m') s)"
| provider_runs:
    "rt_active s = Some (ProviderRun cfg p) \<Longrightarrow> rt_task s \<Longrightarrow> rt_phase s \<notin> {Returned, Raised} \<Longrightarrow>
       ps_run_step cfg (lent_provider s p) p' \<Longrightarrow> runtime_step RC s (keep_session (ProviderRun cfg p') s)"
| mock_task_cancelled:
    "rt_active s = Some (MockRun cfg m) \<Longrightarrow> rt_task_cancelled s \<Longrightarrow> rt_phase s \<notin> {Returned, Raised} \<Longrightarrow>
       ms_phase m \<notin> {MockNotRun, MockReturned} \<Longrightarrow>
       runtime_step RC s (keep_session (MockRun cfg (goto_phase MockAborted (lent_mock s m))) s)"
| provider_task_cancelled:
    "rt_active s = Some (ProviderRun cfg p) \<Longrightarrow> rt_task_cancelled s \<Longrightarrow> rt_phase s \<notin> {Returned, Raised} \<Longrightarrow>
       ps_run p \<in> {StartingOperation, Consuming, Joining} \<Longrightarrow>
       runtime_step RC s (keep_session (ProviderRun cfg
         ((lent_provider s p)\<lparr>ps_start_settled := True, ps_run := Aborting\<rparr>)) s)"
| observer_records:
    "rt_active s = Some l \<Longrightarrow> rt_task s \<Longrightarrow> rt_phase s \<notin> {Returned, Raised} \<Longrightarrow> observed_call l call \<Longrightarrow>
       runtime_step RC s (snd (observe RC we call s))"
| join_raises:
    "rt_phase s \<in> {AwaitingCancelled, Leaving} \<Longrightarrow> rt_active s = Some (ProviderRun cfg p) \<Longrightarrow>
       ps_final p = FinalDone \<Longrightarrow> runtime_step RC s (begin_closing env s)"
| interrupted:
    "rt_phase s \<in> {Serving, AwaitingCancelled, Leaving} \<Longrightarrow>
       runtime_step RC s (begin_closing env
         (if rt_phase s = Serving then s else s\<lparr>rt_task_cancelled := rt_task s\<rparr>))"
| returns:
    "rt_phase s = Leaving \<Longrightarrow>
       (case rt_active s of None \<Rightarrow> True | Some l \<Rightarrow> rt_task s \<longrightarrow> live_returned l) \<Longrightarrow>
       runtime_step RC s ((close_transcript RC s)\<lparr>rt_phase := Returned\<rparr>)"
| exception_leaves:
    "rt_phase s = Closing \<Longrightarrow> nothing_to_await s \<Longrightarrow>
       runtime_step RC s ((close_transcript RC s)\<lparr>rt_phase := Raised\<rparr>)"

inductive runtime_reachable ::
  "runtime_config \<Rightarrow> command line_result list \<Rightarrow> host_call list \<Rightarrow> runtime_state \<Rightarrow> bool" for RC input hl where
  runtime_started: "start_runtime RC input hl = Inr s \<Longrightarrow> runtime_reachable RC input hl s"
| runtime_continues:
    "runtime_reachable RC input hl s \<Longrightarrow> runtime_step RC s s' \<Longrightarrow> runtime_reachable RC input hl s'"

end
