(* ===== verification/Runtime_Inv.thy ===== *)
theory Runtime_Inv
  imports Runtime Provider_Session_Properties Transcript_Properties
begin

section \<open>The invariant of the runtime\<close>

text \<open>
  What every reachable state of the loop satisfies: no session event before the ready event, at
  most one ready event, the events of the sessions in the order of their numbers
  (\<open>ordered_output\<close>); the active session is the last one created and, when it is mocked, keeps the
  invariant of its own theory on the shared writer; the tape of every earlier mocked session is
  whole; and at most one recording warning was published. The lemmas go from the ways the writer
  grows to the actions of the loop.
\<close>

subsection \<open>The published tape\<close>

definition is_ready :: "event \<Rightarrow> bool" where
  "is_ready e \<longleftrightarrow> (case e of RuntimeEv (RuntimeReadyEvent _ _) \<Rightarrow> True | _ \<Rightarrow> False)"

definition is_warning :: "event \<Rightarrow> bool" where
  "is_warning e \<longleftrightarrow>
     (case e of RuntimeEv (RuntimeErrorEvent _ code _ _) \<Rightarrow> code = lit ''transcript_persistence_failed'' | _ \<Rightarrow> False)"

definition is_runtime_event :: "event \<Rightarrow> bool" where
  "is_runtime_event e \<longleftrightarrow> (case e of RuntimeEv _ \<Rightarrow> True | SessionEv _ \<Rightarrow> False)"

definition event_owner :: "event \<Rightarrow> ustr option" where
  "event_owner e = (case e of RuntimeEv _ \<Rightarrow> None | SessionEv x \<Rightarrow> Some (event_session x))"

definition session_ids :: "event list \<Rightarrow> ustr list" where
  "session_ids es = List.map_filter event_owner es"

definition nth_session_id :: "runtime_config \<Rightarrow> nat \<Rightarrow> ustr" where
  "nth_session_id RC n = (case rc_provider RC of None \<Rightarrow> mock_session_id n | Some _ \<Rightarrow> runner_session_id n)"

definition ordered_output :: "runtime_config \<Rightarrow> nat \<Rightarrow> event list \<Rightarrow> bool" where
  "ordered_output RC n es \<longleftrightarrow>
     list_all is_runtime_event (takeWhile (\<lambda>e. \<not> is_ready e) es) \<and>
     length (filter is_ready es) \<le> 1 \<and>
     (\<exists>ks. sorted ks \<and> set ks \<subseteq> {1..n} \<and> session_ids es = map (nth_session_id RC) ks)"

abbreviation has_ready :: "event list \<Rightarrow> bool" where
  "has_ready es \<equiv> list_ex is_ready es"

definition own_tape :: "ustr \<Rightarrow> event list \<Rightarrow> tape_item list" where
  "own_tape sid es = List.map_filter (own_item sid) es"

text \<open>The tape of a mocked session that ended by returning.\<close>

definition whole_tape :: "tape_item list \<Rightarrow> bool" where
  "whole_tape items \<longleftrightarrow>
     (\<exists>cfg. items = success_tape cfg \<or>
        (\<exists>k c. 1 \<le> k \<and> k \<le> 4 \<and> items = take k (success_tape cfg) @ [(SessionCancelledT, [], Some c)]))"

lemma nth_session_id_inj: "nth_session_id RC m = nth_session_id RC n \<longleftrightarrow> m = n"
  by (cases "rc_provider RC") (simp_all add: nth_session_id_def mock_session_id_def runner_session_id_def dec_nat_inj)

lemma mock_tape_own: "mock_tape cfg m = own_tape (mc_session_id cfg) (published_events (ms_writer m))"
  by (simp add: mock_tape_def own_tape_def)

lemma tape_append:
  "own_tape sid (es @ fs) = own_tape sid es @ own_tape sid fs"
  "session_ids (es @ fs) = session_ids es @ session_ids fs"
  by (simp_all add: own_tape_def session_ids_def map_filter_append)

lemma filter_none: "(\<And>e. e \<in> set es \<Longrightarrow> f e = None) \<Longrightarrow> List.map_filter f es = []"
  by (induction es) (auto simp: List.map_filter_simps)

lemma tape_of_runtime_events:
  assumes "list_all is_runtime_event es"
  shows "own_tape sid es = []" "session_ids es = []"
  unfolding own_tape_def session_ids_def
  by (intro filter_none; use assms in \<open>auto simp: list_all_iff is_runtime_event_def own_item_def event_owner_def
      split: event.splits\<close>)+

lemma tape_of_other_session:
  assumes "list_all (session_output sid codes) es" "sid' \<noteq> sid"
  shows "own_tape sid' es = []"
  unfolding own_tape_def
  using assms by (intro filter_none) (auto simp: list_all_iff session_output_def own_item_def split: event.splits)

lemma ids_of_session:
  assumes "list_all (session_output sid codes) es"
  shows "\<exists>n. session_ids es = replicate n sid"
  using assms
proof (induction es)
  case (Cons e es)
  then obtain n where "session_ids es = replicate n sid" by auto
  moreover have "event_owner e = None \<or> event_owner e = Some sid"
    using Cons.prems by (auto simp: session_output_def event_owner_def split: event.splits)
  ultimately show ?case
    by (auto simp: session_ids_def List.map_filter_simps intro: exI [of _ n] exI [of _ "Suc n"])
qed (simp add: session_ids_def List.map_filter_simps)

lemma ordered_output_grows:
  assumes out: "ordered_output RC n es" and new: "list_all (\<lambda>e. \<not> is_ready e) fs"
    and old: "list_all is_runtime_event fs \<or> has_ready es"
    and ids: "\<exists>m. session_ids fs = replicate m (nth_session_id RC n)" "session_ids fs = [] \<or> 1 \<le> n"
  shows "ordered_output RC n (es @ fs)"
proof -
  have "filter is_ready fs = []" using new by (simp add: list_all_iff filter_empty_conv)
  moreover have "list_all is_runtime_event (takeWhile (\<lambda>e. \<not> is_ready e) (es @ fs))"
  proof (cases "has_ready es")
    case True
    then have "takeWhile (\<lambda>e. \<not> is_ready e) (es @ fs) = takeWhile (\<lambda>e. \<not> is_ready e) es"
      by (auto simp: list_ex_iff takeWhile_append1)
    with out show ?thesis by (simp add: ordered_output_def)
  next
    case False
    then have "takeWhile (\<lambda>e. \<not> is_ready e) es = es" by (auto simp: list_ex_iff takeWhile_eq_all_conv)
    with out have "list_all is_runtime_event es" by (simp add: ordered_output_def)
    moreover have "takeWhile (\<lambda>e. \<not> is_ready e) (es @ fs) = es @ fs"
      using False new by (auto simp: list_ex_iff list_all_iff takeWhile_eq_all_conv)
    moreover have "list_all is_runtime_event fs" using False old by blast
    ultimately show ?thesis by (simp only: list_all_append)
  qed
  moreover have "\<exists>ks. sorted ks \<and> set ks \<subseteq> {1..n} \<and> session_ids (es @ fs) = map (nth_session_id RC) ks"
  proof -
    from out obtain ks where ks: "sorted ks" "set ks \<subseteq> {1..n}" "session_ids es = map (nth_session_id RC) ks"
      by (auto simp: ordered_output_def)
    from ids(1) obtain m where m: "session_ids fs = replicate m (nth_session_id RC n)" by blast
    with ids(2) ks have "sorted (ks @ replicate m n) \<and> set (ks @ replicate m n) \<subseteq> {1..n} \<and>
        session_ids (es @ fs) = map (nth_session_id RC) (ks @ replicate m n)"
      by (cases m) (auto simp: sorted_append tape_append)
    then show ?thesis by blast
  qed
  ultimately show ?thesis using out by (simp add: ordered_output_def)
qed

lemma ordered_output_more: "ordered_output RC n es \<Longrightarrow> n \<le> m \<Longrightarrow> ordered_output RC m es"
  unfolding ordered_output_def by (meson atLeastAtMost_iff le_trans subset_iff)

lemma owner_in_ids: "e \<in> set es \<Longrightarrow> event_owner e = Some i \<Longrightarrow> i \<in> set (session_ids es)"
  by (induction es) (auto simp: session_ids_def List.map_filter_simps split: option.splits)

lemma own_item_owner: "event_owner e \<noteq> Some sid \<Longrightarrow> own_item sid e = None"
  by (cases e) (auto simp: event_owner_def own_item_def)

lemma ordered_output_unowned:
  assumes "ordered_output RC n es" "e \<in> set es"
  shows "event_owner e \<noteq> Some (nth_session_id RC (Suc n))"
proof -
  from assms(1) obtain ks where "set ks \<subseteq> {1..n}" "session_ids es = map (nth_session_id RC) ks"
    by (auto simp: ordered_output_def)
  then have "nth_session_id RC (Suc n) \<notin> set (session_ids es)" by (auto simp: nth_session_id_inj)
  then show ?thesis using owner_in_ids [OF assms(2)] by blast
qed

lemma ordered_output_fresh:
  "ordered_output RC n es \<Longrightarrow> own_tape (nth_session_id RC (Suc n)) es = []"
  unfolding own_tape_def using ordered_output_unowned by (intro filter_none own_item_owner)

subsection \<open>The invariant\<close>

fun live_ok :: "runtime_config \<Rightarrow> event_writer \<Rightarrow> live_session \<Rightarrow> bool" where
  "live_ok RC w (MockRun cfg m) \<longleftrightarrow> rc_provider RC = None \<and> mock_ok cfg (m\<lparr>ms_writer := w\<rparr>)"
| "live_ok RC w (ProviderRun cfg p) \<longleftrightarrow> rc_provider RC \<noteq> None"

abbreviation events_of :: "runtime_state \<Rightarrow> event list" where
  "events_of s \<equiv> published_events (rt_writer s)"

definition sessions_inv :: "runtime_config \<Rightarrow> runtime_state \<Rightarrow> bool" where
  "sessions_inv RC s \<longleftrightarrow>
     (\<forall>l. rt_active s = Some l \<longrightarrow> 1 \<le> rt_sessions s \<and> live_id l = nth_session_id RC (rt_sessions s) \<and>
        live_ok RC (rt_writer s) l) \<and>
     (rc_provider RC = None \<longrightarrow>
        (\<forall>k. 1 \<le> k \<longrightarrow> k \<le> rt_sessions s \<longrightarrow> rt_active s = None \<or> k < rt_sessions s \<longrightarrow>
           whole_tape (own_tape (nth_session_id RC k) (events_of s))))"

definition recording_inv :: "runtime_state \<Rightarrow> bool" where
  "recording_inv s \<longleftrightarrow>
     length (filter is_warning (events_of s)) \<le> (if rt_recording s then 0 else 1) \<and>
     (\<forall>c. rt_transcript s = Some c \<longrightarrow>
        rt_active s \<noteq> None \<and> latch_inv (cr_transcript c) \<and>
        (rt_recording s \<or> tr_failure (cr_transcript c) \<noteq> None))"

definition runtime_inv :: "runtime_config \<Rightarrow> runtime_state \<Rightarrow> bool" where
  "runtime_inv RC s \<longleftrightarrow>
     ordered_output RC (rt_sessions s) (events_of s) \<and>
     (\<not> rt_initialized s \<longrightarrow> \<not> has_ready (events_of s)) \<and>
     (1 \<le> rt_sessions s \<longrightarrow> has_ready (events_of s)) \<and>
     sessions_inv RC s \<and> recording_inv s \<and> tape.numbered (rt_writer s)"

definition announced :: "runtime_state \<Rightarrow> bool" where
  "announced s \<longleftrightarrow> (rt_initialized s \<longrightarrow> has_ready (events_of s))"

lemmas runtime_inv_defs = runtime_inv_def sessions_inv_def recording_inv_def announced_def

lemma inv_frame [simp]:
  "runtime_inv RC (s\<lparr>rt_input := a1\<rparr>) = runtime_inv RC s" "announced (s\<lparr>rt_input := a1\<rparr>) = announced s"
  "runtime_inv RC (s\<lparr>rt_task := a2\<rparr>) = runtime_inv RC s" "announced (s\<lparr>rt_task := a2\<rparr>) = announced s"
  "runtime_inv RC (s\<lparr>rt_task_cancelled := a3\<rparr>) = runtime_inv RC s"
  "announced (s\<lparr>rt_task_cancelled := a3\<rparr>) = announced s"
  "runtime_inv RC (s\<lparr>rt_latest := a4\<rparr>) = runtime_inv RC s" "announced (s\<lparr>rt_latest := a4\<rparr>) = announced s"
  "runtime_inv RC (s\<lparr>rt_start_command := a5\<rparr>) = runtime_inv RC s"
  "announced (s\<lparr>rt_start_command := a5\<rparr>) = announced s"
  "runtime_inv RC (s\<lparr>rt_creation_calls := a6\<rparr>) = runtime_inv RC s"
  "announced (s\<lparr>rt_creation_calls := a6\<rparr>) = announced s"
  "runtime_inv RC (s\<lparr>rt_recorded := a7\<rparr>) = runtime_inv RC s" "announced (s\<lparr>rt_recorded := a7\<rparr>) = announced s"
  "runtime_inv RC (s\<lparr>rt_phase := a8\<rparr>) = runtime_inv RC s" "announced (s\<lparr>rt_phase := a8\<rparr>) = announced s"
  "runtime_inv RC (s\<lparr>calls := a9\<rparr>) = runtime_inv RC s" "announced (s\<lparr>calls := a9\<rparr>) = announced s"
  "announced (s\<lparr>rt_active := b1\<rparr>) = announced s" "announced (s\<lparr>rt_sessions := b2\<rparr>) = announced s"
  "announced (s\<lparr>rt_recording := b3\<rparr>) = announced s" "announced (s\<lparr>rt_transcript := b4\<rparr>) = announced s"
  by (simp_all add: runtime_inv_defs)

subsection \<open>How the writer grows\<close>

definition harmless :: "event \<Rightarrow> bool" where
  "harmless e \<longleftrightarrow> is_runtime_event e \<and> \<not> is_ready e \<and> \<not> is_warning e"

lemma live_ok_grows:
  assumes "live_ok RC w l" "published_events w' = published_events w @ es" "list_all is_runtime_event es"
  shows "live_ok RC w' l"
proof (cases l)
  case (MockRun cfg m)
  with assms(2,3) have "quiet_move cfg (m\<lparr>ms_writer := w\<rparr>) (m\<lparr>ms_writer := w'\<rparr>)"
    by (simp add: quiet_move_def control_of_def mock_tape_own tape_append tape_of_runtime_events)
  with MockRun assms(1) quiet_mock_ok show ?thesis by auto
qed (use assms(1) in simp)

lemma sessions_inv_grows:
  assumes "sessions_inv RC s" "published_events w = events_of s @ es" "list_all is_runtime_event es"
  shows "sessions_inv RC (s\<lparr>rt_writer := w\<rparr>)"
proof -
  have "live_ok RC w l" if "rt_active s = Some l" for l
    using live_ok_grows [OF _ assms(2,3)] assms(1) that by (simp add: sessions_inv_def)
  with assms show ?thesis by (simp add: sessions_inv_def tape_append tape_of_runtime_events)
qed

lemma inv_published:
  assumes inv: "runtime_inv RC s" and w: "published_events w = events_of s @ es" and h: "list_all harmless es"
    and num: "tape.numbered (rt_writer s) \<Longrightarrow> tape.numbered w"
  shows "runtime_inv RC (s\<lparr>rt_writer := w\<rparr>)"
proof -
  have rt: "list_all is_runtime_event es" and nr: "list_all (\<lambda>e. \<not> is_ready e) es"
    and nw: "filter is_warning es = []"
    using h by (auto simp: list_all_iff harmless_def filter_empty_conv)
  have "ordered_output RC (rt_sessions s) (published_events w)"
    unfolding w by (rule ordered_output_grows) (use inv nr rt tape_of_runtime_events(2) [OF rt] in
        \<open>simp_all add: runtime_inv_def exI [of _ 0]\<close>)
  moreover have "sessions_inv RC (s\<lparr>rt_writer := w\<rparr>)"
    using sessions_inv_grows [OF _ w rt] inv by (simp add: runtime_inv_def)
  moreover have "\<not> has_ready es" using nr by (auto simp: list_ex_iff list_all_iff)
  ultimately show ?thesis
    using inv w nw num by (simp add: runtime_inv_def recording_inv_def)
qed

lemma announced_published: "announced s \<Longrightarrow> published_events w = events_of s @ es \<Longrightarrow> announced (s\<lparr>rt_writer := w\<rparr>)"
  by (auto simp: announced_def)

text \<open>A step of the active session, whatever it is.\<close>

lemma session_output_quiet:
  assumes "session_output sid codes e"
  shows "\<not> is_ready e" "lit ''transcript_persistence_failed'' \<notin> codes \<Longrightarrow> \<not> is_warning e"
proof -
  have "\<not> is_ready e \<and> (lit ''transcript_persistence_failed'' \<notin> codes \<longrightarrow> \<not> is_warning e)"
  proof (cases e)
    case (RuntimeEv r)
    with assms show ?thesis
      by (cases r) (auto simp: session_output_def is_ready_def is_warning_def simp del: lit_simps)
  qed (simp add: is_ready_def is_warning_def)
  then show "\<not> is_ready e" "lit ''transcript_persistence_failed'' \<notin> codes \<Longrightarrow> \<not> is_warning e" by simp_all
qed

lemma inv_keep_session:
  assumes inv: "runtime_inv RC s" and l: "rt_active s = Some l" "live_id l' = live_id l"
    and ok: "live_ok RC (live_writer l') l'"
    and out: "grows (session_output (live_id l) codes) (rt_writer s) (live_writer l')"
    and c: "lit ''transcript_persistence_failed'' \<notin> codes"
  shows "runtime_inv RC (keep_session l' s)"
proof -
  let ?n = "rt_sessions s"
  obtain es where es: "published_events (live_writer l') = events_of s @ es"
    "list_all (session_output (live_id l) codes) es" using out by (auto simp: grows_def)
  have n: "1 \<le> ?n" "live_id l = nth_session_id RC ?n" and ready: "has_ready (events_of s)"
    using inv l by (auto simp: runtime_inv_def sessions_inv_def)
  have quiet: "\<not> is_ready e" "\<not> is_warning e" if "e \<in> set es" for e
    using es(2) that c session_output_quiet [of "live_id l" codes e] by (simp_all add: list_all_iff del: lit_simps)
  have "tape.numbered (live_writer l')" using out inv by (simp add: grows_def runtime_inv_def)
  moreover have "ordered_output RC ?n (events_of s @ es)"
    by (rule ordered_output_grows) (use inv quiet ready n ids_of_session [OF es(2)] in
        \<open>simp_all add: runtime_inv_def list_all_iff\<close>)
  moreover have "own_tape (nth_session_id RC k) es = []" if "k < ?n" for k
    using tape_of_other_session [OF es(2)] that n by (simp add: nth_session_id_inj)
  moreover have "filter is_warning es = []" using quiet(2) by (simp add: filter_empty_conv)
  moreover have "1 \<le> ?n \<and> live_id l' = nth_session_id RC ?n \<and> live_ok RC (live_writer l') l'"
    using n l(2) ok by simp
  ultimately show ?thesis
    using inv l es(1) ready
    unfolding runtime_inv_def sessions_inv_def recording_inv_def keep_session_def
    by (simp add: tape_append)
qed

lemma announced_keep_session:
  "announced s \<Longrightarrow> grows P (rt_writer s) (live_writer l) \<Longrightarrow> announced (keep_session l s)"
  by (auto simp: announced_def keep_session_def grows_def)

end
