(* ===== verification/Runtime_Steps.thy ===== *)
theory Runtime_Steps
  imports Runtime_Inv
begin

section \<open>Every step of the runtime keeps its invariant\<close>

text \<open>
  First what the sessions publish through the shared writer, then each action of the loop, then
  each step. \<open>extends\<close> is the part that needs no invariant: the tape only grows and initialization
  stays as it is.
\<close>

subsection \<open>What a session publishes\<close>

definition mock_grows :: "mock_config \<Rightarrow> mock_session \<Rightarrow> mock_session \<Rightarrow> bool" where
  "mock_grows cfg s t \<longleftrightarrow> grows (session_output (mc_session_id cfg) {}) (ms_writer s) (ms_writer t)"

interpretation mock_growth: action_order "mock_grows cfg" for cfg
  by unfold_locales (auto simp: mock_grows_def intro: grows_trans)

lemma mock_updates_grow:
  "mock_grows cfg s (s\<lparr>ms_lifecycle := l\<rparr>)" "mock_grows cfg s (s\<lparr>ms_deferred := d\<rparr>)"
  "mock_grows cfg s (s\<lparr>ms_observer_attached := b\<rparr>)" "mock_grows cfg s (s\<lparr>ms_terminal_emitted := b\<rparr>)"
  "mock_grows cfg s (s\<lparr>ms_terminal_outcome := v\<rparr>)"
  "mock_grows cfg s (s\<lparr>ms_cancel_command_id := c, ms_terminal_outcome := v\<rparr>)"
  "mock_grows cfg s (s\<lparr>ms_run_started := b, ms_phase := p\<rparr>)" "mock_grows cfg s (goto_phase p s)"
  by (simp_all add: mock_grows_def goto_phase_def)

lemmas mock_rules = mock_growth.move_rules mock_updates_grow

lemma reduce_grows: "moves (mock_grows cfg) (reduce_lifecycle observer u)"
  unfolding reduce_lifecycle_def notify_lifecycle_def Let_def by (intro mock_rules)

lemma emit_mock_grows: "moves (mock_grows cfg) (emit_mock_event cfg we n payload c)"
  unfolding moves_def emit_mock_event_def
  by (auto simp: mock_grows_def session_output_def intro: emit_session_grows split: prod.split sum.split event.split)

lemma emit_and_reduce_grows: "moves (mock_grows cfg) (emit_and_reduce cfg we observer n payload c)"
  unfolding emit_and_reduce_def by (intro mock_rules emit_mock_grows reduce_grows)

lemma mock_actions_grow:
  "moves (mock_grows cfg) (emit_started_event cfg we)" "moves (mock_grows cfg) (reduce_started obs ev)"
  "moves (mock_grows cfg) (emit_delta_locked cfg we ob delta)"
  "moves (mock_grows cfg) (emit_completion_locked cfg wes obs t)"
  "moves (mock_grows cfg) (emit_selected_cancellation cfg we ob)"
  "moves (mock_grows cfg) begin_mock_run" "moves (mock_grows cfg) (attach_mock_observer ob)"
  "moves (mock_grows cfg) (request_cancellation cfg ob cmd)"
  unfolding emit_started_event_def reduce_started_def emit_delta_locked_def emit_completion_locked_def
    emit_selected_cancellation_def begin_mock_run_def attach_mock_observer_def request_cancellation_def
    notify_lifecycle_def Let_def
  by (intro mock_rules emit_mock_grows reduce_grows emit_and_reduce_grows)+

lemma settle_run_grows:
  assumes "moves (mock_grows cfg) act"
  shows "mock_grows cfg s (settle_run k (act s))"
proof -
  obtain r t where r: "act s = (r, t)" by (rule prod.exhaust)
  have "mock_grows cfg s t" using movesD [OF assms r] .
  with r mock_growth.order_trans mock_updates_grow(8) show ?thesis by (cases r) (auto simp: settle_run_def)
qed

lemma mock_run_step_grows: "mock_run_step cfg s t \<Longrightarrow> mock_grows cfg s t"
  by (induction rule: mock_run_step.induct)
    (rule settle_run_grows mock_actions_grow mock_updates_grow(8) mock_actions_grow(6) [unfolded moves_def, THEN spec])+

lemma provider_run_step_grows:
  assumes "ps_run_step cfg s t"
  shows "grows (session_output (pc_session_id cfg) {PROVIDER_CLEANUP_FAILED_CODE}) (ps_writer s) (ps_writer t)"
  using run_step_moves [OF assms] by (auto simp: session_moves_def)

lemma attach_provider_moves:
  "moves (session_moves cfg) (attach_lifecycle_observer ob)" "moves (session_moves cfg) attach_model_usage_observer"
  "moves (session_moves cfg) attach_loop_limits_observer"
  unfolding attach_lifecycle_observer_def attach_model_usage_observer_def attach_loop_limits_observer_def
  by (intro session_rules; simp add: session_moves_def)+

subsection \<open>The tape only grows\<close>

definition extends :: "runtime_state \<Rightarrow> runtime_state \<Rightarrow> bool" where
  "extends s t \<longleftrightarrow> prefix (events_of s) (events_of t) \<and> rt_initialized t = rt_initialized s"

interpretation extending: action_order extends
  by unfold_locales (auto simp: extends_def)

lemma announced_extends: "extends s t \<Longrightarrow> announced s \<Longrightarrow> announced t"
  by (auto simp: announced_def extends_def prefix_def)

lemma grows_prefix: "grows P w w' \<Longrightarrow> prefix (published_events w) (published_events w')"
  by (auto simp: grows_def)

lemma session_moves_grows:
  "session_moves cfg s t \<Longrightarrow>
     grows (session_output (pc_session_id cfg) {PROVIDER_CLEANUP_FAILED_CODE}) (ps_writer s) (ps_writer t)"
  by (simp add: session_moves_def)

lemma lent_writers [simp]: "ms_writer (lent_mock s m) = rt_writer s" "ps_writer (lent_provider s p) = rt_writer s"
  by (simp_all add: lent_mock_def lent_provider_def)

lemma on_mock_extends:
  assumes "moves (mock_grows cfg) act"
  shows "moves extends (on_mock cfg m act)"
  unfolding moves_def
proof
  fix s
  obtain r t where r: "act (lent_mock s m) = (r, t)" by (rule prod.exhaust)
  have "mock_grows cfg (lent_mock s m) t" using movesD [OF assms r] .
  then show "extends s (snd (on_mock cfg m act s))"
    by (simp add: on_mock_def r extends_def keep_session_def mock_grows_def grows_prefix)
qed

lemma on_provider_extends:
  assumes "moves (session_moves cfg) act"
  shows "moves extends (on_provider cfg p act)"
  unfolding moves_def
proof
  fix s
  obtain r t where r: "act (lent_provider s p) = (r, t)" by (rule prod.exhaust)
  have "session_moves cfg (lent_provider s p) t" using movesD [OF assms r] .
  from grows_prefix [OF session_moves_grows [OF this]] show "extends s (snd (on_provider cfg p act s))"
    by (simp add: on_provider_def r extends_def keep_session_def)
qed

lemma emit_runtime_prefix: "emit_runtime we t p c w = (r, w') \<Longrightarrow> prefix (published_events w) (published_events w')"
  using emit_runtime_effect [of we t p c w r w'] by (auto simp: wrote_def)

lemma emit_extends: "moves extends (emit_runtime_event we t p c)"
  unfolding moves_def emit_runtime_event_def
  by (auto simp: extends_def intro: emit_runtime_prefix split: prod.split)

lemmas extend_rules = extending.move_rules emit_extends

lemma error_extends: "moves extends (runtime_error we code m b c)"
  unfolding runtime_error_def by (rule emit_extends)

lemma warning_extends: "moves extends (recording_warning we cmd)"
  unfolding recording_warning_def by (intro extend_rules error_extends) (simp add: extends_def)

lemma observe_extends: "moves extends (observe RC we call)"
  unfolding observe_def by (intro extend_rules warning_extends) (simp add: extends_def)

lemma tear_down_extends: "moves extends (tear_down env)"
proof -
  have "moves extends (if b then seq (on_provider cfg p (select_teardown cfg (rn_tx env))) (\<lambda>_. ret ()) else ret ())" for b cfg p
    by (intro extend_rules on_provider_extends moves_selecting')
  then show ?thesis
    by (auto simp: tear_down_def moves_def extending.order_refl split: option.splits live_session.splits)
qed

lemma attach_extends: "moves extends (attach_observers RC we l)"
  unfolding attach_observers_def
  by (cases l; simp)
    (intro extend_rules observe_extends on_mock_extends on_provider_extends mock_actions_grow
      session_rules attach_provider_moves)+

lemma start_recording_extends: "moves extends (start_recording RC env cmd l)"
proof (cases "rc_settings RC")
  case None
  then show ?thesis by (simp add: start_recording_def extend_rules)
next
  case (Some settings)
  have w: "extends s (snd (recording_warning we c (s\<lparr>rt_creation_calls := cl\<rparr>)))" for s we c cl
    using movesD [OF warning_extends, of we c "s\<lparr>rt_creation_calls := cl\<rparr>"]
    by (cases "recording_warning we c (s\<lparr>rt_creation_calls := cl\<rparr>)") (simp add: extends_def)
  have a: "extends s (snd (attach_observers RC we l (s\<lparr>rt_creation_calls := cl, rt_transcript := x, rt_start_command := c\<rparr>)))"
    for s we c cl x
    using movesD [OF attach_extends, of RC we l "s\<lparr>rt_creation_calls := cl, rt_transcript := x, rt_start_command := c\<rparr>"]
    by (cases "attach_observers RC we l (s\<lparr>rt_creation_calls := cl, rt_transcript := x, rt_start_command := c\<rparr>)")
      (simp add: extends_def)
  show ?thesis
    unfolding moves_def start_recording_def Some using w a by (auto split: prod.splits sum.splits)
qed

lemma create_extends: "moves extends (create_active RC cmd t)"
  unfolding moves_def create_active_def by (auto simp: extends_def split: option.splits prod.splits sum.splits)

lemma handle_start_extends: "moves extends (handle_start RC env cmd t)"
  unfolding handle_start_def
  by (intro extend_rules error_extends create_extends start_recording_extends) (simp add: extends_def)

lemma handle_cancel_extends: "moves extends (handle_cancel env cmd target)"
proof -
  have "moves extends (request_session_cancellation env cmd l)" for l
    unfolding request_session_cancellation_def
    by (cases l; simp) (intro extend_rules on_mock_extends on_provider_extends mock_actions_grow moves_user_cancellation)+
  then show ?thesis
    unfolding handle_cancel_def go_def by (intro extend_rules error_extends) (simp_all add: extends_def)
qed

subsection \<open>The actions of the loop\<close>

definition preserves :: "runtime_config \<Rightarrow> runtime_state \<Rightarrow> runtime_state \<Rightarrow> bool" where
  "preserves RC s t \<longleftrightarrow> (runtime_inv RC s \<longrightarrow> runtime_inv RC t)"

interpretation preserving: action_order "preserves RC" for RC
  by unfold_locales (auto simp: preserves_def)

lemma preservesD: "moves (preserves RC) act \<Longrightarrow> runtime_inv RC s \<Longrightarrow> runtime_inv RC (snd (act s))"
  by (simp add: moves_def preserves_def)

lemma harmless_error:
  "lit ''transcript_persistence_failed'' \<noteq> code \<Longrightarrow> harmless (error_event we code m b c)"
  by (auto simp: harmless_def error_event_def is_runtime_event_def is_ready_def is_warning_def simp del: lit_simps)

lemma runtime_error_value:
  "runtime_error we code m b c s =
     (case emit_runtime we (lit ''runtime.error'') (error_payload (lit code) m b) c (rt_writer s) of
        (r, w) \<Rightarrow> (map_sum id (\<lambda>_. ()) r, s\<lparr>rt_writer := w\<rparr>))"
  by (simp add: runtime_error_def emit_runtime_event_def error_payload_def del: lit_simps)

lemma error_preserves:
  assumes "lit ''transcript_persistence_failed'' \<noteq> (lit code :: ustr)"
  shows "moves (preserves RC) (runtime_error we code m b c)"
  unfolding moves_def preserves_def
proof (intro allI impI)
  fix s
  assume inv: "runtime_inv RC s"
  obtain r w where e: "emit_runtime we (lit ''runtime.error'') (error_payload (lit code) m b) c (rt_writer s) = (r, w)"
    by (rule prod.exhaust)
  then have "runtime_inv RC (s\<lparr>rt_writer := w\<rparr>)"
  proof (cases rule: emit_error_cases)
    case (failed x)
    with inv show ?thesis by simp
  next
    case written
    then have "published_events w = events_of s @ [error_event we (lit code) m b c]" by (simp add: wrote_def)
    moreover have "list_all harmless [error_event we (lit code) m b c]"
      using harmless_error [OF assms, of we m b c] by simp
    ultimately show ?thesis using wrote_numbered [OF written(1)] by (rule inv_published [OF inv])
  qed
  with e show "runtime_inv RC (snd (runtime_error we code m b c s))" by (simp add: runtime_error_value)
qed

text \<open>The one warning: recording was available, and the transcript, if any, has failed.\<close>

lemma warning_inv:
  assumes inv: "runtime_inv RC s" and r: "rt_recording s"
    and t: "\<And>c. rt_transcript s = Some c \<Longrightarrow> tr_failure (cr_transcript c) \<noteq> None"
  shows "runtime_inv RC (snd (recording_warning we cmd s))"
proof -
  let ?code = "''transcript_persistence_failed''"
  let ?s = "s\<lparr>rt_recording := False\<rparr>"
  have none: "filter is_warning (events_of s) = []"
    using inv r by (simp add: runtime_inv_def recording_inv_def)
  obtain q w where e: "emit_runtime we (lit ''runtime.error'') (error_payload (lit ?code) RECORDING_MESSAGE True)
      (Some cmd) (rt_writer s) = (q, w)" by (rule prod.exhaust)
  then obtain es where w: "published_events w = events_of s @ es" "length es \<le> 1"
    and h: "list_all is_runtime_event es" "list_all (\<lambda>e. \<not> is_ready e) es"
    and num: "tape.numbered (rt_writer s) \<Longrightarrow> tape.numbered w"
  proof (cases rule: emit_error_cases)
    case (failed x)
    then show thesis by (intro that [of "[]"]) simp_all
  next
    case written
    then show thesis using wrote_numbered [OF written(1)]
      by (intro that) (auto simp: wrote_def error_event_def is_runtime_event_def is_ready_def simp del: lit_simps)
  qed
  have "ordered_output RC (rt_sessions s) (published_events w)"
    unfolding w(1) by (rule ordered_output_grows) (use inv h tape_of_runtime_events(2) [OF h(1)] in
        \<open>simp_all add: runtime_inv_def exI [of _ 0]\<close>)
  moreover have "sessions_inv RC (?s\<lparr>rt_writer := w\<rparr>)"
    using sessions_inv_grows [of RC ?s w es] inv w h by (simp add: runtime_inv_def sessions_inv_def)
  moreover have "length (filter is_warning (published_events w)) \<le> 1"
    using none w order_trans [OF length_filter_le w(2), of is_warning] by simp
  moreover have "\<not> has_ready es" using h(2) by (auto simp: list_ex_iff list_all_iff)
  ultimately have "runtime_inv RC (?s\<lparr>rt_writer := w\<rparr>)"
    using inv t r w(1) num unfolding runtime_inv_def recording_inv_def by simp
  with e show ?thesis
    by (simp add: recording_warning_def next_do_def seq_def runtime_error_value del: lit_simps)
qed

lemma runtime_error_fields:
  "rt_active (snd (runtime_error we code m b c s)) = rt_active s"
  "rt_transcript (snd (runtime_error we code m b c s)) = rt_transcript s"
  by (simp_all add: runtime_error_value split: prod.split del: lit_simps)

lemma recording_warning_fields:
  "rt_active (snd (recording_warning we cmd s)) = rt_active s"
  by (simp add: recording_warning_def next_do_def seq_def runtime_error_fields)

lemma observe_active: "rt_active (snd (observe RC we call s)) = rt_active s"
  by (simp add: observe_def next_do_def seq_def recording_warning_fields split: option.split prod.split)

lemma observe_inv:
  assumes inv: "runtime_inv RC s"
  shows "runtime_inv RC (snd (observe RC we call s))"
proof (cases "rt_transcript s")
  case None
  with inv show ?thesis by (simp add: observe_def)
next
  case (Some c)
  obtain rep t where step: "transcript_step (cr_config c) (rc_files RC (rt_sessions s)) call (cr_transcript c) = (rep, t)"
    by (rule prod.exhaust)
  let ?s = "s\<lparr>rt_transcript := Some (c\<lparr>cr_transcript := t\<rparr>)\<rparr>"
  have old: "latch_inv (cr_transcript c)" "rt_recording s \<or> tr_failure (cr_transcript c) \<noteq> None"
    using inv Some by (simp_all add: runtime_inv_def recording_inv_def)
  note latch = transcript_step_latch [OF old(1) step]
  have s: "runtime_inv RC ?s"
    using inv Some latch old by (auto simp: runtime_inv_def recording_inv_def sessions_inv_def)
  show ?thesis
  proof (cases rep)
    case None
    with Some step s show ?thesis by (simp add: observe_def seq_simps)
  next
    case (Some code)
    with latch have "tr_failure (cr_transcript c) = None" "tr_failure t = Some code" by auto
    with old(2) have "rt_recording ?s" "tr_failure t \<noteq> None" by simp_all
    with s have "runtime_inv RC (snd (recording_warning we (rt_start_command s) ?s))" by (intro warning_inv) auto
    with Some \<open>rt_transcript s = Some c\<close> step show ?thesis by (simp add: observe_def next_do_def seq_def)
  qed
qed

lemma on_mock_inv:
  assumes inv: "runtime_inv RC s" and a: "rt_active s = Some (MockRun cfg m)"
    and g: "moves (mock_grows cfg) act" and ok: "\<And>x. mock_ok cfg x \<Longrightarrow> mock_ok cfg (snd (act x))"
  shows "runtime_inv RC (snd (on_mock cfg m act s))"
proof -
  obtain r t where r: "act (lent_mock s m) = (r, t)" by (rule prod.exhaust)
  have live: "rc_provider RC = None" "mock_ok cfg (lent_mock s m)"
    using inv a by (auto simp: runtime_inv_def sessions_inv_def lent_mock_def)
  have "mock_ok cfg t" using ok [OF live(2)] r by simp
  moreover have "mock_grows cfg (lent_mock s m) t" using movesD [OF g r] .
  ultimately have "runtime_inv RC (keep_session (MockRun cfg t) s)"
    using live(1) by (intro inv_keep_session [OF inv a, where codes = "{}"]) (simp_all add: mock_grows_def)
  with r show ?thesis by (simp add: on_mock_def)
qed

lemma cleanup_code: "lit ''transcript_persistence_failed'' \<noteq> PROVIDER_CLEANUP_FAILED_CODE"
  by (simp add: PROVIDER_CLEANUP_FAILED_CODE_def)

lemma keep_provider_inv:
  assumes inv: "runtime_inv RC s" and a: "rt_active s = Some (ProviderRun cfg p)"
    and g: "grows (session_output (pc_session_id cfg) {PROVIDER_CLEANUP_FAILED_CODE}) (rt_writer s) (ps_writer t)"
  shows "runtime_inv RC (keep_session (ProviderRun cfg t) s)"
proof -
  have "rc_provider RC \<noteq> None" using inv a by (auto simp: runtime_inv_def sessions_inv_def)
  with g cleanup_code show ?thesis
    by (intro inv_keep_session [OF inv a, where codes = "{PROVIDER_CLEANUP_FAILED_CODE}"]) simp_all
qed

lemma on_provider_inv:
  assumes inv: "runtime_inv RC s" and a: "rt_active s = Some (ProviderRun cfg p)"
    and g: "moves (session_moves cfg) act"
  shows "runtime_inv RC (snd (on_provider cfg p act s))"
proof -
  obtain r t where r: "act (lent_provider s p) = (r, t)" by (rule prod.exhaust)
  have "session_moves cfg (lent_provider s p) t" using movesD [OF g r] .
  from session_moves_grows [OF this] show ?thesis
    using keep_provider_inv [OF inv a] r by (simp add: on_provider_def)
qed

lemma snd_seq_ret: "snd (seq act (\<lambda>_. ret ()) s) = snd (act s)"
  by (cases "act s"; cases "fst (act s)") (simp_all add: seq_def)

lemma tear_down_inv:
  assumes "runtime_inv RC s"
  shows "runtime_inv RC (snd (tear_down env s))"
proof (cases "\<exists>cfg p. rt_active s = Some (ProviderRun cfg p) \<and> rt_task s")
  case True
  then obtain cfg p where p: "rt_active s = Some (ProviderRun cfg p)" "rt_task s" by blast
  have "moves (session_moves cfg) (select_teardown cfg (rn_tx env))" by (rule moves_selecting')
  from on_provider_inv [OF assms p(1) this] p show ?thesis by (simp add: tear_down_def snd_seq_ret)
next
  case False
  with assms show ?thesis by (auto simp: tear_down_def split: option.splits live_session.splits)
qed

lemma begin_closing_inv: "runtime_inv RC s \<Longrightarrow> runtime_inv RC (begin_closing env s)"
  by (simp add: begin_closing_def Let_def tear_down_inv)

lemma settle_loop_inv: "runtime_inv RC (snd x) \<Longrightarrow> runtime_inv RC (settle_loop env x)"
  by (cases x; cases "fst x") (auto simp: settle_loop_def begin_closing_inv)

subsection \<open>Starting a session\<close>

lemma snd_seq_attempt: "snd (seq (attempt m) k s) = snd (k (fst (m s)) (snd (m s)))"
  by (cases "m s") (simp add: seq_def attempt_def)

lemma attach_inv:
  assumes inv: "runtime_inv RC s" and a: "rt_active s = Some l"
  shows "runtime_inv RC (snd (attach_observers RC we l s))"
proof (cases l)
  case (MockRun cfg m)
  let ?call = "RecordCall (TaskSubmitted (mc_command_id cfg) (mc_task cfg)) (ms_lifecycle m)"
  have q: "mock_ok cfg (snd (attach_mock_observer ob x))" if "mock_ok cfg x" for ob x
    using quiet_attach [of cfg ob] that by (auto simp: moves_def intro: quiet_mock_ok)
  have "runtime_inv RC (snd (on_mock cfg m (attach_mock_observer ob) (snd (observe RC we ?call s))))" for ob
    using observe_inv [OF inv] a MockRun q by (intro on_mock_inv mock_actions_grow) (simp_all add: observe_active)
  with MockRun show ?thesis by (simp add: attach_observers_def snd_seq_attempt)
next
  case (ProviderRun cfg p)
  let ?call = "RecordCall (TaskSubmitted (pc_command_id cfg) (pc_task cfg)) (ps_lifecycle p)"
  have "moves (session_moves cfg) (next_do (attach_lifecycle_observer ob)
      (next_do attach_model_usage_observer attach_loop_limits_observer))" for ob
    by (intro session_rules attach_provider_moves)
  then have "runtime_inv RC (snd (on_provider cfg p (next_do (attach_lifecycle_observer ob)
      (next_do attach_model_usage_observer attach_loop_limits_observer)) (snd (observe RC we ?call s))))" for ob
    using observe_inv [OF inv] a ProviderRun by (intro on_provider_inv) (simp_all add: observe_active)
  with ProviderRun show ?thesis by (simp add: attach_observers_def snd_seq_attempt)
qed

lemma created_new:
  "gives (create_transcript E J st ws sid)
     (\<lambda>c. cr_transcript c = new_transcript (settings_sensitive_values st) (settings_text_limit st))"
  unfolding create_transcript_def create_unchecked_def Let_def
  by (intro gives_rethrow) (auto intro!: gives_seq [OF gives_True] gives_raise gives_next gives_ret)

lemma new_transcript_latch: "latch_inv (new_transcript a b)"
  by (simp add: latch_inv_def new_transcript_def)

lemma start_recording_inv:
  assumes inv: "runtime_inv RC s" and a: "rt_active s = Some l" "rt_recording s" "rt_transcript s = None"
  shows "runtime_inv RC (snd (start_recording RC env cmd l s))"
proof (cases "rc_settings RC")
  case None
  with inv show ?thesis by (simp add: start_recording_def)
next
  case (Some st)
  obtain r cl where c: "create_transcript (rc_creation RC) (rc_json RC) st (root_parts (wb_root (rc_boundary RC)))
      (live_id l) (rt_creation_calls s) = (r, cl)" by (rule prod.exhaust)
  show ?thesis
  proof (cases r)
    case (Inl e)
    have "runtime_inv RC (snd (recording_warning (rn_write env 0) cmd (s\<lparr>rt_creation_calls := cl\<rparr>)))"
      by (rule warning_inv) (use inv a in simp_all)
    with Some c Inl show ?thesis by (simp add: start_recording_def)
  next
    case (Inr t)
    from givesD [OF created_new c [unfolded Inr]] have "latch_inv (cr_transcript t)" by (simp add: new_transcript_latch)
    then have "runtime_inv RC (s\<lparr>rt_creation_calls := cl, rt_transcript := Some t, rt_start_command := cmd\<rparr>)"
      using inv a by (simp add: runtime_inv_defs)
    from attach_inv [OF this, of l] a Some c Inr show ?thesis by (simp add: start_recording_def)
  qed
qed

lemma create_inv:
  assumes inv: "runtime_inv RC s" and a: "rt_active s = None" "has_ready (events_of s)"
  shows "\<exists>l s'. create_active RC cmd t s = (Inr (), s') \<and> rt_active s' = Some l \<and> runtime_inv RC s' \<and>
    rt_transcript s' = None \<and> rt_recording s' = rt_recording s"
proof -
  let ?n = "Suc (rt_sessions s)"
  have none: "rt_transcript s = None" using inv a(1) by (cases "rt_transcript s") (auto simp: runtime_inv_def recording_inv_def)
  have out: "ordered_output RC (rt_sessions s) (events_of s)" using inv by (simp add: runtime_inv_def)
  have step: "runtime_inv RC (s\<lparr>rt_sessions := ?n, rt_active := Some l\<rparr>)"
    if "live_id l = nth_session_id RC ?n" "live_ok RC (rt_writer s) l" for l
    using inv a that ordered_output_more [OF out, of ?n] by (auto simp: runtime_inv_defs less_Suc_eq_le)
  show ?thesis
  proof (cases "rc_provider RC")
    case None
    let ?cfg = "\<lparr>mc_session_id = mock_session_id ?n, mc_command_id = cmd, mc_task = t\<rparr>"
    obtain m where m: "MockSession ?cfg (rt_writer s) = Inr m"
      by (simp add: MockSession_def Let_def reduce_session_state_def INITIAL_SESSION_STATE_def
          TERMINAL_SESSION_STATUSES_def)
    have "ms_writer m = rt_writer s" using m by (auto simp: MockSession_def Let_def split: if_splits)
    then have w: "m\<lparr>ms_writer := rt_writer s\<rparr> = m" by simp
    have "fresh_session ?cfg (rt_writer s)"
      using ordered_output_fresh [OF out] None by (simp add: fresh_session_def own_tape_def nth_session_id_def)
    then have "mock_ok ?cfg m" by (rule mock_ok_created [OF m])
    with w None have "runtime_inv RC (s\<lparr>rt_sessions := ?n, rt_active := Some (MockRun ?cfg m)\<rparr>)"
      by (intro step) (simp_all add: nth_session_id_def)
    with None m none show ?thesis by (simp add: create_active_def create_mock_session_def Let_def)
  next
    case (Some limits)
    let ?cfg = "\<lparr>pc_session_id = runner_session_id ?n, pc_command_id = cmd, pc_task = t, pc_limits = limits\<rparr>"
    have "runtime_inv RC (s\<lparr>rt_sessions := ?n, rt_active := Some (ProviderRun ?cfg (new_provider_session ?cfg (rt_writer s)))\<rparr>)"
      by (intro step) (simp_all add: nth_session_id_def Some)
    with Some none show ?thesis by (simp add: create_active_def create_session_value Let_def)
  qed
qed

lemma next_do_inv:
  assumes "runtime_inv RC (snd (m s))" "\<And>u t. m s = (Inr u, t) \<Longrightarrow> runtime_inv RC (snd (k t))"
  shows "runtime_inv RC (snd (next_do m k s))"
  using assms by (cases "m s"; cases "fst (m s)") (auto simp: seq_simps)

lemma handle_start_inv:
  assumes inv: "runtime_inv RC s" and ready: "has_ready (events_of s)"
  shows "runtime_inv RC (snd (handle_start RC env cmd t s))"
proof (cases "py_strip t = [] \<or> rt_active s \<noteq> None")
  case True
  have "lit ''transcript_persistence_failed'' \<noteq> (lit ''invalid_task'' :: ustr)"
    "lit ''transcript_persistence_failed'' \<noteq> (lit ''session_active'' :: ustr)" by simp_all
  with True preservesD [OF error_preserves inv] show ?thesis by (auto simp: handle_start_def simp del: lit_simps)
next
  case False
  from False create_inv [OF inv _ ready, of cmd t] obtain l s' where c: "create_active RC cmd t s = (Inr (), s')"
    "rt_active s' = Some l" "runtime_inv RC s'" "rt_transcript s' = None" by blast
  have "runtime_inv RC (snd (start_recording RC env cmd l s'))" if "rt_recording s'"
    using start_recording_inv [OF c(3,2) that c(4)] .
  with c have "runtime_inv RC (snd (next_do
      (ask (\<lambda>s. case rt_active s of Some l \<Rightarrow> if rt_recording s then start_recording RC env cmd l else ret () | None \<Rightarrow> ret ()))
      (update (\<lambda>s. s\<lparr>rt_task := True, rt_task_cancelled := False\<rparr>)) s'))"
    by (intro next_do_inv) (auto dest: arg_cong [of _ _ snd] split: if_splits)
  with False c(1) show ?thesis by (simp add: handle_start_def next_do_def seq_def)
qed

subsection \<open>The other commands\<close>

lemma handle_cancel_inv:
  assumes inv: "runtime_inv RC s"
  shows "runtime_inv RC (snd (handle_cancel env cmd target s))"
proof -
  have "lit ''transcript_persistence_failed'' \<noteq> (lit ''session_not_active'' :: ustr)"
    "lit ''transcript_persistence_failed'' \<noteq> (lit ''session_mismatch'' :: ustr)" by simp_all
  note errors = preservesD [OF error_preserves [OF this(1)] inv] preservesD [OF error_preserves [OF this(2)] inv]
  show ?thesis
  proof (cases "rt_active s")
    case None
    with inv errors show ?thesis by (simp add: handle_cancel_def del: lit_simps)
  next
    case (Some l)
    have "runtime_inv RC (snd (request_session_cancellation env cmd l s))"
    proof (cases l)
      case (MockRun cfg m)
      have "runtime_inv RC (snd (on_mock cfg m (request_cancellation cfg (rn_observer env) cmd) s))"
        using Some MockRun mock_ok_cancel by (intro on_mock_inv [OF inv] mock_actions_grow) auto
      with MockRun show ?thesis by (simp add: request_session_cancellation_def snd_seq_ret)
    next
      case (ProviderRun cfg p)
      have "runtime_inv RC (snd (on_provider cfg p (select_user_cancellation cfg (rn_tx env) cmd) s))"
        using Some ProviderRun by (intro on_provider_inv [OF inv] moves_user_cancellation) simp
      with ProviderRun show ?thesis by (simp add: request_session_cancellation_def snd_seq_ret)
    qed
    then have "runtime_inv RC (snd (next_do (request_session_cancellation env cmd l)
        (if \<not> rt_task s then raise (RuntimeError ''active session is missing its task'')
                else go AwaitingCancelled) s))"
      by (intro next_do_inv) (auto simp: go_def dest: arg_cong [of _ _ snd])
    with Some errors show ?thesis by (simp add: handle_cancel_def del: lit_simps)
  qed
qed

definition only_calls :: "runtime_state \<Rightarrow> runtime_state \<Rightarrow> bool" where
  "only_calls s t \<longleftrightarrow> (\<exists>c. t = s\<lparr>calls := c\<rparr>)"

interpretation logging: action_order only_calls
proof
  show "only_calls s s" for s
    unfolding only_calls_def by (rule exI [of _ "calls s"]) simp
qed (auto simp: only_calls_def)

lemma host_do_logs: "moves only_calls (host_do c f)"
  by (auto simp: moves_def host_do_def only_calls_def)

lemma path_logs: "moves only_calls (path_resolve h b p)" "moves only_calls (path_stat h b p)"
  unfolding path_resolve_def path_stat_def by (rule host_do_logs)+

lemma stat_case_moves:
  "(\<And>st. moves R (f st)) \<Longrightarrow> moves R a \<Longrightarrow> moves R b \<Longrightarrow>
     moves R (case r of StatOk st \<Rightarrow> f st | StatMissing \<Rightarrow> a | StatFailed \<Rightarrow> b)"
  by (cases r) simp_all

lemma resolve_components_logs: "moves only_calls (resolve_components h b cs t)"
  by (induction cs arbitrary: t)
    (simp_all, intro logging.move_rules path_logs, auto simp: raise_resolution_failure_def
      intro!: logging.move_rules path_logs)

lemma requested_logs: "moves only_calls (requested_boundary RC path)"
proof -
  have "moves only_calls (assert_current_root h b)" for h b
    unfolding assert_current_root_def by (intro logging.move_rules path_logs stat_case_moves)
  then have "moves only_calls (resolve_existing h b v)" for h b v
    unfolding resolve_existing_def resolve_target_def
    by (intro logging.move_rules resolve_components_logs)
  moreover have "moves only_calls (from_path h v)" for h v
    unfolding from_path_def by (intro logging.move_rules host_do_logs path_logs stat_case_moves)
  ultimately show ?thesis unfolding requested_boundary_def by (intro logging.move_rules)
qed

lemma ready_inv:
  assumes inv: "runtime_inv RC s" and init: "rt_initialized s" and new: "\<not> has_ready (events_of s)"
    and w: "published_events w = events_of s @ [ready_event we ws c]" and num: "tape.numbered w"
  shows "runtime_inv RC (s\<lparr>rt_writer := w\<rparr>)"
proof -
  let ?e = "ready_event we ws c"
  have e: "is_ready ?e" "\<not> is_warning ?e" "is_runtime_event ?e"
    by (simp_all add: ready_event_def is_ready_def is_warning_def is_runtime_event_def)
  have none: "rt_sessions s = 0" "rt_active s = None"
    using inv new by (auto simp: runtime_inv_def sessions_inv_def Suc_le_eq)
  have q: "filter is_ready (events_of s) = []" "takeWhile (\<lambda>e. \<not> is_ready e) (events_of s) = events_of s"
    using new by (auto simp: list_ex_iff filter_empty_conv takeWhile_eq_all_conv)
  have "takeWhile (\<lambda>e. \<not> is_ready e) (events_of s @ [?e]) = events_of s"
    using q(2) e(1) new by (simp add: takeWhile_append list_ex_iff)
  moreover have "session_ids [?e] = []" using tape_of_runtime_events(2) [of "[?e]"] e by simp
  ultimately have "ordered_output RC (rt_sessions s) (published_events w)"
    using inv q e by (simp add: w runtime_inv_def ordered_output_def tape_append)
  with inv init none e num show ?thesis
    by (simp add: runtime_inv_def sessions_inv_def recording_inv_def w)
qed

text \<open>After a handled input the ready event is out if initialization was accepted, unless it raised.\<close>

definition settled_well :: "runtime_config \<Rightarrow> (py_error + unit) \<times> runtime_state \<Rightarrow> bool" where
  "settled_well RC x \<longleftrightarrow> runtime_inv RC (snd x) \<and> (case fst x of Inl _ \<Rightarrow> True | Inr _ \<Rightarrow> announced (snd x))"

lemma settled_extends:
  assumes "moves extends act" "announced s" "runtime_inv RC (snd (act s))"
  shows "settled_well RC (act s)"
  using assms announced_extends by (auto simp: settled_well_def moves_def split: sum.split)

lemma handle_initialize_settles:
  assumes inv: "runtime_inv RC s" and ann: "announced s"
  shows "settled_well RC (handle_initialize RC env cmd path s)"
proof -
  have codes: "lit ''transcript_persistence_failed'' \<noteq> (lit ''already_initialized'' :: ustr)"
    "lit ''transcript_persistence_failed'' \<noteq> (lit ''workspace_mismatch'' :: ustr)" by simp_all
  obtain req t where r: "requested_boundary RC path s = (req, t)" by (rule prod.exhaust)
  from movesD [OF requested_logs r] obtain cs where t: "t = s\<lparr>calls := cs\<rparr>" by (auto simp: only_calls_def)
  show ?thesis
  proof (cases "rt_initialized s")
    case True
    from settled_extends [OF error_extends ann preservesD [OF error_preserves [OF codes(1)] inv]] True
    show ?thesis by (simp add: handle_initialize_def del: lit_simps)
  next
    case False
    show ?thesis
    proof (cases "req = Inr (rc_boundary RC)")
      case True
      let ?s = "t\<lparr>rt_initialized := True\<rparr>" and ?ws = "root_text (wb_root (rc_boundary RC))"
      have s: "runtime_inv RC ?s" "\<not> has_ready (events_of ?s)"
        using inv False t by (auto simp: runtime_inv_def sessions_inv_def recording_inv_def)
      obtain q w where e: "emit_runtime (rn_write env 0) (lit ''runtime.ready'') [(lit ''workspace'', JStr ?ws)] (Some cmd)
          (rt_writer ?s) = (q, w)" by (rule prod.exhaust)
      then have "settled_well RC (map_sum id (\<lambda>_. ()) q, ?s\<lparr>rt_writer := w\<rparr>)"
      proof (cases rule: emit_ready_cases)
        case (failed x)
        with s(1) show ?thesis by (simp add: settled_well_def)
      next
        case written
        then have "published_events w = events_of ?s @ [ready_event (rn_write env 0) ?ws (Some cmd)]"
          by (simp add: wrote_def)
        moreover have "tape.numbered w"
          using wrote_numbered [OF written(1)] s(1) by (simp add: runtime_inv_def)
        ultimately show ?thesis
          using ready_inv [OF s(1) _ s(2)]
          by (auto simp: settled_well_def announced_def ready_event_def is_ready_def split: sum.split)
      qed
      with False r True e show ?thesis
        by (simp add: handle_initialize_def attempt_def seq_simps emit_runtime_event_def del: lit_simps)
    next
      case mismatch: False
      let ?act = "next_do (runtime_error (rn_write env 0) ''workspace_mismatch''
          (lit ''Initialization workspace does not match the supervised workspace.'') False (Some cmd)) (go Leaving)"
      have t': "runtime_inv RC t" "announced t" using inv ann t by simp_all
      have e: "runtime_inv RC (snd (runtime_error (rn_write env 0) ''workspace_mismatch''
          (lit ''Initialization workspace does not match the supervised workspace.'') False (Some cmd) t))"
        by (rule preservesD [OF error_preserves [OF codes(2)] t'(1)])
      have "runtime_inv RC (snd (?act t))"
        by (rule next_do_inv) (use e in \<open>auto simp: go_def simp del: lit_simps\<close>)
      moreover have "moves extends ?act"
        unfolding go_def by (intro extend_rules error_extends) (simp add: extends_def)
      ultimately have "settled_well RC (?act t)" using settled_extends t'(2) by blast
      with False r mismatch show ?thesis
        by (simp add: handle_initialize_def attempt_def seq_simps [of "\<lambda>s. (Inr _, _)"] seq_def del: lit_simps)
    qed
  qed
qed

subsection \<open>One input\<close>

lemma leave_settles:
  assumes "runtime_inv RC s" "announced s"
  shows "settled_well RC (leave_runtime env s)"
proof -
  have "runtime_inv RC (snd (leave_runtime env s))"
    unfolding leave_runtime_def
    by (rule next_do_inv) (use tear_down_inv [OF assms(1), of env] in \<open>auto simp: go_def\<close>)
  moreover have "moves extends (leave_runtime env)"
    unfolding leave_runtime_def go_def by (intro extend_rules tear_down_extends) (simp add: extends_def)
  ultimately show ?thesis using assms(2) settled_extends by blast
qed

lemma parse_codes: "lit ''transcript_persistence_failed'' \<noteq> (lit (parse_error_name k) :: ustr)"
  by (cases k) simp_all

lemma handle_result_settles:
  assumes inv: "runtime_inv RC s" and ann: "announced s"
  shows "settled_well RC (handle_result RC env r s)"
proof (cases r)
  case (Inl f)
  with settled_extends [OF error_extends ann preservesD [OF error_preserves [OF parse_codes] inv]]
  show ?thesis by (simp add: handle_result_def)
next
  case (Inr c)
  have code: "lit ''transcript_persistence_failed'' \<noteq> (lit ''not_initialized'' :: ustr)" by simp
  note refused = settled_extends [OF error_extends ann preservesD [OF error_preserves [OF code] inv]]
  show ?thesis
  proof (cases c)
    case (RuntimeShutdownCommand b)
    with Inr leave_settles [OF assms] show ?thesis by (simp add: handle_result_def handle_command_def Let_def)
  next
    case (RuntimeInitializeCommand b path)
    with Inr handle_initialize_settles [OF assms] show ?thesis
      by (simp add: handle_result_def handle_command_def Let_def)
  next
    case (SessionStartCommand b t)
    have "settled_well RC (handle_start RC env (command_id b) t s)" if "rt_initialized s"
      using that ann by (intro settled_extends handle_start_extends handle_start_inv inv) (simp_all add: announced_def)
    with Inr SessionStartCommand refused show ?thesis
      by (simp add: handle_result_def handle_command_def Let_def del: lit_simps)
  next
    case (SessionCancelCommand b target)
    have "settled_well RC (handle_cancel env (command_id b) target s)"
      by (intro settled_extends handle_cancel_extends handle_cancel_inv inv ann)
    with Inr SessionCancelCommand refused show ?thesis
      by (simp add: handle_result_def handle_command_def Let_def del: lit_simps)
  qed
qed

subsection \<open>Steps\<close>

definition good :: "runtime_config \<Rightarrow> runtime_state \<Rightarrow> bool" where
  "good RC s \<longleftrightarrow> runtime_inv RC s \<and> (rt_phase s \<in> {Closing, Raised} \<or> announced s)"

lemma closing_good: "runtime_inv RC s \<Longrightarrow> good RC (begin_closing env s)"
  using begin_closing_inv [of RC s env] by (simp add: good_def begin_closing_def Let_def)

lemma settle_good: "settled_well RC x \<Longrightarrow> good RC (settle_loop env x)"
  by (cases x; cases "fst x") (auto simp: settled_well_def settle_loop_def closing_good, simp add: good_def)

lemma close_transcript_inv: "runtime_inv RC s \<Longrightarrow> runtime_inv RC (close_transcript RC s)"
  by (auto simp: close_transcript_def runtime_inv_defs latch_inv_def close_file_def tick_def split: option.split)

lemma close_transcript_fields [simp]:
  "rt_writer (close_transcript RC s) = rt_writer s" "rt_active (close_transcript RC s) = rt_active s"
  "rt_sessions (close_transcript RC s) = rt_sessions s" "rt_initialized (close_transcript RC s) = rt_initialized s"
  "rt_recording (close_transcript RC s) = rt_recording s" "announced (close_transcript RC s) = announced s"
  "rt_phase (close_transcript RC s) = rt_phase s"
  by (simp_all add: close_transcript_def split: option.split)

lemma returned_tape:
  assumes "mock_ok cfg m" "ms_phase m = MockReturned"
  shows "whole_tape (mock_tape cfg m)"
  using assms unfolding mock_ok_def phase_tape_def whole_tape_def cut_tape_def cancelled_item_def by fastforce

lemma reap_inv:
  assumes inv: "runtime_inv RC s" and a: "rt_active s = Some l" "live_returned l"
  shows "runtime_inv RC (reap_session RC s)"
proof -
  have l: "live_id l = nth_session_id RC (rt_sessions s)" "live_ok RC (rt_writer s) l"
    using inv a(1) by (simp_all add: runtime_inv_def sessions_inv_def)
  have "whole_tape (own_tape (nth_session_id RC (rt_sessions s)) (events_of s))" if "rc_provider RC = None"
  proof (cases l)
    case (MockRun cfg m)
    with l a(2) returned_tape [of cfg "m\<lparr>ms_writer := rt_writer s\<rparr>"] show ?thesis by (simp add: mock_tape_own)
  qed (use l that in simp)
  then have "sessions_inv RC (reap_session RC s)"
    using inv a by (auto simp: reap_session_def Let_def runtime_inv_def sessions_inv_def order_le_less)
  with inv show ?thesis
    by (simp add: runtime_inv_def recording_inv_def reap_session_def Let_def split: if_splits)
qed

lemma runtime_step_good:
  assumes "runtime_step RC s s'" "good RC s"
  shows "good RC s'"
proof -
  have inv: "runtime_inv RC s" using assms(2) by (simp add: good_def)
  have ann: "announced s" if "may_dispatch s" using assms(2) that by (auto simp: good_def may_dispatch_def)
  from assms(1) show ?thesis
  proof (cases rule: runtime_step.cases)
    case (handles r rest env)
    have "settled_well RC (handle_result RC env r (s\<lparr>rt_input := rest\<rparr>))"
      using handles inv ann by (intro handle_result_settles) simp_all
    with handles show ?thesis by (simp add: settle_good)
  next
    case (reaches_end env)
    with leave_settles [OF inv ann] show ?thesis by (simp add: settle_good)
  next
    case (reading_fails env)
    with closing_good [OF inv] show ?thesis by simp
  next
    case (reaps l)
    with assms(2) reap_inv [of RC s l] show ?thesis
      by (auto simp: good_def reap_session_def Let_def)
  next
    case (session_raises l env)
    with closing_good [OF inv] show ?thesis by simp
  next
    case (mock_runs cfg m m')
    have live: "mock_ok cfg (lent_mock s m)" "rc_provider RC = None"
      using assms(2) mock_runs by (auto simp: good_def runtime_inv_def sessions_inv_def lent_mock_def)
    have g: "grows (session_output (mc_session_id cfg) {}) (rt_writer s) (ms_writer m')"
      using mock_run_step_grows [OF mock_runs(5)] by (simp add: mock_grows_def)
    have "mock_ok cfg m'" using mock_ok_run_step [OF mock_runs(5) live(1)] .
    with g live(2) assms(2) mock_runs have "runtime_inv RC (keep_session (MockRun cfg m') s)"
      by (intro inv_keep_session [where codes = "{}"]) (auto simp: good_def)
    with assms(2) mock_runs(1) g announced_keep_session [of s _ "MockRun cfg m'"] show ?thesis
      by (auto simp: good_def keep_session_def)
  next
    case (provider_runs cfg p p')
    have g: "grows (session_output (pc_session_id cfg) {PROVIDER_CLEANUP_FAILED_CODE}) (rt_writer s) (ps_writer p')"
      using provider_run_step_grows [OF provider_runs(5)] by simp
    with keep_provider_inv [OF _ provider_runs(2) g] assms(2) provider_runs(1)
      announced_keep_session [of s _ "ProviderRun cfg p'"] show ?thesis
      by (auto simp: good_def keep_session_def)
  next
    case (mock_task_cancelled cfg m)
    let ?m = "goto_phase MockAborted (lent_mock s m)"
    have live: "mock_ok cfg (lent_mock s m)" "rc_provider RC = None"
      using assms(2) mock_task_cancelled by (auto simp: good_def runtime_inv_def sessions_inv_def lent_mock_def)
    have w: "ms_writer ?m = rt_writer s" by (simp add: goto_phase_def)
    have "mock_ok cfg ?m" using mock_task_cancelled(5) by (intro mock_ok_aborted live) (simp add: lent_mock_def)
    then have "live_ok RC (live_writer (MockRun cfg ?m)) (MockRun cfg ?m)" using live(2) by simp
    moreover have "grows (session_output (live_id (MockRun cfg m)) {}) (rt_writer s) (live_writer (MockRun cfg ?m))"
      using w by simp
    ultimately have "runtime_inv RC (keep_session (MockRun cfg ?m) s)"
      using live(2) assms(2) mock_task_cancelled(2)
      by (intro inv_keep_session [where codes = "{}"]) (auto simp: good_def)
    with assms(2) mock_task_cancelled(1) w show ?thesis
      by (auto simp: good_def keep_session_def announced_def)
  next
    case (provider_task_cancelled cfg p)
    with keep_provider_inv [of RC s cfg p "(lent_provider s p)\<lparr>ps_start_settled := True, ps_run := Aborting\<rparr>"] assms(2)
    show ?thesis by (auto simp: good_def keep_session_def announced_def)
  next
    case (observer_records l call we)
    have "rt_phase (snd (observe RC we call s)) = rt_phase s"
      by (simp add: observe_def next_do_def seq_def recording_warning_def runtime_error_value
          split: option.split prod.split del: lit_simps)
    moreover have "extends s (snd (observe RC we call s))"
      using observe_extends [of RC we call] by (simp add: moves_def)
    ultimately show ?thesis
      using assms(2) observer_records(1) observe_inv announced_extends by (auto simp: good_def)
  next
    case (join_raises cfg p env)
    with closing_good [OF inv] show ?thesis by simp
  next
    case (interrupted env)
    with closing_good [of RC s] closing_good [of RC "s\<lparr>rt_task_cancelled := rt_task s\<rparr>"] inv show ?thesis by simp
  next
    case returns
    with assms(2) close_transcript_inv show ?thesis by (auto simp: good_def)
  next
    case exception_leaves
    with assms(2) close_transcript_inv show ?thesis by (auto simp: good_def)
  qed
qed

lemma new_events: "published_events new_event_writer = []"
  by (simp add: new_event_writer_def)

lemma runtime_reachable_good:
  assumes "runtime_reachable RC input hl s"
  shows "good RC s"
  using assms
proof (induction rule: runtime_reachable.induct)
  case (runtime_started s)
  have "tape.numbered new_event_writer"
    by (simp add: tape.numbered_def tape.numbers_def new_event_writer_def sequence_counter_def)
  with runtime_started show ?case
    by (auto simp: start_runtime_def good_def runtime_inv_defs ordered_output_def new_events session_ids_def
        List.map_filter_simps split: sum.splits prod.splits)
next
  case (runtime_continues s s')
  from runtime_continues.hyps(2) runtime_continues.IH show ?case by (rule runtime_step_good)
qed

end
