(* ===== verification/Mock_Completion.thy ===== *)
theory Mock_Completion
  imports Mock_Session Emission
begin

section \<open>A mocked session that nobody disturbs\<close>

text \<open>
  The liveness side of the mocked session: with a working sink, silent observers and no
  cancellation, \<open>run\<close> goes from its creation to its return and leaves the whole success tape.
  \<open>at_event n\<close> is the state after \<open>n\<close> published events.
\<close>

definition working_sink :: "write_env \<Rightarrow> bool" where
  "working_sink we \<longleftrightarrow> Timestamp (env_timestamp we) \<and> env_sink we = None \<and> \<not> env_cancelled we"

lemma next_sequence_wrote:
  "wrote w w' (SessionEv e) \<Longrightarrow> next_sequence w' (event_session e) = event_sequence e + 1"
  by (simp add: wrote_def tape_key_def next_sequence_def)

text \<open>An event of the session whose turn it is, accepted by the lifecycle.\<close>

lemma emit_and_reduce_quiet:
  assumes e: "session_event_ok e" "payload_fits e" "event_session e = mc_session_id cfg"
      "event_sequence e = next_sequence (ms_writer s) (mc_session_id cfg)"
      "se_timestamp (session_event_base_of e) = env_timestamp we"
    and env: "working_sink we"
    and acc: "reduce_session_state (ms_lifecycle s) (Wire e) = accept l"
  obtains w where "emit_mock_event cfg we (session_type_name (session_event_type_of e))
      (session_payload_document e) (event_correlation e) s = (Inr e, s\<lparr>ms_writer := w\<rparr>)"
    "emit_and_reduce cfg we None (session_type_name (session_event_type_of e))
      (session_payload_document e) (event_correlation e) s = (Inr (), s\<lparr>ms_writer := w, ms_lifecycle := l\<rparr>)"
    "next_sequence w (mc_session_id cfg) = event_sequence e + 1"
proof -
  obtain w where w: "emit_session we (lit (session_type_name (session_event_type_of e))) (event_session e)
      (session_payload_document e) (event_correlation e) (ms_writer s) = (Inr (SessionEv e), w)"
    "wrote (ms_writer s) w (SessionEv e)"
    using emit_session_publishes [OF e(1,2), of "ms_writer s" we] e(3-5) env by (auto simp: working_sink_def)
  have m: "emit_mock_event cfg we (session_type_name (session_event_type_of e))
      (session_payload_document e) (event_correlation e) s = (Inr e, s\<lparr>ms_writer := w\<rparr>)"
    using w(1) e(3) by (simp add: emit_mock_event_def del: lit_simps)
  then have "emit_and_reduce cfg we None (session_type_name (session_event_type_of e))
      (session_payload_document e) (event_correlation e) s = (Inr (), s\<lparr>ms_writer := w, ms_lifecycle := l\<rparr>)"
    using acc by (simp add: emit_and_reduce_def seq_simps reduce_lifecycle_def notify_lifecycle_def Let_def)
  with m that next_sequence_wrote [OF w(2)] e(3) show thesis by metis
qed

definition at_event :: "mock_config \<Rightarrow> int \<Rightarrow> ustr \<Rightarrow> bool \<Rightarrow> mock_session \<Rightarrow> bool" where
  "at_event cfg n t finished s \<longleftrightarrow>
     status (ms_lifecycle s) = Running \<and> session_id (ms_lifecycle s) = Some (mc_session_id cfg) \<and>
     start_command_id (ms_lifecycle s) = Some (mc_command_id cfg) \<and> last_sequence (ms_lifecycle s) = n \<and>
     assistant_text (ms_lifecycle s) = t \<and> assistant_completed (ms_lifecycle s) = finished \<and>
     next_sequence (ms_writer s) (mc_session_id cfg) = n + 1 \<and> ms_deferred s = None"

definition mock_base :: "mock_config \<Rightarrow> int \<Rightarrow> write_env \<Rightarrow> session_event_base" where
  "mock_base cfg n we = \<lparr>se_session_id = mc_session_id cfg, se_sequence = n, se_timestamp = env_timestamp we,
                         se_correlation = Some (mc_command_id cfg)\<rparr>"

definition valid_mock :: "mock_config \<Rightarrow> bool" where
  "valid_mock cfg \<longleftrightarrow> SessionId (mc_session_id cfg) \<and> CommandId (mc_command_id cfg)"

lemma mock_base_ok:
  "valid_mock cfg \<Longrightarrow> working_sink we \<Longrightarrow> 1 \<le> n \<Longrightarrow> n \<le> 6 \<Longrightarrow> session_event_base_ok (mock_base cfg n we)"
  by (simp add: session_event_base_ok_def mock_base_def valid_mock_def working_sink_def Sequence_def
      MAX_SAFE_SEQUENCE_def correlation_ok_def)

lemma mock_base_fields [simp]:
  "se_session_id (mock_base cfg n we) = mc_session_id cfg" "se_sequence (mock_base cfg n we) = n"
  "se_timestamp (mock_base cfg n we) = env_timestamp we" "se_correlation (mock_base cfg n we) = Some (mc_command_id cfg)"
  by (simp_all add: mock_base_def)

lemma deltas_valid:
  assumes "i < 3"
  shows "AssistantText (MOCK_RESPONSE_DELTAS ! i)" "wire_size (MOCK_RESPONSE_DELTAS ! i) \<le> 8192"
    "AssistantText (concat MOCK_RESPONSE_DELTAS)" "wire_size (concat MOCK_RESPONSE_DELTAS) \<le> 8192"
proof -
  have valid: "AssistantText d \<and> wire_size d \<le> 8192" if "d \<in> set (concat MOCK_RESPONSE_DELTAS # MOCK_RESPONSE_DELTAS)" for d
    using that by (auto simp: MOCK_RESPONSE_DELTAS_def AssistantText_def validate_assistant_text_def
        validate_unicode_scalar_text_def utf8_encode_def is_scalar_def is_surrogate_def is_unsafe_layout_def
        is_control_def utf8_char_def)
  then show "AssistantText (MOCK_RESPONSE_DELTAS ! i)" "wire_size (MOCK_RESPONSE_DELTAS ! i) \<le> 8192"
    "AssistantText (concat MOCK_RESPONSE_DELTAS)" "wire_size (concat MOCK_RESPONSE_DELTAS) \<le> 8192"
    using assms by simp_all
qed

subsection \<open>The stages\<close>

text \<open>After the start and \<open>n\<close> deltas.\<close>

definition mock_stage :: "mock_config \<Rightarrow> nat \<Rightarrow> mock_session \<Rightarrow> bool" where
  "mock_stage cfg n s \<longleftrightarrow>
     at_event cfg (int n + 1) (concat (take n MOCK_RESPONSE_DELTAS)) False s \<and>
     ms_terminal_outcome s = None \<and> ms_phase s = (if n < 3 then MockCheckpoint n else MockCompletion)"

definition mock_fresh :: "mock_config \<Rightarrow> mock_session \<Rightarrow> bool" where
  "mock_fresh cfg s \<longleftrightarrow>
     status (ms_lifecycle s) = Starting \<and> start_command_id (ms_lifecycle s) = Some (mc_command_id cfg) \<and>
     last_sequence (ms_lifecycle s) = 0 \<and> assistant_text (ms_lifecycle s) = [] \<and>
     \<not> assistant_completed (ms_lifecycle s) \<and> ms_deferred s = None \<and> ms_terminal_outcome s = None \<and>
     \<not> ms_run_started s \<and> next_sequence (ms_writer s) (mc_session_id cfg) = 1"

lemma start_stage:
  assumes cfg: "valid_mock cfg" and we: "working_sink we" and s: "mock_fresh cfg s"
  shows "\<exists>t. (mock_run_step cfg)\<^sup>*\<^sup>* s t \<and> mock_stage cfg 0 t"
proof -
  let ?e = "SessionStartedEvent (mock_base cfg 1 we)"
  let ?s = "s\<lparr>ms_run_started := True, ms_phase := MockEmitStarted\<rparr>"
  let ?l = "(ms_lifecycle s)\<lparr>status := Running, session_id := Some (mc_session_id cfg), last_sequence := 1\<rparr>"
  have b: "mock_run_step cfg s ?s" using begins [of cfg s] s by (simp add: begin_mock_run_def mock_fresh_def)
  have acc: "reduce_session_state (ms_lifecycle ?s) (Wire ?e) = accept ?l"
    using s by (simp add: reduce_session_state_def reduce_session_event_def Let_def TERMINAL_SESSION_STATUSES_def
        mock_fresh_def expected_correlation_def sequence_failure_def)
  have ok: "session_event_ok ?e" "payload_fits ?e"
    using mock_base_ok [OF cfg we, of 1] by (simp_all add: session_event_ok_def)
  have q: "event_sequence ?e = next_sequence (ms_writer ?s) (mc_session_id cfg)" using s by (simp add: mock_fresh_def)
  obtain w where w: "emit_mock_event cfg we (session_type_name (session_event_type_of ?e))
      (session_payload_document ?e) (event_correlation ?e) ?s = (Inr ?e, ?s\<lparr>ms_writer := w\<rparr>)"
    "next_sequence w (mc_session_id cfg) = event_sequence ?e + 1"
    by (rule emit_and_reduce_quiet [OF ok _ q _ we acc]) simp_all
  let ?t = "goto_phase (MockReduceStarted ?e) (?s\<lparr>ms_writer := w\<rparr>)"
  have e: "mock_run_step cfg ?s ?t"
    using emits_started [of ?s cfg we] w(1)
    by (simp add: settle_run_def emit_started_event_def session_payload_document_def)
  let ?u = "goto_phase (MockCheckpoint 0) (?t\<lparr>ms_lifecycle := ?l\<rparr>)"
  have "reduce_started (\<lambda>_. None) ?e ?t = (Inr (), ?t\<lparr>ms_lifecycle := ?l\<rparr>)"
    using s acc by (simp add: reduce_started_def reduce_lifecycle_def notify_lifecycle_def seq_simps Let_def
        goto_phase_def mock_fresh_def)
  then have r: "mock_run_step cfg ?t ?u"
    using reduces_started [of ?t ?e cfg "\<lambda>_. None"] by (simp add: settle_run_def)
  have "mock_stage cfg 0 ?u"
    using s w(2) by (simp add: mock_stage_def at_event_def goto_phase_def mock_fresh_def)
  with b e r show ?thesis by (meson converse_rtranclp_into_rtranclp r_into_rtranclp)
qed

lemma delta_step:
  assumes cfg: "valid_mock cfg" and we: "working_sink we" and s: "mock_stage cfg n s" and n: "n < 3"
  shows "\<exists>t. (mock_run_step cfg)\<^sup>*\<^sup>* s t \<and> mock_stage cfg (Suc n) t"
proof -
  let ?d = "MOCK_RESPONSE_DELTAS ! n" and ?s = "goto_phase (MockDelta n) s"
  let ?e = "AssistantDeltaEvent (mock_base cfg (int n + 2) we) ?d"
  let ?l = "(ms_lifecycle s)\<lparr>last_sequence := int n + 2, assistant_text := concat (take (Suc n) MOCK_RESPONSE_DELTAS)\<rparr>"
  have at: "at_event cfg (int n + 1) (concat (take n MOCK_RESPONSE_DELTAS)) False s" "ms_terminal_outcome s = None"
    "ms_phase s = MockCheckpoint n" using s n by (simp_all add: mock_stage_def)
  have c: "mock_run_step cfg s ?s" using checkpoint_passes [OF at(3)] at(2) by simp
  have acc: "reduce_session_state (ms_lifecycle ?s) (Wire ?e) = accept ?l"
    using at(1) n by (simp add: reduce_session_state_def reduce_session_event_def Let_def TERMINAL_SESSION_STATUSES_def
        at_event_def expected_correlation_def sequence_failure_def goto_phase_def take_Suc_conv_app_nth)
  have ok: "session_event_ok ?e" "payload_fits ?e"
    using mock_base_ok [OF cfg we, of "int n + 2"] deltas_valid(1,2) [OF n] n by (simp_all add: session_event_ok_def)
  have q: "event_sequence ?e = next_sequence (ms_writer ?s) (mc_session_id cfg)"
    using at(1) by (simp add: at_event_def goto_phase_def)
  obtain w where w: "emit_and_reduce cfg we None (session_type_name (session_event_type_of ?e))
      (session_payload_document ?e) (event_correlation ?e) ?s = (Inr (), ?s\<lparr>ms_writer := w, ms_lifecycle := ?l\<rparr>)"
    "next_sequence w (mc_session_id cfg) = event_sequence ?e + 1"
    by (rule emit_and_reduce_quiet [OF ok _ q _ we acc]) simp_all
  let ?t = "goto_phase (after_delta n) (?s\<lparr>ms_writer := w, ms_lifecycle := ?l\<rparr>)"
  have "emit_delta_locked cfg we None ?d ?s = (Inr True, ?s\<lparr>ms_writer := w, ms_lifecycle := ?l\<rparr>)"
    using w(1) at(2) by (simp add: emit_delta_locked_def seq_simps session_payload_document_def del: lit_simps)
  then have d: "mock_run_step cfg ?s ?t"
    using emits_delta [of ?s n cfg we None] by (simp add: settle_run_def)
  have "mock_stage cfg (Suc n) ?t"
    using at w(2) n by (simp add: mock_stage_def at_event_def goto_phase_def after_delta_def)
  with c d show ?thesis by (meson converse_rtranclp_into_rtranclp r_into_rtranclp)
qed

lemma completion_step:
  assumes cfg: "valid_mock cfg" and we: "working_sink we" and s: "mock_stage cfg 3 s"
  shows "\<exists>t. mock_run_step cfg s t \<and> ms_phase t = MockReturned \<and> ms_terminal_outcome t = Some MockCompleted"
proof -
  let ?txt = "concat MOCK_RESPONSE_DELTAS"
  let ?e = "AssistantCompletedEvent (mock_base cfg 5 we) ?txt"
  let ?l = "(ms_lifecycle s)\<lparr>last_sequence := 5, assistant_completed := True\<rparr>"
  have at: "at_event cfg 4 ?txt False s" "ms_terminal_outcome s = None" "ms_phase s = MockCompletion"
    using s by (simp_all add: mock_stage_def)
  have acc: "reduce_session_state (ms_lifecycle s) (Wire ?e) = accept ?l"
    using at(1) by (simp add: reduce_session_state_def reduce_session_event_def Let_def TERMINAL_SESSION_STATUSES_def
        at_event_def expected_correlation_def sequence_failure_def)
  have ok: "session_event_ok ?e" "payload_fits ?e"
    using mock_base_ok [OF cfg we, of 5] deltas_valid(3,4) [of 0] by (simp_all add: session_event_ok_def)
  have q: "event_sequence ?e = next_sequence (ms_writer s) (mc_session_id cfg)" using at(1) by (simp add: at_event_def)
  obtain w where w: "emit_and_reduce cfg we None (session_type_name (session_event_type_of ?e))
      (session_payload_document ?e) (event_correlation ?e) s = (Inr (), s\<lparr>ms_writer := w, ms_lifecycle := ?l\<rparr>)"
    "next_sequence w (mc_session_id cfg) = event_sequence ?e + 1"
    by (rule emit_and_reduce_quiet [OF ok _ q _ we acc]) simp_all
  let ?u = "s\<lparr>ms_writer := w, ms_lifecycle := ?l, ms_terminal_outcome := Some MockCompleted\<rparr>"
  let ?f = "SessionCompletedEvent (mock_base cfg 6 we)"
  let ?k = "?l\<lparr>status := Completed, last_sequence := 6\<rparr>"
  have acc': "reduce_session_state (ms_lifecycle ?u) (Wire ?f) = accept ?k"
    using at(1) by (simp add: reduce_session_state_def reduce_session_event_def Let_def TERMINAL_SESSION_STATUSES_def
        at_event_def expected_correlation_def sequence_failure_def)
  have ok': "session_event_ok ?f" "payload_fits ?f"
    using mock_base_ok [OF cfg we, of 6] by (simp_all add: session_event_ok_def)
  obtain v where v: "emit_and_reduce cfg we None (session_type_name (session_event_type_of ?f))
      (session_payload_document ?f) (event_correlation ?f) ?u = (Inr (), ?u\<lparr>ms_writer := v, ms_lifecycle := ?k\<rparr>)"
    by (rule emit_and_reduce_quiet [OF ok' _ _ _ we acc']) (use w(2) in simp_all)
  let ?t = "goto_phase MockReturned (?u\<lparr>ms_writer := v, ms_lifecycle := ?k, ms_terminal_emitted := True\<rparr>)"
  have "emit_completion_locked cfg (\<lambda>_. we) (\<lambda>_. None) ?txt s =
      (Inr True, ?u\<lparr>ms_writer := v, ms_lifecycle := ?k, ms_terminal_emitted := True\<rparr>)"
    using w(1) v at(2) by (simp add: emit_completion_locked_def seq_simps session_payload_document_def del: lit_simps)
  then have "mock_run_step cfg s ?t"
    using emits_completion [OF at(3), of cfg "\<lambda>_. we" "\<lambda>_. None"] by (simp add: settle_run_def)
  moreover have "ms_phase ?t = MockReturned" "ms_terminal_outcome ?t = Some MockCompleted" by simp_all
  ultimately show ?thesis by blast
qed

lemma quiet_mock_run:
  assumes cfg: "valid_mock cfg" and we: "working_sink we" and s: "mock_fresh cfg s"
  shows "\<exists>t. (mock_run_step cfg)\<^sup>*\<^sup>* s t \<and> ms_phase t = MockReturned \<and> ms_terminal_outcome t = Some MockCompleted"
proof -
  have "\<exists>t. (mock_run_step cfg)\<^sup>*\<^sup>* s t \<and> mock_stage cfg n t" if "n \<le> 3" for n
    using that
  proof (induction n)
    case 0
    from start_stage [OF assms] show ?case .
  next
    case (Suc n)
    then obtain t where t: "(mock_run_step cfg)\<^sup>*\<^sup>* s t" "mock_stage cfg n t" by auto
    from delta_step [OF cfg we t(2)] Suc.prems obtain u where "(mock_run_step cfg)\<^sup>*\<^sup>* t u" "mock_stage cfg (Suc n) u"
      by auto
    with t(1) show ?case by (meson rtranclp_trans)
  qed
  from this [of 3] obtain t where t: "(mock_run_step cfg)\<^sup>*\<^sup>* s t" "mock_stage cfg 3 t" by auto
  with completion_step [OF cfg we t(2)] show ?thesis by (meson rtranclp.rtrancl_into_rtrancl)
qed

end
