(* ===== verification/Runtime_Claims.thy ===== *)
theory Runtime_Claims
  imports Runtime_Steps Mock_Completion Transcript_Claims
begin

section \<open>The properties of the runtime\<close>

subsection \<open>Startup\<close>

lemma map_sum_id_Inr [simp]: "map_sum f id r = Inr y \<longleftrightarrow> r = Inr y"
  by (cases r) simp_all

lemma selected_provider: "validate_provider_selection co (PyStr p) m = Inr (q, n) \<Longrightarrow> q = p"
  by (auto simp: validate_provider_selection_def validate_provider_name_def and_then_Inr_iff
      split: if_splits option.splits simp del: lit_simps)

lemma parse_options_Inr:
  assumes "parse_runtime_options co h args hl = (Inr opts, hl')"
  obtains ns w where "args = Inr ns" "arg_workspace ns = Some [w]"
    "fst (from_path h (PlainPath (PyStr w)) hl) = Inr (opt_workspace opts)"
    "opt_transcript_enabled opts = (\<not> arg_no_transcript ns)"
    "opt_provider opts = (case arg_provider ns of None \<Rightarrow> DEFAULT_PROVIDER | Some ps \<Rightarrow> hd ps)"
proof -
  obtain ns where ns: "args = Inr ns" using assms by (cases args) (simp_all add: parse_runtime_options_def seq_simps)
  from assms ns obtain ws where "arg_workspace ns = Some ws" "length ws = 1"
    by (auto simp: parse_runtime_options_def seq_simps split: option.splits if_splits)
  then obtain w where w: "arg_workspace ns = Some [w]" by (cases ws) auto
  have single: "v = map_option hd vs" if "single_value e vs = Inr v" for e vs v
    using that by (auto simp: single_value_def split: option.splits if_splits)
  obtain provider m selected v boundary where
    o: "single_value ''--provider NAME may be provided at most once'' (arg_provider ns) = Inr provider"
      "validate_provider_selection co (PyStr (case provider of None \<Rightarrow> DEFAULT_PROVIDER | Some p \<Rightarrow> p)) m = Inr (selected, v)"
      "rethrow (\<lambda>e. RuntimeConfigurationError (workspace_error_message e)) (from_path h (PlainPath (PyStr w))) hl = (Inr boundary, hl')"
      "opts = \<lparr>opt_workspace = boundary, opt_transcript_enabled = \<not> arg_no_transcript ns, opt_provider = selected, opt_model = v\<rparr>"
    using assms unfolding parse_runtime_options_def ns by (auto simp: seq_Inr_iff w simp del: lit_simps)
  have "selected = (case arg_provider ns of None \<Rightarrow> DEFAULT_PROVIDER | Some ps \<Rightarrow> hd ps)"
    using selected_provider [OF o(2)] single [OF o(1)] by (cases "arg_provider ns") simp_all
  moreover have "fst (from_path h (PlainPath (PyStr w)) hl) = Inr boundary"
    using o(3) by (auto simp: rethrow_def split: prod.splits sum.splits)
  ultimately show thesis using o(4) by (intro that [OF ns w]) simp_all
qed

lemma compose_Inr: "compose_provider co opts env = Inr cfg \<Longrightarrow> cfg = None \<longleftrightarrow> opt_provider opts = lit ''mock''"
proof -
  assume "compose_provider co opts env = Inr cfg"
  then have "resolve_provider_configuration co (PyStr (opt_provider opts)) (map_option PyStr (opt_model opts)) env = Inr cfg"
    by (simp add: compose_provider_def)
  then obtain q n where q: "validate_provider_selection co (PyStr (opt_provider opts)) (map_option PyStr (opt_model opts)) = Inr (q, n)"
    "(if q = lit ''mock'' then Inr None
       else case n of None \<Rightarrow> Inl OpenAIModelRequired
            | Some m \<Rightarrow> and_then (validate_openai_environment env) (\<lambda>_.
                case map_of env OPENAI_API_KEY_NAME of None \<Rightarrow> Inl InvalidOpenAIApiKey
                | Some key \<Rightarrow>
                    if \<not> is_bounded_visible_utf8 co (PyStr key) 4096 then Inl InvalidOpenAIApiKey
                    else and_then (OpenAIProviderConfiguration co m key) (\<lambda>c. Inr (Some c)))) = Inr cfg"
    by (auto simp: resolve_provider_configuration_def and_then_Inr_iff simp del: lit_simps)
  from q(2) have "cfg = None \<longleftrightarrow> q = lit ''mock''"
    by (auto simp: and_then_Inr_iff simp del: lit_simps split: if_splits option.splits)
  with selected_provider [OF q(1)] show ?thesis by simp
qed


subsection \<open>Refused inputs\<close>

text \<open>
  The inputs the loop answers with an error and nothing else, and the answer: its code, its message
  and the command it is correlated to.
\<close>

definition refusal :: "runtime_state \<Rightarrow> command line_result \<Rightarrow> (string \<times> ustr \<times> ustr option) option" where
  "refusal s r =
     (case r of
        Inl f \<Rightarrow> Some (parse_error_name (parse_code f), parse_message f, None)
      | Inr (RuntimeShutdownCommand _) \<Rightarrow> None
      | Inr (RuntimeInitializeCommand b _) \<Rightarrow>
          if rt_initialized s
          then Some (''already_initialized'', lit ''Runtime initialization has already completed.'', Some (command_id b))
          else None
      | Inr c \<Rightarrow>
          map_option (\<lambda>(code, message). (code, message, Some (command_id (base_of_command c))))
            (if \<not> rt_initialized s
             then Some (''not_initialized'',
               lit ''Runtime initialization must complete before session commands are accepted.'')
             else case c of
               SessionStartCommand _ t \<Rightarrow>
                 if list_all is_py_space t
                 then Some (''invalid_task'', lit ''A session task must contain non-whitespace text.'')
                 else if rt_active s \<noteq> None
                 then Some (''session_active'', lit ''A session is already active.'') else None
             | SessionCancelCommand _ target \<Rightarrow>
                 (case rt_active s of
                    None \<Rightarrow>
                      if rt_latest s = Some target then None
                      else Some (''session_not_active'',
                        lit ''No matching active or recently completed session exists.'')
                  | Some l \<Rightarrow>
                      if live_id l = target then None
                      else Some (''session_mismatch'',
                        lit ''Cancellation target does not match the active session.''))
             | _ \<Rightarrow> None))"

definition valid_input :: "command line_result \<Rightarrow> bool" where
  "valid_input r \<longleftrightarrow> (case r of Inl f \<Rightarrow> f = failure (parse_code f) | Inr c \<Rightarrow> CommandId (command_id (base_of_command c)))"

lemma runtime_error_publishes:
  assumes "ErrorCode (lit code)" "SafeMessage m" "scalars m" "correlation_ok c" "working_sink we"
  shows "\<exists>w. runtime_error we code m True c s = (Inr (), s\<lparr>rt_writer := w\<rparr>) \<and>
    wrote (rt_writer s) w (error_event we (lit code) m True c)"
  using emit_error_publishes [OF assms(1-3) _ assms(4), of we True "rt_writer s"] assms(5)
  by (auto simp: working_sink_def runtime_error_value simp del: lit_simps)

text \<open>The codes and messages of the refusals.\<close>

definition REFUSALS :: "(string \<times> string) list" where
  "REFUSALS =
     map (\<lambda>k. (parse_error_name k, FAILURE_MESSAGES k))
       [MalformedJson, MalformedEnvelope, UnsupportedVersion, UnknownType, InvalidPayload, InvalidFraming,
        InvalidUtf8, LineTooLong] @
     [(''already_initialized'', ''Runtime initialization has already completed.''),
      (''not_initialized'', ''Runtime initialization must complete before session commands are accepted.''),
      (''invalid_task'', ''A session task must contain non-whitespace text.''),
      (''session_active'', ''A session is already active.''),
      (''session_not_active'', ''No matching active or recently completed session exists.''),
      (''session_mismatch'', ''Cancellation target does not match the active session.'')]"

lemma refusal_members:
  "(''already_initialized'', ''Runtime initialization has already completed.'') \<in> set REFUSALS"
  "(''not_initialized'', ''Runtime initialization must complete before session commands are accepted.'') \<in> set REFUSALS"
  "(''invalid_task'', ''A session task must contain non-whitespace text.'') \<in> set REFUSALS"
  "(''session_active'', ''A session is already active.'') \<in> set REFUSALS"
  "(''session_not_active'', ''No matching active or recently completed session exists.'') \<in> set REFUSALS"
  "(''session_mismatch'', ''Cancellation target does not match the active session.'') \<in> set REFUSALS"
  by (simp_all add: REFUSALS_def)

lemma refusal_listed:
  assumes "refusal s r = Some (code, m, c)" "valid_input r"
  shows "\<exists>t. m = lit t \<and> (code, t) \<in> set REFUSALS \<and> correlation_ok c"
proof (cases r)
  case (Inl f)
  have "(parse_error_name k, FAILURE_MESSAGES k) \<in> set REFUSALS" for k
    by (cases k) (simp_all add: REFUSALS_def)
  moreover have "parse_message f = lit (FAILURE_MESSAGES (parse_code f))"
    using assms(2) Inl by (cases f) (simp add: valid_input_def failure_def)
  then have "m = lit (FAILURE_MESSAGES (parse_code f))" using assms(1) Inl by (simp add: refusal_def)
  ultimately show ?thesis using assms(1) Inl by (auto simp: refusal_def correlation_ok_def)
next
  case (Inr x)
  have "correlation_ok (Some (command_id (base_of_command x)))"
    using assms(2) Inr by (simp add: valid_input_def correlation_ok_def)
  moreover have "\<exists>t. m = lit t \<and> (code, t) \<in> set REFUSALS \<and> c = Some (command_id (base_of_command x))"
  proof (cases x)
    case (RuntimeInitializeCommand b path)
    with assms(1) Inr show ?thesis using refusal_members(1)
      by (cases "rt_initialized s") (auto simp: refusal_def simp del: lit_simps)
  next
    case (SessionStartCommand b t)
    with assms(1) Inr show ?thesis using refusal_members(2-4)
      by (cases "rt_initialized s"; cases "list_all is_py_space t"; cases "rt_active s")
        (auto simp: refusal_def simp del: lit_simps)
  next
    case (SessionCancelCommand b target)
    with assms(1) Inr show ?thesis using refusal_members(2,5,6)
      by (cases "rt_initialized s"; cases "rt_active s")
        (auto simp: refusal_def simp del: lit_simps split: if_splits)
  next
    case (RuntimeShutdownCommand b)
    with assms(1) Inr show ?thesis by (simp add: refusal_def)
  qed
  ultimately show ?thesis by blast
qed

lemma refusal_texts:
  assumes "(code, t) \<in> set REFUSALS"
  shows "ErrorCode (lit code) \<and> SafeMessage (lit t) \<and> scalars (lit t)"
proof -
  have "list_all (\<lambda>(code, t). ErrorCode (lit code) \<and> SafeMessage (lit t)) REFUSALS"
    by (simp add: REFUSALS_def ErrorCode_def is_code_char_def is_lower_def is_digit_def SafeMessage_iff is_control_def)
  with assms have "ErrorCode (lit code) \<and> SafeMessage (lit t)" by (fastforce simp: list_all_iff simp del: lit_simps)
  then show ?thesis using scalars_lit by blast
qed


subsection \<open>What the runtime publishes\<close>

text \<open>C1: In every interleaving of commands, session steps, recording failures and teardown, the
  published tape is in order: no session event before the ready event, at most one ready event, the
  sessions one after the other in the order of their numbers without ever overlapping, and the
  events of each session numbered 1, 2, 3, ... .\<close>

theorem runtime_output_ordered:
  assumes "runtime_reachable RC input hl s"
  shows "ordered_output RC (rt_sessions s) (published_events (rt_writer s)) \<and>
    sequences_of sid (published_events (rt_writer s)) =
      map int [1..<Suc (length (sequences_of sid (published_events (rt_writer s))))]"
  using runtime_reachable_good [OF assms] unfolding good_def runtime_inv_def
  by (simp add: tape.numbered_def numbers_sequences)


text \<open>C5: Whatever storage fails, in whichever sessions and however often, the runtime publishes at most one
  recording warning in its life, and none while recording is still available.\<close>

theorem one_recording_warning:
  assumes "runtime_reachable RC input hl s"
  shows "length (filter is_warning (published_events (rt_writer s))) \<le> (if rt_recording s then 0 else 1)"
  using runtime_reachable_good [OF assms] by (simp add: good_def runtime_inv_def recording_inv_def)

subsection \<open>A started session is served\<close>

lemma keep_same: "rt_active s = Some l \<Longrightarrow> rt_writer s = live_writer l \<Longrightarrow> keep_session l s = s"
  by (simp add: keep_session_def)

lemma lift_mock_runs:
  assumes "(mock_run_step cfg)\<^sup>*\<^sup>* m t"
    and s: "rt_active s = Some (MockRun cfg m)" "rt_task s" "rt_phase s = Serving" "rt_writer s = ms_writer m"
  shows "(runtime_step RC)\<^sup>*\<^sup>* s (keep_session (MockRun cfg t) s)"
  using assms(1)
proof (induction rule: rtranclp_induct)
  case base
  from s show ?case by (simp add: keep_same)
next
  case (step t u)
  let ?s = "keep_session (MockRun cfg t) s"
  have "lent_mock ?s t = t" by (simp add: lent_mock_def keep_session_def)
  with step(2) have "mock_run_step cfg (lent_mock ?s t) u" by simp
  then have "runtime_step RC ?s (keep_session (MockRun cfg u) ?s)"
    by (rule mock_runs [rotated 3]) (use s in \<open>simp_all add: keep_session_def\<close>)
  then have "runtime_step RC ?s (keep_session (MockRun cfg u) s)" by (simp add: keep_session_def)
  with step.IH show ?case by (rule rtranclp.rtrancl_into_rtrancl)
qed

lemma mock_session_id_valid:
  assumes "n < 10 ^ 50"
  shows "SessionId (mock_session_id n)"
proof -
  have "length (dec_nat n) \<le> 50" using assms by (intro dec_nat_size) simp_all
  then show ?thesis
    using dec_nat_digits [of _ n]
    by (auto simp: mock_session_id_def SessionId_def tagged_id_def starts_with_def Let_def list_all_iff
        is_id_char_def is_digit_def is_lower_def is_upper_def Suc_le_eq)
qed

lemma fresh_sequence:
  assumes "runtime_inv RC s"
  shows "next_sequence (rt_writer s) (nth_session_id RC (Suc (rt_sessions s))) = 1"
proof -
  let ?sid = "nth_session_id RC (Suc (rt_sessions s))"
  have "event_owner e \<noteq> Some ?sid" if "e \<in> set (events_of s)" for e
    using assms that by (intro ordered_output_unowned) (auto simp: runtime_inv_def)
  then have "sequences_of ?sid (events_of s) = []"
    by (fastforce simp: sequences_of_def event_owner_def split: event.splits)
  moreover have "sequence_counter (rt_writer s) ?sid = int (length (sequences_of ?sid (events_of s)))"
    using assms by (simp add: runtime_inv_def tape.numbered_def numbers_sequences)
  ultimately show ?thesis by (simp add: sequence_counter_def next_sequence_def)
qed

lemma created_mock_fresh:
  assumes "MockSession cfg w = Inr m" "next_sequence w (mc_session_id cfg) = 1"
  shows "mock_fresh cfg m \<and> ms_writer m = w"
  using assms by (auto simp: MockSession_def Let_def mock_fresh_def reduce_session_state_def INITIAL_SESSION_STATE_def
      TERMINAL_SESSION_STATUSES_def split: if_splits)

abbreviation started_config :: "runtime_state \<Rightarrow> command_base \<Rightarrow> ustr \<Rightarrow> mock_config" where
  "started_config s b t \<equiv>
     \<lparr>mc_session_id = mock_session_id (Suc (rt_sessions s)), mc_command_id = command_id b, mc_task = t\<rparr>"

lemma start_without_recording:
  assumes "rc_provider RC = None" "rt_initialized s" "rt_active s = None" "\<not> rt_recording s" "\<not> list_all is_py_space t"
  obtains m where "MockSession (started_config s b t) (rt_writer s) = Inr m"
    "handle_result RC env (Inr (SessionStartCommand b t)) s =
       (Inr (), s\<lparr>rt_sessions := Suc (rt_sessions s), rt_active := Some (MockRun (started_config s b t) m),
                  rt_task := True, rt_task_cancelled := False\<rparr>)"
proof -
  obtain m where m: "MockSession (started_config s b t) (rt_writer s) = Inr m"
    by (simp add: MockSession_def Let_def reduce_session_state_def INITIAL_SESSION_STATE_def
        TERMINAL_SESSION_STATUSES_def)
  then have "create_active RC (command_id b) t s =
      (Inr (), s\<lparr>rt_sessions := Suc (rt_sessions s), rt_active := Some (MockRun (started_config s b t) m)\<rparr>)"
    using assms(1) by (simp add: create_active_def create_mock_session_def Let_def)
  with assms(2-5) have "handle_result RC env (Inr (SessionStartCommand b t)) s =
       (Inr (), s\<lparr>rt_sessions := Suc (rt_sessions s), rt_active := Some (MockRun (started_config s b t) m),
                  rt_task := True, rt_task_cancelled := False\<rparr>)"
    by (simp add: handle_result_def handle_command_def Let_def handle_start_def py_strip_eq_Nil_iff seq_simps del: lit_simps)
  with m show thesis by (rule that)
qed

lemma mock_session_served:
  assumes "runtime_reachable RC input hl s" "rc_provider RC = None" "may_dispatch s"
    and "rt_initialized s" "rt_active s = None" "\<not> rt_recording s" "Suc (rt_sessions s) < 10 ^ 50"
    and "rt_input s = Inr (SessionStartCommand b t) # rest" "CommandId (command_id b)" "\<not> list_all is_py_space t"
    and "working_sink we"
  shows "\<exists>u. (runtime_step RC)\<^sup>*\<^sup>* s u \<and> may_dispatch u \<and> rt_active u = None \<and> rt_input u = rest \<and>
    rt_sessions u = Suc (rt_sessions s) \<and>
    own_tape (mock_session_id (Suc (rt_sessions s))) (published_events (rt_writer u)) =
      success_tape (started_config s b t)"
proof -
  let ?cfg = "started_config s b t"
  let ?s = "s\<lparr>rt_input := rest\<rparr>" and ?env = "undefined :: runtime_env"
  have inv: "runtime_inv RC s" using runtime_reachable_good [OF assms(1)] by (simp add: good_def)
  obtain m where m: "MockSession ?cfg (rt_writer s) = Inr m" and h: "handle_result RC ?env (Inr (SessionStartCommand b t)) ?s =
      (Inr (), ?s\<lparr>rt_sessions := Suc (rt_sessions s), rt_active := Some (MockRun ?cfg m),
                 rt_task := True, rt_task_cancelled := False\<rparr>)"
    by (rule start_without_recording [where RC = RC and s = ?s and t = t and b = b and env = ?env])
      (use assms(2,4-6,10) that in simp_all)
  let ?a = "?s\<lparr>rt_sessions := Suc (rt_sessions s), rt_active := Some (MockRun ?cfg m),
               rt_task := True, rt_task_cancelled := False\<rparr>"
  have start: "runtime_step RC s ?a"
    using handles [OF assms(3,8), of RC ?env] h by (simp add: settle_loop_def)
  have "next_sequence (rt_writer s) (mc_session_id ?cfg) = 1"
    using fresh_sequence [OF inv] assms(2) by (simp add: nth_session_id_def)
  from created_mock_fresh [OF m this] have fresh: "mock_fresh ?cfg m" "ms_writer m = rt_writer s" by simp_all
  have "valid_mock ?cfg" using assms(7,9) by (simp add: valid_mock_def mock_session_id_valid)
  from quiet_mock_run [OF this assms(11) fresh(1)] obtain x where
    x: "(mock_run_step ?cfg)\<^sup>*\<^sup>* m x" "ms_phase x = MockReturned" "ms_terminal_outcome x = Some MockCompleted" by blast
  let ?k = "keep_session (MockRun ?cfg x) ?a"
  have serving: "rt_phase s = Serving" using assms(3) by (simp add: may_dispatch_def)
  have run: "(runtime_step RC)\<^sup>*\<^sup>* ?a ?k"
    using x(1) fresh(2) [symmetric] serving by (intro lift_mock_runs) simp_all
  have "runtime_step RC ?k (reap_session RC ?k)"
    using x(2) serving by (intro reaps [where l = "MockRun ?cfg x"]) (simp_all add: keep_session_def)
  with start run have steps: "(runtime_step RC)\<^sup>*\<^sup>* s (reap_session RC ?k)"
    by (meson converse_rtranclp_into_rtranclp rtranclp.rtrancl_into_rtrancl)
  have "fresh_session ?cfg (rt_writer s)"
    using ordered_output_fresh [of RC "rt_sessions s" "events_of s"] inv assms(2)
    by (simp add: fresh_session_def own_tape_def nth_session_id_def runtime_inv_def)
  then have "mock_ok ?cfg m" by (rule mock_ok_created [OF m])
  with x(1) have "mock_ok ?cfg x"
    by (induction rule: rtranclp_induct) (auto intro: mock_ok_run_step)
  then have "mock_tape ?cfg x = success_tape ?cfg" using x(2,3) by (simp add: mock_ok_def phase_tape_def)
  then have tape: "own_tape (mock_session_id (Suc (rt_sessions s))) (events_of (reap_session RC ?k)) = success_tape ?cfg"
    by (simp add: mock_tape_own reap_session_def Let_def keep_session_def)
  moreover have "may_dispatch (reap_session RC ?k)" "rt_active (reap_session RC ?k) = None"
    "rt_input (reap_session RC ?k) = rest" "rt_sessions (reap_session RC ?k) = Suc (rt_sessions s)"
    by (simp_all add: may_dispatch_def reap_session_def Let_def keep_session_def close_transcript_def split: option.split)
  ultimately show ?thesis using steps by blast
qed


subsection \<open>The properties at work\<close>

text \<open>
  A runtime for the workspace of the example host, without recording, given an initialization, a
  session start and nothing more.
\<close>

definition example_runtime :: runtime_config where
  "example_runtime =
     \<lparr>rc_host = example_host, rc_boundary = example_boundary, rc_provider = None, rc_transcript_enabled = False,
      rc_settings = None, rc_creation = example_creation True, rc_json = std_json, rc_files = (\<lambda>_. failing_ops)\<rparr>"

definition example_sink :: write_env where
  "example_sink = \<lparr>env_timestamp = lit ''2026-01-01T00:00:00.000Z'', env_sink = None, env_cancelled = False\<rparr>"

definition example_runtime_env :: runtime_env where
  "example_runtime_env = \<lparr>rn_write = (\<lambda>_. example_sink), rn_observer = None, rn_tx = example_tx\<rparr>"

definition example_command_base :: "ustr \<Rightarrow> command_base" where
  "example_command_base i = \<lparr>command_id = i, cmd_timestamp = lit ''2026-01-01T00:00:00.000Z''\<rparr>"

definition example_input :: "command line_result list" where
  "example_input =
     [Inr (RuntimeInitializeCommand (example_command_base (lit ''cmd_1'')) (lit ''w'')),
      Inr (SessionStartCommand (example_command_base (lit ''cmd_2'')) (lit ''t''))]"

lemma example_sink_works: "working_sink example_sink"
  using example_timestamp by (simp add: working_sink_def example_sink_def)

lemma example_command_ids: "CommandId (lit ''cmd_1'')" "CommandId (lit ''cmd_2'')"
  by (simp_all add: CommandId_def tagged_id_def starts_with_def Let_def is_id_char_def is_digit_def is_lower_def is_upper_def)

lemma example_dot:
  "\<exists>x c. resolve_existing example_host example_boundary (PlainPath (PyStr (lit ''.''))) s = (Inr x, s\<lparr>calls := c\<rparr>)"
proof -
  have "and_then (path_like_string (PlainPath (PyStr (lit ''.'')))) normalize_workspace_relative_path = Inr []"
    by (simp add: path_like_string_def normalize_eval)
  moreover have "\<exists>q. snapshot_of example_boundary (wb_root example_boundary) = Inr q"
    by (simp add: snapshot_of_def path_label_def example_boundary_def normalize_eval)
  ultimately show ?thesis
    by (auto simp: resolve_existing_def resolve_target_def seq_simps attempt_def example_root_check simp del: lit_simps)
qed

lemma example_requested:
  "\<exists>c. requested_boundary example_runtime (lit ''w'') s = (Inr example_boundary, s\<lparr>calls := c\<rparr>)"
proof -
  have "\<exists>c. from_path example_host (PlainPath (PyStr (lit ''w''))) s = (Inr example_boundary, s\<lparr>calls := c\<rparr>)"
    by (simp add: from_path_def seq_simps host_do_def path_stat_def example_host_def example_status_def
        example_link_def example_boundary_def) blast
  then obtain c where c: "from_path example_host (PlainPath (PyStr (lit ''w''))) s = (Inr example_boundary, s\<lparr>calls := c\<rparr>)" ..
  obtain x d where "resolve_existing example_host example_boundary (PlainPath (PyStr (lit ''.''))) (s\<lparr>calls := c\<rparr>) =
      (Inr x, s\<lparr>calls := c\<rparr>\<lparr>calls := d\<rparr>)"
    using example_dot by blast
  with c show ?thesis by (simp add: requested_boundary_def seq_simps example_runtime_def del: lit_simps) blast
qed

lemma example_runtime_starts: "\<exists>s. start_runtime example_runtime example_input [] = Inr s \<and> may_dispatch s \<and>
  rt_input s = example_input \<and> \<not> rt_initialized s \<and> rt_active s = None \<and> \<not> rt_recording s \<and> rt_sessions s = 0"
proof -
  obtain x c where "resolve_existing example_host example_boundary (PlainPath (PyStr (lit ''.''))) \<lparr>calls = []\<rparr> =
      (Inr x, \<lparr>calls = []\<rparr>\<lparr>calls := c\<rparr>)"
    using example_dot by blast
  then show ?thesis
    by (simp add: start_runtime_def example_runtime_def may_dispatch_def del: lit_simps)
qed

lemma example_waiting:
  obtains s where "runtime_reachable example_runtime example_input [] s" "may_dispatch s" "rt_initialized s"
    "rt_active s = None" "\<not> rt_recording s" "rt_sessions s = 0" "rt_input s = tl example_input"
proof -
  obtain s where s: "start_runtime example_runtime example_input [] = Inr s" "may_dispatch s" "rt_input s = example_input"
    "\<not> rt_initialized s" "rt_active s = None" "\<not> rt_recording s" "rt_sessions s = 0"
    using example_runtime_starts by blast
  let ?s = "s\<lparr>rt_input := tl example_input\<rparr>"
  obtain c where c: "requested_boundary example_runtime (lit ''w'') ?s = (Inr example_boundary, ?s\<lparr>calls := c\<rparr>)"
    using example_requested by blast
  let ?t = "?s\<lparr>calls := c, rt_initialized := True\<rparr>"
  obtain w where w: "emit_runtime example_sink (lit ''runtime.ready'')
      [(lit ''workspace'', JStr (lit ''/w''))] (Some (lit ''cmd_1'')) (rt_writer ?t) =
      (Inr (ready_event example_sink (lit ''/w'') (Some (lit ''cmd_1''))), w)"
    using emit_ready_publishes [of "lit ''/w''" example_sink "Some (lit ''cmd_1'')" "rt_writer ?t"]
      example_sink_works example_command_ids
    by (auto simp: working_sink_def correlation_ok_def wire_size_def utf8_char_def is_scalar_def is_surrogate_def)
  have "root_text (wb_root example_boundary) = lit ''/w''" by (simp add: root_text_def example_boundary_def)
  moreover have "rc_boundary example_runtime = example_boundary" by (simp add: example_runtime_def)
  ultimately have "handle_result example_runtime example_runtime_env (hd example_input) ?s = (Inr (), ?t\<lparr>rt_writer := w\<rparr>)"
    using s(4) c w
    by (simp add: handle_result_def example_input_def handle_command_def Let_def handle_initialize_def seq_simps
        attempt_def example_runtime_env_def emit_runtime_event_def example_command_base_def del: lit_simps)
  moreover have "runtime_step example_runtime s
      (settle_loop example_runtime_env (handle_result example_runtime example_runtime_env (hd example_input) ?s))"
    by (rule handles [OF s(2)]) (simp add: s(3) example_input_def)
  ultimately have step: "runtime_step example_runtime s (?t\<lparr>rt_writer := w\<rparr>)" by (simp add: settle_loop_def)
  show thesis
    by (rule that [OF runtime_continues [OF runtime_started [OF s(1)] step]])
      (use s in \<open>simp_all add: may_dispatch_def\<close>)
qed

lemma example_session_served:
  obtains u where "runtime_reachable example_runtime example_input [] u" "rt_active u = None" "rt_sessions u = 1"
    "own_tape (mock_session_id 1) (published_events (rt_writer u)) \<noteq> []"
proof (rule example_waiting)
  fix s assume s: "runtime_reachable example_runtime example_input [] s" "may_dispatch s" "rt_initialized s"
    "rt_active s = None" "\<not> rt_recording s" "rt_sessions s = 0" "rt_input s = tl example_input"
  have "\<exists>u. (runtime_step example_runtime)\<^sup>*\<^sup>* s u \<and> may_dispatch u \<and> rt_active u = None \<and> rt_input u = [] \<and>
    rt_sessions u = Suc (rt_sessions s) \<and>
    own_tape (mock_session_id (Suc (rt_sessions s))) (published_events (rt_writer u)) =
      success_tape (started_config s (example_command_base (lit ''cmd_2'')) (lit ''t''))"
    by (rule mock_session_served [OF s(1) _ s(2-5) _ _ _ _ example_sink_works])
      (use s(6,7) example_command_ids in
        \<open>simp_all add: example_runtime_def example_input_def example_command_base_def is_py_space_def\<close>)
  then obtain u where u: "(runtime_step example_runtime)\<^sup>*\<^sup>* s u" "rt_active u = None" "rt_sessions u = 1"
    "own_tape (mock_session_id 1) (published_events (rt_writer u)) =
       success_tape (started_config s (example_command_base (lit ''cmd_2'')) (lit ''t''))"
    using s(6) by auto
  from u(1) have "runtime_reachable example_runtime example_input [] u"
    by (induction rule: rtranclp_induct) (auto intro: s(1) runtime_continues)
  then show thesis by (rule that) (use u(2-4) in \<open>simp_all add: success_tape_def Let_def\<close>)
qed


lemma runtime_output_ordered_witness:
  "\<exists>s :: runtime_state. rt_sessions s = 1 \<and> ordered_output example_runtime 1 (published_events (rt_writer s)) \<and>
    own_tape (mock_session_id 1) (published_events (rt_writer s)) \<noteq> []"
  by (rule example_session_served) (metis runtime_output_ordered)


lemma one_recording_warning_witness:
  "\<exists>s :: runtime_state. rt_sessions s = 1 \<and> length (filter is_warning (published_events (rt_writer s))) \<le> (if rt_recording s then 0 else 1)"
  by (rule example_session_served) (metis one_recording_warning)


end
