(* ===== verification/Spec2Isabelle.thy ===== *)
theory Spec2Isabelle
  imports Session_State Loop_Limits Provider_Models Line_Reader Event_Writer Provider_Session_Properties Repository_Policy Fake_Provider Mock_Session Transcript_Claims Transcript_Creation OpenAI_Config Responses_Claims Runtime_Claims
begin

section \<open>The code-assist harness\<close>

text \<open>
  A verification library of the Python harness under \<open>src/src/code_assist_harness\<close>.

  \<^item> \<open>Prelude\<close>, \<open>Py_Text\<close>: exceptions as sums, Python text and UTF-8.
  \<^item> \<open>Protocol_Models\<close> (protocol/models.py): wire values and their constraints.
  \<^item> \<open>Session_State\<close> (session_state.py): the lifecycle reducer and replay.
  \<^item> \<open>Loop_Limits\<close> (loop_limits.py, model_evidence.py): budgets and evidence.
\<close>

end
